(* ===== verification/Prelude.thy ===== *)
theory Prelude
  imports Complex_Main "HOL-Library.List_Lexorder" "HOL-Library.Char_ord"
begin

text \<open>
  Shared vocabulary of the development: identifiers and instants, results with errors as
  values, the Python idioms the sources use everywhere (\<open>a or b\<close> on optional strings,
  \<open>dict.fromkeys\<close>, \<open>sorted(set(...))\<close>, \<open>next(iterator, None)\<close>), and the theorem
  collections the components fill.

  A UUID is modelled by its canonical text: the sources compare, sort (\<open>key=str\<close>) and store
  UUIDs by that text, and the lexicographic order on it is the order of the UUID values.
  An instant is a count of microseconds: every timestamp column is \<open>timestamptz\<close> and the
  sources normalise with \<open>_as_utc\<close> before they compare.
\<close>

type_synonym uuid = string
type_synonym instant = int

named_theorems access_defs "definitions of the authorization decisions"
named_theorems result_simps "how results propagate through the early returns"
named_theorems action_defs "definitions of the action engine's steps"

section \<open>Results\<close>

definition result_bind :: "'e + 'a \<Rightarrow> ('a \<Rightarrow> 'e + 'b) \<Rightarrow> 'e + 'b" where
  "result_bind r f = (case r of Inl e \<Rightarrow> Inl e | Inr x \<Rightarrow> f x)"

lemma result_bind_simps [simp, result_simps]:
  "result_bind (Inl e) f = Inl e"
  "result_bind (Inr x) f = f x"
  by (simp_all add: result_bind_def)

lemma result_bind_Inr_iff [result_simps]:
  "result_bind r f = Inr y \<longleftrightarrow> (\<exists>x. r = Inr x \<and> f x = Inr y)"
  by (cases r) simp_all

definition ensure :: "bool \<Rightarrow> 'e \<Rightarrow> 'e + unit" where
  "ensure b e = (if b then Inr () else Inl e)"

lemma ensure_Inr_iff [simp, result_simps]: "ensure b e = Inr u \<longleftrightarrow> b"
  by (simp add: ensure_def)

lemma ensure_bind [simp, result_simps]:
  "result_bind (ensure b e) f = (if b then f () else Inl e)"
  by (simp add: ensure_def)

definition is_ok :: "'e + 'a \<Rightarrow> bool" where
  "is_ok r = (case r of Inl _ \<Rightarrow> False | Inr _ \<Rightarrow> True)"

lemma is_ok_simps [simp]: "is_ok (Inr x)" "\<not> is_ok (Inl e)"
  by (simp_all add: is_ok_def)

lemma is_ok_iff: "is_ok r \<longleftrightarrow> (\<exists>x. r = Inr x)"
  by (cases r) simp_all

fun traverse :: "('a \<Rightarrow> 'e + 'b) \<Rightarrow> 'a list \<Rightarrow> 'e + 'b list" where
  "traverse f [] = Inr []"
| "traverse f (x # xs) =
     result_bind (f x) (\<lambda>y. result_bind (traverse f xs) (\<lambda>ys. Inr (y # ys)))"

lemma traverse_Inr_iff:
  "traverse f xs = Inr ys \<longleftrightarrow> list_all2 (\<lambda>x y. f x = Inr y) xs ys"
proof (induction xs arbitrary: ys)
  case Nil
  show ?case by auto
next
  case (Cons x xs)
  then show ?case by (auto simp: result_bind_Inr_iff list_all2_Cons1)
qed

lemma traverse_map_Inr: "(\<And>x. x \<in> set xs \<Longrightarrow> f x = Inr (g x)) \<Longrightarrow> traverse f xs = Inr (map g xs)"
  by (induction xs) simp_all

section \<open>Python idioms\<close>

text \<open>\<open>next((x for x in xs if p(x)), None)\<close> is \<^term>\<open>List.find\<close>.\<close>

lemma find_None_iff_ex: "List.find p xs = None \<longleftrightarrow> \<not> (\<exists>x \<in> set xs. p x)"
  by (auto simp: find_None_iff)

lemma find_SomeD: "List.find p xs = Some x \<Longrightarrow> x \<in> set xs \<and> p x"
  by (auto simp: find_Some_iff)

text \<open>A string or \<open>None\<close> is falsy when it is \<open>None\<close> or empty; \<open>a or b\<close> picks the first truthy.\<close>

definition truthy_str :: "string option \<Rightarrow> bool" where
  "truthy_str s = (case s of None \<Rightarrow> False | Some t \<Rightarrow> t \<noteq> [])"

lemma truthy_str_simps [simp]: "\<not> truthy_str None" "truthy_str (Some t) \<longleftrightarrow> t \<noteq> []"
  by (simp_all add: truthy_str_def)

lemma truthy_str_Some: "truthy_str s \<Longrightarrow> s = Some (the s) \<and> the s \<noteq> []"
  by (cases s) simp_all

definition str_or :: "string option \<Rightarrow> string option \<Rightarrow> string option" where
  "str_or a b = (if truthy_str a then a else b)"

definition or_empty :: "string option \<Rightarrow> string" where
  "or_empty a = (case a of None \<Rightarrow> [] | Some s \<Rightarrow> s)"

lemma or_empty_simps [simp]: "or_empty None = []" "or_empty (Some s) = s"
  by (simp_all add: or_empty_def)

text \<open>\<open>dict.fromkeys(xs)\<close>: each element once, in the order of first occurrence.\<close>

fun dedup :: "'a list \<Rightarrow> 'a list" where
  "dedup [] = []"
| "dedup (x # xs) = x # dedup (filter (\<lambda>y. y \<noteq> x) xs)"

lemma set_dedup [simp]: "set (dedup xs) = set xs"
  by (induction xs rule: dedup.induct) auto

lemma distinct_dedup [simp]: "distinct (dedup xs)"
  by (induction xs rule: dedup.induct) auto

lemma dedup_distinct_id: "distinct xs \<Longrightarrow> dedup xs = xs"
proof (induction xs rule: dedup.induct)
  case 1
  show ?case by simp
next
  case (2 x xs)
  then have "filter (\<lambda>y. y \<noteq> x) xs = xs" by (auto intro: filter_True)
  with 2 show ?case by simp
qed

lemma dedup_eq_Nil [simp]: "dedup xs = [] \<longleftrightarrow> xs = []"
  by (cases xs) simp_all

lemma dedup_dedup [simp]: "dedup (dedup xs) = dedup xs"
  by (rule dedup_distinct_id) simp

text \<open>\<open>sorted(set(xs))\<close>.\<close>

definition sorted_set :: "'a::linorder list \<Rightarrow> 'a list" where
  "sorted_set xs = sort (remdups xs)"

lemma set_sorted_set [simp]: "set (sorted_set xs) = set xs"
  by (simp add: sorted_set_def)

lemma sorted_sorted_set [simp]: "sorted (sorted_set xs)"
  by (simp add: sorted_set_def)

lemma distinct_sorted_set [simp]: "distinct (sorted_set xs)"
  by (simp add: sorted_set_def)

lemma sorted_set_eq_Nil [simp]: "sorted_set xs = [] \<longleftrightarrow> xs = []"
  by (metis set_empty set_sorted_set)

lemma sorted_set_unique: "set xs = set ys \<Longrightarrow> sorted_set xs = sorted_set ys"
  by (simp add: sorted_set_def sorted_list_of_set_sort_remdups [symmetric])

lemma length_sorted_set: "length (sorted_set xs) = card (set xs)"
  by (metis distinct_card distinct_sorted_set set_sorted_set)

text \<open>\<open>sep.join(parts)\<close> for a one-character separator, and splitting at it.\<close>

fun join_char :: "char \<Rightarrow> string list \<Rightarrow> string" where
  "join_char c [] = []"
| "join_char c [s] = s"
| "join_char c (s # t # ss) = s @ c # join_char c (t # ss)"

fun split_char :: "char \<Rightarrow> string \<Rightarrow> string list" where
  "split_char c [] = [[]]"
| "split_char c (x # xs) =
     (if x = c then [] # split_char c xs
      else (case split_char c xs of [] \<Rightarrow> [[x]] | s # ss \<Rightarrow> (x # s) # ss))"

lemma split_char_nonempty [simp]: "split_char c s \<noteq> []"
  by (induction s) (auto split: list.splits)

lemma split_char_no_sep: "c \<notin> set s \<Longrightarrow> split_char c s = [s]"
  by (induction s) auto

lemma split_char_append_sep:
  "c \<notin> set s \<Longrightarrow> split_char c (s @ c # t) = s # split_char c t"
  by (induction s) auto

text \<open>Splitting undoes joining when no part contains the separator.\<close>

lemma split_join_char:
  "ss \<noteq> [] \<Longrightarrow> (\<And>s. s \<in> set ss \<Longrightarrow> c \<notin> set s) \<Longrightarrow> split_char c (join_char c ss) = ss"
proof (induction c ss rule: join_char.induct)
  case (1 c)
  then show ?case by simp
next
  case (2 c s)
  then show ?case by (simp add: split_char_no_sep)
next
  case (3 c s t ss)
  then show ?case by (simp add: split_char_append_sep)
qed

lemma join_char_eq_Nil:
  "join_char c ss = [] \<longleftrightarrow> ss = [] \<or> ss = [[]]"
proof (cases ss)
  case (Cons s ts)
  then show ?thesis by (cases ts) simp_all
qed simp

section \<open>Sorting by a key\<close>

lemma set_sort_key_eq [simp]: "set (sort_key f xs) = set xs"
  by simp

lemma sort_key_filter_id: "sorted (map f xs) \<Longrightarrow> sort_key f xs = xs"
  by (simp add: sorted_sort_id sort_key_id_if_sorted)

section \<open>Lookups in tables\<close>

definition find_by :: "('r \<Rightarrow> 'k) \<Rightarrow> 'k \<Rightarrow> 'r list \<Rightarrow> 'r option" where
  "find_by key k rows = List.find (\<lambda>r. key r = k) rows"

lemma find_by_SomeD: "find_by key k rows = Some r \<Longrightarrow> r \<in> set rows \<and> key r = k"
  unfolding find_by_def by (drule find_SomeD) simp

lemma find_by_None: "find_by key k rows = None \<longleftrightarrow> k \<notin> key ` set rows"
  unfolding find_by_def find_None_iff by auto

lemma find_by_distinct:
  assumes "distinct (map key rows)" and "r \<in> set rows"
  shows "find_by key (key r) rows = Some r"
proof -
  obtain r' where r': "find_by key (key r) rows = Some r'"
    using assms(2) by (metis find_by_None image_eqI not_None_eq)
  then have "r' \<in> set rows" "key r' = key r" by (auto dest: find_by_SomeD)
  with assms have "r' = r" by (meson distinct_map inj_onD)
  with r' show ?thesis by simp
qed

lemma find_by_append:
  "find_by key k (xs @ ys) = (case find_by key k xs of None \<Rightarrow> find_by key k ys | Some x \<Rightarrow> Some x)"
  by (induction xs) (auto simp: find_by_def)

text \<open>A row-wise update that keeps the keys commutes with the lookup.\<close>

lemma find_by_map_key:
  "(\<And>x. x \<in> set xs \<Longrightarrow> key (g x) = key x) \<Longrightarrow>
     find_by key k (map g xs) = map_option g (find_by key k xs)"
  by (induction xs) (auto simp: find_by_def)

end
