(* ===== verification/Access_Context.thy ===== *)
theory Access_Context
  imports Prelude "HOL-Library.Multiset"
begin

text \<open>
  Effective permissions and the access context of a user
  (\<open>auth/permissions.py\<close>, \<open>auth/access_context.py\<close>), over the product tables they read.

  The order \<open>ORDER BY is_default DESC, scope_type, scope_key\<close> depends on the database's
  collation: it is the argument \<open>scope_order\<close>, on which the development only relies to
  permute the rows and to put the default rows first (\<open>scope_order_ok\<close>).
\<close>

section \<open>The product tables the authorization code reads\<close>

record app_user =
  au_id :: uuid
  au_role_id :: "uuid option"
  au_status :: string
  au_auth_provider :: string
  au_full_name :: string
  au_email :: string
  au_department_id :: "uuid option"

record role_row =
  ro_id :: uuid
  ro_name :: string

record permission_row =
  pm_id :: uuid
  pm_key :: string

record role_permission_row =
  rp_role_id :: uuid
  rp_permission_id :: uuid

record user_permission_row =
  up_user_id :: uuid
  up_permission_id :: uuid
  up_effect :: string

record access_scope_row =
  as_id :: uuid
  as_scope_type :: string
  as_scope_key :: string
  as_display_name :: string
  as_department_id :: "uuid option"

record user_access_scope_row =
  us_user_id :: uuid
  us_scope_id :: uuid
  us_access_level :: string
  us_is_default :: bool

record auth_tables =
  at_users :: "app_user list"
  at_roles :: "role_row list"
  at_permissions :: "permission_row list"
  at_role_permissions :: "role_permission_row list"
  at_user_permissions :: "user_permission_row list"
  at_scopes :: "access_scope_row list"
  at_user_scopes :: "user_access_scope_row list"

section \<open>API errors\<close>

record api_error =
  ae_code :: string
  ae_message :: string
  ae_status_code :: int

definition unauthorized_error :: api_error where
  "unauthorized_error =
     \<lparr>ae_code = ''UNAUTHORIZED'', ae_message = ''Authentication is required.'',
      ae_status_code = 401\<rparr>"

definition forbidden_error :: api_error where
  "forbidden_error =
     \<lparr>ae_code = ''FORBIDDEN'',
      ae_message = ''You are not authorized to perform this action.'',
      ae_status_code = 403\<rparr>"

section \<open>Effective permissions\<close>

text \<open>\<open>Permission JOIN RolePermission\<close> for one role, and \<open>Permission JOIN UserPermission\<close> for one user.\<close>

definition role_permission_keys :: "auth_tables \<Rightarrow> uuid option \<Rightarrow> string list" where
  "role_permission_keys db role_id =
     (case role_id of
        None \<Rightarrow> []
      | Some r \<Rightarrow> [pm_key p. p \<leftarrow> at_permissions db, rp \<leftarrow> at_role_permissions db,
                    rp_permission_id rp = pm_id p \<and> rp_role_id rp = r])"

definition user_permission_rows :: "auth_tables \<Rightarrow> uuid \<Rightarrow> (string \<times> string) list" where
  "user_permission_rows db uid =
     [(pm_key p, up_effect up). p \<leftarrow> at_permissions db, up \<leftarrow> at_user_permissions db,
        up_permission_id up = pm_id p \<and> up_user_id up = uid]"

definition resolve_effective_permission_keys :: "app_user \<Rightarrow> auth_tables \<Rightarrow> string list" where
  "resolve_effective_permission_keys user db =
     (let role_keys = role_permission_keys db (au_role_id user);
          rows = user_permission_rows db (au_id user);
          allow_keys = [k. (k, e) \<leftarrow> rows, e = ''allow''];
          deny_keys = [k. (k, e) \<leftarrow> rows, e = ''deny'']
      in sorted_set (filter (\<lambda>k. k \<notin> set deny_keys) (role_keys @ allow_keys)))"

text \<open>What the tables grant and deny, independently of how the rows are collected.\<close>

definition granted_by_role :: "auth_tables \<Rightarrow> app_user \<Rightarrow> string \<Rightarrow> bool" where
  "granted_by_role db user k \<longleftrightarrow>
     (\<exists>p \<in> set (at_permissions db). \<exists>rp \<in> set (at_role_permissions db).
        pm_key p = k \<and> rp_permission_id rp = pm_id p \<and> Some (rp_role_id rp) = au_role_id user)"

definition has_user_effect :: "auth_tables \<Rightarrow> app_user \<Rightarrow> string \<Rightarrow> string \<Rightarrow> bool" where
  "has_user_effect db user effect k \<longleftrightarrow>
     (\<exists>p \<in> set (at_permissions db). \<exists>up \<in> set (at_user_permissions db).
        pm_key p = k \<and> up_permission_id up = pm_id p \<and> up_user_id up = au_id user
        \<and> up_effect up = effect)"

lemma set_role_permission_keys:
  "k \<in> set (role_permission_keys db (au_role_id user)) \<longleftrightarrow> granted_by_role db user k"
  by (auto simp: role_permission_keys_def granted_by_role_def split: option.splits)

lemma set_user_permission_rows:
  "(k, e) \<in> set (user_permission_rows db (au_id user)) \<longleftrightarrow> has_user_effect db user e k"
  by (auto simp: user_permission_rows_def has_user_effect_def)

section \<open>Sessions and the current user\<close>

record session_data =
  sd_user_id :: uuid
  sd_auth_provider :: string

text \<open>\<open>get_auth_mode\<close> reads the environment: the mode is an argument.\<close>

definition get_current_app_user_for_session ::
  "string \<Rightarrow> session_data \<Rightarrow> auth_tables \<Rightarrow> app_user option" where
  "get_current_app_user_for_session auth_mode session db =
     (if sd_auth_provider session \<noteq> auth_mode then None
      else (case find_by au_id (sd_user_id session) (at_users db) of
              None \<Rightarrow> None
            | Some user \<Rightarrow>
                (if au_status user \<noteq> ''active'' \<or> au_auth_provider user \<noteq> sd_auth_provider session
                 then None else Some user)))"

definition get_current_app_user ::
  "string \<Rightarrow> session_data option \<Rightarrow> auth_tables \<Rightarrow> app_user option" where
  "get_current_app_user auth_mode session db =
     (case session of None \<Rightarrow> None | Some sd \<Rightarrow> get_current_app_user_for_session auth_mode sd db)"

definition require_authenticated_user :: "app_user option \<Rightarrow> api_error + app_user" where
  "require_authenticated_user current =
     (case current of None \<Rightarrow> Inl unauthorized_error | Some user \<Rightarrow> Inr user)"

definition require_permission ::
  "string \<Rightarrow> app_user option \<Rightarrow> auth_tables \<Rightarrow> api_error + app_user" where
  "require_permission key current db =
     result_bind (require_authenticated_user current) (\<lambda>user.
       if key \<notin> set (resolve_effective_permission_keys user db) then Inl forbidden_error
       else Inr user)"

definition require_any_permission ::
  "string list \<Rightarrow> app_user option \<Rightarrow> auth_tables \<Rightarrow> api_error + app_user" where
  "require_any_permission keys current db =
     result_bind (require_authenticated_user current) (\<lambda>user.
       if set keys \<inter> set (resolve_effective_permission_keys user db) = {}
       then Inl forbidden_error else Inr user)"

section \<open>The access context\<close>

record access_scope_context =
  sc_id :: uuid
  sc_type :: string
  sc_key :: string
  sc_display_name :: string
  sc_access_level :: string
  sc_is_default :: bool
  sc_department_id :: "uuid option"

record subject_attributes =
  sa_role :: "string option"
  sa_permissions :: "string list"
  sa_scope_types :: "string list"
  sa_has_global_scope :: bool
  sa_auth_provider :: string

record user_access_context =
  uc_user_id :: uuid
  uc_role :: "string option"
  uc_permissions :: "string set"
  uc_scopes :: "access_scope_context list"
  uc_default_scope :: "access_scope_context option"
  uc_has_global_scope :: bool
  uc_subject_attributes :: subject_attributes

definition has_permission :: "user_access_context \<Rightarrow> string \<Rightarrow> bool" where
  "has_permission ctx key \<longleftrightarrow> key \<in> uc_permissions ctx"

definition has_scope :: "user_access_context \<Rightarrow> string \<Rightarrow> string \<Rightarrow> bool" where
  "has_scope ctx t k \<longleftrightarrow> list_ex (\<lambda>sc. sc_type sc = t \<and> sc_key sc = k) (uc_scopes ctx)"

definition has_scope_id :: "user_access_context \<Rightarrow> uuid \<Rightarrow> bool" where
  "has_scope_id ctx i \<longleftrightarrow> list_ex (\<lambda>sc. sc_id sc = i) (uc_scopes ctx)"

type_synonym scope_order =
  "(user_access_scope_row \<times> access_scope_row) list \<Rightarrow> (user_access_scope_row \<times> access_scope_row) list"

definition scope_order_ok :: "scope_order \<Rightarrow> bool" where
  "scope_order_ok ord \<longleftrightarrow>
     (\<forall>rows. mset (ord rows) = mset rows \<and> sorted (map (\<lambda>(u, s). \<not> us_is_default u) (ord rows)))"

definition scope_context_of :: "user_access_scope_row \<times> access_scope_row \<Rightarrow> access_scope_context" where
  "scope_context_of = (\<lambda>(u, s).
     \<lparr>sc_id = as_id s, sc_type = as_scope_type s, sc_key = as_scope_key s,
      sc_display_name = as_display_name s, sc_access_level = us_access_level u,
      sc_is_default = us_is_default u, sc_department_id = as_department_id s\<rparr>)"

definition load_scope_contexts ::
  "scope_order \<Rightarrow> app_user \<Rightarrow> auth_tables \<Rightarrow> access_scope_context list" where
  "load_scope_contexts ord user db =
     map scope_context_of
       (ord [(u, s). u \<leftarrow> at_user_scopes db, s \<leftarrow> at_scopes db,
               as_id s = us_scope_id u \<and> us_user_id u = au_id user])"

definition build_user_access_context ::
  "scope_order \<Rightarrow> app_user \<Rightarrow> auth_tables \<Rightarrow> user_access_context" where
  "build_user_access_context ord user db =
     (let role = (case au_role_id user of None \<Rightarrow> None | Some r \<Rightarrow> find_by ro_id r (at_roles db));
          permissions = resolve_effective_permission_keys user db;
          scopes = load_scope_contexts ord user db;
          default_scope = (case List.find sc_is_default scopes of
             Some s \<Rightarrow> Some s
           | None \<Rightarrow> (case scopes of [] \<Rightarrow> None | s # _ \<Rightarrow> Some s));
          has_global = list_ex (\<lambda>sc. sc_type sc = ''global'' \<and> sc_key sc = ''global'') scopes
      in \<lparr>uc_user_id = au_id user, uc_role = map_option ro_name role,
          uc_permissions = set permissions, uc_scopes = scopes,
          uc_default_scope = default_scope, uc_has_global_scope = has_global,
          uc_subject_attributes =
            \<lparr>sa_role = map_option ro_name role, sa_permissions = permissions,
             sa_scope_types = sorted_set (map sc_type scopes),
             sa_has_global_scope = has_global, sa_auth_provider = au_auth_provider user\<rparr>\<rparr>)"

lemma build_user_access_context_user [simp]:
  "uc_user_id (build_user_access_context ord user db) = au_id user"
  by (simp add: build_user_access_context_def Let_def)

lemma build_user_access_context_permissions [simp]:
  "uc_permissions (build_user_access_context ord user db)
     = set (resolve_effective_permission_keys user db)"
  by (simp add: build_user_access_context_def Let_def)

lemma build_user_access_context_scopes [simp]:
  "uc_scopes (build_user_access_context ord user db) = load_scope_contexts ord user db"
  by (simp add: build_user_access_context_def Let_def)

lemma build_user_access_context_global [simp]:
  "uc_has_global_scope (build_user_access_context ord user db)
     \<longleftrightarrow> has_scope (build_user_access_context ord user db) ''global'' ''global''"
  by (simp add: build_user_access_context_def has_scope_def Let_def)

lemma load_scope_contexts_set:
  assumes "scope_order_ok ord"
  shows "set (load_scope_contexts ord user db) =
     {scope_context_of (u, s) | u s. u \<in> set (at_user_scopes db) \<and> s \<in> set (at_scopes db)
        \<and> as_id s = us_scope_id u \<and> us_user_id u = au_id user}"
proof -
  have "set (ord rows) = set rows" for rows
    using assms by (metis scope_order_ok_def set_mset_mset)
  then show ?thesis by (auto simp: load_scope_contexts_def)
qed

section \<open>Properties\<close>

text \<open>
  C1: a permission is effective for a user exactly when the user's role or an explicit
  allow row grants it and no explicit deny row of the user names it: denial always wins.
\<close>

theorem effective_permission_iff:
  "k \<in> set (resolve_effective_permission_keys user db) \<longleftrightarrow>
     (granted_by_role db user k \<or> has_user_effect db user ''allow'' k)
     \<and> \<not> has_user_effect db user ''deny'' k"
proof -
  have eff: "k \<in> set [k. (k, e) \<leftarrow> user_permission_rows db (au_id user), e = x]
      \<longleftrightarrow> has_user_effect db user x k" for x
    by (auto simp: set_user_permission_rows [symmetric])
  show ?thesis
    unfolding resolve_effective_permission_keys_def Let_def
    by (simp add: eff [simplified] set_role_permission_keys) blast
qed

end
