(* ===== verification/Access_Policy.thy ===== *)
theory Access_Policy
  imports Access_Context
begin

text \<open>
  The central authorization decision (\<open>auth/access_policy.py\<close>), the row-level-security
  context installed before scoped reads (\<open>core/rls.py\<close> and the policy expression of
  \<open>alembic/versions/0005_scope_aware_rls.py\<close>), the dashboard policy
  (\<open>dashboards/policy.py\<close>) and the pre-generation query policy
  (\<open>query_engine/request_authorization.py\<close>).

  A resource is the dictionary \<open>_resource_to_dict\<close> builds: a key the caller did not supply
  and a key holding \<open>None\<close> read the same through \<open>dict.get\<close>, so both are \<open>None\<close> here.
\<close>

section \<open>Actions and resources\<close>

definition APPROVED_TEMPLATE_QUERY_ACTION :: string where
  "APPROVED_TEMPLATE_QUERY_ACTION = ''query:approved_template''"

definition ACTION_REQUIRED_PERMISSIONS :: "(string \<times> string) list" where
  "ACTION_REQUIRED_PERMISSIONS =
     [(''query:approved_template'', ''can_use_query_templates''),
      (''query:scoped_data'', ''can_query_scoped_data''),
      (''view:scoped_data'', ''can_view_scoped_data''),
      (''query:global_data'', ''can_query_global_data''),
      (''view:global_data'', ''can_view_global_data''),
      (''query:product_tables'', ''can_query_product_tables''),
      (''dashboard:create_scope'', ''can_create_scope_dashboard''),
      (''dashboard:manage_scope'', ''can_manage_scope_dashboard''),
      (''action:request'', ''can_request_action''),
      (''action:approve_scoped'', ''can_approve_scoped_action''),
      (''action:approve_global'', ''can_approve_global_action''),
      (''action:approve_override'', ''can_approve_policy_override''),
      (''audit:view_scope'', ''can_view_scope_audit''),
      (''audit:view_global'', ''can_view_global_audit''),
      (''evaluation:view_scope'', ''can_view_scope_evaluation''),
      (''query_history:view_scope'', ''can_view_query_history_scope'')]"

definition SCOPED_DATA_ACTIONS :: "string set" where
  "SCOPED_DATA_ACTIONS = {''query:approved_template'', ''query:scoped_data'', ''view:scoped_data''}"

definition EXACT_SCOPE_ACTIONS :: "string set" where
  "EXACT_SCOPE_ACTIONS = {''action:request'', ''action:approve_scoped'', ''audit:view_scope''}"

definition QUERY_ACTIONS :: "string set" where
  "QUERY_ACTIONS =
     {''query:approved_template'', ''query:scoped_data'', ''query:global_data'',
      ''query:product_tables''}"

record data_resource =
  dr_id :: uuid
  dr_resource_type :: string
  dr_domain :: string
  dr_schema_name :: "string option"
  dr_table_name :: string
  dr_column_name :: "string option"
  dr_display_name :: string
  dr_sensitivity_level :: string
  dr_scope_type :: "string option"
  dr_scope_column :: "string option"
  dr_is_queryable :: bool
  dr_is_exportable :: bool
  dr_llm_exposure_level :: string

record resource_dict =
  rd_id :: "uuid option"
  rd_resource_type :: "string option"
  rd_domain :: "string option"
  rd_schema_name :: "string option"
  rd_table_name :: "string option"
  rd_column_name :: "string option"
  rd_display_name :: "string option"
  rd_sensitivity_level :: "string option"
  rd_scope_type :: "string option"
  rd_scope_key :: "string option"
  rd_scope_column :: "string option"
  rd_is_queryable :: "bool option"
  rd_is_exportable :: "bool option"
  rd_llm_exposure_level :: "string option"

record runtime_context =
  rc_scope_type :: "string option"
  rc_scope_key :: "string option"

definition no_context :: runtime_context where
  "no_context = \<lparr>rc_scope_type = None, rc_scope_key = None\<rparr>"

definition resource_to_dict :: "data_resource \<Rightarrow> resource_dict" where
  "resource_to_dict r =
     \<lparr>rd_id = Some (dr_id r), rd_resource_type = Some (dr_resource_type r),
      rd_domain = Some (dr_domain r), rd_schema_name = dr_schema_name r,
      rd_table_name = Some (dr_table_name r), rd_column_name = dr_column_name r,
      rd_display_name = Some (dr_display_name r),
      rd_sensitivity_level = Some (dr_sensitivity_level r),
      rd_scope_type = dr_scope_type r, rd_scope_key = None,
      rd_scope_column = dr_scope_column r, rd_is_queryable = Some (dr_is_queryable r),
      rd_is_exportable = Some (dr_is_exportable r),
      rd_llm_exposure_level = Some (dr_llm_exposure_level r)\<rparr>"

definition resource_is_explicitly_not_queryable :: "resource_dict \<Rightarrow> bool" where
  "resource_is_explicitly_not_queryable r \<longleftrightarrow> rd_is_queryable r = Some False"

section \<open>Decisions\<close>

record context_snapshot =
  cs_user_id :: uuid
  cs_role :: "string option"
  cs_permissions :: "string list"
  cs_scopes :: "string list"
  cs_has_global_scope :: bool

definition scope_label :: "string \<Rightarrow> string \<Rightarrow> string" where
  "scope_label t k = t @ '':'' @ k"

definition snapshot :: "user_access_context \<Rightarrow> context_snapshot" where
  "snapshot subject =
     \<lparr>cs_user_id = uc_user_id subject, cs_role = uc_role subject,
      cs_permissions = sorted_list_of_set (uc_permissions subject),
      cs_scopes = map (\<lambda>sc. scope_label (sc_type sc) (sc_key sc)) (uc_scopes subject),
      cs_has_global_scope = uc_has_global_scope subject\<rparr>"

record access_decision =
  ad_allowed :: bool
  ad_effect :: string
  ad_reason :: string
  ad_action :: string
  ad_resource :: resource_dict
  ad_required_permission :: "string option"
  ad_matched_scopes :: "string list"
  ad_context_snapshot :: context_snapshot

definition allow_access ::
  "user_access_context \<Rightarrow> string \<Rightarrow> resource_dict \<Rightarrow> string option \<Rightarrow> string \<Rightarrow> string list
     \<Rightarrow> access_decision" where
  "allow_access subject action resource required reason matched =
     \<lparr>ad_allowed = True, ad_effect = ''allow'', ad_reason = reason, ad_action = action,
      ad_resource = resource, ad_required_permission = required, ad_matched_scopes = matched,
      ad_context_snapshot = snapshot subject\<rparr>"

definition deny_access ::
  "user_access_context \<Rightarrow> string \<Rightarrow> resource_dict \<Rightarrow> string option \<Rightarrow> string \<Rightarrow> string list
     \<Rightarrow> access_decision" where
  "deny_access subject action resource required reason matched =
     \<lparr>ad_allowed = False, ad_effect = ''deny'', ad_reason = reason, ad_action = action,
      ad_resource = resource, ad_required_permission = required, ad_matched_scopes = matched,
      ad_context_snapshot = snapshot subject\<rparr>"

lemma ad_allow_simps [simp]:
  "ad_allowed (allow_access s a r p why m)" "ad_matched_scopes (allow_access s a r p why m) = m"
  "ad_required_permission (allow_access s a r p why m) = p"
  "ad_reason (allow_access s a r p why m) = why"
  "ad_effect (allow_access s a r p why m) = ''allow''"
  by (simp_all add: allow_access_def)

lemma ad_deny_simps [simp]:
  "\<not> ad_allowed (deny_access s a r p why m)" "ad_matched_scopes (deny_access s a r p why m) = m"
  "ad_required_permission (deny_access s a r p why m) = p"
  "ad_reason (deny_access s a r p why m) = why"
  "ad_effect (deny_access s a r p why m) = ''deny''"
  by (simp_all add: deny_access_def)

definition evaluate_access ::
  "user_access_context \<Rightarrow> string \<Rightarrow> resource_dict \<Rightarrow> runtime_context \<Rightarrow> access_decision" where
  "evaluate_access subject action resource context =
     (case map_of ACTION_REQUIRED_PERMISSIONS action of
        None \<Rightarrow> deny_access subject action resource None ''unknown_action'' []
      | Some required \<Rightarrow>
          if \<not> has_permission subject required
          then deny_access subject action resource (Some required) ''missing_permission'' []
          else if action \<in> QUERY_ACTIONS \<and> resource_is_explicitly_not_queryable resource
          then deny_access subject action resource (Some required) ''resource_not_queryable'' []
          else
            let scope_type = str_or (rc_scope_type context) (rd_scope_type resource);
                scope_key = str_or (rc_scope_key context) (rd_scope_key resource)
            in if action \<in> EXACT_SCOPE_ACTIONS \<and> (\<not> truthy_str scope_type \<or> \<not> truthy_str scope_key)
               then deny_access subject action resource (Some required) ''missing_scope_key'' []
               else if \<not> truthy_str scope_type
               then allow_access subject action resource (Some required) ''allow_reference_resource'' []
               else if action \<in> SCOPED_DATA_ACTIONS \<and> \<not> truthy_str scope_key
               then deny_access subject action resource (Some required) ''missing_scope_key'' []
               else if uc_has_global_scope subject
               then allow_access subject action resource (Some required) ''allow_global_scope''
                      [''global:global'']
               else if truthy_str scope_key
               then (if has_scope subject (the scope_type) (the scope_key)
                     then allow_access subject action resource (Some required)
                            ''allow_matching_scope'' [scope_label (the scope_type) (the scope_key)]
                     else deny_access subject action resource (Some required) ''missing_scope'' [])
               else
                 let matched = [scope_label (sc_type sc) (sc_key sc).
                                  sc \<leftarrow> uc_scopes subject, Some (sc_type sc) = scope_type]
                 in if matched \<noteq> []
                    then allow_access subject action resource (Some required) ''allow_scope_type'' matched
                    else deny_access subject action resource (Some required) ''missing_scope'' [])"

definition authorize_resource_access ::
  "user_access_context \<Rightarrow> string \<Rightarrow> resource_dict \<Rightarrow> runtime_context \<Rightarrow> access_decision" where
  "authorize_resource_access subject action resource context =
     evaluate_access subject action resource context"

definition access_forbidden_error :: api_error where
  "access_forbidden_error =
     \<lparr>ae_code = ''FORBIDDEN'',
      ae_message = ''You are not authorized to access this resource.'',
      ae_status_code = 403\<rparr>"

definition require_access_decision :: "access_decision \<Rightarrow> api_error + unit" where
  "require_access_decision decision =
     (if ad_allowed decision then Inr () else Inl access_forbidden_error)"

section \<open>The contract every authorization decision keeps\<close>

text \<open>
  A subject extends another when it is the same user with at least the permissions, scopes
  and global reach of the other.
\<close>

definition subject_extends :: "user_access_context \<Rightarrow> user_access_context \<Rightarrow> bool" where
  "subject_extends s t \<longleftrightarrow>
     uc_user_id s = uc_user_id t \<and> uc_permissions s \<subseteq> uc_permissions t
     \<and> set (uc_scopes s) \<subseteq> set (uc_scopes t)
     \<and> (uc_has_global_scope s \<longrightarrow> uc_has_global_scope t)"

lemma subject_extends_refl [simp]: "subject_extends s s"
  by (simp add: subject_extends_def)

lemma subject_extends_trans:
  "subject_extends s t \<Longrightarrow> subject_extends t u \<Longrightarrow> subject_extends s u"
  by (auto simp: subject_extends_def)

lemma subject_extends_permission:
  "subject_extends s t \<Longrightarrow> has_permission s p \<Longrightarrow> has_permission t p"
  by (auto simp: subject_extends_def has_permission_def)

lemma subject_extends_scope:
  "subject_extends s t \<Longrightarrow> has_scope s ty k \<Longrightarrow> has_scope t ty k"
  by (auto simp: subject_extends_def has_scope_def list_ex_iff)

lemma subject_extends_global:
  "subject_extends s t \<Longrightarrow> uc_has_global_scope s \<Longrightarrow> uc_has_global_scope t"
  by (simp add: subject_extends_def)

lemmas subject_extends_mono =
  subject_extends_permission subject_extends_scope subject_extends_global

text \<open>
  Every decision procedure of the program takes a subject and a question and keeps two laws:
  it admits only subjects that hold one of the permissions the question needs, and what it
  admits for a subject it admits for every subject that extends it.
\<close>

locale permission_gate =
  fixes admits :: "user_access_context \<Rightarrow> 'q \<Rightarrow> bool"
    and needs :: "'q \<Rightarrow> string set"
  assumes admits_needs: "admits s q \<Longrightarrow> \<exists>p \<in> needs q. has_permission s p"
    and admits_mono: "subject_extends s t \<Longrightarrow> admits s q \<Longrightarrow> admits t q"
begin

lemma no_permission_no_entry:
  "uc_permissions s \<inter> needs q = {} \<Longrightarrow> \<not> admits s q"
  using admits_needs by (auto simp: has_permission_def)

lemma revocation_never_admits:
  "subject_extends t s \<Longrightarrow> \<not> admits s q \<Longrightarrow> \<not> admits t q"
  using admits_mono by blast

lemma entry_along_grants:
  "sorted_wrt subject_extends (s # ts) \<Longrightarrow> admits s q \<Longrightarrow> t \<in> set ts \<Longrightarrow> admits t q"
  using admits_mono by auto

end

section \<open>What an allowed decision means\<close>

text \<open>The scope condition of a decision, over the effective scope type and key.\<close>

definition scope_condition ::
  "user_access_context \<Rightarrow> string \<Rightarrow> string option \<Rightarrow> string option \<Rightarrow> bool" where
  "scope_condition subject action ty key \<longleftrightarrow>
     (if \<not> truthy_str ty then action \<notin> EXACT_SCOPE_ACTIONS
      else if \<not> truthy_str key then
        action \<notin> EXACT_SCOPE_ACTIONS \<union> SCOPED_DATA_ACTIONS
        \<and> (uc_has_global_scope subject \<or> (\<exists>sc \<in> set (uc_scopes subject). Some (sc_type sc) = ty))
      else uc_has_global_scope subject \<or> has_scope subject (the ty) (the key))"

lemma concat_guard_eq_Nil:
  "[f x. x \<leftarrow> xs, P x] = [] \<longleftrightarrow> \<not> (\<exists>x \<in> set xs. P x)"
  by (induction xs) auto

lemma scope_condition_mono:
  "subject_extends s t \<Longrightarrow> scope_condition s a ty key \<Longrightarrow> scope_condition t a ty key"
  by (auto simp: scope_condition_def dest: subject_extends_mono split: if_splits)
     (auto simp: subject_extends_def)

lemma evaluate_access_allowed:
  "ad_allowed (evaluate_access subject action resource context) \<longleftrightarrow>
     (\<exists>required. map_of ACTION_REQUIRED_PERMISSIONS action = Some required
        \<and> has_permission subject required)
     \<and> \<not> (action \<in> QUERY_ACTIONS \<and> rd_is_queryable resource = Some False)
     \<and> scope_condition subject action (str_or (rc_scope_type context) (rd_scope_type resource))
         (str_or (rc_scope_key context) (rd_scope_key resource))"
  unfolding evaluate_access_def scope_condition_def Let_def
    resource_is_explicitly_not_queryable_def concat_guard_eq_Nil
  by (simp split: option.split)

text \<open>The matched scopes a decision reports are the subject's own, or the global label.\<close>

definition own_scope_labels :: "user_access_context \<Rightarrow> string set" where
  "own_scope_labels subject =
     (if uc_has_global_scope subject then {''global:global''}
      else (\<lambda>sc. scope_label (sc_type sc) (sc_key sc)) ` set (uc_scopes subject))"

lemma has_scope_label:
  "has_scope subject ty k \<Longrightarrow>
     scope_label ty k \<in> (\<lambda>sc. scope_label (sc_type sc) (sc_key sc)) ` set (uc_scopes subject)"
  by (auto simp: has_scope_def list_ex_iff)

lemma evaluate_access_matched:
  "set (ad_matched_scopes (evaluate_access subject action resource context))
     \<subseteq> own_scope_labels subject"
  unfolding evaluate_access_def Let_def
  by (simp split: option.split) (auto intro: has_scope_label simp: own_scope_labels_def)

text \<open>
  C2: \<open>evaluate_access\<close> allows exactly the requests whose action is known, whose permission
  the subject holds, whose resource is not marked unqueryable for a query action, and whose
  effective scope the subject covers, and the matched scopes it reports are the subject's
  own (or the global label for a global subject).
\<close>

theorem evaluate_access_iff:
  "(ad_allowed (evaluate_access subject action resource context) \<longleftrightarrow>
     (\<exists>required. map_of ACTION_REQUIRED_PERMISSIONS action = Some required
        \<and> has_permission subject required)
     \<and> \<not> (action \<in> QUERY_ACTIONS \<and> rd_is_queryable resource = Some False)
     \<and> scope_condition subject action (str_or (rc_scope_type context) (rd_scope_type resource))
         (str_or (rc_scope_key context) (rd_scope_key resource)))
   \<and> set (ad_matched_scopes (evaluate_access subject action resource context))
       \<subseteq> own_scope_labels subject"
  by (simp add: evaluate_access_allowed evaluate_access_matched)

type_synonym access_question = "string \<times> resource_dict \<times> runtime_context"

definition access_admits :: "user_access_context \<Rightarrow> access_question \<Rightarrow> bool" where
  "access_admits s = (\<lambda>(a, r, c). ad_allowed (evaluate_access s a r c))"

definition access_needs :: "access_question \<Rightarrow> string set" where
  "access_needs = (\<lambda>(a, r, c). set_option (map_of ACTION_REQUIRED_PERMISSIONS a))"

interpretation access_gate: permission_gate access_admits access_needs
proof
  fix s q
  assume "access_admits s q"
  then show "\<exists>p \<in> access_needs q. has_permission s p"
    by (cases q) (auto simp: access_admits_def access_needs_def evaluate_access_allowed)
next
  fix s t q
  assume "subject_extends s t" "access_admits s q"
  then show "access_admits t q"
    by (cases q) (auto simp: access_admits_def evaluate_access_allowed
        dest: subject_extends_permission scope_condition_mono)
qed

text \<open>
  Granting a user more permissions or scopes never turns an allowed request into a
  denied one, and a subject without the action's permission is denied whatever its scopes.
\<close>

theorem evaluate_access_monotone:
  assumes "subject_extends s t"
    and "ad_allowed (evaluate_access s action resource context)"
  shows "ad_allowed (evaluate_access t action resource context)"
  using access_gate.admits_mono [of s t "(action, resource, context)"] assms
  by (simp add: access_admits_def)

section \<open>Example subjects\<close>

definition example_department_scope :: access_scope_context where
  "example_department_scope =
     \<lparr>sc_id = ''s-it'', sc_type = ''department'', sc_key = ''it'', sc_display_name = ''IT'',
      sc_access_level = ''manage'', sc_is_default = True, sc_department_id = Some ''d-it''\<rparr>"

definition example_subject :: "uuid \<Rightarrow> string set \<Rightarrow> access_scope_context list \<Rightarrow> bool \<Rightarrow> user_access_context" where
  "example_subject uid perms scopes global =
     \<lparr>uc_user_id = uid, uc_role = Some ''analyst'', uc_permissions = perms, uc_scopes = scopes,
      uc_default_scope = None, uc_has_global_scope = global,
      uc_subject_attributes =
        \<lparr>sa_role = Some ''analyst'', sa_permissions = [], sa_scope_types = [],
         sa_has_global_scope = global, sa_auth_provider = ''demo''\<rparr>\<rparr>"

definition example_resource :: resource_dict where
  "example_resource =
     \<lparr>rd_id = None, rd_resource_type = Some ''table'', rd_domain = None, rd_schema_name = None,
      rd_table_name = Some ''licenses'', rd_column_name = None, rd_display_name = None,
      rd_sensitivity_level = None, rd_scope_type = None, rd_scope_key = None,
      rd_scope_column = None, rd_is_queryable = Some True, rd_is_exportable = None,
      rd_llm_exposure_level = None\<rparr>"

lemma evaluate_access_monotone_witness:
  "ad_allowed (evaluate_access
      (example_subject ''u1'' {''can_request_action'', ''can_view_sql''} [example_department_scope] False)
      ''action:request'' example_resource
      \<lparr>rc_scope_type = Some ''department'', rc_scope_key = Some ''it''\<rparr>)"
proof -
  let ?s = "example_subject ''u1'' {''can_request_action''} [example_department_scope] False"
  let ?t = "example_subject ''u1'' {''can_request_action'', ''can_view_sql''}
              [example_department_scope] False"
  let ?c = "\<lparr>rc_scope_type = Some ''department'', rc_scope_key = Some ''it''\<rparr>"
  have ext: "subject_extends ?s ?t"
    by (simp add: subject_extends_def example_subject_def)
  have "ad_allowed (evaluate_access ?s ''action:request'' example_resource ?c)"
    by (simp add: evaluate_access_def ACTION_REQUIRED_PERMISSIONS_def has_permission_def
        QUERY_ACTIONS_def EXACT_SCOPE_ACTIONS_def SCOPED_DATA_ACTIONS_def str_or_def has_scope_def
        example_subject_def example_department_scope_def)
  then show ?thesis by (rule evaluate_access_monotone [OF ext])
qed

end
