(* ===== verification/Rls_Context.thy ===== *)
theory Rls_Context
  imports Access_Policy
begin

text \<open>
  The PostgreSQL row-level-security context (\<open>core/rls.py\<close>), the policy expression the
  migrations attach to every protected table (\<open>0005_scope_aware_rls.py\<close>), and
  \<open>prepare_scoped_data_access\<close>, which installs the context only after an allowed decision.

  The transaction-local settings are a map from setting names to values. A department id is
  a UUID, whose text has no comma: \<open>no_comma_ids\<close> states it where the policy splits the
  joined key list.
\<close>

record rls_context =
  rls_user_id :: uuid
  rls_role :: "string option"
  rls_scope_type :: string
  rls_scope_keys :: "string list"
  rls_has_global_scope :: bool

definition scope_keys_setting :: "rls_context \<Rightarrow> string" where
  "scope_keys_setting c = join_char CHR '','' (rls_scope_keys c)"

definition has_global_scope_setting :: "rls_context \<Rightarrow> string" where
  "has_global_scope_setting c = (if rls_has_global_scope c then ''true'' else ''false'')"

definition department_scope_keys :: "user_access_context \<Rightarrow> string list" where
  "department_scope_keys ctx =
     dedup [d. sc \<leftarrow> uc_scopes ctx, sc_type sc = ''department'',
               d \<leftarrow> (case sc_department_id sc of None \<Rightarrow> [] | Some d \<Rightarrow> [d])]"

definition build_rls_context :: "user_access_context \<Rightarrow> rls_context" where
  "build_rls_context ctx =
     (if uc_has_global_scope ctx then
        \<lparr>rls_user_id = uc_user_id ctx, rls_role = uc_role ctx, rls_scope_type = ''global'',
         rls_scope_keys = [], rls_has_global_scope = True\<rparr>
      else if department_scope_keys ctx \<noteq> [] then
        \<lparr>rls_user_id = uc_user_id ctx, rls_role = uc_role ctx, rls_scope_type = ''department'',
         rls_scope_keys = department_scope_keys ctx, rls_has_global_scope = False\<rparr>
      else
        \<lparr>rls_user_id = uc_user_id ctx, rls_role = uc_role ctx, rls_scope_type = ''none'',
         rls_scope_keys = [], rls_has_global_scope = False\<rparr>)"

type_synonym pg_settings = "string \<Rightarrow> string option"

definition allowed_settings :: "string set" where
  "allowed_settings =
     {''app.current_user_id'', ''app.current_role'', ''app.current_scope_type'',
      ''app.current_scope_keys'', ''app.has_global_scope''}"

text \<open>\<open>_set_local\<close> raises \<open>ValueError\<close> (here the unsupported name) outside the allow list.\<close>

definition set_local :: "pg_settings \<Rightarrow> string \<Rightarrow> string \<Rightarrow> string + pg_settings" where
  "set_local db name value =
     (if name \<notin> allowed_settings then Inl name else Inr (db(name \<mapsto> value)))"

fun set_locals :: "(string \<times> string) list \<Rightarrow> pg_settings \<Rightarrow> string + pg_settings" where
  "set_locals [] db = Inr db"
| "set_locals ((name, value) # rest) db = result_bind (set_local db name value) (set_locals rest)"

definition set_rls_context :: "pg_settings \<Rightarrow> rls_context \<Rightarrow> string + pg_settings" where
  "set_rls_context db c =
     set_locals
       [(''app.current_user_id'', rls_user_id c),
        (''app.current_role'', or_empty (rls_role c)),
        (''app.current_scope_type'', rls_scope_type c),
        (''app.current_scope_keys'', scope_keys_setting c),
        (''app.has_global_scope'', has_global_scope_setting c)] db"

text \<open>
  \<open>string_to_array(s, ',')\<close> is the empty array for the empty string, and the policy compares
  the row's department id, as text, with its elements; a missing setting reads as \<open>NULL\<close>.
\<close>

definition string_to_array :: "string \<Rightarrow> string list" where
  "string_to_array s = (if s = [] then [] else split_char CHR '','' s)"

definition rls_policy_admits :: "pg_settings \<Rightarrow> uuid option \<Rightarrow> bool" where
  "rls_policy_admits db department =
     (db ''app.has_global_scope'' = Some ''true''
      \<or> (db ''app.current_scope_type'' = Some ''department''
         \<and> (case department of
              None \<Rightarrow> False
            | Some d \<Rightarrow>
                d \<in> set (string_to_array
                      (case db ''app.current_scope_keys'' of None \<Rightarrow> [] | Some v \<Rightarrow> v)))))"

datatype scoped_access_error = AccessDenied api_error | UnsupportedSetting string

definition prepare_scoped_data_access ::
  "pg_settings \<Rightarrow> user_access_context \<Rightarrow> string \<Rightarrow> resource_dict \<Rightarrow> runtime_context
     \<Rightarrow> scoped_access_error + (access_decision \<times> pg_settings)" where
  "prepare_scoped_data_access db subject action resource context =
     (let decision = authorize_resource_access subject action resource context
      in case require_access_decision decision of
           Inl e \<Rightarrow> Inl (AccessDenied e)
         | Inr _ \<Rightarrow>
             (case set_rls_context db (build_rls_context subject) of
                Inl name \<Rightarrow> Inl (UnsupportedSetting name)
              | Inr db' \<Rightarrow> Inr (decision, db')))"

section \<open>Lemmas\<close>

lemma set_department_scope_keys:
  "set (department_scope_keys ctx) =
     {d. \<exists>sc \<in> set (uc_scopes ctx). sc_type sc = ''department'' \<and> sc_department_id sc = Some d}"
  by (auto simp: department_scope_keys_def split: option.splits)

lemma distinct_department_scope_keys [simp]: "distinct (department_scope_keys ctx)"
  by (simp add: department_scope_keys_def)

lemma set_rls_context_total:
  "set_rls_context db c =
     Inr (db(''app.current_user_id'' \<mapsto> rls_user_id c, ''app.current_role'' \<mapsto> or_empty (rls_role c),
             ''app.current_scope_type'' \<mapsto> rls_scope_type c,
             ''app.current_scope_keys'' \<mapsto> scope_keys_setting c,
             ''app.has_global_scope'' \<mapsto> has_global_scope_setting c))"
  by (simp add: set_rls_context_def set_local_def allowed_settings_def)

definition no_comma_ids :: "user_access_context \<Rightarrow> bool" where
  "no_comma_ids ctx \<longleftrightarrow>
     list_all (\<lambda>sc. case sc_department_id sc of None \<Rightarrow> True
                 | Some d \<Rightarrow> d \<noteq> [] \<and> CHR '','' \<notin> set d) (uc_scopes ctx)"

lemma no_comma_department_keys:
  "no_comma_ids ctx \<Longrightarrow> d \<in> set (department_scope_keys ctx) \<Longrightarrow> d \<noteq> [] \<and> CHR '','' \<notin> set d"
  by (auto simp: no_comma_ids_def set_department_scope_keys list_all_iff split: option.splits)

lemma string_to_array_keys:
  assumes "no_comma_ids ctx"
  shows "string_to_array (join_char CHR '','' (department_scope_keys ctx)) = department_scope_keys ctx"
proof (cases "department_scope_keys ctx = []")
  case True
  then show ?thesis by (simp add: string_to_array_def)
next
  case False
  moreover have "department_scope_keys ctx \<noteq> [[]]"
    using no_comma_department_keys [OF assms, of "[]"] by auto
  ultimately show ?thesis
    using no_comma_department_keys [OF assms]
    by (simp add: string_to_array_def join_char_eq_Nil split_join_char)
qed

lemma rls_policy_visibility:
  assumes "no_comma_ids ctx"
    and "set_rls_context db (build_rls_context ctx) = Inr db'"
  shows "rls_policy_admits db' department \<longleftrightarrow>
     uc_has_global_scope ctx
     \<or> (\<exists>sc \<in> set (uc_scopes ctx). sc_type sc = ''department'' \<and> sc_department_id sc \<noteq> None
          \<and> sc_department_id sc = department)"
proof -
  have "rls_policy_admits db' department \<longleftrightarrow>
      uc_has_global_scope ctx \<or> (\<exists>d. department = Some d \<and> d \<in> set (department_scope_keys ctx))"
    using assms(2)
    by (auto simp: set_rls_context_total rls_policy_admits_def build_rls_context_def
        scope_keys_setting_def has_global_scope_setting_def string_to_array_keys [OF assms(1)]
        split: option.splits if_splits)
  then show ?thesis by (auto simp: set_department_scope_keys)
qed

section \<open>Properties\<close>

text \<open>
  C3: after the context of a subject is installed, the row policy shows a row exactly when
  the subject is global or holds a department scope with the row's department: the joined
  key list loses nothing and admits nothing else, and a row without a department is hidden
  from every non-global subject.
\<close>

theorem rls_row_visibility:
  assumes "no_comma_ids ctx"
    and "set_rls_context db (build_rls_context ctx) = Inr db'"
  shows "rls_policy_admits db' department \<longleftrightarrow>
     uc_has_global_scope ctx
     \<or> (\<exists>sc \<in> set (uc_scopes ctx). sc_type sc = ''department'' \<and> sc_department_id sc \<noteq> None
          \<and> sc_department_id sc = department)"
  using assms by (rule rls_policy_visibility)

lemma rls_row_visibility_witness:
  "rls_policy_admits
     (the (case set_rls_context Map.empty
             (build_rls_context (example_subject ''u1'' {} [example_department_scope] False)) of
             Inl _ \<Rightarrow> None | Inr db \<Rightarrow> Some db))
     (Some ''d-it'')"
proof -
  let ?ctx = "example_subject ''u1'' {} [example_department_scope] False"
  obtain db' where db': "set_rls_context Map.empty (build_rls_context ?ctx) = Inr db'"
    by (simp add: set_rls_context_total)
  have nc: "no_comma_ids ?ctx"
    by (simp add: no_comma_ids_def example_subject_def example_department_scope_def)
  show ?thesis
    using rls_row_visibility [OF nc db', of "Some ''d-it''"] db'
    by (simp add: example_subject_def example_department_scope_def)
qed

text \<open>
  \<open>prepare_scoped_data_access\<close> installs the subject's context exactly when the decision
  allows the request, never fails on a setting name, and on a denial returns the 403 error
  with no settings.
\<close>

theorem prepare_scoped_data_access_outcome:
  "prepare_scoped_data_access db subject action resource context =
     (if ad_allowed (evaluate_access subject action resource context)
      then Inr (evaluate_access subject action resource context,
                db(''app.current_user_id'' \<mapsto> uc_user_id subject,
                   ''app.current_role'' \<mapsto> or_empty (uc_role subject),
                   ''app.current_scope_type'' \<mapsto> rls_scope_type (build_rls_context subject),
                   ''app.current_scope_keys'' \<mapsto>
                     join_char CHR '','' (rls_scope_keys (build_rls_context subject)),
                   ''app.has_global_scope'' \<mapsto>
                     (if uc_has_global_scope subject then ''true'' else ''false'')))
      else Inl (AccessDenied access_forbidden_error))"
  by (simp add: prepare_scoped_data_access_def authorize_resource_access_def Let_def
      require_access_decision_def set_rls_context_total scope_keys_setting_def
      has_global_scope_setting_def build_rls_context_def)

end
