(* ===== verification/Product_Policies.thy ===== *)
theory Product_Policies
  imports Access_Policy
begin

text \<open>
  The dashboard visibility and management policy (\<open>dashboards/policy.py\<close>) and the query
  request policy applied before any generation (\<open>query_engine/request_authorization.py\<close>).
\<close>

section \<open>Dashboards\<close>

record dashboard =
  db_id :: uuid
  db_owner_user_id :: "uuid option"
  db_title :: string
  db_description :: "string option"
  db_visibility_scope :: string
  db_department_id :: "uuid option"
  db_is_archived :: bool
  db_layout_version :: int
  db_created_at :: instant
  db_updated_at :: instant

definition department_scope_is_assigned :: "uuid option \<Rightarrow> user_access_context \<Rightarrow> bool" where
  "department_scope_is_assigned department ctx =
     (case department of
        None \<Rightarrow> False
      | Some d \<Rightarrow> uc_has_global_scope ctx
          \<or> list_ex (\<lambda>sc. sc_type sc = ''department'' \<and> sc_department_id sc = Some d) (uc_scopes ctx))"

definition dashboard_is_visible :: "dashboard \<Rightarrow> app_user \<Rightarrow> user_access_context \<Rightarrow> bool" where
  "dashboard_is_visible d user ctx =
     (if db_visibility_scope d = ''personal'' then db_owner_user_id d = Some (au_id user)
      else if db_visibility_scope d = ''global'' then uc_has_global_scope ctx
      else if db_visibility_scope d = ''department''
      then department_scope_is_assigned (db_department_id d) ctx
      else False)"

definition dashboard_is_manageable :: "dashboard \<Rightarrow> app_user \<Rightarrow> user_access_context \<Rightarrow> bool" where
  "dashboard_is_manageable d user ctx =
     (if db_is_archived d then False
      else if db_visibility_scope d = ''personal''
      then db_owner_user_id d = Some (au_id user)
           \<and> has_permission ctx ''can_create_personal_dashboard''
      else if db_visibility_scope d = ''department''
      then dashboard_is_visible d user ctx
           \<and> list_ex (has_permission ctx) [''can_manage_department_dashboard'', ''can_manage_scope_dashboard'']
      else if db_visibility_scope d = ''global''
      then uc_has_global_scope ctx \<and> has_permission ctx ''can_manage_global_dashboard''
      else False)"

lemma department_scope_mono:
  "subject_extends s t \<Longrightarrow> department_scope_is_assigned d s \<Longrightarrow> department_scope_is_assigned d t"
  by (auto simp: department_scope_is_assigned_def subject_extends_def list_ex_iff split: option.splits)

lemma dashboard_visible_mono:
  "subject_extends s t \<Longrightarrow> dashboard_is_visible d user s \<Longrightarrow> dashboard_is_visible d user t"
  by (auto simp: dashboard_is_visible_def dest: department_scope_mono subject_extends_global
      split: if_splits)

lemma dashboard_manageable_mono:
  "subject_extends s t \<Longrightarrow> dashboard_is_manageable d user s \<Longrightarrow> dashboard_is_manageable d user t"
  by (auto simp: dashboard_is_manageable_def dest: dashboard_visible_mono subject_extends_mono
      split: if_splits)

definition manage_admits :: "user_access_context \<Rightarrow> dashboard \<times> app_user \<Rightarrow> bool" where
  "manage_admits ctx = (\<lambda>(d, user). dashboard_is_manageable d user ctx)"

definition manage_needs :: "dashboard \<times> app_user \<Rightarrow> string set" where
  "manage_needs = (\<lambda>(d, user).
     if db_visibility_scope d = ''personal'' then {''can_create_personal_dashboard''}
     else if db_visibility_scope d = ''department''
     then {''can_manage_department_dashboard'', ''can_manage_scope_dashboard''}
     else {''can_manage_global_dashboard''})"

interpretation dashboard_gate: permission_gate manage_admits manage_needs
proof
  fix s q
  assume "manage_admits s q"
  then show "\<exists>p \<in> manage_needs q. has_permission s p"
    by (cases q) (auto simp: manage_admits_def manage_needs_def dashboard_is_manageable_def
        split: if_splits)
next
  fix s t q
  assume "subject_extends s t" "manage_admits s q"
  then show "manage_admits t q"
    by (cases q) (auto simp: manage_admits_def intro: dashboard_manageable_mono)
qed

text \<open>
  A dashboard a user may manage is one the user may see, is not archived, and needs a
  management permission for its visibility; so a user who holds none of the four management
  permissions manages no dashboard.
\<close>

theorem manageable_dashboard_is_visible:
  assumes "dashboard_is_manageable d user ctx"
  shows "dashboard_is_visible d user ctx \<and> \<not> db_is_archived d
     \<and> uc_permissions ctx \<inter> {''can_create_personal_dashboard'', ''can_manage_department_dashboard'',
          ''can_manage_scope_dashboard'', ''can_manage_global_dashboard''} \<noteq> {}"
proof -
  have "uc_permissions ctx \<inter> manage_needs (d, user) \<noteq> {}"
    using dashboard_gate.no_permission_no_entry [of ctx "(d, user)"] assms
    by (auto simp: manage_admits_def)
  moreover have "dashboard_is_visible d user ctx" "\<not> db_is_archived d"
    using assms by (auto simp: dashboard_is_manageable_def dashboard_is_visible_def split: if_splits)
  ultimately show ?thesis by (auto simp: manage_needs_def split: if_splits)
qed

lemma manageable_dashboard_is_visible_witness:
  "dashboard_is_visible
     \<lparr>db_id = ''db1'', db_owner_user_id = None, db_title = ''Licences'', db_description = None,
      db_visibility_scope = ''department'', db_department_id = Some ''d-it'', db_is_archived = False,
      db_layout_version = 1, db_created_at = 0, db_updated_at = 0\<rparr>
     \<lparr>au_id = ''u1'', au_role_id = None, au_status = ''active'', au_auth_provider = ''demo'',
      au_full_name = ''A'', au_email = ''a@example.com'', au_department_id = None\<rparr>
     (example_subject ''u1'' {''can_manage_scope_dashboard''} [example_department_scope] False)"
  by (rule manageable_dashboard_is_visible [THEN conjunct1])
     (simp add: dashboard_is_manageable_def dashboard_is_visible_def department_scope_is_assigned_def
       has_permission_def example_subject_def example_department_scope_def)

section \<open>Query requests\<close>

text \<open>The part of a query template the policy reads.\<close>

record query_template =
  qt_id :: string
  qt_scope_type :: "string option"

record query_request_authorization =
  qa_allowed :: bool
  qa_error_code :: "string option"

definition scope_key_for_template :: "query_template \<Rightarrow> user_access_context \<Rightarrow> string option" where
  "scope_key_for_template template ctx =
     (case qt_scope_type template of
        None \<Rightarrow> None
      | Some ty \<Rightarrow>
          if uc_has_global_scope ctx then Some ''global''
          else (case uc_default_scope ctx of
                  Some ds \<Rightarrow>
                    if sc_type ds = ty then Some (sc_key ds)
                    else map_option sc_key (List.find (\<lambda>sc. sc_type sc = ty) (uc_scopes ctx))
                | None \<Rightarrow> map_option sc_key (List.find (\<lambda>sc. sc_type sc = ty) (uc_scopes ctx))))"

definition template_is_allowed :: "query_template \<Rightarrow> user_access_context \<Rightarrow> bool" where
  "template_is_allowed template ctx =
     ad_allowed (authorize_resource_access ctx APPROVED_TEMPLATE_QUERY_ACTION
       \<lparr>rd_id = None, rd_resource_type = Some ''query_template'', rd_domain = Some ''it_operations'',
        rd_schema_name = None, rd_table_name = Some (qt_id template), rd_column_name = None,
        rd_display_name = None, rd_sensitivity_level = None, rd_scope_type = qt_scope_type template,
        rd_scope_key = scope_key_for_template template ctx, rd_scope_column = None,
        rd_is_queryable = Some True, rd_is_exportable = None, rd_llm_exposure_level = None\<rparr>
       no_context)"

text \<open>\<open>domain_pack.templates_by_id\<close>: of two templates with one id the later wins.\<close>

definition templates_by_id :: "query_template list \<Rightarrow> string \<Rightarrow> query_template option" where
  "templates_by_id templates i = find_by qt_id i (rev templates)"

definition authorize_query_request ::
  "user_access_context \<Rightarrow> query_template list \<Rightarrow> string option \<Rightarrow> query_request_authorization" where
  "authorize_query_request ctx templates template_id =
     (case template_id of
        None \<Rightarrow>
          if has_permission ctx ''can_run_free_query''
          then \<lparr>qa_allowed = True, qa_error_code = None\<rparr>
          else \<lparr>qa_allowed = False, qa_error_code = Some ''forbidden''\<rparr>
      | Some tid \<Rightarrow>
          if \<not> has_permission ctx ''can_use_query_templates''
          then \<lparr>qa_allowed = False, qa_error_code = Some ''forbidden''\<rparr>
          else (case templates_by_id templates tid of
                  None \<Rightarrow> \<lparr>qa_allowed = False, qa_error_code = Some ''query_template_not_found''\<rparr>
                | Some t \<Rightarrow>
                    if template_is_allowed t ctx
                    then \<lparr>qa_allowed = True, qa_error_code = None\<rparr>
                    else \<lparr>qa_allowed = False, qa_error_code = Some ''query_template_not_found''\<rparr>))"

text \<open>
  A context as \<open>build_user_access_context\<close> makes it: the default scope is one of the
  scopes, and scope keys and types are non-empty columns.
\<close>

definition well_formed_context :: "user_access_context \<Rightarrow> bool" where
  "well_formed_context ctx \<longleftrightarrow>
     list_all (\<lambda>sc. sc_key sc \<noteq> [] \<and> sc_type sc \<noteq> []) (uc_scopes ctx)
     \<and> (case uc_default_scope ctx of None \<Rightarrow> True | Some ds \<Rightarrow> ds \<in> set (uc_scopes ctx))"

lemma build_context_default_scope:
  assumes "uc_default_scope (build_user_access_context ord user db) = Some ds"
  shows "ds \<in> set (uc_scopes (build_user_access_context ord user db))"
  using assms unfolding build_user_access_context_def Let_def
  by (auto split: option.splits list.splits dest: find_SomeD)

lemma scope_key_for_template_own:
  assumes "well_formed_context ctx" "\<not> uc_has_global_scope ctx"
    and "scope_key_for_template t ctx = Some k" "qt_scope_type t = Some ty"
  shows "has_scope ctx ty k \<and> k \<noteq> []"
  using assms
  by (auto simp: scope_key_for_template_def has_scope_def list_ex_iff well_formed_context_def
      list_all_iff split: option.splits if_splits dest!: find_SomeD)

lemma scope_key_for_template_None:
  assumes "\<not> uc_has_global_scope ctx" "scope_key_for_template t ctx = None" "qt_scope_type t = Some ty"
  shows "\<not> (\<exists>sc \<in> set (uc_scopes ctx). sc_type sc = ty)"
  using assms
  by (auto simp: scope_key_for_template_def find_None_iff_ex split: option.splits if_splits)

lemma template_is_allowed_alt:
  "template_is_allowed t ctx \<longleftrightarrow>
     has_permission ctx ''can_use_query_templates''
     \<and> scope_condition ctx ''query:approved_template'' (qt_scope_type t) (scope_key_for_template t ctx)"
proof -
  have "map_of ACTION_REQUIRED_PERMISSIONS ''query:approved_template'' = Some ''can_use_query_templates''"
    by (simp add: ACTION_REQUIRED_PERMISSIONS_def)
  then show ?thesis
    by (simp add: template_is_allowed_def authorize_resource_access_def evaluate_access_allowed
        APPROVED_TEMPLATE_QUERY_ACTION_def no_context_def str_or_def)
qed

text \<open>
  A template is allowed for a well-formed context exactly when the user may use
  templates and the template is unscoped or the user is global or holds some scope of the
  template's scope type: the scope key the code derives never turns a covered template away.
\<close>

theorem template_is_allowed_iff:
  assumes "well_formed_context ctx"
  shows "template_is_allowed t ctx \<longleftrightarrow>
     has_permission ctx ''can_use_query_templates''
     \<and> (\<not> truthy_str (qt_scope_type t)
        \<or> uc_has_global_scope ctx
        \<or> (\<exists>sc \<in> set (uc_scopes ctx). Some (sc_type sc) = qt_scope_type t))"
proof (cases "qt_scope_type t")
  case None
  then show ?thesis
    by (simp add: template_is_allowed_alt scope_condition_def EXACT_SCOPE_ACTIONS_def)
next
  case (Some ty)
  note facts = template_is_allowed_alt scope_condition_def EXACT_SCOPE_ACTIONS_def SCOPED_DATA_ACTIONS_def
  show ?thesis
  proof (cases "uc_has_global_scope ctx")
    case True
    with Some show ?thesis by (simp add: facts scope_key_for_template_def)
  next
    case ng: False
    show ?thesis
    proof (cases "scope_key_for_template t ctx")
      case None
      with scope_key_for_template_None [OF ng None Some] ng Some show ?thesis
        by (simp add: facts)
    next
      case key: (Some k)
      with scope_key_for_template_own [OF assms ng key Some] ng Some show ?thesis
        by (auto simp: facts has_scope_def list_ex_iff)
    qed
  qed
qed

lemma template_is_allowed_iff_witness:
  "template_is_allowed \<lparr>qt_id = ''t1'', qt_scope_type = Some ''department''\<rparr>
     (example_subject ''u1'' {''can_use_query_templates''} [example_department_scope] False)"
proof -
  let ?ctx = "example_subject ''u1'' {''can_use_query_templates''} [example_department_scope] False"
  have "well_formed_context ?ctx"
    by (simp add: well_formed_context_def example_subject_def example_department_scope_def)
  from template_is_allowed_iff [OF this, of "\<lparr>qt_id = ''t1'', qt_scope_type = Some ''department''\<rparr>"]
  show ?thesis
    by (simp add: has_permission_def example_subject_def example_department_scope_def)
qed

end
