(* ===== verification/Action_Policy.thy ===== *)
theory Action_Policy
  imports Access_Policy
begin

text \<open>
  The action policy (\<open>action_engine/policy.py\<close>): who may request an action in a scope, and
  who may approve a request of a given size, scope and risk.
\<close>

definition SCOPED_APPROVAL_RECORD_LIMIT :: int where
  "SCOPED_APPROVAL_RECORD_LIMIT = 20"

record action_policy_decision =
  pd_allowed :: bool
  pd_code :: string
  pd_reason :: string
  pd_required_permission :: "string option"
  pd_matched_scopes :: "string list"
  pd_requires_admin :: bool
  pd_self_approved :: bool

definition policy_allow ::
  "string \<Rightarrow> string option \<Rightarrow> string list \<Rightarrow> bool \<Rightarrow> bool \<Rightarrow> action_policy_decision" where
  "policy_allow code required matched admin self =
     \<lparr>pd_allowed = True, pd_code = code,
      pd_reason = ''The action is allowed by the current policy.'',
      pd_required_permission = required, pd_matched_scopes = matched,
      pd_requires_admin = admin, pd_self_approved = self\<rparr>"

definition policy_deny :: "string \<Rightarrow> string option \<Rightarrow> bool \<Rightarrow> action_policy_decision" where
  "policy_deny code required admin =
     \<lparr>pd_allowed = False, pd_code = code,
      pd_reason = ''The action is not authorized by the current policy.'',
      pd_required_permission = required, pd_matched_scopes = [],
      pd_requires_admin = admin, pd_self_approved = False\<rparr>"

lemma policy_allow_simps [simp]:
  "pd_allowed (policy_allow c p m a s)" "pd_code (policy_allow c p m a s) = c"
  "pd_required_permission (policy_allow c p m a s) = p"
  "pd_matched_scopes (policy_allow c p m a s) = m"
  "pd_requires_admin (policy_allow c p m a s) = a"
  "pd_self_approved (policy_allow c p m a s) = s"
  by (simp_all add: policy_allow_def)

lemma policy_deny_simps [simp]:
  "\<not> pd_allowed (policy_deny c p a)" "pd_code (policy_deny c p a) = c"
  "pd_required_permission (policy_deny c p a) = p" "pd_matched_scopes (policy_deny c p a) = []"
  "pd_requires_admin (policy_deny c p a) = a" "\<not> pd_self_approved (policy_deny c p a)"
  by (simp_all add: policy_deny_def)

definition match_required_scope :: "user_access_context \<Rightarrow> string \<Rightarrow> string \<Rightarrow> string list" where
  "match_required_scope subject scope_type scope_key =
     (if scope_type = [] \<or> scope_key = [] then []
      else if uc_has_global_scope subject then [''global:global'']
      else if has_scope subject scope_type scope_key then [scope_label scope_type scope_key]
      else [])"

definition evaluate_action_request ::
  "user_access_context \<Rightarrow> string \<Rightarrow> string \<Rightarrow> action_policy_decision" where
  "evaluate_action_request subject scope_type scope_key =
     (if \<not> has_permission subject ''can_request_action''
      then policy_deny ''request_permission_required'' (Some ''can_request_action'') False
      else let matched = match_required_scope subject scope_type scope_key
           in if matched = []
              then policy_deny ''request_scope_required'' (Some ''can_request_action'') False
              else policy_allow ''request_allowed'' (Some ''can_request_action'') matched False False)"

record approval_question =
  aq_requester :: uuid
  aq_scope_type :: string
  aq_scope_key :: string
  aq_record_count :: int
  aq_crosses_scopes :: bool
  aq_requires_policy_override :: bool

definition requires_global_approval :: "approval_question \<Rightarrow> bool" where
  "requires_global_approval q \<longleftrightarrow>
     aq_crosses_scopes q \<or> aq_record_count q > SCOPED_APPROVAL_RECORD_LIMIT
     \<or> aq_scope_type q = ''global''"

definition evaluate_action_approval ::
  "user_access_context \<Rightarrow> approval_question \<Rightarrow> action_policy_decision" where
  "evaluate_action_approval subject q =
     (if aq_record_count q < 0 then policy_deny ''invalid_record_count'' None False
      else
        let is_self = (uc_user_id subject = aq_requester q)
        in if is_self \<and> \<not> has_permission subject ''can_self_approve_admin_action''
           then policy_deny ''self_approval_permission_required''
                  (Some ''can_self_approve_admin_action'') False
           else if aq_requires_policy_override q
                   \<and> \<not> has_permission subject ''can_approve_policy_override''
           then policy_deny ''override_permission_required''
                  (Some ''can_approve_policy_override'') True
           else
             let needs_global = requires_global_approval q;
                 requires_admin = needs_global \<or> aq_requires_policy_override q
             in if needs_global then
                  (if \<not> has_permission subject ''can_approve_global_action''
                   then policy_deny ''global_approval_permission_required''
                          (Some ''can_approve_global_action'') True
                   else if \<not> uc_has_global_scope subject
                   then policy_deny ''global_scope_required'' (Some ''can_approve_global_action'') True
                   else policy_allow ''approval_allowed'' (Some ''can_approve_global_action'')
                          [''global:global''] requires_admin is_self)
                else
                  (if \<not> has_permission subject ''can_approve_scoped_action''
                   then policy_deny ''scoped_approval_permission_required''
                          (Some ''can_approve_scoped_action'') False
                   else
                     let matched = match_required_scope subject (aq_scope_type q) (aq_scope_key q)
                     in if matched = []
                        then policy_deny ''approval_scope_required''
                               (Some ''can_approve_scoped_action'') False
                        else policy_allow ''approval_allowed'' (Some ''can_approve_scoped_action'')
                               matched requires_admin is_self))"

section \<open>What the decisions mean\<close>

definition covers_scope :: "user_access_context \<Rightarrow> string \<Rightarrow> string \<Rightarrow> bool" where
  "covers_scope subject ty k \<longleftrightarrow>
     ty \<noteq> [] \<and> k \<noteq> [] \<and> (uc_has_global_scope subject \<or> has_scope subject ty k)"

lemma match_required_scope_Nil:
  "match_required_scope subject ty k = [] \<longleftrightarrow> \<not> covers_scope subject ty k"
  by (auto simp: match_required_scope_def covers_scope_def)

lemma covers_scope_mono: "subject_extends s t \<Longrightarrow> covers_scope s ty k \<Longrightarrow> covers_scope t ty k"
  by (auto simp: covers_scope_def dest: subject_extends_mono)

lemma evaluate_action_request_allowed:
  "pd_allowed (evaluate_action_request subject ty k) \<longleftrightarrow>
     has_permission subject ''can_request_action'' \<and> covers_scope subject ty k"
  by (simp add: evaluate_action_request_def Let_def match_required_scope_Nil)

definition approval_admits :: "user_access_context \<Rightarrow> approval_question \<Rightarrow> bool" where
  "approval_admits subject q \<longleftrightarrow>
     aq_record_count q \<ge> 0
     \<and> (uc_user_id subject \<noteq> aq_requester q \<or> has_permission subject ''can_self_approve_admin_action'')
     \<and> (aq_requires_policy_override q \<longrightarrow> has_permission subject ''can_approve_policy_override'')
     \<and> (if requires_global_approval q
        then has_permission subject ''can_approve_global_action'' \<and> uc_has_global_scope subject
        else has_permission subject ''can_approve_scoped_action''
             \<and> covers_scope subject (aq_scope_type q) (aq_scope_key q))"

lemma evaluate_action_approval_allowed:
  "pd_allowed (evaluate_action_approval subject q) \<longleftrightarrow> approval_admits subject q"
  by (auto simp: evaluate_action_approval_def approval_admits_def Let_def match_required_scope_Nil)

lemma evaluate_action_approval_self:
  "pd_allowed (evaluate_action_approval subject q) \<Longrightarrow>
     pd_self_approved (evaluate_action_approval subject q) \<longleftrightarrow> uc_user_id subject = aq_requester q"
  by (auto simp: evaluate_action_approval_def Let_def split: if_splits)

definition request_gate_admits :: "user_access_context \<Rightarrow> string \<times> string \<Rightarrow> bool" where
  "request_gate_admits s = (\<lambda>(ty, k). pd_allowed (evaluate_action_request s ty k))"

definition approval_gate_admits :: "user_access_context \<Rightarrow> approval_question \<Rightarrow> bool" where
  "approval_gate_admits s q = pd_allowed (evaluate_action_approval s q)"

definition approval_gate_needs :: "approval_question \<Rightarrow> string set" where
  "approval_gate_needs q =
     (if requires_global_approval q then {''can_approve_global_action''}
      else {''can_approve_scoped_action''})"

interpretation request_gate: permission_gate request_gate_admits "\<lambda>_. {''can_request_action''}"
  by unfold_locales
     (auto simp: request_gate_admits_def evaluate_action_request_allowed
       dest: subject_extends_permission covers_scope_mono)

interpretation approval_gate: permission_gate approval_gate_admits approval_gate_needs
proof
  fix s q
  assume "approval_gate_admits s q"
  then show "\<exists>p \<in> approval_gate_needs q. has_permission s p"
    by (auto simp: approval_gate_admits_def approval_gate_needs_def evaluate_action_approval_allowed
        approval_admits_def split: if_splits)
next
  fix s t q
  assume "subject_extends s t" "approval_gate_admits s q"
  then show "approval_gate_admits t q"
    by (auto simp: approval_gate_admits_def evaluate_action_approval_allowed approval_admits_def
        dest: subject_extends_mono covers_scope_mono split: if_splits)
       (auto simp: subject_extends_def)
qed

section \<open>Properties\<close>

text \<open>
  C4: an approval is allowed exactly when the count is not negative, a self-approval is
  covered by the self-approval permission, a policy override by the override permission,
  and the approver has global permission and reach (for a cross-scope, over-limit or
  global request) or scoped permission and the request's scope (otherwise); the decision
  then says truthfully whether it is a self-approval.
\<close>

theorem action_approval_iff:
  "(pd_allowed (evaluate_action_approval subject q) \<longleftrightarrow>
      aq_record_count q \<ge> 0
      \<and> \<not> (uc_user_id subject = aq_requester q
           \<and> \<not> has_permission subject ''can_self_approve_admin_action'')
      \<and> \<not> (aq_requires_policy_override q \<and> \<not> has_permission subject ''can_approve_policy_override'')
      \<and> (if aq_crosses_scopes q \<or> aq_record_count q > 20 \<or> aq_scope_type q = ''global''
         then has_permission subject ''can_approve_global_action'' \<and> uc_has_global_scope subject
         else has_permission subject ''can_approve_scoped_action''
              \<and> covers_scope subject (aq_scope_type q) (aq_scope_key q)))
   \<and> pd_self_approved (evaluate_action_approval subject q) =
       (pd_allowed (evaluate_action_approval subject q) \<and> uc_user_id subject = aq_requester q)"
proof -
  have "pd_self_approved (evaluate_action_approval subject q) =
      (pd_allowed (evaluate_action_approval subject q) \<and> uc_user_id subject = aq_requester q)"
    by (simp add: evaluate_action_approval_def Let_def)
  then show ?thesis
    by (simp only: evaluate_action_approval_allowed)
       (auto simp: approval_admits_def requires_global_approval_def SCOPED_APPROVAL_RECORD_LIMIT_def)
qed

text \<open>
  Approval rights only grow with grants, and shrink with risk: whoever may approve a
  request may approve it with fewer records, without crossing scopes and without an override
  whenever that approver also holds scoped approval of the request's scope.
\<close>

theorem approval_risk_antitone:
  assumes "pd_allowed (evaluate_action_approval s q)"
    and "subject_extends s t"
    and "has_permission t ''can_approve_scoped_action''"
    and "covers_scope t (aq_scope_type q) (aq_scope_key q)"
    and "0 \<le> n" "n \<le> aq_record_count q"
  shows "pd_allowed (evaluate_action_approval t
           (q\<lparr>aq_record_count := n, aq_crosses_scopes := False, aq_requires_policy_override := False\<rparr>))"
proof -
  have "approval_admits t q"
    using approval_gate.admits_mono [OF assms(2), of q] assms(1)
    by (simp add: approval_gate_admits_def evaluate_action_approval_allowed)
  with assms(3-6) show ?thesis
    by (auto simp: evaluate_action_approval_allowed approval_admits_def requires_global_approval_def
        SCOPED_APPROVAL_RECORD_LIMIT_def split: if_splits)
qed

lemma approval_risk_antitone_witness:
  "pd_allowed (evaluate_action_approval
     (example_subject ''u2'' {''can_approve_scoped_action'', ''can_approve_global_action'',
        ''can_approve_policy_override''} [example_department_scope] True)
     \<lparr>aq_requester = ''u1'', aq_scope_type = ''department'', aq_scope_key = ''it'',
      aq_record_count = 3, aq_crosses_scopes = False, aq_requires_policy_override = False\<rparr>)"
proof -
  let ?s = "example_subject ''u2'' {''can_approve_scoped_action'', ''can_approve_global_action'',
        ''can_approve_policy_override''} [example_department_scope] True"
  let ?q = "\<lparr>aq_requester = ''u1'', aq_scope_type = ''department'', aq_scope_key = ''it'',
      aq_record_count = 30, aq_crosses_scopes = True, aq_requires_policy_override = True\<rparr>"
  have "pd_allowed (evaluate_action_approval ?s ?q)"
    by (simp add: evaluate_action_approval_allowed approval_admits_def requires_global_approval_def
        example_subject_def has_permission_def)
  from approval_risk_antitone [OF this subject_extends_refl, of 3] show ?thesis
    by (simp add: example_subject_def has_permission_def covers_scope_def)
qed

end
