(* ===== verification/Json.thy ===== *)
theory Json
  imports Prelude
begin

text \<open>
  JSON documents and the Python operations the sources apply to values of unknown shape:
  \<open>isinstance\<close> tests, \<open>dict.get\<close>, key sets, \<open>==\<close> against a literal, membership in a set of
  strings (which raises \<open>TypeError\<close> on an unhashable value), and string helpers.

  A decoded JSON object has distinct keys; it is an association list in insertion order and
  the first entry of a key is the one \<open>get\<close> returns. A JSON number with a fraction or an
  exponent decodes to a float, modelled by its rational value. Characters are code points
  below 256.
\<close>

datatype json =
    JNull
  | JBool bool
  | JInt int
  | JFloat rat
  | JStr string
  | JList "json list"
  | JDict "(string \<times> json) list"

datatype py_exn = TypeError | ValueError | KeyError | LookupError | AttributeError | RuntimeError | SQLAlchemyError | ArithmeticError | AssertionError

fun is_dict :: "json \<Rightarrow> bool" where
  "is_dict (JDict _) = True"
| "is_dict _ = False"

fun jget :: "json \<Rightarrow> string \<Rightarrow> json" where
  "jget (JDict kvs) k = (case map_of kvs k of None \<Rightarrow> JNull | Some v \<Rightarrow> v)"
| "jget _ k = JNull"

fun jkeys :: "json \<Rightarrow> string set" where
  "jkeys (JDict kvs) = fst ` set kvs"
| "jkeys _ = {}"

text \<open>Only dictionaries and lists are unhashable among the decoded values.\<close>

fun hashable :: "json \<Rightarrow> bool" where
  "hashable (JList _) = False"
| "hashable (JDict _) = False"
| "hashable _ = True"

definition in_str_set :: "json \<Rightarrow> string list \<Rightarrow> py_exn + bool" where
  "in_str_set v names =
     (if \<not> hashable v then Inl TypeError else Inr (list_ex (\<lambda>s. v = JStr s) names))"

text \<open>\<open>v == n\<close> for an integer literal \<open>n\<close>: booleans and floats compare by value.\<close>

fun json_eq_int :: "json \<Rightarrow> int \<Rightarrow> bool" where
  "json_eq_int (JInt i) n = (i = n)"
| "json_eq_int (JFloat r) n = (r = of_int n)"
| "json_eq_int (JBool b) n = ((if b then 1 else 0) = n)"
| "json_eq_int _ n = False"

text \<open>\<open>isinstance(v, int) and not isinstance(v, bool)\<close>, with the value.\<close>

fun strict_int :: "json \<Rightarrow> int option" where
  "strict_int (JInt i) = Some i"
| "strict_int _ = None"

lemma strict_int_Some_iff [simp]: "strict_int v = Some i \<longleftrightarrow> v = JInt i"
  by (cases v) auto

section \<open>Strings\<close>

definition py_isspace :: "char \<Rightarrow> bool" where
  "py_isspace c \<longleftrightarrow> (let n = (of_char c :: nat) in
     (9 \<le> n \<and> n \<le> 13) \<or> (28 \<le> n \<and> n \<le> 32) \<or> n = 133 \<or> n = 160)"

definition py_lstrip :: "string \<Rightarrow> string" where
  "py_lstrip s = dropWhile py_isspace s"

definition py_strip :: "string \<Rightarrow> string" where
  "py_strip s = rev (dropWhile py_isspace (rev (dropWhile py_isspace s)))"

definition is_ascii_letter :: "char \<Rightarrow> bool" where
  "is_ascii_letter c \<longleftrightarrow> (let n = (of_char c :: nat) in (65 \<le> n \<and> n \<le> 90) \<or> (97 \<le> n \<and> n \<le> 122))"

definition is_ascii_digit :: "char \<Rightarrow> bool" where
  "is_ascii_digit c \<longleftrightarrow> (let n = (of_char c :: nat) in 48 \<le> n \<and> n \<le> 57)"

text \<open>The identifier pattern \<open>[A-Za-z_][A-Za-z0-9_]*\<close> matched against a whole string.\<close>

definition identifier_start :: "char \<Rightarrow> bool" where
  "identifier_start c \<longleftrightarrow> is_ascii_letter c \<or> c = CHR ''_''"

definition identifier_char :: "char \<Rightarrow> bool" where
  "identifier_char c \<longleftrightarrow> is_ascii_letter c \<or> is_ascii_digit c \<or> c = CHR ''_''"

definition is_identifier :: "string \<Rightarrow> bool" where
  "is_identifier s = (case s of [] \<Rightarrow> False | c # cs \<Rightarrow> identifier_start c \<and> list_all identifier_char cs)"

lemma identifier_start_char: "identifier_start c \<Longrightarrow> identifier_char c"
  by (auto simp: identifier_start_def identifier_char_def)

lemma is_identifier_chars: "is_identifier s \<Longrightarrow> c \<in> set s \<Longrightarrow> identifier_char c"
  by (cases s) (auto simp: is_identifier_def list_all_iff intro: identifier_start_char)

lemma identifier_char_not_space: "identifier_char c \<Longrightarrow> \<not> py_isspace c"
  by (auto simp: identifier_char_def is_ascii_letter_def is_ascii_digit_def py_isspace_def Let_def)

lemma dropWhile_none: "(\<And>x. x \<in> set xs \<Longrightarrow> \<not> p x) \<Longrightarrow> dropWhile p xs = xs"
  by (cases xs) auto

lemma py_strip_identifier: "is_identifier s \<Longrightarrow> py_strip s = s"
proof -
  assume "is_identifier s"
  then have none: "\<And>x. x \<in> set s \<Longrightarrow> \<not> py_isspace x"
    by (auto dest: is_identifier_chars identifier_char_not_space)
  then have "dropWhile py_isspace (rev s) = rev s" by (intro dropWhile_none) simp
  with none show ?thesis by (simp add: py_strip_def dropWhile_none)
qed

text \<open>\<open>str(n)\<close> of an int.\<close>

fun nat_digits :: "nat \<Rightarrow> string" where
  "nat_digits n = (if n < 10 then [char_of (48 + n)] else nat_digits (n div 10) @ [char_of (48 + n mod 10)])"

declare nat_digits.simps [simp del]

definition int_text :: "int \<Rightarrow> string" where
  "int_text i = (if i < 0 then CHR ''-'' # nat_digits (nat (- i)) else nat_digits (nat i))"

text \<open>\<open>str.lower\<close> on characters below 256.\<close>

definition py_lower_char :: "char \<Rightarrow> char" where
  "py_lower_char c = (let n = (of_char c :: nat) in
     if (65 \<le> n \<and> n \<le> 90) \<or> (192 \<le> n \<and> n \<le> 222 \<and> n \<noteq> 215) then char_of (n + 32) else c)"

definition py_lower :: "string \<Rightarrow> string" where
  "py_lower s = map py_lower_char s"

end
