(* ===== verification/Uuid_Text.thy ===== *)
theory Uuid_Text
  imports Json
begin

text \<open>
  UUIDs in request payloads: the standard library's \<open>UUID(text)\<close> and \<open>str(uuid)\<close>, with
  \<open>int(text, 16)\<close> as the constructor calls it. A UUID is the integer below \<open>2 ^ 128\<close>; the model's
  \<^typ>\<open>uuid\<close> is its canonical text.
\<close>

section \<open>Hexadecimal digits\<close>

definition hex_value :: "char \<Rightarrow> nat option" where
  "hex_value c = (let n = (of_char c :: nat) in
     if 48 \<le> n \<and> n \<le> 57 then Some (n - 48)
     else if 65 \<le> n \<and> n \<le> 70 then Some (n - 55)
     else if 97 \<le> n \<and> n \<le> 102 then Some (n - 87)
     else None)"

definition hex_char :: "nat \<Rightarrow> char" where
  "hex_char d = ''0123456789abcdef'' ! d"

lemma lt16_cases:
  fixes d :: nat
  assumes "d < 16"
  shows "d = 0 \<or> d = 1 \<or> d = 2 \<or> d = 3 \<or> d = 4 \<or> d = 5 \<or> d = 6 \<or> d = 7 \<or> d = 8 \<or> d = 9
    \<or> d = 10 \<or> d = 11 \<or> d = 12 \<or> d = 13 \<or> d = 14 \<or> d = 15"
  using assms by arith

lemma hex_value_char: "d < 16 \<Longrightarrow> hex_value (hex_char d) = Some d"
  by (drule lt16_cases, elim disjE) (simp_all add: hex_char_def hex_value_def)

lemma hex_char_plain:
  "d < 16 \<Longrightarrow> \<not> py_isspace (hex_char d) \<and> hex_char d \<notin> set ''+-_xX{}u''"
  by (drule lt16_cases, elim disjE) (simp_all add: hex_char_def py_isspace_def)

text \<open>
  \<open>int(text, 16)\<close>: surrounding white space, a sign, a \<open>0x\<close> prefix (one underscore may follow it),
  then digits with single underscores between them.
\<close>

fun hex_digits :: "nat \<Rightarrow> bool \<Rightarrow> string \<Rightarrow> nat option" where
  "hex_digits acc after_digit [] = (if after_digit then Some acc else None)"
| "hex_digits acc after_digit (c # cs) =
     (if c = CHR ''_'' then (if after_digit then hex_digits acc False cs else None)
      else (case hex_value c of
              None \<Rightarrow> None
            | Some d \<Rightarrow> hex_digits (16 * acc + d) True cs))"

definition drop_hex_prefix :: "string \<Rightarrow> string" where
  "drop_hex_prefix s =
     (if take 2 s = ''0x'' \<or> take 2 s = ''0X''
      then (if take 1 (drop 2 s) = ''_'' then drop 3 s else drop 2 s)
      else s)"

definition int_base16 :: "string \<Rightarrow> int option" where
  "int_base16 s =
     (let t = py_strip s;
          neg = (take 1 t = ''-'');
          u = (if take 1 t = ''+'' \<or> neg then drop 1 t else t)
      in map_option (\<lambda>n. if neg then - int n else int n) (hex_digits 0 False (drop_hex_prefix u)))"

section \<open>\<open>UUID(text)\<close>\<close>

text \<open>\<open>text.replace(old, '')\<close>.\<close>

fun remove_all :: "string \<Rightarrow> string \<Rightarrow> string" where
  "remove_all old [] = []"
| "remove_all old (c # cs) =
     (if old \<noteq> [] \<and> take (length old) (c # cs) = old
      then remove_all old (drop (length old - 1) cs)
      else c # remove_all old cs)"

definition strip_chars :: "char list \<Rightarrow> string \<Rightarrow> string" where
  "strip_chars chars s =
     rev (dropWhile (\<lambda>c. c \<in> set chars) (rev (dropWhile (\<lambda>c. c \<in> set chars) s)))"

fun hex_text :: "nat \<Rightarrow> nat \<Rightarrow> string" where
  "hex_text 0 n = []"
| "hex_text (Suc k) n = hex_text k (n div 16) @ [hex_char (n mod 16)]"

definition dashed :: "string \<Rightarrow> string" where
  "dashed h =
     take 8 h @ ''-'' @ take 4 (drop 8 h) @ ''-'' @ take 4 (drop 12 h) @ ''-'' @ take 4 (drop 16 h)
     @ ''-'' @ drop 20 h"

definition uuid_text :: "nat \<Rightarrow> uuid" where
  "uuid_text n = dashed (hex_text 32 n)"

definition parse_uuid :: "string \<Rightarrow> uuid option" where
  "parse_uuid s =
     (let hex = filter (\<lambda>c. c \<noteq> CHR ''-'')
                  (strip_chars ''{}'' (remove_all ''uuid:'' (remove_all ''urn:'' s)))
      in if length hex \<noteq> 32 then None
         else (case int_base16 hex of
                 None \<Rightarrow> None
               | Some i \<Rightarrow> if 0 \<le> i \<and> i < 2 ^ 128 then Some (uuid_text (nat i)) else None))"

definition is_uuid :: "uuid \<Rightarrow> bool" where
  "is_uuid u \<longleftrightarrow> parse_uuid u = Some u"

section \<open>Reading back the canonical text\<close>

lemma length_hex_text [simp]: "length (hex_text k n) = k"
  by (induction k n rule: hex_text.induct) auto

lemma hex_text_chars: "c \<in> set (hex_text k n) \<Longrightarrow> \<exists>d < 16. c = hex_char d"
  by (induction k n rule: hex_text.induct) (auto intro: exI [of _ "_ mod 16"])

lemma hex_digits_append:
  "hex_digits acc b s = Some m \<Longrightarrow> d < 16 \<Longrightarrow> hex_digits acc b (s @ [hex_char d]) = Some (16 * m + d)"
proof (induction acc b s rule: hex_digits.induct)
  case (1 acc b)
  then show ?case using hex_char_plain [OF 1(2)] by (auto simp: hex_value_char split: if_splits)
next
  case (2 acc b c cs)
  then show ?case by (auto split: if_splits option.splits)
qed

lemma hex_digits_text:
  "hex_digits 0 False (hex_text (Suc k) n) = Some (n mod 16 ^ Suc k)"
proof (induction k arbitrary: n)
  case 0
  show ?case using hex_char_plain [of "n mod 16"] by (simp add: hex_value_char)
next
  case (Suc k)
  have "hex_text (Suc (Suc k)) n = hex_text (Suc k) (n div 16) @ [hex_char (n mod 16)]" by simp
  moreover have "16 * (n div 16 mod 16 ^ Suc k) + n mod 16 = n mod 16 ^ Suc (Suc k)"
    using mod_mult2_eq [of n 16 "16 ^ Suc k"] by simp
  ultimately show ?case
    using hex_digits_append [OF Suc [of "n div 16"], of "n mod 16"] by (simp del: hex_text.simps)
qed

lemma remove_all_none: "old \<noteq> [] \<Longrightarrow> hd old \<notin> set s \<Longrightarrow> remove_all old s = s"
proof (induction old s rule: remove_all.induct)
  case (1 old)
  show ?case by simp
next
  case (2 old c cs)
  then have "take (length old) (c # cs) \<noteq> old" by (cases old) auto
  with 2 show ?case by auto
qed

lemma dropWhile_head: "xs \<noteq> [] \<Longrightarrow> \<not> p (hd xs) \<Longrightarrow> dropWhile p xs = xs"
  by (cases xs) auto

definition plain_hex :: "string \<Rightarrow> bool" where
  "plain_hex s \<longleftrightarrow> list_all (\<lambda>c. \<exists>d < 16. c = hex_char d) s"

lemma plain_hex_text [simp]: "plain_hex (hex_text k n)"
  using hex_text_chars by (auto simp: plain_hex_def list_all_iff)

lemma plain_hexD: "plain_hex s \<Longrightarrow> c \<in> set s \<Longrightarrow> \<not> py_isspace c \<and> c \<notin> set ''+-_xX{}u''"
  using hex_char_plain by (fastforce simp: plain_hex_def list_all_iff)

lemma int_base16_text: "int_base16 (hex_text (Suc k) n) = Some (int (n mod 16 ^ Suc k))"
proof -
  let ?s = "hex_text (Suc k) n"
  have plain: "c \<in> set ?s \<Longrightarrow> \<not> py_isspace c \<and> c \<notin> set ''+-_xX{}u''" for c
    by (rule plain_hexD [OF plain_hex_text])
  then have "dropWhile py_isspace (rev ?s) = rev ?s" "dropWhile py_isspace ?s = ?s"
    by (intro dropWhile_none; simp del: hex_text.simps)+
  then have strip: "py_strip ?s = ?s" unfolding py_strip_def by simp
  obtain c cs where s: "?s = c # cs" by (metis length_hex_text Zero_not_Suc list.exhaust list.size(3))
  have all: "e \<in> set (c # cs) \<Longrightarrow> e \<notin> set ''+-_xX{}u''" for e using plain [of e] unfolding s by blast
  have c: "c \<noteq> CHR ''+''" "c \<noteq> CHR ''-''" using all [of c] by auto
  have "drop_hex_prefix ?s = ?s"
  proof (cases cs)
    case Nil
    then show ?thesis unfolding s by (simp add: drop_hex_prefix_def)
  next
    case (Cons d ds)
    then have "d \<noteq> CHR ''x''" "d \<noteq> CHR ''X''" using all [of d] by auto
    then show ?thesis unfolding s by (simp add: Cons drop_hex_prefix_def numeral_2_eq_2)
  qed
  moreover have "take 1 ?s = [c]" unfolding s by simp
  ultimately show ?thesis
    using hex_digits_text [of k n] c
    by (simp add: int_base16_def strip del: hex_text.simps)
qed

lemma filter_dashed: "length h = 32 \<Longrightarrow> CHR ''-'' \<notin> set h \<Longrightarrow> filter (\<lambda>c. c \<noteq> CHR ''-'') (dashed h) = h"
proof -
  assume len: "length h = 32" and no: "CHR ''-'' \<notin> set h"
  have keep: "filter (\<lambda>c. c \<noteq> CHR ''-'') t = t" if "set t \<subseteq> set h" for t
    using that no by (intro filter_True) auto
  have "filter (\<lambda>c. c \<noteq> CHR ''-'') (dashed h)
      = take 8 h @ take 4 (drop 8 h) @ take 4 (drop 12 h) @ take 4 (drop 16 h) @ drop 20 h"
    by (simp add: dashed_def keep set_take_subset set_drop_subset
        order_trans [OF set_take_subset set_drop_subset])
  also have "\<dots> = h"
  proof -
    have step: "take 4 (drop k h) @ drop (k + 4) h = drop k h" for k
      by (metis append_take_drop_id drop_drop add.commute)
    show ?thesis using step [of 16] step [of 12] step [of 8] append_take_drop_id [of 8 h]
      by (simp add: numeral_eq_Suc)
  qed
  finally show ?thesis .
qed

lemma parse_uuid_text:
  assumes "n < 2 ^ 128"
  shows "parse_uuid (uuid_text n) = Some (uuid_text n)"
proof -
  let ?h = "hex_text 32 n"
  have plain: "c \<in> set ?h \<Longrightarrow> c \<notin> set ''+-_xX{}u''" for c
    using plain_hexD [OF plain_hex_text] by blast
  have chars: "c \<in> set (dashed ?h) \<Longrightarrow> c \<in> set ?h \<or> c = CHR ''-''" for c
    by (auto simp: dashed_def dest: in_set_takeD in_set_dropD)
  have no: "CHR ''u'' \<notin> set (dashed ?h)" "CHR ''{'' \<notin> set (dashed ?h)" "CHR ''}'' \<notin> set (dashed ?h)"
    using chars plain by fastforce+
  have "remove_all ''uuid:'' (remove_all ''urn:'' (dashed ?h)) = dashed ?h"
    using no(1) by (simp add: remove_all_none)
  moreover have "strip_chars ''{}'' (dashed ?h) = dashed ?h"
  proof -
    have "x \<in> set (dashed ?h) \<Longrightarrow> x \<notin> set ''{}''" for x using no(2,3) by auto
    then have "dropWhile (\<lambda>c. c \<in> set ''{}'') (dashed ?h) = dashed ?h"
      "dropWhile (\<lambda>c. c \<in> set ''{}'') (rev (dashed ?h)) = rev (dashed ?h)"
      by (intro dropWhile_none; force)+
    then show ?thesis unfolding strip_chars_def by simp
  qed
  moreover have "filter (\<lambda>c. c \<noteq> CHR ''-'') (dashed ?h) = ?h"
    using plain by (intro filter_dashed) auto
  moreover have "int_base16 ?h = Some (int n)"
  proof -
    have "(16::nat) ^ Suc 31 = 2 ^ 128" by simp
    with int_base16_text [of 31 n] have "int_base16 (hex_text (Suc 31) n) = Some (int (n mod 2 ^ 128))"
      by (simp only:)
    moreover have "Suc 31 = 32" by simp
    ultimately show ?thesis using assms by (simp only: mod_less)
  qed
  ultimately show ?thesis using assms by (simp add: parse_uuid_def uuid_text_def)
qed

lemma parse_uuid_canonical: "parse_uuid s = Some u \<Longrightarrow> is_uuid u"
proof -
  assume "parse_uuid s = Some u"
  then obtain i :: int where "0 \<le> i" "i < 2 ^ 128" "u = uuid_text (nat i)"
    by (auto simp: parse_uuid_def Let_def split: if_splits option.splits)
  then show ?thesis using parse_uuid_text [of "nat i"] by (simp add: is_uuid_def nat_less_iff)
qed

end
