(* ===== verification/Grid.thy ===== *)
theory Grid
  imports Json
begin

text \<open>
  The geometry of the dashboard editor (\<open>dashboards/editor.py\<close>): breakpoints, coordinates,
  the overlap test, the size tables, and the two-phase placement loop, with the interface
  between the loop and the cell allocator it calls.
\<close>

section \<open>Breakpoints, sizes and coordinates\<close>

datatype breakpoint = Desktop | Tablet | Mobile

definition all_breakpoints :: "breakpoint list" where
  "all_breakpoints = [Desktop, Tablet, Mobile]"

fun breakpoint_name :: "breakpoint \<Rightarrow> string" where
  "breakpoint_name Desktop = ''desktop''"
| "breakpoint_name Tablet = ''tablet''"
| "breakpoint_name Mobile = ''mobile''"

fun BREAKPOINT_COLUMNS :: "breakpoint \<Rightarrow> int" where
  "BREAKPOINT_COLUMNS Desktop = 12"
| "BREAKPOINT_COLUMNS Tablet = 6"
| "BREAKPOINT_COLUMNS Mobile = 1"

definition LAYOUT_SCHEMA_VERSION :: int where "LAYOUT_SCHEMA_VERSION = 1"
definition MAX_LAYOUT_Y :: int where "MAX_LAYOUT_Y = 10000"
definition MAX_COLUMN_NAME_LENGTH :: nat where "MAX_COLUMN_NAME_LENGTH = 128"
definition MAX_VALUE_COLUMNS :: nat where "MAX_VALUE_COLUMNS = 8"

definition VISUALIZATION_TYPES :: "string list" where
  "VISUALIZATION_TYPES =
     [''kpi'', ''table'', ''bar'', ''line'', ''area'', ''donut'', ''semicircle_gauge'',
      ''stacked_bar'', ''status_list'']"

definition VISUALIZATION_MODES :: "string list" where
  "VISUALIZATION_MODES = [''auto'', ''manual'']"

record coords =
  cx :: int
  cy :: int
  cw :: int
  ch :: int

type_synonym size_table = "breakpoint \<Rightarrow> (int \<times> int) list"

fun cartesian_sizes :: size_table where
  "cartesian_sizes Desktop =
     [(4, 2), (4, 3), (6, 2), (6, 3), (6, 4), (8, 2), (8, 3), (8, 4), (12, 2), (12, 3), (12, 4)]"
| "cartesian_sizes Tablet = [(3, 2), (3, 3), (4, 2), (4, 3), (6, 2), (6, 3), (6, 4)]"
| "cartesian_sizes Mobile = [(1, 2), (1, 3)]"

fun donut_gauge_sizes :: size_table where
  "donut_gauge_sizes Desktop = [(3, 2), (3, 3), (4, 2), (4, 3), (6, 2), (6, 3)]"
| "donut_gauge_sizes Tablet = [(3, 2), (3, 3), (4, 2), (4, 3), (6, 2), (6, 3)]"
| "donut_gauge_sizes Mobile = [(1, 2), (1, 3)]"

fun kpi_sizes :: size_table where
  "kpi_sizes Desktop = [(3, 1), (4, 1), (6, 1)]"
| "kpi_sizes Tablet = [(3, 1), (4, 1), (6, 1)]"
| "kpi_sizes Mobile = [(1, 1), (1, 2)]"

fun table_sizes :: size_table where
  "table_sizes Desktop =
     [(4, 2), (4, 3), (4, 4), (6, 2), (6, 3), (6, 4), (8, 2), (8, 3), (8, 4), (12, 2), (12, 3),
      (12, 4)]"
| "table_sizes Tablet =
     [(3, 2), (3, 3), (3, 4), (4, 2), (4, 3), (4, 4), (6, 2), (6, 3), (6, 4)]"
| "table_sizes Mobile = [(1, 2), (1, 3), (1, 4)]"

fun status_list_sizes :: size_table where
  "status_list_sizes Desktop =
     [(4, 2), (4, 3), (6, 2), (6, 3), (8, 2), (8, 3), (8, 4), (12, 4)]"
| "status_list_sizes Tablet = [(4, 2), (4, 3), (6, 2), (6, 3), (6, 4)]"
| "status_list_sizes Mobile = [(1, 2), (1, 3)]"

definition SIZE_POLICY :: "(string \<times> size_table) list" where
  "SIZE_POLICY =
     [(''kpi'', kpi_sizes), (''donut'', donut_gauge_sizes), (''semicircle_gauge'', donut_gauge_sizes),
      (''bar'', cartesian_sizes), (''line'', cartesian_sizes), (''area'', cartesian_sizes),
      (''stacked_bar'', cartesian_sizes), (''table'', table_sizes),
      (''status_list'', status_list_sizes)]"

fun default_size_of :: "int \<times> int \<Rightarrow> int \<times> int \<Rightarrow> int \<times> int \<Rightarrow> breakpoint \<Rightarrow> int \<times> int" where
  "default_size_of d t m Desktop = d"
| "default_size_of d t m Tablet = t"
| "default_size_of d t m Mobile = m"

definition DEFAULT_SIZES :: "(string \<times> (breakpoint \<Rightarrow> int \<times> int)) list" where
  "DEFAULT_SIZES =
     [(''kpi'', default_size_of (3, 1) (3, 1) (1, 1)),
      (''donut'', default_size_of (3, 2) (3, 2) (1, 2)),
      (''semicircle_gauge'', default_size_of (3, 2) (3, 2) (1, 2)),
      (''bar'', default_size_of (6, 2) (6, 2) (1, 2)),
      (''line'', default_size_of (6, 2) (6, 2) (1, 2)),
      (''area'', default_size_of (6, 2) (6, 2) (1, 2)),
      (''stacked_bar'', default_size_of (6, 2) (6, 2) (1, 2)),
      (''table'', default_size_of (6, 3) (6, 3) (1, 3)),
      (''status_list'', default_size_of (4, 2) (4, 2) (1, 2))]"

text \<open>A lookup that raises \<open>KeyError\<close> on an unknown visualization type.\<close>

definition size_policy :: "string \<Rightarrow> breakpoint \<Rightarrow> py_exn + (int \<times> int) list" where
  "size_policy t bp = (case map_of SIZE_POLICY t of None \<Rightarrow> Inl KeyError | Some f \<Rightarrow> Inr (f bp))"

definition default_size :: "string \<Rightarrow> breakpoint \<Rightarrow> py_exn + int \<times> int" where
  "default_size t bp = (case map_of DEFAULT_SIZES t of None \<Rightarrow> Inl KeyError | Some f \<Rightarrow> Inr (f bp))"

definition overlaps :: "coords \<Rightarrow> coords \<Rightarrow> bool" where
  "overlaps a b \<longleftrightarrow>
     \<not> (cx a + cw a \<le> cx b \<or> cx b + cw b \<le> cx a \<or> cy a + ch a \<le> cy b \<or> cy b + ch b \<le> cy a)"

lemma overlaps_sym: "overlaps a b \<longleftrightarrow> overlaps b a"
  by (auto simp: overlaps_def)

text \<open>Two cards overlap exactly when some unit cell belongs to both.\<close>

definition covers_cell :: "coords \<Rightarrow> int \<times> int \<Rightarrow> bool" where
  "covers_cell c = (\<lambda>(i, j). cx c \<le> i \<and> i < cx c + cw c \<and> cy c \<le> j \<and> j < cy c + ch c)"

lemma overlaps_iff_shared_cell:
  assumes "0 < cw a" "0 < ch a" "0 < cw b" "0 < ch b"
  shows "overlaps a b \<longleftrightarrow> (\<exists>p. covers_cell a p \<and> covers_cell b p)"
proof
  assume "overlaps a b"
  then have "covers_cell a (max (cx a) (cx b), max (cy a) (cy b))"
    and "covers_cell b (max (cx a) (cx b), max (cy a) (cy b))"
    using assms by (auto simp: overlaps_def covers_cell_def)
  then show "\<exists>p. covers_cell a p \<and> covers_cell b p" by blast
next
  assume "\<exists>p. covers_cell a p \<and> covers_cell b p"
  then show "overlaps a b" by (auto simp: overlaps_def covers_cell_def)
qed

fun no_overlaps :: "coords list \<Rightarrow> bool" where
  "no_overlaps [] = True"
| "no_overlaps (c # cs) = (\<not> list_ex (overlaps c) cs \<and> no_overlaps cs)"

lemma no_overlaps_append:
  "no_overlaps (cs @ ds) \<longleftrightarrow>
     no_overlaps cs \<and> no_overlaps ds \<and> (\<forall>c \<in> set cs. \<forall>d \<in> set ds. \<not> overlaps c d)"
  by (induction cs) (auto simp: list_ex_iff)

section \<open>Finding a free cell\<close>

definition first_in_row :: "int \<Rightarrow> int \<Rightarrow> int \<Rightarrow> coords list \<Rightarrow> int \<Rightarrow> coords option" where
  "first_in_row columns width height occupied y =
     List.find (\<lambda>c. \<not> list_ex (overlaps c) occupied)
       (map (\<lambda>x. \<lparr>cx = x, cy = y, cw = width, ch = height\<rparr>) [0..columns - width])"

function first_from_row :: "int \<Rightarrow> int \<Rightarrow> int \<Rightarrow> coords list \<Rightarrow> int \<Rightarrow> coords option" where
  "first_from_row columns width height occupied y =
     (if y > MAX_LAYOUT_Y then None
      else (case first_in_row columns width height occupied y of
              Some c \<Rightarrow> Some c
            | None \<Rightarrow> first_from_row columns width height occupied (y + 1)))"
  by pat_completeness auto
termination
  by (relation "measure (\<lambda>(_, _, _, _, y). nat (MAX_LAYOUT_Y + 1 - y))") auto

declare first_from_row.simps [simp del]

definition first_available_coordinates ::
  "int \<Rightarrow> int \<Rightarrow> int \<Rightarrow> coords list \<Rightarrow> py_exn + coords" where
  "first_available_coordinates columns width height occupied =
     (case first_from_row columns width height occupied 0 of
        Some c \<Rightarrow> Inr c
      | None \<Rightarrow> Inl ValueError)"

lemma first_in_row_Some:
  assumes "first_in_row columns width height occupied y = Some c"
  shows "cw c = width \<and> ch c = height \<and> cy c = y \<and> 0 \<le> cx c \<and> cx c + width \<le> columns
     \<and> \<not> list_ex (overlaps c) occupied"
  using assms unfolding first_in_row_def by (auto dest!: find_SomeD)

lemma first_from_row_Some:
  "first_from_row columns width height occupied y = Some c \<Longrightarrow>
     cw c = width \<and> ch c = height \<and> y \<le> cy c \<and> cy c \<le> MAX_LAYOUT_Y \<and> 0 \<le> cx c
     \<and> cx c + width \<le> columns \<and> \<not> list_ex (overlaps c) occupied"
proof (induction columns width height occupied y rule: first_from_row.induct)
  case (1 columns width height occupied y)
  from "1.prems" have le: "y \<le> MAX_LAYOUT_Y"
    by (subst (asm) first_from_row.simps) (auto split: if_splits)
  show ?case
  proof (cases "first_in_row columns width height occupied y")
    case None
    with "1.prems" le have "first_from_row columns width height occupied (y + 1) = Some c"
      by (subst (asm) first_from_row.simps) auto
    with "1.IH" le None show ?thesis by force
  next
    case (Some d)
    with "1.prems" le have "c = d" by (subst (asm) first_from_row.simps) auto
    with Some le first_in_row_Some [OF Some] show ?thesis by auto
  qed
qed

lemma first_from_row_None:
  "first_from_row columns width height occupied y = None \<Longrightarrow> y \<le> z \<Longrightarrow> z \<le> MAX_LAYOUT_Y \<Longrightarrow>
     first_in_row columns width height occupied z = None"
proof (induction columns width height occupied y rule: first_from_row.induct)
  case (1 columns width height occupied y)
  then have le: "y \<le> MAX_LAYOUT_Y" by simp
  have here: "first_in_row columns width height occupied y = None"
    using "1.prems"(1) le by (subst (asm) first_from_row.simps) (auto split: option.splits)
  then have rest: "first_from_row columns width height occupied (y + 1) = None"
    using "1.prems"(1) le by (subst (asm) first_from_row.simps) auto
  show ?case
  proof (cases "z = y")
    case True
    with here show ?thesis by simp
  next
    case False
    with "1.prems" have "y + 1 \<le> z" by simp
    with "1.IH" le here rest "1.prems" show ?thesis by auto
  qed
qed

text \<open>
  A column-0 candidate of height \<open>h\<close> at row \<open>y\<close> is blocked by an item only for rows within
  \<open>h + ch item - 1\<close> of the item, so few items cannot block every row of the grid.
\<close>

definition rows_blocked_by :: "int \<Rightarrow> coords \<Rightarrow> int set" where
  "rows_blocked_by height d = {cy d - height + 1 .. cy d + ch d - 1}"

lemma card_rows_blocked_by:
  "0 < height \<Longrightarrow> 0 \<le> ch d \<Longrightarrow> card (rows_blocked_by height d) = nat (ch d + height - 1)"
  by (simp add: rows_blocked_by_def algebra_simps)

lemma first_in_row_None_blocked:
  assumes "first_in_row columns width height occupied y = None" and "width \<le> columns"
  shows "y \<in> (\<Union>d \<in> set occupied. rows_blocked_by height d)"
proof -
  have "\<lparr>cx = 0, cy = y, cw = width, ch = height\<rparr>
      \<in> set (map (\<lambda>x. \<lparr>cx = x, cy = y, cw = width, ch = height\<rparr>) [0..columns - width])"
    using assms(2) by auto
  with assms(1) have "list_ex (overlaps \<lparr>cx = 0, cy = y, cw = width, ch = height\<rparr>) occupied"
    unfolding first_in_row_def find_None_iff by auto
  then obtain d where d: "d \<in> set occupied"
    and "overlaps \<lparr>cx = 0, cy = y, cw = width, ch = height\<rparr> d"
    by (auto simp: list_ex_iff)
  then have "y \<in> rows_blocked_by height d" by (auto simp: overlaps_def rows_blocked_by_def)
  with d show ?thesis by blast
qed

lemma first_available_total:
  assumes "0 < width" "width \<le> columns" "0 < height" "height \<le> 3"
    and heights: "\<And>d. d \<in> set occupied \<Longrightarrow> 0 \<le> ch d \<and> ch d \<le> 4"
    and few: "6 * int (length occupied) \<le> MAX_LAYOUT_Y"
  shows "\<exists>c. first_available_coordinates columns width height occupied = Inr c"
proof (rule ccontr)
  assume "\<nexists>c. first_available_coordinates columns width height occupied = Inr c"
  then have none: "first_from_row columns width height occupied 0 = None"
    by (auto simp: first_available_coordinates_def split: option.splits)
  let ?B = "\<Union>d \<in> set occupied. rows_blocked_by height d"
  have fin: "finite ?B" by (simp add: rows_blocked_by_def)
  have "{0..MAX_LAYOUT_Y} \<subseteq> ?B"
  proof
    fix y assume "y \<in> {0..MAX_LAYOUT_Y}"
    then have "first_in_row columns width height occupied y = None"
      using first_from_row_None [OF none] by simp
    then show "y \<in> ?B" using assms(2) by (rule first_in_row_None_blocked)
  qed
  then have "card {0..MAX_LAYOUT_Y} \<le> card ?B" by (rule card_mono [OF fin])
  also have "card ?B \<le> (\<Sum>d \<in> set occupied. card (rows_blocked_by height d))"
    by (rule card_UN_le) simp
  also have "\<dots> \<le> (\<Sum>d \<in> set occupied. 6)"
  proof (rule sum_mono)
    fix d assume "d \<in> set occupied"
    with heights [of d] assms(3,4) show "card (rows_blocked_by height d) \<le> 6"
      by (subst card_rows_blocked_by) auto
  qed
  also have "\<dots> \<le> 6 * length occupied" using card_length [of occupied] by simp
  finally show False using few by (simp add: MAX_LAYOUT_Y_def)
qed

end
