(* ===== verification/Dashboard_Editor.thy ===== *)
theory Dashboard_Editor
  imports Grid "HOL-Library.Product_Lexorder" "HOL-Library.Multiset"
begin

text \<open>
  The dashboard editor (\<open>dashboards/editor.py\<close>): parsing of visualization configurations and
  of layouts, the normalization that places every card of a dashboard at every breakpoint,
  and the positions derived from a layout.

  A card carries its stored \<open>layout\<close> and \<open>config\<close> documents as JSON. Card ids are a primary
  key: where it matters the list of cards has distinct ids.
\<close>

section \<open>Visualizations\<close>

record vis_mapping =
  vm_value_columns :: "string list"
  vm_category_column :: "string option"
  vm_series_column :: "string option"
  vm_label_column :: "string option"
  vm_target_column :: "string option"

record visualization =
  vz_mode :: string
  vz_type :: string
  vz_recommended_type :: string
  vz_mapping :: vis_mapping

definition default_visualization :: "string \<Rightarrow> visualization" where
  "default_visualization t =
     (let safe = (if t \<in> set VISUALIZATION_TYPES then t else ''table'')
      in \<lparr>vz_mode = ''auto'', vz_type = safe, vz_recommended_type = safe,
          vz_mapping = \<lparr>vm_value_columns = [], vm_category_column = None, vm_series_column = None,
                        vm_label_column = None, vm_target_column = None\<rparr>\<rparr>)"

definition parse_column_name :: "json \<Rightarrow> string option" where
  "parse_column_name v =
     (case v of
        JStr s \<Rightarrow>
          (let column = py_strip s
           in if column = [] \<or> length column > MAX_COLUMN_NAME_LENGTH then None
              else if \<not> is_identifier column then None
              else Some column)
      | _ \<Rightarrow> None)"

fun parse_value_columns :: "json list \<Rightarrow> string list \<Rightarrow> string list option" where
  "parse_value_columns [] parsed = Some parsed"
| "parse_value_columns (v # vs) parsed =
     (case parse_column_name v of
        None \<Rightarrow> None
      | Some c \<Rightarrow> if c \<in> set parsed then None else parse_value_columns vs (parsed @ [c]))"

text \<open>An optional column: \<open>None\<close> is kept, an invalid name rejects the document (outer \<open>None\<close>).\<close>

definition parse_optional_column :: "json \<Rightarrow> string option option" where
  "parse_optional_column v =
     (if v = JNull then Some None
      else (case parse_column_name v of None \<Rightarrow> None | Some c \<Rightarrow> Some (Some c)))"

definition parse_mapping :: "json \<Rightarrow> vis_mapping option" where
  "parse_mapping mapping =
     (if \<not> is_dict mapping
         \<or> jkeys mapping \<noteq> {''category_column'', ''value_columns'', ''series_column'',
                             ''label_column'', ''target_column''}
      then None
      else (case jget mapping ''value_columns'' of
              JList vs \<Rightarrow>
                if length vs > MAX_VALUE_COLUMNS then None
                else Option.bind (parse_value_columns vs []) (\<lambda>values.
                     Option.bind (parse_optional_column (jget mapping ''category_column'')) (\<lambda>category.
                     Option.bind (parse_optional_column (jget mapping ''series_column'')) (\<lambda>series.
                     Option.bind (parse_optional_column (jget mapping ''label_column'')) (\<lambda>label.
                     Option.bind (parse_optional_column (jget mapping ''target_column'')) (\<lambda>target.
                       Some \<lparr>vm_value_columns = values, vm_category_column = category,
                             vm_series_column = series, vm_label_column = label,
                             vm_target_column = target\<rparr>)))))
            | _ \<Rightarrow> None))"

fun str_of_json :: "json \<Rightarrow> string" where
  "str_of_json (JStr s) = s"
| "str_of_json _ = []"

text \<open>
  \<open>parse_visualization\<close>: the membership tests on \<open>mode\<close>, \<open>type\<close> and \<open>recommended_type\<close> hash
  their operand, so a list or an object there raises \<open>TypeError\<close> instead of returning \<open>None\<close>.
\<close>

definition parse_visualization :: "json \<Rightarrow> py_exn + visualization option" where
  "parse_visualization v =
     (if \<not> is_dict v \<or> jkeys v \<noteq> {''mode'', ''type'', ''recommended_type'', ''mapping''} then Inr None
      else
        result_bind (in_str_set (jget v ''mode'') VISUALIZATION_MODES) (\<lambda>mode_ok.
          if \<not> mode_ok then Inr None else
        result_bind (in_str_set (jget v ''type'') VISUALIZATION_TYPES) (\<lambda>type_ok.
          if \<not> type_ok then Inr None else
        result_bind (in_str_set (jget v ''recommended_type'') VISUALIZATION_TYPES) (\<lambda>rec_ok.
          if \<not> rec_ok then Inr None else
          Inr (map_option
                 (\<lambda>m. \<lparr>vz_mode = str_of_json (jget v ''mode''), vz_type = str_of_json (jget v ''type''),
                       vz_recommended_type = str_of_json (jget v ''recommended_type''),
                       vz_mapping = m\<rparr>)
                 (parse_mapping (jget v ''mapping''))))))  )"

section \<open>Cards\<close>

record dashboard_card =
  dc_id :: uuid
  dc_dashboard_id :: uuid
  dc_saved_query_id :: "uuid option"
  dc_title :: string
  dc_description :: "string option"
  dc_card_type :: string
  dc_position :: int
  dc_layout :: json
  dc_config :: json
  dc_created_at :: instant
  dc_updated_at :: instant

definition safe_visualization_for_card :: "dashboard_card \<Rightarrow> py_exn + visualization" where
  "safe_visualization_for_card dc =
     (if is_dict (dc_config dc) \<and> jkeys (dc_config dc) = {''visualization''} then
        result_bind (parse_visualization (jget (dc_config dc) ''visualization'')) (\<lambda>parsed.
          case parsed of
            Some vz \<Rightarrow> Inr vz
          | None \<Rightarrow> Inr (default_visualization (dc_card_type dc)))
      else Inr (default_visualization (dc_card_type dc)))"

definition visualization_type_for_card :: "dashboard_card \<Rightarrow> py_exn + string" where
  "visualization_type_for_card dc =
     result_bind (safe_visualization_for_card dc) (\<lambda>vz. Inr (vz_type vz))"

section \<open>Layouts\<close>

record layout =
  l_desktop :: coords
  l_tablet :: coords
  l_mobile :: coords

fun layout_at :: "layout \<Rightarrow> breakpoint \<Rightarrow> coords" where
  "layout_at l Desktop = l_desktop l"
| "layout_at l Tablet = l_tablet l"
| "layout_at l Mobile = l_mobile l"

definition parse_coordinates :: "json \<Rightarrow> int \<Rightarrow> bool \<Rightarrow> coords option" where
  "parse_coordinates v columns mobile =
     (if \<not> is_dict v \<or> jkeys v \<noteq> {''x'', ''y'', ''w'', ''h''} then None
      else
        Option.bind (strict_int (jget v ''x'')) (\<lambda>x.
        Option.bind (strict_int (jget v ''y'')) (\<lambda>y.
        Option.bind (strict_int (jget v ''w'')) (\<lambda>w.
        Option.bind (strict_int (jget v ''h'')) (\<lambda>h.
          if x < 0 \<or> y < 0 \<or> y > MAX_LAYOUT_Y then None
          else if w \<le> 0 \<or> h \<le> 0 then None
          else if x + w > columns then None
          else if mobile \<and> (x \<noteq> 0 \<or> w \<noteq> 1) then None
          else Some \<lparr>cx = x, cy = y, cw = w, ch = h\<rparr>)))))"

definition parse_breakpoint :: "json \<Rightarrow> string \<Rightarrow> breakpoint \<Rightarrow> py_exn + coords option" where
  "parse_breakpoint v vtype bp =
     (case parse_coordinates (jget v (breakpoint_name bp)) (BREAKPOINT_COLUMNS bp) (bp = Mobile) of
        None \<Rightarrow> Inr None
      | Some c \<Rightarrow>
          result_bind (size_policy vtype bp) (\<lambda>sizes.
            Inr (if (cw c, ch c) \<in> set sizes then Some c else None)))"

definition parse_breakpoints :: "json \<Rightarrow> string \<Rightarrow> py_exn + layout option" where
  "parse_breakpoints v vtype =
     result_bind (parse_breakpoint v vtype Desktop) (\<lambda>d.
       case d of None \<Rightarrow> Inr None | Some dc \<Rightarrow>
     result_bind (parse_breakpoint v vtype Tablet) (\<lambda>t.
       case t of None \<Rightarrow> Inr None | Some tc \<Rightarrow>
     result_bind (parse_breakpoint v vtype Mobile) (\<lambda>m.
       case m of None \<Rightarrow> Inr None | Some mc \<Rightarrow>
         Inr (Some \<lparr>l_desktop = dc, l_tablet = tc, l_mobile = mc\<rparr>))))"

definition parse_layout_for_card :: "json \<Rightarrow> string \<Rightarrow> py_exn + layout option" where
  "parse_layout_for_card v vtype =
     (if \<not> is_dict v \<or> jkeys v \<noteq> {''version'', ''desktop'', ''tablet'', ''mobile''} then Inr None
      else if (case jget v ''version'' of JBool _ \<Rightarrow> True | _ \<Rightarrow> False)
              \<or> \<not> json_eq_int (jget v ''version'') LAYOUT_SCHEMA_VERSION then Inr None
      else parse_breakpoints v vtype)"

definition parse_layout_item :: "json \<Rightarrow> string \<Rightarrow> py_exn + layout option" where
  "parse_layout_item v vtype =
     (if \<not> is_dict v \<or> jkeys v \<noteq> {''desktop'', ''tablet'', ''mobile''} then Inr None
      else parse_breakpoints v vtype)"

definition coords_json :: "coords \<Rightarrow> json" where
  "coords_json c =
     JDict [(''x'', JInt (cx c)), (''y'', JInt (cy c)), (''w'', JInt (cw c)), (''h'', JInt (ch c))]"

definition persisted_layout :: "layout \<Rightarrow> json" where
  "persisted_layout l =
     JDict [(''version'', JInt LAYOUT_SCHEMA_VERSION), (''desktop'', coords_json (l_desktop l)),
            (''tablet'', coords_json (l_tablet l)), (''mobile'', coords_json (l_mobile l))]"

definition layouts_do_not_overlap :: "(uuid \<times> layout) list \<Rightarrow> bool" where
  "layouts_do_not_overlap layouts =
     list_all (\<lambda>bp. no_overlaps (map (\<lambda>(_, l). layout_at l bp) layouts)) all_breakpoints"

section \<open>Normalization\<close>

text \<open>
  The two loops of \<open>normalize_card_layouts\<close> at one breakpoint: first every card whose stored
  layout parses keeps its place unless an earlier card overlaps it, then every other card
  takes the first free place for its default size. \<open>placed\<close> keeps insertion order.
\<close>

fun keep_existing :: "(uuid \<times> coords option) list \<Rightarrow> (uuid \<times> coords) list \<Rightarrow> (uuid \<times> coords) list" where
  "keep_existing [] placed = placed"
| "keep_existing ((i, existing) # rest) placed =
     (case existing of
        None \<Rightarrow> keep_existing rest placed
      | Some c \<Rightarrow>
          if list_ex (overlaps c) (map snd placed) then keep_existing rest placed
          else keep_existing rest (placed @ [(i, c)]))"

fun fill_missing ::
  "('k \<Rightarrow> coords list \<Rightarrow> py_exn + coords) \<Rightarrow> (uuid \<times> 'k) list \<Rightarrow> (uuid \<times> coords) list
     \<Rightarrow> py_exn + (uuid \<times> coords) list" where
  "fill_missing place [] placed = Inr placed"
| "fill_missing place ((i, k) # rest) placed =
     (if i \<in> fst ` set placed then fill_missing place rest placed
      else result_bind (place k (map snd placed)) (\<lambda>c.
             fill_missing place rest (placed @ [(i, c)])))"

definition place_default :: "breakpoint \<Rightarrow> string \<Rightarrow> coords list \<Rightarrow> py_exn + coords" where
  "place_default bp vtype occupied =
     result_bind (default_size vtype bp) (\<lambda>(width, height).
       first_available_coordinates (BREAKPOINT_COLUMNS bp) width height occupied)"

definition ordered_cards :: "dashboard_card list \<Rightarrow> dashboard_card list" where
  "ordered_cards cards = sort_key (\<lambda>c. (dc_position c, dc_created_at c, dc_id c)) cards"

text \<open>Every card with its visualization type and its parsed layout, in the order of the loops.\<close>

definition card_inputs :: "dashboard_card list \<Rightarrow> py_exn + (uuid \<times> string \<times> layout option) list" where
  "card_inputs cards =
     traverse (\<lambda>dc.
       result_bind (visualization_type_for_card dc) (\<lambda>vtype.
       result_bind (parse_layout_for_card (dc_layout dc) vtype) (\<lambda>existing.
         Inr (dc_id dc, vtype, existing)))) (ordered_cards cards)"

definition stored_places ::
  "breakpoint \<Rightarrow> (uuid \<times> string \<times> layout option) list \<Rightarrow> (uuid \<times> coords option) list" where
  "stored_places bp inputs =
     map (\<lambda>(i, _, existing). (i, map_option (\<lambda>l. layout_at l bp) existing)) inputs"

definition normalize_breakpoint ::
  "breakpoint \<Rightarrow> (uuid \<times> string \<times> layout option) list \<Rightarrow> py_exn + (uuid \<times> coords) list" where
  "normalize_breakpoint bp inputs =
     fill_missing (place_default bp) (map (\<lambda>(i, vtype, _). (i, vtype)) inputs)
       (keep_existing (stored_places bp inputs) [])"

definition coords_of :: "(uuid \<times> coords) list \<Rightarrow> uuid \<Rightarrow> coords" where
  "coords_of placed i = (case map_of placed i of Some c \<Rightarrow> c | None \<Rightarrow> \<lparr>cx = 0, cy = 0, cw = 0, ch = 0\<rparr>)"

definition normalize_card_layouts :: "dashboard_card list \<Rightarrow> py_exn + (uuid \<times> layout) list" where
  "normalize_card_layouts cards =
     result_bind (card_inputs cards) (\<lambda>inputs.
     result_bind (normalize_breakpoint Desktop inputs) (\<lambda>desktop.
     result_bind (normalize_breakpoint Tablet inputs) (\<lambda>tablet.
     result_bind (normalize_breakpoint Mobile inputs) (\<lambda>mobile.
       Inr (map (\<lambda>(i, _, _).
              (i, \<lparr>l_desktop = coords_of desktop i, l_tablet = coords_of tablet i,
                   l_mobile = coords_of mobile i\<rparr>)) inputs)))))"

definition derive_positions :: "(uuid \<times> layout) list \<Rightarrow> (uuid \<times> nat) list" where
  "derive_positions layouts =
     (let ordered = sort_key (\<lambda>(i, l). (cy (l_desktop l), cx (l_desktop l), i)) layouts
      in zip (map fst ordered) [0..<length ordered])"

definition allowed_sizes_for :: "string \<Rightarrow> string \<Rightarrow> (int \<times> int) list" where
  "allowed_sizes_for vtype breakpoint =
     (let safe = (if vtype \<in> set VISUALIZATION_TYPES then vtype else ''table'')
      in case List.find (\<lambda>bp. breakpoint_name bp = breakpoint) all_breakpoints of
           None \<Rightarrow> []
         | Some bp \<Rightarrow> (case size_policy safe bp of Inl _ \<Rightarrow> [] | Inr sizes \<Rightarrow> sort (remdups sizes)))"


section \<open>The coordinates a card may occupy\<close>

definition coords_fit :: "breakpoint \<Rightarrow> string \<Rightarrow> coords \<Rightarrow> bool" where
  "coords_fit bp vtype c \<longleftrightarrow>
     0 \<le> cx c \<and> 0 \<le> cy c \<and> cy c \<le> MAX_LAYOUT_Y \<and> cx c + cw c \<le> BREAKPOINT_COLUMNS bp
     \<and> (case size_policy vtype bp of Inl _ \<Rightarrow> False | Inr sizes \<Rightarrow> (cw c, ch c) \<in> set sizes)"

definition layout_fits :: "string \<Rightarrow> layout \<Rightarrow> bool" where
  "layout_fits vtype l \<longleftrightarrow> list_all (\<lambda>bp. coords_fit bp vtype (layout_at l bp)) all_breakpoints"

lemma layout_fits_at: "layout_fits vtype l \<longleftrightarrow> (\<forall>bp. coords_fit bp vtype (layout_at l bp))"
proof -
  have "(\<forall>bp. P bp) \<longleftrightarrow> P Desktop \<and> P Tablet \<and> P Mobile" for P :: "breakpoint \<Rightarrow> bool"
    by (metis breakpoint.exhaust)
  then show ?thesis by (simp add: layout_fits_def all_breakpoints_def)
qed

lemma all_breakpoints_UNIV: "bp \<in> set all_breakpoints"
  by (cases bp) (simp_all add: all_breakpoints_def)

lemmas visualization_cases = VISUALIZATION_TYPES_def SIZE_POLICY_def DEFAULT_SIZES_def

lemma size_policy_known: "vtype \<in> set VISUALIZATION_TYPES \<Longrightarrow> \<exists>sizes. size_policy vtype bp = Inr sizes"
  unfolding visualization_cases size_policy_def by auto

lemma size_policy_bounds:
  "size_policy vtype bp = Inr sizes \<Longrightarrow> (w, h) \<in> set sizes \<Longrightarrow>
     0 < w \<and> 0 < h \<and> h \<le> 4 \<and> w \<le> BREAKPOINT_COLUMNS bp \<and> (bp = Mobile \<longrightarrow> w = 1)"
  unfolding size_policy_def SIZE_POLICY_def
  by (cases bp) (auto split: if_splits option.splits)

lemma default_size_known:
  "vtype \<in> set VISUALIZATION_TYPES \<Longrightarrow>
     \<exists>w h sizes. default_size vtype bp = Inr (w, h) \<and> size_policy vtype bp = Inr sizes
       \<and> (w, h) \<in> set sizes \<and> h \<le> 3"
  unfolding visualization_cases size_policy_def default_size_def
  by (cases bp) auto

lemma coords_fit_bounds:
  "coords_fit bp vtype c \<Longrightarrow> 0 < cw c \<and> 0 < ch c \<and> ch c \<le> 4 \<and> (bp = Mobile \<longrightarrow> cw c = 1 \<and> cx c = 0)"
  using size_policy_bounds [of vtype bp _ "cw c" "ch c"]
  by (cases bp) (auto simp: coords_fit_def split: sum.splits)

section \<open>The placement loops against an allocator\<close>

text \<open>
  \<open>fill_missing\<close> calls an allocator for every card that kept no place. Two promises are all
  it needs: the returned cell is free, and it is one the card may occupy.
\<close>

locale cell_allocator =
  fixes place :: "'k \<Rightarrow> coords list \<Rightarrow> py_exn + coords"
    and fits :: "'k \<Rightarrow> coords \<Rightarrow> bool"
  assumes place_free: "place k occupied = Inr c \<Longrightarrow> \<not> list_ex (overlaps c) occupied"
    and place_fits: "place k occupied = Inr c \<Longrightarrow> fits k c"
begin

lemma fill_sound:
  "fill_missing place rest placed = Inr out \<Longrightarrow> distinct (map fst placed) \<Longrightarrow>
     no_overlaps (map snd placed) \<Longrightarrow>
     distinct (map fst out) \<and> no_overlaps (map snd out)
     \<and> fst ` set out = fst ` set placed \<union> fst ` set rest
     \<and> (\<exists>more. out = placed @ more \<and> (\<forall>(i, c) \<in> set more. \<exists>k. (i, k) \<in> set rest \<and> fits k c))"
proof (induction rest arbitrary: placed)
  case Nil
  then show ?case by simp
next
  case (Cons ik rest)
  obtain i k where ik: "ik = (i, k)" by (cases ik)
  show ?case
  proof (cases "i \<in> fst ` set placed")
    case True
    with Cons.prems have "fill_missing place rest placed = Inr out" by (simp add: ik)
    from Cons.IH [OF this Cons.prems(2,3)] obtain more where
      IH: "distinct (map fst out)" "no_overlaps (map snd out)"
        "fst ` set out = fst ` set placed \<union> fst ` set rest" "out = placed @ more"
        "\<forall>(i, c) \<in> set more. \<exists>k. (i, k) \<in> set rest \<and> fits k c" by blast
    have "\<forall>(j, c) \<in> set more. \<exists>k'. (j, k') \<in> set (ik # rest) \<and> fits k' c" using IH(5) by auto
    moreover have "fst ` set out = fst ` set placed \<union> fst ` set (ik # rest)" using IH(3) True ik by auto
    ultimately show ?thesis using IH(1,2,4) by blast
  next
    case False
    with Cons.prems(1) obtain c where c: "place k (map snd placed) = Inr c"
      and out: "fill_missing place rest (placed @ [(i, c)]) = Inr out"
      by (auto simp: ik result_bind_Inr_iff)
    have "distinct (map fst (placed @ [(i, c)]))" using Cons.prems(2) False by auto
    moreover have "no_overlaps (map snd (placed @ [(i, c)]))"
      using Cons.prems(3) place_free [OF c]
      by (auto simp: no_overlaps_append list_ex_iff overlaps_sym)
    ultimately obtain more where
      IH: "distinct (map fst out)" "no_overlaps (map snd out)"
        "fst ` set out = fst ` set (placed @ [(i, c)]) \<union> fst ` set rest"
        "out = (placed @ [(i, c)]) @ more"
        "\<forall>(i, c) \<in> set more. \<exists>k. (i, k) \<in> set rest \<and> fits k c"
      using Cons.IH [OF out] by blast
    have "\<forall>(j, d) \<in> set ((i, c) # more). \<exists>k'. (j, k') \<in> set (ik # rest) \<and> fits k' d"
      using IH(5) place_fits [OF c] ik by auto
    moreover have "fst ` set out = fst ` set placed \<union> fst ` set (ik # rest)" using IH(3) ik by auto
    moreover have "out = placed @ (i, c) # more" using IH(4) by simp
    ultimately show ?thesis using IH(1,2) by blast
  qed
qed

text \<open>Cards already placed are left where they are.\<close>

lemma fill_keeps: "fst ` set rest \<subseteq> fst ` set placed \<Longrightarrow> fill_missing place rest placed = Inr placed"
proof (induction rest)
  case Nil
  then show ?case by simp
next
  case (Cons ik rest)
  then show ?case by (cases ik) auto
qed

end

text \<open>
  An allocator with a capacity also promises to succeed while few, low cards are placed;
  then the loop never fails on a dashboard within the capacity.
\<close>

locale bounded_allocator = cell_allocator +
  fixes known :: "'k \<Rightarrow> bool" and low :: "coords \<Rightarrow> bool" and capacity :: nat
  assumes place_total: "known k \<Longrightarrow> list_all low occupied \<Longrightarrow> length occupied \<le> capacity \<Longrightarrow>
      \<exists>c. place k occupied = Inr c"
    and fits_low: "fits k c \<Longrightarrow> low c"
begin

lemma fill_total:
  "list_all (known \<circ> snd) rest \<Longrightarrow> list_all (low \<circ> snd) placed \<Longrightarrow>
     length placed + length (filter (\<lambda>ik. fst ik \<notin> fst ` set placed) rest) \<le> Suc capacity \<Longrightarrow>
     \<exists>out. fill_missing place rest placed = Inr out"
proof (induction rest arbitrary: placed)
  case Nil
  then show ?case by simp
next
  case (Cons ik rest)
  obtain i k where ik: "ik = (i, k)" by (cases ik)
  show ?case
  proof (cases "i \<in> fst ` set placed")
    case True
    with Cons show ?thesis by (simp add: ik)
  next
    case False
    let ?todo = "\<lambda>ps. filter (\<lambda>ik. fst ik \<notin> fst ` set ps) rest"
    from Cons.prems False obtain c where c: "place k (map snd placed) = Inr c"
      using place_total [of k "map snd placed"] by (auto simp: ik list_all_iff)
    have "list_all (low \<circ> snd) (placed @ [(i, c)])"
      using Cons.prems(2) fits_low [OF place_fits [OF c]] by (simp add: comp_def)
    moreover have "length (?todo (placed @ [(i, c)])) \<le> length (?todo placed)"
      by (induction rest) auto
    ultimately show ?thesis
      using Cons.IH [of "placed @ [(i, c)]"] Cons.prems(1,3) False by (simp add: ik c comp_def)
  qed
qed

end

lemma place_default_free: "place_default bp vtype occupied = Inr c \<Longrightarrow> \<not> list_ex (overlaps c) occupied"
  by (auto simp: place_default_def first_available_coordinates_def result_bind_Inr_iff
      dest: first_from_row_Some split: option.splits)

lemma place_default_fits: "place_default bp vtype occupied = Inr c \<Longrightarrow> coords_fit bp vtype c"
proof -
  assume place: "place_default bp vtype occupied = Inr c"
  then obtain w h where wh: "default_size vtype bp = Inr (w, h)"
    and c: "first_from_row (BREAKPOINT_COLUMNS bp) w h occupied 0 = Some c"
    by (auto simp: place_default_def first_available_coordinates_def result_bind_Inr_iff
        split: option.splits)
  have "vtype \<in> set VISUALIZATION_TYPES"
    using wh unfolding default_size_def visualization_cases by (auto split: option.splits if_splits)
  from default_size_known [OF this, of bp] wh first_from_row_Some [OF c]
  show ?thesis by (auto simp: coords_fit_def)
qed

lemma place_default_total:
  assumes "vtype \<in> set VISUALIZATION_TYPES" "list_all (\<lambda>c. 0 \<le> ch c \<and> ch c \<le> 4) occupied"
    and "length occupied \<le> 1666"
  shows "\<exists>c. place_default bp vtype occupied = Inr c"
proof -
  obtain w h sizes where wh: "default_size vtype bp = Inr (w, h)" "h \<le> 3"
    and s: "size_policy vtype bp = Inr sizes" "(w, h) \<in> set sizes"
    using default_size_known [OF assms(1)] by blast
  have "\<exists>c. first_available_coordinates (BREAKPOINT_COLUMNS bp) w h occupied = Inr c"
    by (rule first_available_total)
      (use size_policy_bounds [OF s] wh assms in \<open>auto simp: list_all_iff MAX_LAYOUT_Y_def\<close>)
  with wh show ?thesis by (simp add: place_default_def)
qed

interpretation editor_grid: bounded_allocator
  "place_default bp" "coords_fit bp" "\<lambda>vtype. vtype \<in> set VISUALIZATION_TYPES"
  "\<lambda>c. 0 \<le> ch c \<and> ch c \<le> 4" 1666 for bp
  by unfold_locales
    (auto intro: place_default_free [THEN notE] place_default_fits place_default_total
      dest: coords_fit_bounds)

end
