(* ===== verification/Layout_Editing.thy ===== *)
theory Layout_Editing
  imports Dashboard_Editor Product_Policies
begin

text \<open>
  What the dashboard editor guarantees about layouts: parsing accepts exactly the layouts that
  fit, normalization places every card and is stable, positions are a permutation; and the
  editor endpoint \<open>update_dashboard_editor_layout\<close> with its error responses.
\<close>

section \<open>Parsing\<close>

lemma parse_coordinates_Some_iff:
  "parse_coordinates v columns mobile = Some c \<longleftrightarrow>
     is_dict v \<and> jkeys v = {''x'', ''y'', ''w'', ''h''}
     \<and> jget v ''x'' = JInt (cx c) \<and> jget v ''y'' = JInt (cy c)
     \<and> jget v ''w'' = JInt (cw c) \<and> jget v ''h'' = JInt (ch c)
     \<and> 0 \<le> cx c \<and> 0 \<le> cy c \<and> cy c \<le> MAX_LAYOUT_Y \<and> 0 < cw c \<and> 0 < ch c
     \<and> cx c + cw c \<le> columns \<and> (mobile \<longrightarrow> cx c = 0 \<and> cw c = 1)"
proof (cases "is_dict v \<and> jkeys v = {''x'', ''y'', ''w'', ''h''}")
  case True
  then have keys: "is_dict v" "jkeys v = {''x'', ''y'', ''w'', ''h''}" by simp_all
  show ?thesis
    by (cases c) (auto simp: parse_coordinates_def bind_eq_Some_conv keys, (metis not_le)+)
next
  case False
  then show ?thesis by (cases "is_dict v") (simp_all add: parse_coordinates_def)
qed

lemma parse_coordinates_json:
  "parse_coordinates (coords_json c) columns mobile =
     (if 0 \<le> cx c \<and> 0 \<le> cy c \<and> cy c \<le> MAX_LAYOUT_Y \<and> 0 < cw c \<and> 0 < ch c
         \<and> cx c + cw c \<le> columns \<and> (mobile \<longrightarrow> cx c = 0 \<and> cw c = 1) then Some c else None)"
  by (auto simp: parse_coordinates_def coords_json_def)

lemma parse_breakpoint_Some_iff:
  "parse_breakpoint v vtype bp = Inr (Some c) \<longleftrightarrow>
     parse_coordinates (jget v (breakpoint_name bp)) (BREAKPOINT_COLUMNS bp) (bp = Mobile) = Some c
     \<and> coords_fit bp vtype c"
proof (cases "parse_coordinates (jget v (breakpoint_name bp)) (BREAKPOINT_COLUMNS bp) (bp = Mobile)")
  case None
  then show ?thesis by (simp add: parse_breakpoint_def)
next
  case (Some d)
  have "0 \<le> cx d \<and> 0 \<le> cy d \<and> cy d \<le> MAX_LAYOUT_Y \<and> cx d + cw d \<le> BREAKPOINT_COLUMNS bp"
    using Some unfolding parse_coordinates_Some_iff by blast
  with Some show ?thesis
    by (auto simp: parse_breakpoint_def coords_fit_def split: sum.splits)
qed

lemma parse_breakpoints_Some_iff:
  "parse_breakpoints v vtype = Inr (Some l) \<longleftrightarrow>
     (\<forall>bp. parse_breakpoint v vtype bp = Inr (Some (layout_at l bp)))"
proof -
  have all: "(\<forall>bp. P bp) \<longleftrightarrow> P Desktop \<and> P Tablet \<and> P Mobile" for P :: "breakpoint \<Rightarrow> bool"
    by (metis breakpoint.exhaust)
  show ?thesis unfolding all
    by (cases l) (auto simp: parse_breakpoints_def result_bind_Inr_iff split: option.splits)
qed

lemma parse_breakpoints_fits: "parse_breakpoints v vtype = Inr (Some l) \<Longrightarrow> layout_fits vtype l"
  by (auto simp: parse_breakpoints_Some_iff parse_breakpoint_Some_iff layout_fits_at)

lemma parse_layout_for_card_fits: "parse_layout_for_card v vtype = Inr (Some l) \<Longrightarrow> layout_fits vtype l"
  by (auto simp: parse_layout_for_card_def parse_breakpoints_fits split: if_splits)

lemma parse_layout_item_fits: "parse_layout_item v vtype = Inr (Some l) \<Longrightarrow> layout_fits vtype l"
  by (auto simp: parse_layout_item_def parse_breakpoints_fits split: if_splits)

lemma parse_breakpoints_total:
  "vtype \<in> set VISUALIZATION_TYPES \<Longrightarrow> \<exists>r. parse_breakpoints v vtype = Inr r"
proof -
  assume known: "vtype \<in> set VISUALIZATION_TYPES"
  have one: "\<exists>r. parse_breakpoint v vtype bp = Inr r" for bp
    using size_policy_known [OF known, of bp] by (auto simp: parse_breakpoint_def split: option.splits)
  from one [of Desktop] one [of Tablet] one [of Mobile] show ?thesis
    by (auto simp: parse_breakpoints_def split: option.splits)
qed

lemma parse_layout_for_card_total:
  "vtype \<in> set VISUALIZATION_TYPES \<Longrightarrow> \<exists>r. parse_layout_for_card v vtype = Inr r"
  using parse_breakpoints_total by (auto simp: parse_layout_for_card_def)

lemma parse_coordinates_of_fit:
  "coords_fit bp vtype c \<Longrightarrow>
     parse_coordinates (coords_json c) (BREAKPOINT_COLUMNS bp) (bp = Mobile) = Some c"
proof -
  assume fit: "coords_fit bp vtype c"
  then have "0 \<le> cx c \<and> 0 \<le> cy c \<and> cy c \<le> MAX_LAYOUT_Y \<and> cx c + cw c \<le> BREAKPOINT_COLUMNS bp"
    by (simp add: coords_fit_def)
  with coords_fit_bounds [OF fit] show ?thesis by (simp add: parse_coordinates_json)
qed

lemma jget_persisted: "jget (persisted_layout l) (breakpoint_name bp) = coords_json (layout_at l bp)"
  by (cases bp) (simp_all add: persisted_layout_def)

lemma persisted_layout_parses:
  "layout_fits vtype l \<Longrightarrow> parse_layout_for_card (persisted_layout l) vtype = Inr (Some l)"
proof -
  assume fits: "layout_fits vtype l"
  have "parse_breakpoints (persisted_layout l) vtype = Inr (Some l)"
    unfolding parse_breakpoints_Some_iff parse_breakpoint_Some_iff jget_persisted
    using fits unfolding layout_fits_at by (blast intro: parse_coordinates_of_fit)
  moreover have "is_dict (persisted_layout l)"
    "jkeys (persisted_layout l) = {''version'', ''desktop'', ''tablet'', ''mobile''}"
    "jget (persisted_layout l) ''version'' = JInt LAYOUT_SCHEMA_VERSION"
    by (simp_all add: persisted_layout_def)
  ultimately show ?thesis by (simp add: parse_layout_for_card_def)
qed

text \<open>
  C5: The layout document the editor stores parses back to the layout it was made from exactly
  when that layout respects the grid and the size policy of the card's visualization type.
\<close>
theorem persisted_layout_roundtrip:
  "parse_layout_for_card (persisted_layout l) vtype = Inr (Some l) \<longleftrightarrow> layout_fits vtype l"
  using persisted_layout_parses parse_layout_for_card_fits by blast

section \<open>Visualizations\<close>

lemma in_str_set_Inl: "in_str_set v names = Inl e \<longleftrightarrow> \<not> hashable v \<and> e = TypeError"
  by (auto simp: in_str_set_def)

lemma in_str_set_True: "in_str_set v names = Inr True \<longleftrightarrow> (\<exists>s \<in> set names. v = JStr s)"
  by (cases v) (auto simp: in_str_set_def list_ex_iff)

lemma parse_visualization_known:
  "parse_visualization v = Inr (Some vz) \<Longrightarrow> vz_type vz \<in> set VISUALIZATION_TYPES"
proof -
  assume "parse_visualization v = Inr (Some vz)"
  then have "in_str_set (jget v ''type'') VISUALIZATION_TYPES = Inr True"
    and "vz_type vz = str_of_json (jget v ''type'')"
    unfolding parse_visualization_def
    by (simp_all add: result_bind_Inr_iff split: if_split_asm) fastforce+
  then show ?thesis by (auto simp: in_str_set_True)
qed

lemma default_visualization_known: "vz_type (default_visualization t) \<in> set VISUALIZATION_TYPES"
  by (simp add: default_visualization_def Let_def VISUALIZATION_TYPES_def)

lemma visualization_type_known:
  "visualization_type_for_card dc = Inr vtype \<Longrightarrow> vtype \<in> set VISUALIZATION_TYPES"
  unfolding visualization_type_for_card_def safe_visualization_for_card_def
  by (simp add: result_bind_Inr_iff default_visualization_known split: if_split_asm)
    (fastforce simp: default_visualization_known split: option.splits dest: parse_visualization_known)+


section \<open>Normalization\<close>

lemma no_overlaps_map_distinct:
  "distinct ids \<Longrightarrow> no_overlaps (map f ids) \<longleftrightarrow>
     (\<forall>i \<in> set ids. \<forall>j \<in> set ids. i \<noteq> j \<longrightarrow> \<not> overlaps (f i) (f j))"
proof (induction ids)
  case Nil
  then show ?case by simp
next
  case (Cons i ids)
  then show ?case using overlaps_sym by (auto simp: list_ex_iff)
qed

lemma coords_of_map: "i \<in> set ids \<Longrightarrow> coords_of (map (\<lambda>i. (i, f i)) ids) i = f i"
  by (induction ids) (auto simp: coords_of_def)

lemma placed_as_map:
  "distinct (map fst placed) \<Longrightarrow> placed = map (\<lambda>i. (i, coords_of placed i)) (map fst placed)"
proof -
  assume "distinct (map fst placed)"
  then have "(i, c) \<in> set placed \<Longrightarrow> coords_of placed i = c" for i c by (simp add: coords_of_def)
  then show ?thesis by (auto intro!: map_idI [symmetric])
qed

lemma coords_of_member:
  "distinct (map fst placed) \<Longrightarrow> i \<in> fst ` set placed \<Longrightarrow> (i, coords_of placed i) \<in> set placed"
  by (auto simp: coords_of_def)

lemma keep_existing_sound:
  "distinct (map fst placed @ map fst xs) \<Longrightarrow> no_overlaps (map snd placed) \<Longrightarrow>
     \<exists>more. keep_existing xs placed = placed @ more
       \<and> (\<forall>(i, c) \<in> set more. (i, Some c) \<in> set xs)
       \<and> distinct (map fst (keep_existing xs placed)) \<and> no_overlaps (map snd (keep_existing xs placed))"
proof (induction xs arbitrary: placed)
  case Nil
  then show ?case by simp
next
  case (Cons ie xs)
  obtain i e where ie: "ie = (i, e)" by (cases ie)
  show ?case
  proof (cases "\<exists>c. e = Some c \<and> \<not> list_ex (overlaps c) (map snd placed)")
    case True
    then obtain c where c: "e = Some c" "\<not> list_ex (overlaps c) (map snd placed)" by blast
    have "distinct (map fst (placed @ [(i, c)]) @ map fst xs)" using Cons.prems ie by auto
    moreover have "no_overlaps (map snd (placed @ [(i, c)]))"
      using Cons.prems(2) c(2) by (auto simp: no_overlaps_append list_ex_iff overlaps_sym)
    ultimately obtain more where "keep_existing xs (placed @ [(i, c)]) = (placed @ [(i, c)]) @ more"
      "\<forall>(i, c) \<in> set more. (i, Some c) \<in> set xs"
      "distinct (map fst (keep_existing xs (placed @ [(i, c)])))"
      "no_overlaps (map snd (keep_existing xs (placed @ [(i, c)])))"
      using Cons.IH by blast
    then show ?thesis using ie c by (intro exI [of _ "(i, c) # more"]) auto
  next
    case False
    then have skip: "keep_existing (ie # xs) placed = keep_existing xs placed"
      by (auto simp: ie split: option.splits)
    have "distinct (map fst placed @ map fst xs)" using Cons.prems by auto
    with Cons.IH [OF this Cons.prems(2)] show ?thesis unfolding skip by fastforce
  qed
qed

lemma keep_existing_all:
  "no_overlaps (map snd placed @ map snd ys) \<Longrightarrow>
     keep_existing (map (\<lambda>(i, c). (i, Some c)) ys) placed = placed @ ys"
proof (induction ys arbitrary: placed)
  case Nil
  then show ?case by simp
next
  case (Cons ic ys)
  obtain i c where ic: "ic = (i, c)" by (cases ic)
  have "\<not> list_ex (overlaps c) (map snd placed)"
    using Cons.prems overlaps_sym by (auto simp: ic no_overlaps_append list_ex_iff)
  with Cons.IH [of "placed @ [(i, c)]"] Cons.prems show ?case by (simp add: ic)
qed

text \<open>What every card brings to the loops: a known type, and a layout that fits when it parsed.\<close>

definition good_inputs :: "(uuid \<times> string \<times> layout option) list \<Rightarrow> bool" where
  "good_inputs inputs \<longleftrightarrow> distinct (map fst inputs) \<and>
     (\<forall>(i, vtype, existing) \<in> set inputs. vtype \<in> set VISUALIZATION_TYPES
        \<and> (\<forall>l. existing = Some l \<longrightarrow> layout_fits vtype l))"

lemma fst_stored_places: "map fst (stored_places bp inputs) = map fst inputs"
  by (auto simp: stored_places_def)

lemma kept_places:
  assumes good: "good_inputs inputs" and kept: "keep_existing (stored_places bp inputs) [] = kept"
  shows "distinct (map fst kept) \<and> no_overlaps (map snd kept) \<and> fst ` set kept \<subseteq> fst ` set inputs
     \<and> (\<forall>(i, c) \<in> set kept. \<exists>vtype e. (i, vtype, e) \<in> set inputs \<and> coords_fit bp vtype c)"
proof -
  have dist: "distinct (map fst ([] :: (uuid \<times> coords) list) @ map fst (stored_places bp inputs))"
    using good by (simp add: good_inputs_def fst_stored_places)
  have "no_overlaps (map snd ([] :: (uuid \<times> coords) list))" by simp
  from keep_existing_sound [OF dist this]
  have k: "distinct (map fst kept)" "no_overlaps (map snd kept)"
    "\<forall>(i, c) \<in> set kept. (i, Some c) \<in> set (stored_places bp inputs)"
    unfolding kept by auto
  have fit: "\<exists>vtype e. (i, vtype, e) \<in> set inputs \<and> coords_fit bp vtype c" if "(i, c) \<in> set kept" for i c
  proof -
    from that k(3) have "(i, Some c) \<in> set (stored_places bp inputs)" by auto
    then obtain vtype l where "(i, vtype, Some l) \<in> set inputs" "c = layout_at l bp"
      by (fastforce simp: stored_places_def dest: sym [of "Some c"])
    with good show ?thesis by (force simp: good_inputs_def layout_fits_at)
  qed
  then have "fst ` set kept \<subseteq> fst ` set inputs" by force
  with k(1,2) fit show ?thesis by blast
qed

lemma normalize_breakpoint_sound:
  assumes good: "good_inputs inputs" and out: "normalize_breakpoint bp inputs = Inr out"
  shows "distinct (map fst out) \<and> no_overlaps (map snd out) \<and> fst ` set out = fst ` set inputs
     \<and> (\<forall>(i, vtype, _) \<in> set inputs. coords_fit bp vtype (coords_of out i))"
proof -
  let ?rest = "map (\<lambda>(i, vtype, _). (i, vtype)) inputs"
  have fsts: "map fst ?rest = map fst inputs" by auto
  define kept where "kept = keep_existing (stored_places bp inputs) []"
  from kept_places [OF good kept_def [symmetric]] have kept: "distinct (map fst kept)" "no_overlaps (map snd kept)"
    "fst ` set kept \<subseteq> fst ` set inputs"
    "\<forall>(i, c) \<in> set kept. \<exists>vtype e. (i, vtype, e) \<in> set inputs \<and> coords_fit bp vtype c" by blast+
  have "fill_missing (place_default bp) ?rest kept = Inr out"
    using out by (simp add: normalize_breakpoint_def kept_def)
  from editor_grid.fill_sound [OF this kept(1,2)] obtain more where
    o: "distinct (map fst out)" "no_overlaps (map snd out)"
      "fst ` set out = fst ` set kept \<union> fst ` set ?rest" "out = kept @ more"
      "\<forall>(i, c) \<in> set more. \<exists>vtype. (i, vtype) \<in> set ?rest \<and> coords_fit bp vtype c" by blast
  have ids: "fst ` set out = fst ` set inputs" using o(3) kept(3) fsts by (metis set_map sup.absorb2)
  have type_of: "vtype = vtype'" if "(i, vtype, e) \<in> set inputs" "(i, vtype', e') \<in> set inputs"
    for i vtype vtype' e e'
    using good eq_key_imp_eq_value [of inputs i "(vtype, e)" "(vtype', e')"] that
    by (simp add: good_inputs_def)
  have "coords_fit bp vtype (coords_of out i)" if mem: "(i, vtype, e) \<in> set inputs" for i vtype e
  proof -
    have "i \<in> fst ` set out" unfolding ids using mem by force
    then have "(i, coords_of out i) \<in> set out" by (rule coords_of_member [OF o(1)])
    then consider "(i, coords_of out i) \<in> set kept" | "(i, coords_of out i) \<in> set more"
      using o(4) by auto
    then show ?thesis
    proof cases
      case 1
      with kept(4) obtain vtype' e' where "(i, vtype', e') \<in> set inputs"
        "coords_fit bp vtype' (coords_of out i)" by blast
      with type_of [OF mem] show ?thesis by blast
    next
      case 2
      with o(5) obtain vtype' e' where "(i, vtype', e') \<in> set inputs"
        "coords_fit bp vtype' (coords_of out i)" by force
      with type_of [OF mem] show ?thesis by blast
    qed
  qed
  with o(1,2) ids show ?thesis by blast
qed

lemma normalize_breakpoint_total:
  assumes good: "good_inputs inputs" and few: "length inputs \<le> 1667"
  shows "\<exists>out. normalize_breakpoint bp inputs = Inr out"
proof -
  let ?rest = "map (\<lambda>(i, vtype, _). (i, vtype)) inputs"
  have fsts: "map fst ?rest = map fst inputs" by auto
  define kept where "kept = keep_existing (stored_places bp inputs) []"
  from kept_places [OF good kept_def [symmetric]] have kept: "distinct (map fst kept)"
    "fst ` set kept \<subseteq> fst ` set inputs"
    "\<forall>(i, c) \<in> set kept. \<exists>vtype e. (i, vtype, e) \<in> set inputs \<and> coords_fit bp vtype c" by blast+
  let ?todo = "filter (\<lambda>ik. fst ik \<notin> fst ` set kept) ?rest"
  have "distinct (map fst ?rest)" using good unfolding fsts by (simp add: good_inputs_def)
  then have "distinct (map fst ?todo)" by (rule distinct_map_filter)
  moreover have "set (map fst kept) \<inter> set (map fst ?todo) = {}" by force
  ultimately have dist: "distinct (map fst kept @ map fst ?todo)" using kept(1) by simp
  have "set (map fst ?todo) \<subseteq> set (map fst inputs)" unfolding fsts [symmetric]
    unfolding set_map [of fst] by (intro image_mono filter_is_subset)
  then have "set (map fst kept @ map fst ?todo) \<subseteq> set (map fst inputs)" using kept(2) by simp
  then have "card (set (map fst kept @ map fst ?todo)) \<le> card (set (map fst inputs))"
    by (intro card_mono) simp_all
  also have "\<dots> \<le> length (map fst inputs)" by (rule card_length)
  finally have "length (map fst kept @ map fst ?todo) \<le> length (map fst inputs)"
    unfolding distinct_card [OF dist] .
  then have "length kept + length ?todo \<le> length inputs" by simp
  moreover have "list_all ((\<lambda>vtype. vtype \<in> set VISUALIZATION_TYPES) \<circ> snd) ?rest"
    using good by (auto simp: good_inputs_def list_all_iff)
  moreover have "list_all ((\<lambda>c. 0 \<le> ch c \<and> ch c \<le> 4) \<circ> snd) kept"
    using kept(3) by (force simp: list_all_iff dest: coords_fit_bounds)
  ultimately show ?thesis
    using editor_grid.fill_total [of ?rest kept bp] few
    by (simp add: normalize_breakpoint_def kept_def)
qed


text \<open>The inputs of the loops, from the cards.\<close>

lemma ordered_cards_perm [simp]:
  "set (ordered_cards cards) = set cards" "length (ordered_cards cards) = length cards"
  by (simp_all add: ordered_cards_def)

lemma distinct_ordered_cards:
  "distinct (map dc_id cards) \<Longrightarrow> distinct (map dc_id (ordered_cards cards))"
proof -
  assume "distinct (map dc_id cards)"
  then have "distinct cards" "inj_on dc_id (set cards)" by (auto simp: distinct_map)
  then show ?thesis by (simp add: distinct_map ordered_cards_def)
qed

definition card_input :: "dashboard_card \<Rightarrow> uuid \<times> string \<times> layout option \<Rightarrow> bool" where
  "card_input dc x \<longleftrightarrow> fst x = dc_id dc
     \<and> visualization_type_for_card dc = Inr (fst (snd x))
     \<and> parse_layout_for_card (dc_layout dc) (fst (snd x)) = Inr (snd (snd x))"

lemma card_inputs_Inr_iff:
  "card_inputs cards = Inr inputs \<longleftrightarrow> list_all2 card_input (ordered_cards cards) inputs"
proof -
  have "result_bind (visualization_type_for_card dc) (\<lambda>vtype.
       result_bind (parse_layout_for_card (dc_layout dc) vtype) (\<lambda>existing.
         Inr (dc_id dc, vtype, existing))) = Inr x \<longleftrightarrow> card_input dc x" for dc x
    by (cases x) (auto simp: card_input_def result_bind_Inr_iff)
  then show ?thesis unfolding card_inputs_def traverse_Inr_iff by simp
qed

lemma card_inputs_ids:
  "list_all2 card_input cs inputs \<Longrightarrow> map fst inputs = map dc_id cs"
  by (induction rule: list_all2_induct) (auto simp: card_input_def)

lemma card_inputs_member:
  assumes "list_all2 card_input cs inputs" "x \<in> set inputs"
  shows "\<exists>dc \<in> set cs. card_input dc x"
  using assms by (metis in_set_conv_nth list_all2_conv_all_nth)

lemma card_inputs_good:
  assumes "card_inputs cards = Inr inputs" "distinct (map dc_id cards)"
  shows "good_inputs inputs"
proof -
  have all: "list_all2 card_input (ordered_cards cards) inputs"
    using assms(1) by (simp add: card_inputs_Inr_iff)
  have "distinct (map fst inputs)"
    unfolding card_inputs_ids [OF all] by (rule distinct_ordered_cards [OF assms(2)])
  moreover have "vtype \<in> set VISUALIZATION_TYPES \<and> (\<forall>l. e = Some l \<longrightarrow> layout_fits vtype l)"
    if "(i, vtype, e) \<in> set inputs" for i vtype e
    using card_inputs_member [OF all that] visualization_type_known parse_layout_for_card_fits
    by (fastforce simp: card_input_def)
  ultimately show ?thesis by (auto simp: good_inputs_def)
qed

lemma card_inputs_total:
  assumes "\<forall>dc \<in> set cards. is_ok (visualization_type_for_card dc)"
  shows "\<exists>inputs. card_inputs cards = Inr inputs"
proof -
  have "\<exists>x. card_input dc x" if "dc \<in> set cards" for dc
  proof -
    from assms that obtain vtype where v: "visualization_type_for_card dc = Inr vtype"
      by (auto simp: is_ok_iff)
    from parse_layout_for_card_total [OF visualization_type_known [OF v], of "dc_layout dc"]
    show ?thesis using v by (auto simp: card_input_def)
  qed
  then obtain f where "\<forall>dc \<in> set cards. card_input dc (f dc)" by metis
  then have "list_all2 card_input (ordered_cards cards) (map f (ordered_cards cards))"
    by (simp add: list_all2_map2 list.rel_refl_strong list_all2_same)
  then show ?thesis by (auto simp: card_inputs_Inr_iff)
qed


definition assemble_layouts ::
  "(uuid \<times> string \<times> layout option) list \<Rightarrow> (uuid \<times> coords) list \<Rightarrow> (uuid \<times> coords) list
     \<Rightarrow> (uuid \<times> coords) list \<Rightarrow> (uuid \<times> layout) list" where
  "assemble_layouts inputs desktop tablet mobile =
     map (\<lambda>(i, _, _).
       (i, \<lparr>l_desktop = coords_of desktop i, l_tablet = coords_of tablet i,
            l_mobile = coords_of mobile i\<rparr>)) inputs"

lemma normalize_card_layouts_Inr_iff:
  "normalize_card_layouts cards = Inr ls \<longleftrightarrow>
     (\<exists>inputs placed. card_inputs cards = Inr inputs
        \<and> (\<forall>bp. normalize_breakpoint bp inputs = Inr (placed bp))
        \<and> ls = assemble_layouts inputs (placed Desktop) (placed Tablet) (placed Mobile))"
proof
  assume "normalize_card_layouts cards = Inr ls"
  then obtain inputs d t m where "card_inputs cards = Inr inputs"
    "normalize_breakpoint Desktop inputs = Inr d" "normalize_breakpoint Tablet inputs = Inr t"
    "normalize_breakpoint Mobile inputs = Inr m" "ls = assemble_layouts inputs d t m"
    by (auto simp: normalize_card_layouts_def assemble_layouts_def result_bind_Inr_iff)
  moreover from this have "normalize_breakpoint bp inputs =
      Inr (case bp of Desktop \<Rightarrow> d | Tablet \<Rightarrow> t | Mobile \<Rightarrow> m)" for bp by (cases bp) simp_all
  ultimately show "\<exists>inputs placed. card_inputs cards = Inr inputs
        \<and> (\<forall>bp. normalize_breakpoint bp inputs = Inr (placed bp))
        \<and> ls = assemble_layouts inputs (placed Desktop) (placed Tablet) (placed Mobile)"
    by (intro exI [of _ inputs] exI [of _ "\<lambda>bp. case bp of Desktop \<Rightarrow> d | Tablet \<Rightarrow> t | Mobile \<Rightarrow> m"]) simp
qed (auto simp: normalize_card_layouts_def assemble_layouts_def)

lemma assembled_at:
  "map (\<lambda>(i, l). (i, layout_at l bp)) (assemble_layouts inputs (p Desktop) (p Tablet) (p Mobile)) =
     map (\<lambda>i. (i, coords_of (p bp) i)) (map fst inputs)"
  by (cases bp) (auto simp: assemble_layouts_def)

lemma fst_assembled: "map fst (assemble_layouts inputs d t m) = map fst inputs"
  by (auto simp: assemble_layouts_def)

lemma layouts_do_not_overlap_at:
  "layouts_do_not_overlap ls \<longleftrightarrow> (\<forall>bp. no_overlaps (map snd (map (\<lambda>(i, l). (i, layout_at l bp)) ls)))"
proof -
  have "map snd (map (\<lambda>(i, l). (i, layout_at l bp)) ls) = map (\<lambda>(_, l). layout_at l bp) ls" for bp
    by auto
  then show ?thesis unfolding layouts_do_not_overlap_def list_all_iff
    by (metis all_breakpoints_UNIV)
qed

lemma no_overlaps_of_placed:
  assumes "distinct (map fst out)" "no_overlaps (map snd out)" "fst ` set out = set ids" "distinct ids"
  shows "no_overlaps (map (coords_of out) ids)"
proof -
  have "map snd out = map (coords_of out) (map fst out)"
    by (subst placed_as_map [OF assms(1)]) simp
  with assms(2) have "no_overlaps (map (coords_of out) (map fst out))" by simp
  then show ?thesis
    unfolding no_overlaps_map_distinct [OF assms(1)] no_overlaps_map_distinct [OF assms(4)]
    using assms(3) by simp
qed

lemma normalize_sound:
  assumes ok: "normalize_card_layouts cards = Inr ls" and dist: "distinct (map dc_id cards)"
  shows "map fst ls = map dc_id (ordered_cards cards)"
    and "layouts_do_not_overlap ls"
    and "dc \<in> set cards \<Longrightarrow> \<exists>vtype l. visualization_type_for_card dc = Inr vtype
           \<and> map_of ls (dc_id dc) = Some l \<and> layout_fits vtype l"
proof -
  from ok obtain inputs p where inputs: "card_inputs cards = Inr inputs"
    and p: "\<And>bp. normalize_breakpoint bp inputs = Inr (p bp)"
    and ls: "ls = assemble_layouts inputs (p Desktop) (p Tablet) (p Mobile)"
    unfolding normalize_card_layouts_Inr_iff by blast
  have good: "good_inputs inputs" by (rule card_inputs_good [OF inputs dist])
  note all = inputs [unfolded card_inputs_Inr_iff]
  note at = normalize_breakpoint_sound [OF good p]
  show "map fst ls = map dc_id (ordered_cards cards)"
    by (simp add: ls fst_assembled card_inputs_ids [OF all])
  have dist': "distinct (map fst inputs)" using good by (simp add: good_inputs_def)
  have "no_overlaps (map snd (map (\<lambda>(i, l). (i, layout_at l bp)) ls))" for bp
  proof -
    have "no_overlaps (map (coords_of (p bp)) (map fst inputs))"
      using at [of bp] dist' by (intro no_overlaps_of_placed) auto
    then show ?thesis unfolding ls assembled_at by (simp add: comp_def)
  qed
  then show "layouts_do_not_overlap ls" by (simp add: layouts_do_not_overlap_at)
  show "\<exists>vtype l. visualization_type_for_card dc = Inr vtype
           \<and> map_of ls (dc_id dc) = Some l \<and> layout_fits vtype l" if "dc \<in> set cards"
  proof -
    from that obtain x where x: "x \<in> set inputs" "card_input dc x"
      using all by (metis in_set_conv_nth list_all2_conv_all_nth ordered_cards_perm(1))
    obtain i vtype e where xe: "x = (i, vtype, e)" by (cases x) auto
    let ?l = "\<lparr>l_desktop = coords_of (p Desktop) i, l_tablet = coords_of (p Tablet) i,
               l_mobile = coords_of (p Mobile) i\<rparr>"
    have "(i, ?l) \<in> set ls" using x(1) by (force simp: ls assemble_layouts_def xe)
    then have "map_of ls i = Some ?l"
      using dist' by (simp add: ls fst_assembled)
    moreover have "coords_fit bp vtype (coords_of (p bp) i)" for bp
      using at [of bp] x(1) xe by auto
    then have "layout_fits vtype ?l" by (simp add: layout_fits_def all_breakpoints_def)
    ultimately show ?thesis using x(2) by (auto simp: card_input_def xe)
  qed
qed


text \<open>
  C6: Normalization of a dashboard's cards places every card, in display order, at a layout that
  fits the grid and the size policy of the card's type at every breakpoint, and no two cards
  overlap at any breakpoint.
\<close>
theorem normalize_card_layouts_sound:
  assumes "normalize_card_layouts cards = Inr ls" and "distinct (map dc_id cards)"
  shows "map fst ls = map dc_id (ordered_cards cards) \<and> layouts_do_not_overlap ls
     \<and> (\<forall>dc \<in> set cards. \<exists>vtype l. visualization_type_for_card dc = Inr vtype
           \<and> map_of ls (dc_id dc) = Some l \<and> layout_fits vtype l)"
  using normalize_sound [OF assms] by blast

lemma normalize_card_layouts_total_aux:
  assumes "distinct (map dc_id cards)" and "length cards \<le> 1667"
    and "\<forall>dc \<in> set cards. is_ok (visualization_type_for_card dc)"
  shows "is_ok (normalize_card_layouts cards)"
proof -
  obtain inputs where inputs: "card_inputs cards = Inr inputs"
    using card_inputs_total [OF assms(3)] by blast
  have "length inputs \<le> 1667"
    using assms(2) inputs [unfolded card_inputs_Inr_iff]
    by (auto dest: list_all2_lengthD)
  then have "\<forall>bp. \<exists>out. normalize_breakpoint bp inputs = Inr out"
    using normalize_breakpoint_total [OF card_inputs_good [OF inputs assms(1)]] by blast
  then obtain p where "\<forall>bp. normalize_breakpoint bp inputs = Inr (p bp)" by metis
  with inputs show ?thesis unfolding is_ok_iff normalize_card_layouts_Inr_iff by blast
qed

text \<open>
  C7: Normalization returns a layout for every dashboard of at most 1667 cards whose stored
  visualizations do not make the parser raise: the allocator's \<open>ValueError\<close> is unreachable there.
\<close>
theorem normalize_card_layouts_total:
  assumes "distinct (map dc_id cards)" and "length cards \<le> 1667"
    and "\<forall>dc \<in> set cards. is_ok (visualization_type_for_card dc)"
  shows "is_ok (normalize_card_layouts cards)"
  using assms by (rule normalize_card_layouts_total_aux)

lemma coords_of_ids:
  "distinct (map f xs) \<Longrightarrow> x \<in> set xs \<Longrightarrow> coords_of (map (\<lambda>x. (f x, g x)) xs) (f x) = g x"
proof -
  assume "distinct (map f xs)" "x \<in> set xs"
  then have "map_of (map (\<lambda>x. (f x, g x)) xs) (f x) = Some (g x)"
    by (intro map_of_is_SomeI) (auto simp: comp_def)
  then show ?thesis by (simp add: coords_of_def)
qed

lemma normalize_stable:
  assumes dist: "distinct (map dc_id cards)"
    and parses: "\<And>dc. dc \<in> set cards \<Longrightarrow> visualization_type_for_card dc = Inr (T dc)
           \<and> parse_layout_for_card (dc_layout dc) (T dc) = Inr (Some (L dc))"
    and free: "layouts_do_not_overlap (map (\<lambda>dc. (dc_id dc, L dc)) (ordered_cards cards))"
  shows "normalize_card_layouts cards = Inr (map (\<lambda>dc. (dc_id dc, L dc)) (ordered_cards cards))"
proof -
  let ?oc = "ordered_cards cards"
  let ?inputs = "map (\<lambda>dc. (dc_id dc, T dc, Some (L dc))) ?oc"
  have dist': "distinct (map dc_id ?oc)" by (rule distinct_ordered_cards [OF dist])
  have "list_all2 card_input ?oc ?inputs"
    using parses by (simp add: list_all2_map2 list_all2_same card_input_def)
  then have inputs: "card_inputs cards = Inr ?inputs" by (simp add: card_inputs_Inr_iff)
  let ?placed = "\<lambda>bp. map (\<lambda>dc. (dc_id dc, layout_at (L dc) bp)) ?oc"
  have placed: "normalize_breakpoint bp ?inputs = Inr (?placed bp)" for bp
  proof -
    have stored: "stored_places bp ?inputs = map (\<lambda>(i, c). (i, Some c)) (?placed bp)"
      by (simp add: stored_places_def)
    have "no_overlaps (map snd ([] :: (uuid \<times> coords) list) @ map snd (?placed bp))"
      using free unfolding layouts_do_not_overlap_at by (simp add: comp_def)
    from keep_existing_all [OF this]
    have "keep_existing (stored_places bp ?inputs) [] = ?placed bp" by (simp only: stored append_Nil)
    moreover have "fill_missing (place_default bp) (map (\<lambda>(i, vtype, _). (i, vtype)) ?inputs) (?placed bp)
        = Inr (?placed bp)"
      by (rule editor_grid.fill_keeps) force
    ultimately show ?thesis by (simp add: normalize_breakpoint_def)
  qed
  have "map (\<lambda>dc. (dc_id dc, L dc)) ?oc
      = assemble_layouts ?inputs (?placed Desktop) (?placed Tablet) (?placed Mobile)"
  proof -
    have "L dc = \<lparr>l_desktop = coords_of (?placed Desktop) (dc_id dc),
        l_tablet = coords_of (?placed Tablet) (dc_id dc),
        l_mobile = coords_of (?placed Mobile) (dc_id dc)\<rparr>" if "dc \<in> set cards" for dc
      using that by (cases "L dc") (simp add: coords_of_ids [OF dist'])
    then show ?thesis by (simp add: assemble_layouts_def)
  qed
  then show ?thesis unfolding normalize_card_layouts_Inr_iff
    using inputs placed by (intro exI [of _ ?inputs] exI [of _ ?placed]) simp
qed

lemma insort_key_map: "insort_key k (f x) (map f xs) = map f (insort_key (k \<circ> f) x xs)"
  by (induction xs) auto

lemma sort_key_map: "sort_key k (map f xs) = map f (sort_key (k \<circ> f) xs)"
  by (induction xs) (simp_all add: insort_key_map comp_def)

definition with_layouts :: "(uuid \<times> layout) list \<Rightarrow> dashboard_card \<Rightarrow> dashboard_card" where
  "with_layouts ls dc =
     (case map_of ls (dc_id dc) of
        Some l \<Rightarrow> dc\<lparr>dc_layout := persisted_layout l\<rparr>
      | None \<Rightarrow> dc)"

lemma with_layouts_fields [simp]:
  "dc_id (with_layouts ls dc) = dc_id dc"
  "dc_position (with_layouts ls dc) = dc_position dc"
  "dc_created_at (with_layouts ls dc) = dc_created_at dc"
  "visualization_type_for_card (with_layouts ls dc) = visualization_type_for_card dc"
  by (cases "map_of ls (dc_id dc)";
      simp add: with_layouts_def visualization_type_for_card_def safe_visualization_for_card_def)+

lemma ordered_with_layouts:
  "ordered_cards (map (with_layouts ls) cards) = map (with_layouts ls) (ordered_cards cards)"
  by (simp add: ordered_cards_def sort_key_map comp_def)

text \<open>
  C8: Normalization is stable: storing the normalized layouts on the cards and normalizing again
  returns the same layouts, so a read never moves a card of an already normalized dashboard.
\<close>
theorem normalize_card_layouts_idempotent:
  assumes ok: "normalize_card_layouts cards = Inr ls" and dist: "distinct (map dc_id cards)"
  shows "normalize_card_layouts (map (with_layouts ls) cards) = Inr ls"
proof -
  note sound = normalize_sound [OF ok dist]
  let ?oc = "ordered_cards cards"
  define L where "L dc = the (map_of ls (dc_id dc))" for dc :: dashboard_card
  have dist': "distinct (map fst ls)"
    unfolding sound(1) by (rule distinct_ordered_cards [OF dist])
  have ls: "ls = map (\<lambda>dc. (dc_id dc, L dc)) ?oc"
  proof -
    have "ls = map (\<lambda>i. (i, the (map_of ls i))) (map fst ls)"
      using dist' by (auto intro!: map_idI [symmetric])
    also have "\<dots> = map (\<lambda>dc. (dc_id dc, L dc)) ?oc" unfolding sound(1) by (simp add: L_def)
    finally show ?thesis .
  qed
  have parses: "\<exists>vtype. visualization_type_for_card dc = Inr vtype
      \<and> parse_layout_for_card (dc_layout (with_layouts ls dc)) vtype = Inr (Some (L dc))"
    if "dc \<in> set cards" for dc
    using sound(3) [OF that] by (auto simp: with_layouts_def L_def persisted_layout_parses)
  then obtain T where T: "\<And>dc. dc \<in> set cards \<Longrightarrow> visualization_type_for_card dc = Inr (T dc)
      \<and> parse_layout_for_card (dc_layout (with_layouts ls dc)) (T dc) = Inr (Some (L dc))"
    by metis
  have T_id: "T dc = projr (visualization_type_for_card dc)" if "dc \<in> set cards" for dc
    using T [OF that] by simp
  have again: "map (\<lambda>dc. (dc_id dc, L dc)) (ordered_cards (map (with_layouts ls) cards)) = ls"
  proof -
    have "map (\<lambda>dc. (dc_id dc, L dc)) (ordered_cards (map (with_layouts ls) cards))
        = map (\<lambda>dc. (dc_id dc, L dc)) ?oc"
      by (simp add: ordered_with_layouts L_def)
    then show ?thesis using ls by metis
  qed
  have "normalize_card_layouts (map (with_layouts ls) cards)
      = Inr (map (\<lambda>dc. (dc_id dc, L dc)) (ordered_cards (map (with_layouts ls) cards)))"
  proof (rule normalize_stable [where T = "\<lambda>dc. projr (visualization_type_for_card dc)"])
    show "distinct (map dc_id (map (with_layouts ls) cards))" using dist by (simp add: comp_def)
    show "layouts_do_not_overlap
        (map (\<lambda>dc. (dc_id dc, L dc)) (ordered_cards (map (with_layouts ls) cards)))"
      unfolding again by (rule sound(2))
    fix dc assume "dc \<in> set (map (with_layouts ls) cards)"
    then obtain d where d: "d \<in> set cards" "dc = with_layouts ls d" by auto
    then show "visualization_type_for_card dc = Inr (projr (visualization_type_for_card dc))
        \<and> parse_layout_for_card (dc_layout dc) (projr (visualization_type_for_card dc)) = Inr (Some (L dc))"
      using T [OF d(1)] T_id [OF d(1)] by (simp add: L_def)
  qed
  then show ?thesis unfolding again .
qed

end
