(* ===== verification/Dashboard_Payloads.thy ===== *)
theory Dashboard_Payloads
  imports Uuid_Text Layout_Editing
begin

text \<open>
  The request payloads of the dashboard routes (\<open>api/routes/dashboards.py\<close>) and the error
  responses they answer with. A parser returns the error response or the parsed values; a key
  a parsed dictionary may lack is an \<open>option\<close> that is \<open>None\<close> when the key is absent.
\<close>

section \<open>Error responses\<close>

definition error_response :: "string \<Rightarrow> string \<Rightarrow> int \<Rightarrow> api_error" where
  "error_response code message status = \<lparr>ae_code = code, ae_message = message, ae_status_code = status\<rparr>"

definition csrf_error_response :: api_error where
  "csrf_error_response =
     error_response ''CSRF_TOKEN_MISSING'' ''A valid CSRF token is required for this request.'' 403"

definition invalid_dashboard_request_response :: api_error where
  "invalid_dashboard_request_response =
     error_response ''INVALID_DASHBOARD_REQUEST'' ''Dashboard request is invalid or unsupported.'' 400"

definition invalid_dashboard_update_request_response :: api_error where
  "invalid_dashboard_update_request_response =
     error_response ''INVALID_DASHBOARD_UPDATE_REQUEST''
       ''Dashboard update request is invalid or unsupported.'' 400"

definition invalid_dashboard_duplicate_request_response :: api_error where
  "invalid_dashboard_duplicate_request_response =
     error_response ''INVALID_DASHBOARD_DUPLICATE_REQUEST''
       ''Dashboard duplicate request is invalid or unsupported.'' 400"

definition invalid_save_card_request_response :: api_error where
  "invalid_save_card_request_response =
     error_response ''INVALID_SAVE_CARD_REQUEST'' ''Save-card request is invalid or unsupported.'' 400"

definition invalid_card_update_request_response :: api_error where
  "invalid_card_update_request_response =
     error_response ''INVALID_CARD_UPDATE_REQUEST'' ''Card update request is invalid or unsupported.'' 400"

definition invalid_card_duplicate_request_response :: api_error where
  "invalid_card_duplicate_request_response =
     error_response ''INVALID_CARD_DUPLICATE_REQUEST''
       ''Card duplicate request is invalid or unsupported.'' 400"

definition invalid_dashboard_layout_request_response :: api_error where
  "invalid_dashboard_layout_request_response =
     error_response ''INVALID_DASHBOARD_LAYOUT_REQUEST''
       ''Dashboard layout request is invalid or unsupported.'' 400"

definition dashboard_layout_conflict_response :: api_error where
  "dashboard_layout_conflict_response =
     error_response ''DASHBOARD_LAYOUT_CONFLICT''
       ''Dashboard cards changed. Reload the dashboard and try again.'' 409"

definition dashboard_layout_update_failed_response :: api_error where
  "dashboard_layout_update_failed_response =
     error_response ''DASHBOARD_LAYOUT_UPDATE_FAILED'' ''Dashboard card order could not be saved.'' 500"

definition dashboard_mutation_failed_response :: api_error where
  "dashboard_mutation_failed_response =
     error_response ''DASHBOARD_UPDATE_FAILED'' ''Dashboard changes could not be saved.'' 500"

definition card_mutation_failed_response :: api_error where
  "card_mutation_failed_response =
     error_response ''CARD_UPDATE_FAILED'' ''Dashboard card changes could not be saved.'' 500"

definition card_not_found_response :: api_error where
  "card_not_found_response = error_response ''CARD_NOT_FOUND'' ''Dashboard card was not found.'' 404"

definition card_source_not_found_response :: api_error where
  "card_source_not_found_response =
     error_response ''CARD_SOURCE_NOT_FOUND'' ''Dashboard card source was not found.'' 404"

definition forbidden_response :: api_error where
  "forbidden_response =
     error_response ''FORBIDDEN'' ''You are not authorized to perform this action.'' 403"

definition query_run_not_found_response :: api_error where
  "query_run_not_found_response = error_response ''QUERY_RUN_NOT_FOUND'' ''Query run was not found.'' 404"

definition query_run_not_saveable_response :: api_error where
  "query_run_not_saveable_response =
     error_response ''QUERY_RUN_NOT_SAVEABLE''
       ''Only successful owned query runs can be saved as dashboard cards.'' 400"

definition dashboard_not_found_response :: api_error where
  "dashboard_not_found_response =
     error_response ''DASHBOARD_NOT_FOUND'' ''Dashboard was not found.'' 404"

section \<open>Fields\<close>

definition MAX_TITLE_LENGTH :: nat where "MAX_TITLE_LENGTH = 255"
definition MAX_DESCRIPTION_LENGTH :: nat where "MAX_DESCRIPTION_LENGTH = 2000"

definition ALLOWED_VISIBILITY_SCOPES :: "string list" where
  "ALLOWED_VISIBILITY_SCOPES = [''personal'', ''department'', ''global'']"

definition ALLOWED_CARD_TYPES :: "string list" where
  "ALLOWED_CARD_TYPES = [''table'']"

definition present :: "json \<Rightarrow> string \<Rightarrow> bool" where
  "present payload key \<longleftrightarrow> key \<in> jkeys payload"

text \<open>The parsers below return \<open>None\<close> for the sentinel \<open>_INVALID\<close>.\<close>

definition optional_string :: "json \<Rightarrow> string \<Rightarrow> string option option" where
  "optional_string payload key =
     (case jget payload key of
        JNull \<Rightarrow> Some None
      | JStr s \<Rightarrow> Some (Some (py_strip s))
      | _ \<Rightarrow> None)"

definition optional_non_empty_string :: "json \<Rightarrow> string \<Rightarrow> string option option" where
  "optional_non_empty_string payload key =
     (case jget payload key of
        JNull \<Rightarrow> Some None
      | JStr s \<Rightarrow> if py_strip s = [] then None else Some (Some (py_strip s))
      | _ \<Rightarrow> None)"

definition required_uuid_string :: "json \<Rightarrow> string \<Rightarrow> uuid option" where
  "required_uuid_string payload key =
     (case jget payload key of
        JStr s \<Rightarrow> if py_strip s = [] then None else parse_uuid (py_strip s)
      | _ \<Rightarrow> None)"

definition optional_uuid_string :: "json \<Rightarrow> string \<Rightarrow> uuid option option" where
  "optional_uuid_string payload key =
     (case jget payload key of
        JNull \<Rightarrow> Some None
      | JStr s \<Rightarrow> if py_strip s = [] then None else map_option Some (parse_uuid (py_strip s))
      | _ \<Rightarrow> None)"

definition optional_visibility_scope :: "json \<Rightarrow> string option option" where
  "optional_visibility_scope payload =
     (case jget payload ''visibility_scope'' of
        JNull \<Rightarrow> Some None
      | JStr s \<Rightarrow>
          let safe = py_lower (py_strip s)
          in if safe \<in> set ALLOWED_VISIBILITY_SCOPES then Some (Some safe) else None
      | _ \<Rightarrow> None)"

text \<open>A title that is present must be a non-empty string of at most 255 characters.\<close>

definition parse_title :: "json \<Rightarrow> string option" where
  "parse_title payload =
     (case optional_non_empty_string payload ''title'' of
        Some (Some t) \<Rightarrow> if length t > MAX_TITLE_LENGTH then None else Some t
      | _ \<Rightarrow> None)"

text \<open>A description is null or a string of at most 2000 characters.\<close>

definition parse_description :: "json \<Rightarrow> string option option" where
  "parse_description payload =
     (case optional_string payload ''description'' of
        None \<Rightarrow> None
      | Some None \<Rightarrow> Some None
      | Some (Some d) \<Rightarrow> if length d > MAX_DESCRIPTION_LENGTH then None else Some (Some d))"

text \<open>A field that only counts when its key is there: absent, or parsed, or invalid.\<close>

definition when_present :: "json \<Rightarrow> string \<Rightarrow> 'a option \<Rightarrow> 'a option option" where
  "when_present payload key parsed =
     (if present payload key then map_option Some parsed else Some None)"

definition or_error :: "api_error \<Rightarrow> 'a option \<Rightarrow> api_error + 'a" where
  "or_error e r = (case r of None \<Rightarrow> Inl e | Some x \<Rightarrow> Inr x)"

lemma or_error_simps [simp]: "or_error e None = Inl e" "or_error e (Some x) = Inr x"
  by (simp_all add: or_error_def)

lemma or_error_Inr_iff [simp]: "or_error e r = Inr x \<longleftrightarrow> r = Some x"
  by (cases r) simp_all

lemma or_error_Inl_iff [simp]: "or_error e r = Inl f \<longleftrightarrow> r = None \<and> f = e"
  by (cases r) auto

section \<open>Dashboard payloads\<close>

record dashboard_payload =
  dp_title :: string
  dp_description :: "string option option"
  dp_visibility_scope :: "string option option"
  dp_department_id :: "uuid option option"

definition parse_dashboard_payload :: "json \<Rightarrow> api_error + dashboard_payload" where
  "parse_dashboard_payload payload =
     (let e = invalid_dashboard_request_response in
      if \<not> is_dict payload then Inl e
      else if \<not> jkeys payload \<subseteq> {''title'', ''description'', ''visibility_scope'', ''department_id''}
      then Inl e
      else
        result_bind (or_error e (parse_title payload)) (\<lambda>title.
        result_bind (or_error e (when_present payload ''description'' (parse_description payload))) (\<lambda>description.
        result_bind (or_error e (when_present payload ''visibility_scope'' (optional_visibility_scope payload))) (\<lambda>scope.
        result_bind (or_error e (when_present payload ''department_id''
                                   (optional_uuid_string payload ''department_id''))) (\<lambda>department.
          Inr \<lparr>dp_title = title, dp_description = description, dp_visibility_scope = scope,
               dp_department_id = department\<rparr>)))))"

record dashboard_update =
  du_title :: "string option"
  du_description :: "string option option"

definition parse_dashboard_update_payload :: "json \<Rightarrow> api_error + dashboard_update" where
  "parse_dashboard_update_payload payload =
     (let e = invalid_dashboard_update_request_response in
      if \<not> is_dict payload \<or> jkeys payload = {}
         \<or> \<not> jkeys payload \<subseteq> {''title'', ''description''} then Inl e
      else
        result_bind (or_error e (when_present payload ''title'' (parse_title payload))) (\<lambda>title.
        result_bind (or_error e (when_present payload ''description'' (parse_description payload))) (\<lambda>description.
          Inr \<lparr>du_title = title, du_description = description\<rparr>)))"

section \<open>Card payloads\<close>

record save_card_payload =
  sv_dashboard_id :: uuid
  sv_title :: "string option"
  sv_description :: "string option option"
  sv_card_type :: string

definition parse_card_type :: "json \<Rightarrow> string option" where
  "parse_card_type payload =
     (case optional_non_empty_string payload ''card_type'' of
        Some (Some t) \<Rightarrow> if py_lower t \<in> set ALLOWED_CARD_TYPES then Some (py_lower t) else None
      | _ \<Rightarrow> None)"

definition parse_save_card_payload :: "json \<Rightarrow> api_error + save_card_payload" where
  "parse_save_card_payload payload =
     (let e = invalid_save_card_request_response in
      if \<not> is_dict payload then Inl e
      else if \<not> jkeys payload \<subseteq> {''dashboard_id'', ''title'', ''description'', ''card_type''} then Inl e
      else
        result_bind (or_error e (Option.bind (optional_uuid_string payload ''dashboard_id'') id)) (\<lambda>dashboard.
        result_bind (or_error e (when_present payload ''title'' (parse_title payload))) (\<lambda>title.
        result_bind (or_error e (when_present payload ''description'' (parse_description payload))) (\<lambda>description.
        result_bind (or_error e (when_present payload ''card_type'' (parse_card_type payload))) (\<lambda>card_type.
          Inr \<lparr>sv_dashboard_id = dashboard, sv_title = title, sv_description = description,
               sv_card_type = (case card_type of None \<Rightarrow> ''table'' | Some t \<Rightarrow> t)\<rparr>)))))"

record card_update =
  cu_title :: "string option"
  cu_description :: "string option option"
  cu_visualization :: "visualization option"

text \<open>
  The parser of a card update: the outer error is the exception that escapes the handler, the
  inner one the response it returns.
\<close>

definition parse_card_update_payload :: "json \<Rightarrow> py_exn + (api_error + card_update)" where
  "parse_card_update_payload payload =
     (let e = invalid_card_update_request_response in
      if \<not> is_dict payload \<or> jkeys payload = {}
         \<or> \<not> jkeys payload \<subseteq> {''title'', ''description'', ''visualization''} then Inr (Inl e)
      else case when_present payload ''title'' (parse_title payload) of
             None \<Rightarrow> Inr (Inl e)
           | Some title \<Rightarrow>
          (case when_present payload ''description'' (parse_description payload) of
             None \<Rightarrow> Inr (Inl e)
           | Some description \<Rightarrow>
               if \<not> present payload ''visualization''
               then Inr (Inr \<lparr>cu_title = title, cu_description = description, cu_visualization = None\<rparr>)
               else result_bind (parse_visualization (jget payload ''visualization'')) (\<lambda>parsed.
                 case parsed of
                   None \<Rightarrow> Inr (Inl e)
                 | Some vz \<Rightarrow>
                     Inr (Inr \<lparr>cu_title = title, cu_description = description,
                               cu_visualization = Some vz\<rparr>))))"

section \<open>Layout payloads\<close>

record editor_item =
  ei_card_id :: uuid
  ei_desktop :: json
  ei_tablet :: json
  ei_mobile :: json

definition strict_coordinate_shape :: "json \<Rightarrow> bool" where
  "strict_coordinate_shape v \<longleftrightarrow>
     is_dict v \<and> jkeys v = {''x'', ''y'', ''w'', ''h''}
     \<and> list_all (\<lambda>f. strict_int (jget v f) \<noteq> None) [''x'', ''y'', ''w'', ''h'']"

primrec parse_editor_items :: "json list \<Rightarrow> uuid list \<Rightarrow> editor_item list option" where
  "parse_editor_items [] seen = Some []"
| "parse_editor_items (item # items) seen =
     (if \<not> is_dict item \<or> jkeys item \<noteq> {''card_id'', ''desktop'', ''tablet'', ''mobile''} then None
      else case required_uuid_string item ''card_id'' of
             None \<Rightarrow> None
           | Some card_id \<Rightarrow>
               if card_id \<in> set seen then None
               else if \<not> list_all (\<lambda>bp. strict_coordinate_shape (jget item (breakpoint_name bp)))
                         all_breakpoints then None
               else map_option
                      (\<lambda>rest. \<lparr>ei_card_id = card_id, ei_desktop = jget item ''desktop'',
                               ei_tablet = jget item ''tablet'', ei_mobile = jget item ''mobile''\<rparr> # rest)
                      (parse_editor_items items (card_id # seen)))"

definition parse_editor_layout_payload :: "json \<Rightarrow> api_error + int \<times> editor_item list" where
  "parse_editor_layout_payload payload =
     (let e = invalid_dashboard_layout_request_response in
      if \<not> is_dict payload \<or> jkeys payload \<noteq> {''expected_layout_version'', ''items''} then Inl e
      else case strict_int (jget payload ''expected_layout_version'') of
             None \<Rightarrow> Inl e
           | Some version \<Rightarrow>
               if version < 1 then Inl e
               else (case jget payload ''items'' of
                       JList items \<Rightarrow>
                         map_sum id (\<lambda>parsed. (version, parsed)) (or_error e (parse_editor_items items []))
                     | _ \<Rightarrow> Inl e))"

primrec parse_order_items :: "json list \<Rightarrow> uuid list \<Rightarrow> int list \<Rightarrow> (uuid \<times> int) list option" where
  "parse_order_items [] ids positions = Some []"
| "parse_order_items (item # items) ids positions =
     (if \<not> is_dict item \<or> jkeys item \<noteq> {''card_id'', ''position''} then None
      else case required_uuid_string item ''card_id'' of
             None \<Rightarrow> None
           | Some card_id \<Rightarrow>
               (case strict_int (jget item ''position'') of
                  None \<Rightarrow> None
                | Some position \<Rightarrow>
                    if position < 0 then None
                    else if card_id \<in> set ids \<or> position \<in> set positions then None
                    else map_option (\<lambda>rest. (card_id, position) # rest)
                           (parse_order_items items (card_id # ids) (position # positions))))"

definition parse_dashboard_layout_payload :: "json \<Rightarrow> api_error + (uuid \<times> int) list" where
  "parse_dashboard_layout_payload payload =
     (let e = invalid_dashboard_layout_request_response in
      if \<not> is_dict payload \<or> jkeys payload \<noteq> {''items''} then Inl e
      else case jget payload ''items'' of
             JList items \<Rightarrow>
               if items = [] then Inl e
               else (case parse_order_items items [] [] of
                       None \<Rightarrow> Inl e
                     | Some parsed \<Rightarrow>
                         if set (map snd parsed) \<noteq> set (map int [0..<length parsed]) then Inl e
                         else Inr parsed)
           | _ \<Rightarrow> Inl e)"

lemma parse_editor_items_ids:
  "parse_editor_items items seen = Some parsed \<Longrightarrow>
     distinct (map ei_card_id parsed) \<and> set (map ei_card_id parsed) \<inter> set seen = {}"
proof (induction items arbitrary: seen parsed)
  case Nil
  then show ?case by simp
next
  case (Cons item items)
  from Cons.prems obtain i rest where i: "required_uuid_string item ''card_id'' = Some i" "i \<notin> set seen"
    and rest: "parse_editor_items items (i # seen) = Some rest"
    and parsed: "map ei_card_id parsed = i # map ei_card_id rest"
    by (simp split: if_split_asm option.splits) force
  from Cons.IH [OF rest] i show ?case unfolding parsed by auto
qed

lemma parse_order_items_ids:
  "parse_order_items items ids positions = Some parsed \<Longrightarrow>
     distinct (map fst parsed) \<and> set (map fst parsed) \<inter> set ids = {}
     \<and> distinct (map snd parsed) \<and> set (map snd parsed) \<inter> set positions = {}"
proof (induction items arbitrary: ids positions parsed)
  case Nil
  then show ?case by simp
next
  case (Cons item items)
  from Cons.prems obtain i p rest where i: "i \<notin> set ids" "p \<notin> set positions"
    and rest: "parse_order_items items (i # ids) (p # positions) = Some rest"
    and parsed: "parsed = (i, p) # rest"
    by (simp split: if_split_asm option.splits) force
  from Cons.IH [OF rest] i show ?case unfolding parsed by auto
qed

end
