(* ===== verification/Query_Rows.thy ===== *)
theory Query_Rows
  imports Json
begin

text \<open>
  The row of a query run (\<open>models/product.py\<close>), which the dashboard routes save as a card and an
  action preview may cite as its source.
\<close>

record query_run =
  qr_id :: uuid
  qr_user_id :: "uuid option"
  qr_saved_query_id :: "uuid option"
  qr_status :: string
  qr_natural_language_question :: "string option"
  qr_generated_sql :: "string option"
  qr_executed_sql :: "string option"
  qr_query_metadata :: json
  qr_created_at :: instant
  qr_completed_at :: "instant option"

end
