(* ===== verification/Dashboard_Store.thy ===== *)
theory Dashboard_Store
  imports Dashboard_Payloads Query_Rows
begin

text \<open>
  The rows the dashboard routes read and write, the lookups they share, and the shape of a
  response. A handler maps the store to a response and the store after it: an error response,
  an escaping exception and a failed commit leave the store as it was.
\<close>

section \<open>Rows\<close>

record saved_query =
  sq_id :: uuid
  sq_owner_user_id :: "uuid option"
  sq_name :: string
  sq_description :: "string option"
  sq_natural_language_question :: string
  sq_generated_sql :: "string option"
  sq_visibility_scope :: string
  sq_department_id :: "uuid option"
  sq_parameters :: json
  sq_result_schema :: json

record dash_store =
  ds_dashboards :: "dashboard list"
  ds_cards :: "dashboard_card list"
  ds_runs :: "query_run list"
  ds_saved :: "saved_query list"

text \<open>
  One request: who asks, whether the CSRF token is valid, the clocks of the application and of
  the database, the ids \<open>uuid4\<close> will return, and whether the database accepts the commit.
\<close>

record dash_request =
  rq_user :: app_user
  rq_ctx :: user_access_context
  rq_csrf_ok :: bool
  rq_now :: instant
  rq_db_now :: instant
  rq_new_id :: "nat \<Rightarrow> uuid"
  rq_commit_ok :: bool

datatype 'a http = Success int 'a | Refused api_error | Raised py_exn

fun http_ok :: "'a http \<Rightarrow> bool" where
  "http_ok (Success _ _) = True"
| "http_ok _ = False"

section \<open>Lookups\<close>

definition live_dashboard :: "dash_store \<Rightarrow> uuid \<Rightarrow> dashboard option" where
  "live_dashboard st i =
     List.find (\<lambda>d. db_id d = i \<and> \<not> db_is_archived d) (ds_dashboards st)"

definition dashboard_by_id :: "dash_store \<Rightarrow> uuid \<Rightarrow> dashboard option" where
  "dashboard_by_id st i = find_by db_id i (ds_dashboards st)"

definition card_by_id :: "dash_store \<Rightarrow> uuid \<Rightarrow> dashboard_card option" where
  "card_by_id st i = find_by dc_id i (ds_cards st)"

text \<open>The cards of a dashboard, in the order every query of the routes asks for.\<close>

definition cards_of :: "dash_store \<Rightarrow> uuid \<Rightarrow> dashboard_card list" where
  "cards_of st i = ordered_cards (filter (\<lambda>dc. dc_dashboard_id dc = i) (ds_cards st))"

definition next_card_position :: "dash_store \<Rightarrow> uuid \<Rightarrow> int" where
  "next_card_position st i =
     (case map dc_position (cards_of st i) of [] \<Rightarrow> 0 | p # ps \<Rightarrow> foldl max p ps + 1)"

definition dashboard_management_error ::
  "dashboard option \<Rightarrow> app_user \<Rightarrow> user_access_context \<Rightarrow> api_error + dashboard" where
  "dashboard_management_error dashboard user ctx =
     (case dashboard of
        None \<Rightarrow> Inl dashboard_not_found_response
      | Some d \<Rightarrow>
          if db_is_archived d then Inl dashboard_not_found_response
          else if \<not> dashboard_is_visible d user ctx then Inl dashboard_not_found_response
          else if \<not> dashboard_is_manageable d user ctx then Inl forbidden_response
          else Inr d)"

text \<open>The card routes answer "card not found" where the dashboard routes say "dashboard not found".\<close>

definition card_management_error :: "api_error \<Rightarrow> api_error" where
  "card_management_error e =
     (if ae_status_code e = 404 then card_not_found_response else e)"

definition has_any_permission :: "user_access_context \<Rightarrow> string list \<Rightarrow> bool" where
  "has_any_permission ctx keys = list_ex (has_permission ctx) keys"

definition can_save_card_to_dashboard :: "dashboard \<Rightarrow> app_user \<Rightarrow> user_access_context \<Rightarrow> bool" where
  "can_save_card_to_dashboard d user ctx =
     (if db_visibility_scope d = ''personal'' then db_owner_user_id d = Some (au_id user)
      else if db_visibility_scope d = ''department'' then
        (if db_department_id d = None then False
         else if \<not> has_any_permission ctx
                    [''can_create_department_dashboard'', ''can_create_scope_dashboard'',
                     ''can_manage_department_dashboard'', ''can_manage_scope_dashboard''] then False
         else department_scope_is_assigned (db_department_id d) ctx)
      else if db_visibility_scope d = ''global'' then
        uc_has_global_scope ctx
        \<and> has_any_permission ctx [''can_create_global_dashboard'', ''can_manage_global_dashboard'']
      else False)"

text \<open>Python truthiness of a decoded value, and \<open>query_metadata or {}\<close>.\<close>

fun json_truthy :: "json \<Rightarrow> bool" where
  "json_truthy JNull = False"
| "json_truthy (JBool b) = b"
| "json_truthy (JInt i) = (i \<noteq> 0)"
| "json_truthy (JFloat r) = (r \<noteq> 0)"
| "json_truthy (JStr s) = (s \<noteq> [])"
| "json_truthy (JList xs) = (xs \<noteq> [])"
| "json_truthy (JDict kvs) = (kvs \<noteq> [])"

definition query_run_can_be_saved :: "query_run \<Rightarrow> bool" where
  "query_run_can_be_saved run =
     (if qr_status run \<noteq> ''succeeded'' then False
      else if qr_saved_query_id run \<noteq> None then False
      else let metadata = (if json_truthy (qr_query_metadata run) then qr_query_metadata run else JDict [])
           in if \<not> is_dict metadata then True
              else if jget metadata ''clarification_required'' = JBool True then False
              else if jget metadata ''unsupported_reason'' \<noteq> JNull then False
              else True)"

definition natural_language_question_for_saved_query :: "query_run \<Rightarrow> string \<Rightarrow> string" where
  "natural_language_question_for_saved_query run fallback =
     (case qr_natural_language_question run of
        Some q \<Rightarrow> if py_strip q \<noteq> [] then py_strip q else fallback
      | None \<Rightarrow> fallback)"

definition title_for_saved_card :: "save_card_payload \<Rightarrow> query_run \<Rightarrow> string" where
  "title_for_saved_card payload run =
     (if truthy_str (sv_title payload) then the (sv_title payload)
      else natural_language_question_for_saved_query run ''Saved query'')"

definition bounded_copy_title :: "string \<Rightarrow> string \<Rightarrow> string" where
  "bounded_copy_title first second = py_strip (take MAX_TITLE_LENGTH (first @ second))"

section \<open>Writing rows\<close>

text \<open>
  \<open>onupdate=now()\<close>: the column moves when some column of the row does. The session does not
  flush on its own, so what counts is the row at the commit against the row that was read.
\<close>

definition touch_card :: "instant \<Rightarrow> dashboard_card \<Rightarrow> dashboard_card \<Rightarrow> dashboard_card" where
  "touch_card now old new = (if new = old then old else new\<lparr>dc_updated_at := now\<rparr>)"

definition flush_cards :: "instant \<Rightarrow> dash_store \<Rightarrow> dash_store \<Rightarrow> dash_store" where
  "flush_cards now old new =
     new\<lparr>ds_cards := map (\<lambda>dc. case card_by_id old (dc_id dc) of
                                 None \<Rightarrow> dc
                               | Some before \<Rightarrow> touch_card now before dc) (ds_cards new)\<rparr>"

definition update_cards :: "uuid \<Rightarrow> (dashboard_card \<Rightarrow> dashboard_card) \<Rightarrow> dash_store \<Rightarrow> dash_store" where
  "update_cards i f st =
     st\<lparr>ds_cards := map (\<lambda>dc. if dc_dashboard_id dc = i then f dc else dc) (ds_cards st)\<rparr>"

definition update_dashboard_row :: "uuid \<Rightarrow> (dashboard \<Rightarrow> dashboard) \<Rightarrow> dash_store \<Rightarrow> dash_store" where
  "update_dashboard_row i f st =
     st\<lparr>ds_dashboards := map (\<lambda>d. if db_id d = i then f d else d) (ds_dashboards st)\<rparr>"

definition bump_version :: "instant \<Rightarrow> dashboard \<Rightarrow> dashboard" where
  "bump_version now d = d\<lparr>db_layout_version := db_layout_version d + 1, db_updated_at := now\<rparr>"

text \<open>A card takes its layout and its position from the computed tables.\<close>

definition place_card :: "(uuid \<times> layout) list \<Rightarrow> dashboard_card \<Rightarrow> dashboard_card" where
  "place_card layouts dc =
     (let placed = with_layouts layouts dc
      in case map_of (derive_positions layouts) (dc_id dc) of
           Some p \<Rightarrow> placed\<lparr>dc_position := int p\<rparr>
         | None \<Rightarrow> placed)"

definition vis_mapping_json :: "vis_mapping \<Rightarrow> json" where
  "vis_mapping_json m =
     (let col = (\<lambda>c. case c of None \<Rightarrow> JNull | Some s \<Rightarrow> JStr s)
      in JDict [(''value_columns'', JList (map JStr (vm_value_columns m))),
                (''category_column'', col (vm_category_column m)),
                (''series_column'', col (vm_series_column m)),
                (''label_column'', col (vm_label_column m)),
                (''target_column'', col (vm_target_column m))])"

definition visualization_json :: "visualization \<Rightarrow> json" where
  "visualization_json vz =
     JDict [(''mode'', JStr (vz_mode vz)), (''type'', JStr (vz_type vz)),
            (''recommended_type'', JStr (vz_recommended_type vz)),
            (''mapping'', vis_mapping_json (vz_mapping vz))]"

definition config_json :: "visualization \<Rightarrow> json" where
  "config_json vz = JDict [(''visualization'', visualization_json vz)]"

text \<open>\<open>commit\<close>: the new store and the answer read from it, or the rollback and the error answer.\<close>

definition commit_or ::
  "dash_request \<Rightarrow> 'a http \<Rightarrow> dash_store \<Rightarrow> (dash_store \<Rightarrow> 'a http) \<Rightarrow> dash_store \<Rightarrow> 'a http \<times> dash_store" where
  "commit_or rq failed st reply st' =
     (if rq_commit_ok rq
      then (let final = flush_cards (rq_db_now rq) st st' in (reply final, final))
      else (failed, st))"

end
