(* ===== verification/Dashboard_Routes.thy ===== *)
theory Dashboard_Routes
  imports Dashboard_Store
begin

text \<open>
  The handlers of \<open>api/routes/dashboards.py\<close> that change dashboards and cards, one definition
  per handler with its checks in the order of the source, and the disclosure of a card's SQL.
\<close>

section \<open>Layouts\<close>

fun submitted_layouts ::
  "dashboard_card list \<Rightarrow> editor_item list \<Rightarrow> py_exn + (uuid \<times> layout) list option" where
  "submitted_layouts cards [] = Inr (Some [])"
| "submitted_layouts cards (item # items) =
     (case find_by dc_id (ei_card_id item) cards of
        None \<Rightarrow> Inl KeyError
      | Some dc \<Rightarrow>
          result_bind (visualization_type_for_card dc) (\<lambda>vtype.
          result_bind (parse_layout_item
              (JDict [(''desktop'', ei_desktop item), (''tablet'', ei_tablet item),
                      (''mobile'', ei_mobile item)]) vtype) (\<lambda>parsed.
            case parsed of
              None \<Rightarrow> Inr None
            | Some l \<Rightarrow>
                result_bind (submitted_layouts cards items) (\<lambda>rest.
                  Inr (map_option (\<lambda>ls. (ei_card_id item, l) # ls) rest)))))"

record layout_answer =
  la_layout_version :: int
  la_items :: "(uuid \<times> int \<times> layout) list"

definition layout_items :: "(uuid \<times> layout) list \<Rightarrow> (uuid \<times> int \<times> layout) list" where
  "layout_items layouts =
     map (\<lambda>(i, p). (i, int p, the (map_of layouts i))) (derive_positions layouts)"

definition update_dashboard_editor_layout ::
  "dash_request \<Rightarrow> uuid \<Rightarrow> json \<Rightarrow> dash_store \<Rightarrow> layout_answer http \<times> dash_store" where
  "update_dashboard_editor_layout rq dashboard_id payload st =
     (if \<not> rq_csrf_ok rq then (Refused csrf_error_response, st)
      else case parse_editor_layout_payload payload of
        Inl e \<Rightarrow> (Refused e, st)
      | Inr (expected_version, items) \<Rightarrow>
     (case dashboard_management_error (live_dashboard st dashboard_id) (rq_user rq) (rq_ctx rq) of
        Inl e \<Rightarrow> (Refused e, st)
      | Inr d \<Rightarrow>
          let current = cards_of st (db_id d) in
          if db_layout_version d \<noteq> expected_version
          then (Refused dashboard_layout_conflict_response, st)
          else if set (map dc_id current) \<noteq> set (map ei_card_id items)
          then (Refused dashboard_layout_conflict_response, st)
          else (case submitted_layouts current items of
                  Inl exn \<Rightarrow> (Raised exn, st)
                | Inr None \<Rightarrow> (Refused invalid_dashboard_layout_request_response, st)
                | Inr (Some layouts) \<Rightarrow>
                    if \<not> layouts_do_not_overlap layouts
                    then (Refused invalid_dashboard_layout_request_response, st)
                    else commit_or rq (Refused dashboard_layout_update_failed_response) st
                           (\<lambda>_. Success 200 \<lparr>la_layout_version = db_layout_version d + 1,
                                               la_items = layout_items layouts\<rparr>)
                           (update_dashboard_row (db_id d) (bump_version (rq_now rq))
                              (update_cards (db_id d) (place_card layouts) st)))))"

text \<open>The cards of an owned, live, personal dashboard among those submitted.\<close>

definition owns_personal :: "dash_request \<Rightarrow> dashboard \<Rightarrow> bool" where
  "owns_personal rq d \<longleftrightarrow> db_owner_user_id d = Some (au_id (rq_user rq))
     \<and> db_visibility_scope d = ''personal'' \<and> \<not> db_is_archived d"

definition submitted_cards :: "dash_request \<Rightarrow> uuid list \<Rightarrow> dash_store \<Rightarrow> dashboard_card list" where
  "submitted_cards rq ids st =
     filter (\<lambda>dc. dc_id dc \<in> set ids
               \<and> list_ex (\<lambda>d. db_id d = dc_dashboard_id dc \<and> owns_personal rq d) (ds_dashboards st))
       (ds_cards st)"

definition set_position :: "(uuid \<times> int) list \<Rightarrow> dashboard_card \<Rightarrow> dashboard_card" where
  "set_position items dc =
     (case map_of items (dc_id dc) of Some p \<Rightarrow> dc\<lparr>dc_position := p\<rparr> | None \<Rightarrow> dc)"

definition update_my_dashboard_layout ::
  "dash_request \<Rightarrow> json \<Rightarrow> dash_store \<Rightarrow> dashboard http \<times> dash_store" where
  "update_my_dashboard_layout rq payload st =
     (if \<not> rq_csrf_ok rq then (Refused csrf_error_response, st)
      else case parse_dashboard_layout_payload payload of
        Inl e \<Rightarrow> (Refused e, st)
      | Inr items \<Rightarrow>
          let ids = map fst items; submitted = submitted_cards rq ids st in
          (case dedup (map dc_dashboard_id submitted) of
             [] \<Rightarrow> (Refused dashboard_not_found_response, st)
           | dashboard_id # others \<Rightarrow>
               if length submitted \<noteq> length ids then (Refused dashboard_layout_conflict_response, st)
               else if others \<noteq> [] then (Refused dashboard_layout_conflict_response, st)
               else (case List.find (\<lambda>d. db_id d = dashboard_id \<and> owns_personal rq d) (ds_dashboards st) of
                       None \<Rightarrow> (Refused dashboard_not_found_response, st)
                     | Some d \<Rightarrow>
                         let current = cards_of st (db_id d);
                             changed = list_ex (\<lambda>dc. map_of items (dc_id dc) \<noteq> Some (dc_position dc)) current;
                             st' = (if changed
                                    then update_dashboard_row (db_id d) (\<lambda>d. d\<lparr>db_updated_at := rq_now rq\<rparr>)
                                           (update_cards (db_id d) (set_position items) st)
                                    else st)
                         in if set (map dc_id current) \<noteq> set ids
                            then (Refused dashboard_layout_conflict_response, st)
                            else commit_or rq (Refused dashboard_layout_update_failed_response) st
                                   (\<lambda>st''. case dashboard_by_id st'' (db_id d) of
                                      None \<Rightarrow> Refused dashboard_not_found_response
                                    | Some d' \<Rightarrow> Success 200 d') st')))"

section \<open>Cards\<close>

record card_answer =
  ca_card :: dashboard_card
  ca_layout_version :: int

text \<open>
  The shared ending of the card handlers: normalize every card of the dashboard, derive the
  positions and store both. An exception of the normalization escapes the handler.
\<close>

definition relayout :: "uuid \<Rightarrow> dash_store \<Rightarrow> py_exn + dash_store" where
  "relayout i st =
     result_bind (normalize_card_layouts (cards_of st i)) (\<lambda>layouts.
       Inr (update_cards i (place_card layouts) st))"

definition apply_card_update :: "card_update \<Rightarrow> dashboard_card \<Rightarrow> dashboard_card" where
  "apply_card_update u dc =
     (let titled = (case cu_title u of Some t \<Rightarrow> dc\<lparr>dc_title := t\<rparr> | None \<Rightarrow> dc);
          described = (case cu_description u of Some d \<Rightarrow> titled\<lparr>dc_description := d\<rparr> | None \<Rightarrow> titled)
      in case cu_visualization u of
           None \<Rightarrow> described
         | Some vz \<Rightarrow>
             described\<lparr>dc_config := config_json vz, dc_card_type := vz_type vz, dc_layout := JNull\<rparr>)"

definition update_one_card ::
  "uuid \<Rightarrow> (dashboard_card \<Rightarrow> dashboard_card) \<Rightarrow> dash_store \<Rightarrow> dash_store" where
  "update_one_card i f st =
     st\<lparr>ds_cards := map (\<lambda>dc. if dc_id dc = i then f dc else dc) (ds_cards st)\<rparr>"

text \<open>\<open>db.refresh(card)\<close> after the commit.\<close>

definition card_reply :: "int \<Rightarrow> uuid \<Rightarrow> uuid \<Rightarrow> dash_store \<Rightarrow> card_answer http" where
  "card_reply status card_id dashboard_id st =
     (case (card_by_id st card_id, dashboard_by_id st dashboard_id) of
        (Some dc, Some d) \<Rightarrow> Success status \<lparr>ca_card = dc, ca_layout_version = db_layout_version d\<rparr>
      | _ \<Rightarrow> Raised SQLAlchemyError)"

definition update_card ::
  "dash_request \<Rightarrow> uuid \<Rightarrow> json \<Rightarrow> dash_store \<Rightarrow> card_answer http \<times> dash_store" where
  "update_card rq card_id payload st =
     (if \<not> rq_csrf_ok rq then (Refused csrf_error_response, st)
      else case parse_card_update_payload payload of
        Inl exn \<Rightarrow> (Raised exn, st)
      | Inr (Inl e) \<Rightarrow> (Refused e, st)
      | Inr (Inr u) \<Rightarrow>
     (case card_by_id st card_id of
        None \<Rightarrow> (Refused card_not_found_response, st)
      | Some dc \<Rightarrow>
     (case dashboard_by_id st (dc_dashboard_id dc) of
        None \<Rightarrow> (Refused card_not_found_response, st)
      | Some owner \<Rightarrow>
     (case dashboard_management_error (Some owner) (rq_user rq) (rq_ctx rq) of
        Inl e \<Rightarrow> (Refused (card_management_error e), st)
      | Inr _ \<Rightarrow>
     (case live_dashboard st (db_id owner) of
        None \<Rightarrow> (Refused card_not_found_response, st)
      | Some d \<Rightarrow>
          if dc_dashboard_id dc \<noteq> db_id d then (Refused card_not_found_response, st)
          else let st1 = update_one_card card_id (apply_card_update u) st in
          (case cu_visualization u of
             None \<Rightarrow>
               (let st2 = update_dashboard_row (db_id d) (\<lambda>d. d\<lparr>db_updated_at := rq_now rq\<rparr>) st1
                in commit_or rq (Refused card_mutation_failed_response) st
                     (card_reply 200 card_id (db_id d)) st2)
           | Some vz \<Rightarrow>
               (case relayout (db_id d) st1 of
                  Inl exn \<Rightarrow> (Raised exn, st)
                | Inr st2 \<Rightarrow>
                    let st3 = update_dashboard_row (db_id d) (bump_version (rq_now rq)) st2
                    in commit_or rq (Refused card_mutation_failed_response) st
                         (card_reply 200 card_id (db_id d)) st3)))))))"

definition card_copy ::
  "dash_request \<Rightarrow> dashboard_card \<Rightarrow> visualization \<Rightarrow> uuid \<Rightarrow> int \<Rightarrow> dashboard_card" where
  "card_copy rq source vz dashboard_id position =
     \<lparr>dc_id = rq_new_id rq 0, dc_dashboard_id = dashboard_id,
      dc_saved_query_id = dc_saved_query_id source,
      dc_title = bounded_copy_title (dc_title source) '' Copy'',
      dc_description = dc_description source, dc_card_type = vz_type vz,
      dc_position = position, dc_layout = JNull, dc_config = config_json vz,
      dc_created_at = rq_db_now rq, dc_updated_at = rq_db_now rq\<rparr>"

definition duplicate_card ::
  "dash_request \<Rightarrow> uuid \<Rightarrow> json \<Rightarrow> dash_store \<Rightarrow> card_answer http \<times> dash_store" where
  "duplicate_card rq card_id payload st =
     (if \<not> rq_csrf_ok rq then (Refused csrf_error_response, st)
      else if \<not> is_dict payload \<or> jkeys payload \<noteq> {}
      then (Refused invalid_card_duplicate_request_response, st)
      else case card_by_id st card_id of
        None \<Rightarrow> (Refused card_not_found_response, st)
      | Some found \<Rightarrow>
     (case dashboard_by_id st (dc_dashboard_id found) of
        None \<Rightarrow> (Refused card_not_found_response, st)
      | Some owner \<Rightarrow>
     (case dashboard_management_error (Some owner) (rq_user rq) (rq_ctx rq) of
        Inl e \<Rightarrow> (Refused (card_management_error e), st)
      | Inr _ \<Rightarrow>
          if \<not> has_permission (rq_ctx rq) ''can_create_card'' then (Refused forbidden_response, st)
          else (case live_dashboard st (db_id owner) of
        None \<Rightarrow> (Refused card_not_found_response, st)
      | Some d \<Rightarrow>
     (case find_by dc_id card_id (cards_of st (db_id d)) of
        None \<Rightarrow> (Refused card_not_found_response, st)
      | Some source \<Rightarrow>
     (case safe_visualization_for_card source of
        Inl exn \<Rightarrow> (Raised exn, st)
      | Inr vz \<Rightarrow>
          let dup = card_copy rq source vz (db_id d) (next_card_position st (db_id d));
              st1 = st\<lparr>ds_cards := ds_cards st @ [dup]\<rparr>
          in case relayout (db_id d) st1 of
               Inl exn \<Rightarrow> (Raised exn, st)
             | Inr st2 \<Rightarrow>
                 let st3 = update_dashboard_row (db_id d) (bump_version (rq_now rq)) st2
                 in commit_or rq (Refused card_mutation_failed_response) st
                      (card_reply 201 (dc_id dup) (db_id d)) st3))))))"

fun renumber :: "int \<Rightarrow> dashboard_card list \<Rightarrow> (uuid \<times> int) list" where
  "renumber p [] = []"
| "renumber p (dc # dcs) = (dc_id dc, p) # renumber (p + 1) dcs"

definition remove_card ::
  "dash_request \<Rightarrow> uuid \<Rightarrow> dash_store \<Rightarrow> (uuid \<times> int) http \<times> dash_store" where
  "remove_card rq card_id st =
     (if \<not> rq_csrf_ok rq then (Refused csrf_error_response, st)
      else case card_by_id st card_id of
        None \<Rightarrow> (Refused card_not_found_response, st)
      | Some dc \<Rightarrow>
     (case dashboard_by_id st (dc_dashboard_id dc) of
        None \<Rightarrow> (Refused card_not_found_response, st)
      | Some owner \<Rightarrow>
     (case dashboard_management_error (live_dashboard st (db_id owner)) (rq_user rq) (rq_ctx rq) of
        Inl e \<Rightarrow> (Refused (card_management_error e), st)
      | Inr d \<Rightarrow>
          let current = cards_of st (db_id d) in
          (case find_by dc_id card_id current of
             None \<Rightarrow> (Refused card_not_found_response, st)
           | Some _ \<Rightarrow>
               let remaining = filter (\<lambda>c. dc_id c \<noteq> card_id) current;
                   st1 = st\<lparr>ds_cards := filter (\<lambda>c. dc_id c \<noteq> card_id) (ds_cards st)\<rparr>;
                   st2 = update_dashboard_row (db_id d) (bump_version (rq_now rq))
                           (update_cards (db_id d) (set_position (renumber 0 remaining)) st1)
               in commit_or rq (Refused card_mutation_failed_response) st
                    (\<lambda>_. Success 200 (card_id, db_layout_version d + 1)) st2))))"

section \<open>Dashboards\<close>

definition dashboard_create_values ::
  "dashboard_payload \<Rightarrow> app_user \<Rightarrow> user_access_context \<Rightarrow> api_error + string \<times> uuid option" where
  "dashboard_create_values payload user ctx =
     (let scope = (case dp_visibility_scope payload of Some (Some s) \<Rightarrow> s | _ \<Rightarrow> ''personal'');
          department = Option.bind (dp_department_id payload) id
      in if scope = ''personal'' then
           (if \<not> has_permission ctx ''can_create_personal_dashboard'' then Inl forbidden_response
            else Inr (scope, None))
         else if scope = ''department'' then
           (if \<not> has_any_permission ctx
                   [''can_create_department_dashboard'', ''can_create_scope_dashboard'',
                    ''can_manage_department_dashboard'', ''can_manage_scope_dashboard'']
            then Inl forbidden_response
            else let chosen = (if department = None then au_department_id user else department)
                 in if chosen = None then Inl invalid_dashboard_request_response
                    else if \<not> department_scope_is_assigned chosen ctx then Inl forbidden_response
                    else Inr (scope, chosen))
         else if scope = ''global'' then
           (if \<not> uc_has_global_scope ctx
               \<or> \<not> has_any_permission ctx [''can_create_global_dashboard'', ''can_manage_global_dashboard'']
            then Inl forbidden_response
            else Inr (scope, None))
         else Inl invalid_dashboard_request_response)"

definition create_dashboard ::
  "dash_request \<Rightarrow> json \<Rightarrow> dash_store \<Rightarrow> dashboard http \<times> dash_store" where
  "create_dashboard rq payload st =
     (if \<not> rq_csrf_ok rq then (Refused csrf_error_response, st)
      else case parse_dashboard_payload payload of
        Inl e \<Rightarrow> (Refused e, st)
      | Inr parsed \<Rightarrow>
     (case dashboard_create_values parsed (rq_user rq) (rq_ctx rq) of
        Inl e \<Rightarrow> (Refused e, st)
      | Inr (scope, department) \<Rightarrow>
          let d = \<lparr>db_id = rq_new_id rq 0, db_owner_user_id = Some (au_id (rq_user rq)),
                   db_title = dp_title parsed, db_description = Option.bind (dp_description parsed) id,
                   db_visibility_scope = scope, db_department_id = department,
                   db_is_archived = False, db_layout_version = 1,
                   db_created_at = rq_db_now rq, db_updated_at = rq_db_now rq\<rparr>
          in commit_or rq (Raised SQLAlchemyError) st
               (\<lambda>_. Success 201 d) (st\<lparr>ds_dashboards := ds_dashboards st @ [d]\<rparr>)))"

definition apply_dashboard_update :: "instant \<Rightarrow> dashboard_update \<Rightarrow> dashboard \<Rightarrow> dashboard" where
  "apply_dashboard_update now u d =
     (let titled = (case du_title u of Some t \<Rightarrow> d\<lparr>db_title := t\<rparr> | None \<Rightarrow> d);
          described = (case du_description u of Some x \<Rightarrow> titled\<lparr>db_description := x\<rparr> | None \<Rightarrow> titled)
      in if described = d then d else described\<lparr>db_updated_at := now\<rparr>)"

definition update_dashboard ::
  "dash_request \<Rightarrow> uuid \<Rightarrow> json \<Rightarrow> dash_store \<Rightarrow> dashboard http \<times> dash_store" where
  "update_dashboard rq dashboard_id payload st =
     (if \<not> rq_csrf_ok rq then (Refused csrf_error_response, st)
      else case parse_dashboard_update_payload payload of
        Inl e \<Rightarrow> (Refused e, st)
      | Inr u \<Rightarrow>
     (case dashboard_management_error (live_dashboard st dashboard_id) (rq_user rq) (rq_ctx rq) of
        Inl e \<Rightarrow> (Refused e, st)
      | Inr d \<Rightarrow>
          commit_or rq (Refused dashboard_mutation_failed_response) st
            (\<lambda>_. Success 200 (apply_dashboard_update (rq_db_now rq) u d))
            (update_dashboard_row (db_id d) (apply_dashboard_update (rq_db_now rq) u) st)))"

definition archive_row :: "instant \<Rightarrow> dashboard \<Rightarrow> dashboard" where
  "archive_row now d = d\<lparr>db_is_archived := True, db_updated_at := now\<rparr>"

definition archive_dashboard ::
  "dash_request \<Rightarrow> uuid \<Rightarrow> dash_store \<Rightarrow> uuid http \<times> dash_store" where
  "archive_dashboard rq dashboard_id st =
     (if \<not> rq_csrf_ok rq then (Refused csrf_error_response, st)
      else case dashboard_management_error (live_dashboard st dashboard_id) (rq_user rq) (rq_ctx rq) of
        Inl e \<Rightarrow> (Refused e, st)
      | Inr d \<Rightarrow>
          commit_or rq (Refused dashboard_mutation_failed_response) st
            (\<lambda>_. Success 200 (db_id d))
            (update_dashboard_row (db_id d) (archive_row (rq_db_now rq)) st))"

fun copy_cards ::
  "dash_request \<Rightarrow> uuid \<Rightarrow> nat \<Rightarrow> dashboard_card list \<Rightarrow> py_exn + dashboard_card list" where
  "copy_cards rq dashboard_id n [] = Inr []"
| "copy_cards rq dashboard_id n (source # sources) =
     result_bind (safe_visualization_for_card source) (\<lambda>vz.
     result_bind (copy_cards rq dashboard_id (Suc n) sources) (\<lambda>copies.
       Inr (\<lparr>dc_id = rq_new_id rq (Suc n), dc_dashboard_id = dashboard_id,
             dc_saved_query_id = dc_saved_query_id source, dc_title = dc_title source,
             dc_description = dc_description source, dc_card_type = vz_type vz,
             dc_position = int n, dc_layout = JNull, dc_config = config_json vz,
             dc_created_at = rq_db_now rq, dc_updated_at = rq_db_now rq\<rparr> # copies)))"

definition dashboard_copy :: "dash_request \<Rightarrow> dashboard \<Rightarrow> dashboard" where
  "dashboard_copy rq source =
     \<lparr>db_id = rq_new_id rq 0, db_owner_user_id = Some (au_id (rq_user rq)),
      db_title = bounded_copy_title ''Copy of '' (db_title source),
      db_description = db_description source, db_visibility_scope = ''personal'',
      db_department_id = None, db_is_archived = False, db_layout_version = 1,
      db_created_at = rq_db_now rq, db_updated_at = rq_db_now rq\<rparr>"

definition duplicate_dashboard ::
  "dash_request \<Rightarrow> uuid \<Rightarrow> json \<Rightarrow> dash_store \<Rightarrow> dashboard http \<times> dash_store" where
  "duplicate_dashboard rq dashboard_id payload st =
     (if \<not> rq_csrf_ok rq then (Refused csrf_error_response, st)
      else if \<not> is_dict payload \<or> jkeys payload \<noteq> {}
      then (Refused invalid_dashboard_duplicate_request_response, st)
      else if \<not> has_permission (rq_ctx rq) ''can_create_personal_dashboard''
      then (Refused forbidden_response, st)
      else case live_dashboard st dashboard_id of
        None \<Rightarrow> (Refused dashboard_not_found_response, st)
      | Some source \<Rightarrow>
          if \<not> dashboard_is_visible source (rq_user rq) (rq_ctx rq)
          then (Refused dashboard_not_found_response, st)
          else
            let d = dashboard_copy rq source
            in case copy_cards rq (db_id d) 0 (cards_of st (db_id source)) of
                 Inl exn \<Rightarrow> (Raised exn, st)
               | Inr copies \<Rightarrow>
                   (case normalize_card_layouts copies of
                      Inl exn \<Rightarrow> (Raised exn, st)
                    | Inr layouts \<Rightarrow>
                        commit_or rq (Refused dashboard_mutation_failed_response) st
                          (\<lambda>_. Success 201 d)
                          (st\<lparr>ds_dashboards := ds_dashboards st @ [d],
                              ds_cards := ds_cards st @ map (with_layouts layouts) copies\<rparr>)))"

section \<open>Saved queries\<close>

definition saved_query_row ::
  "dash_request \<Rightarrow> save_card_payload \<Rightarrow> query_run \<Rightarrow> dashboard \<Rightarrow> saved_query" where
  "saved_query_row rq parsed run d =
     (let title = title_for_saved_card parsed run
      in \<lparr>sq_id = rq_new_id rq 0, sq_owner_user_id = Some (au_id (rq_user rq)), sq_name = title,
          sq_description = Option.bind (sv_description parsed) id,
          sq_natural_language_question = natural_language_question_for_saved_query run title,
          sq_generated_sql = qr_generated_sql run, sq_visibility_scope = db_visibility_scope d,
          sq_department_id = db_department_id d, sq_parameters = JDict [], sq_result_schema = JNull\<rparr>)"

definition saved_card_row ::
  "dash_request \<Rightarrow> save_card_payload \<Rightarrow> query_run \<Rightarrow> dashboard \<Rightarrow> int \<Rightarrow> dashboard_card" where
  "saved_card_row rq parsed run d position =
     \<lparr>dc_id = rq_new_id rq 1, dc_dashboard_id = db_id d, dc_saved_query_id = Some (rq_new_id rq 0),
      dc_title = title_for_saved_card parsed run, dc_description = Option.bind (sv_description parsed) id,
      dc_card_type = sv_card_type parsed, dc_position = position, dc_layout = JNull,
      dc_config = config_json (default_visualization ''table''),
      dc_created_at = rq_db_now rq, dc_updated_at = rq_db_now rq\<rparr>"

text \<open>
  The \<open>title\<close> and \<open>name\<close> columns hold 255 characters: the database rejects a longer value when
  the row is flushed, and the handler does not catch that.
\<close>

definition save_query_run_as_card ::
  "dash_request \<Rightarrow> uuid \<Rightarrow> json \<Rightarrow> dash_store \<Rightarrow> dashboard_card http \<times> dash_store" where
  "save_query_run_as_card rq run_id payload st =
     (if \<not> rq_csrf_ok rq then (Refused csrf_error_response, st)
      else case parse_save_card_payload payload of
        Inl e \<Rightarrow> (Refused e, st)
      | Inr parsed \<Rightarrow>
          if \<not> has_permission (rq_ctx rq) ''can_create_card'' then (Refused forbidden_response, st)
          else (case find_by qr_id run_id (ds_runs st) of
        None \<Rightarrow> (Refused query_run_not_found_response, st)
      | Some run \<Rightarrow>
          if qr_user_id run \<noteq> Some (au_id (rq_user rq)) then (Refused query_run_not_found_response, st)
          else if \<not> query_run_can_be_saved run then (Refused query_run_not_saveable_response, st)
          else (case dashboard_by_id st (sv_dashboard_id parsed) of
        None \<Rightarrow> (Refused dashboard_not_found_response, st)
      | Some d \<Rightarrow>
          if db_is_archived d then (Refused dashboard_not_found_response, st)
          else if \<not> can_save_card_to_dashboard d (rq_user rq) (rq_ctx rq)
          then (Refused forbidden_response, st)
          else
            let title = title_for_saved_card parsed run;
                saved = saved_query_row rq parsed run d;
                dc = saved_card_row rq parsed run d (next_card_position st (db_id d))
            in if length title > 255 then (Raised SQLAlchemyError, st)
               else commit_or rq (Raised SQLAlchemyError) st
                 (\<lambda>_. Success 201 dc)
                 (update_dashboard_row (db_id d) (bump_version (rq_now rq))
                    (st\<lparr>ds_saved := ds_saved st @ [saved], ds_cards := ds_cards st @ [dc],
                        ds_runs := map (\<lambda>r. if qr_id r = run_id
                                            then r\<lparr>qr_saved_query_id := Some (sq_id saved)\<rparr> else r)
                                     (ds_runs st)\<rparr>)))))"

text \<open>
  The latest successful run of a saved query: by completion, then creation, then id, all
  descending, runs without a completion time last.
\<close>

definition run_rank :: "query_run \<Rightarrow> bool \<times> instant \<times> instant \<times> uuid" where
  "run_rank run =
     (case qr_completed_at run of
        None \<Rightarrow> (False, 0, qr_created_at run, qr_id run)
      | Some c \<Rightarrow> (True, c, qr_created_at run, qr_id run))"

definition latest_successful_query_run :: "dash_store \<Rightarrow> uuid \<Rightarrow> query_run option" where
  "latest_successful_query_run st saved_id =
     (case rev (sort_key run_rank
                  (filter (\<lambda>r. qr_saved_query_id r = Some saved_id \<and> qr_status r = ''succeeded'')
                     (ds_runs st))) of
        [] \<Rightarrow> None
      | r # _ \<Rightarrow> Some r)"

definition blank :: "string option \<Rightarrow> bool" where
  "blank s = (case s of None \<Rightarrow> True | Some t \<Rightarrow> py_strip t = [])"

definition get_card_source :: "dash_request \<Rightarrow> uuid \<Rightarrow> dash_store \<Rightarrow> (string \<times> string) http" where
  "get_card_source rq card_id st =
     (case card_by_id st card_id of
        None \<Rightarrow> Refused card_not_found_response
      | Some dc \<Rightarrow>
     (case dashboard_by_id st (dc_dashboard_id dc) of
        None \<Rightarrow> Refused card_not_found_response
      | Some d \<Rightarrow>
          if \<not> dashboard_is_visible d (rq_user rq) (rq_ctx rq) then Refused card_not_found_response
          else if \<not> has_permission (rq_ctx rq) ''can_view_sql'' then Refused forbidden_response
          else (case Option.bind (dc_saved_query_id dc) (\<lambda>i. find_by sq_id i (ds_saved st)) of
        None \<Rightarrow> Refused card_source_not_found_response
      | Some saved \<Rightarrow>
     (case latest_successful_query_run st (sq_id saved) of
        None \<Rightarrow> Refused card_source_not_found_response
      | Some run \<Rightarrow>
          if blank (qr_executed_sql run) then Refused card_source_not_found_response
          else let question = (if blank (qr_natural_language_question run)
                               then Some (sq_natural_language_question saved)
                               else qr_natural_language_question run)
               in if blank question then Refused card_source_not_found_response
                  else Success 200 (py_strip (the question), py_strip (the (qr_executed_sql run)))))))"


section \<open>Reading dashboards\<close>

text \<open>A dashboard as a response shows it: its cards in order, each at its normalized layout.\<close>

record dashboard_view =
  vw_dashboard :: dashboard
  vw_cards :: "(dashboard_card \<times> layout) list"

definition dashboard_view_of :: "dash_store \<Rightarrow> dashboard \<Rightarrow> py_exn + dashboard_view" where
  "dashboard_view_of st d =
     (let cards = cards_of st (db_id d)
      in result_bind (normalize_card_layouts cards) (\<lambda>layouts.
           Inr \<lparr>vw_dashboard = d,
                vw_cards = map (\<lambda>dc. (dc, the (map_of layouts (dc_id dc)))) cards\<rparr>))"

definition http_of :: "py_exn + 'a \<Rightarrow> 'a http" where
  "http_of r = (case r of Inl exn \<Rightarrow> Raised exn | Inr x \<Rightarrow> Success 200 x)"

definition live_dashboards :: "dash_store \<Rightarrow> dashboard list" where
  "live_dashboards st =
     sort_key (\<lambda>d. (db_created_at d, db_id d)) (filter (\<lambda>d. \<not> db_is_archived d) (ds_dashboards st))"

definition dashboard_catalog :: "dash_request \<Rightarrow> dash_store \<Rightarrow> dashboard_view list http" where
  "dashboard_catalog rq st =
     http_of (traverse (dashboard_view_of st)
       (filter (\<lambda>d. dashboard_is_visible d (rq_user rq) (rq_ctx rq)) (live_dashboards st)))"

definition my_dashboard :: "dash_request \<Rightarrow> dash_store \<Rightarrow> dashboard_view list http" where
  "my_dashboard rq st =
     http_of (traverse (dashboard_view_of st) (filter (owns_personal rq) (live_dashboards st)))"

record dashboard_capabilities =
  cap_can_manage :: bool
  cap_can_duplicate :: bool
  cap_can_refresh_cards :: bool
  cap_can_export_cards :: bool
  cap_can_view_source :: bool
  cap_can_create_cards :: bool

definition capabilities_of :: "dashboard \<Rightarrow> app_user \<Rightarrow> user_access_context \<Rightarrow> dashboard_capabilities" where
  "capabilities_of d user ctx =
     \<lparr>cap_can_manage = dashboard_is_manageable d user ctx,
      cap_can_duplicate = has_permission ctx ''can_create_personal_dashboard'',
      cap_can_refresh_cards = has_permission ctx ''can_query_scoped_data'',
      cap_can_export_cards = has_permission ctx ''can_export_results'',
      cap_can_view_source = has_permission ctx ''can_view_sql'',
      cap_can_create_cards = (can_save_card_to_dashboard d user ctx \<and> has_permission ctx ''can_create_card'')\<rparr>"

definition dashboard_detail ::
  "dash_request \<Rightarrow> uuid \<Rightarrow> dash_store \<Rightarrow> (dashboard_view \<times> dashboard_capabilities) http" where
  "dashboard_detail rq dashboard_id st =
     (case live_dashboard st dashboard_id of
        None \<Rightarrow> Refused dashboard_not_found_response
      | Some d \<Rightarrow>
          if \<not> dashboard_is_visible d (rq_user rq) (rq_ctx rq) then Refused dashboard_not_found_response
          else http_of (result_bind (dashboard_view_of st d) (\<lambda>view.
                 Inr (view, capabilities_of d (rq_user rq) (rq_ctx rq)))))"

end
