(* ===== verification/Dashboard_Invariants.thy ===== *)
theory Dashboard_Invariants
  imports Dashboard_Routes
begin

text \<open>
  What the dashboard handlers keep: the store invariant under every handler, the layout
  version as a guard of the layouts, and who may change what.
\<close>

section \<open>The store invariant\<close>

definition card_ok :: "dashboard_card \<Rightarrow> bool" where
  "card_ok dc \<longleftrightarrow> is_ok (safe_visualization_for_card dc) \<and> 0 \<le> dc_position dc"

text \<open>Two cards of one dashboard never share a position.\<close>

definition positions_ok :: "dashboard_card list \<Rightarrow> bool" where
  "positions_ok cards \<longleftrightarrow>
     (\<forall>a \<in> set cards. \<forall>b \<in> set cards.
        dc_dashboard_id a = dc_dashboard_id b \<and> dc_position a = dc_position b \<longrightarrow> dc_id a = dc_id b)"

definition cards_ok :: "dashboard_card list \<Rightarrow> bool" where
  "cards_ok cards \<longleftrightarrow> distinct (map dc_id cards) \<and> list_all card_ok cards \<and> positions_ok cards"

definition dashboards_ok :: "dashboard list \<Rightarrow> bool" where
  "dashboards_ok ds \<longleftrightarrow> distinct (map db_id ds) \<and> list_all (\<lambda>d. 1 \<le> db_layout_version d) ds"

definition store_ok :: "dash_store \<Rightarrow> bool" where
  "store_ok st \<longleftrightarrow> dashboards_ok (ds_dashboards st) \<and> cards_ok (ds_cards st)"

text \<open>\<open>uuid4\<close> returns ids that no row has, each of them once.\<close>

definition fresh_ids :: "dash_request \<Rightarrow> dash_store \<Rightarrow> bool" where
  "fresh_ids rq st \<longleftrightarrow> inj (rq_new_id rq)
     \<and> range (rq_new_id rq) \<inter> (db_id ` set (ds_dashboards st) \<union> dc_id ` set (ds_cards st)
          \<union> dc_dashboard_id ` set (ds_cards st)) = {}"

section \<open>Rewriting the cards of one dashboard\<close>

text \<open>Everything a handler does to existing cards keeps their id and their dashboard.\<close>

definition keeps_identity :: "(dashboard_card \<Rightarrow> dashboard_card) \<Rightarrow> bool" where
  "keeps_identity f \<longleftrightarrow> (\<forall>dc. dc_id (f dc) = dc_id dc \<and> dc_dashboard_id (f dc) = dc_dashboard_id dc)"

lemma visualization_reads_config:
  "dc_config a = dc_config b \<Longrightarrow> dc_card_type a = dc_card_type b \<Longrightarrow>
     safe_visualization_for_card a = safe_visualization_for_card b"
  by (simp add: safe_visualization_for_card_def)

lemma touch_card_view:
  "dc_id (touch_card now old dc) = dc_id dc \<and> dc_dashboard_id (touch_card now old dc) = dc_dashboard_id dc
   \<and> dc_position (touch_card now old dc) = dc_position dc \<and> dc_config (touch_card now old dc) = dc_config dc
   \<and> dc_card_type (touch_card now old dc) = dc_card_type dc \<and> dc_layout (touch_card now old dc) = dc_layout dc
   \<and> dc_created_at (touch_card now old dc) = dc_created_at dc"
  by (auto simp: touch_card_def)

definition flush_card :: "instant \<Rightarrow> dash_store \<Rightarrow> dashboard_card \<Rightarrow> dashboard_card" where
  "flush_card now old dc =
     (case card_by_id old (dc_id dc) of None \<Rightarrow> dc | Some before \<Rightarrow> touch_card now before dc)"

lemma flush_card_view [simp]:
  "dc_id (flush_card now old dc) = dc_id dc" "dc_dashboard_id (flush_card now old dc) = dc_dashboard_id dc"
  "dc_position (flush_card now old dc) = dc_position dc" "dc_config (flush_card now old dc) = dc_config dc"
  "dc_card_type (flush_card now old dc) = dc_card_type dc" "dc_layout (flush_card now old dc) = dc_layout dc"
  "dc_created_at (flush_card now old dc) = dc_created_at dc"
  by (auto simp: flush_card_def touch_card_view split: option.split)

lemma flush_cards_simps [simp]:
  "ds_cards (flush_cards now old new) = map (flush_card now old) (ds_cards new)"
  "ds_dashboards (flush_cards now old new) = ds_dashboards new"
  "ds_runs (flush_cards now old new) = ds_runs new"
  "ds_saved (flush_cards now old new) = ds_saved new"
  by (simp_all add: flush_cards_def flush_card_def cong: option.case_cong)

lemma card_ok_view:
  "dc_config a = dc_config b \<Longrightarrow> dc_card_type a = dc_card_type b \<Longrightarrow> dc_position a = dc_position b \<Longrightarrow>
     card_ok a \<longleftrightarrow> card_ok b"
  by (simp add: card_ok_def visualization_reads_config [of a b])

lemma flush_cards_ok: "cards_ok (ds_cards (flush_cards now old new)) \<longleftrightarrow> cards_ok (ds_cards new)"
proof -
  have "card_ok (flush_card now old dc) \<longleftrightarrow> card_ok dc" for dc by (rule card_ok_view) simp_all
  then show ?thesis by (simp add: cards_ok_def positions_ok_def list_all_iff comp_def)
qed

lemma positions_assigned:
  assumes pos: "positions_ok cards" and f: "keeps_identity f" and ps: "distinct (map snd ps)"
    and assigned: "\<And>dc. dc \<in> set cards \<Longrightarrow> dc_dashboard_id dc = i \<Longrightarrow> (dc_id dc, dc_position (f dc)) \<in> set ps"
  shows "positions_ok (map (\<lambda>dc. if dc_dashboard_id dc = i then f dc else dc) cards)"
proof -
  let ?g = "\<lambda>dc. if dc_dashboard_id dc = i then f dc else dc"
  have id: "dc_id (?g dc) = dc_id dc" and dash: "dc_dashboard_id (?g dc) = dc_dashboard_id dc" for dc
    using f by (simp_all add: keeps_identity_def)
  have "dc_id (?g a) = dc_id (?g b)"
    if mem: "a \<in> set cards" "b \<in> set cards"
      and same: "dc_dashboard_id (?g a) = dc_dashboard_id (?g b) \<and> dc_position (?g a) = dc_position (?g b)"
    for a b
  proof (cases "dc_dashboard_id a = i")
    case True
    then have b: "dc_dashboard_id b = i" using same unfolding dash by simp
    from assigned [OF mem(1) True] assigned [OF mem(2) b] same True b
    have "(dc_id a, dc_position (f a)) \<in> set ps" "(dc_id b, dc_position (f a)) \<in> set ps" by simp_all
    with ps have "dc_id a = dc_id b" by (metis distinct_map fst_conv inj_onD snd_conv)
    then show ?thesis unfolding id .
  next
    case False
    then have b: "dc_dashboard_id b \<noteq> i" using same unfolding dash by simp
    have "dc_dashboard_id a = dc_dashboard_id b \<and> dc_position a = dc_position b"
      using same False b by simp
    then show ?thesis using mem pos unfolding id positions_ok_def by blast
  qed
  then show ?thesis unfolding positions_ok_def set_map by blast
qed

lemma cards_ok_rewritten:
  assumes ok: "cards_ok cards" and f: "keeps_identity f" and ps: "distinct (map snd ps)"
    and assigned: "\<And>dc. dc \<in> set cards \<Longrightarrow> dc_dashboard_id dc = i \<Longrightarrow> (dc_id dc, dc_position (f dc)) \<in> set ps"
    and each: "\<And>dc. dc \<in> set cards \<Longrightarrow> dc_dashboard_id dc = i \<Longrightarrow> card_ok (f dc)"
  shows "cards_ok (map (\<lambda>dc. if dc_dashboard_id dc = i then f dc else dc) cards)"
proof -
  have "map dc_id (map (\<lambda>dc. if dc_dashboard_id dc = i then f dc else dc) cards) = map dc_id cards"
    using f by (simp add: keeps_identity_def)
  moreover have "positions_ok (map (\<lambda>dc. if dc_dashboard_id dc = i then f dc else dc) cards)"
    using ok by (intro positions_assigned [OF _ f ps assigned]) (auto simp: cards_ok_def)
  moreover have "card_ok (if dc_dashboard_id dc = i then f dc else dc)" if "dc \<in> set cards" for dc
    using that each ok by (auto simp: cards_ok_def list_all_iff)
  ultimately show ?thesis using ok unfolding cards_ok_def list_all_iff set_map by (simp only:) blast
qed

lemma set_cards_of: "set (cards_of st i) = {dc \<in> set (ds_cards st). dc_dashboard_id dc = i}"
  by (auto simp: cards_of_def)

lemma distinct_cards_of: "distinct (map dc_id (ds_cards st)) \<Longrightarrow> distinct (map dc_id (cards_of st i))"
  unfolding cards_of_def by (intro distinct_ordered_cards distinct_map_filter)

section \<open>Positions derived from layouts\<close>

lemma derive_positions_facts:
  "fst ` set (derive_positions ls) = fst ` set ls"
  "map snd (derive_positions ls) = [0..<length ls]"
proof -
  let ?o = "sort_key (\<lambda>(i, l). (cy (l_desktop l), cx (l_desktop l), i)) ls"
  have "map fst (derive_positions ls) = map fst ?o" by (simp add: derive_positions_def Let_def)
  then have "set (map fst (derive_positions ls)) = set (map fst ?o)" by (simp only:)
  then show "fst ` set (derive_positions ls) = fst ` set ls" by simp
  show "map snd (derive_positions ls) = [0..<length ls]" by (simp add: derive_positions_def Let_def)
qed

lemma derive_positions_lookup:
  "i \<in> fst ` set ls \<Longrightarrow> \<exists>p. map_of (derive_positions ls) i = Some p"
  by (metis derive_positions_facts(1) map_of_eq_None_iff not_Some_eq)

lemma place_card_fields [simp]:
  "dc_id (place_card ls dc) = dc_id dc" "dc_dashboard_id (place_card ls dc) = dc_dashboard_id dc"
  "dc_config (place_card ls dc) = dc_config dc" "dc_card_type (place_card ls dc) = dc_card_type dc"
  "dc_created_at (place_card ls dc) = dc_created_at dc"
  by (auto simp: place_card_def with_layouts_def Let_def split: option.split)

definition int_positions :: "(uuid \<times> layout) list \<Rightarrow> (uuid \<times> int) list" where
  "int_positions ls = map (\<lambda>ip. (fst ip, int (snd ip))) (derive_positions ls)"

lemma place_card_position:
  assumes "dc_id dc \<in> fst ` set ls"
  shows "(dc_id dc, dc_position (place_card ls dc)) \<in> set (int_positions ls)"
proof -
  from derive_positions_lookup [OF assms] obtain p where p: "map_of (derive_positions ls) (dc_id dc) = Some p"
    by blast
  then have "(dc_id dc, p) \<in> set (derive_positions ls)" by (rule map_of_SomeD)
  with p show ?thesis by (force simp: place_card_def int_positions_def)
qed

lemma place_card_keeps: "keeps_identity (place_card ls)"
  by (simp add: keeps_identity_def)

lemma map_snd_int_positions: "map snd (int_positions ls) = map int [0..<length ls]"
  by (simp add: int_positions_def derive_positions_facts(2) [symmetric])

lemma distinct_int_positions: "distinct (map snd (int_positions ls))"
  unfolding map_snd_int_positions by (simp add: distinct_map)

lemma int_positions_nonneg: "(i, p) \<in> set (int_positions ls) \<Longrightarrow> 0 \<le> p"
  by (auto simp: int_positions_def)

lemma place_cards_ok:
  assumes ok: "cards_ok cards"
    and ids: "\<And>dc. dc \<in> set cards \<Longrightarrow> dc_dashboard_id dc = i \<Longrightarrow> dc_id dc \<in> fst ` set ls"
  shows "cards_ok (map (\<lambda>dc. if dc_dashboard_id dc = i then place_card ls dc else dc) cards)"
proof (rule cards_ok_rewritten [OF ok place_card_keeps distinct_int_positions])
  fix dc assume dc: "dc \<in> set cards" "dc_dashboard_id dc = i"
  note pos = place_card_position [OF ids [OF dc]]
  then show "(dc_id dc, dc_position (place_card ls dc)) \<in> set (int_positions ls)" .
  from pos have "0 \<le> dc_position (place_card ls dc)" by (rule int_positions_nonneg)
  moreover have "card_ok dc" using ok dc(1) by (simp add: cards_ok_def list_all_iff)
  ultimately show "card_ok (place_card ls dc)"
    by (simp add: card_ok_def visualization_reads_config [of "place_card ls dc" dc])
qed


section \<open>What each handler writes\<close>

lemma managed_iff:
  "dashboard_management_error found user ctx = Inr d \<longleftrightarrow>
     found = Some d \<and> \<not> db_is_archived d \<and> dashboard_is_visible d user ctx
     \<and> dashboard_is_manageable d user ctx"
  by (auto simp: dashboard_management_error_def split: option.splits if_splits)

lemma live_dashboard_SomeD:
  "live_dashboard st i = Some d \<Longrightarrow> d \<in> set (ds_dashboards st) \<and> db_id d = i \<and> \<not> db_is_archived d"
  by (auto simp: live_dashboard_def dest: find_SomeD)

definition manages :: "dash_request \<Rightarrow> dash_store \<Rightarrow> dashboard \<Rightarrow> bool" where
  "manages rq st d \<longleftrightarrow> d \<in> set (ds_dashboards st) \<and> \<not> db_is_archived d
     \<and> dashboard_is_manageable d (rq_user rq) (rq_ctx rq)"

lemma managed_live:
  "dashboard_management_error (live_dashboard st i) (rq_user rq) (rq_ctx rq) = Inr d \<Longrightarrow>
     manages rq st d \<and> db_id d = i"
  by (auto simp: managed_iff manages_def dest: live_dashboard_SomeD)

lemma managed_owner:
  "dashboard_management_error (Some owner) (rq_user rq) (rq_ctx rq) = Inr d \<Longrightarrow>
     dashboard_by_id st i = Some owner \<Longrightarrow> manages rq st owner \<and> db_id owner = i"
  by (auto simp: managed_iff manages_def dashboard_by_id_def dest: find_by_SomeD)

lemma submitted_layouts_Some:
  "submitted_layouts cards items = Inr (Some ls) \<Longrightarrow>
     map fst ls = map ei_card_id items
     \<and> (\<forall>(i, l) \<in> set ls. \<exists>dc \<in> set cards. dc_id dc = i
          \<and> (\<exists>vtype. visualization_type_for_card dc = Inr vtype \<and> layout_fits vtype l))"
proof (induction items arbitrary: ls)
  case Nil
  then show ?case by simp
next
  case (Cons item items)
  from Cons.prems obtain dc vtype l rest where
    found: "find_by dc_id (ei_card_id item) cards = Some dc"
    and v: "visualization_type_for_card dc = Inr vtype"
    and l: "parse_layout_item
        (JDict [(''desktop'', ei_desktop item), (''tablet'', ei_tablet item),
                (''mobile'', ei_mobile item)]) vtype = Inr (Some l)"
    and rest: "submitted_layouts cards items = Inr (Some rest)"
    and ls: "ls = (ei_card_id item, l) # rest"
    by (auto simp: result_bind_Inr_iff split: option.splits)
  have "dc \<in> set cards \<and> dc_id dc = ei_card_id item" using find_by_SomeD [OF found] .
  with Cons.IH [OF rest] v parse_layout_item_fits [OF l] show ?case unfolding ls by auto
qed

lemma editor_effect:
  assumes "update_dashboard_editor_layout rq i payload st = (r, st')"
  shows "st' = st \<and> \<not> http_ok r \<or>
    (\<exists>d version items ls. manages rq st d \<and> db_id d = i
       \<and> parse_editor_layout_payload payload = Inr (version, items)
       \<and> db_layout_version d = version
       \<and> dc_id ` set (cards_of st i) = ei_card_id ` set items
       \<and> submitted_layouts (cards_of st i) items = Inr (Some ls) \<and> layouts_do_not_overlap ls
       \<and> r = Success 200 \<lparr>la_layout_version = version + 1, la_items = layout_items ls\<rparr>
       \<and> st' = flush_cards (rq_db_now rq) st
                 (update_dashboard_row i (bump_version (rq_now rq)) (update_cards i (place_card ls) st)))"
  using assms
  by (auto simp: update_dashboard_editor_layout_def commit_or_def Let_def dest!: managed_live
      split: if_split_asm sum.splits option.splits prod.splits)

lemma my_layout_effect:
  assumes "update_my_dashboard_layout rq payload st = (r, st')"
  shows "st' = st \<or> st' = flush_cards (rq_db_now rq) st st \<or>
    (\<exists>d items. d \<in> set (ds_dashboards st) \<and> owns_personal rq d
       \<and> parse_dashboard_layout_payload payload = Inr items
       \<and> dc_id ` set (cards_of st (db_id d)) = fst ` set items
       \<and> st' = flush_cards (rq_db_now rq) st
                 (update_dashboard_row (db_id d) (\<lambda>d. d\<lparr>db_updated_at := rq_now rq\<rparr>)
                    (update_cards (db_id d) (set_position items) st)))"
  using assms
  by (auto simp: update_my_dashboard_layout_def commit_or_def Let_def dest!: find_SomeD
      split: if_split_asm sum.splits option.splits list.splits)

lemma card_by_id_SomeD: "card_by_id st i = Some dc \<Longrightarrow> dc \<in> set (ds_cards st) \<and> dc_id dc = i"
  unfolding card_by_id_def by (rule find_by_SomeD)

lemma live_is_owner:
  assumes "distinct (map db_id (ds_dashboards st))" "manages rq st owner"
    and "live_dashboard st (db_id owner) = Some d"
  shows "d = owner"
  using assms live_dashboard_SomeD [OF assms(3)]
  by (auto simp: manages_def distinct_map inj_on_def)

definition updates_card ::
  "dash_request \<Rightarrow> dash_store \<Rightarrow> dashboard \<Rightarrow> uuid \<Rightarrow> card_update \<Rightarrow> dash_store \<Rightarrow> bool" where
  "updates_card rq st d card_id u st' \<longleftrightarrow>
     (let st1 = update_one_card card_id (apply_card_update u) st in
      if cu_visualization u = None
      then st' = update_dashboard_row (db_id d) (\<lambda>d. d\<lparr>db_updated_at := rq_now rq\<rparr>) st1
      else (\<exists>st2. relayout (db_id d) st1 = Inr st2
              \<and> st' = update_dashboard_row (db_id d) (bump_version (rq_now rq)) st2))"

lemma update_card_effect:
  assumes "update_card rq card_id payload st = (r, st')" and dist: "distinct (map db_id (ds_dashboards st))"
  shows "st' = st \<or>
    (\<exists>dc d u st2. manages rq st d \<and> dc \<in> set (ds_cards st) \<and> dc_id dc = card_id
       \<and> dc_dashboard_id dc = db_id d \<and> parse_card_update_payload payload = Inr (Inr u)
       \<and> updates_card rq st d card_id u st2 \<and> st' = flush_cards (rq_db_now rq) st st2)"
proof (cases "st' = st")
  case False
  with assms(1) obtain u dc owner d where
    u: "parse_card_update_payload payload = Inr (Inr u)"
    and dc: "card_by_id st card_id = Some dc" and owner: "dashboard_by_id st (dc_dashboard_id dc) = Some owner"
    and m: "\<exists>x. dashboard_management_error (Some owner) (rq_user rq) (rq_ctx rq) = Inr x"
    and live: "live_dashboard st (db_id owner) = Some d"
    and rest: "(case cu_visualization u of
             None \<Rightarrow>
               (let st2 = update_dashboard_row (db_id d) (\<lambda>d. d\<lparr>db_updated_at := rq_now rq\<rparr>)
                            (update_one_card card_id (apply_card_update u) st)
                in commit_or rq (Refused card_mutation_failed_response) st
                     (card_reply 200 card_id (db_id d)) st2)
           | Some vz \<Rightarrow>
               (case relayout (db_id d) (update_one_card card_id (apply_card_update u) st) of
                  Inl exn \<Rightarrow> (Raised exn, st)
                | Inr st2 \<Rightarrow>
                    let st3 = update_dashboard_row (db_id d) (bump_version (rq_now rq)) st2
                    in commit_or rq (Refused card_mutation_failed_response) st
                         (card_reply 200 card_id (db_id d)) st3)) = (r, st')"
    and same: "dc_dashboard_id dc = db_id d"
    unfolding update_card_def Let_def
    by (simp split: if_split_asm sum.splits option.splits)
  have mo: "manages rq st owner" using m managed_owner [OF _ owner] by blast
  have d: "d = owner" by (rule live_is_owner [OF dist mo live])
  from rest False obtain st2 where "updates_card rq st d card_id u st2" "st' = flush_cards (rq_db_now rq) st st2"
    by (auto simp: updates_card_def commit_or_def Let_def split: option.splits sum.splits if_split_asm)
  with mo d u same card_by_id_SomeD [OF dc] show ?thesis by blast
qed simp

definition adds_copy :: "dash_request \<Rightarrow> dash_store \<Rightarrow> dashboard \<Rightarrow> dashboard_card \<Rightarrow> dash_store \<Rightarrow> bool" where
  "adds_copy rq st d dup st' \<longleftrightarrow>
     (\<exists>st2. relayout (db_id d) (st\<lparr>ds_cards := ds_cards st @ [dup]\<rparr>) = Inr st2
        \<and> st' = update_dashboard_row (db_id d) (bump_version (rq_now rq)) st2)"

lemma duplicate_card_effect:
  assumes "duplicate_card rq card_id payload st = (r, st')" and dist: "distinct (map db_id (ds_dashboards st))"
  shows "st' = st \<or>
    (\<exists>d source vz st2. manages rq st d \<and> safe_visualization_for_card source = Inr vz
       \<and> adds_copy rq st d (card_copy rq source vz (db_id d) (next_card_position st (db_id d))) st2
       \<and> st' = flush_cards (rq_db_now rq) st st2)"
proof (cases "st' = st")
  case False
  with assms(1) obtain found owner d source vz where
    found: "card_by_id st card_id = Some found" and owner: "dashboard_by_id st (dc_dashboard_id found) = Some owner"
    and m: "\<exists>x. dashboard_management_error (Some owner) (rq_user rq) (rq_ctx rq) = Inr x"
    and live: "live_dashboard st (db_id owner) = Some d"
    and vz: "safe_visualization_for_card source = Inr vz"
    and rest: "(let dup = card_copy rq source vz (db_id d) (next_card_position st (db_id d))
          in case relayout (db_id d) (st\<lparr>ds_cards := ds_cards st @ [dup]\<rparr>) of
               Inl exn \<Rightarrow> (Raised exn, st)
             | Inr st2 \<Rightarrow>
                 let st3 = update_dashboard_row (db_id d) (bump_version (rq_now rq)) st2
                 in commit_or rq (Refused card_mutation_failed_response) st
                      (card_reply 201 (dc_id dup) (db_id d)) st3) = (r, st')"
    unfolding duplicate_card_def
    by (simp split: if_split_asm sum.splits option.splits add: Let_def)
  have mo: "manages rq st owner" using m managed_owner [OF _ owner] by blast
  have d: "d = owner" by (rule live_is_owner [OF dist mo live])
  from rest False obtain st2 where
    "adds_copy rq st d (card_copy rq source vz (db_id d) (next_card_position st (db_id d))) st2"
    "st' = flush_cards (rq_db_now rq) st st2"
    by (fastforce simp: adds_copy_def commit_or_def Let_def split: sum.splits if_split_asm)
  with mo d vz show ?thesis by blast
qed simp

lemma remove_card_effect:
  assumes "remove_card rq card_id st = (r, st')"
  shows "st' = st \<or>
    (\<exists>d. manages rq st d \<and> card_id \<in> dc_id ` set (cards_of st (db_id d))
       \<and> st' = flush_cards (rq_db_now rq) st
           (update_dashboard_row (db_id d) (bump_version (rq_now rq))
              (update_cards (db_id d)
                 (set_position (renumber 0 (filter (\<lambda>c. dc_id c \<noteq> card_id) (cards_of st (db_id d)))))
                 (st\<lparr>ds_cards := filter (\<lambda>c. dc_id c \<noteq> card_id) (ds_cards st)\<rparr>))))"
  using assms
  by (auto simp: remove_card_def commit_or_def Let_def dest!: managed_live find_by_SomeD
      split: if_split_asm sum.splits option.splits)


lemma create_dashboard_effect:
  assumes "create_dashboard rq payload st = (r, st')"
  shows "st' = st \<or>
    (\<exists>d. db_id d = rq_new_id rq 0 \<and> db_layout_version d = 1
       \<and> st' = flush_cards (rq_db_now rq) st (st\<lparr>ds_dashboards := ds_dashboards st @ [d]\<rparr>))"
  using assms
  by (auto simp: create_dashboard_def commit_or_def Let_def intro!: exI
      split: if_split_asm sum.splits option.splits prod.splits)

lemma update_dashboard_effect:
  assumes "update_dashboard rq i payload st = (r, st')"
  shows "st' = st \<or>
    (\<exists>d u. manages rq st d \<and> db_id d = i
       \<and> st' = flush_cards (rq_db_now rq) st
           (update_dashboard_row i (apply_dashboard_update (rq_db_now rq) u) st))"
  using assms
  by (auto simp: update_dashboard_def commit_or_def Let_def dest!: managed_live
      split: if_split_asm sum.splits option.splits)

lemma archive_dashboard_effect:
  assumes "archive_dashboard rq i st = (r, st')"
  shows "st' = st \<or>
    (\<exists>d. manages rq st d \<and> db_id d = i
       \<and> st' = flush_cards (rq_db_now rq) st (update_dashboard_row i (archive_row (rq_db_now rq)) st))"
  using assms
  by (auto simp: archive_dashboard_def commit_or_def Let_def dest!: managed_live
      split: if_split_asm sum.splits option.splits)

lemma duplicate_dashboard_effect:
  assumes "duplicate_dashboard rq i payload st = (r, st')"
  shows "st' = st \<or>
    (\<exists>source copies ls. copy_cards rq (rq_new_id rq 0) 0 (cards_of st (db_id source)) = Inr copies
       \<and> normalize_card_layouts copies = Inr ls
       \<and> st' = flush_cards (rq_db_now rq) st
           (st\<lparr>ds_dashboards := ds_dashboards st @ [dashboard_copy rq source],
               ds_cards := ds_cards st @ map (with_layouts ls) copies\<rparr>))"
proof (cases "st' = st")
  case False
  with assms show ?thesis
    unfolding duplicate_dashboard_def commit_or_def Let_def
    by (simp add: dashboard_copy_def split: if_split_asm sum.splits option.splits) blast
qed simp

lemma save_card_effect:
  assumes "save_query_run_as_card rq i payload st = (r, st')"
  shows "st' = st \<or>
    (\<exists>d parsed run runs saved. d \<in> set (ds_dashboards st) \<and> \<not> db_is_archived d
       \<and> can_save_card_to_dashboard d (rq_user rq) (rq_ctx rq)
       \<and> has_permission (rq_ctx rq) ''can_create_card''
       \<and> st' = flush_cards (rq_db_now rq) st
           (update_dashboard_row (db_id d) (bump_version (rq_now rq))
              (st\<lparr>ds_saved := saved,
                  ds_cards := ds_cards st @ [saved_card_row rq parsed run d (next_card_position st (db_id d))],
                  ds_runs := runs\<rparr>)))"
proof (cases "st' = st")
  case False
  with assms obtain d j parsed run runs saved where d: "dashboard_by_id st j = Some d" "\<not> db_is_archived d"
    "can_save_card_to_dashboard d (rq_user rq) (rq_ctx rq)" "has_permission (rq_ctx rq) ''can_create_card''"
    and rest: "st' = flush_cards (rq_db_now rq) st
           (update_dashboard_row (db_id d) (bump_version (rq_now rq))
              (st\<lparr>ds_saved := saved,
                  ds_cards := ds_cards st @ [saved_card_row rq parsed run d (next_card_position st (db_id d))],
                  ds_runs := runs\<rparr>))"
    unfolding save_query_run_as_card_def commit_or_def Let_def
    by (simp split: if_split_asm sum.splits option.splits) blast
  from d(1) have "d \<in> set (ds_dashboards st)" by (auto simp: dashboard_by_id_def dest: find_by_SomeD)
  with d rest show ?thesis by blast
qed simp


section \<open>The invariant under each kind of write\<close>

lemma safe_visualization_ok_config:
  "dc_config a = dc_config b \<Longrightarrow> is_ok (safe_visualization_for_card a) = is_ok (safe_visualization_for_card b)"
  by (auto simp: safe_visualization_for_card_def is_ok_iff result_bind_Inr_iff split: option.splits)

lemma in_str_set_string [simp]: "in_str_set (JStr s) names = Inr (s \<in> set names)"
  by (induction names) (auto simp: in_str_set_def)

lemma parse_stored_visualization: "is_ok (parse_visualization (visualization_json vz))"
  by (simp add: parse_visualization_def visualization_json_def)

lemma config_json_safe: "dc_config dc = config_json vz \<Longrightarrow> is_ok (safe_visualization_for_card dc)"
proof -
  assume "dc_config dc = config_json vz"
  moreover obtain parsed where "parse_visualization (visualization_json vz) = Inr parsed"
    using parse_stored_visualization [of vz] by (auto simp: is_ok_iff)
  ultimately show ?thesis
    by (simp add: safe_visualization_for_card_def config_json_def split: option.split)
qed

lemma update_dashboard_row_simps [simp]:
  "ds_cards (update_dashboard_row i f st) = ds_cards st"
  "ds_dashboards (update_dashboard_row i f st) = map (\<lambda>d. if db_id d = i then f d else d) (ds_dashboards st)"
  by (simp_all add: update_dashboard_row_def)

lemma update_cards_simps [simp]:
  "ds_cards (update_cards i f st) = map (\<lambda>dc. if dc_dashboard_id dc = i then f dc else dc) (ds_cards st)"
  "ds_dashboards (update_cards i f st) = ds_dashboards st"
  by (simp_all add: update_cards_def)

lemma update_one_card_simps [simp]:
  "ds_cards (update_one_card i f st) = map (\<lambda>dc. if dc_id dc = i then f dc else dc) (ds_cards st)"
  "ds_dashboards (update_one_card i f st) = ds_dashboards st"
  by (simp_all add: update_one_card_def)

text \<open>A write to a dashboard's row that keeps its id and never lowers its version.\<close>

definition row_write :: "(dashboard \<Rightarrow> dashboard) \<Rightarrow> bool" where
  "row_write f \<longleftrightarrow> (\<forall>d. db_id (f d) = db_id d \<and> db_layout_version d \<le> db_layout_version (f d))"

lemma row_writes:
  "row_write (bump_version now)" "row_write (\<lambda>d. d\<lparr>db_updated_at := now\<rparr>)"
  "row_write (archive_row now)" "row_write (apply_dashboard_update now u)"
  by (auto simp: row_write_def bump_version_def archive_row_def apply_dashboard_update_def Let_def
      split: option.split)

lemma dashboards_ok_write:
  "dashboards_ok ds \<Longrightarrow> row_write f \<Longrightarrow> dashboards_ok (map (\<lambda>d. if db_id d = i then f d else d) ds)"
proof -
  assume ok: "dashboards_ok ds" and f: "row_write f"
  have "map db_id (map (\<lambda>d. if db_id d = i then f d else d) ds) = map db_id ds"
    using f by (simp add: row_write_def)
  then have "distinct (map db_id (map (\<lambda>d. if db_id d = i then f d else d) ds))"
    using ok by (simp only: dashboards_ok_def)
  moreover have "1 \<le> db_layout_version (f d)" if "d \<in> set ds" for d
    using ok f that by (auto simp: dashboards_ok_def list_all_iff row_write_def intro: order_trans)
  ultimately show ?thesis using ok by (auto simp: dashboards_ok_def list_all_iff)
qed

lemma apply_card_update_fields [simp]:
  "dc_id (apply_card_update u dc) = dc_id dc" "dc_dashboard_id (apply_card_update u dc) = dc_dashboard_id dc"
  "dc_position (apply_card_update u dc) = dc_position dc"
  "dc_created_at (apply_card_update u dc) = dc_created_at dc"
  by (auto simp: apply_card_update_def Let_def split: option.split)

lemma apply_card_update_ok: "card_ok dc \<Longrightarrow> card_ok (apply_card_update u dc)"
proof (cases "cu_visualization u")
  case None
  assume "card_ok dc"
  moreover have "dc_config (apply_card_update u dc) = dc_config dc"
    using None by (auto simp: apply_card_update_def Let_def split: option.split)
  ultimately show ?thesis using safe_visualization_ok_config [of "apply_card_update u dc" dc]
    by (simp add: card_ok_def)
next
  case (Some vz)
  assume "card_ok dc"
  moreover have "dc_config (apply_card_update u dc) = config_json vz"
    using Some by (simp add: apply_card_update_def Let_def)
  ultimately show ?thesis using config_json_safe by (simp add: card_ok_def)
qed

lemma cards_ok_update_one:
  assumes "cards_ok cards"
  shows "cards_ok (map (\<lambda>dc. if dc_id dc = i then apply_card_update u dc else dc) cards)"
proof -
  let ?g = "\<lambda>dc. if dc_id dc = i then apply_card_update u dc else dc"
  have view: "dc_id (?g dc) = dc_id dc" "dc_dashboard_id (?g dc) = dc_dashboard_id dc"
    "dc_position (?g dc) = dc_position dc" for dc by simp_all
  have "map dc_id (map ?g cards) = map dc_id cards" by (simp add: view)
  then have "distinct (map dc_id (map ?g cards))" using assms by (simp only: cards_ok_def)
  moreover have "positions_ok (map ?g cards)"
    using assms unfolding cards_ok_def positions_ok_def set_map ball_simps view by blast
  moreover have "list_all card_ok (map ?g cards)"
    using assms apply_card_update_ok by (auto simp: cards_ok_def list_all_iff)
  ultimately show ?thesis by (simp only: cards_ok_def)
qed

lemma relayout_ok:
  assumes "relayout i st = Inr st2" and ok: "cards_ok (ds_cards st)"
  shows "cards_ok (ds_cards st2) \<and> ds_dashboards st2 = ds_dashboards st"
proof -
  from assms(1) obtain ls where ls: "normalize_card_layouts (cards_of st i) = Inr ls"
    and st2: "st2 = update_cards i (place_card ls) st"
    by (auto simp: relayout_def result_bind_Inr_iff)
  have "distinct (map dc_id (cards_of st i))"
    using ok by (intro distinct_cards_of) (simp add: cards_ok_def)
  from normalize_sound(1) [OF ls this] have "set (map fst ls) = dc_id ` set (cards_of st i)"
    by simp
  then have "dc_id dc \<in> fst ` set ls" if "dc \<in> set (ds_cards st)" "dc_dashboard_id dc = i" for dc
    using that by (auto simp: set_cards_of)
  from place_cards_ok [OF ok this] show ?thesis by (simp add: st2)
qed

lemma foldl_max_start: "p \<le> foldl max p ps" for p :: int
proof (induction ps arbitrary: p)
  case (Cons q ps)
  from Cons [of "max p q"] show ?case by simp
qed simp

lemma foldl_max_ge: "(x::int) \<in> set (p # ps) \<Longrightarrow> x \<le> foldl max p ps"
proof (induction ps arbitrary: p)
  case Nil
  then show ?case by simp
next
  case (Cons q ps)
  have "max p q \<le> foldl max (max p q) ps" by (rule foldl_max_start)
  then show ?case using Cons by auto
qed

lemma next_card_position_above:
  assumes "dc \<in> set (ds_cards st)" "dc_dashboard_id dc = i"
  shows "dc_position dc < next_card_position st i"
proof -
  have "dc_position dc \<in> set (map dc_position (cards_of st i))" using assms by (auto simp: set_cards_of)
  then show ?thesis using foldl_max_ge [of "dc_position dc"]
    by (fastforce simp: next_card_position_def split: list.splits)
qed

lemma next_card_position_nonneg:
  assumes "cards_ok (ds_cards st)"
  shows "0 \<le> next_card_position st i"
proof (cases "cards_of st i")
  case Nil
  then show ?thesis by (simp add: next_card_position_def)
next
  case (Cons dc dcs)
  then have "dc \<in> set (ds_cards st)" "dc_dashboard_id dc = i" using set_cards_of [of st i] by auto
  with assms have "0 \<le> dc_position dc" by (simp add: cards_ok_def list_all_iff card_ok_def)
  with next_card_position_above [of dc st i] \<open>dc \<in> set (ds_cards st)\<close> \<open>dc_dashboard_id dc = i\<close>
  show ?thesis by linarith
qed

lemma cards_ok_append:
  assumes ok: "cards_ok (ds_cards st)" and new: "dc_id dc \<notin> dc_id ` set (ds_cards st)"
    and dash: "dc_dashboard_id dc = i" and pos: "dc_position dc = next_card_position st i"
    and safe: "is_ok (safe_visualization_for_card dc)"
  shows "cards_ok (ds_cards st @ [dc])"
proof -
  have above: "c \<in> set (ds_cards st) \<Longrightarrow> dc_dashboard_id c = dc_dashboard_id dc \<Longrightarrow>
      dc_position c \<noteq> dc_position dc" for c
    using next_card_position_above [of c st i] dash pos by auto
  have "positions_ok (ds_cards st @ [dc])"
    unfolding positions_ok_def
  proof (intro ballI impI)
    fix a b assume mem: "a \<in> set (ds_cards st @ [dc])" "b \<in> set (ds_cards st @ [dc])"
      and same: "dc_dashboard_id a = dc_dashboard_id b \<and> dc_position a = dc_position b"
    show "dc_id a = dc_id b"
    proof (cases "a \<in> set (ds_cards st) \<and> b \<in> set (ds_cards st)")
      case True
      with ok same show ?thesis by (auto simp: cards_ok_def positions_ok_def)
    next
      case False
      with mem same above show ?thesis by (metis Un_iff empty_iff insert_iff list.set set_append)
    qed
  qed
  with ok new safe next_card_position_nonneg [OF ok] pos show ?thesis
    by (auto simp: cards_ok_def card_ok_def)
qed

lemma set_position_fields [simp]:
  "dc_id (set_position ps dc) = dc_id dc" "dc_dashboard_id (set_position ps dc) = dc_dashboard_id dc"
  "dc_config (set_position ps dc) = dc_config dc" "dc_card_type (set_position ps dc) = dc_card_type dc"
  "dc_layout (set_position ps dc) = dc_layout dc" "dc_created_at (set_position ps dc) = dc_created_at dc"
  by (auto simp: set_position_def split: option.split)

lemma set_position_ok:
  assumes ok: "cards_ok cards" and ps: "distinct (map snd ps)" and nonneg: "\<forall>p \<in> set (map snd ps). 0 \<le> p"
    and ids: "\<And>dc. dc \<in> set cards \<Longrightarrow> dc_dashboard_id dc = i \<Longrightarrow> dc_id dc \<in> fst ` set ps"
  shows "cards_ok (map (\<lambda>dc. if dc_dashboard_id dc = i then set_position ps dc else dc) cards)"
proof (rule cards_ok_rewritten [OF ok _ ps])
  show "keeps_identity (set_position ps)" by (simp add: keeps_identity_def)
  fix dc assume dc: "dc \<in> set cards" "dc_dashboard_id dc = i"
  from ids [OF dc] obtain p where p: "map_of ps (dc_id dc) = Some p"
    by (metis map_of_eq_None_iff not_Some_eq)
  then have "dc_position (set_position ps dc) = p" by (simp add: set_position_def)
  with map_of_SomeD [OF p] show mem: "(dc_id dc, dc_position (set_position ps dc)) \<in> set ps" by simp
  have "card_ok dc" using ok dc(1) by (simp add: cards_ok_def list_all_iff)
  with mem nonneg show "card_ok (set_position ps dc)"
    by (force simp: card_ok_def visualization_reads_config [of "set_position ps dc" dc])
qed

lemma renumber_facts: "map fst (renumber p dcs) = map dc_id dcs \<and> map snd (renumber p dcs) = map (\<lambda>n. p + int n) [0..<length dcs]"
proof (induction dcs arbitrary: p)
  case Nil
  then show ?case by simp
next
  case (Cons dc dcs)
  have "map (\<lambda>n. p + int n) [0..<Suc (length dcs)] = p # map (\<lambda>n. p + 1 + int n) [0..<length dcs]"
    by (simp add: upt_conv_Cons map_Suc_upt [symmetric] comp_def algebra_simps del: upt_Suc)
  with Cons show ?case by simp
qed

lemma cards_ok_filter: "cards_ok cards \<Longrightarrow> cards_ok (filter P cards)"
  by (auto simp: cards_ok_def positions_ok_def list_all_iff distinct_map_filter)


section \<open>The handlers as steps\<close>

inductive dash_step :: "dash_request \<Rightarrow> dash_store \<Rightarrow> dash_store \<Rightarrow> bool" for rq st st' where
  Edit_Layout: "update_dashboard_editor_layout rq i p st = (a, st') \<Longrightarrow> dash_step rq st st'"
| My_Layout: "update_my_dashboard_layout rq p st = (b, st') \<Longrightarrow> dash_step rq st st'"
| Update_Card: "update_card rq i p st = (c, st') \<Longrightarrow> dash_step rq st st'"
| Duplicate_Card: "duplicate_card rq i p st = (c, st') \<Longrightarrow> dash_step rq st st'"
| Remove_Card: "remove_card rq i st = (e, st') \<Longrightarrow> dash_step rq st st'"
| Create_Dashboard: "create_dashboard rq p st = (b, st') \<Longrightarrow> dash_step rq st st'"
| Update_Dashboard: "update_dashboard rq i p st = (b, st') \<Longrightarrow> dash_step rq st st'"
| Archive_Dashboard: "archive_dashboard rq i st = (f, st') \<Longrightarrow> dash_step rq st st'"
| Duplicate_Dashboard: "duplicate_dashboard rq i p st = (b, st') \<Longrightarrow> dash_step rq st st'"
| Save_Card: "save_query_run_as_card rq i p st = (g, st') \<Longrightarrow> dash_step rq st st'"

inductive dash_reachable :: "dash_store \<Rightarrow> dash_store \<Rightarrow> bool" for st0 where
  Start: "dash_reachable st0 st0"
| Step: "dash_reachable st0 st \<Longrightarrow> fresh_ids rq st \<Longrightarrow> dash_step rq st st' \<Longrightarrow> dash_reachable st0 st'"

lemma store_ok_flush: "store_ok (flush_cards now old new) \<longleftrightarrow> store_ok new"
  unfolding store_ok_def using flush_cards_ok by simp

lemma store_ok_row: "store_ok st \<Longrightarrow> row_write f \<Longrightarrow> store_ok (update_dashboard_row i f st)"
  using dashboards_ok_write by (simp add: store_ok_def)

lemma fst_order_items:
  "parse_dashboard_layout_payload payload = Inr items \<Longrightarrow>
     distinct (map fst items) \<and> distinct (map snd items) \<and> (\<forall>p \<in> set (map snd items). 0 \<le> p)"
proof -
  assume "parse_dashboard_layout_payload payload = Inr items"
  then obtain raw where raw: "parse_order_items raw [] [] = Some items"
    and "set (map snd items) = set (map int [0..<length items])"
    by (auto simp: parse_dashboard_layout_payload_def Let_def split: json.splits if_split_asm option.splits)
  then show ?thesis using parse_order_items_ids [OF raw] by auto
qed

lemma copy_cards_facts:
  "copy_cards rq i n sources = Inr copies \<Longrightarrow>
     map dc_id copies = map (\<lambda>k. rq_new_id rq (Suc (n + k))) [0..<length sources]
     \<and> map dc_position copies = map (\<lambda>k. int (n + k)) [0..<length sources]
     \<and> list_all (\<lambda>dc. dc_dashboard_id dc = i \<and> is_ok (safe_visualization_for_card dc)) copies"
proof (induction sources arbitrary: n copies)
  case Nil
  then show ?case by simp
next
  case (Cons source sources)
  from Cons.prems obtain vz rest where rest: "copy_cards rq i (Suc n) sources = Inr rest"
    and copies: "copies = \<lparr>dc_id = rq_new_id rq (Suc n), dc_dashboard_id = i,
             dc_saved_query_id = dc_saved_query_id source, dc_title = dc_title source,
             dc_description = dc_description source, dc_card_type = vz_type vz,
             dc_position = int n, dc_layout = JNull, dc_config = config_json vz,
             dc_created_at = rq_db_now rq, dc_updated_at = rq_db_now rq\<rparr> # rest"
    by (auto simp: result_bind_Inr_iff)
  have shift: "map (\<lambda>k. f (n + k)) [0..<Suc (length sources)]
      = f n # map (\<lambda>k. f (Suc n + k)) [0..<length sources]" for f :: "nat \<Rightarrow> 'z"
    by (simp add: upt_conv_Cons map_Suc_upt [symmetric] comp_def del: upt_Suc)
  have "is_ok (safe_visualization_for_card (hd copies))"
    by (rule config_json_safe [of _ vz]) (simp add: copies)
  with Cons.IH [OF rest] show ?case
    using shift [of "\<lambda>k. rq_new_id rq (Suc k)"] shift [of int]
    by (simp add: copies del: upt_Suc)
qed

lemma with_layouts_config [simp]:
  "dc_config (with_layouts ls dc) = dc_config dc" "dc_card_type (with_layouts ls dc) = dc_card_type dc"
  "dc_dashboard_id (with_layouts ls dc) = dc_dashboard_id dc"
  by (simp_all add: with_layouts_def split: option.split)

lemma cards_ok_with_layouts: "cards_ok (map (with_layouts ls) cards) \<longleftrightarrow> cards_ok cards"
proof -
  have "card_ok (with_layouts ls dc) \<longleftrightarrow> card_ok dc" for dc by (rule card_ok_view) simp_all
  then show ?thesis by (simp add: cards_ok_def positions_ok_def list_all_iff comp_def)
qed

lemma cards_ok_disjoint:
  assumes "cards_ok cards" "cards_ok copies" "dc_id ` set cards \<inter> dc_id ` set copies = {}"
    and "dc_dashboard_id ` set cards \<inter> dc_dashboard_id ` set copies = {}"
  shows "cards_ok (cards @ copies)"
proof -
  have "positions_ok (cards @ copies)"
    unfolding positions_ok_def
  proof (intro ballI impI)
    fix a b assume mem: "a \<in> set (cards @ copies)" "b \<in> set (cards @ copies)"
      and same: "dc_dashboard_id a = dc_dashboard_id b \<and> dc_position a = dc_position b"
    then have "a \<in> set cards \<and> b \<in> set cards \<or> a \<in> set copies \<and> b \<in> set copies"
      using assms(4) by (auto simp: disjoint_iff)
    then show "dc_id a = dc_id b" using same assms(1,2) unfolding cards_ok_def positions_ok_def by blast
  qed
  then show ?thesis using assms(1-3) by (auto simp: cards_ok_def)
qed

lemma copies_ok:
  assumes copies: "copy_cards rq i 0 sources = Inr copies" and inj: "inj (rq_new_id rq)"
  shows "cards_ok copies"
proof -
  note facts = copy_cards_facts [OF copies]
  have "distinct (map dc_id copies)" and pos: "distinct (map dc_position copies)"
    using inj facts by (auto simp: distinct_map inj_on_def)
  moreover have "positions_ok copies"
    using pos by (auto simp: positions_ok_def distinct_map inj_on_def)
  moreover have "0 \<le> dc_position dc" if "dc \<in> set copies" for dc
  proof -
    have "dc_position dc \<in> set (map dc_position copies)" using that by simp
    then show ?thesis using facts by auto
  qed
  ultimately show ?thesis using facts by (auto simp: cards_ok_def card_ok_def list_all_iff)
qed


lemma store_ok_parts:
  "store_ok st \<Longrightarrow> distinct (map db_id (ds_dashboards st)) \<and> cards_ok (ds_cards st)
     \<and> dashboards_ok (ds_dashboards st) \<and> distinct (map dc_id (ds_cards st))"
  by (simp add: store_ok_def dashboards_ok_def cards_ok_def)

lemma fresh_idsD:
  "fresh_ids rq st \<Longrightarrow> rq_new_id rq n \<notin> dc_id ` set (ds_cards st)
     \<and> rq_new_id rq n \<notin> db_id ` set (ds_dashboards st)
     \<and> rq_new_id rq n \<notin> dc_dashboard_id ` set (ds_cards st)"
  by (auto simp: fresh_ids_def)

lemma editor_ok: "update_dashboard_editor_layout rq i p st = (r, st') \<Longrightarrow> store_ok st \<Longrightarrow> store_ok st'"
proof (drule editor_effect, elim disjE exE conjE)
  fix d version items ls
  assume ok: "store_ok st" and ids: "dc_id ` set (cards_of st i) = ei_card_id ` set items"
    and ls: "submitted_layouts (cards_of st i) items = Inr (Some ls)"
    and st': "st' = flush_cards (rq_db_now rq) st
        (update_dashboard_row i (bump_version (rq_now rq)) (update_cards i (place_card ls) st))"
  have "fst ` set ls = ei_card_id ` set items"
    using submitted_layouts_Some [OF ls] by (metis image_set)
  with ids have "dc_id dc \<in> fst ` set ls" if "dc \<in> set (ds_cards st)" "dc_dashboard_id dc = i" for dc
    using that by (auto simp: set_cards_of)
  then have "cards_ok (ds_cards (update_cards i (place_card ls) st))"
    using place_cards_ok store_ok_parts [OF ok] by simp
  then show "store_ok st'" unfolding st' store_ok_flush
    using store_ok_parts [OF ok] by (intro store_ok_row row_writes) (simp add: store_ok_def)
qed simp

lemma my_layout_ok: "update_my_dashboard_layout rq p st = (r, st') \<Longrightarrow> store_ok st \<Longrightarrow> store_ok st'"
proof (drule my_layout_effect, elim disjE exE conjE)
  fix d items
  assume ok: "store_ok st" and items: "parse_dashboard_layout_payload p = Inr items"
    and ids: "dc_id ` set (cards_of st (db_id d)) = fst ` set items"
    and st': "st' = flush_cards (rq_db_now rq) st
        (update_dashboard_row (db_id d) (\<lambda>d. d\<lparr>db_updated_at := rq_now rq\<rparr>)
           (update_cards (db_id d) (set_position items) st))"
  have "cards_ok (ds_cards (update_cards (db_id d) (set_position items) st))"
    using set_position_ok [of "ds_cards st" items "db_id d"] fst_order_items [OF items] ids
      store_ok_parts [OF ok] by (fastforce simp: set_cards_of)
  then show "store_ok st'" unfolding st' store_ok_flush
    using store_ok_parts [OF ok] by (intro store_ok_row row_writes) (simp add: store_ok_def)
qed (simp_all add: store_ok_flush)

lemma update_card_ok: "update_card rq i p st = (r, st') \<Longrightarrow> store_ok st \<Longrightarrow> store_ok st'"
proof (drule update_card_effect)
  assume ok: "store_ok st"
  then show "distinct (map db_id (ds_dashboards st))" by (simp add: store_ok_parts)
next
  assume ok: "store_ok st"
    and "st' = st \<or> (\<exists>dc d u st2. manages rq st d \<and> dc \<in> set (ds_cards st) \<and> dc_id dc = i
       \<and> dc_dashboard_id dc = db_id d \<and> parse_card_update_payload p = Inr (Inr u)
       \<and> updates_card rq st d i u st2 \<and> st' = flush_cards (rq_db_now rq) st st2)"
  then consider "st' = st" | d u st2 where "updates_card rq st d i u st2" "st' = flush_cards (rq_db_now rq) st st2"
    by blast
  then show "store_ok st'"
  proof cases
    case 2
    let ?st1 = "update_one_card i (apply_card_update u) st"
    have st1: "store_ok ?st1" using ok cards_ok_update_one by (simp add: store_ok_def)
    have "store_ok st2"
    proof (cases "cu_visualization u = None")
      case True
      with 2(1) st1 show ?thesis by (simp add: updates_card_def Let_def store_ok_row row_writes)
    next
      case False
      with 2(1) obtain st3 where st3: "relayout (db_id d) ?st1 = Inr st3"
        and st2: "st2 = update_dashboard_row (db_id d) (bump_version (rq_now rq)) st3"
        by (auto simp: updates_card_def Let_def)
      have "store_ok st3" using relayout_ok [OF st3] st1 by (simp add: store_ok_def)
      then show ?thesis unfolding st2 by (intro store_ok_row row_writes)
    qed
    then show ?thesis by (simp add: 2(2) store_ok_flush)
  qed (simp add: ok)
qed

lemma duplicate_card_ok:
  "duplicate_card rq i p st = (r, st') \<Longrightarrow> fresh_ids rq st \<Longrightarrow> store_ok st \<Longrightarrow> store_ok st'"
proof (drule duplicate_card_effect)
  assume ok: "store_ok st"
  then show "distinct (map db_id (ds_dashboards st))" by (simp add: store_ok_parts)
next
  assume ok: "store_ok st" and fresh: "fresh_ids rq st"
    and "st' = st \<or> (\<exists>d source vz st2. manages rq st d \<and> safe_visualization_for_card source = Inr vz
       \<and> adds_copy rq st d (card_copy rq source vz (db_id d) (next_card_position st (db_id d))) st2
       \<and> st' = flush_cards (rq_db_now rq) st st2)"
  then consider "st' = st" | d source vz st2 where
    "adds_copy rq st d (card_copy rq source vz (db_id d) (next_card_position st (db_id d))) st2"
    "st' = flush_cards (rq_db_now rq) st st2"
    by blast
  then show "store_ok st'"
  proof cases
    case 2
    let ?dup = "card_copy rq source vz (db_id d) (next_card_position st (db_id d))"
    from 2(1) obtain st3 where st3: "relayout (db_id d) (st\<lparr>ds_cards := ds_cards st @ [?dup]\<rparr>) = Inr st3"
      and st2: "st2 = update_dashboard_row (db_id d) (bump_version (rq_now rq)) st3"
      by (auto simp: adds_copy_def)
    have "is_ok (safe_visualization_for_card ?dup)"
      by (rule config_json_safe [of _ vz]) (simp add: card_copy_def)
    then have "cards_ok (ds_cards st @ [?dup])"
      using store_ok_parts [OF ok] fresh_idsD [OF fresh] by (intro cards_ok_append) (simp_all add: card_copy_def)
    then have "store_ok st3" using relayout_ok [OF st3] ok by (simp add: store_ok_def)
    then show ?thesis unfolding 2(2) st2 store_ok_flush by (intro store_ok_row row_writes)
  qed (simp add: ok)
qed

lemma remove_card_ok: "remove_card rq i st = (r, st') \<Longrightarrow> store_ok st \<Longrightarrow> store_ok st'"
proof (drule remove_card_effect, elim disjE exE conjE)
  fix d
  let ?rest = "filter (\<lambda>c. dc_id c \<noteq> i) (cards_of st (db_id d))"
  assume ok: "store_ok st"
    and st': "st' = flush_cards (rq_db_now rq) st
           (update_dashboard_row (db_id d) (bump_version (rq_now rq))
              (update_cards (db_id d) (set_position (renumber 0 ?rest))
                 (st\<lparr>ds_cards := filter (\<lambda>c. dc_id c \<noteq> i) (ds_cards st)\<rparr>)))"
  have "cards_ok (filter (\<lambda>c. dc_id c \<noteq> i) (ds_cards st))"
    using store_ok_parts [OF ok] by (intro cards_ok_filter) simp
  moreover have "dc_id dc \<in> fst ` set (renumber 0 ?rest)"
    if "dc \<in> set (filter (\<lambda>c. dc_id c \<noteq> i) (ds_cards st))" "dc_dashboard_id dc = db_id d" for dc
  proof -
    have "dc_id dc \<in> set (map dc_id ?rest)" using that by (auto simp: set_cards_of)
    then show ?thesis using renumber_facts [of 0 ?rest] by (metis image_set)
  qed
  ultimately have "cards_ok (ds_cards (update_cards (db_id d) (set_position (renumber 0 ?rest))
                 (st\<lparr>ds_cards := filter (\<lambda>c. dc_id c \<noteq> i) (ds_cards st)\<rparr>)))"
    using renumber_facts [of 0 ?rest]
    by (simp only: update_cards_simps dash_store.simps) (rule set_position_ok; auto simp: distinct_map)
  then show "store_ok st'" unfolding st' store_ok_flush
    using store_ok_parts [OF ok] by (intro store_ok_row row_writes) (simp add: store_ok_def)
qed simp


lemma dashboards_ok_append:
  "dashboards_ok ds \<Longrightarrow> db_id d \<notin> db_id ` set ds \<Longrightarrow> 1 \<le> db_layout_version d \<Longrightarrow> dashboards_ok (ds @ [d])"
  by (auto simp: dashboards_ok_def)

lemma create_dashboard_ok:
  "create_dashboard rq p st = (r, st') \<Longrightarrow> fresh_ids rq st \<Longrightarrow> store_ok st \<Longrightarrow> store_ok st'"
proof (drule create_dashboard_effect, elim disjE exE conjE)
  fix d
  assume fresh: "fresh_ids rq st" and ok: "store_ok st" and d: "db_id d = rq_new_id rq 0" "db_layout_version d = 1"
    and st': "st' = flush_cards (rq_db_now rq) st (st\<lparr>ds_dashboards := ds_dashboards st @ [d]\<rparr>)"
  have "dashboards_ok (ds_dashboards st @ [d])"
    using ok d fresh_idsD [OF fresh, of 0] by (intro dashboards_ok_append) (auto simp: store_ok_def)
  then show "store_ok st'" unfolding st' store_ok_flush using ok by (simp add: store_ok_def)
qed simp

lemma update_dashboard_ok: "update_dashboard rq i p st = (r, st') \<Longrightarrow> store_ok st \<Longrightarrow> store_ok st'"
  by (drule update_dashboard_effect) (auto simp: store_ok_flush intro!: store_ok_row row_writes)

lemma archive_dashboard_ok: "archive_dashboard rq i st = (r, st') \<Longrightarrow> store_ok st \<Longrightarrow> store_ok st'"
  by (drule archive_dashboard_effect) (auto simp: store_ok_flush intro!: store_ok_row row_writes)

lemma duplicate_dashboard_ok:
  "duplicate_dashboard rq i p st = (r, st') \<Longrightarrow> fresh_ids rq st \<Longrightarrow> store_ok st \<Longrightarrow> store_ok st'"
proof (drule duplicate_dashboard_effect, elim disjE exE conjE)
  fix source copies ls
  assume fresh: "fresh_ids rq st" and ok: "store_ok st"
    and copies: "copy_cards rq (rq_new_id rq 0) 0 (cards_of st (db_id source)) = Inr copies"
    and st': "st' = flush_cards (rq_db_now rq) st
           (st\<lparr>ds_dashboards := ds_dashboards st @ [dashboard_copy rq source],
               ds_cards := ds_cards st @ map (with_layouts ls) copies\<rparr>)"
  note facts = copy_cards_facts [OF copies]
  have "dc_id ` set copies = set (map dc_id copies)" by simp
  also have "\<dots> \<subseteq> range (rq_new_id rq)" using facts by auto
  finally have ids: "dc_id ` set copies \<subseteq> range (rq_new_id rq)" .
  have dash: "dc_dashboard_id ` set copies \<subseteq> {rq_new_id rq 0}"
    using facts by (auto simp: list_all_iff)
  have "cards_ok (ds_cards st @ map (with_layouts ls) copies)"
  proof (rule cards_ok_disjoint)
    show "cards_ok (ds_cards st)" using ok by (simp add: store_ok_def)
    show "cards_ok (map (with_layouts ls) copies)"
      using copies_ok [OF copies] fresh by (simp add: cards_ok_with_layouts fresh_ids_def)
    show "dc_id ` set (ds_cards st) \<inter> dc_id ` set (map (with_layouts ls) copies) = {}"
      using ids fresh by (auto simp: fresh_ids_def image_image)
    show "dc_dashboard_id ` set (ds_cards st) \<inter> dc_dashboard_id ` set (map (with_layouts ls) copies) = {}"
      using dash fresh_idsD [OF fresh, of 0] by (auto simp: image_image) (metis image_eqI singletonD subsetD)
  qed
  moreover have "dashboards_ok (ds_dashboards st @ [dashboard_copy rq source])"
    using ok fresh_idsD [OF fresh, of 0] by (intro dashboards_ok_append) (auto simp: store_ok_def dashboard_copy_def)
  ultimately show "store_ok st'" unfolding st' store_ok_flush by (simp add: store_ok_def)
qed simp

lemma save_card_ok:
  "save_query_run_as_card rq i p st = (r, st') \<Longrightarrow> fresh_ids rq st \<Longrightarrow> store_ok st \<Longrightarrow> store_ok st'"
proof (drule save_card_effect, elim disjE exE conjE)
  fix d parsed run runs saved
  let ?dc = "saved_card_row rq parsed run d (next_card_position st (db_id d))"
  assume fresh: "fresh_ids rq st" and ok: "store_ok st"
    and st': "st' = flush_cards (rq_db_now rq) st
           (update_dashboard_row (db_id d) (bump_version (rq_now rq))
              (st\<lparr>ds_saved := saved, ds_cards := ds_cards st @ [?dc], ds_runs := runs\<rparr>))"
  have "is_ok (safe_visualization_for_card ?dc)"
    by (rule config_json_safe) (simp add: saved_card_row_def)
  then have "cards_ok (ds_cards st @ [?dc])"
    using store_ok_parts [OF ok] fresh_idsD [OF fresh] by (intro cards_ok_append) (simp_all add: saved_card_row_def)
  then show "store_ok st'" unfolding st' store_ok_flush
    using ok by (intro store_ok_row row_writes) (simp add: store_ok_def)
qed simp

lemma dash_step_ok: "dash_step rq st st' \<Longrightarrow> fresh_ids rq st \<Longrightarrow> store_ok st \<Longrightarrow> store_ok st'"
  by (induction rule: dash_step.induct)
    (blast intro: editor_ok my_layout_ok update_card_ok duplicate_card_ok remove_card_ok
      create_dashboard_ok update_dashboard_ok archive_dashboard_ok duplicate_dashboard_ok save_card_ok)+

text \<open>
  C9: Every store reachable through the dashboard handlers keeps the invariant: dashboard and card
  ids stay unique, layout versions stay positive, no two cards of a dashboard share a position, no
  position is negative, and no stored visualization makes the parser raise.
\<close>
theorem dashboard_store_invariant:
  assumes "dash_reachable st0 st" and "store_ok st0"
  shows "store_ok st"
  using assms by (induction rule: dash_reachable.induct) (auto intro: dash_step_ok)

section \<open>Who may write what\<close>

definition rows_of :: "dash_store \<Rightarrow> uuid \<Rightarrow> dashboard list" where
  "rows_of st i = filter (\<lambda>d. db_id d = i) (ds_dashboards st)"

definition cards_in :: "dash_store \<Rightarrow> uuid \<Rightarrow> dashboard_card list" where
  "cards_in st i = filter (\<lambda>dc. dc_dashboard_id dc = i) (ds_cards st)"

text \<open>A write confined to one dashboard leaves every other dashboard's row and cards alone.\<close>

definition confined :: "uuid \<Rightarrow> dash_store \<Rightarrow> dash_store \<Rightarrow> bool" where
  "confined i st st' \<longleftrightarrow> (\<forall>j. j \<noteq> i \<longrightarrow> rows_of st' j = rows_of st j \<and> cards_in st' j = cards_in st j)"

lemma confined_refl: "confined i st st"
  by (simp add: confined_def)

lemma confined_trans: "confined i st st1 \<Longrightarrow> confined i st1 st2 \<Longrightarrow> confined i st st2"
  by (simp add: confined_def)

lemma filter_map_other:
  "(\<And>x. x \<in> set xs \<Longrightarrow> key (g x) = key x) \<Longrightarrow> (\<And>x. x \<in> set xs \<Longrightarrow> key x = j \<Longrightarrow> g x = x) \<Longrightarrow>
     filter (\<lambda>x. key x = j) (map g xs) = filter (\<lambda>x. key x = j) xs"
  by (induction xs) auto

lemma confined_row: "row_write f \<Longrightarrow> confined i st (update_dashboard_row i f st)"
  by (auto simp: confined_def rows_of_def cards_in_def row_write_def intro!: filter_map_other)

lemma confined_cards: "keeps_identity f \<Longrightarrow> confined i st (update_cards i f st)"
  by (auto simp: confined_def rows_of_def cards_in_def keeps_identity_def intro!: filter_map_other)

lemma confined_flush:
  assumes ok: "cards_ok (ds_cards st)" and c: "confined i st new"
  shows "confined i st (flush_cards now st new)"
proof -
  have same: "flush_card now st dc = dc" if "dc \<in> set (ds_cards st)" for dc
    using find_by_distinct [of dc_id "ds_cards st" dc] ok that
    by (simp add: flush_card_def card_by_id_def cards_ok_def touch_card_def)
  have "cards_in (flush_cards now st new) j = map (flush_card now st) (cards_in new j)" for j
    by (simp add: cards_in_def filter_map comp_def)
  moreover have "map (flush_card now st) (cards_in st j) = cards_in st j" for j
    using same by (intro map_idI) (auto simp: cards_in_def)
  ultimately show ?thesis using c by (simp add: confined_def rows_of_def)
qed

definition may_write :: "dash_request \<Rightarrow> dashboard \<Rightarrow> bool" where
  "may_write rq d \<longleftrightarrow> \<not> db_is_archived d
     \<and> (dashboard_is_manageable d (rq_user rq) (rq_ctx rq) \<or> owns_personal rq d
        \<or> can_save_card_to_dashboard d (rq_user rq) (rq_ctx rq)
          \<and> has_permission (rq_ctx rq) ''can_create_card'')"

definition confined_write :: "dash_request \<Rightarrow> dash_store \<Rightarrow> dash_store \<Rightarrow> bool" where
  "confined_write rq st st' \<longleftrightarrow>
     (\<exists>i. confined i st st' \<and> (i \<in> range (rq_new_id rq)
        \<or> (\<exists>d \<in> set (ds_dashboards st). db_id d = i \<and> may_write rq d)))"

lemma confined_write_refl: "confined_write rq st st"
  using confined_refl by (auto simp: confined_write_def)

lemma confined_writeI:
  "cards_ok (ds_cards st) \<Longrightarrow> d \<in> set (ds_dashboards st) \<Longrightarrow> may_write rq d \<Longrightarrow>
     confined (db_id d) st new \<Longrightarrow> confined_write rq st (flush_cards now st new)"
  unfolding confined_write_def using confined_flush by blast

lemma may_write_manages: "manages rq st d \<Longrightarrow> may_write rq d \<and> d \<in> set (ds_dashboards st)"
  by (simp add: manages_def may_write_def)

lemma may_write_owns: "owns_personal rq d \<Longrightarrow> may_write rq d"
  by (simp add: may_write_def owns_personal_def)

lemma confined_update_one:
  assumes ok: "cards_ok (ds_cards st)" and dc: "dc \<in> set (ds_cards st)" "dc_id dc = k" "dc_dashboard_id dc = i"
  shows "confined i st (update_one_card k (apply_card_update u) st)"
proof -
  have "dc_dashboard_id x = i" if "x \<in> set (ds_cards st)" "dc_id x = k" for x
    using ok that dc by (auto simp: cards_ok_def distinct_map inj_on_def)
  then show ?thesis
    by (auto simp: confined_def rows_of_def cards_in_def intro!: filter_map_other)
qed

lemma confined_relayout: "relayout i st = Inr st2 \<Longrightarrow> confined i st st2"
  using confined_cards [OF place_card_keeps] by (auto simp: relayout_def result_bind_Inr_iff)


lemma updates_card_confined:
  assumes u: "updates_card rq st d k u st2" and ok: "cards_ok (ds_cards st)"
    and dc: "dc \<in> set (ds_cards st)" "dc_id dc = k" "dc_dashboard_id dc = db_id d"
  shows "confined (db_id d) st st2"
proof -
  let ?st1 = "update_one_card k (apply_card_update u) st"
  have st1: "confined (db_id d) st ?st1" by (rule confined_update_one [OF ok dc])
  show ?thesis
  proof (cases "cu_visualization u = None")
    case True
    with u have "st2 = update_dashboard_row (db_id d) (\<lambda>d. d\<lparr>db_updated_at := rq_now rq\<rparr>) ?st1"
      by (simp add: updates_card_def Let_def)
    then show ?thesis using st1 confined_row row_writes(2) by (metis confined_trans)
  next
    case False
    with u obtain st3 where "relayout (db_id d) ?st1 = Inr st3"
      "st2 = update_dashboard_row (db_id d) (bump_version (rq_now rq)) st3"
      by (auto simp: updates_card_def Let_def)
    then show ?thesis using st1 confined_relayout confined_row row_writes(1) by (metis confined_trans)
  qed
qed

lemma confined_append_card: "dc_dashboard_id dc = i \<Longrightarrow> confined i st (st\<lparr>ds_cards := ds_cards st @ [dc]\<rparr>)"
  by (auto simp: confined_def rows_of_def cards_in_def)

lemma editor_confined:
  assumes step: "update_dashboard_editor_layout rq i p st = (a, st')" and ok: "store_ok st"
  shows "confined_write rq st st'"
proof -
  from editor_effect [OF step] show ?thesis
  proof (elim disjE exE conjE)
    fix d version items ls
    assume d: "manages rq st d" "db_id d = i" and st': "st' = flush_cards (rq_db_now rq) st
        (update_dashboard_row i (bump_version (rq_now rq)) (update_cards i (place_card ls) st))"
    have "confined (db_id d) st
        (update_dashboard_row i (bump_version (rq_now rq)) (update_cards i (place_card ls) st))"
      unfolding d(2) by (rule confined_trans [OF confined_cards confined_row])
        (simp_all add: place_card_keeps row_writes)
    then show ?thesis unfolding st' using may_write_manages [OF d(1)] store_ok_parts [OF ok]
      by (intro confined_writeI) auto
  qed (simp add: confined_write_refl)
qed

lemma my_layout_confined:
  assumes step: "update_my_dashboard_layout rq p st = (a, st')" and ok: "store_ok st"
  shows "confined_write rq st st'"
proof -
  have flush: "confined_write rq st (flush_cards (rq_db_now rq) st st)"
    using confined_flush [OF _ confined_refl, of st "rq_new_id rq 0" "rq_db_now rq"] store_ok_parts [OF ok]
    unfolding confined_write_def by blast
  from my_layout_effect [OF step] show ?thesis
  proof (elim disjE exE conjE)
    fix d items
    assume d: "d \<in> set (ds_dashboards st)" "owns_personal rq d"
      and st': "st' = flush_cards (rq_db_now rq) st
        (update_dashboard_row (db_id d) (\<lambda>d. d\<lparr>db_updated_at := rq_now rq\<rparr>)
           (update_cards (db_id d) (set_position items) st))"
    have "confined (db_id d) st (update_dashboard_row (db_id d) (\<lambda>d. d\<lparr>db_updated_at := rq_now rq\<rparr>)
           (update_cards (db_id d) (set_position items) st))"
      by (rule confined_trans [OF confined_cards confined_row])
        (simp_all add: keeps_identity_def row_writes)
    then show ?thesis unfolding st' using d may_write_owns [OF d(2)] store_ok_parts [OF ok]
      by (intro confined_writeI) auto
  qed (simp_all add: confined_write_refl flush)
qed

lemma update_card_confined:
  assumes step: "update_card rq i p st = (a, st')" and ok: "store_ok st"
  shows "confined_write rq st st'"
proof -
  from update_card_effect [OF step conjunct1 [OF store_ok_parts [OF ok]]] store_ok_parts [OF ok] show ?thesis
    using confined_write_refl confined_writeI updates_card_confined may_write_manages by metis
qed

lemma duplicate_card_confined:
  assumes step: "duplicate_card rq i p st = (a, st')" and ok: "store_ok st"
  shows "confined_write rq st st'"
proof -
  from duplicate_card_effect [OF step conjunct1 [OF store_ok_parts [OF ok]]] show ?thesis
  proof (elim disjE exE conjE)
    fix d source vz st2
    assume d: "manages rq st d" and st': "st' = flush_cards (rq_db_now rq) st st2"
      and copy: "adds_copy rq st d (card_copy rq source vz (db_id d) (next_card_position st (db_id d))) st2"
    let ?dup = "card_copy rq source vz (db_id d) (next_card_position st (db_id d))"
    have "confined (db_id d) st (st\<lparr>ds_cards := ds_cards st @ [?dup]\<rparr>)"
      by (rule confined_append_card) (simp add: card_copy_def)
    then have "confined (db_id d) st st2"
      using copy confined_relayout confined_row [OF row_writes(1)] unfolding adds_copy_def
      by (metis confined_trans)
    then show ?thesis unfolding st' using may_write_manages [OF d] store_ok_parts [OF ok]
      by (intro confined_writeI) auto
  qed (auto simp: confined_write_refl)
qed

lemma remove_card_confined:
  assumes step: "remove_card rq i st = (a, st')" and ok: "store_ok st"
  shows "confined_write rq st st'"
proof -
  from remove_card_effect [OF step] show ?thesis
  proof (elim disjE exE conjE)
    fix d :: dashboard
    let ?rest = "filter (\<lambda>c. dc_id c \<noteq> i) (cards_of st (db_id d))"
    let ?st1 = "st\<lparr>ds_cards := filter (\<lambda>c. dc_id c \<noteq> i) (ds_cards st)\<rparr>"
    assume d: "manages rq st d" and mem: "i \<in> dc_id ` set (cards_of st (db_id d))"
      and st': "st' = flush_cards (rq_db_now rq) st
           (update_dashboard_row (db_id d) (bump_version (rq_now rq))
              (update_cards (db_id d) (set_position (renumber 0 ?rest)) ?st1))"
    have only: "dc_dashboard_id x = db_id d" if "x \<in> set (ds_cards st)" "dc_id x = i" for x
      using mem that store_ok_parts [OF ok] by (auto simp: set_cards_of distinct_map inj_on_def)
    then have "confined (db_id d) st ?st1"
      by (auto simp: confined_def rows_of_def cards_in_def intro!: filter_cong)
    moreover have "confined (db_id d) ?st1 (update_dashboard_row (db_id d) (bump_version (rq_now rq))
              (update_cards (db_id d) (set_position (renumber 0 ?rest)) ?st1))"
      by (rule confined_trans [OF confined_cards confined_row])
        (simp_all add: keeps_identity_def row_writes)
    ultimately show ?thesis unfolding st' using may_write_manages [OF d] store_ok_parts [OF ok]
      by (intro confined_writeI [OF _ _ _ confined_trans]) auto
  qed (simp add: confined_write_refl)
qed

lemma create_dashboard_confined:
  assumes step: "create_dashboard rq p st = (a, st')" and ok: "store_ok st"
  shows "confined_write rq st st'"
proof -
  from create_dashboard_effect [OF step] show ?thesis
  proof (elim disjE exE conjE)
    fix d
    assume d: "db_id d = rq_new_id rq 0"
      and st': "st' = flush_cards (rq_db_now rq) st (st\<lparr>ds_dashboards := ds_dashboards st @ [d]\<rparr>)"
    have "confined (rq_new_id rq 0) st (st\<lparr>ds_dashboards := ds_dashboards st @ [d]\<rparr>)"
      using d by (auto simp: confined_def rows_of_def cards_in_def)
    then show ?thesis unfolding st' confined_write_def
      using confined_flush store_ok_parts [OF ok] by blast
  qed (simp add: confined_write_refl)
qed

lemma update_dashboard_confined:
  assumes step: "update_dashboard rq i p st = (a, st')" and ok: "store_ok st"
  shows "confined_write rq st st'"
proof -
  from update_dashboard_effect [OF step] show ?thesis
    using confined_write_refl confined_writeI confined_row row_writes(4) may_write_manages store_ok_parts [OF ok]
    by metis
qed

lemma archive_dashboard_confined:
  assumes step: "archive_dashboard rq i st = (a, st')" and ok: "store_ok st"
  shows "confined_write rq st st'"
proof -
  from archive_dashboard_effect [OF step] show ?thesis
    using confined_write_refl confined_writeI confined_row row_writes(3) may_write_manages store_ok_parts [OF ok]
    by metis
qed

lemma duplicate_dashboard_confined:
  assumes step: "duplicate_dashboard rq i p st = (a, st')" and ok: "store_ok st"
  shows "confined_write rq st st'"
proof -
  from duplicate_dashboard_effect [OF step] show ?thesis
  proof (elim disjE exE conjE)
    fix source copies ls
    assume copies: "copy_cards rq (rq_new_id rq 0) 0 (cards_of st (db_id source)) = Inr copies"
      and st': "st' = flush_cards (rq_db_now rq) st
           (st\<lparr>ds_dashboards := ds_dashboards st @ [dashboard_copy rq source],
               ds_cards := ds_cards st @ map (with_layouts ls) copies\<rparr>)"
    have "confined (rq_new_id rq 0) st
           (st\<lparr>ds_dashboards := ds_dashboards st @ [dashboard_copy rq source],
               ds_cards := ds_cards st @ map (with_layouts ls) copies\<rparr>)"
      using copy_cards_facts [OF copies]
      by (auto simp: confined_def rows_of_def cards_in_def dashboard_copy_def filter_empty_conv list_all_iff)
    then show ?thesis unfolding st' confined_write_def
      using confined_flush store_ok_parts [OF ok] by blast
  qed (simp add: confined_write_refl)
qed

lemma save_card_confined:
  assumes step: "save_query_run_as_card rq i p st = (a, st')" and ok: "store_ok st"
  shows "confined_write rq st st'"
proof -
  from save_card_effect [OF step] show ?thesis
  proof (elim disjE exE conjE)
    fix d parsed run runs saved
    let ?dc = "saved_card_row rq parsed run d (next_card_position st (db_id d))"
    assume d: "d \<in> set (ds_dashboards st)" "\<not> db_is_archived d"
        "can_save_card_to_dashboard d (rq_user rq) (rq_ctx rq)"
        "has_permission (rq_ctx rq) ''can_create_card''"
      and st': "st' = flush_cards (rq_db_now rq) st
           (update_dashboard_row (db_id d) (bump_version (rq_now rq))
              (st\<lparr>ds_saved := saved, ds_cards := ds_cards st @ [?dc], ds_runs := runs\<rparr>))"
    have "confined (db_id d) st (st\<lparr>ds_saved := saved, ds_cards := ds_cards st @ [?dc], ds_runs := runs\<rparr>)"
      by (auto simp: confined_def rows_of_def cards_in_def saved_card_row_def)
    then have "confined (db_id d) st (update_dashboard_row (db_id d) (bump_version (rq_now rq))
              (st\<lparr>ds_saved := saved, ds_cards := ds_cards st @ [?dc], ds_runs := runs\<rparr>))"
      using confined_row [OF row_writes(1)] confined_trans by metis
    then show ?thesis unfolding st' using d store_ok_parts [OF ok]
      by (intro confined_writeI) (auto simp: may_write_def)
  qed (simp add: confined_write_refl)
qed

lemma dash_step_confined: "dash_step rq st st' \<Longrightarrow> store_ok st \<Longrightarrow> confined_write rq st st'"
  by (induction rule: dash_step.induct)
    (blast intro: editor_confined my_layout_confined update_card_confined duplicate_card_confined remove_card_confined
      create_dashboard_confined update_dashboard_confined archive_dashboard_confined duplicate_dashboard_confined save_card_confined)+


text \<open>
  C10: A handler changes the row or the cards of an existing dashboard only for a user who manages
  that dashboard, who owns it as a personal dashboard, or who may save cards to it; an archived
  dashboard is never written.
\<close>
theorem dashboard_writes_authorized:
  assumes ok: "store_ok st" and fresh: "fresh_ids rq st" and step: "dash_step rq st st'"
    and d: "d \<in> set (ds_dashboards st)"
    and changed: "rows_of st' (db_id d) \<noteq> rows_of st (db_id d) \<or> cards_in st' (db_id d) \<noteq> cards_in st (db_id d)"
  shows "may_write rq d"
proof -
  from dash_step_confined [OF step ok] obtain i where c: "confined i st st'"
    and i: "i \<in> range (rq_new_id rq) \<or> (\<exists>e \<in> set (ds_dashboards st). db_id e = i \<and> may_write rq e)"
    by (auto simp: confined_write_def)
  from c changed have di: "db_id d = i" by (auto simp: confined_def)
  have "db_id d \<notin> range (rq_new_id rq)" using fresh d by (auto simp: fresh_ids_def)
  with i di obtain e where "e \<in> set (ds_dashboards st)" "db_id e = db_id d" "may_write rq e" by auto
  moreover from this d store_ok_parts [OF ok] have "e = d" by (auto simp: distinct_map inj_on_def)
  ultimately show ?thesis by simp
qed

section \<open>The layout version guards the layouts\<close>

definition layout_view :: "dash_store \<Rightarrow> uuid \<Rightarrow> (uuid \<times> json \<times> json) set" where
  "layout_view st i = (\<lambda>dc. (dc_id dc, dc_layout dc, dc_config dc)) ` set (cards_in st i)"

definition versions :: "dash_store \<Rightarrow> uuid \<Rightarrow> int list" where
  "versions st i = map db_layout_version (rows_of st i)"

definition guarded :: "dash_request \<Rightarrow> dash_store \<Rightarrow> dash_store \<Rightarrow> bool" where
  "guarded rq st st' \<longleftrightarrow>
     (\<forall>j. j \<notin> range (rq_new_id rq) \<longrightarrow>
        versions st' j = versions st j \<and> layout_view st' j = layout_view st j
        \<or> versions st' j = map (\<lambda>v. v + 1) (versions st j))"

lemma guarded_refl: "guarded rq st st"
  by (simp add: guarded_def)

lemma guarded_flush: "guarded rq st new \<Longrightarrow> guarded rq st (flush_cards now old new)"
proof -
  have "cards_in (flush_cards now old new) j = map (flush_card now old) (cards_in new j)" for j
    by (simp add: cards_in_def filter_map comp_def)
  then have "layout_view (flush_cards now old new) j = layout_view new j" for j
    by (simp add: layout_view_def image_image)
  moreover have "versions (flush_cards now old new) j = versions new j" for j
    by (simp add: versions_def rows_of_def)
  ultimately show "guarded rq st new \<Longrightarrow> ?thesis" by (simp add: guarded_def)
qed

lemma confined_views:
  "confined i st st' \<Longrightarrow> j \<noteq> i \<Longrightarrow> versions st' j = versions st j \<and> layout_view st' j = layout_view st j"
  by (simp add: confined_def versions_def layout_view_def)

lemma guarded_bump:
  assumes cw: "confined_write rq st st'" and d: "d \<in> set (ds_dashboards st)"
    and rows: "ds_dashboards st' = map (\<lambda>e. if db_id e = db_id d then bump_version now e else e) (ds_dashboards st)"
  shows "guarded rq st st'"
proof -
  have "filter (\<lambda>e. db_id e = db_id d) (map (\<lambda>e. if db_id e = db_id d then bump_version now e else e) ds)
      = map (bump_version now) (filter (\<lambda>e. db_id e = db_id d) ds)" for ds
    by (induction ds) (auto simp: bump_version_def)
  then have bumped: "versions st' (db_id d) = map (\<lambda>v. v + 1) (versions st (db_id d))"
    by (simp add: versions_def rows_of_def rows bump_version_def comp_def)
  have "versions st (db_id d) \<noteq> []" using d by (auto simp: versions_def rows_of_def filter_empty_conv)
  then have "versions st' (db_id d) \<noteq> versions st (db_id d)"
    unfolding bumped by (cases "versions st (db_id d)") auto
  moreover from cw obtain i where i: "confined i st st'" by (auto simp: confined_write_def)
  ultimately have "i = db_id d" using confined_views [OF i, of "db_id d"] by blast
  with confined_views [OF i] have "j \<noteq> db_id d \<Longrightarrow>
      versions st' j = versions st j \<and> layout_view st' j = layout_view st j" for j by simp
  then show ?thesis unfolding guarded_def using bumped by (metis (no_types))
qed

lemma guarded_quiet:
  assumes "ds_dashboards new = map (\<lambda>d. if db_id d = i then f d else d) (ds_dashboards st)"
    and "\<And>d. db_id (f d) = db_id d \<and> db_layout_version (f d) = db_layout_version d"
    and "\<And>j. layout_view new j = layout_view st j"
  shows "guarded rq st new"
proof -
  have "map db_layout_version (filter (\<lambda>d. db_id d = j) (map (\<lambda>d. if db_id d = i then f d else d) ds))
      = map db_layout_version (filter (\<lambda>d. db_id d = j) ds)" for ds j
    by (induction ds) (auto simp: assms(2))
  then show ?thesis using assms(3) by (simp add: guarded_def versions_def rows_of_def assms(1))
qed

lemma layout_view_map:
  assumes "\<And>dc. dc \<in> set (ds_cards st) \<Longrightarrow> dc_id (g dc) = dc_id dc \<and> dc_dashboard_id (g dc) = dc_dashboard_id dc
      \<and> dc_layout (g dc) = dc_layout dc \<and> dc_config (g dc) = dc_config dc"
    and "ds_cards new = map g (ds_cards st)"
  shows "layout_view new j = layout_view st j"
proof -
  have view: "layout_view s j = (\<lambda>dc. (dc_id dc, dc_layout dc, dc_config dc)) `
      {dc \<in> set (ds_cards s). dc_dashboard_id dc = j}" for s
    by (simp add: layout_view_def cards_in_def)
  show ?thesis unfolding view assms(2) using assms(1) by (force simp: image_iff)
qed


lemma layout_view_flush: "layout_view (flush_cards now old new) j = layout_view new j"
  by (rule layout_view_map [where g = "flush_card now old"]) simp_all

lemma guarded_bump_flush:
  "confined_write rq st (flush_cards now st new) \<Longrightarrow> d \<in> set (ds_dashboards st) \<Longrightarrow>
     ds_dashboards new = map (\<lambda>e. if db_id e = db_id d then bump_version now' e else e) (ds_dashboards st) \<Longrightarrow>
     guarded rq st (flush_cards now st new)"
  by (rule guarded_bump [where now = now' and d = d]) simp_all

lemma guarded_quiet_flush:
  assumes "ds_dashboards new = map (\<lambda>d. if db_id d = i then f d else d) (ds_dashboards st)"
    and "\<And>d. db_id (f d) = db_id d \<and> db_layout_version (f d) = db_layout_version d"
    and "ds_cards new = map g (ds_cards st)"
    and "\<And>dc. dc \<in> set (ds_cards st) \<Longrightarrow> dc_id (g dc) = dc_id dc \<and> dc_dashboard_id (g dc) = dc_dashboard_id dc
      \<and> dc_layout (g dc) = dc_layout dc \<and> dc_config (g dc) = dc_config dc"
  shows "guarded rq st (flush_cards now st new)"
  by (rule guarded_flush, rule guarded_quiet [OF assms(1,2)], rule layout_view_map [OF assms(4,3)])

lemma relayout_dashboards: "relayout i st = Inr st2 \<Longrightarrow> ds_dashboards st2 = ds_dashboards st"
  by (auto simp: relayout_def result_bind_Inr_iff)

lemma editor_guarded:
  assumes step: "update_dashboard_editor_layout rq i p st = (a, st')" and ok: "store_ok st"
  shows "guarded rq st st'"
  using editor_effect [OF step]
proof (elim disjE exE conjE)
  fix d version items ls
  assume d: "manages rq st d" "db_id d = i" and st': "st' = flush_cards (rq_db_now rq) st
      (update_dashboard_row i (bump_version (rq_now rq)) (update_cards i (place_card ls) st))"
  show ?thesis unfolding st'
    by (rule guarded_bump_flush [of _ _ _ _ d "rq_now rq"])
      (use editor_confined [OF step ok] st' d may_write_manages [OF d(1)] in simp_all)
qed (simp add: guarded_refl)

lemma my_layout_guarded:
  assumes step: "update_my_dashboard_layout rq p st = (a, st')"
  shows "guarded rq st st'"
  using my_layout_effect [OF step]
proof (elim disjE exE conjE)
  fix d items
  assume st': "st' = flush_cards (rq_db_now rq) st
      (update_dashboard_row (db_id d) (\<lambda>d. d\<lparr>db_updated_at := rq_now rq\<rparr>)
         (update_cards (db_id d) (set_position items) st))"
  show ?thesis unfolding st'
    by (rule guarded_quiet_flush [of _ "db_id d" "\<lambda>d. d\<lparr>db_updated_at := rq_now rq\<rparr>" _
          "\<lambda>dc. if dc_dashboard_id dc = db_id d then set_position items dc else dc"]) simp_all
qed (simp_all add: guarded_refl guarded_flush)

lemma update_card_guarded:
  assumes step: "update_card rq k p st = (a, st')" and ok: "store_ok st"
  shows "guarded rq st st'"
proof -
  note parts = store_ok_parts [OF ok]
  consider "st' = st" | d u st2 where "manages rq st d" "updates_card rq st d k u st2"
      "st' = flush_cards (rq_db_now rq) st st2"
    using update_card_effect [OF step conjunct1 [OF parts]] by blast
  then show ?thesis
  proof cases
    case 2
    let ?st1 = "update_one_card k (apply_card_update u) st"
    show ?thesis
    proof (cases "cu_visualization u = None")
      case True
      with 2(2) have st2: "st2 = update_dashboard_row (db_id d) (\<lambda>d. d\<lparr>db_updated_at := rq_now rq\<rparr>) ?st1"
        by (simp add: updates_card_def Let_def)
      have "dc_layout (apply_card_update u dc) = dc_layout dc \<and> dc_config (apply_card_update u dc) = dc_config dc" for dc
        using True by (auto simp: apply_card_update_def Let_def split: option.split)
      then show ?thesis unfolding 2(3) st2
        by (intro guarded_quiet_flush [of _ "db_id d" "\<lambda>d. d\<lparr>db_updated_at := rq_now rq\<rparr>" _
              "\<lambda>dc. if dc_id dc = k then apply_card_update u dc else dc"]) simp_all
    next
      case False
      with 2(2) obtain st3 where "relayout (db_id d) ?st1 = Inr st3"
        and st2: "st2 = update_dashboard_row (db_id d) (bump_version (rq_now rq)) st3"
        by (auto simp: updates_card_def Let_def)
      then have "ds_dashboards st3 = ds_dashboards st" using relayout_dashboards by fastforce
      then show ?thesis unfolding 2(3)
        by (intro guarded_bump_flush [of _ _ _ _ d "rq_now rq"])
          (use update_card_confined [OF step ok] 2 may_write_manages [OF 2(1)] st2 in simp_all)
    qed
  qed (simp add: guarded_refl)
qed

lemma duplicate_card_guarded:
  assumes step: "duplicate_card rq k p st = (a, st')" and ok: "store_ok st"
  shows "guarded rq st st'"
proof -
  note parts = store_ok_parts [OF ok]
  consider "st' = st" | d dup st2 where "manages rq st d" "adds_copy rq st d dup st2"
      "st' = flush_cards (rq_db_now rq) st st2"
    using duplicate_card_effect [OF step conjunct1 [OF parts]] by blast
  then show ?thesis
  proof cases
    case 2
    then obtain st3 where "relayout (db_id d) (st\<lparr>ds_cards := ds_cards st @ [dup]\<rparr>) = Inr st3"
      and st2: "st2 = update_dashboard_row (db_id d) (bump_version (rq_now rq)) st3"
      by (auto simp: adds_copy_def)
    then have "ds_dashboards st3 = ds_dashboards st" using relayout_dashboards by fastforce
    then show ?thesis unfolding 2(3)
      by (intro guarded_bump_flush [of _ _ _ _ d "rq_now rq"])
        (use duplicate_card_confined [OF step ok] 2 may_write_manages [OF 2(1)] st2 in simp_all)
  qed (simp add: guarded_refl)
qed

lemma remove_card_guarded:
  assumes step: "remove_card rq k st = (a, st')" and ok: "store_ok st"
  shows "guarded rq st st'"
  using remove_card_effect [OF step]
proof (elim disjE exE conjE)
  fix d
  assume d: "manages rq st d" and st': "st' = flush_cards (rq_db_now rq) st
      (update_dashboard_row (db_id d) (bump_version (rq_now rq))
         (update_cards (db_id d) (set_position (renumber 0 (filter (\<lambda>c. dc_id c \<noteq> k) (cards_of st (db_id d)))))
            (st\<lparr>ds_cards := filter (\<lambda>c. dc_id c \<noteq> k) (ds_cards st)\<rparr>)))"
  show ?thesis unfolding st'
    by (rule guarded_bump_flush [of _ _ _ _ d "rq_now rq"])
      (use remove_card_confined [OF step ok] st' may_write_manages [OF d] in simp_all)
qed (simp add: guarded_refl)

lemma save_card_guarded:
  assumes step: "save_query_run_as_card rq k p st = (a, st')" and ok: "store_ok st"
  shows "guarded rq st st'"
  using save_card_effect [OF step]
proof (elim disjE exE conjE)
  fix d parsed run runs saved
  assume d: "d \<in> set (ds_dashboards st)" and st': "st' = flush_cards (rq_db_now rq) st
      (update_dashboard_row (db_id d) (bump_version (rq_now rq))
         (st\<lparr>ds_saved := saved,
             ds_cards := ds_cards st @ [saved_card_row rq parsed run d (next_card_position st (db_id d))],
             ds_runs := runs\<rparr>))"
  show ?thesis unfolding st'
    by (rule guarded_bump_flush [of _ _ _ _ d "rq_now rq"])
      (use save_card_confined [OF step ok] st' d in simp_all)
qed (simp add: guarded_refl)

lemma update_dashboard_guarded:
  assumes step: "update_dashboard rq i p st = (a, st')"
  shows "guarded rq st st'"
  using update_dashboard_effect [OF step]
proof (elim disjE exE conjE)
  fix d u
  assume st': "st' = flush_cards (rq_db_now rq) st
      (update_dashboard_row i (apply_dashboard_update (rq_db_now rq) u) st)"
  show ?thesis unfolding st'
    by (rule guarded_quiet_flush [of _ i "apply_dashboard_update (rq_db_now rq) u" _ "\<lambda>dc. dc"])
      (auto simp: apply_dashboard_update_def Let_def split: option.split)
qed (simp add: guarded_refl)

lemma archive_dashboard_guarded:
  assumes step: "archive_dashboard rq i st = (a, st')"
  shows "guarded rq st st'"
  using archive_dashboard_effect [OF step]
proof (elim disjE exE conjE)
  fix d
  assume st': "st' = flush_cards (rq_db_now rq) st (update_dashboard_row i (archive_row (rq_db_now rq)) st)"
  show ?thesis unfolding st'
    by (rule guarded_quiet_flush [of _ i "archive_row (rq_db_now rq)" _ "\<lambda>dc. dc"])
      (auto simp: archive_row_def)
qed (simp add: guarded_refl)

lemma guarded_confined_fresh:
  "confined (rq_new_id rq n) st st' \<Longrightarrow> guarded rq st st'"
  unfolding guarded_def using confined_views by blast


lemma create_dashboard_guarded:
  assumes step: "create_dashboard rq p st = (a, st')" and ok: "store_ok st"
  shows "guarded rq st st'"
  using create_dashboard_effect [OF step]
proof (elim disjE exE conjE)
  fix d
  assume d: "db_id d = rq_new_id rq 0"
    and st': "st' = flush_cards (rq_db_now rq) st (st\<lparr>ds_dashboards := ds_dashboards st @ [d]\<rparr>)"
  have "confined (rq_new_id rq 0) st (st\<lparr>ds_dashboards := ds_dashboards st @ [d]\<rparr>)"
    using d by (auto simp: confined_def rows_of_def cards_in_def)
  then show ?thesis unfolding st' by (rule guarded_flush [OF guarded_confined_fresh])
qed (simp add: guarded_refl)

lemma duplicate_dashboard_guarded:
  assumes step: "duplicate_dashboard rq i p st = (a, st')"
  shows "guarded rq st st'"
  using duplicate_dashboard_effect [OF step]
proof (elim disjE exE conjE)
  fix source copies ls
  assume copies: "copy_cards rq (rq_new_id rq 0) 0 (cards_of st (db_id source)) = Inr copies"
    and st': "st' = flush_cards (rq_db_now rq) st
           (st\<lparr>ds_dashboards := ds_dashboards st @ [dashboard_copy rq source],
               ds_cards := ds_cards st @ map (with_layouts ls) copies\<rparr>)"
  have "confined (rq_new_id rq 0) st
           (st\<lparr>ds_dashboards := ds_dashboards st @ [dashboard_copy rq source],
               ds_cards := ds_cards st @ map (with_layouts ls) copies\<rparr>)"
    using copy_cards_facts [OF copies]
    by (auto simp: confined_def rows_of_def cards_in_def dashboard_copy_def filter_empty_conv list_all_iff)
  then show ?thesis unfolding st' by (rule guarded_flush [OF guarded_confined_fresh])
qed (simp add: guarded_refl)

lemma dash_step_guarded: "dash_step rq st st' \<Longrightarrow> store_ok st \<Longrightarrow> guarded rq st st'"
  by (induction rule: dash_step.induct)
    (blast intro: editor_guarded my_layout_guarded update_card_guarded duplicate_card_guarded
      remove_card_guarded create_dashboard_guarded update_dashboard_guarded archive_dashboard_guarded
      duplicate_dashboard_guarded save_card_guarded)+

text \<open>
  C11: The layout version guards the layouts: across any handler an existing dashboard keeps its row
  with a version that is unchanged or one higher, and whenever the version is unchanged so are the
  ids, stored layouts and visualization documents of its cards.
\<close>
theorem layout_version_guards_layouts:
  assumes "dash_step rq st st'" and ok: "store_ok st" and fresh: "fresh_ids rq st"
    and d: "d \<in> set (ds_dashboards st)"
  shows "\<exists>d' \<in> set (ds_dashboards st'). db_id d' = db_id d
    \<and> (db_layout_version d' = db_layout_version d \<and> layout_view st' (db_id d) = layout_view st (db_id d)
       \<or> db_layout_version d' = db_layout_version d + 1)"
proof -
  have "db_id d \<notin> range (rq_new_id rq)" using fresh d by (auto simp: fresh_ids_def)
  then have g: "versions st' (db_id d) = versions st (db_id d)
      \<and> layout_view st' (db_id d) = layout_view st (db_id d)
      \<or> versions st' (db_id d) = map (\<lambda>v. v + 1) (versions st (db_id d))"
    using dash_step_guarded [OF assms(1) ok] by (simp add: guarded_def)
  have unique: "e = d" if "e \<in> set (ds_dashboards st)" "db_id e = db_id d" for e
    using that d store_ok_parts [OF ok] by (auto simp: distinct_map inj_on_def)
  have vs: "set (versions s (db_id d)) = db_layout_version ` {e \<in> set (ds_dashboards s). db_id e = db_id d}" for s
    by (simp add: versions_def rows_of_def)
  have "{e \<in> set (ds_dashboards st). db_id e = db_id d} = {d}" using unique d by auto
  then have one: "set (versions st (db_id d)) = {db_layout_version d}" unfolding vs by simp
  from g show ?thesis
  proof
    assume same: "versions st' (db_id d) = versions st (db_id d)
      \<and> layout_view st' (db_id d) = layout_view st (db_id d)"
    with one have "db_layout_version d \<in> set (versions st' (db_id d))" by simp
    with same show ?thesis unfolding vs by auto
  next
    assume "versions st' (db_id d) = map (\<lambda>v. v + 1) (versions st (db_id d))"
    with one have "db_layout_version d + 1 \<in> set (versions st' (db_id d))" by simp
    then show ?thesis unfolding vs by force
  qed
qed

end
