(* ===== verification/Dashboard_Guarantees.thy ===== *)
theory Dashboard_Guarantees
  imports Dashboard_Invariants
begin

text \<open>
  What single requests guarantee: an accepted editor layout is well formed and makes its own
  payload stale, a payload is rejected or raises exactly where the parser says so, archiving does
  not hide the SQL of a card, and a question too long for a title cannot be saved.
\<close>

section \<open>Accepted layouts\<close>

lemma cards_of_flushed:
  "set (cards_of (flush_cards now old new) i) = flush_card now old ` set (cards_of new i)"
  by (auto simp: set_cards_of)

lemma set_cards_of_written:
  "keeps_identity f \<Longrightarrow>
     set (cards_of (update_dashboard_row i g (update_cards i f st)) i) = f ` set (cards_of st i)"
  by (auto simp: set_cards_of keeps_identity_def image_iff)

lemma place_card_layout:
  "map_of ls (dc_id dc) = Some l \<Longrightarrow> dc_layout (place_card ls dc) = persisted_layout l"
  by (simp add: place_card_def with_layouts_def Let_def split: option.split)

lemma visualization_type_reads_config:
  "dc_config a = dc_config b \<Longrightarrow> dc_card_type a = dc_card_type b \<Longrightarrow>
     visualization_type_for_card a = visualization_type_for_card b"
  by (simp add: visualization_type_for_card_def visualization_reads_config [of a b])

definition well_laid_out :: "dash_store \<Rightarrow> uuid \<Rightarrow> bool" where
  "well_laid_out st i \<longleftrightarrow>
     (\<exists>ls. fst ` set ls = dc_id ` set (cards_of st i) \<and> layouts_do_not_overlap ls
        \<and> dc_position ` set (cards_of st i) = int ` {0..<length ls}
        \<and> (\<forall>dc \<in> set (cards_of st i). \<exists>vtype l. visualization_type_for_card dc = Inr vtype
             \<and> map_of ls (dc_id dc) = Some l
             \<and> parse_layout_for_card (dc_layout dc) vtype = Inr (Some l)))"

lemma distinct_fst_positions: "distinct (map fst ls) \<Longrightarrow> distinct (map fst (int_positions ls))"
proof -
  assume dist: "distinct (map fst ls)"
  let ?o = "sort_key (\<lambda>(i, l). (cy (l_desktop l), cx (l_desktop l), i)) ls"
  have "distinct ls" "inj_on fst (set ls)" using dist by (simp_all add: distinct_map)
  then have "distinct (map fst ?o)" by (simp add: distinct_map)
  moreover have "map fst (int_positions ls) = map fst (derive_positions ls)" by (simp add: int_positions_def)
  moreover have "map fst (derive_positions ls) = map fst ?o" by (simp add: derive_positions_def Let_def)
  ultimately show ?thesis by simp
qed

lemma place_card_positions:
  assumes ids: "dc_id ` set cards = fst ` set ls" and dist: "distinct (map fst ls)"
  shows "dc_position ` place_card ls ` set cards = int ` {0..<length ls}"
proof
  show "dc_position ` place_card ls ` set cards \<subseteq> int ` {0..<length ls}"
  proof
    fix p assume "p \<in> dc_position ` place_card ls ` set cards"
    then obtain dc where dc: "dc \<in> set cards" and p: "p = dc_position (place_card ls dc)" by blast
    have "dc_id dc \<in> fst ` set ls" using ids dc by blast
    from place_card_position [OF this] have "p \<in> set (map snd (int_positions ls))"
      unfolding p by force
    then show "p \<in> int ` {0..<length ls}" unfolding map_snd_int_positions by auto
  qed
  show "int ` {0..<length ls} \<subseteq> dc_position ` place_card ls ` set cards"
  proof
    fix p assume "p \<in> int ` {0..<length ls}"
    then have "p \<in> set (map snd (int_positions ls))" unfolding map_snd_int_positions by auto
    then obtain k where k: "(k, p) \<in> set (int_positions ls)" by auto
    then have in_ls: "k \<in> fst ` set ls"
      using derive_positions_facts(1) [of ls] by (force simp: int_positions_def)
    then have "k \<in> dc_id ` set cards" by (simp only: ids)
    then obtain dc where dc: "dc \<in> set cards" "dc_id dc = k" by blast
    with in_ls have "(k, dc_position (place_card ls dc)) \<in> set (int_positions ls)"
      using place_card_position [of dc ls] by simp
    with k distinct_fst_positions [OF dist] have "p = dc_position (place_card ls dc)"
      by (metis eq_key_imp_eq_value)
    with dc(1) show "p \<in> dc_position ` place_card ls ` set cards" by blast
  qed
qed

lemma placed_well_laid_out:
  assumes st': "set (cards_of st' i) = flush_card now st ` place_card ls ` set (cards_of st0 i)"
    and ids: "dc_id ` set (cards_of st0 i) = fst ` set ls" and dist: "distinct (map fst ls)"
    and free: "layouts_do_not_overlap ls"
    and fits: "\<And>dc. dc \<in> set (cards_of st0 i) \<Longrightarrow> \<exists>vtype l. visualization_type_for_card dc = Inr vtype
        \<and> map_of ls (dc_id dc) = Some l \<and> layout_fits vtype l"
  shows "well_laid_out st' i"
proof -
  have "dc_id ` set (cards_of st' i) = fst ` set ls" unfolding st' image_image by (simp add: ids)
  moreover have "dc_position ` set (cards_of st' i) = int ` {0..<length ls}"
    unfolding st' using place_card_positions [OF ids dist] by (simp add: image_image)
  moreover have "\<exists>vtype l. visualization_type_for_card dc = Inr vtype \<and> map_of ls (dc_id dc) = Some l
      \<and> parse_layout_for_card (dc_layout dc) vtype = Inr (Some l)" if "dc \<in> set (cards_of st' i)" for dc
  proof -
    from that st' obtain e where e: "e \<in> set (cards_of st0 i)" "dc = flush_card now st (place_card ls e)"
      by auto
    from fits [OF e(1)] obtain vtype l where v: "visualization_type_for_card e = Inr vtype"
      "map_of ls (dc_id e) = Some l" "layout_fits vtype l" by blast
    have "visualization_type_for_card dc = Inr vtype"
      using v(1) visualization_type_reads_config [of dc e] by (simp add: e(2))
    moreover have "map_of ls (dc_id dc) = Some l" "dc_layout dc = persisted_layout l"
      using v(2) by (simp_all add: e(2) place_card_layout)
    ultimately show ?thesis using persisted_layout_parses [OF v(3)] by auto
  qed
  ultimately show ?thesis using free unfolding well_laid_out_def by metis
qed

lemma live_dashboard_mem:
  "store_ok st \<Longrightarrow> d \<in> set (ds_dashboards st) \<Longrightarrow> \<not> db_is_archived d \<Longrightarrow> live_dashboard st (db_id d) = Some d"
proof -
  assume ok: "store_ok st" and d: "d \<in> set (ds_dashboards st)" "\<not> db_is_archived d"
  have "List.find (\<lambda>e. db_id e = db_id d \<and> \<not> db_is_archived e) (ds_dashboards st) \<noteq> None"
    using d by (auto simp: find_None_iff)
  then obtain e where e: "live_dashboard st (db_id d) = Some e" by (auto simp: live_dashboard_def)
  with live_dashboard_SomeD [OF e] d store_ok_parts [OF ok] show ?thesis
    by (auto simp: distinct_map inj_on_def)
qed

lemma parse_editor_distinct:
  "parse_editor_layout_payload payload = Inr (version, items) \<Longrightarrow> distinct (map ei_card_id items)"
proof -
  assume "parse_editor_layout_payload payload = Inr (version, items)"
  then obtain raw where "parse_editor_items raw [] = Some items"
    by (simp add: parse_editor_layout_payload_def Let_def or_error_def
        split: if_split_asm option.splits json.splits)
  then show ?thesis using parse_editor_items_ids by blast
qed


text \<open>
  C12: A layout the editor accepts is stored well formed: the request named the current version and
  exactly the current cards, the stored layouts parse back and do not overlap, the positions are
  \<open>0 .. n - 1\<close>, and the reply carries the next version.
\<close>
theorem accepted_layout_is_well_formed:
  assumes step: "update_dashboard_editor_layout rq i payload st = (r, st')" and ok: "http_ok r"
    and inv: "store_ok st"
  shows "well_laid_out st' i
    \<and> (\<exists>d version items answer. manages rq st d \<and> db_id d = i
         \<and> parse_editor_layout_payload payload = Inr (version, items)
         \<and> db_layout_version d = version \<and> dc_id ` set (cards_of st i) = ei_card_id ` set items
         \<and> r = Success 200 answer \<and> la_layout_version answer = version + 1)"
proof -
  from editor_effect [OF step] ok obtain d version items ls where
    d: "manages rq st d" "db_id d = i" and p: "parse_editor_layout_payload payload = Inr (version, items)"
    and v: "db_layout_version d = version"
    and ids: "dc_id ` set (cards_of st i) = ei_card_id ` set items"
    and ls: "submitted_layouts (cards_of st i) items = Inr (Some ls)" and free: "layouts_do_not_overlap ls"
    and r: "r = Success 200 \<lparr>la_layout_version = version + 1, la_items = layout_items ls\<rparr>"
    and st': "st' = flush_cards (rq_db_now rq) st
        (update_dashboard_row i (bump_version (rq_now rq)) (update_cards i (place_card ls) st))"
    by blast
  note sub = submitted_layouts_Some [OF ls]
  have fsts: "map fst ls = map ei_card_id items" using sub by blast
  have dist: "distinct (map fst ls)" unfolding fsts by (rule parse_editor_distinct [OF p])
  have "set (map fst ls) = set (map ei_card_id items)" unfolding fsts ..
  then have ids': "dc_id ` set (cards_of st i) = fst ` set ls" using ids by simp
  have "well_laid_out st' i"
  proof (rule placed_well_laid_out [of _ _ "rq_db_now rq" st ls st])
    show "set (cards_of st' i) = flush_card (rq_db_now rq) st ` place_card ls ` set (cards_of st i)"
      unfolding st' cards_of_flushed set_cards_of_written [OF place_card_keeps] ..
    fix dc assume dc: "dc \<in> set (cards_of st i)"
    then have "dc_id dc \<in> fst ` set ls" using ids' by blast
    then obtain l where l: "(dc_id dc, l) \<in> set ls" by auto
    then obtain e vtype where e: "e \<in> set (cards_of st i)" "dc_id e = dc_id dc"
      "visualization_type_for_card e = Inr vtype" "layout_fits vtype l" using sub by blast
    have "map_of ls (dc_id dc) = Some l" using l dist by simp
    moreover have "e = dc" using e(1,2) dc store_ok_parts [OF inv]
      by (auto simp: set_cards_of distinct_map inj_on_def)
    then have "visualization_type_for_card dc = Inr vtype" "layout_fits vtype l" using e by simp_all
    ultimately show "\<exists>vtype l. visualization_type_for_card dc = Inr vtype
        \<and> map_of ls (dc_id dc) = Some l \<and> layout_fits vtype l" by blast
  qed (use ids' dist free in auto)
  with d p v ids r show ?thesis by auto
qed


definition example_editor :: app_user where
  "example_editor =
     \<lparr>au_id = ''u1'', au_role_id = None, au_status = ''active'', au_auth_provider = ''demo'',
      au_full_name = ''A'', au_email = ''a@example.com'', au_department_id = None\<rparr>"

definition example_request :: dash_request where
  "example_request =
     \<lparr>rq_user = example_editor,
      rq_ctx = example_subject ''u1'' {''can_create_personal_dashboard''} [] False,
      rq_csrf_ok = True, rq_now = 5, rq_db_now = 6, rq_new_id = (\<lambda>n. replicate (n + 3) CHR ''z''),
      rq_commit_ok = True\<rparr>"

definition example_dashboard :: dashboard where
  "example_dashboard =
     \<lparr>db_id = ''d1'', db_owner_user_id = Some ''u1'', db_title = ''Mine'', db_description = None,
      db_visibility_scope = ''personal'', db_department_id = None, db_is_archived = False,
      db_layout_version = 1, db_created_at = 0, db_updated_at = 0\<rparr>"

definition example_card_id :: uuid where
  "example_card_id = ''00000000-0000-0000-0000-000000000001''"

definition example_card :: dashboard_card where
  "example_card =
     \<lparr>dc_id = example_card_id, dc_dashboard_id = ''d1'', dc_saved_query_id = None, dc_title = ''T'',
      dc_description = None, dc_card_type = ''kpi'', dc_position = 0, dc_layout = JNull,
      dc_config = JNull, dc_created_at = 0, dc_updated_at = 0\<rparr>"

definition example_store :: dash_store where
  "example_store = \<lparr>ds_dashboards = [example_dashboard], ds_cards = [example_card], ds_runs = [], ds_saved = []\<rparr>"

definition example_layout_payload :: json where
  "example_layout_payload =
     JDict [(''expected_layout_version'', JInt 1),
            (''items'', JList [JDict
               [(''card_id'', JStr example_card_id),
                (''desktop'', coords_json \<lparr>cx = 0, cy = 0, cw = 3, ch = 1\<rparr>),
                (''tablet'', coords_json \<lparr>cx = 0, cy = 0, cw = 3, ch = 1\<rparr>),
                (''mobile'', coords_json \<lparr>cx = 0, cy = 0, cw = 1, ch = 1\<rparr>)]])]"

lemma example_layout_accepted:
  "http_ok (fst (update_dashboard_editor_layout example_request ''d1'' example_layout_payload example_store))"
  by code_simp


lemma example_store_ok: "store_ok example_store"
  by (simp add: store_ok_def dashboards_ok_def cards_ok_def card_ok_def positions_ok_def example_store_def
      example_dashboard_def example_card_def safe_visualization_for_card_def)

lemma accepted_layout_is_well_formed_witness:
  "well_laid_out
     (snd (update_dashboard_editor_layout example_request ''d1'' example_layout_payload example_store)) ''d1''"
  by (rule accepted_layout_is_well_formed
        [OF surjective_pairing example_layout_accepted example_store_ok, THEN conjunct1])

text \<open>
  Optimistic concurrency: once an editor layout is accepted, the same payload sent again by
  anyone who still manages the dashboard is answered with the layout conflict and changes nothing.
\<close>
theorem accepted_layout_payload_is_stale:
  assumes step: "update_dashboard_editor_layout rq i payload st = (r, st')" and "http_ok r"
    and inv: "store_ok st" and "rq_csrf_ok rq'"
    and d': "dashboard_management_error (live_dashboard st' i) (rq_user rq') (rq_ctx rq') = Inr d'"
  shows "update_dashboard_editor_layout rq' i payload st' = (Refused dashboard_layout_conflict_response, st')"
proof -
  from editor_effect [OF step] \<open>http_ok r\<close> obtain d version items where
    d: "manages rq st d" "db_id d = i" and p: "parse_editor_layout_payload payload = Inr (version, items)"
    and v: "db_layout_version d = version"
    and rows: "ds_dashboards st' = map (\<lambda>e. if db_id e = i then bump_version (rq_now rq) e else e) (ds_dashboards st)"
    by auto
  have live: "live_dashboard st' i = Some d'" using d' by (simp add: managed_iff)
  then have "d' \<in> set (ds_dashboards st')" "db_id d' = i" using live_dashboard_SomeD by blast+
  then obtain e where e: "e \<in> set (ds_dashboards st)" "db_id e = i" "d' = bump_version (rq_now rq) e"
    unfolding rows by (auto simp: bump_version_def split: if_splits)
  then have "e = d" using d store_ok_parts [OF inv]
    by (auto simp: manages_def distinct_map inj_on_def)
  then have "db_layout_version d' \<noteq> version" using e(3) v by (simp add: bump_version_def)
  with p d' \<open>rq_csrf_ok rq'\<close> show ?thesis
    by (simp add: update_dashboard_editor_layout_def Let_def)
qed

lemma accepted_layout_payload_is_stale_witness:
  "update_dashboard_editor_layout example_request ''d1'' example_layout_payload
     (snd (update_dashboard_editor_layout example_request ''d1'' example_layout_payload example_store))
   = (Refused dashboard_layout_conflict_response,
      snd (update_dashboard_editor_layout example_request ''d1'' example_layout_payload example_store))"
proof -
  let ?st' = "snd (update_dashboard_editor_layout example_request ''d1'' example_layout_payload example_store)"
  have "is_ok (dashboard_management_error (live_dashboard ?st' ''d1'')
      (rq_user example_request) (rq_ctx example_request))"
    by code_simp
  then obtain d where "dashboard_management_error (live_dashboard ?st' ''d1'')
      (rq_user example_request) (rq_ctx example_request) = Inr d"
    by (auto simp: is_ok_iff)
  moreover have "rq_csrf_ok example_request" by (simp add: example_request_def)
  ultimately show ?thesis
    by (intro accepted_layout_payload_is_stale [OF surjective_pairing example_layout_accepted example_store_ok])
qed

section \<open>Visualization documents\<close>

lemma staged_tests:
  "result_bind a (\<lambda>x. if \<not> x then Inr n else result_bind b (\<lambda>y. if \<not> y then Inr n else
     result_bind c (\<lambda>z. if \<not> z then Inr n else Inr k))) = Inl e \<longleftrightarrow>
     a = Inl e \<or> a = Inr True \<and> (b = Inl e \<or> b = Inr True \<and> c = Inl e)"
  by (cases a; cases b; cases c) auto

definition unhashable :: "json \<Rightarrow> bool" where
  "unhashable v \<longleftrightarrow> \<not> hashable v"

definition visualization_document :: "json \<Rightarrow> bool" where
  "visualization_document v \<longleftrightarrow>
     is_dict v \<and> jkeys v = {''mode'', ''type'', ''recommended_type'', ''mapping''}"

text \<open>
  \<open>parse_visualization\<close> raises \<open>TypeError\<close>, instead of rejecting the document, exactly when the
  first of \<open>mode\<close>, \<open>type\<close> and \<open>recommended_type\<close> that is not an allowed name is a list or an
  object; it raises nothing else.
\<close>
theorem parse_visualization_raises_iff:
  "parse_visualization v = Inl e \<longleftrightarrow>
     e = TypeError \<and> visualization_document v
     \<and> (unhashable (jget v ''mode'')
        \<or> in_str_set (jget v ''mode'') VISUALIZATION_MODES = Inr True
          \<and> (unhashable (jget v ''type'')
             \<or> in_str_set (jget v ''type'') VISUALIZATION_TYPES = Inr True
               \<and> unhashable (jget v ''recommended_type'')))"
proof (cases "visualization_document v")
  case True
  then have keys: "\<not> (\<not> is_dict v \<or> jkeys v \<noteq> {''mode'', ''type'', ''recommended_type'', ''mapping''})"
    by (simp add: visualization_document_def)
  have "parse_visualization v = Inl e \<longleftrightarrow>
      in_str_set (jget v ''mode'') VISUALIZATION_MODES = Inl e
      \<or> in_str_set (jget v ''mode'') VISUALIZATION_MODES = Inr True
        \<and> (in_str_set (jget v ''type'') VISUALIZATION_TYPES = Inl e
           \<or> in_str_set (jget v ''type'') VISUALIZATION_TYPES = Inr True
             \<and> in_str_set (jget v ''recommended_type'') VISUALIZATION_TYPES = Inl e)"
    unfolding parse_visualization_def if_not_P [OF keys] by (rule staged_tests)
  then show ?thesis using True unfolding in_str_set_Inl unhashable_def by blast
next
  case False
  then have "parse_visualization v = Inr None"
    by (cases "is_dict v") (simp_all add: parse_visualization_def visualization_document_def)
  with False show ?thesis by simp
qed


text \<open>The documents the parser returns: clean, distinct column names and known types.\<close>

definition clean_column :: "string \<Rightarrow> bool" where
  "clean_column c \<longleftrightarrow> is_identifier c \<and> length c \<le> MAX_COLUMN_NAME_LENGTH"

definition clean_optional :: "string option \<Rightarrow> bool" where
  "clean_optional c \<longleftrightarrow> (case c of None \<Rightarrow> True | Some s \<Rightarrow> clean_column s)"

definition valid_visualization :: "visualization \<Rightarrow> bool" where
  "valid_visualization vz \<longleftrightarrow>
     vz_mode vz \<in> set VISUALIZATION_MODES \<and> vz_type vz \<in> set VISUALIZATION_TYPES
     \<and> vz_recommended_type vz \<in> set VISUALIZATION_TYPES
     \<and> (let m = vz_mapping vz in
          distinct (vm_value_columns m) \<and> length (vm_value_columns m) \<le> MAX_VALUE_COLUMNS
          \<and> list_all clean_column (vm_value_columns m) \<and> clean_optional (vm_category_column m)
          \<and> clean_optional (vm_series_column m) \<and> clean_optional (vm_label_column m)
          \<and> clean_optional (vm_target_column m))"

lemma parse_column_name_clean: "parse_column_name v = Some c \<Longrightarrow> clean_column c"
  by (auto simp: parse_column_name_def clean_column_def Let_def split: json.splits if_splits)

lemma parse_clean_column: "clean_column c \<Longrightarrow> parse_column_name (JStr c) = Some c"
  by (auto simp: parse_column_name_def clean_column_def py_strip_identifier)
    (simp add: is_identifier_def)

lemma parse_optional_clean: "parse_optional_column v = Some c \<Longrightarrow> clean_optional c"
  by (auto simp: parse_optional_column_def clean_optional_def dest: parse_column_name_clean
      split: option.splits if_splits)

lemma parse_clean_optional:
  "clean_optional c \<Longrightarrow> parse_optional_column (case c of None \<Rightarrow> JNull | Some s \<Rightarrow> JStr s) = Some c"
  by (auto simp: parse_optional_column_def clean_optional_def parse_clean_column split: option.splits)

lemma parse_value_columns_clean:
  "parse_value_columns vs parsed = Some cs \<Longrightarrow> distinct parsed \<Longrightarrow> list_all clean_column parsed \<Longrightarrow>
     distinct cs \<and> list_all clean_column cs \<and> length cs = length parsed + length vs"
proof (induction vs arbitrary: parsed)
  case Nil
  then show ?case by simp
next
  case (Cons v vs)
  then obtain c where c: "parse_column_name v = Some c" "c \<notin> set parsed"
    "parse_value_columns vs (parsed @ [c]) = Some cs"
    by (auto split: option.splits if_splits)
  from Cons.IH [OF c(3)] Cons.prems(2,3) c(2) parse_column_name_clean [OF c(1)] show ?case by simp
qed

lemma parse_clean_value_columns:
  "list_all clean_column cs \<Longrightarrow> distinct (parsed @ cs) \<Longrightarrow>
     parse_value_columns (map JStr cs) parsed = Some (parsed @ cs)"
proof (induction cs arbitrary: parsed)
  case Nil
  then show ?case by simp
next
  case (Cons c cs)
  then show ?case using Cons.IH [of "parsed @ [c]"] by (simp add: parse_clean_column)
qed

lemma parse_mapping_valid:
  assumes "parse_mapping v = Some m"
  shows "distinct (vm_value_columns m) \<and> length (vm_value_columns m) \<le> MAX_VALUE_COLUMNS
     \<and> list_all clean_column (vm_value_columns m) \<and> clean_optional (vm_category_column m)
     \<and> clean_optional (vm_series_column m) \<and> clean_optional (vm_label_column m)
     \<and> clean_optional (vm_target_column m)"
proof -
  have dict: "\<not> (\<not> is_dict v \<or> jkeys v \<noteq> {''category_column'', ''value_columns'', ''series_column'',
      ''label_column'', ''target_column''})"
    using assms unfolding parse_mapping_def by (rule contrapos_pn) simp
  note body = assms [unfolded parse_mapping_def if_not_P [OF dict]]
  obtain vs where v: "jget v ''value_columns'' = JList vs" and len: "length vs \<le> MAX_VALUE_COLUMNS"
    using body by (cases "jget v ''value_columns''") (simp_all split: if_split_asm)
  have "\<exists>vcols category series label target. parse_value_columns vs [] = Some vcols
      \<and> parse_optional_column (jget v ''category_column'') = Some category
      \<and> parse_optional_column (jget v ''series_column'') = Some series
      \<and> parse_optional_column (jget v ''label_column'') = Some label
      \<and> parse_optional_column (jget v ''target_column'') = Some target
      \<and> m = \<lparr>vm_value_columns = vcols, vm_category_column = category, vm_series_column = series,
             vm_label_column = label, vm_target_column = target\<rparr>"
    using body len unfolding v by (simp add: bind_eq_Some_conv) metis
  then obtain vcols category series label target where
    vs: "parse_value_columns vs [] = Some vcols"
    and cols: "parse_optional_column (jget v ''category_column'') = Some category"
      "parse_optional_column (jget v ''series_column'') = Some series"
      "parse_optional_column (jget v ''label_column'') = Some label"
      "parse_optional_column (jget v ''target_column'') = Some target"
    and m: "m = \<lparr>vm_value_columns = vcols, vm_category_column = category, vm_series_column = series,
                 vm_label_column = label, vm_target_column = target\<rparr>"
    by blast
  from parse_value_columns_clean [OF vs] len cols [THEN parse_optional_clean] show ?thesis
    by (simp add: m)
qed

lemma parse_mapping_json:
  assumes "distinct (vm_value_columns m)" "length (vm_value_columns m) \<le> MAX_VALUE_COLUMNS"
    "list_all clean_column (vm_value_columns m)" "clean_optional (vm_category_column m)"
    "clean_optional (vm_series_column m)" "clean_optional (vm_label_column m)"
    "clean_optional (vm_target_column m)"
  shows "parse_mapping (vis_mapping_json m) = Some m"
proof -
  have "parse_value_columns (map JStr (vm_value_columns m)) [] = Some (vm_value_columns m)"
    using parse_clean_value_columns [of "vm_value_columns m" "[]"] assms(1,3) by simp
  moreover have "jkeys (vis_mapping_json m)
      = {''category_column'', ''value_columns'', ''series_column'', ''label_column'', ''target_column''}"
    by (simp add: vis_mapping_json_def Let_def insert_commute)
  ultimately show ?thesis
    using assms(2) assms(4-7) [THEN parse_clean_optional]
    by (simp add: parse_mapping_def vis_mapping_json_def Let_def)
qed


lemma parse_visualization_valid: "parse_visualization v = Inr (Some vz) \<Longrightarrow> valid_visualization vz"
proof -
  assume p: "parse_visualization v = Inr (Some vz)"
  have keys: "\<not> (\<not> is_dict v \<or> jkeys v \<noteq> {''mode'', ''type'', ''recommended_type'', ''mapping''})"
    using p unfolding parse_visualization_def by (rule contrapos_pn) simp
  note body = p [unfolded parse_visualization_def if_not_P [OF keys]]
  have "in_str_set (jget v ''mode'') VISUALIZATION_MODES = Inr True
      \<and> in_str_set (jget v ''type'') VISUALIZATION_TYPES = Inr True
      \<and> in_str_set (jget v ''recommended_type'') VISUALIZATION_TYPES = Inr True
      \<and> (\<exists>m. parse_mapping (jget v ''mapping'') = Some m
           \<and> vz = \<lparr>vz_mode = str_of_json (jget v ''mode''), vz_type = str_of_json (jget v ''type''),
                    vz_recommended_type = str_of_json (jget v ''recommended_type''), vz_mapping = m\<rparr>)"
    using body by (simp add: result_bind_Inr_iff split: if_split_asm) metis
  then show ?thesis
    by (auto simp: valid_visualization_def in_str_set_True Let_def dest: parse_mapping_valid)
qed

text \<open>
  A visualization that can be stored survives storage: its document parses back to itself
  exactly when it has an allowed mode and types, at most eight distinct value columns, and only
  identifier column names of at most 128 characters; and everything the parser returns is such.
\<close>
theorem visualization_roundtrip:
  "parse_visualization (visualization_json vz) = Inr (Some vz) \<longleftrightarrow> valid_visualization vz"
proof
  show "parse_visualization (visualization_json vz) = Inr (Some vz) \<Longrightarrow> valid_visualization vz"
    by (rule parse_visualization_valid)
  assume valid: "valid_visualization vz"
  have "parse_mapping (vis_mapping_json (vz_mapping vz)) = Some (vz_mapping vz)"
    using valid by (intro parse_mapping_json) (simp_all add: valid_visualization_def Let_def)
  with valid show "parse_visualization (visualization_json vz) = Inr (Some vz)"
    by (simp add: parse_visualization_def visualization_json_def valid_visualization_def)
qed

section \<open>Archived dashboards and saved questions\<close>

text \<open>
  Archiving a dashboard does not hide the SQL of its cards: \<open>get_card_source\<close> answers every user
  as it did before, while the detail and refresh routes treat the dashboard as missing.
\<close>
theorem archived_card_source_stays_readable:
  assumes step: "archive_dashboard rq i st = (r, st')" and ok: "store_ok st"
  shows "get_card_source rq' card_id st' = get_card_source rq' card_id st"
proof (cases "st' = st")
  case False
  with archive_dashboard_effect [OF step] have
    st': "st' = flush_cards (rq_db_now rq) st (update_dashboard_row i (archive_row (rq_db_now rq)) st)"
    by blast
  have same: "flush_card now st dc = dc" if "dc \<in> set (ds_cards st)" for now dc
    using find_by_distinct [of dc_id "ds_cards st" dc] store_ok_parts [OF ok] that
    by (simp add: flush_card_def card_by_id_def touch_card_def)
  have "ds_cards st' = ds_cards st" using same by (auto simp: st' intro: map_idI)
  then have cards: "card_by_id st' k = card_by_id st k" for k by (simp add: card_by_id_def)
  have rest: "ds_saved st' = ds_saved st" "ds_runs st' = ds_runs st"
    by (simp_all add: st' update_dashboard_row_def)
  have "find_by db_id k (map (\<lambda>d. if db_id d = i then archive_row n d else d) ds)
      = map_option (\<lambda>d. if db_id d = i then archive_row n d else d) (find_by db_id k ds)" for k n ds
    by (induction ds) (auto simp: find_by_def archive_row_def)
  then have dash: "dashboard_by_id st' k
      = map_option (\<lambda>d. if db_id d = i then archive_row (rq_db_now rq) d else d) (dashboard_by_id st k)" for k
    by (simp add: st' dashboard_by_id_def)
  have "dashboard_is_visible (archive_row n d) u c = dashboard_is_visible d u c" for n d u c
    by (simp add: dashboard_is_visible_def archive_row_def)
  then show ?thesis
    by (simp add: get_card_source_def cards dash rest latest_successful_query_run_def
        split: option.split)
qed simp

text \<open>
  A successful run whose question, stripped, is longer than a title column cannot be saved
  without an explicit title: the request never succeeds and nothing is stored.
\<close>
theorem long_question_cannot_be_saved:
  assumes "find_by qr_id run_id (ds_runs st) = Some run"
    and "qr_natural_language_question run = Some question" and "length (py_strip question) > MAX_TITLE_LENGTH"
    and "\<not> present payload ''title''"
    and "save_query_run_as_card rq run_id payload st = (r, st')"
  shows "\<not> http_ok r \<and> st' = st"
proof (cases "parse_save_card_payload payload")
  case (Inl e)
  with assms(5) show ?thesis by (auto simp: save_query_run_as_card_def split: if_split_asm)
next
  case (Inr parsed)
  then have "sv_title parsed = None"
    using assms(4) by (auto simp: parse_save_card_payload_def when_present_def Let_def result_bind_Inr_iff
        split: if_split_asm)
  then have "title_for_saved_card parsed run = py_strip question"
    using assms(2,3) by (auto simp: title_for_saved_card_def natural_language_question_for_saved_query_def)
  then have "length (title_for_saved_card parsed run) > 255" using assms(3) by (simp add: MAX_TITLE_LENGTH_def)
  with assms(1,5) Inr show ?thesis
    by (auto simp: save_query_run_as_card_def Let_def split: if_split_asm option.splits)
qed


section \<open>The theorems at a concrete store\<close>

lemma example_fresh: "fresh_ids example_request example_store"
proof -
  have "inj (rq_new_id example_request)"
    by (rule inj_on_inverseI [where g = "\<lambda>s. length s - 3"]) (simp add: example_request_def)
  moreover have "x \<notin> {''d1'', example_card_id}" if "x \<in> range (rq_new_id example_request)" for x
  proof -
    from that obtain n where n: "x = replicate (n + 3) CHR ''z''" by (auto simp: example_request_def)
    then have "hd x = CHR ''z''" by simp
    then show ?thesis by (auto simp: example_card_id_def)
  qed
  then have "range (rq_new_id example_request) \<inter> {''d1'', example_card_id} = {}" by blast
  moreover have "db_id ` set (ds_dashboards example_store) \<union> dc_id ` set (ds_cards example_store)
      \<union> dc_dashboard_id ` set (ds_cards example_store) = {''d1'', example_card_id}"
    by (simp add: example_store_def example_dashboard_def example_card_def insert_commute)
  ultimately show ?thesis unfolding fresh_ids_def by (simp only:)
qed

lemma example_step:
  "dash_step example_request example_store
     (snd (update_dashboard_editor_layout example_request ''d1'' example_layout_payload example_store))"
  by (rule Edit_Layout [OF surjective_pairing])

lemma dashboard_store_invariant_witness:
  "store_ok (snd (update_dashboard_editor_layout example_request ''d1'' example_layout_payload example_store))"
  by (rule dashboard_store_invariant
        [OF dash_reachable.Step [OF dash_reachable.Start example_fresh example_step] example_store_ok])

lemma dashboard_writes_authorized_witness: "may_write example_request example_dashboard"
proof (rule dashboard_writes_authorized [OF example_store_ok example_fresh example_step])
  show "example_dashboard \<in> set (ds_dashboards example_store)" by (simp add: example_store_def)
  show "rows_of (snd (update_dashboard_editor_layout example_request ''d1'' example_layout_payload example_store))
      (db_id example_dashboard) \<noteq> rows_of example_store (db_id example_dashboard)
    \<or> cards_in (snd (update_dashboard_editor_layout example_request ''d1'' example_layout_payload example_store))
      (db_id example_dashboard) \<noteq> cards_in example_store (db_id example_dashboard)"
    by code_simp
qed

lemma layout_version_guards_layouts_witness:
  "\<exists>d' \<in> set (ds_dashboards (snd (update_dashboard_editor_layout example_request ''d1''
        example_layout_payload example_store))).
     db_id d' = db_id example_dashboard
     \<and> (db_layout_version d' = db_layout_version example_dashboard
        \<and> layout_view (snd (update_dashboard_editor_layout example_request ''d1''
            example_layout_payload example_store)) (db_id example_dashboard)
          = layout_view example_store (db_id example_dashboard)
        \<or> db_layout_version d' = db_layout_version example_dashboard + 1)"
  by (rule layout_version_guards_layouts [OF example_step example_store_ok example_fresh])
    (simp add: example_store_def)

lemma archived_card_source_stays_readable_witness:
  "get_card_source example_request example_card_id (snd (archive_dashboard example_request ''d1'' example_store))
     = get_card_source example_request example_card_id example_store"
  by (rule archived_card_source_stays_readable [OF surjective_pairing example_store_ok])

definition example_long_run :: query_run where
  "example_long_run =
     \<lparr>qr_id = ''r1'', qr_user_id = Some ''u1'', qr_saved_query_id = None, qr_status = ''succeeded'',
      qr_natural_language_question = Some (replicate 300 CHR ''q''), qr_generated_sql = None,
      qr_executed_sql = None, qr_query_metadata = JNull, qr_created_at = 0, qr_completed_at = None\<rparr>"

lemma long_question_cannot_be_saved_witness:
  "\<not> http_ok (fst (save_query_run_as_card example_request ''r1'' (JDict [(''dashboard_id'', JStr example_card_id)])
      (example_store\<lparr>ds_runs := [example_long_run]\<rparr>)))"
proof (rule long_question_cannot_be_saved [OF _ _ _ _ surjective_pairing, THEN conjunct1])
  show "find_by qr_id ''r1'' (ds_runs (example_store\<lparr>ds_runs := [example_long_run]\<rparr>)) = Some example_long_run"
    by (simp add: find_by_def example_long_run_def)
  show "qr_natural_language_question example_long_run = Some (replicate 300 CHR ''q'')"
    by (simp add: example_long_run_def)
  have "py_isspace CHR ''q'' = False" by code_simp
  then have "py_strip (replicate 300 CHR ''q'') = replicate 300 CHR ''q''"
    by (simp add: py_strip_def dropWhile_none)
  then show "length (py_strip (replicate 300 CHR ''q'')) > MAX_TITLE_LENGTH"
    by (simp add: MAX_TITLE_LENGTH_def)
  show "\<not> present (JDict [(''dashboard_id'', JStr example_card_id)]) ''title''" by (simp add: present_def)
qed

lemma normalize_card_layouts_total_witness: "is_ok (normalize_card_layouts [example_card])"
  by (rule normalize_card_layouts_total)
    (simp_all add: example_card_def visualization_type_for_card_def safe_visualization_for_card_def)

lemma example_normalized:
  "normalize_card_layouts [example_card] = Inr (projr (normalize_card_layouts [example_card]))"
proof -
  have "is_ok (normalize_card_layouts [example_card])" by code_simp
  then show ?thesis by (auto simp: is_ok_iff)
qed

lemma normalize_card_layouts_sound_witness:
  "layouts_do_not_overlap (projr (normalize_card_layouts [example_card]))"
  using normalize_card_layouts_sound [OF example_normalized] by simp

lemma normalize_card_layouts_idempotent_witness:
  "normalize_card_layouts (map (with_layouts (projr (normalize_card_layouts [example_card]))) [example_card])
     = Inr (projr (normalize_card_layouts [example_card]))"
  by (rule normalize_card_layouts_idempotent [OF example_normalized]) simp


section \<open>Listings\<close>

lemma dashboard_view_of_total:
  assumes ok: "store_ok st" and few: "length (ds_cards st) \<le> 1667"
  shows "\<exists>vw. dashboard_view_of st d = Inr vw \<and> vw_dashboard vw = d"
proof -
  have "is_ok (normalize_card_layouts (cards_of st (db_id d)))"
  proof (rule normalize_card_layouts_total_aux)
    show "distinct (map dc_id (cards_of st (db_id d)))"
      using store_ok_parts [OF ok] by (intro distinct_cards_of) simp
    have "length (cards_of st (db_id d)) \<le> length (ds_cards st)" by (simp add: cards_of_def)
    with few show "length (cards_of st (db_id d)) \<le> 1667" by simp
    show "\<forall>dc \<in> set (cards_of st (db_id d)). is_ok (visualization_type_for_card dc)"
      using ok by (auto simp: set_cards_of store_ok_def cards_ok_def list_all_iff card_ok_def
          visualization_type_for_card_def is_ok_iff)
  qed
  then show ?thesis by (auto simp: is_ok_iff dashboard_view_of_def Let_def)
qed

text \<open>
  In a store that satisfies the invariant and holds at most 1667 cards, the catalog never fails
  and lists exactly the live dashboards the user may see, each once, oldest first.
\<close>
theorem dashboard_catalog_lists_visible:
  assumes ok: "store_ok st" and few: "length (ds_cards st) \<le> 1667"
  shows "\<exists>views. dashboard_catalog rq st = Success 200 views
    \<and> distinct (map (db_id \<circ> vw_dashboard) views)
    \<and> set (map vw_dashboard views)
        = {d \<in> set (ds_dashboards st). \<not> db_is_archived d \<and> dashboard_is_visible d (rq_user rq) (rq_ctx rq)}
    \<and> sorted (map (db_created_at \<circ> vw_dashboard) views)"
proof -
  let ?ds = "filter (\<lambda>d. dashboard_is_visible d (rq_user rq) (rq_ctx rq)) (live_dashboards st)"
  obtain f where f: "\<And>d. dashboard_view_of st d = Inr (f d) \<and> vw_dashboard (f d) = d"
    using dashboard_view_of_total [OF ok few] by metis
  then have "traverse (dashboard_view_of st) ?ds = Inr (map f ?ds)"
    by (intro traverse_map_Inr) simp
  then have cat: "dashboard_catalog rq st = Success 200 (map f ?ds)"
    by (simp add: dashboard_catalog_def http_of_def)
  have keyed: "map (g \<circ> vw_dashboard) (map f ?ds) = map g ?ds" for g :: "dashboard \<Rightarrow> 'z" using f by simp
  have "distinct (map db_id (ds_dashboards st))" using store_ok_parts [OF ok] by simp
  then have "distinct (map db_id (filter (\<lambda>d. \<not> db_is_archived d) (ds_dashboards st)))"
    by (rule distinct_map_filter)
  then have "distinct (map db_id (live_dashboards st))"
    by (simp add: live_dashboards_def distinct_map)
  then have "distinct (map db_id ?ds)" by (rule distinct_map_filter)
  moreover have "sorted (map db_created_at (live_dashboards st))"
  proof -
    have "sorted (map (\<lambda>d. (db_created_at d, db_id d)) (live_dashboards st))"
      by (simp add: live_dashboards_def)
    then show ?thesis by (auto simp: sorted_map elim!: sorted_wrt_mono_rel [rotated])
  qed
  then have "sorted (map db_created_at ?ds)" by (simp add: sorted_map sorted_wrt_filter)
  moreover have "set (map vw_dashboard (map f ?ds))
      = {d \<in> set (ds_dashboards st). \<not> db_is_archived d \<and> dashboard_is_visible d (rq_user rq) (rq_ctx rq)}"
    using f by (force simp: live_dashboards_def image_iff)
  ultimately show ?thesis unfolding cat using keyed [of db_id] keyed [of db_created_at] by metis
qed

lemma dashboard_catalog_lists_visible_witness:
  "\<exists>views. dashboard_catalog example_request example_store = Success 200 views
    \<and> distinct (map (db_id \<circ> vw_dashboard) views)
    \<and> set (map vw_dashboard views)
        = {d \<in> set (ds_dashboards example_store). \<not> db_is_archived d
            \<and> dashboard_is_visible d (rq_user example_request) (rq_ctx example_request)}
    \<and> sorted (map (db_created_at \<circ> vw_dashboard) views)"
  by (rule dashboard_catalog_lists_visible [OF example_store_ok]) (simp add: example_store_def)

end
