(* ===== verification/Action_Records.thy ===== *)
theory Action_Records
  imports Action_Policy Json
begin

text \<open>
  The rows of the action engine and of the IT domain it acts on
  (\<open>models/product.py\<close>, \<open>domains/it_operations/models.py\<close>), the status enumerations, the
  presentation texts (\<open>presentation.py\<close>), the text of a timestamp, and the builders of audit
  entries and notifications (\<open>audit.py\<close>, \<open>notifications.py\<close>).

  Columns no decision reads are left out: \<open>updated_at\<close>, the id and \<open>created_at\<close> of a
  notification and of an audit entry, and the request id, address and user agent of an audit
  entry, which the action engine never fills.
\<close>

section \<open>Enumerations\<close>

datatype supported_action_type = ReclaimUnusedLicense | DisableInactiveUser

datatype action_request_status =
    DraftPreview | PendingApproval | ApprovedExecuting | Completed
  | Rejected | Failed | Cancelled | Expired

datatype approval_status = ApPending | ApApproved | ApRejected | ApCancelled | ApExpired

fun action_type_value :: "supported_action_type \<Rightarrow> string" where
  "action_type_value ReclaimUnusedLicense = ''reclaim_unused_license''"
| "action_type_value DisableInactiveUser = ''disable_inactive_user''"

definition supported_action_type_of :: "string \<Rightarrow> supported_action_type option" where
  "supported_action_type_of s =
     (if s = ''reclaim_unused_license'' then Some ReclaimUnusedLicense
      else if s = ''disable_inactive_user'' then Some DisableInactiveUser else None)"

lemma supported_action_type_of_value [simp]:
  "supported_action_type_of (action_type_value t) = Some t"
  by (cases t) (simp_all add: supported_action_type_of_def)

lemma supported_action_type_of_Some:
  "supported_action_type_of s = Some t \<longleftrightarrow> s = action_type_value t"
  by (cases t) (auto simp: supported_action_type_of_def)

fun action_status_value :: "action_request_status \<Rightarrow> string" where
  "action_status_value DraftPreview = ''draft_preview''"
| "action_status_value PendingApproval = ''pending_approval''"
| "action_status_value ApprovedExecuting = ''approved_executing''"
| "action_status_value Completed = ''completed''"
| "action_status_value Rejected = ''rejected''"
| "action_status_value Failed = ''failed''"
| "action_status_value Cancelled = ''cancelled''"
| "action_status_value Expired = ''expired''"

fun approval_status_value :: "approval_status \<Rightarrow> string" where
  "approval_status_value ApPending = ''pending''"
| "approval_status_value ApApproved = ''approved''"
| "approval_status_value ApRejected = ''rejected''"
| "approval_status_value ApCancelled = ''cancelled''"
| "approval_status_value ApExpired = ''expired''"

section \<open>Rows\<close>

record action_request =
  ar_id :: uuid
  ar_action_type :: string
  ar_requested_by :: uuid
  ar_source_query_run_id :: "uuid option"
  ar_department_id :: "uuid option"
  ar_scope_id :: "uuid option"
  ar_scope_type :: "string option"
  ar_scope_key :: "string option"
  ar_access_context_snapshot :: json
  ar_access_decision_snapshot :: json
  ar_preview_json :: json
  ar_policy_flags :: json
  ar_skipped_records :: json
  ar_status :: action_request_status
  ar_priority :: string
  ar_reason :: "string option"
  ar_requires_admin :: bool
  ar_record_count :: int
  ar_skipped_count :: int
  ar_idempotency_key :: string
  ar_failure_user_safe :: "string option"
  ar_failure_internal :: "string option"
  ar_created_at :: instant
  ar_preview_generated_at :: "instant option"
  ar_preview_expires_at :: "instant option"
  ar_submitted_at :: "instant option"
  ar_approved_at :: "instant option"
  ar_executed_at :: "instant option"
  ar_completed_at :: "instant option"
  ar_expires_at :: "instant option"

record approval_request =
  ap_id :: uuid
  ap_requester :: "uuid option"
  ap_decided_by :: "uuid option"
  ap_action_request_id :: "uuid option"
  ap_request_type :: string
  ap_title :: string
  ap_description :: "string option"
  ap_status :: approval_status
  ap_payload :: json
  ap_policy_snapshot :: json
  ap_decision_reason :: "string option"
  ap_decided_at :: "instant option"
  ap_required_approver_role :: "string option"
  ap_expires_at :: "instant option"

record audit_log =
  al_actor :: uuid
  al_action_request_id :: uuid
  al_approval_request_id :: "uuid option"
  al_department_id :: "uuid option"
  al_scope_id :: "uuid option"
  al_scope_type :: "string option"
  al_scope_key :: "string option"
  al_severity :: string
  al_event_type :: string
  al_action :: string
  al_status :: string
  al_summary :: string
  al_metadata :: json
  al_before :: json
  al_after :: json
  al_self_approved :: "bool option"

record notification =
  nt_recipient :: uuid
  nt_actor :: uuid
  nt_type :: string
  nt_title :: string
  nt_body :: string
  nt_status :: string
  nt_related_type :: string
  nt_related_id :: uuid
  nt_payload :: json

record license_row =
  li_id :: uuid
  li_product_name :: string
  li_vendor :: string
  li_monthly_cost_usd :: rat

record directory_user =
  du_id :: uuid
  du_full_name :: string
  du_department_id :: uuid
  du_account_type :: string
  du_account_status :: string
  du_last_login_at :: "instant option"
  du_updated_at :: instant

record license_assignment =
  la_id :: uuid
  la_user_id :: uuid
  la_license_id :: uuid
  la_department_id :: uuid
  la_last_used_at :: "instant option"
  la_status :: string
  la_is_mandatory :: bool
  la_is_exception :: bool
  la_reclaimed_at :: "instant option"
  la_reclaimed_by :: "uuid option"

record login_event =
  le_user_id :: uuid
  le_department_id :: uuid
  le_event_type :: string
  le_occurred_at :: instant

record group_row =
  gr_id :: uuid
  gr_department_id :: "uuid option"
  gr_is_privileged :: bool

record group_membership =
  gm_user_id :: uuid
  gm_group_id :: uuid
  gm_department_id :: uuid

record security_event =
  se_user_id :: "uuid option"
  se_department_id :: "uuid option"
  se_severity :: string
  se_status :: string

record it_audit_event =
  ie_actor_app_user_id :: uuid
  ie_target_user_id :: uuid
  ie_department_id :: uuid
  ie_event_type :: string
  ie_resource_type :: string
  ie_resource_id :: uuid
  ie_description :: string
  ie_occurred_at :: instant
  ie_metadata :: json

record it_domain =
  it_licenses :: "license_row list"
  it_users :: "directory_user list"
  it_assignments :: "license_assignment list"
  it_logins :: "login_event list"
  it_groups :: "group_row list"
  it_memberships :: "group_membership list"
  it_security :: "security_event list"
  it_audits :: "it_audit_event list"

record action_store =
  st_actions :: "action_request list"
  st_approvals :: "approval_request list"
  st_audits :: "audit_log list"
  st_notifications :: "notification list"
  st_auth :: auth_tables
  st_domain :: it_domain

section \<open>Dictionaries\<close>

text \<open>\<open>d[k] = v\<close>: the value of an existing key is replaced in place, a new key goes last.\<close>

fun dict_set :: "string \<Rightarrow> json \<Rightarrow> (string \<times> json) list \<Rightarrow> (string \<times> json) list" where
  "dict_set k v [] = [(k, v)]"
| "dict_set k v ((k', v') # rest) = (if k' = k then (k, v) # rest else (k', v') # dict_set k v rest)"

fun dict_items :: "json \<Rightarrow> (string \<times> json) list" where
  "dict_items (JDict kvs) = kvs"
| "dict_items _ = []"

lemma map_of_dict_set [simp]: "map_of (dict_set k v kvs) = (map_of kvs)(k \<mapsto> v)"
  by (induction k v kvs rule: dict_set.induct) auto

lemma fst_dict_set: "fst ` set (dict_set k v kvs) = insert k (fst ` set kvs)"
  by (induction k v kvs rule: dict_set.induct) auto

lemma distinct_dict_set: "distinct (map fst kvs) \<Longrightarrow> distinct (map fst (dict_set k v kvs))"
proof (induction k v kvs rule: dict_set.induct)
  case (2 k v k' v' rest)
  then have "k' \<noteq> k \<Longrightarrow> k' \<notin> fst ` set (dict_set k v rest)" by (simp add: fst_dict_set)
  with 2 show ?case by auto
qed simp

definition jset :: "string \<Rightarrow> json \<Rightarrow> json \<Rightarrow> json" where
  "jset k v d = JDict (dict_set k v (dict_items d))"

lemma jget_jset [simp]: "jget (jset k v d) k' = (if k' = k then v else jget d k')"
  by (cases d) (auto simp: jset_def)

lemma is_dict_jset [simp]: "is_dict (jset k v d)"
  by (simp add: jset_def)

definition jopt :: "string option \<Rightarrow> json" where
  "jopt s = (case s of None \<Rightarrow> JNull | Some t \<Rightarrow> JStr t)"

section \<open>Timestamps\<close>

text \<open>
  \<open>value.isoformat().replace("+00:00", "Z")\<close> of a UTC datetime: the civil date of the day
  number, the time of the day, and the microseconds when they are not zero. Day 0 is
  1970-01-01; the date is computed in 400-year eras that start on 1 March.
\<close>

definition civil_date :: "int \<Rightarrow> int \<times> int \<times> int" where
  "civil_date day =
     (let z = day + 719468;
          era = z div 146097;
          doe = z mod 146097;
          yoe = (doe - doe div 1460 + doe div 36524 - doe div 146096) div 365;
          doy = doe - (365 * yoe + yoe div 4 - yoe div 100);
          mp = (5 * doy + 2) div 153;
          d = doy - (153 * mp + 2) div 5 + 1;
          m = (if mp < 10 then mp + 3 else mp - 9);
          y = yoe + era * 400 + (if m \<le> 2 then 1 else 0)
      in (y, m, d))"

primrec padded :: "nat \<Rightarrow> int \<Rightarrow> string" where
  "padded 0 n = []"
| "padded (Suc w) n = padded w (n div 10) @ [char_of (48 + nat (n mod 10))]"

definition timestamp :: "instant \<Rightarrow> string" where
  "timestamp t =
     (let (y, m, d) = civil_date (t div 86400000000);
          us = t mod 86400000000;
          s = us div 1000000;
          f = us mod 1000000
      in padded 4 y @ ''-'' @ padded 2 m @ ''-'' @ padded 2 d @ ''T''
         @ padded 2 (s div 3600) @ '':'' @ padded 2 (s div 60 mod 60) @ '':'' @ padded 2 (s mod 60)
         @ (if f = 0 then [] else ''.'' @ padded 6 f) @ ''Z'')"

lemma timestamp_examples:
  "timestamp 0 = ''1970-01-01T00:00:00Z''"
  "timestamp 1709164800000000 = ''2024-02-29T00:00:00Z''"
  "timestamp 1767225599000250 = ''2025-12-31T23:59:59.000250Z''"
  by code_simp+

section \<open>Presentation\<close>

record presentation =
  pr_request_title :: string
  pr_pending_body :: string
  pr_preview_summary :: string
  pr_requested_summary :: string
  pr_cancelled_summary :: string
  pr_rejected_summary :: string
  pr_rejected_body :: string
  pr_approved_summary :: string
  pr_executed_summary :: string
  pr_approved_body :: string
  pr_completed_body :: string
  pr_approver_completed_body :: string
  pr_target_id_field :: string
  pr_status_field :: string
  pr_before_status :: string
  pr_after_status :: string
  pr_estimated_impact_keys :: "string list"

fun PRESENTATIONS :: "supported_action_type \<Rightarrow> presentation" where
  "PRESENTATIONS ReclaimUnusedLicense =
     \<lparr>pr_request_title = ''Reclaim unused licenses'',
      pr_pending_body = ''A reclaim unused license request is ready for review.'',
      pr_preview_summary = ''Reclaim unused license preview created.'',
      pr_requested_summary = ''Reclaim unused license request submitted for approval.'',
      pr_cancelled_summary = ''Reclaim unused license request cancelled by the requester.'',
      pr_rejected_summary = ''Reclaim unused license request rejected.'',
      pr_rejected_body = ''Your reclaim unused license request was rejected.'',
      pr_approved_summary = ''Reclaim unused license request approved for synchronous execution.'',
      pr_executed_summary = ''Reclaim unused license action completed.'',
      pr_approved_body = ''Your reclaim unused license request was approved.'',
      pr_completed_body = ''Your reclaim unused license action completed.'',
      pr_approver_completed_body = ''The reclaim unused license action completed.'',
      pr_target_id_field = ''license_assignment_id'', pr_status_field = ''status'',
      pr_before_status = ''active'', pr_after_status = ''reclaimed'',
      pr_estimated_impact_keys = [''estimated_monthly_savings'']\<rparr>"
| "PRESENTATIONS DisableInactiveUser =
     \<lparr>pr_request_title = ''Disable inactive users'',
      pr_pending_body = ''A disable inactive user request is ready for review.'',
      pr_preview_summary = ''Disable inactive user preview created.'',
      pr_requested_summary = ''Disable inactive user request submitted for approval.'',
      pr_cancelled_summary = ''Disable inactive user request cancelled by the requester.'',
      pr_rejected_summary = ''Disable inactive user request rejected.'',
      pr_rejected_body = ''Your disable inactive user request was rejected.'',
      pr_approved_summary = ''Disable inactive user request approved for synchronous execution.'',
      pr_executed_summary = ''Disable inactive user action completed.'',
      pr_approved_body = ''Your disable inactive user request was approved.'',
      pr_completed_body = ''Your disable inactive user action completed.'',
      pr_approver_completed_body = ''The disable inactive user action completed.'',
      pr_target_id_field = ''directory_user_id'', pr_status_field = ''account_status'',
      pr_before_status = ''active'', pr_after_status = ''disabled'',
      pr_estimated_impact_keys = []\<rparr>"

definition action_presentation :: "string \<Rightarrow> py_exn + presentation" where
  "action_presentation action_type =
     (case supported_action_type_of action_type of
        None \<Rightarrow> Inl ValueError
      | Some t \<Rightarrow> Inr (PRESENTATIONS t))"

section \<open>Audit entries\<close>

definition ACTION_TIMELINE_ORDER :: "string list" where
  "ACTION_TIMELINE_ORDER =
     [''action_preview_created'', ''action_requested'', ''action_approval_escalated'',
      ''action_approved'', ''action_executed'', ''action_rejected'', ''action_cancelled'',
      ''action_expired'', ''action_failed'']"

text \<open>\<open>isinstance(value, str | int | bool)\<close>; an id is held as its text.\<close>

fun audit_scalar :: "json \<Rightarrow> bool" where
  "audit_scalar (JStr _) = True"
| "audit_scalar (JInt _) = True"
| "audit_scalar (JBool _) = True"
| "audit_scalar _ = False"

definition AUDIT_METADATA_KEYS :: "string list" where
  "AUDIT_METADATA_KEYS =
     [''approval_request_id'', ''source_query_run_id'', ''notification_count'',
      ''cancellation_reason'', ''expiration_kind'', ''executed_count'', ''skipped_count'',
      ''override_used'', ''failure_category'', ''escalation_reason'']"

fun is_str :: "json \<Rightarrow> bool" where
  "is_str (JStr _) = True"
| "is_str _ = False"

definition safe_audit_metadata :: "action_request \<Rightarrow> json \<Rightarrow> json" where
  "safe_audit_metadata ar metadata =
     (let base = [(''action_type'', JStr (ar_action_type ar)),
                  (''record_count'', JInt (ar_record_count ar)),
                  (''skipped_count'', JInt (ar_skipped_count ar)),
                  (''requires_admin'', JBool (ar_requires_admin ar))];
          safe = foldl (\<lambda>acc k. if audit_scalar (jget metadata k)
                                then dict_set k (jget metadata k) acc else acc)
                   base AUDIT_METADATA_KEYS
      in JDict (case jget metadata ''policy_flag_codes'' of
                  JList codes \<Rightarrow> dict_set ''policy_flag_codes'' (JList (filter is_str codes)) safe
                | _ \<Rightarrow> safe))"

record audit_event =
  ev_type :: string
  ev_action :: string
  ev_status :: action_request_status
  ev_summary :: string
  ev_metadata :: json
  ev_before :: json
  ev_after :: json
  ev_severity :: string
  ev_self_approved :: "bool option"

definition build_action_audit_log ::
  "uuid \<Rightarrow> action_request \<Rightarrow> approval_request option \<Rightarrow> audit_event \<Rightarrow> audit_log" where
  "build_action_audit_log actor ar ap e =
     \<lparr>al_actor = actor, al_action_request_id = ar_id ar,
      al_approval_request_id = map_option ap_id ap, al_department_id = ar_department_id ar,
      al_scope_id = ar_scope_id ar, al_scope_type = ar_scope_type ar,
      al_scope_key = ar_scope_key ar, al_severity = ev_severity e,
      al_event_type = ev_type e, al_action = ev_action e,
      al_status = action_status_value (ev_status e), al_summary = ev_summary e,
      al_metadata = safe_audit_metadata ar (ev_metadata e), al_before = ev_before e,
      al_after = ev_after e, al_self_approved = ev_self_approved e\<rparr>"

section \<open>Notifications\<close>

definition scope_payload :: "action_request \<Rightarrow> json" where
  "scope_payload ar =
     JDict [(''id'', jopt (ar_scope_id ar)), (''type'', jopt (ar_scope_type ar)),
            (''key'', jopt (ar_scope_key ar))]"

definition build_pending_approval_notification ::
  "presentation \<Rightarrow> action_request \<Rightarrow> approval_request \<Rightarrow> app_user \<Rightarrow> notification" where
  "build_pending_approval_notification pr ar ap recipient =
     \<lparr>nt_recipient = au_id recipient, nt_actor = ar_requested_by ar,
      nt_type = ''action_pending_approval'', nt_title = ''Action request pending approval'',
      nt_body = pr_pending_body pr, nt_status = ''unread'',
      nt_related_type = ''action_request'', nt_related_id = ar_id ar,
      nt_payload = JDict
        [(''action_request_id'', JStr (ar_id ar)), (''approval_request_id'', JStr (ap_id ap)),
         (''action_type'', JStr (ar_action_type ar)), (''priority'', JStr (ar_priority ar)),
         (''scope'', scope_payload ar),
         (''expires_at'', jopt (map_option timestamp (ap_expires_at ap)))]\<rparr>"

definition build_pending_approval_notifications ::
  "action_request \<Rightarrow> approval_request \<Rightarrow> app_user list \<Rightarrow> py_exn + notification list" where
  "build_pending_approval_notifications ar ap recipients =
     result_bind (action_presentation (ar_action_type ar)) (\<lambda>pr.
       Inr (map (build_pending_approval_notification pr ar ap) recipients))"

definition build_action_notification ::
  "uuid \<Rightarrow> uuid \<Rightarrow> string \<Rightarrow> string \<Rightarrow> string \<Rightarrow> action_request \<Rightarrow> approval_request \<Rightarrow> notification" where
  "build_action_notification recipient actor ty title body ar ap =
     \<lparr>nt_recipient = recipient, nt_actor = actor, nt_type = ty, nt_title = title,
      nt_body = body, nt_status = ''unread'', nt_related_type = ''action_request'',
      nt_related_id = ar_id ar,
      nt_payload = JDict
        [(''action_request_id'', JStr (ar_id ar)), (''approval_request_id'', JStr (ap_id ap)),
         (''action_type'', JStr (ar_action_type ar)),
         (''status'', JStr (action_status_value (ar_status ar)))]\<rparr>"

text \<open>The policy flags of an action that make its approval riskier.\<close>

definition flag_is_true :: "json \<Rightarrow> string \<Rightarrow> bool" where
  "flag_is_true policy key \<longleftrightarrow> jget policy key = JBool True"

definition action_requires_override :: "action_request \<Rightarrow> bool" where
  "action_requires_override ar \<longleftrightarrow>
     flag_is_true (ar_policy_flags ar) ''requires_policy_override''
     \<or> flag_is_true (ar_policy_flags ar) ''revalidation_requires_policy_override''"

definition action_crosses_scopes :: "action_request \<Rightarrow> bool" where
  "action_crosses_scopes ar \<longleftrightarrow>
     ar_scope_type ar = Some ''global'' \<or> ar_record_count ar > 20
     \<or> flag_is_true (ar_policy_flags ar) ''crosses_scopes''
     \<or> flag_is_true (ar_policy_flags ar) ''revalidation_crosses_scopes''"

text \<open>\<open>_approval_decision\<close>: the question an action as stored puts to the approval policy.\<close>

definition action_question :: "action_request \<Rightarrow> approval_question" where
  "action_question ar =
     \<lparr>aq_requester = ar_requested_by ar, aq_scope_type = or_empty (ar_scope_type ar),
      aq_scope_key = or_empty (ar_scope_key ar), aq_record_count = ar_record_count ar,
      aq_crosses_scopes = action_crosses_scopes ar,
      aq_requires_policy_override = action_requires_override ar\<rparr>"

definition approval_decision :: "action_request \<Rightarrow> user_access_context \<Rightarrow> action_policy_decision" where
  "approval_decision ar ctx = evaluate_action_approval ctx (action_question ar)"

definition active_users :: "auth_tables \<Rightarrow> app_user list" where
  "active_users db = sort_key au_id (filter (\<lambda>u. au_status u = ''active'') (at_users db))"

text \<open>\<open>eligible_approvers\<close>, ordered by id; \<open>ord\<close> is the database's scope order.\<close>

definition eligible_approvers :: "scope_order \<Rightarrow> auth_tables \<Rightarrow> action_request \<Rightarrow> app_user list" where
  "eligible_approvers ord db ar =
     filter (\<lambda>u. pd_allowed (approval_decision ar (build_user_access_context ord u db)))
       (active_users db)"

text \<open>
  \<open>_dedupe_notifications\<close>: one notification per recipient, type and resource, at the place
  of the first and with the content of the last; \<open>_active_notifications\<close> drops those whose
  recipient is not an active user.
\<close>

definition notification_key :: "notification \<Rightarrow> uuid \<times> string \<times> uuid" where
  "notification_key n = (nt_recipient n, nt_type n, nt_related_id n)"

fun keep_last :: "notification \<Rightarrow> notification list \<Rightarrow> notification list" where
  "keep_last n [] = [n]"
| "keep_last n (m # ms) =
     (if notification_key m = notification_key n then n # ms else m # keep_last n ms)"

definition dedupe_notifications :: "notification list \<Rightarrow> notification list" where
  "dedupe_notifications ns = foldl (\<lambda>acc n. keep_last n acc) [] ns"

definition active_notifications :: "auth_tables \<Rightarrow> notification list \<Rightarrow> notification list" where
  "active_notifications db ns =
     filter (\<lambda>n. list_ex (\<lambda>u. au_id u = nt_recipient n \<and> au_status u = ''active'') (at_users db)) ns"

lemma approval_decision_allowed_iff:
  "pd_allowed (approval_decision ar ctx) \<longleftrightarrow> approval_admits ctx (action_question ar)"
  by (simp add: approval_decision_def evaluate_action_approval_allowed)

lemma keep_last_keys:
  "notification_key ` set (keep_last n ms) = insert (notification_key n) (notification_key ` set ms)"
  by (induction n ms rule: keep_last.induct) auto

lemma keep_last_distinct:
  "distinct (map notification_key ms) \<Longrightarrow> distinct (map notification_key (keep_last n ms))"
proof (induction n ms rule: keep_last.induct)
  case (2 n m ms)
  have "notification_key m \<notin> notification_key ` set (keep_last n ms)"
    if "notification_key m \<noteq> notification_key n"
    using 2 that by (simp add: keep_last_keys)
  with 2 show ?case by auto
qed simp

lemma dedupe_notifications_distinct: "distinct (map notification_key (dedupe_notifications ns))"
proof -
  have "distinct (map notification_key acc) \<Longrightarrow>
      distinct (map notification_key (foldl (\<lambda>acc n. keep_last n acc) acc ns))" for acc
    by (induction ns arbitrary: acc) (simp_all add: keep_last_distinct)
  then show ?thesis by (simp add: dedupe_notifications_def)
qed

end
