(* ===== verification/Preview_Snapshot.thy ===== *)
theory Preview_Snapshot
  imports Action_Records Uuid_Text
begin

text \<open>
  The check every stored preview passes before an action moves (\<open>validate_action_snapshot\<close> in
  \<open>action_engine/preview.py\<close>): the documents have the expected shape, the counts of the row and
  of the summary are the lengths of the record lists, the flags are the ones the records call
  for, and the money adds up.

  A check is a sum: \<open>InvalidSnapshot\<close> stands for \<open>InvalidPreviewSnapshotError\<close>, and
  \<open>SnapshotRaised\<close> for a Python exception the code does not convert.
\<close>

section \<open>Decimal numbers in text\<close>

text \<open>
  \<open>Decimal(s)\<close>: surrounding whitespace and underscores are dropped, then a sign and a number
  with an optional fraction and exponent, an infinity or a NaN. A finite decimal is its sign,
  its coefficient and its exponent; exponents beyond the range of the C library are not treated.
\<close>

datatype decimal = DecFinite bool nat int | DecInfinite bool | DecNaN

definition lower_char :: "char \<Rightarrow> char" where
  "lower_char c = (let n = (of_char c :: nat) in if 65 \<le> n \<and> n \<le> 90 then char_of (n + 32) else c)"

fun digits_value :: "nat \<Rightarrow> string \<Rightarrow> nat" where
  "digits_value acc [] = acc"
| "digits_value acc (c # cs) = digits_value (10 * acc + (of_char c - 48)) cs"

definition all_digits :: "string \<Rightarrow> bool" where
  "all_digits s \<longleftrightarrow> list_all is_ascii_digit s"

definition split_sign :: "string \<Rightarrow> bool \<times> string" where
  "split_sign s =
     (if take 1 s = ''-'' then (True, drop 1 s)
      else if take 1 s = ''+'' then (False, drop 1 s) else (False, s))"

definition parse_exponent :: "string \<Rightarrow> int option" where
  "parse_exponent s =
     (if s = [] then Some 0
      else if hd s = CHR ''e'' then
        (let (neg, ds) = split_sign (tl s)
         in if ds = [] \<or> \<not> all_digits ds then None
            else Some (if neg then - int (digits_value 0 ds) else int (digits_value 0 ds)))
      else None)"

definition parse_decimal :: "string \<Rightarrow> decimal option" where
  "parse_decimal text =
     (let (neg, s) = split_sign (filter (\<lambda>c. c \<noteq> CHR ''_'') (py_strip text));
          low = map lower_char s
      in if low = ''inf'' \<or> low = ''infinity'' then Some (DecInfinite neg)
         else if take 3 low = ''nan'' \<and> all_digits (drop 3 low) then Some DecNaN
         else if take 4 low = ''snan'' \<and> all_digits (drop 4 low) then Some DecNaN
         else
           (let whole = takeWhile is_ascii_digit low;
                after = dropWhile is_ascii_digit low;
                dotted = (take 1 after = ''.'');
                frac = (if dotted then takeWhile is_ascii_digit (drop 1 after) else []);
                rest = (if dotted then dropWhile is_ascii_digit (drop 1 after) else after)
            in if whole = [] \<and> frac = [] then None
               else map_option
                      (\<lambda>e. DecFinite neg (digits_value 0 (whole @ frac)) (e - int (length frac)))
                      (parse_exponent rest)))"

definition ten_to :: "int \<Rightarrow> rat" where
  "ten_to e = (if 0 \<le> e then 10 ^ nat e else 1 / 10 ^ nat (- e))"

fun decimal_value :: "decimal \<Rightarrow> rat" where
  "decimal_value (DecFinite neg c e) = (if neg then -1 else 1) * of_nat c * ten_to e"
| "decimal_value _ = 0"

text \<open>\<open>amount.is_finite() and amount >= 0\<close>, which \<open>-0\<close> satisfies.\<close>

fun finite_nonnegative :: "decimal \<Rightarrow> bool" where
  "finite_nonnegative (DecFinite neg c e) \<longleftrightarrow> \<not> neg \<or> c = 0"
| "finite_nonnegative _ \<longleftrightarrow> False"

definition money_text_ok :: "string \<Rightarrow> bool" where
  "money_text_ok s = (case parse_decimal s of None \<Rightarrow> False | Some d \<Rightarrow> finite_nonnegative d)"

text \<open>
  Addition of non-negative decimals in the default context: 28 significant digits, halves
  rounded to even.
\<close>

fun ndigits :: "nat \<Rightarrow> nat" where
  "ndigits n = (if n < 10 then 1 else Suc (ndigits (n div 10)))"

declare ndigits.simps [simp del]

definition round28 :: "nat \<times> int \<Rightarrow> nat \<times> int" where
  "round28 = (\<lambda>(c, e).
     if ndigits c \<le> 28 then (c, e)
     else let k = ndigits c - 28; q = c div 10 ^ k; r = c mod 10 ^ k
          in (if 2 * r > 10 ^ k \<or> (2 * r = 10 ^ k \<and> odd q) then q + 1 else q, e + int k))"

definition dec_add :: "nat \<times> int \<Rightarrow> nat \<times> int \<Rightarrow> nat \<times> int" where
  "dec_add = (\<lambda>(c, e) (c', e').
     let m = min e e' in round28 (c * 10 ^ nat (e - m) + c' * 10 ^ nat (e' - m), m))"

fun decimal_parts :: "decimal \<Rightarrow> nat \<times> int" where
  "decimal_parts (DecFinite neg c e) = (c, e)"
| "decimal_parts _ = (0, 0)"

definition decimal_of :: "json \<Rightarrow> decimal" where
  "decimal_of v = (case v of JStr s \<Rightarrow> (case parse_decimal s of None \<Rightarrow> DecNaN | Some d \<Rightarrow> d) | _ \<Rightarrow> DecNaN)"

definition sum_money :: "json list \<Rightarrow> rat" where
  "sum_money records =
     (let total = foldl (\<lambda>acc r. dec_add acc (decimal_parts (decimal_of (jget r ''monthly_cost_usd''))))
                    (0, 0) records
      in of_nat (fst total) * ten_to (snd total))"

lemma parse_decimal_examples:
  "parse_decimal ''12.50'' = Some (DecFinite False 1250 (-2))"
  "parse_decimal '' -1_0e-3 '' = Some (DecFinite True 10 (-3))"
  "parse_decimal ''.'' = None" "parse_decimal ''Infinity'' = Some (DecInfinite False)"
  by code_simp+

section \<open>Checks\<close>

datatype snapshot_error = InvalidSnapshot | SnapshotRaised py_exn

type_synonym check = "snapshot_error + unit"

abbreviation need :: "bool \<Rightarrow> check" where
  "need b \<equiv> ensure b InvalidSnapshot"

primrec checks :: "check list \<Rightarrow> check" where
  "checks [] = Inr ()"
| "checks (c # cs) = (case c of Inl e \<Rightarrow> Inl e | Inr _ \<Rightarrow> checks cs)"

lemma checks_Inr_iff: "checks cs = Inr u \<longleftrightarrow> list_all (\<lambda>c. c = Inr ()) cs"
  by (induction cs) (auto split: sum.splits)

lemma checks_ok_simps [simp]:
  "checks [] = Inr u"
  "checks (c # cs) = Inr u \<longleftrightarrow> c = Inr () \<and> checks cs = Inr ()"
  by (auto split: sum.splits)

lemma checks_map_ok: "checks (map f xs) = Inr u \<longleftrightarrow> (\<forall>x \<in> set xs. f x = Inr ())"
  by (auto simp: checks_Inr_iff list_all_iff)

declare checks.simps [simp del]

lemma checks_simps:
  "checks [] = Inr ()" "checks (c # cs) = (case c of Inl e \<Rightarrow> Inl e | Inr _ \<Rightarrow> checks cs)"
  by (simp_all add: checks.simps)

fun is_list :: "json \<Rightarrow> bool" where
  "is_list (JList _) = True"
| "is_list _ = False"

fun jlist :: "json \<Rightarrow> json list" where
  "jlist (JList xs) = xs"
| "jlist _ = []"

fun jstr :: "json \<Rightarrow> string" where
  "jstr (JStr s) = s"
| "jstr _ = []"

fun is_bool :: "json \<Rightarrow> bool" where
  "is_bool (JBool _) = True"
| "is_bool _ = False"

definition nonempty_str :: "json \<Rightarrow> bool" where
  "nonempty_str v \<longleftrightarrow> is_str v \<and> jstr v \<noteq> []"

definition none_or_str :: "json \<Rightarrow> bool" where
  "none_or_str v \<longleftrightarrow> v = JNull \<or> is_str v"

text \<open>\<open>isinstance(v, int) and not isinstance(v, bool) and v >= 0\<close>.\<close>

definition count_int :: "json \<Rightarrow> bool" where
  "count_int v = (case strict_int v of None \<Rightarrow> False | Some i \<Rightarrow> 0 \<le> i)"

definition validated_uuid :: "json \<Rightarrow> uuid option" where
  "validated_uuid v = (case v of JStr s \<Rightarrow> parse_uuid s | _ \<Rightarrow> None)"

text \<open>\<open>isinstance(codes, list) and codes and all(isinstance(code, str) and code for code in codes)\<close>.\<close>

definition override_codes_ok :: "json \<Rightarrow> bool" where
  "override_codes_ok v \<longleftrightarrow> is_list v \<and> jlist v \<noteq> [] \<and> list_all nonempty_str (jlist v)"

definition validate_record :: "json \<Rightarrow> bool \<Rightarrow> bool \<Rightarrow> check" where
  "validate_record record actionable override =
     (let ty = jget record ''record_type''; scope = jget record ''scope'';
          cost = jget record ''monthly_cost_usd''; codes = jget record ''override_reason_codes''
      in checks
        [need (is_dict record),
         (case in_str_set ty [''directory_user'', ''license_assignment''] of
            Inl e \<Rightarrow> Inl (SnapshotRaised e) | Inr b \<Rightarrow> need b),
         need (actionable \<longrightarrow> ty = JStr ''license_assignment''),
         need (validated_uuid (jget record ''record_id'') \<noteq> None),
         need (if ty = JStr ''license_assignment''
               then validated_uuid (jget record ''license_assignment_id'') \<noteq> None
                    \<and> validated_uuid (jget record ''license_assignment_id'')
                        = validated_uuid (jget record ''record_id'')
               else jget record ''license_assignment_id'' = JNull),
         need (is_dict scope),
         need (nonempty_str (jget scope ''type'') \<and> nonempty_str (jget scope ''key'')),
         need (jget scope ''id'' = JNull \<or> validated_uuid (jget scope ''id'') \<noteq> None),
         need (list_all (\<lambda>k. none_or_str (jget record k))
                 [''user_display_label'', ''license_product'', ''license_vendor'',
                  ''last_used_at'', ''monthly_cost_usd'']),
         need (nonempty_str (jget record ''reason_code'') \<and> nonempty_str (jget record ''reason'')),
         need (is_bool (jget record ''high_confidence'')),
         need (actionable \<longrightarrow> jget scope ''id'' \<noteq> JNull
               \<and> list_all (\<lambda>k. nonempty_str (jget record k))
                   [''user_display_label'', ''license_product'', ''license_vendor'',
                    ''monthly_cost_usd'']),
         need (cost \<noteq> JNull \<longrightarrow> money_text_ok (jstr cost)),
         need (if override
               then override_codes_ok codes \<and> jget record ''reason_code'' = hd (jlist codes)
               else codes = JNull)])"

definition validate_disable_record :: "json \<Rightarrow> bool \<Rightarrow> bool \<Rightarrow> check" where
  "validate_disable_record record actionable override =
     (let scope = jget record ''scope''; codes = jget record ''override_reason_codes''
      in checks
        [need (is_dict record \<and> jget record ''record_type'' = JStr ''directory_user''),
         need (validated_uuid (jget record ''record_id'') \<noteq> None),
         need (validated_uuid (jget record ''directory_user_id'')
                 = validated_uuid (jget record ''record_id'')),
         need (is_dict scope),
         need (nonempty_str (jget scope ''type'') \<and> nonempty_str (jget scope ''key'')),
         need (jget scope ''id'' = JNull \<or> validated_uuid (jget scope ''id'') \<noteq> None),
         need (actionable \<longrightarrow> jget scope ''id'' \<noteq> JNull),
         need (list_all (\<lambda>k. none_or_str (jget record k))
                 [''user_display_label'', ''last_successful_login_at'']),
         need (actionable \<longrightarrow> is_str (jget record ''user_display_label'')),
         need (nonempty_str (jget record ''reason_code'') \<and> nonempty_str (jget record ''reason'')),
         need (if override
               then override_codes_ok codes \<and> distinct (jlist codes)
                    \<and> jget record ''reason_code'' = hd (jlist codes)
               else codes = JNull)])"

text \<open>\<open>_validate_exclusions\<close>; \<open>_validate_policy_flags\<close> with the codes it returns.\<close>

definition exclusion_ok :: "json \<Rightarrow> bool" where
  "exclusion_ok item \<longleftrightarrow>
     is_dict item \<and> is_str (jget item ''reason_code'') \<and> count_int (jget item ''count'')"

definition validate_exclusions :: "json \<Rightarrow> check" where
  "validate_exclusions v = need (is_list v \<and> list_all exclusion_ok (jlist v))"

definition policy_flag_ok :: "json \<Rightarrow> bool" where
  "policy_flag_ok flag \<longleftrightarrow>
     is_dict flag \<and> nonempty_str (jget flag ''code'') \<and> is_str (jget flag ''reason'')
     \<and> flag_is_true flag ''requires_admin'' \<and> flag_is_true flag ''admin_overridable''"

definition flag_codes :: "json \<Rightarrow> string list" where
  "flag_codes flags = map (\<lambda>f. jstr (jget f ''code'')) (jlist flags)"

definition validate_policy_flags :: "json \<Rightarrow> check" where
  "validate_policy_flags flags =
     need (list_all policy_flag_ok (jlist flags) \<and> distinct (flag_codes flags))"

definition record_override_codes :: "json \<Rightarrow> string list" where
  "record_override_codes record = map jstr (jlist (jget record ''override_reason_codes''))"

definition all_override_codes :: "json list \<Rightarrow> string list" where
  "all_override_codes overrides = concat (map record_override_codes overrides)"

definition same_set :: "string list \<Rightarrow> string list \<Rightarrow> bool" where
  "same_set xs ys \<longleftrightarrow> list_all (\<lambda>x. x \<in> set ys) xs \<and> list_all (\<lambda>y. y \<in> set xs) ys"

lemma same_set_iff [simp]: "same_set xs ys \<longleftrightarrow> set xs = set ys"
  by (auto simp: same_set_def list_all_iff)

definition expected_flag_codes :: "action_request \<Rightarrow> json list \<Rightarrow> nat \<Rightarrow> string list" where
  "expected_flag_codes ar overrides affected =
     all_override_codes overrides
     @ (if affected > 20 then [''record_count_over_analyst_threshold''] else [])
     @ (if ar_scope_type ar = Some ''global'' then [''global_scope_request''] else [])"

definition list_parts :: "action_request \<Rightarrow> json list \<times> json list \<times> json list" where
  "list_parts ar =
     (jlist (jget (ar_preview_json ar) ''eligible_records''),
      jlist (jget (ar_preview_json ar) ''override_required_records''),
      jlist (jget (ar_skipped_records ar) ''records''))"

text \<open>The tests both validators share: shape of the documents, counts of the row, flags.\<close>

definition snapshot_shape :: "action_request \<Rightarrow> supported_action_type \<Rightarrow> check" where
  "snapshot_shape ar ty =
     (let preview = ar_preview_json ar; policy = ar_policy_flags ar; skipped = ar_skipped_records ar
      in checks
        [need (is_dict preview \<and> is_dict policy), need (is_dict skipped),
         need (json_eq_int (jget preview ''schema_version'') 1),
         need (jget preview ''action_type'' = JStr (action_type_value ty)),
         need (ar_action_type ar = action_type_value ty),
         need (is_dict (jget preview ''summary'')),
         need (is_list (jget preview ''eligible_records'')
               \<and> is_list (jget preview ''override_required_records'')
               \<and> is_list (jget skipped ''records'')),
         need (is_list (jget policy ''flags''))])"

definition snapshot_flags :: "action_request \<Rightarrow> check" where
  "snapshot_flags ar =
     (let (eligible, overrides, skipped) = list_parts ar;
          policy = ar_policy_flags ar;
          expected = expected_flag_codes ar overrides (length eligible + length overrides);
          cross = (''cross_scope_target'' \<in> set (all_override_codes overrides))
      in checks
        [validate_policy_flags (jget policy ''flags''),
         need (same_set (flag_codes (jget policy ''flags'')) expected),
         need (jget policy ''requires_admin'' = JBool (expected \<noteq> [])),
         need (ar_requires_admin ar
               = (expected \<noteq> [] \<or> flag_is_true policy ''revalidation_requires_admin'')),
         need (jget policy ''requires_policy_override'' = JBool (overrides \<noteq> [])),
         need (jget policy ''crosses_scopes'' = JBool cross)])"

section \<open>Reclaim snapshots\<close>

definition validate_summary :: "json \<Rightarrow> int \<Rightarrow> check" where
  "validate_summary summary affected =
     checks
       [need (list_all (\<lambda>k. count_int (jget summary k))
          [''affected_license_assignment_count'', ''affected_user_count'', ''normal_eligible_count'',
           ''skipped_count'', ''override_required_count'', ''high_confidence_count'']),
        need (the (strict_int (jget summary ''affected_user_count'')) \<le> affected),
        need (the (strict_int (jget summary ''high_confidence_count'')) \<le> affected),
        need (list_all (\<lambda>k. is_str (jget summary k) \<and> money_text_ok (jstr (jget summary k)))
          [''estimated_monthly_savings'', ''override_estimated_monthly_savings''])]"

definition high_confidence_total :: "json list \<Rightarrow> int" where
  "high_confidence_total records =
     int (length (filter (\<lambda>r. flag_is_true r ''high_confidence'') records))"

definition validate_reclaim_snapshot :: "action_request \<Rightarrow> check" where
  "validate_reclaim_snapshot ar =
     (let (eligible, overrides, skipped) = list_parts ar;
          summary = jget (ar_preview_json ar) ''summary'';
          affected = int (length eligible + length overrides)
      in checks
        [snapshot_shape ar ReclaimUnusedLicense,
         checks (map (\<lambda>r. validate_record r True False) eligible),
         checks (map (\<lambda>r. validate_record r True True) overrides),
         checks (map (\<lambda>r. validate_record r False False) skipped),
         need (json_eq_int (jget summary ''normal_eligible_count'') (int (length eligible))),
         need (json_eq_int (jget summary ''override_required_count'') (int (length overrides))),
         need (json_eq_int (jget summary ''skipped_count'') (int (length skipped))),
         need (json_eq_int (jget summary ''affected_license_assignment_count'') affected),
         need (ar_record_count ar = affected),
         need (ar_skipped_count ar = int (length skipped)),
         validate_summary summary affected,
         need (json_eq_int (jget summary ''high_confidence_count'')
                 (high_confidence_total (eligible @ overrides))),
         need (decimal_value (decimal_of (jget summary ''estimated_monthly_savings''))
                 = sum_money eligible),
         need (decimal_value (decimal_of (jget summary ''override_estimated_monthly_savings''))
                 = sum_money overrides),
         validate_exclusions (jget (ar_skipped_records ar) ''exclusions_by_reason''),
         snapshot_flags ar])"

section \<open>Disable snapshots\<close>

definition count_code :: "string \<Rightarrow> json list \<Rightarrow> int" where
  "count_code code records =
     int (length (filter (\<lambda>r. jget r ''reason_code'' = JStr code) records))"

definition count_override :: "string \<Rightarrow> json list \<Rightarrow> int" where
  "count_override code records =
     int (length (filter (\<lambda>r. code \<in> set (record_override_codes r)) records))"

definition expected_disable_counts :: "action_request \<Rightarrow> (string \<times> int) list" where
  "expected_disable_counts ar =
     (let (eligible, overrides, skipped) = list_parts ar
      in [(''affected_users_count'', int (length eligible + length overrides)),
          (''normal_eligible_count'', int (length eligible)),
          (''skipped_count'', int (length skipped)),
          (''override_required_count'', int (length overrides)),
          (''privileged_users_count'', count_override ''privileged_user'' overrides),
          (''open_security_events_count'', count_override ''open_critical_security_event'' overrides),
          (''service_accounts_excluded_count'', count_code ''service_account_excluded'' skipped),
          (''recent_login_skipped_count'', count_code ''recent_successful_login'' skipped)])"

definition exclusion_pairs :: "json \<Rightarrow> (string \<times> int) list" where
  "exclusion_pairs v =
     map (\<lambda>i. (jstr (jget i ''reason_code''), the (strict_int (jget i ''count'')))) (jlist v)"

definition expected_exclusions :: "json list \<Rightarrow> json list \<Rightarrow> string list" where
  "expected_exclusions skipped overrides =
     map (\<lambda>r. jstr (jget r ''reason_code'')) skipped @ all_override_codes overrides"

text \<open>\<open>actual == dict(Counter(expected_codes))\<close> for an exclusion list without a repeated code.\<close>

definition exclusions_match :: "(string \<times> int) list \<Rightarrow> string list \<Rightarrow> bool" where
  "exclusions_match pairs expected \<longleftrightarrow>
     distinct (map fst pairs) \<and> same_set (map fst pairs) expected
     \<and> list_all (\<lambda>(c, n). n = int (count_list expected c)) pairs"

definition validate_disable_exclusions :: "json \<Rightarrow> string list \<Rightarrow> check" where
  "validate_disable_exclusions v expected =
     checks [validate_exclusions v, need (exclusions_match (exclusion_pairs v) expected)]"

definition scope_ids_ok :: "json \<Rightarrow> bool" where
  "scope_ids_ok v \<longleftrightarrow>
     is_list v \<and> list_all (\<lambda>i. validated_uuid i \<noteq> None) (jlist v)
     \<and> distinct (map validated_uuid (jlist v))"

definition scope_id_set :: "json \<Rightarrow> uuid list" where
  "scope_id_set v = map (\<lambda>i. the (validated_uuid i)) (jlist v)"

definition resource_descriptor_ok :: "json \<Rightarrow> bool" where
  "resource_descriptor_ok item \<longleftrightarrow>
     is_dict item
     \<and> list_all (\<lambda>k. nonempty_str (jget item k)) [''table_name'', ''display_name'', ''sensitivity_level'']"

definition resource_tables :: "json \<Rightarrow> string list" where
  "resource_tables v = map (\<lambda>i. jstr (jget i ''table_name'')) (jlist v)"

definition resource_descriptors_ok :: "json \<Rightarrow> bool" where
  "resource_descriptors_ok v \<longleftrightarrow>
     is_list v \<and> jlist v \<noteq> [] \<and> list_all resource_descriptor_ok (jlist v)
     \<and> distinct (resource_tables v)"

definition DISABLE_RESOURCE_TABLES :: "string list" where
  "DISABLE_RESOURCE_TABLES =
     [''directory_users'', ''login_events'', ''groups'', ''user_group_memberships'', ''security_events'']"

definition granted_tables :: "json \<Rightarrow> json list" where
  "granted_tables decisions =
     map (\<lambda>i. jget i ''table_name'')
       (filter (\<lambda>i. is_dict i \<and> flag_is_true i ''allowed''
                  \<and> jget i ''required_permission'' = JStr ''can_request_action''
                  \<and> is_list (jget i ''matched_scopes'')) (jlist decisions))"

text \<open>Equality with the literal read boundary; Python's \<open>True\<close> equals the number one.\<close>

definition read_boundary_ok :: "json \<Rightarrow> bool" where
  "read_boundary_ok b \<longleftrightarrow>
     is_dict b
     \<and> same_set (map fst (dict_items b)) [''runtime_role'', ''transaction_read_only'', ''row_security_enabled'']
     \<and> jget b ''runtime_role'' = JStr ''queryops_query_runtime''
     \<and> json_eq_int (jget b ''transaction_read_only'') 1
     \<and> json_eq_int (jget b ''row_security_enabled'') 1"

definition validate_disable_access_snapshots :: "action_request \<Rightarrow> string list \<Rightarrow> check" where
  "validate_disable_access_snapshots ar tables =
     (let context = ar_access_context_snapshot ar; decision = ar_access_decision_snapshot ar;
          decisions = jget decision ''resource_decisions''; granted = granted_tables decisions
      in checks
        [need (is_dict context \<and> is_dict decision),
         need (jget context ''app_user_id'' = JStr (ar_requested_by ar)),
         need (jget context ''effective_action_permissions'' = JList [JStr ''can_request_action'']),
         need (scope_ids_ok (jget context ''assigned_scope_ids'')),
         need (is_list (jget context ''assigned_scopes'') \<and> is_bool (jget context ''has_global_scope'')),
         need (flag_is_true decision ''allowed''
               \<and> jget decision ''reason_code'' = JStr ''all_required_resources_authorized''
               \<and> jget decision ''required_permission'' = JStr ''can_request_action''
               \<and> is_list (jget decision ''matched_scopes'')),
         need (is_list decisions),
         (if list_all hashable granted then Inr () else Inl (SnapshotRaised TypeError)),
         need (length (jlist decisions) = length (remdups tables)
               \<and> list_all is_str granted \<and> same_set (map jstr granted) tables),
         need (read_boundary_ok (jget decision ''read_boundary''))])"

definition validate_disable_snapshot :: "action_request \<Rightarrow> check" where
  "validate_disable_snapshot ar =
     (let (eligible, overrides, skipped) = list_parts ar;
          preview = ar_preview_json ar; summary = jget preview ''summary'';
          tables = resource_tables (jget preview ''target_resource_descriptors'')
      in checks
        [snapshot_shape ar DisableInactiveUser,
         checks (map (\<lambda>r. validate_disable_record r True False) eligible),
         checks (map (\<lambda>r. validate_disable_record r True True) overrides),
         checks (map (\<lambda>r. validate_disable_record r False False) skipped),
         need (distinct (map (\<lambda>r. jget r ''record_id'') (eligible @ overrides))),
         need (list_all (\<lambda>(k, n). strict_int (jget summary k) = Some n) (expected_disable_counts ar)),
         need (ar_record_count ar = int (length eligible + length overrides)),
         need (ar_skipped_count ar = int (length skipped)),
         validate_disable_exclusions (jget (ar_skipped_records ar) ''exclusions_by_reason'')
           (expected_exclusions skipped overrides),
         snapshot_flags ar,
         need (is_str (jget preview ''scope_decision_reason'')),
         need (scope_ids_ok (jget preview ''requester_scope_ids'')),
         need (scope_ids_ok (jget preview ''target_scope_ids'')),
         need (case ar_scope_id ar of None \<Rightarrow> False
               | Some i \<Rightarrow> i \<in> set (scope_id_set (jget preview ''target_scope_ids''))),
         need (resource_descriptors_ok (jget preview ''target_resource_descriptors'')),
         need (same_set tables DISABLE_RESOURCE_TABLES),
         validate_disable_access_snapshots ar tables])"

definition validate_action_snapshot :: "action_request \<Rightarrow> check" where
  "validate_action_snapshot ar =
     (case supported_action_type_of (ar_action_type ar) of
        None \<Rightarrow> Inl InvalidSnapshot
      | Some ReclaimUnusedLicense \<Rightarrow> validate_reclaim_snapshot ar
      | Some DisableInactiveUser \<Rightarrow> validate_disable_snapshot ar)"

end
