(* ===== verification/Action_Handlers.thy ===== *)
theory Action_Handlers
  imports Preview_Snapshot Rls_Context
begin

text \<open>
  The two action handlers at approval time: revalidation of the persisted targets against the
  current rows (\<open>revalidation.py\<close>, \<open>disable_execution.py\<close>) and execution
  (\<open>executor.py\<close>, \<open>disable_execution.py\<close>), under the database role and the row-level
  policies of the action runtime (\<open>runtime_role.py\<close>, migrations 0009 and 0010), and the
  registry and dispatch the approval service reaches them through.

  Row locks have no effect of their own here: what other sessions may change between the two
  revalidations is an argument of the approval service.
\<close>

section \<open>The database session\<close>

definition ACTION_RUNTIME_ROLE :: string where
  "ACTION_RUNTIME_ROLE = ''queryops_action_runtime''"

record db_session =
  ss_role :: string
  ss_login_role :: string
  ss_read_only :: bool
  ss_row_security :: bool
  ss_settings :: pg_settings

definition set_action_runtime_role :: "db_session \<Rightarrow> db_session" where
  "set_action_runtime_role ss = ss\<lparr>ss_role := ACTION_RUNTIME_ROLE\<rparr>"

definition reset_action_runtime_role :: "db_session \<Rightarrow> db_session" where
  "reset_action_runtime_role ss = ss\<lparr>ss_role := ss_login_role ss\<rparr>"

definition under_action_role :: "db_session \<Rightarrow> bool" where
  "under_action_role ss \<longleftrightarrow> ss_role ss = ACTION_RUNTIME_ROLE"

lemma runtime_role_simps [simp]:
  "under_action_role (set_action_runtime_role ss)"
  "ss_settings (set_action_runtime_role ss) = ss_settings ss"
  "ss_settings (reset_action_runtime_role ss) = ss_settings ss"
  "ss_read_only (set_action_runtime_role ss) = ss_read_only ss"
  "ss_row_security (set_action_runtime_role ss) = ss_row_security ss"
  "set_action_runtime_role (reset_action_runtime_role ss) = set_action_runtime_role ss"
  "set_action_runtime_role (set_action_runtime_role ss) = set_action_runtime_role ss"
  by (simp_all add: set_action_runtime_role_def reset_action_runtime_role_def under_action_role_def)

text \<open>
  The application role owns the tables, so the policies filter only the action role. A row
  passes when some policy of its table admits it: the department policy of migration 0005 on
  every table, and the policies migration 0010 adds for the dependencies of a user.
\<close>

definition scope_admits :: "db_session \<Rightarrow> uuid option \<Rightarrow> bool" where
  "scope_admits ss department \<longleftrightarrow>
     (under_action_role ss \<longrightarrow> rls_policy_admits (ss_settings ss) department)"

definition user_visible :: "db_session \<Rightarrow> it_domain \<Rightarrow> uuid \<Rightarrow> bool" where
  "user_visible ss dm uid \<longleftrightarrow>
     list_ex (\<lambda>u. du_id u = uid \<and> scope_admits ss (Some (du_department_id u))) (it_users dm)"

definition login_visible :: "db_session \<Rightarrow> it_domain \<Rightarrow> login_event \<Rightarrow> bool" where
  "login_visible ss dm e \<longleftrightarrow>
     scope_admits ss (Some (le_department_id e)) \<or> user_visible ss dm (le_user_id e)"

definition membership_visible :: "db_session \<Rightarrow> it_domain \<Rightarrow> group_membership \<Rightarrow> bool" where
  "membership_visible ss dm m \<longleftrightarrow>
     scope_admits ss (Some (gm_department_id m)) \<or> user_visible ss dm (gm_user_id m)"

definition group_visible :: "db_session \<Rightarrow> it_domain \<Rightarrow> group_row \<Rightarrow> bool" where
  "group_visible ss dm g \<longleftrightarrow>
     scope_admits ss (gr_department_id g)
     \<or> list_ex (\<lambda>m. gm_group_id m = gr_id g \<and> membership_visible ss dm m) (it_memberships dm)"

definition security_visible :: "db_session \<Rightarrow> it_domain \<Rightarrow> security_event \<Rightarrow> bool" where
  "security_visible ss dm e \<longleftrightarrow>
     scope_admits ss (se_department_id e)
     \<or> (case se_user_id e of None \<Rightarrow> False | Some u \<Rightarrow> user_visible ss dm u)"

text \<open>\<open>SELECT ... FOR UPDATE\<close> and \<open>UPDATE\<close> see the rows the update policy admits as well.\<close>

definition user_lockable :: "db_session \<Rightarrow> directory_user \<Rightarrow> bool" where
  "user_lockable ss u \<longleftrightarrow>
     scope_admits ss (Some (du_department_id u))
     \<and> (under_action_role ss \<longrightarrow> du_account_type u = ''human'' \<and> du_account_status u = ''active'')"

text \<open>The insert policy of \<open>it_audit_events\<close>.\<close>

definition audit_insert_admitted :: "db_session \<Rightarrow> it_audit_event \<Rightarrow> bool" where
  "audit_insert_admitted ss e \<longleftrightarrow>
     scope_admits ss (Some (ie_department_id e))
     \<and> (under_action_role ss \<longrightarrow> ss_settings ss ''app.current_user_id'' = Some (ie_actor_app_user_id e))"

section \<open>Revalidation results\<close>

text \<open>
  \<open>ReclaimRevalidation\<close> and \<open>DisableRevalidation\<close>: the class is \<open>rv_type\<close>; the fields no code
  reads (the split into eligible and override records, the flag objects) are left out.
\<close>

record executable_record =
  ex_id :: uuid
  ex_user_id :: uuid
  ex_license_id :: "uuid option"
  ex_department_id :: uuid
  ex_scope_key :: string
  ex_override_codes :: "string list"

record skipped_record =
  sk_id :: uuid
  sk_code :: string
  sk_reason :: string

record revalidation =
  rv_type :: supported_action_type
  rv_executable :: "executable_record list"
  rv_skipped :: "skipped_record list"
  rv_override_codes :: "string list"
  rv_crosses_scopes :: bool

definition rv_requires_policy_override :: "revalidation \<Rightarrow> bool" where
  "rv_requires_policy_override rv \<longleftrightarrow> rv_override_codes rv \<noteq> []"

datatype verdict = Skip string | Execute executable_record

definition snapshot_exn :: "snapshot_error \<Rightarrow> py_exn" where
  "snapshot_exn e = (case e of InvalidSnapshot \<Rightarrow> ValueError | SnapshotRaised x \<Rightarrow> x)"

definition checked :: "check \<Rightarrow> py_exn + unit" where
  "checked c = (case c of Inl e \<Rightarrow> Inl (snapshot_exn e) | Inr u \<Rightarrow> Inr u)"

text \<open>The validated records carry text ids; \<open>str\<close> of anything else is not the text of a UUID.\<close>

definition record_uuid :: "json \<Rightarrow> py_exn + uuid" where
  "record_uuid r = (case validated_uuid (jget r ''record_id'') of None \<Rightarrow> Inl ValueError | Some u \<Rightarrow> Inr u)"

definition persisted_target_ids :: "string \<Rightarrow> action_request \<Rightarrow> py_exn + uuid list" where
  "persisted_target_ids record_type ar =
     (let (eligible, overrides, _) = list_parts ar;
          records = filter (\<lambda>r. is_dict r \<and> jget r ''record_type'' = JStr record_type)
                      (eligible @ overrides)
      in result_bind (traverse record_uuid records) (\<lambda>ids.
           if int (length (sorted_set ids)) \<noteq> ar_record_count ar then Inl ValueError
           else Inr (sorted_set ids)))"

definition scope_key_for_department :: "user_access_context \<Rightarrow> uuid \<Rightarrow> string option" where
  "scope_key_for_department ctx d =
     (case List.find (\<lambda>sc. sc_type sc = ''department'' \<and> sc_department_id sc = Some d) (uc_scopes ctx) of
        Some sc \<Rightarrow> Some (sc_key sc)
      | None \<Rightarrow> if uc_has_global_scope ctx then Some ''global'' else None)"

definition is_cross_scope :: "action_request \<Rightarrow> uuid \<Rightarrow> bool" where
  "is_cross_scope ar d \<longleftrightarrow>
     ar_scope_type ar \<noteq> Some ''department'' \<or> ar_department_id ar = None \<or> Some d \<noteq> ar_department_id ar"

text \<open>The loop of both revalidations: a verdict for each target, collected.\<close>

definition verdict_records :: "(uuid \<times> verdict) list \<Rightarrow> executable_record list" where
  "verdict_records vs = concat (map (\<lambda>(_, v). case v of Execute r \<Rightarrow> [r] | Skip _ \<Rightarrow> []) vs)"

definition verdict_skips :: "(string \<Rightarrow> string) \<Rightarrow> (uuid \<times> verdict) list \<Rightarrow> skipped_record list" where
  "verdict_skips reason vs =
     concat (map (\<lambda>(i, v). case v of
        Skip c \<Rightarrow> [\<lparr>sk_id = i, sk_code = c, sk_reason = reason c\<rparr>] | Execute _ \<Rightarrow> []) vs)"

definition collect_verdicts ::
  "supported_action_type \<Rightarrow> (string \<Rightarrow> string) \<Rightarrow> string \<Rightarrow> (uuid \<times> verdict) list \<Rightarrow> revalidation" where
  "collect_verdicts ty reason cross vs =
     (let records = verdict_records vs; codes = concat (map ex_override_codes records)
      in \<lparr>rv_type = ty, rv_executable = records, rv_skipped = verdict_skips reason vs,
          rv_override_codes = sorted_set codes, rv_crosses_scopes = cross \<in> set codes\<rparr>)"

section \<open>Reclaim\<close>

definition MICROSECONDS_PER_DAY :: int where
  "MICROSECONDS_PER_DAY = 86400000000"

definition reclaim_skip_reason :: "string \<Rightarrow> string" where
  "reclaim_skip_reason c =
     (if c = ''record_unavailable'' then ''The record is no longer available for this action.''
      else if c = ''already_reclaimed'' then ''The license assignment was already reclaimed.''
      else if c = ''assignment_suspended'' then ''The license assignment is suspended.''
      else if c = ''recent_usage'' then ''The license was used too recently.''
      else if c = ''invalid_current_state'' then ''The record no longer has a valid executable state.''
      else ''The record is no longer in an authorized scope.'')"

definition reclaim_override_reason :: "string \<Rightarrow> string" where
  "reclaim_override_reason c =
     (if c = ''mandatory_license'' then ''A mandatory license requires policy override approval.''
      else if c = ''exception_assignment'' then ''An exception assignment requires policy override approval.''
      else if c = ''service_account'' then ''A service account requires policy override approval.''
      else ''A cross-scope record requires global approval.'')"

record reclaim_row =
  rr_assignment :: license_assignment
  rr_user :: "directory_user option"
  rr_license :: "license_row option"

definition reclaim_rows :: "db_session \<Rightarrow> it_domain \<Rightarrow> uuid list \<Rightarrow> reclaim_row list" where
  "reclaim_rows ss dm targets =
     map (\<lambda>la. \<lparr>rr_assignment = la,
                rr_user = List.find (\<lambda>u. du_id u = la_user_id la
                            \<and> scope_admits ss (Some (du_department_id u))) (it_users dm),
                rr_license = find_by li_id (la_license_id la) (it_licenses dm)\<rparr>)
       (sort_key la_id
          (filter (\<lambda>la. la_id la \<in> set targets \<and> scope_admits ss (Some (la_department_id la)))
             (it_assignments dm)))"

definition structurally_valid :: "reclaim_row \<Rightarrow> bool" where
  "structurally_valid row =
     (case (rr_user row, rr_license row) of
        (Some u, Some l) \<Rightarrow>
          du_department_id u = la_department_id (rr_assignment row) \<and> 0 \<le> li_monthly_cost_usd l
      | _ \<Rightarrow> False)"

definition reclaim_override_codes :: "action_request \<Rightarrow> reclaim_row \<Rightarrow> string list" where
  "reclaim_override_codes ar row =
     (let la = rr_assignment row
      in (if la_is_mandatory la then [''mandatory_license''] else [])
         @ (if la_is_exception la then [''exception_assignment''] else [])
         @ (if map_option du_account_type (rr_user row) = Some ''service'' then [''service_account''] else [])
         @ (if is_cross_scope ar (la_department_id la) then [''cross_scope''] else []))"

definition reclaim_verdict ::
  "action_request \<Rightarrow> user_access_context \<Rightarrow> instant \<Rightarrow> reclaim_row option \<Rightarrow> verdict" where
  "reclaim_verdict ar approver cutoff found =
     (case found of
        None \<Rightarrow> Skip ''record_unavailable''
      | Some row \<Rightarrow>
          (let la = rr_assignment row; key = scope_key_for_department approver (la_department_id la)
           in if la_status la = ''reclaimed'' then Skip ''already_reclaimed''
              else if la_status la = ''suspended'' then Skip ''assignment_suspended''
              else if la_status la \<noteq> ''active'' then Skip ''invalid_current_state''
              else if (case la_last_used_at la of None \<Rightarrow> False | Some t \<Rightarrow> t \<ge> cutoff)
              then Skip ''recent_usage''
              else if \<not> structurally_valid row then Skip ''invalid_current_state''
              else if key = None \<and> \<not> uc_has_global_scope approver then Skip ''scope_unavailable''
              else if du_account_type (the (rr_user row)) \<notin> {''service'', ''human''}
              then Skip ''invalid_current_state''
              else Execute
                \<lparr>ex_id = la_id la, ex_user_id = du_id (the (rr_user row)),
                 ex_license_id = Some (la_license_id la), ex_department_id = la_department_id la,
                 ex_scope_key = (if truthy_str key then the key else ''global''),
                 ex_override_codes = sorted_set (reclaim_override_codes ar row)\<rparr>))"

definition ELIGIBILITY_DAYS :: int where
  "ELIGIBILITY_DAYS = 60"

definition revalidate_reclaim_targets ::
  "db_session \<Rightarrow> it_domain \<Rightarrow> action_request \<Rightarrow> user_access_context \<Rightarrow> instant \<Rightarrow> py_exn + revalidation" where
  "revalidate_reclaim_targets ss dm ar approver now =
     result_bind (checked (validate_reclaim_snapshot ar)) (\<lambda>_.
     result_bind (persisted_target_ids ''license_assignment'' ar) (\<lambda>targets.
       let rows = reclaim_rows ss dm targets;
           cutoff = now - ELIGIBILITY_DAYS * MICROSECONDS_PER_DAY
       in Inr (collect_verdicts ReclaimUnusedLicense reclaim_skip_reason ''cross_scope''
            (map (\<lambda>i. (i, reclaim_verdict ar approver cutoff
                           (find_by (\<lambda>r. la_id (rr_assignment r)) i rows))) targets))))"

text \<open>The boundary check both executors start with.\<close>

definition secure_action_boundary :: "db_session \<Rightarrow> bool" where
  "secure_action_boundary ss \<longleftrightarrow>
     ss_role ss = ACTION_RUNTIME_ROLE \<and> \<not> ss_read_only ss \<and> ss_row_security ss"

definition insert_it_audits ::
  "db_session \<Rightarrow> it_audit_event list \<Rightarrow> it_domain \<Rightarrow> py_exn + it_domain" where
  "insert_it_audits ss events dm =
     (if list_all (audit_insert_admitted ss) events
      then Inr (dm\<lparr>it_audits := it_audits dm @ events\<rparr>) else Inl SQLAlchemyError)"

definition reclaim_audit :: "uuid \<Rightarrow> uuid \<Rightarrow> instant \<Rightarrow> executable_record \<Rightarrow> it_audit_event" where
  "reclaim_audit action_id approver now r =
     \<lparr>ie_actor_app_user_id = approver, ie_target_user_id = ex_user_id r,
      ie_department_id = ex_department_id r, ie_event_type = ''license_removed'',
      ie_resource_type = ''license_assignment'', ie_resource_id = ex_id r,
      ie_description = ''Unused license assignment reclaimed through an approved action.'',
      ie_occurred_at = now,
      ie_metadata = JDict [(''action_request_id'', JStr action_id),
                           (''action_type'', JStr ''reclaim_unused_license'')]\<rparr>"

definition reclaimable :: "db_session \<Rightarrow> uuid list \<Rightarrow> license_assignment \<Rightarrow> bool" where
  "reclaimable ss ids la \<longleftrightarrow>
     la_id la \<in> set ids \<and> la_status la = ''active'' \<and> scope_admits ss (Some (la_department_id la))"

definition execute_reclaim ::
  "db_session \<Rightarrow> it_domain \<Rightarrow> uuid \<Rightarrow> uuid \<Rightarrow> revalidation \<Rightarrow> instant \<Rightarrow> py_exn + (uuid list \<times> it_domain)" where
  "execute_reclaim ss dm action_id approver rv now =
     (if \<not> secure_action_boundary ss then Inl RuntimeError
      else
        let records = rv_executable rv; ids = map ex_id records
        in if ids = [] then Inr (ids, dm)
           else if length (filter (reclaimable ss ids) (it_assignments dm)) \<noteq> length ids
           then Inl RuntimeError
           else
             let dm' = dm\<lparr>it_assignments := map (\<lambda>la. if reclaimable ss ids la
                          then la\<lparr>la_status := ''reclaimed'', la_reclaimed_at := Some now,
                                  la_reclaimed_by := Some approver\<rparr>
                          else la) (it_assignments dm)\<rparr>
             in result_bind (insert_it_audits ss (map (reclaim_audit action_id approver now) records) dm')
                  (\<lambda>dm''. Inr (ids, dm'')))"

section \<open>Disable\<close>

definition disable_safe_reason :: "string \<Rightarrow> string" where
  "disable_safe_reason c =
     (if c = ''service_account_excluded'' then ''Service accounts are excluded from this action.''
      else if c = ''user_already_disabled'' then ''The user account is already disabled.''
      else if c = ''recent_successful_login''
      then ''The user logged in successfully within the last 90 days.''
      else if c = ''invalid_current_state'' then ''The user no longer has a valid executable state.''
      else if c = ''record_not_found_or_not_authorized'' then ''The selected record is unavailable.''
      else if c = ''privileged_user'' then ''A privileged user requires Admin review.''
      else if c = ''open_critical_security_event''
      then ''A user with an open critical security event requires Admin review.''
      else if c = ''cross_scope_target'' then ''A cross-scope user requires Admin review.''
      else ''The user is no longer in an authorized scope.'')"

record disable_row =
  dr_user :: directory_user
  dr_latest_login :: "instant option"
  dr_privileged :: bool
  dr_open_critical :: bool

definition latest :: "instant option \<Rightarrow> instant option \<Rightarrow> instant option" where
  "latest a b = (case (a, b) of
     (None, _) \<Rightarrow> b | (_, None) \<Rightarrow> a | (Some x, Some y) \<Rightarrow> Some (max x y))"

definition successful_logins :: "db_session \<Rightarrow> it_domain \<Rightarrow> uuid \<Rightarrow> instant list" where
  "successful_logins ss dm uid =
     map le_occurred_at (filter (\<lambda>e. le_user_id e = uid \<and> le_event_type e = ''success''
                                   \<and> login_visible ss dm e) (it_logins dm))"

definition is_privileged_user :: "db_session \<Rightarrow> it_domain \<Rightarrow> uuid \<Rightarrow> bool" where
  "is_privileged_user ss dm uid \<longleftrightarrow>
     list_ex (\<lambda>m. gm_user_id m = uid \<and> membership_visible ss dm m
                \<and> list_ex (\<lambda>g. gr_id g = gm_group_id m \<and> gr_is_privileged g \<and> group_visible ss dm g)
                    (it_groups dm)) (it_memberships dm)"

definition has_open_critical_event :: "db_session \<Rightarrow> it_domain \<Rightarrow> uuid \<Rightarrow> bool" where
  "has_open_critical_event ss dm uid \<longleftrightarrow>
     list_ex (\<lambda>e. se_user_id e = Some uid \<and> se_severity e = ''critical''
                \<and> (se_status e = ''open'' \<or> se_status e = ''investigating'')
                \<and> security_visible ss dm e) (it_security dm)"

definition disable_row_of :: "db_session \<Rightarrow> it_domain \<Rightarrow> directory_user \<Rightarrow> disable_row" where
  "disable_row_of ss dm u =
     \<lparr>dr_user = u,
      dr_latest_login = latest (du_last_login_at u)
        (case successful_logins ss dm (du_id u) of [] \<Rightarrow> None | t # ts \<Rightarrow> Some (foldl max t ts)),
      dr_privileged = is_privileged_user ss dm (du_id u),
      dr_open_critical = has_open_critical_event ss dm (du_id u)\<rparr>"

definition MAX_PREVIEW_RECORDS :: nat where
  "MAX_PREVIEW_RECORDS = 500"

definition disable_rows :: "db_session \<Rightarrow> it_domain \<Rightarrow> uuid list \<Rightarrow> disable_row list" where
  "disable_rows ss dm targets =
     map (disable_row_of ss dm)
       (take (MAX_PREVIEW_RECORDS + 1)
          (sort_key du_id (filter (\<lambda>u. du_id u \<in> set targets \<and> user_lockable ss u) (it_users dm))))"

definition disable_override_codes :: "action_request \<Rightarrow> disable_row \<Rightarrow> string list" where
  "disable_override_codes ar row =
     (if dr_privileged row then [''privileged_user''] else [])
     @ (if dr_open_critical row then [''open_critical_security_event''] else [])
     @ (if is_cross_scope ar (du_department_id (dr_user row)) then [''cross_scope_target''] else [])"

definition disable_verdict ::
  "action_request \<Rightarrow> user_access_context \<Rightarrow> instant \<Rightarrow> disable_row option \<Rightarrow> verdict" where
  "disable_verdict ar approver cutoff found =
     (case found of
        None \<Rightarrow> Skip ''record_not_found_or_not_authorized''
      | Some row \<Rightarrow>
          (let u = dr_user row
           in if du_account_type u = ''service'' then Skip ''service_account_excluded''
              else if du_account_type u \<noteq> ''human'' then Skip ''invalid_current_state''
              else if du_account_status u = ''disabled'' then Skip ''user_already_disabled''
              else if du_account_status u \<noteq> ''active'' then Skip ''invalid_current_state''
              else if (case dr_latest_login row of None \<Rightarrow> False | Some t \<Rightarrow> t > cutoff)
              then Skip ''recent_successful_login''
              else (case scope_key_for_department approver (du_department_id u) of
                      None \<Rightarrow> Skip ''scope_unavailable''
                    | Some key \<Rightarrow> Execute
                        \<lparr>ex_id = du_id u, ex_user_id = du_id u, ex_license_id = None,
                         ex_department_id = du_department_id u, ex_scope_key = key,
                         ex_override_codes = disable_override_codes ar row\<rparr>)))"

definition INACTIVITY_DAYS :: int where
  "INACTIVITY_DAYS = 90"

definition revalidate_disable_targets ::
  "db_session \<Rightarrow> it_domain \<Rightarrow> action_request \<Rightarrow> user_access_context \<Rightarrow> instant \<Rightarrow> py_exn + revalidation" where
  "revalidate_disable_targets ss dm ar approver now =
     result_bind (checked (validate_action_snapshot ar)) (\<lambda>_.
     result_bind (persisted_target_ids ''directory_user'' ar) (\<lambda>targets.
       let rows = disable_rows ss dm targets;
           cutoff = now - INACTIVITY_DAYS * MICROSECONDS_PER_DAY
       in Inr (collect_verdicts DisableInactiveUser disable_safe_reason ''cross_scope_target''
            (map (\<lambda>i. (i, disable_verdict ar approver cutoff
                           (find_by (\<lambda>r. du_id (dr_user r)) i rows))) targets))))"

definition disable_audit :: "uuid \<Rightarrow> uuid \<Rightarrow> instant \<Rightarrow> executable_record \<Rightarrow> it_audit_event" where
  "disable_audit action_id approver now r =
     \<lparr>ie_actor_app_user_id = approver, ie_target_user_id = ex_id r,
      ie_department_id = ex_department_id r, ie_event_type = ''user_disabled'',
      ie_resource_type = ''directory_user'', ie_resource_id = ex_id r,
      ie_description = ''Inactive Directory User disabled through an approved action.'',
      ie_occurred_at = now,
      ie_metadata = JDict
        [(''action_request_id'', JStr action_id), (''action_type'', JStr ''disable_inactive_user''),
         (''changed_fields'', JDict [(''account_status'',
            JDict [(''before'', JStr ''active''), (''after'', JStr ''disabled'')])])]\<rparr>"

definition disableable :: "db_session \<Rightarrow> uuid list \<Rightarrow> directory_user \<Rightarrow> bool" where
  "disableable ss ids u \<longleftrightarrow>
     du_id u \<in> set ids \<and> du_account_type u = ''human'' \<and> du_account_status u = ''active''
     \<and> user_lockable ss u"

definition execute_disable ::
  "db_session \<Rightarrow> it_domain \<Rightarrow> uuid \<Rightarrow> uuid \<Rightarrow> revalidation \<Rightarrow> instant \<Rightarrow> py_exn + (uuid list \<times> it_domain)" where
  "execute_disable ss dm action_id approver rv now =
     (if \<not> secure_action_boundary ss then Inl RuntimeError
      else
        let records = rv_executable rv; ids = map ex_id records
        in if ids = [] then Inr (ids, dm)
           else if length (filter (disableable ss ids) (it_users dm)) \<noteq> length ids
           then Inl RuntimeError
           else
             let dm' = dm\<lparr>it_users := map (\<lambda>u. if disableable ss ids u
                          then u\<lparr>du_account_status := ''disabled'', du_updated_at := now\<rparr>
                          else u) (it_users dm)\<rparr>
             in result_bind (insert_it_audits ss (map (disable_audit action_id approver now) records) dm')
                  (\<lambda>dm''. Inr (ids, dm'')))"

section \<open>Handlers, registry and dispatch\<close>

record action_handler =
  hd_action_type :: string
  hd_revalidate ::
    "db_session \<Rightarrow> it_domain \<Rightarrow> action_request \<Rightarrow> user_access_context \<Rightarrow> instant \<Rightarrow> py_exn + revalidation"
  hd_execute ::
    "db_session \<Rightarrow> it_domain \<Rightarrow> action_request \<Rightarrow> uuid \<Rightarrow> revalidation \<Rightarrow> instant
       \<Rightarrow> py_exn + (uuid list \<times> it_domain)"

text \<open>\<open>execute\<close> of a handler accepts only its own class of revalidation result.\<close>

definition reclaim_handler :: action_handler where
  "reclaim_handler =
     \<lparr>hd_action_type = ''reclaim_unused_license'', hd_revalidate = revalidate_reclaim_targets,
      hd_execute = (\<lambda>ss dm ar approver rv now.
        if rv_type rv \<noteq> ReclaimUnusedLicense then Inl TypeError
        else execute_reclaim ss dm (ar_id ar) approver rv now)\<rparr>"

definition disable_handler :: action_handler where
  "disable_handler =
     \<lparr>hd_action_type = ''disable_inactive_user'', hd_revalidate = revalidate_disable_targets,
      hd_execute = (\<lambda>ss dm ar approver rv now.
        if rv_type rv \<noteq> DisableInactiveUser then Inl TypeError
        else execute_disable ss dm (ar_id ar) approver rv now)\<rparr>"

type_synonym action_registry = "supported_action_type \<Rightarrow> action_handler option"

datatype registry_error = InvalidActionHandler | DuplicateActionHandler

definition register_handler :: "action_handler \<Rightarrow> action_registry \<Rightarrow> registry_error + action_registry" where
  "register_handler h reg =
     (case supported_action_type_of (hd_action_type h) of
        None \<Rightarrow> Inl InvalidActionHandler
      | Some ty \<Rightarrow> if reg ty \<noteq> None then Inl DuplicateActionHandler else Inr (reg(ty \<mapsto> h)))"

text \<open>\<open>ActionRegistry.get\<close>; \<open>None\<close> is \<open>UnknownActionTypeError\<close>.\<close>

definition registry_get :: "action_registry \<Rightarrow> string \<Rightarrow> action_handler option" where
  "registry_get reg action_type =
     (case supported_action_type_of action_type of None \<Rightarrow> None | Some ty \<Rightarrow> reg ty)"

definition build_default_action_registry :: "registry_error + action_registry" where
  "build_default_action_registry =
     result_bind (register_handler reclaim_handler (\<lambda>_. None)) (register_handler disable_handler)"

definition require_action_revalidation :: "string \<Rightarrow> revalidation \<Rightarrow> py_exn + revalidation" where
  "require_action_revalidation action_type rv =
     (case supported_action_type_of action_type of
        None \<Rightarrow> Inl ValueError
      | Some ty \<Rightarrow> if rv_type rv = ty then Inr rv else Inl TypeError)"

text \<open>\<open>lock_action_dependencies\<close>: its type test; the locks themselves change nothing.\<close>

definition lock_action_dependencies :: "string \<Rightarrow> revalidation \<Rightarrow> py_exn + unit" where
  "lock_action_dependencies action_type rv =
     result_bind (require_action_revalidation action_type rv) (\<lambda>_. Inr ())"

definition require_stable_execution_set :: "revalidation \<Rightarrow> revalidation \<Rightarrow> py_exn + unit" where
  "require_stable_execution_set initial final =
     (let initial_ids = map ex_id (rv_executable initial); final_ids = map ex_id (rv_executable final)
      in if \<not> distinct initial_ids \<or> \<not> distinct final_ids \<or> \<not> list_all (\<lambda>i. i \<in> set initial_ids) final_ids
         then Inl RuntimeError else Inr ())"

definition revalidation_flag :: "(string \<Rightarrow> string) \<Rightarrow> string \<Rightarrow> json" where
  "revalidation_flag reason code =
     JDict [(''code'', JStr code), (''reason'', JStr (reason code)),
            (''requires_admin'', JBool True), (''admin_overridable'', JBool True)]"

definition safe_action_revalidation_flags :: "string \<Rightarrow> revalidation \<Rightarrow> py_exn + json" where
  "safe_action_revalidation_flags action_type rv =
     result_bind (require_action_revalidation action_type rv) (\<lambda>_.
       Inr (JList (map (revalidation_flag
              (case rv_type rv of ReclaimUnusedLicense \<Rightarrow> reclaim_override_reason
                                | DisableInactiveUser \<Rightarrow> disable_safe_reason)) (rv_override_codes rv))))"

text \<open>\<open>as_dict\<close> of a skipped record.\<close>

definition skip_scope :: json where
  "skip_scope = JDict [(''id'', JNull), (''type'', JStr ''unavailable''), (''key'', JStr ''unavailable'')]"

definition skip_as_dict :: "supported_action_type \<Rightarrow> skipped_record \<Rightarrow> json" where
  "skip_as_dict ty s =
     (case ty of
        ReclaimUnusedLicense \<Rightarrow> JDict
          [(''record_type'', JStr ''license_assignment''), (''record_id'', JStr (sk_id s)),
           (''license_assignment_id'', JStr (sk_id s)), (''scope'', skip_scope),
           (''user_display_label'', JNull), (''license_product'', JNull), (''license_vendor'', JNull),
           (''last_used_at'', JNull), (''monthly_cost_usd'', JNull),
           (''reason_code'', JStr (sk_code s)), (''reason'', JStr (sk_reason s)),
           (''high_confidence'', JBool False)]
      | DisableInactiveUser \<Rightarrow> JDict
          [(''record_type'', JStr ''directory_user''), (''record_id'', JStr (sk_id s)),
           (''directory_user_id'', JStr (sk_id s)), (''scope'', skip_scope),
           (''user_display_label'', JNull), (''last_successful_login_at'', JNull),
           (''reason_code'', JStr (sk_code s)), (''reason'', JStr (sk_reason s))])"

end
