(* ===== verification/Action_Lifecycle.thy ===== *)
theory Action_Lifecycle
  imports Action_Handlers
begin

text \<open>
  The requester's side of an action (\<open>ActionLifecycleService\<close> in \<open>action_engine/service.py\<close>):
  submitting a draft preview for approval, cancelling a pending request, reading one request
  and listing one's own. A handler maps the store to its answer and the store after it; a
  failed commit leaves the store as it was.

  Not modelled here: building the preview itself, and the JSON text of the replies, of which
  the view records what the clients decide on.
\<close>

section \<open>Requests and answers\<close>

datatype commit_outcome = Committed | IntegrityFailed | DatabaseFailed

datatype approve_stage =
  FirstRevalidation | DependencyLocks | SecondRevalidation | Escalation | Claim | Execution | Completion

text \<open>
  One call: the user, the clock, the ids \<open>uuid4\<close> returns, what the database answers to the
  commit and to the commit that records a failure, the session, the handlers, the stage of an
  approval at which a statement fails, and what other sessions commit to the IT tables between
  the two revalidations of an approval.
\<close>

record action_env =
  en_user :: app_user
  en_now :: instant
  en_scope_order :: scope_order
  en_new_id :: "nat \<Rightarrow> uuid"
  en_commit :: commit_outcome
  en_failure_commit :: commit_outcome
  en_session :: db_session
  en_registry :: action_registry
  en_fault :: "approve_stage \<Rightarrow> bool"
  en_concurrent :: "it_domain \<Rightarrow> it_domain"

datatype 'a service = Answered 'a | ServiceError api_error | Escaped py_exn

fun answered :: "'a service \<Rightarrow> bool" where
  "answered (Answered _) = True"
| "answered _ = False"

definition env_context :: "action_env \<Rightarrow> action_store \<Rightarrow> user_access_context" where
  "env_context en st = build_user_access_context (en_scope_order en) (en_user en) (st_auth st)"

section \<open>Errors\<close>

definition action_forbidden :: api_error where
  "action_forbidden =
     \<lparr>ae_code = ''FORBIDDEN'', ae_message = ''You are not authorized to perform this action.'',
      ae_status_code = 403\<rparr>"

definition action_not_found :: api_error where
  "action_not_found =
     \<lparr>ae_code = ''ACTION_REQUEST_NOT_FOUND'', ae_message = ''Action request was not found.'',
      ae_status_code = 404\<rparr>"

definition action_conflict :: "string \<Rightarrow> api_error" where
  "action_conflict message =
     \<lparr>ae_code = ''ACTION_ALREADY_PROCESSED'', ae_message = message, ae_status_code = 409\<rparr>"

definition action_type_not_supported :: api_error where
  "action_type_not_supported =
     \<lparr>ae_code = ''ACTION_TYPE_NOT_SUPPORTED'',
      ae_message = ''The requested action type is not available.'', ae_status_code = 422\<rparr>"

definition action_expired_error :: api_error where
  "action_expired_error =
     \<lparr>ae_code = ''ACTION_REQUEST_EXPIRED'',
      ae_message = ''The action request has expired. Create a new preview.'',
      ae_status_code = 410\<rparr>"

definition action_not_eligible :: api_error where
  "action_not_eligible =
     \<lparr>ae_code = ''ACTION_NOT_ELIGIBLE'',
      ae_message = ''The action preview contains no eligible records.'', ae_status_code = 422\<rparr>"

definition action_cannot_be_cancelled :: api_error where
  "action_cannot_be_cancelled =
     \<lparr>ae_code = ''ACTION_CANNOT_BE_CANCELLED'',
      ae_message = ''The action request can no longer be cancelled.'', ae_status_code = 409\<rparr>"

definition preview_unavailable :: "int \<Rightarrow> api_error" where
  "preview_unavailable status =
     \<lparr>ae_code = ''ACTION_PREVIEW_UNAVAILABLE'',
      ae_message = ''The stored action preview is unavailable.'', ae_status_code = status\<rparr>"

definition internal_error :: "string \<Rightarrow> api_error" where
  "internal_error message =
     \<lparr>ae_code = ''INTERNAL_ERROR'', ae_message = message, ae_status_code = 500\<rparr>"

section \<open>Rows\<close>

definition action_by_id :: "action_store \<Rightarrow> uuid \<Rightarrow> action_request option" where
  "action_by_id st i = find_by ar_id i (st_actions st)"

definition approval_by_id :: "action_store \<Rightarrow> uuid \<Rightarrow> approval_request option" where
  "approval_by_id st i = find_by ap_id i (st_approvals st)"

text \<open>\<open>action_request.approval_request\<close>, unique by the constraint on \<open>action_request_id\<close>.\<close>

definition approval_of :: "action_store \<Rightarrow> uuid \<Rightarrow> approval_request option" where
  "approval_of st i = find_by ap_action_request_id (Some i) (st_approvals st)"

definition put_action :: "action_request \<Rightarrow> action_store \<Rightarrow> action_store" where
  "put_action ar st =
     st\<lparr>st_actions := map (\<lambda>x. if ar_id x = ar_id ar then ar else x) (st_actions st)\<rparr>"

definition put_approval :: "approval_request \<Rightarrow> action_store \<Rightarrow> action_store" where
  "put_approval ap st =
     st\<lparr>st_approvals := map (\<lambda>x. if ap_id x = ap_id ap then ap else x) (st_approvals st)\<rparr>"

definition add_approval :: "approval_request \<Rightarrow> action_store \<Rightarrow> action_store" where
  "add_approval ap st = st\<lparr>st_approvals := st_approvals st @ [ap]\<rparr>"

definition add_audit :: "audit_log \<Rightarrow> action_store \<Rightarrow> action_store" where
  "add_audit a st = st\<lparr>st_audits := st_audits st @ [a]\<rparr>"

definition add_notifications :: "notification list \<Rightarrow> action_store \<Rightarrow> action_store" where
  "add_notifications ns st = st\<lparr>st_notifications := st_notifications st @ ns\<rparr>"

lemma store_simps [simp]:
  "st_auth (put_action ar st) = st_auth st" "st_domain (put_action ar st) = st_domain st"
  "st_approvals (put_action ar st) = st_approvals st"
  "st_audits (put_action ar st) = st_audits st"
  "st_notifications (put_action ar st) = st_notifications st"
  "st_auth (put_approval ap st) = st_auth st" "st_domain (put_approval ap st) = st_domain st"
  "st_actions (put_approval ap st) = st_actions st"
  "st_audits (put_approval ap st) = st_audits st"
  "st_notifications (put_approval ap st) = st_notifications st"
  "st_auth (add_approval ap st) = st_auth st" "st_domain (add_approval ap st) = st_domain st"
  "st_actions (add_approval ap st) = st_actions st"
  "st_audits (add_approval ap st) = st_audits st"
  "st_approvals (add_approval ap st) = st_approvals st @ [ap]"
  "st_notifications (add_approval ap st) = st_notifications st"
  "st_auth (add_audit a st) = st_auth st" "st_domain (add_audit a st) = st_domain st"
  "st_actions (add_audit a st) = st_actions st" "st_approvals (add_audit a st) = st_approvals st"
  "st_audits (add_audit a st) = st_audits st @ [a]"
  "st_notifications (add_audit a st) = st_notifications st"
  "st_auth (add_notifications ns st) = st_auth st"
  "st_domain (add_notifications ns st) = st_domain st"
  "st_actions (add_notifications ns st) = st_actions st"
  "st_approvals (add_notifications ns st) = st_approvals st"
  "st_audits (add_notifications ns st) = st_audits st"
  "st_notifications (add_notifications ns st) = st_notifications st @ ns"
  by (simp_all add: put_action_def put_approval_def add_approval_def add_audit_def
      add_notifications_def)

text \<open>A deadline that is missing counts as passed.\<close>

definition deadline_passed :: "instant option \<Rightarrow> instant \<Rightarrow> bool" where
  "deadline_passed deadline now = (case deadline of None \<Rightarrow> True | Some t \<Rightarrow> t \<le> now)"

lemma deadline_passed_simps [simp]:
  "deadline_passed None now" "deadline_passed (Some t) now \<longleftrightarrow> t \<le> now"
  by (simp_all add: deadline_passed_def)

lemma deadline_passed_later: "deadline_passed d t \<Longrightarrow> t \<le> t' \<Longrightarrow> deadline_passed d t'"
  by (cases d) auto

definition commit_or_fail ::
  "action_env \<Rightarrow> string \<Rightarrow> action_store \<Rightarrow> action_store \<Rightarrow> 'a service \<Rightarrow> 'a service \<times> action_store" where
  "commit_or_fail en message st st' reply =
     (if en_commit en = Committed then (reply, st') else (ServiceError (internal_error message), st))"

definition owned_action :: "action_store \<Rightarrow> uuid \<Rightarrow> uuid \<Rightarrow> action_request option" where
  "owned_action st i user =
     (case action_by_id st i of
        None \<Rightarrow> None
      | Some ar \<Rightarrow> if ar_requested_by ar \<noteq> user then None else Some ar)"

section \<open>The reply\<close>

record approval_view =
  vw_id :: uuid
  vw_status :: approval_status
  vw_required_role :: "string option"
  vw_expires_at :: "instant option"

record action_view =
  av_id :: uuid
  av_status :: action_request_status
  av_expires_at :: "instant option"
  av_is_expired :: bool
  av_reason :: "string option"
  av_requires_admin :: bool
  av_policy_details :: "(bool \<times> bool) option"
  av_approval :: "approval_view option"

text \<open>
  \<open>safe_action_preview\<close> fails when the snapshot is invalid, and when the flags an escalation
  stored cannot be iterated.
\<close>

fun json_iterable :: "json \<Rightarrow> bool" where
  "json_iterable (JList _) = True"
| "json_iterable (JDict _) = True"
| "json_iterable (JStr _) = True"
| "json_iterable _ = False"

definition revalidation_flags_iterable :: "json \<Rightarrow> bool" where
  "revalidation_flags_iterable policy =
     (case map_of (dict_items policy) ''revalidation_flags'' of
        None \<Rightarrow> True | Some v \<Rightarrow> json_iterable v)"

definition safe_action_preview :: "action_request \<Rightarrow> snapshot_error + unit" where
  "safe_action_preview ar =
     result_bind (validate_action_snapshot ar) (\<lambda>_.
       if revalidation_flags_iterable (ar_policy_flags ar) then Inr ()
       else Inl (SnapshotRaised TypeError))"

definition approval_view_of :: "approval_request \<Rightarrow> approval_view" where
  "approval_view_of ap =
     \<lparr>vw_id = ap_id ap, vw_status = ap_status ap,
      vw_required_role = ap_required_approver_role ap, vw_expires_at = ap_expires_at ap\<rparr>"

definition effective_deadline :: "action_request \<Rightarrow> instant option" where
  "effective_deadline ar =
     (if ar_status ar = DraftPreview then ar_preview_expires_at ar else ar_expires_at ar)"

definition serialize_action_request ::
  "action_request \<Rightarrow> instant \<Rightarrow> bool \<Rightarrow> approval_request option \<Rightarrow> snapshot_error + action_view" where
  "serialize_action_request ar now policy_details ap =
     result_bind (safe_action_preview ar) (\<lambda>_. Inr
       \<lparr>av_id = ar_id ar, av_status = ar_status ar, av_expires_at = effective_deadline ar,
        av_is_expired = deadline_passed (effective_deadline ar) now, av_reason = ar_reason ar,
        av_requires_admin = ar_requires_admin ar,
        av_policy_details =
          (if policy_details
           then Some (flag_is_true (ar_policy_flags ar) ''crosses_scopes''
                        \<or> flag_is_true (ar_policy_flags ar) ''revalidation_crosses_scopes'',
                      action_requires_override ar)
           else None),
        av_approval = map_option approval_view_of ap\<rparr>)"

definition reply_view ::
  "action_env \<Rightarrow> action_store \<Rightarrow> action_request \<Rightarrow> approval_request option \<Rightarrow> action_view service" where
  "reply_view en st ar ap =
     (case serialize_action_request ar (en_now en)
             (has_permission (env_context en st) ''can_view_sql'') ap of
        Inl e \<Rightarrow> Escaped (snapshot_exn e)
      | Inr v \<Rightarrow> Answered v)"

section \<open>Expiry\<close>

definition status_json :: "string \<Rightarrow> json" where
  "status_json s = JDict [(''status'', JStr s)]"

definition status_pair :: "action_request_status \<Rightarrow> approval_status option \<Rightarrow> json" where
  "status_pair s a =
     JDict [(''action_status'', JStr (action_status_value s)),
            (''approval_status'', jopt (map_option approval_status_value a))]"

definition expired_approval :: "instant \<Rightarrow> approval_request \<Rightarrow> approval_request" where
  "expired_approval now ap =
     (if ap_status ap = ApPending then ap\<lparr>ap_status := ApExpired, ap_decided_at := Some now\<rparr> else ap)"

definition expiry_event ::
  "action_request_status \<Rightarrow> approval_status option \<Rightarrow> string \<Rightarrow> audit_event" where
  "expiry_event before before_ap kind =
     \<lparr>ev_type = ''action_expired'', ev_action = ''expire'', ev_status = Expired,
      ev_summary = (if kind = ''draft_preview'' then ''Action preview expired.''
                    else ''Pending action request expired.''),
      ev_metadata = JDict [(''expiration_kind'', JStr kind)],
      ev_before = status_pair before before_ap,
      ev_after = status_pair Expired (map_option (\<lambda>_. ApExpired) before_ap),
      ev_severity = ''info'', ev_self_approved = None\<rparr>"

definition expire_action_request ::
  "action_env \<Rightarrow> action_request \<Rightarrow> string \<Rightarrow> action_store \<Rightarrow> 'a service \<times> action_store" where
  "expire_action_request en ar kind st =
     (let ap = approval_of st (ar_id ar);
          ar' = ar\<lparr>ar_status := Expired\<rparr>;
          ap' = map_option (expired_approval (en_now en)) ap;
          st1 = put_action ar' st;
          st2 = (case ap' of None \<Rightarrow> st1 | Some a \<Rightarrow> put_approval a st1);
          st3 = add_audit (build_action_audit_log (au_id (en_user en)) ar' ap'
                  (expiry_event (ar_status ar) (map_option ap_status ap) kind)) st2
      in commit_or_fail en ''The expired action request could not be updated safely.'' st st3
           (ServiceError action_expired_error))"

section \<open>Submitting\<close>

definition PENDING_APPROVAL_LIFETIME :: int where
  "PENDING_APPROVAL_LIFETIME = 24 * 3600 * 1000000"

definition PREVIEW_LIFETIME :: int where
  "PREVIEW_LIFETIME = 30 * 60 * 1000000"

text \<open>\<open>_policy_flag_codes\<close>: the distinct codes of the stored flags, sorted.\<close>

definition policy_flag_codes :: "action_request \<Rightarrow> string list" where
  "policy_flag_codes ar =
     sorted_set (map (\<lambda>f. jstr (jget f ''code''))
       (filter (\<lambda>f. is_dict f \<and> is_str (jget f ''code'')) (jlist (jget (ar_policy_flags ar) ''flags''))))"

definition safe_approval_policy_snapshot :: "action_request \<Rightarrow> json" where
  "safe_approval_policy_snapshot ar =
     (if \<not> is_dict (ar_policy_flags ar) then JDict []
      else JDict
        [(''flag_codes'', JList (map JStr (policy_flag_codes ar))),
         (''requires_admin'', JBool (ar_requires_admin ar)),
         (''crosses_scopes'', JBool (flag_is_true (ar_policy_flags ar) ''crosses_scopes'')),
         (''requires_policy_override'',
          JBool (flag_is_true (ar_policy_flags ar) ''requires_policy_override''))])"

text \<open>\<open>str(scope_id)\<close> of a missing scope is \<open>None\<close> spelled out.\<close>

definition scope_id_text :: "uuid option \<Rightarrow> string" where
  "scope_id_text i = (case i of None \<Rightarrow> ''None'' | Some u \<Rightarrow> u)"

definition new_approval ::
  "action_env \<Rightarrow> presentation \<Rightarrow> string \<Rightarrow> action_request \<Rightarrow> approval_request" where
  "new_approval en pr reason ar =
     \<lparr>ap_id = en_new_id en 0, ap_requester = Some (au_id (en_user en)), ap_decided_by = None,
      ap_action_request_id = Some (ar_id ar), ap_request_type = ar_action_type ar,
      ap_title = pr_request_title pr, ap_description = Some reason, ap_status = ApPending,
      ap_payload = JDict
        [(''action_type'', JStr (ar_action_type ar)), (''record_count'', JInt (ar_record_count ar)),
         (''skipped_count'', JInt (ar_skipped_count ar)),
         (''requires_admin'', JBool (ar_requires_admin ar)),
         (''scope'', JDict [(''id'', JStr (scope_id_text (ar_scope_id ar))),
                            (''type'', jopt (ar_scope_type ar)), (''key'', jopt (ar_scope_key ar))])],
      ap_policy_snapshot = safe_approval_policy_snapshot ar, ap_decision_reason = None,
      ap_decided_at = None,
      ap_required_approver_role = Some (if ar_requires_admin ar then ''admin'' else ''analyst_or_admin''),
      ap_expires_at = ar_expires_at ar\<rparr>"

definition submitted_action :: "action_env \<Rightarrow> string \<Rightarrow> action_request \<Rightarrow> action_request" where
  "submitted_action en reason ar =
     ar\<lparr>ar_status := PendingApproval, ar_reason := Some reason, ar_submitted_at := Some (en_now en),
        ar_expires_at := Some (en_now en + PENDING_APPROVAL_LIFETIME)\<rparr>"

definition request_event ::
  "presentation \<Rightarrow> action_request \<Rightarrow> approval_request \<Rightarrow> nat \<Rightarrow> audit_event" where
  "request_event pr ar ap n =
     \<lparr>ev_type = ''action_requested'', ev_action = ''request'', ev_status = PendingApproval,
      ev_summary = pr_requested_summary pr,
      ev_metadata = JDict [(''approval_request_id'', JStr (ap_id ap)),
                           (''notification_count'', JInt (int n)),
                           (''policy_flag_codes'', JList (map JStr (policy_flag_codes ar)))],
      ev_before = status_json ''draft_preview'', ev_after = status_json ''pending_approval'',
      ev_severity = ''info'', ev_self_approved = None\<rparr>"

definition submitted_store ::
  "action_env \<Rightarrow> presentation \<Rightarrow> string \<Rightarrow> action_request \<Rightarrow> action_store \<Rightarrow> action_store" where
  "submitted_store en pr reason ar st =
     (let ar' = submitted_action en reason ar;
          ap = new_approval en pr reason ar';
          ns = map (build_pending_approval_notification pr ar' ap)
                 (eligible_approvers (en_scope_order en) (st_auth st) ar')
      in add_audit (build_action_audit_log (au_id (en_user en)) ar' (Some ap)
             (request_event pr ar' ap (length ns)))
           (add_notifications ns (add_approval ap (put_action ar' st))))"

text \<open>\<open>_require_valid_snapshot\<close>: only the snapshot error becomes an answer.\<close>

definition with_valid_snapshot ::
  "action_request \<Rightarrow> action_store \<Rightarrow> 'a service \<times> action_store \<Rightarrow> 'a service \<times> action_store" where
  "with_valid_snapshot ar st k =
     (case validate_action_snapshot ar of
        Inl InvalidSnapshot \<Rightarrow> (ServiceError (preview_unavailable 409), st)
      | Inl (SnapshotRaised e) \<Rightarrow> (Escaped e, st)
      | Inr _ \<Rightarrow> k)"

text \<open>What a submission does to a draft that is neither expired nor invalid nor empty.\<close>

definition submit_draft ::
  "action_env \<Rightarrow> presentation \<Rightarrow> string \<Rightarrow> action_request \<Rightarrow> action_store
     \<Rightarrow> action_view service \<times> action_store" where
  "submit_draft en pr reason ar st =
     (let st' = submitted_store en pr reason ar st;
          ar' = submitted_action en reason ar;
          outcome = (if approval_of st (ar_id ar) \<noteq> None \<and> en_commit en = Committed
                     then IntegrityFailed else en_commit en)
      in case outcome of
           Committed \<Rightarrow> (reply_view en st ar' (Some (new_approval en pr reason ar')), st')
         | IntegrityFailed \<Rightarrow>
             (case (owned_action st (ar_id ar) (au_id (en_user en)), approval_of st (ar_id ar)) of
                (Some existing, Some ap) \<Rightarrow>
                  if ar_status existing = PendingApproval
                  then (reply_view en st existing (Some ap), st)
                  else (ServiceError (action_conflict ''The action request has already been processed.''), st)
              | _ \<Rightarrow> (ServiceError (action_conflict ''The action request has already been processed.''), st))
         | DatabaseFailed \<Rightarrow>
             (ServiceError (internal_error ''The action request could not be submitted safely.''), st))"

definition submit_request ::
  "action_env \<Rightarrow> uuid \<Rightarrow> string \<Rightarrow> action_store \<Rightarrow> action_view service \<times> action_store" where
  "submit_request en action_id reason st =
     (if \<not> has_permission (env_context en st) ''can_request_action''
      then (ServiceError action_forbidden, st)
      else (case owned_action st action_id (au_id (en_user en)) of
        None \<Rightarrow> (ServiceError action_not_found, st)
      | Some ar \<Rightarrow>
        if registry_get (en_registry en) (ar_action_type ar) = None
        then (ServiceError action_type_not_supported, st)
        else (case action_presentation (ar_action_type ar) of
          Inl e \<Rightarrow> (Escaped e, st)
        | Inr pr \<Rightarrow>
          if ar_status ar = PendingApproval then
            (if deadline_passed (ar_expires_at ar) (en_now en)
             then expire_action_request en ar ''pending_approval'' st
             else with_valid_snapshot ar st
               (case approval_of st (ar_id ar) of
                  None \<Rightarrow> (ServiceError (action_conflict ''The action request is not in a valid state.''), st)
                | Some ap \<Rightarrow> (reply_view en st ar (Some ap), st)))
          else if ar_status ar \<noteq> DraftPreview
          then (ServiceError (action_conflict ''The action request has already been processed.''), st)
          else if deadline_passed (ar_preview_expires_at ar) (en_now en)
          then expire_action_request en ar ''draft_preview'' st
          else with_valid_snapshot ar st
            (if ar_record_count ar \<le> 0 then (ServiceError action_not_eligible, st)
             else submit_draft en pr reason ar st))))"

section \<open>Cancelling\<close>

definition cancel_event :: "presentation \<Rightarrow> approval_request \<Rightarrow> string \<Rightarrow> audit_event" where
  "cancel_event pr ap reason =
     \<lparr>ev_type = ''action_cancelled'', ev_action = ''cancel'', ev_status = Cancelled,
      ev_summary = pr_cancelled_summary pr,
      ev_metadata = JDict [(''approval_request_id'', JStr (ap_id ap)),
                           (''cancellation_reason'', JStr reason)],
      ev_before = status_pair PendingApproval (Some ApPending),
      ev_after = status_pair Cancelled (Some ApCancelled),
      ev_severity = ''info'', ev_self_approved = None\<rparr>"

definition cancel_request ::
  "action_env \<Rightarrow> uuid \<Rightarrow> string \<Rightarrow> action_store \<Rightarrow> action_view service \<times> action_store" where
  "cancel_request en action_id reason st =
     (if \<not> has_permission (env_context en st) ''can_request_action''
      then (ServiceError action_forbidden, st)
      else (case owned_action st action_id (au_id (en_user en)) of
        None \<Rightarrow> (ServiceError action_not_found, st)
      | Some ar \<Rightarrow>
        if registry_get (en_registry en) (ar_action_type ar) = None
        then (ServiceError action_type_not_supported, st)
        else (case action_presentation (ar_action_type ar) of
          Inl e \<Rightarrow> (Escaped e, st)
        | Inr pr \<Rightarrow>
          if ar_status ar = PendingApproval \<and> deadline_passed (ar_expires_at ar) (en_now en)
          then expire_action_request en ar ''pending_approval'' st
          else if ar_status ar \<noteq> PendingApproval then (ServiceError action_cannot_be_cancelled, st)
          else with_valid_snapshot ar st
            (case approval_of st (ar_id ar) of
               None \<Rightarrow> (ServiceError (action_conflict ''The action request is not in a valid state.''), st)
             | Some ap \<Rightarrow>
                 if ap_status ap \<noteq> ApPending
                 then (ServiceError (action_conflict ''The action request is not in a valid state.''), st)
                 else
                   let ar' = ar\<lparr>ar_status := Cancelled\<rparr>;
                       ap' = ap\<lparr>ap_status := ApCancelled, ap_decision_reason := Some reason,
                                ap_decided_at := Some (en_now en)\<rparr>;
                       st' = add_audit (build_action_audit_log (au_id (en_user en)) ar' (Some ap')
                               (cancel_event pr ap reason)) (put_approval ap' (put_action ar' st))
                   in commit_or_fail en ''The action request could not be cancelled safely.'' st st'
                        (reply_view en st ar' (Some ap'))))))"

section \<open>Reading\<close>

definition approval_decision_allowed :: "action_request \<Rightarrow> user_access_context \<Rightarrow> bool" where
  "approval_decision_allowed ar ctx = pd_allowed (evaluate_action_approval ctx (action_question ar))"

definition can_view_action_request ::
  "action_request \<Rightarrow> app_user \<Rightarrow> user_access_context \<Rightarrow> instant \<Rightarrow> bool" where
  "can_view_action_request ar user ctx now =
     (if ar_requested_by ar = au_id user then True
      else if ar_status ar \<noteq> PendingApproval then False
      else if deadline_passed (ar_expires_at ar) now then False
      else approval_decision_allowed ar ctx)"

definition get_action_detail :: "action_env \<Rightarrow> uuid \<Rightarrow> action_store \<Rightarrow> action_view service" where
  "get_action_detail en action_id st =
     (case action_by_id st action_id of
        None \<Rightarrow> ServiceError action_not_found
      | Some ar \<Rightarrow>
          if \<not> can_view_action_request ar (en_user en) (env_context en st) (en_now en)
          then ServiceError action_not_found
          else if registry_get (en_registry en) (ar_action_type ar) = None
          then ServiceError action_type_not_supported
          else (case serialize_action_request ar (en_now en)
                       (has_permission (env_context en st) ''can_view_sql'')
                       (approval_of st (ar_id ar)) of
                  Inl InvalidSnapshot \<Rightarrow> ServiceError (preview_unavailable 500)
                | Inl (SnapshotRaised e) \<Rightarrow> Escaped e
                | Inr v \<Rightarrow> Answered v))"

datatype status_group = GroupAll | GroupPending | GroupCompleted | GroupClosed

definition REQUESTER_PENDING_STATUSES :: "action_request_status list" where
  "REQUESTER_PENDING_STATUSES = [PendingApproval, ApprovedExecuting]"

definition REQUESTER_CLOSED_STATUSES :: "action_request_status list" where
  "REQUESTER_CLOSED_STATUSES = [Rejected, Failed, Cancelled, Expired]"

fun requester_statuses :: "status_group \<Rightarrow> action_request_status list option" where
  "requester_statuses GroupAll = None"
| "requester_statuses GroupPending = Some REQUESTER_PENDING_STATUSES"
| "requester_statuses GroupCompleted = Some [Completed]"
| "requester_statuses GroupClosed = Some REQUESTER_CLOSED_STATUSES"

record own_requests =
  ow_items :: "uuid list"
  ow_pending :: nat
  ow_completed :: nat
  ow_closed :: nat
  ow_total :: nat

definition submitted_by :: "action_store \<Rightarrow> uuid \<Rightarrow> action_request list" where
  "submitted_by st user =
     filter (\<lambda>ar. ar_requested_by ar = user \<and> ar_submitted_at ar \<noteq> None \<and> ar_status ar \<noteq> DraftPreview)
       (st_actions st)"

definition count_statuses :: "action_request list \<Rightarrow> action_request_status list \<Rightarrow> nat" where
  "count_statuses ars ss = length (filter (\<lambda>ar. ar_status ar \<in> set ss) ars)"

text \<open>Newest submission first, then newest row, then greatest id.\<close>

definition newest_first :: "action_request list \<Rightarrow> action_request list" where
  "newest_first ars =
     rev (sort_key (\<lambda>ar. the (ar_submitted_at ar)) (sort_key ar_created_at (sort_key ar_id ars)))"

definition list_own_requests ::
  "action_env \<Rightarrow> status_group \<Rightarrow> nat \<Rightarrow> nat \<Rightarrow> action_store \<Rightarrow> own_requests service" where
  "list_own_requests en grp limit offset st =
     (if \<not> has_permission (env_context en st) ''can_request_action''
      then ServiceError action_forbidden
      else
        let mine = submitted_by st (au_id (en_user en));
            selected = (case requester_statuses grp of
              None \<Rightarrow> mine | Some ss \<Rightarrow> filter (\<lambda>ar. ar_status ar \<in> set ss) mine)
        in Answered
          \<lparr>ow_items = map ar_id (take limit (drop offset (newest_first selected))),
           ow_pending = count_statuses mine REQUESTER_PENDING_STATUSES,
           ow_completed = count_statuses mine [Completed],
           ow_closed = count_statuses mine REQUESTER_CLOSED_STATUSES,
           ow_total = length selected\<rparr>)"

end
