(* ===== verification/Approval_Lifecycle.thy ===== *)
theory Approval_Lifecycle
  imports Action_Lifecycle
begin

text \<open>
  The approver's side of an action (\<open>ApprovalLifecycleService\<close> in \<open>action_engine/approval.py\<close>):
  the pending list, the detail of one approval, rejecting, and approving, which revalidates the
  targets twice, decides again on what is left of them, executes, and records the outcome.

  A statement \<open>UPDATE ... WHERE status = ...\<close> changes the rows that satisfy the condition in the
  store, and its row count is their number; the caller holds the row locks from the read to the
  commit.
\<close>

section \<open>Errors\<close>

definition approval_not_found :: api_error where
  "approval_not_found =
     \<lparr>ae_code = ''APPROVAL_NOT_FOUND'', ae_message = ''Approval request was not found.'',
      ae_status_code = 404\<rparr>"

definition already_processed :: api_error where
  "already_processed =
     \<lparr>ae_code = ''ACTION_ALREADY_PROCESSED'',
      ae_message = ''The action request has already been processed.'', ae_status_code = 409\<rparr>"

definition policy_override_required :: api_error where
  "policy_override_required =
     \<lparr>ae_code = ''POLICY_OVERRIDE_REQUIRED'',
      ae_message = ''Current policy requires an authorized override approver.'',
      ae_status_code = 422\<rparr>"

section \<open>Reading the pair\<close>

definition APPROVAL_PERMISSIONS :: "string list" where
  "APPROVAL_PERMISSIONS =
     [''can_approve_scoped_action'', ''can_approve_global_action'', ''can_approve_policy_override'']"

text \<open>\<open>_locked_pair\<close>; \<open>None\<close> is the not-found error.\<close>

definition locked_pair :: "action_store \<Rightarrow> uuid \<Rightarrow> (action_request \<times> approval_request) option" where
  "locked_pair st i =
     (case approval_by_id st i of
        None \<Rightarrow> None
      | Some ap \<Rightarrow>
          (case ap_action_request_id ap of
             None \<Rightarrow> None
           | Some a \<Rightarrow> (case action_by_id st a of None \<Rightarrow> None | Some ar \<Rightarrow> Some (ar, ap))))"

definition pair_expired :: "action_request \<Rightarrow> approval_request \<Rightarrow> instant \<Rightarrow> bool" where
  "pair_expired ar ap now \<longleftrightarrow>
     deadline_passed (ar_expires_at ar) now \<or> deadline_passed (ap_expires_at ap) now"

definition pair_pending :: "action_request \<Rightarrow> approval_request \<Rightarrow> bool" where
  "pair_pending ar ap \<longleftrightarrow> ar_status ar = PendingApproval \<and> ap_status ap = ApPending"

definition require_pending ::
  "action_request \<Rightarrow> approval_request \<Rightarrow> instant \<Rightarrow> api_error + unit" where
  "require_pending ar ap now =
     (if \<not> pair_pending ar ap then Inl already_processed
      else if pair_expired ar ap now then Inl action_expired_error
      else Inr ())"

section \<open>Conditional updates\<close>

text \<open>The row count of an update and the rows after it.\<close>

definition update_actions ::
  "(action_request \<Rightarrow> bool) \<Rightarrow> (action_request \<Rightarrow> action_request) \<Rightarrow> action_store \<Rightarrow> nat \<times> action_store" where
  "update_actions cond f st =
     (length (filter cond (st_actions st)),
      st\<lparr>st_actions := map (\<lambda>x. if cond x then f x else x) (st_actions st)\<rparr>)"

definition update_approvals ::
  "(approval_request \<Rightarrow> bool) \<Rightarrow> (approval_request \<Rightarrow> approval_request) \<Rightarrow> action_store \<Rightarrow> nat \<times> action_store" where
  "update_approvals cond f st =
     (length (filter cond (st_approvals st)),
      st\<lparr>st_approvals := map (\<lambda>x. if cond x then f x else x) (st_approvals st)\<rparr>)"

section \<open>Expiry\<close>

definition pair_expiry_event :: audit_event where
  "pair_expiry_event = expiry_event PendingApproval (Some ApPending) ''pending_approval''"

text \<open>
  \<open>_expire_one\<close>: \<open>Inr False\<close> when one of the two conditional updates missed its row (both
  deadlines must have passed), \<open>Inl\<close> the error of a failed commit.
\<close>

definition expire_one ::
  "action_env \<Rightarrow> action_request \<Rightarrow> approval_request \<Rightarrow> action_store \<Rightarrow> (api_error + bool) \<times> action_store" where
  "expire_one en ar ap st =
     (let now = en_now en;
          (n, st1) = update_actions
             (\<lambda>x. ar_id x = ar_id ar \<and> ar_status x = PendingApproval \<and> deadline_passed (ar_expires_at x) now)
             (\<lambda>x. x\<lparr>ar_status := Expired\<rparr>) st;
          (m, st2) = update_approvals
             (\<lambda>x. ap_id x = ap_id ap \<and> ap_action_request_id x = Some (ar_id ar)
                  \<and> ap_status x = ApPending \<and> deadline_passed (ap_expires_at x) now)
             (\<lambda>x. x\<lparr>ap_status := ApExpired, ap_decided_at := Some now\<rparr>) st1;
          ar' = ar\<lparr>ar_status := Expired\<rparr>;
          ap' = ap\<lparr>ap_status := ApExpired, ap_decided_at := Some now\<rparr>;
          st3 = add_audit (build_action_audit_log (au_id (en_user en)) ar' (Some ap') pair_expiry_event) st2
      in if n \<noteq> 1 \<or> m \<noteq> 1 then (Inr False, st)
         else if en_commit en = Committed then (Inr True, st3)
         else (Inl (internal_error ''The expired approval could not be updated safely.''), st))"

text \<open>The branch \<open>reject\<close> and \<open>approve\<close> take on an expired pending pair.\<close>

definition refuse_expired ::
  "action_env \<Rightarrow> action_request \<Rightarrow> approval_request \<Rightarrow> action_store \<Rightarrow> 'a service \<times> action_store" where
  "refuse_expired en ar ap st =
     (case expire_one en ar ap st of
        (Inl e, st') \<Rightarrow> (ServiceError e, st')
      | (Inr expired, st') \<Rightarrow>
          (ServiceError (if expired then action_expired_error else already_processed), st'))"

text \<open>\<open>_expire_pending_requests\<close>: the sweep of the pending list, over the pairs of one join.\<close>

definition expired_pairs :: "instant \<Rightarrow> action_store \<Rightarrow> (action_request \<times> approval_request) list" where
  "expired_pairs now st =
     [(ar, ap). ar \<leftarrow> st_actions st, ap \<leftarrow> st_approvals st,
        ap_action_request_id ap = Some (ar_id ar) \<and> pair_pending ar ap \<and> pair_expired ar ap now]"

definition sweep_one ::
  "action_env \<Rightarrow> user_access_context \<Rightarrow> bool \<times> action_store \<Rightarrow> action_request \<times> approval_request
     \<Rightarrow> bool \<times> action_store" where
  "sweep_one en ctx = (\<lambda>(changed, st) (ar, ap).
     if \<not> pd_allowed (approval_decision ar ctx) then (changed, st)
     else
       (let (n, st1) = update_actions (\<lambda>x. ar_id x = ar_id ar \<and> ar_status x = PendingApproval)
              (\<lambda>x. x\<lparr>ar_status := Expired\<rparr>) st;
            ar' = ar\<lparr>ar_status := Expired\<rparr>;
            ap' = ap\<lparr>ap_status := ApExpired, ap_decided_at := Some (en_now en)\<rparr>
        in if n \<noteq> 1 then (changed, st)
           else (True, add_audit (build_action_audit_log (au_id (en_user en)) ar' (Some ap') pair_expiry_event)
                         (put_approval ap' st1))))"

definition expire_pending_requests ::
  "action_env \<Rightarrow> user_access_context \<Rightarrow> action_store \<Rightarrow> (api_error + unit) \<times> action_store" where
  "expire_pending_requests en ctx st =
     (case foldl (sweep_one en ctx) (False, st) (expired_pairs (en_now en) st) of
        (False, _) \<Rightarrow> (Inr (), st)
      | (True, st') \<Rightarrow>
          if en_commit en = Committed then (Inr (), st')
          else (Inl (internal_error ''Expired approvals could not be updated safely.''), st))"

section \<open>The pending list and the detail\<close>

definition priority_rank :: "string \<Rightarrow> nat" where
  "priority_rank p = (if p = ''urgent'' then 0 else if p = ''high'' then 1 else 2)"

definition pending_candidates :: "instant \<Rightarrow> action_store \<Rightarrow> (action_request \<times> approval_request) list" where
  "pending_candidates now st =
     sort_key (\<lambda>(ar, ap). priority_rank (ar_priority ar))
       (sort_key (\<lambda>(ar, ap). ar_created_at ar)
         (sort_key (\<lambda>(ar, ap). ap_id ap)
           [(ar, ap). ap \<leftarrow> st_approvals st, ar \<leftarrow> st_actions st,
              ap_action_request_id ap = Some (ar_id ar) \<and> pair_pending ar ap
              \<and> \<not> pair_expired ar ap now]))"

record pending_page =
  pp_items :: "(uuid \<times> uuid) list"
  pp_total :: nat

definition list_pending ::
  "action_env \<Rightarrow> nat \<Rightarrow> nat \<Rightarrow> action_store \<Rightarrow> pending_page service \<times> action_store" where
  "list_pending en limit offset st =
     (let ctx = env_context en st
      in if \<not> list_ex (has_permission ctx) APPROVAL_PERMISSIONS
         then (ServiceError action_forbidden, st)
         else (case expire_pending_requests en ctx st of
             (Inl e, st') \<Rightarrow> (ServiceError e, st')
           | (Inr _, st') \<Rightarrow>
               (let visible = filter (\<lambda>(ar, ap). pd_allowed (approval_decision ar ctx))
                      (pending_candidates (en_now en) st')
                in (Answered \<lparr>pp_items = map (\<lambda>(ar, ap). (ap_id ap, ar_id ar))
                                (take limit (drop offset visible)),
                              pp_total = length visible\<rparr>, st'))))"

record approval_detail =
  dt_approval_id :: uuid
  dt_action_id :: uuid
  dt_action_status :: action_request_status
  dt_approval_status :: approval_status
  dt_can_decide :: bool
  dt_self_approval :: bool
  dt_reason :: "string option"

definition serialize_approval_detail ::
  "action_request \<Rightarrow> approval_request \<Rightarrow> user_access_context \<Rightarrow> instant \<Rightarrow> py_exn + approval_detail" where
  "serialize_approval_detail ar ap ctx now =
     (let decision = approval_decision ar ctx;
          can = pd_allowed decision \<and> pair_pending ar ap \<and> \<not> pair_expired ar ap now
      in result_bind (checked (safe_action_preview ar)) (\<lambda>_. Inr
           \<lparr>dt_approval_id = ap_id ap, dt_action_id = ar_id ar, dt_action_status = ar_status ar,
            dt_approval_status = ap_status ap, dt_can_decide = can,
            dt_self_approval = (pd_allowed decision \<and> pd_self_approved decision),
            dt_reason = (if can then None else Some (pd_code decision))\<rparr>))"

definition detail_answer ::
  "action_env \<Rightarrow> user_access_context \<Rightarrow> action_request \<times> approval_request \<Rightarrow> approval_detail service" where
  "detail_answer en ctx = (\<lambda>(ar, ap).
     case serialize_approval_detail ar ap ctx (en_now en) of
       Inl e \<Rightarrow> Escaped e | Inr d \<Rightarrow> Answered d)"

definition get_approval_detail ::
  "action_env \<Rightarrow> uuid \<Rightarrow> action_store \<Rightarrow> approval_detail service \<times> action_store" where
  "get_approval_detail en approval_id st =
     (let ctx = env_context en st
      in case locked_pair st approval_id of
           None \<Rightarrow> (ServiceError approval_not_found, st)
         | Some (ar, ap) \<Rightarrow>
             if \<not> pd_allowed (approval_decision ar ctx) \<and> \<not> has_permission ctx ''can_view_global_audit''
             then (ServiceError approval_not_found, st)
             else if pair_pending ar ap \<and> pair_expired ar ap (en_now en)
             then (case expire_one en ar ap st of
                 (Inl e, st') \<Rightarrow> (ServiceError e, st')
               | (Inr _, st') \<Rightarrow>
                   (case locked_pair st' approval_id of
                      None \<Rightarrow> (ServiceError approval_not_found, st')
                    | Some p \<Rightarrow> (detail_answer en ctx p, st')))
             else (detail_answer en ctx (ar, ap), st))"

section \<open>Rejecting\<close>

record decision_result =
  dn_approval_id :: uuid
  dn_action_id :: uuid
  dn_status :: action_request_status
  dn_executed :: nat
  dn_skipped :: int
  dn_self_approved :: bool
  dn_override_used :: bool
  dn_at :: instant

definition reject_event :: "presentation \<Rightarrow> audit_event" where
  "reject_event pr =
     \<lparr>ev_type = ''action_rejected'', ev_action = ''reject'', ev_status = Rejected,
      ev_summary = pr_rejected_summary pr, ev_metadata = JDict [],
      ev_before = status_pair PendingApproval (Some ApPending),
      ev_after = status_pair Rejected (Some ApRejected),
      ev_severity = ''info'', ev_self_approved = None\<rparr>"

definition decide_approval ::
  "action_env \<Rightarrow> approval_status \<Rightarrow> string \<Rightarrow> approval_request \<Rightarrow> approval_request" where
  "decide_approval en s reason ap =
     ap\<lparr>ap_status := s, ap_decided_by := Some (au_id (en_user en)), ap_decision_reason := Some reason,
        ap_decided_at := Some (en_now en)\<rparr>"

definition reject_pending ::
  "action_env \<Rightarrow> presentation \<Rightarrow> string \<Rightarrow> action_request \<Rightarrow> approval_request \<Rightarrow> action_store
     \<Rightarrow> decision_result service \<times> action_store" where
  "reject_pending en pr reason ar ap st =
     (let now = en_now en;
          (n, st1) = update_actions
             (\<lambda>x. ar_id x = ar_id ar \<and> ar_status x = PendingApproval
                  \<and> \<not> deadline_passed (ar_expires_at x) now)
             (\<lambda>x. x\<lparr>ar_status := Rejected\<rparr>) st;
          (m, st2) = update_approvals
             (\<lambda>x. ap_id x = ap_id ap \<and> ap_status x = ApPending \<and> \<not> deadline_passed (ap_expires_at x) now)
             (decide_approval en ApRejected reason) st1;
          ar' = ar\<lparr>ar_status := Rejected\<rparr>;
          ap' = decide_approval en ApRejected reason ap;
          note = build_action_notification (ar_requested_by ar) (au_id (en_user en)) ''action_rejected''
                   ''Action request rejected'' (pr_rejected_body pr) ar' ap';
          st3 = add_notifications (active_notifications (st_auth st) [note])
                  (add_audit (build_action_audit_log (au_id (en_user en)) ar' (Some ap') (reject_event pr)) st2)
      in if n \<noteq> 1 \<or> m \<noteq> 1 then (ServiceError already_processed, st)
         else commit_or_fail en ''The approval decision could not be saved safely.'' st st3
           (Answered \<lparr>dn_approval_id = ap_id ap, dn_action_id = ar_id ar, dn_status = Rejected,
                      dn_executed = 0, dn_skipped = 0, dn_self_approved = False,
                      dn_override_used = False, dn_at = now\<rparr>))"

text \<open>The steps \<open>reject\<close> and \<open>approve\<close> share before they decide.\<close>

definition with_pending_pair ::
  "action_env \<Rightarrow> uuid \<Rightarrow> action_store
     \<Rightarrow> (presentation \<Rightarrow> action_request \<Rightarrow> approval_request \<Rightarrow> 'a service \<times> action_store)
     \<Rightarrow> 'a service \<times> action_store" where
  "with_pending_pair en approval_id st k =
     (case locked_pair st approval_id of
        None \<Rightarrow> (ServiceError approval_not_found, st)
      | Some (ar, ap) \<Rightarrow>
          (case action_presentation (ar_action_type ar) of
             Inl e \<Rightarrow> (Escaped e, st)
           | Inr pr \<Rightarrow>
               if \<not> pd_allowed (approval_decision ar (env_context en st))
               then (ServiceError approval_not_found, st)
               else if pair_pending ar ap \<and> pair_expired ar ap (en_now en)
               then refuse_expired en ar ap st
               else (case require_pending ar ap (en_now en) of
                   Inl e \<Rightarrow> (ServiceError e, st)
                 | Inr _ \<Rightarrow> k pr ar ap)))"

definition reject ::
  "action_env \<Rightarrow> uuid \<Rightarrow> string \<Rightarrow> action_store \<Rightarrow> decision_result service \<times> action_store" where
  "reject en approval_id reason st =
     with_pending_pair en approval_id st (\<lambda>pr ar ap. reject_pending en pr reason ar ap st)"

section \<open>Approving\<close>

text \<open>A statement of a stage fails when the database says so.\<close>

definition staged :: "action_env \<Rightarrow> approve_stage \<Rightarrow> py_exn + 'a \<Rightarrow> py_exn + 'a" where
  "staged en stage r = (if en_fault en stage then Inl SQLAlchemyError else r)"

text \<open>
  The validation half: the snapshot, the handler, the row-level context, the action role around
  each revalidation, and the stable execution set. It yields the handler, the session after the
  role was reset, and the final revalidation.
\<close>

definition revalidate_twice ::
  "action_env \<Rightarrow> action_request \<Rightarrow> user_access_context \<Rightarrow> action_store
     \<Rightarrow> py_exn + (action_handler \<times> db_session \<times> revalidation)" where
  "revalidate_twice en ar ctx st =
     result_bind (checked (validate_action_snapshot ar)) (\<lambda>_.
     case registry_get (en_registry en) (ar_action_type ar) of
       None \<Rightarrow> Inl LookupError
     | Some h \<Rightarrow>
       (case set_rls_context (ss_settings (en_session en)) (build_rls_context ctx) of
          Inl _ \<Rightarrow> Inl ValueError
        | Inr settings \<Rightarrow>
          let s1 = set_action_runtime_role ((en_session en)\<lparr>ss_settings := settings\<rparr>);
              s2 = reset_action_runtime_role s1;
              s3 = set_action_runtime_role s2;
              s4 = reset_action_runtime_role s3;
              ty = ar_action_type ar
          in result_bind (staged en FirstRevalidation
               (hd_revalidate h s1 (st_domain st) ar ctx (en_now en))) (\<lambda>first.
             result_bind (require_action_revalidation ty first) (\<lambda>initial.
             result_bind (staged en DependencyLocks (lock_action_dependencies ty initial)) (\<lambda>_.
             result_bind (staged en SecondRevalidation
               (hd_revalidate h s3 (en_concurrent en (st_domain st)) ar ctx (en_now en))) (\<lambda>second.
             result_bind (require_action_revalidation ty second) (\<lambda>final.
             result_bind (require_stable_execution_set initial final) (\<lambda>_.
               Inr (h, s4, final)))))))))"

text \<open>What the current rows ask of the approval policy.\<close>

definition current_question :: "action_request \<Rightarrow> revalidation \<Rightarrow> approval_question" where
  "current_question ar rv =
     \<lparr>aq_requester = ar_requested_by ar, aq_scope_type = or_empty (ar_scope_type ar),
      aq_scope_key = or_empty (ar_scope_key ar),
      aq_record_count = int (length (rv_executable rv)), aq_crosses_scopes = rv_crosses_scopes rv,
      aq_requires_policy_override = rv_requires_policy_override rv\<rparr>"

text \<open>\<open>_persist_escalation\<close>.\<close>

definition escalated_action :: "action_request \<Rightarrow> revalidation \<Rightarrow> json \<Rightarrow> action_request" where
  "escalated_action ar rv flags =
     ar\<lparr>ar_policy_flags :=
          jset ''revalidation_crosses_scopes'' (JBool (rv_crosses_scopes rv))
            (jset ''revalidation_requires_policy_override'' (JBool True)
              (jset ''revalidation_requires_admin'' (JBool True)
                (jset ''revalidation_flags'' flags (ar_policy_flags ar)))),
        ar_requires_admin := True\<rparr>"

definition escalation_event :: audit_event where
  "escalation_event =
     \<lparr>ev_type = ''action_approval_escalated'', ev_action = ''escalate'', ev_status = PendingApproval,
      ev_summary = ''Current policy requires an authorized override approver.'',
      ev_metadata = JDict [(''escalation_reason'', JStr ''policy_override_required'')],
      ev_before = JDict [(''requires_admin'', JBool False)],
      ev_after = JDict [(''requires_admin'', JBool True)],
      ev_severity = ''warning'', ev_self_approved = None\<rparr>"

definition already_notified :: "action_store \<Rightarrow> uuid \<Rightarrow> uuid \<Rightarrow> bool" where
  "already_notified st action_id user \<longleftrightarrow>
     list_ex (\<lambda>n. nt_recipient n = user \<and> nt_type n = ''action_pending_approval''
                \<and> nt_related_type n = ''action_request'' \<and> nt_related_id n = action_id)
       (st_notifications st)"

definition escalated_store ::
  "action_env \<Rightarrow> presentation \<Rightarrow> action_request \<Rightarrow> approval_request \<Rightarrow> revalidation \<Rightarrow> json \<Rightarrow> action_store
     \<Rightarrow> action_store" where
  "escalated_store en pr ar ap rv flags st =
     (let ar' = escalated_action ar rv flags;
          ap' = ap\<lparr>ap_required_approver_role := Some ''admin''\<rparr>;
          pending = map (build_pending_approval_notification pr ar' ap')
                      (eligible_approvers (en_scope_order en) (st_auth st) ar');
          fresh = filter (\<lambda>n. \<not> already_notified st (ar_id ar) (nt_recipient n)) pending
      in add_notifications fresh
           (add_audit (build_action_audit_log (au_id (en_user en)) ar' (Some ap') escalation_event)
             (put_approval ap' (put_action ar' st))))"

text \<open>\<open>_complete_success\<close>: the documents of the completed action.\<close>

definition skip_counts :: "json list \<Rightarrow> json" where
  "skip_counts records =
     (let codes = map (\<lambda>r. jstr (jget r ''reason_code''))
                    (filter (\<lambda>r. is_str (jget r ''reason_code'')) records)
      in JList (map (\<lambda>c. JDict [(''reason_code'', JStr c), (''count'', JInt (int (count_list codes c)))])
                 (sorted_set codes)))"

definition prior_skips :: "action_request \<Rightarrow> json list" where
  "prior_skips ar = jlist (jget (ar_skipped_records ar) ''records'')"

definition current_skips :: "revalidation \<Rightarrow> json list" where
  "current_skips rv = map (skip_as_dict (rv_type rv)) (rv_skipped rv)"

definition override_reason_records :: "action_request \<Rightarrow> json list" where
  "override_reason_records ar =
     concat (map (\<lambda>r. map (\<lambda>c. JDict [(''reason_code'', c)])
                        (filter is_str (jlist (jget r ''override_reason_codes''))))
       (filter is_dict (jlist (jget (ar_preview_json ar) ''override_required_records''))))"

definition completed_skips :: "action_request \<Rightarrow> revalidation \<Rightarrow> json" where
  "completed_skips ar rv =
     JDict [(''records'', JList (prior_skips ar @ current_skips rv)),
            (''exclusions_by_reason'',
             skip_counts (prior_skips ar @ current_skips rv @ override_reason_records ar))]"

definition set_if_present :: "string \<Rightarrow> json \<Rightarrow> json \<Rightarrow> json" where
  "set_if_present k v d = (if k \<in> fst ` set (dict_items d) then jset k v d else d)"

definition completed_summary :: "action_request \<Rightarrow> revalidation \<Rightarrow> json" where
  "completed_summary ar rv =
     (let skips = prior_skips ar @ current_skips rv
      in set_if_present ''recent_login_skipped_count'' (JInt (count_code ''recent_successful_login'' skips))
           (set_if_present ''service_accounts_excluded_count''
             (JInt (count_code ''service_account_excluded'' skips))
             (jset ''skipped_count'' (JInt (int (length skips)))
               (jget (ar_preview_json ar) ''summary''))))"

definition completed_action :: "action_env \<Rightarrow> action_request \<Rightarrow> revalidation \<Rightarrow> action_request" where
  "completed_action en ar rv =
     ar\<lparr>ar_status := Completed, ar_approved_at := Some (en_now en), ar_executed_at := Some (en_now en),
        ar_completed_at := Some (en_now en), ar_skipped_records := completed_skips ar rv,
        ar_skipped_count := int (length (prior_skips ar @ current_skips rv)),
        ar_preview_json := jset ''summary'' (completed_summary ar rv) (ar_preview_json ar)\<rparr>"

definition status_records :: "string \<Rightarrow> string \<Rightarrow> string \<Rightarrow> uuid list \<Rightarrow> json" where
  "status_records id_field field status ids =
     JDict [(''records'', JList (map (\<lambda>i. JDict [(id_field, JStr i), (field, JStr status)]) ids))]"

definition completion_metadata :: "action_request \<Rightarrow> revalidation \<Rightarrow> uuid list \<Rightarrow> json" where
  "completion_metadata ar rv ids =
     JDict [(''executed_count'', JInt (int (length ids))), (''skipped_count'', JInt (ar_skipped_count ar)),
            (''override_used'', JBool (rv_requires_policy_override rv))]"

definition approved_event ::
  "presentation \<Rightarrow> action_request \<Rightarrow> revalidation \<Rightarrow> uuid list \<Rightarrow> bool \<Rightarrow> audit_event" where
  "approved_event pr ar rv ids self =
     \<lparr>ev_type = ''action_approved'', ev_action = ''approve'', ev_status = ApprovedExecuting,
      ev_summary = pr_approved_summary pr, ev_metadata = completion_metadata ar rv ids,
      ev_before = status_json ''pending_approval'', ev_after = status_json ''approved_executing'',
      ev_severity = ''info'', ev_self_approved = Some self\<rparr>"

definition executed_event ::
  "presentation \<Rightarrow> action_request \<Rightarrow> revalidation \<Rightarrow> uuid list \<Rightarrow> bool \<Rightarrow> audit_event" where
  "executed_event pr ar rv ids self =
     \<lparr>ev_type = ''action_executed'', ev_action = ''execute'', ev_status = Completed,
      ev_summary = pr_executed_summary pr, ev_metadata = completion_metadata ar rv ids,
      ev_before = status_records (pr_target_id_field pr) (pr_status_field pr) (pr_before_status pr) ids,
      ev_after = status_records (pr_target_id_field pr) (pr_status_field pr) (pr_after_status pr) ids,
      ev_severity = ''info'', ev_self_approved = Some self\<rparr>"

definition completion_notifications ::
  "action_env \<Rightarrow> presentation \<Rightarrow> action_request \<Rightarrow> approval_request \<Rightarrow> revalidation \<Rightarrow> action_store
     \<Rightarrow> notification list" where
  "completion_notifications en pr ar ap rv st =
     (let me = au_id (en_user en);
          note = (\<lambda>who ty title body. build_action_notification who me ty title body ar ap);
          sensitive = (if rv_requires_policy_override rv
            then map (\<lambda>u. note (au_id u) ''action_completed'' ''Sensitive action completed''
                            ''An approved policy-override action completed.'')
                   (filter (\<lambda>u. au_id u \<noteq> ar_requested_by ar \<and> au_id u \<noteq> me)
                     (eligible_approvers (en_scope_order en) (st_auth st) ar))
            else [])
      in active_notifications (st_auth st) (dedupe_notifications
           ([note (ar_requested_by ar) ''action_approved'' ''Action request approved'' (pr_approved_body pr),
             note (ar_requested_by ar) ''action_completed'' ''Action completed'' (pr_completed_body pr),
             note me ''action_completed'' ''Approved action completed'' (pr_approver_completed_body pr)]
            @ sensitive)))"

definition completed_store ::
  "action_env \<Rightarrow> presentation \<Rightarrow> string \<Rightarrow> action_request \<Rightarrow> approval_request \<Rightarrow> revalidation \<Rightarrow> bool
     \<Rightarrow> uuid list \<Rightarrow> it_domain \<Rightarrow> action_store \<Rightarrow> action_store" where
  "completed_store en pr reason ar ap rv self ids dm st =
     (let ar' = completed_action en ar rv;
          ap' = decide_approval en ApApproved reason ap;
          me = au_id (en_user en);
          log = (\<lambda>e. build_action_audit_log me ar' (Some ap') e)
      in add_notifications (completion_notifications en pr ar' ap' rv st)
           (add_audit (log (executed_event pr ar' rv ids self))
             (add_audit (log (approved_event pr ar' rv ids self))
               (put_approval ap' (put_action ar' (st\<lparr>st_domain := dm\<rparr>))))))"

text \<open>\<open>_persist_execution_failure\<close>; \<open>Inr False\<close> when the pair is no longer pending.\<close>

definition failure_event :: "string \<Rightarrow> audit_event" where
  "failure_event category =
     \<lparr>ev_type = ''action_failed'', ev_action = ''execute'', ev_status = Failed,
      ev_summary = ''The approved action could not be completed safely.'',
      ev_metadata = JDict [(''failure_category'', JStr category)],
      ev_before = status_json ''pending_approval'', ev_after = status_json ''failed'',
      ev_severity = ''error'', ev_self_approved = None\<rparr>"

definition failed_action :: "action_env \<Rightarrow> string \<Rightarrow> action_request \<Rightarrow> action_request" where
  "failed_action en category ar =
     ar\<lparr>ar_status := Failed,
        ar_failure_user_safe := Some ''The action could not be completed safely.'',
        ar_failure_internal := Some (''execution:'' @ category), ar_completed_at := Some (en_now en)\<rparr>"

definition persist_execution_failure ::
  "action_env \<Rightarrow> uuid \<Rightarrow> uuid \<Rightarrow> string \<Rightarrow> string \<Rightarrow> action_store \<Rightarrow> (py_exn + bool) \<times> action_store" where
  "persist_execution_failure en action_id approval_id reason category st =
     (case (action_by_id st action_id, approval_by_id st approval_id) of
        (Some ar, Some ap) \<Rightarrow>
          if \<not> pair_pending ar ap then (Inr False, st)
          else
            (let (n, st1) = update_actions (\<lambda>x. ar_id x = action_id \<and> ar_status x = PendingApproval)
                   (failed_action en category) st;
                 (m, st2) = update_approvals
                   (\<lambda>x. ap_id x = approval_id \<and> ap_action_request_id x = Some action_id
                        \<and> ap_status x = ApPending)
                   (decide_approval en ApApproved reason) st1;
                 ar' = failed_action en category ar;
                 ap' = decide_approval en ApApproved reason ap;
                 me = au_id (en_user en);
                 notes = map (\<lambda>who. build_action_notification who me ''action_failed'' ''Action failed''
                                ''The action could not be completed safely.'' ar' ap')
                           (sorted_set [ar_requested_by ar, me]);
                 st3 = add_notifications (active_notifications (st_auth st) notes)
                         (add_audit (build_action_audit_log me ar' (Some ap') (failure_event category)) st2)
             in if n \<noteq> 1 \<or> m \<noteq> 1 then (Inr False, st)
                else if en_failure_commit en = Committed then (Inr True, st3)
                else (Inl SQLAlchemyError, st))
      | _ \<Rightarrow> (Inl RuntimeError, st))"

text \<open>The \<open>except Exception\<close> branch.\<close>

definition record_failure ::
  "action_env \<Rightarrow> action_request \<Rightarrow> approval_request \<Rightarrow> string \<Rightarrow> string \<Rightarrow> action_store
     \<Rightarrow> decision_result service \<times> action_store" where
  "record_failure en ar ap reason category st =
     (case persist_execution_failure en (ar_id ar) (ap_id ap) reason category st of
        (Inl _, st') \<Rightarrow> (ServiceError (internal_error ''The action could not be completed safely.''), st')
      | (Inr False, st') \<Rightarrow> (ServiceError already_processed, st')
      | (Inr True, st') \<Rightarrow>
          (Answered \<lparr>dn_approval_id = ap_id ap, dn_action_id = ar_id ar, dn_status = Failed,
             dn_executed = 0, dn_skipped = 0,
             dn_self_approved = pd_self_approved (approval_decision ar (env_context en st)),
             dn_override_used = False, dn_at = en_now en\<rparr>, st'))"

text \<open>From the claim of the action to the commit.\<close>

definition execute_claimed ::
  "action_env \<Rightarrow> presentation \<Rightarrow> string \<Rightarrow> action_request \<Rightarrow> approval_request \<Rightarrow> action_handler
     \<Rightarrow> db_session \<Rightarrow> revalidation \<Rightarrow> bool \<Rightarrow> action_store \<Rightarrow> decision_result service \<times> action_store" where
  "execute_claimed en pr reason ar ap h ss rv self st =
     (let now = en_now en; fail = record_failure en ar ap reason ''execution_failed'' st;
          (n, claimed) = update_actions
            (\<lambda>x. ar_id x = ar_id ar \<and> ar_status x = PendingApproval \<and> \<not> deadline_passed (ar_expires_at x) now)
            (\<lambda>x. x\<lparr>ar_status := ApprovedExecuting, ar_approved_at := Some now\<rparr>) st
      in if en_fault en Claim then fail
         else if n \<noteq> 1 \<or> ap_status ap \<noteq> ApPending then (ServiceError already_processed, st)
         else (case staged en Execution
                  (hd_execute h (set_action_runtime_role ss) (st_domain claimed) ar
                     (au_id (en_user en)) rv now) of
             Inl _ \<Rightarrow> fail
           | Inr (ids, dm) \<Rightarrow>
               if en_fault en Completion \<or> en_commit en \<noteq> Committed then fail
               else (Answered \<lparr>dn_approval_id = ap_id ap, dn_action_id = ar_id ar, dn_status = Completed,
                       dn_executed = length ids,
                       dn_skipped = int (length (prior_skips ar @ current_skips rv)),
                       dn_self_approved = self, dn_override_used = rv_requires_policy_override rv,
                       dn_at = now\<rparr>,
                     completed_store en pr reason ar ap rv self ids dm claimed)))"

definition escalate ::
  "action_env \<Rightarrow> presentation \<Rightarrow> string \<Rightarrow> action_request \<Rightarrow> approval_request \<Rightarrow> revalidation \<Rightarrow> action_store
     \<Rightarrow> decision_result service \<times> action_store" where
  "escalate en pr reason ar ap rv st =
     (case staged en Escalation (safe_action_revalidation_flags (ar_action_type ar) rv) of
        Inl _ \<Rightarrow> record_failure en ar ap reason ''validation_failed'' st
      | Inr flags \<Rightarrow>
          commit_or_fail en ''The approval escalation could not be saved safely.'' st
            (escalated_store en pr ar ap rv flags st) (ServiceError policy_override_required))"

definition approve_pending ::
  "action_env \<Rightarrow> presentation \<Rightarrow> string \<Rightarrow> action_request \<Rightarrow> approval_request \<Rightarrow> action_store
     \<Rightarrow> decision_result service \<times> action_store" where
  "approve_pending en pr reason ar ap st =
     (let ctx = env_context en st; later = st\<lparr>st_domain := en_concurrent en (st_domain st)\<rparr>
      in case revalidate_twice en ar ctx st of
           Inl _ \<Rightarrow> record_failure en ar ap reason ''validation_failed'' later
         | Inr (h, ss, rv) \<Rightarrow>
             (let decision = evaluate_action_approval ctx (current_question ar rv)
              in if pd_allowed decision
                 then execute_claimed en pr reason ar ap h ss rv (pd_self_approved decision) later
                 else if rv_requires_policy_override rv
                         \<and> pd_code decision = ''override_permission_required''
                 then escalate en pr reason ar ap rv later
                 else (ServiceError action_forbidden, later)))"

definition approve ::
  "action_env \<Rightarrow> uuid \<Rightarrow> string \<Rightarrow> action_store \<Rightarrow> decision_result service \<times> action_store" where
  "approve en approval_id reason st =
     with_pending_pair en approval_id st (\<lambda>pr ar ap. approve_pending en pr reason ar ap st)"

end
