(* ===== verification/Action_Invariants.thy ===== *)
theory Action_Invariants
  imports Approval_Lifecycle
begin

text \<open>
  The invariant of the action engine's tables, the abstract life cycle of a request, and the
  simulation: every handler moves a request along an edge of the life cycle or not at all.
\<close>

section \<open>The abstract life cycle\<close>

type_synonym life = "action_request_status \<times> approval_status option"

inductive life_step :: "life \<Rightarrow> life \<Rightarrow> bool" where
  life_submit: "life_step (DraftPreview, None) (PendingApproval, Some ApPending)"
| life_lapse: "life_step (DraftPreview, None) (Expired, None)"
| life_expire: "life_step (PendingApproval, Some ApPending) (Expired, Some ApExpired)"
| life_cancel: "life_step (PendingApproval, Some ApPending) (Cancelled, Some ApCancelled)"
| life_reject: "life_step (PendingApproval, Some ApPending) (Rejected, Some ApRejected)"
| life_complete: "life_step (PendingApproval, Some ApPending) (Completed, Some ApApproved)"
| life_fail: "life_step (PendingApproval, Some ApPending) (Failed, Some ApApproved)"

inductive_cases life_step_cases: "life_step l l'"
inductive_simps life_step_draft: "life_step (DraftPreview, a) l"
inductive_simps life_step_pending: "life_step (PendingApproval, a) l"

text \<open>The pairs of statuses a stored request may have.\<close>

fun life_ok :: "life \<Rightarrow> bool" where
  "life_ok (DraftPreview, a) \<longleftrightarrow> a = None"
| "life_ok (PendingApproval, a) \<longleftrightarrow> a = Some ApPending"
| "life_ok (ApprovedExecuting, a) \<longleftrightarrow> False"
| "life_ok (Completed, a) \<longleftrightarrow> a = Some ApApproved"
| "life_ok (Failed, a) \<longleftrightarrow> a = Some ApApproved"
| "life_ok (Rejected, a) \<longleftrightarrow> a = Some ApRejected"
| "life_ok (Cancelled, a) \<longleftrightarrow> a = Some ApCancelled"
| "life_ok (Expired, a) \<longleftrightarrow> a = None \<or> a = Some ApExpired"

lemma life_step_ok: "life_step l l' \<Longrightarrow> life_ok l \<and> life_ok l'"
  by (erule life_step.cases) simp_all

definition open_status :: "action_request_status \<Rightarrow> bool" where
  "open_status s \<longleftrightarrow> s = DraftPreview \<or> s = PendingApproval"

lemma life_step_open: "life_step l l' \<Longrightarrow> open_status (fst l)"
  by (erule life_step.cases) (simp_all add: open_status_def)

lemma life_steps_closed:
  assumes "life_step\<^sup>*\<^sup>* l l'" and "\<not> open_status (fst l)"
  shows "l' = l"
  using assms by (induction rule: converse_rtranclp_induct) (auto dest: life_step_open)

section \<open>The invariant\<close>

definition life_of :: "action_store \<Rightarrow> uuid \<Rightarrow> life option" where
  "life_of st i =
     (case action_by_id st i of
        None \<Rightarrow> None
      | Some ar \<Rightarrow> Some (ar_status ar, map_option ap_status (approval_of st i)))"

definition linked_ids :: "action_store \<Rightarrow> uuid option list" where
  "linked_ids st = filter (\<lambda>x. x \<noteq> None) (map ap_action_request_id (st_approvals st))"

definition row_ok :: "action_request \<Rightarrow> approval_request option \<Rightarrow> bool" where
  "row_ok ar ap \<longleftrightarrow>
     life_ok (ar_status ar, map_option ap_status ap)
     \<and> (ar_status ar = PendingApproval \<longrightarrow>
          ar_expires_at ar \<noteq> None \<and> map_option ap_expires_at ap = Some (ar_expires_at ar))"

definition action_ids :: "action_store \<Rightarrow> uuid list" where
  "action_ids st = map ar_id (st_actions st)"

definition approval_ids :: "action_store \<Rightarrow> uuid list" where
  "approval_ids st = map ap_id (st_approvals st)"

definition engine_ok :: "action_store \<Rightarrow> bool" where
  "engine_ok st \<longleftrightarrow>
     distinct (action_ids st) \<and> distinct (approval_ids st) \<and> distinct (linked_ids st)
     \<and> set (linked_ids st) \<subseteq> Some ` set (action_ids st)
     \<and> (\<forall>ar \<in> set (st_actions st). row_ok ar (approval_of st (ar_id ar)))"

definition same_tables :: "action_store \<Rightarrow> action_store \<Rightarrow> bool" where
  "same_tables st st' \<longleftrightarrow> st_actions st' = st_actions st \<and> st_approvals st' = st_approvals st"

lemma same_tables_lookup:
  assumes "same_tables st st'"
  shows "action_by_id st' = action_by_id st" "approval_of st' = approval_of st"
    "approval_by_id st' = approval_by_id st" "life_of st' = life_of st" "linked_ids st' = linked_ids st"
    "engine_ok st' = engine_ok st"
proof -
  show a: "action_by_id st' = action_by_id st" "approval_of st' = approval_of st"
    "approval_by_id st' = approval_by_id st" "linked_ids st' = linked_ids st"
    using assms by (auto simp: same_tables_def action_by_id_def approval_of_def approval_by_id_def
        linked_ids_def)
  show "life_of st' = life_of st" by (rule ext) (unfold life_of_def a, rule refl)
  show "engine_ok st' = engine_ok st"
    using assms a by (simp add: engine_ok_def same_tables_def action_ids_def approval_ids_def)
qed

lemma same_tables_adds [simp]:
  "same_tables st st"
  "same_tables st (add_audit a st') = same_tables st st'"
  "same_tables st (add_notifications ns st') = same_tables st st'"
  "same_tables st (st'\<lparr>st_domain := d\<rparr>) = same_tables st st'"
  "same_tables st (st'\<lparr>st_auth := t\<rparr>) = same_tables st st'"
  by (simp_all add: same_tables_def add_audit_def add_notifications_def)

lemma lookup_adds [simp]:
  "action_by_id (add_audit a st) = action_by_id st"
  "action_by_id (add_notifications ns st) = action_by_id st"
  "action_by_id (add_approval ap st) = action_by_id st"
  "action_by_id (put_approval ap st) = action_by_id st"
  "action_by_id (st\<lparr>st_domain := d\<rparr>) = action_by_id st"
  "action_by_id (st\<lparr>st_auth := t\<rparr>) = action_by_id st"
  "approval_of (add_audit a st) = approval_of st"
  "approval_of (add_notifications ns st) = approval_of st"
  "approval_of (put_action ar st) = approval_of st"
  "approval_of (st\<lparr>st_domain := d\<rparr>) = approval_of st"
  "approval_of (st\<lparr>st_auth := t\<rparr>) = approval_of st"
  by (auto simp: action_by_id_def approval_of_def)

section \<open>Looking rows up\<close>

lemma action_by_id_put:
  "action_by_id (put_action ar st) i =
     (if i = ar_id ar then (if action_by_id st i = None then None else Some ar) else action_by_id st i)"
proof -
  have "action_by_id (put_action ar st) i
      = map_option (\<lambda>x. if ar_id x = ar_id ar then ar else x) (action_by_id st i)"
    unfolding action_by_id_def put_action_def by (simp add: find_by_map_key)
  moreover have "action_by_id st i = Some x \<Longrightarrow> ar_id x = i" for x
    unfolding action_by_id_def by (drule find_by_SomeD) simp
  ultimately show ?thesis by (cases "action_by_id st i") auto
qed

lemma action_by_id_SomeD: "action_by_id st i = Some ar \<Longrightarrow> ar \<in> set (st_actions st) \<and> ar_id ar = i"
  unfolding action_by_id_def by (rule find_by_SomeD)

lemma approval_of_SomeD:
  "approval_of st i = Some ap \<Longrightarrow> ap \<in> set (st_approvals st) \<and> ap_action_request_id ap = Some i"
  unfolding approval_of_def by (rule find_by_SomeD)

lemma approval_by_id_SomeD:
  "approval_by_id st i = Some ap \<Longrightarrow> ap \<in> set (st_approvals st) \<and> ap_id ap = i"
  unfolding approval_by_id_def by (rule find_by_SomeD)

lemma engine_ok_lookup:
  assumes "engine_ok st" and "ar \<in> set (st_actions st)"
  shows "action_by_id st (ar_id ar) = Some ar"
  unfolding action_by_id_def using assms
  by (intro find_by_distinct) (simp_all add: engine_ok_def action_ids_def)

lemma engine_ok_inj:
  assumes "engine_ok st"
  shows "ar \<in> set (st_actions st) \<Longrightarrow> ar' \<in> set (st_actions st) \<Longrightarrow> ar_id ar = ar_id ar' \<Longrightarrow> ar = ar'"
    and "ap \<in> set (st_approvals st) \<Longrightarrow> ap' \<in> set (st_approvals st) \<Longrightarrow> ap_id ap = ap_id ap' \<Longrightarrow> ap = ap'"
  using assms by (auto simp: engine_ok_def action_ids_def approval_ids_def distinct_map inj_on_def)

lemma distinct_linked:
  assumes "distinct (filter (\<lambda>x. x \<noteq> None) (map f xs))" "a \<in> set xs" "b \<in> set xs"
    "f a = f b" "f a \<noteq> None"
  shows "a = b"
  using assms by (induction xs) (auto simp: image_iff split: if_splits)

lemma engine_ok_approval_of:
  assumes "engine_ok st" and "ap \<in> set (st_approvals st)" and "ap_action_request_id ap = Some i"
  shows "approval_of st i = Some ap"
proof -
  obtain ap' where ap': "approval_of st i = Some ap'"
    using assms(2,3) by (metis approval_of_def find_by_None image_eqI not_None_eq)
  from approval_of_SomeD [OF this] have "ap' = ap"
    using assms distinct_linked [of ap_action_request_id "st_approvals st" ap' ap]
    by (simp add: engine_ok_def linked_ids_def)
  with ap' show ?thesis by simp
qed

lemma locked_pair_SomeD:
  assumes "engine_ok st" and "locked_pair st i = Some (ar, ap)"
  shows "ar \<in> set (st_actions st)" "action_by_id st (ar_id ar) = Some ar"
    "approval_of st (ar_id ar) = Some ap" "approval_by_id st i = Some ap" "ap_id ap = i"
    "ap \<in> set (st_approvals st)" "ap_action_request_id ap = Some (ar_id ar)"
proof -
  from assms(2) obtain a where
    "approval_by_id st i = Some ap" "ap_action_request_id ap = Some a" "action_by_id st a = Some ar"
    by (auto simp: locked_pair_def split: option.splits)
  then show "ar \<in> set (st_actions st)" "action_by_id st (ar_id ar) = Some ar"
    "approval_by_id st i = Some ap" "ap_id ap = i" "ap_action_request_id ap = Some (ar_id ar)"
    "ap \<in> set (st_approvals st)"
    by (auto dest: action_by_id_SomeD approval_by_id_SomeD)
  then show "approval_of st (ar_id ar) = Some ap"
    using engine_ok_approval_of [OF assms(1)] by blast
qed

section \<open>Moving one request\<close>

definition move_pair :: "action_request \<Rightarrow> approval_request \<Rightarrow> action_store \<Rightarrow> action_store" where
  "move_pair ar ap st = put_approval ap (put_action ar st)"

lemma move_pair_lookup [simp]:
  "st_auth (move_pair ar ap st) = st_auth st" "st_domain (move_pair ar ap st) = st_domain st"
  "st_audits (move_pair ar ap st) = st_audits st"
  "st_notifications (move_pair ar ap st) = st_notifications st"
  by (simp_all add: move_pair_def)

lemma approval_of_put:
  assumes ok: "engine_ok st" and ap: "approval_of st i = Some ap"
    and ids: "ap_id ap' = ap_id ap" "ap_action_request_id ap' = ap_action_request_id ap"
  shows "approval_of (put_approval ap' st) j = (if j = i then Some ap' else approval_of st j)"
proof -
  let ?g = "\<lambda>x. if ap_id x = ap_id ap' then ap' else x"
  from approval_of_SomeD [OF ap] have mem: "ap \<in> set (st_approvals st)"
    and link: "ap_action_request_id ap = Some i" by simp_all
  have same: "x = ap" if "x \<in> set (st_approvals st)" "ap_id x = ap_id ap'" for x
    using engine_ok_inj(2) [OF ok that(1) mem] that(2) ids by simp
  have key: "ap_action_request_id (?g x) = ap_action_request_id x" if "x \<in> set (st_approvals st)" for x
    using same [OF that] ids by auto
  have "approval_of (put_approval ap' st) j = map_option ?g (approval_of st j)"
    unfolding approval_of_def put_approval_def using key by (simp add: find_by_map_key)
  also have "\<dots> = (if j = i then Some ap' else approval_of st j)"
  proof (cases "approval_of st j")
    case None
    then show ?thesis using ap by auto
  next
    case (Some x)
    then have "x \<in> set (st_approvals st)" "ap_action_request_id x = Some j"
      by (auto dest: approval_of_SomeD)
    then have "ap_id x = ap_id ap' \<Longrightarrow> j = i" using same link by (metis option.inject)
    moreover have "j = i \<Longrightarrow> ap_id x = ap_id ap'" using Some ap ids by simp
    ultimately show ?thesis using Some by auto
  qed
  finally show ?thesis .
qed

lemma ids_put [simp]:
  "action_ids (put_action ar st) = action_ids st" "approval_ids (put_action ar st) = approval_ids st"
  "action_ids (put_approval ap st) = action_ids st"
  "approval_ids (put_approval ap st) = approval_ids st"
  by (auto simp: action_ids_def approval_ids_def put_action_def put_approval_def)

lemma linked_ids_put:
  assumes "engine_ok st" and "approval_of st i = Some ap"
    and "ap_id ap' = ap_id ap" "ap_action_request_id ap' = ap_action_request_id ap"
  shows "linked_ids (put_approval ap' st) = linked_ids st"
proof -
  have "x = ap" if "x \<in> set (st_approvals st)" "ap_id x = ap_id ap'" for x
    using engine_ok_inj(2) [OF assms(1) that(1)] that(2) assms(2,3) by (auto dest: approval_of_SomeD)
  then have "map ap_action_request_id (st_approvals (put_approval ap' st))
      = map ap_action_request_id (st_approvals st)"
    using assms(4) by (auto simp: put_approval_def)
  then show ?thesis by (simp add: linked_ids_def)
qed

lemma linked_ids_simps [simp]: "linked_ids (put_action ar st) = linked_ids st"
  by (simp add: linked_ids_def)

lemma in_actions_iff:
  "engine_ok st \<Longrightarrow> ar \<in> set (st_actions st) \<longleftrightarrow> action_by_id st (ar_id ar) = Some ar"
  by (auto simp: engine_ok_lookup dest: action_by_id_SomeD)

lemma engine_ok_row:
  assumes "engine_ok st" and "action_by_id st i = Some ar"
  shows "row_ok ar (approval_of st i)"
  using assms action_by_id_SomeD [OF assms(2)] by (auto simp: engine_ok_def)

text \<open>The ids of the actions are those of the store before, so membership carries over.\<close>

lemma set_put_action: "ar' \<in> set (st_actions (put_action ar st)) \<Longrightarrow>
    ar' = ar \<or> (ar' \<in> set (st_actions st) \<and> ar_id ar' \<noteq> ar_id ar)"
  by (auto simp: put_action_def split: if_splits)

lemma put_action_ok:
  assumes "engine_ok st" and "action_by_id st i = Some ar" and "ar_id ar' = i"
    and "row_ok ar' (approval_of st i)"
  shows "engine_ok (put_action ar' st)"
  unfolding engine_ok_def
proof (intro conjI ballI)
  fix x assume "x \<in> set (st_actions (put_action ar' st))"
  then show "row_ok x (approval_of (put_action ar' st) (ar_id x))"
    using assms by (auto dest!: set_put_action simp: engine_ok_def)
qed (use assms(1) in \<open>simp_all add: engine_ok_def\<close>)

lemma move_pair_ok:
  assumes ok: "engine_ok st" and ar: "action_by_id st i = Some ar" and ap: "approval_of st i = Some ap"
    and ids: "ar_id ar' = i" "ap_id ap' = ap_id ap" "ap_action_request_id ap' = ap_action_request_id ap"
    and row: "row_ok ar' (Some ap')"
  shows "engine_ok (move_pair ar' ap' st)"
    and "action_by_id (move_pair ar' ap' st) j = (if j = i then Some ar' else action_by_id st j)"
    and "approval_of (move_pair ar' ap' st) j = (if j = i then Some ap' else approval_of st j)"
proof -
  have look: "approval_of (put_approval ap' st) j = (if j = i then Some ap' else approval_of st j)" for j
    by (rule approval_of_put [OF ok ap ids(2,3)])
  have look': "approval_of (move_pair ar' ap' st) j = (if j = i then Some ap' else approval_of st j)" for j
    using look [of j] by (simp add: move_pair_def approval_of_def put_approval_def)
  show "engine_ok (move_pair ar' ap' st)"
    unfolding engine_ok_def
  proof (intro conjI ballI)
    have *: "st_actions (move_pair ar' ap' st) = st_actions (put_action ar' st)"
      "linked_ids (move_pair ar' ap' st) = linked_ids (put_approval ap' st)"
      "action_ids (move_pair ar' ap' st) = action_ids st"
      "approval_ids (move_pair ar' ap' st) = approval_ids st"
      by (simp_all add: move_pair_def linked_ids_def put_approval_def)
         (auto simp: action_ids_def approval_ids_def put_action_def)
    show "distinct (action_ids (move_pair ar' ap' st))"
      "distinct (approval_ids (move_pair ar' ap' st))"
      "distinct (linked_ids (move_pair ar' ap' st))"
      "set (linked_ids (move_pair ar' ap' st)) \<subseteq> Some ` set (action_ids (move_pair ar' ap' st))"
      using ok by (simp_all add: * engine_ok_def linked_ids_put [OF ok ap ids(2,3)])
    fix x assume "x \<in> set (st_actions (move_pair ar' ap' st))"
    then have "x = ar' \<or> (x \<in> set (st_actions st) \<and> ar_id x \<noteq> i)"
      using ids(1) by (simp add: *) (drule set_put_action, simp)
    then show "row_ok x (approval_of (move_pair ar' ap' st) (ar_id x))"
      using ok row ids(1) by (auto simp: look' engine_ok_def)
  qed
  show "action_by_id (move_pair ar' ap' st) j = (if j = i then Some ar' else action_by_id st j)"
    using ar ids(1) by (simp add: move_pair_def action_by_id_put)
  show "approval_of (move_pair ar' ap' st) j = (if j = i then Some ap' else approval_of st j)"
    by (rule look')
qed

section \<open>Conditional updates under the invariant\<close>

text \<open>
  With unique ids a conditional update by id is a staged replacement: its row count is one and
  it puts the row when the condition holds, and zero and nothing otherwise.
\<close>

lemma filter_by_id:
  assumes "distinct (map key xs)" and "x \<in> set xs"
  shows "length (filter (\<lambda>y. key y = key x \<and> P y) xs) = (if P x then 1 else 0)"
  using assms
proof (induction xs)
  case (Cons y ys)
  have "key x \<notin> key ` set ys \<Longrightarrow> filter (\<lambda>z. key z = key x \<and> P z) ys = []"
    by (metis (mono_tags, lifting) filter_False imageI)
  with Cons show ?case by (cases "x = y") auto
qed simp

lemma update_actions_by_id:
  assumes "engine_ok st" and "action_by_id st i = Some ar"
  shows "update_actions (\<lambda>x. ar_id x = i \<and> P x) f st =
     (if P ar then (1, st\<lparr>st_actions := map (\<lambda>x. if ar_id x = i then f ar else x) (st_actions st)\<rparr>)
      else (0, st))"
proof -
  from action_by_id_SomeD [OF assms(2)] have ar: "ar \<in> set (st_actions st)" "ar_id ar = i" by simp_all
  have same: "x = ar" if "x \<in> set (st_actions st)" "ar_id x = i" for x
    using engine_ok_inj(1) [OF assms(1) that(1) ar(1)] that(2) ar(2) by simp
  have len: "length (filter (\<lambda>x. ar_id x = i \<and> P x) (st_actions st)) = (if P ar then 1 else 0)"
    using filter_by_id [of ar_id "st_actions st" ar P] assms(1) ar by (simp add: engine_ok_def action_ids_def)
  have "map (\<lambda>x. if ar_id x = i \<and> P x then f x else x) (st_actions st)
      = (if P ar then map (\<lambda>x. if ar_id x = i then f ar else x) (st_actions st) else st_actions st)"
    using same by (auto intro!: map_idI)
  with len show ?thesis by (simp add: update_actions_def)
qed

lemma update_actions_put:
  assumes "engine_ok st" and "action_by_id st i = Some ar" and "ar_id (f ar) = i"
  shows "update_actions (\<lambda>x. ar_id x = i \<and> P x) f st =
     (if P ar then (1, put_action (f ar) st) else (0, st))"
  using assms by (simp add: update_actions_by_id put_action_def)

lemma update_approvals_put:
  assumes "distinct (approval_ids st)" and "ap \<in> set (st_approvals st)" "ap_id ap = i"
    and "ap_id (f ap) = i"
  shows "update_approvals (\<lambda>x. ap_id x = i \<and> P x) f st =
     (if P ap then (1, put_approval (f ap) st) else (0, st))"
proof -
  have same: "x = ap" if "x \<in> set (st_approvals st)" "ap_id x = i" for x
    using assms that by (auto simp: approval_ids_def distinct_map inj_on_def)
  have len: "length (filter (\<lambda>x. ap_id x = i \<and> P x) (st_approvals st)) = (if P ap then 1 else 0)"
    using filter_by_id [of ap_id "st_approvals st" ap P] assms by (simp add: approval_ids_def)
  have "map (\<lambda>x. if ap_id x = i \<and> P x then f x else x) (st_approvals st)
      = (if P ap then map (\<lambda>x. if ap_id x = i then f ap else x) (st_approvals st) else st_approvals st)"
    using same by (auto intro!: map_idI)
  with len assms(4) show ?thesis by (simp add: update_approvals_def put_approval_def)
qed

section \<open>How the tables evolve\<close>

type_synonym request_row = "action_request option \<times> approval_request option"

definition row_of :: "action_store \<Rightarrow> uuid \<Rightarrow> request_row" where
  "row_of st i = (action_by_id st i, approval_of st i)"

definition row_life :: "request_row \<Rightarrow> life option" where
  "row_life = (\<lambda>(a, p). map_option (\<lambda>ar. (ar_status ar, map_option ap_status p)) a)"

lemma life_of_row: "life_of st i = row_life (row_of st i)"
  by (simp add: life_of_def row_life_def row_of_def split: option.splits)

abbreviation pending_life :: life where
  "pending_life \<equiv> (PendingApproval, Some ApPending)"

text \<open>
  A row stays, takes an edge of the life cycle, or, while it is pending, changes its content
  (an escalation).
\<close>

definition row_step :: "request_row \<Rightarrow> request_row \<Rightarrow> bool" where
  "row_step r r' \<longleftrightarrow>
     r' = r \<or> (\<exists>l l'. row_life r = Some l \<and> row_life r' = Some l'
                \<and> (life_step l l' \<or> l = pending_life \<and> l' = pending_life))"

definition evolves :: "action_store \<Rightarrow> action_store \<Rightarrow> bool" where
  "evolves st st' \<longleftrightarrow> engine_ok st' \<and> (\<forall>i. row_step (row_of st i) (row_of st' i))"

lemma row_step_refl [simp]: "row_step r r"
  by (simp add: row_step_def)

lemma row_step_trans:
  assumes "row_step r r'" and "row_step r' r''" and "\<forall>a. row_life r \<noteq> Some (DraftPreview, a)"
  shows "row_step r r''"
proof (cases "r' = r \<or> r'' = r'")
  case True
  with assms show ?thesis by auto
next
  case False
  then obtain l l' l'' where l: "row_life r = Some l" "row_life r' = Some l'" "row_life r'' = Some l''"
    and s: "life_step l l' \<or> l = pending_life \<and> l' = pending_life"
      "life_step l' l'' \<or> l' = pending_life \<and> l'' = pending_life"
    using assms by (auto simp: row_step_def)
  have "\<not> life_step l l' \<or> \<not> open_status (fst l')"
    using assms(3) l(1) by (auto elim: life_step_cases simp: open_status_def)
  with s have "l = pending_life" "l' = pending_life" by (auto dest: life_step_open simp: open_status_def)
  with l s show ?thesis by (auto simp: row_step_def)
qed

lemma row_step_closed:
  assumes "row_step r r'" and "row_life r = Some l" and "\<not> open_status (fst l)"
  shows "r' = r"
  using assms by (auto simp: row_step_def open_status_def dest: life_step_open)

lemma row_of_simps [simp]:
  "row_of (add_audit a st) = row_of st" "row_of (add_notifications ns st) = row_of st"
  "row_of (st\<lparr>st_domain := d\<rparr>) = row_of st" "row_of (st\<lparr>st_auth := au\<rparr>) = row_of st"
  by (simp_all add: row_of_def fun_eq_iff)

lemma engine_ok_simps [simp]:
  "engine_ok (add_audit a st) = engine_ok st" "engine_ok (add_notifications ns st) = engine_ok st"
  "engine_ok (st\<lparr>st_domain := d\<rparr>) = engine_ok st" "engine_ok (st\<lparr>st_auth := au\<rparr>) = engine_ok st"
  by (simp_all add: same_tables_lookup(6))

lemma evolves_simps [simp]:
  "evolves st (add_audit a st') = evolves st st'" "evolves st (add_notifications ns st') = evolves st st'"
  "evolves st (st'\<lparr>st_domain := d\<rparr>) = evolves st st'" "evolves st (st'\<lparr>st_auth := au\<rparr>) = evolves st st'"
  "evolves (st\<lparr>st_domain := d\<rparr>) st' = evolves st st'" "evolves (st\<lparr>st_auth := au\<rparr>) st' = evolves st st'"
  "evolves st st = engine_ok st"
  by (simp_all add: evolves_def)

lemma row_of_put_action:
  "action_by_id st i = Some ar \<Longrightarrow> ar_id ar' = i \<Longrightarrow>
     row_of (put_action ar' st) j = (if j = i then (Some ar', approval_of st i) else row_of st j)"
  by (simp add: row_of_def action_by_id_put)

lemma evolves_put_action:
  assumes "engine_ok st" "action_by_id st i = Some ar" "ar_id ar' = i" "row_ok ar' (approval_of st i)"
    and "life_step (ar_status ar, map_option ap_status (approval_of st i))
                   (ar_status ar', map_option ap_status (approval_of st i))"
  shows "evolves st (put_action ar' st)"
  using assms
  by (auto simp: evolves_def put_action_ok row_of_put_action row_step_def)
     (auto simp: row_life_def row_of_def)

lemma evolves_move_pair:
  assumes "engine_ok st" "action_by_id st i = Some ar" "approval_of st i = Some ap"
    and "ar_id ar' = i" "ap_id ap' = ap_id ap" "ap_action_request_id ap' = ap_action_request_id ap"
    and "row_ok ar' (Some ap')"
    and "life_step (ar_status ar, Some (ap_status ap)) (ar_status ar', Some (ap_status ap'))
         \<or> (ar_status ar, Some (ap_status ap)) = pending_life
           \<and> (ar_status ar', Some (ap_status ap')) = pending_life"
  shows "evolves st (move_pair ar' ap' st)"
proof -
  note mp = move_pair_ok [OF assms(1-7)]
  have "row_of (move_pair ar' ap' st) j = (if j = i then (Some ar', Some ap') else row_of st j)" for j
    by (simp add: row_of_def mp)
  moreover have "row_of st i = (Some ar, Some ap)" using assms by (simp add: row_of_def)
  ultimately show ?thesis using assms(8) mp(1) by (auto simp: evolves_def row_step_def row_life_def)
qed

text \<open>The same with the row of the approval put after other changes of the tables.\<close>

lemma put_pair_eq: "put_approval ap (put_action ar st) = move_pair ar ap st"
  by (simp add: move_pair_def)

section \<open>The requester's operations\<close>

lemma evolves_commit_or_fail:
  "engine_ok st \<Longrightarrow> evolves st st' \<Longrightarrow> evolves st (snd (commit_or_fail en m st st' r))"
  by (simp add: commit_or_fail_def)

lemma evolves_with_valid_snapshot:
  "engine_ok st \<Longrightarrow> evolves st (snd k) \<Longrightarrow> evolves st (snd (with_valid_snapshot ar st k))"
  by (auto simp: with_valid_snapshot_def split: sum.splits snapshot_error.splits)

lemma expire_action_request_evolves:
  assumes ok: "engine_ok st" and ar: "action_by_id st (ar_id ar) = Some ar"
    and st: "open_status (ar_status ar)"
  shows "evolves st (snd (expire_action_request en ar kind st))"
proof (cases "approval_of st (ar_id ar)")
  case None
  with engine_ok_row [OF ok ar] st have "ar_status ar = DraftPreview"
    by (auto simp: row_ok_def open_status_def)
  then have "evolves st (put_action (ar\<lparr>ar_status := Expired\<rparr>) st)"
    using ok ar None by (intro evolves_put_action) (auto simp: row_ok_def intro: life_lapse)
  with None ok show ?thesis
    by (simp add: expire_action_request_def Let_def evolves_commit_or_fail)
next
  case (Some ap)
  with engine_ok_row [OF ok ar] st have p: "ar_status ar = PendingApproval" "ap_status ap = ApPending"
    by (auto simp: row_ok_def open_status_def)
  then have "evolves st (move_pair (ar\<lparr>ar_status := Expired\<rparr>) (expired_approval (en_now en) ap) st)"
    using ok ar Some
    by (intro evolves_move_pair [where i = "ar_id ar"])
       (auto simp: row_ok_def expired_approval_def intro: life_expire)
  with Some ok show ?thesis
    by (simp add: expire_action_request_def Let_def evolves_commit_or_fail put_pair_eq)
qed

lemma add_approval_lookup:
  assumes "approval_of st i = None" and "ap_action_request_id ap = Some i"
  shows "approval_of (add_approval ap st) j = (if j = i then Some ap else approval_of st j)"
proof -
  have "find_by ap_action_request_id (Some k) [ap] = (if k = i then Some ap else None)" for k
    using assms(2) by (simp add: find_by_def)
  then show ?thesis
    using assms(1) by (simp add: approval_of_def add_approval_def find_by_append split: option.splits)
qed

lemma owned_action_SomeD:
  "owned_action st i u = Some ar \<Longrightarrow> action_by_id st i = Some ar \<and> ar_id ar = i \<and> ar_requested_by ar = u"
  by (auto simp: owned_action_def dest: action_by_id_SomeD split: option.splits if_splits)

lemma submitted_store_evolves:
  assumes ok: "engine_ok st" and ar: "action_by_id st (ar_id ar) = Some ar"
    and draft: "ar_status ar = DraftPreview" and fresh: "en_new_id en 0 \<notin> set (approval_ids st)"
  shows "evolves st (submitted_store en pr reason ar st)"
proof -
  let ?ar = "submitted_action en reason ar"
  let ?ap = "new_approval en pr reason ?ar"
  let ?st = "add_approval ?ap (put_action ?ar st)"
  from engine_ok_row [OF ok ar] draft have none: "approval_of st (ar_id ar) = None"
    by (simp add: row_ok_def)
  have id: "ar_id ?ar = ar_id ar" and link: "ap_action_request_id ?ap = Some (ar_id ar)"
    and new: "ap_id ?ap = en_new_id en 0"
    by (simp_all add: submitted_action_def new_approval_def)
  have look: "action_by_id ?st j = (if j = ar_id ar then Some ?ar else action_by_id st j)"
    "approval_of ?st j = (if j = ar_id ar then Some ?ap else approval_of st j)" for j
    using ar none link by (simp_all add: action_by_id_put id add_approval_lookup)
  have row: "row_ok ?ar (Some ?ap)"
    by (simp add: row_ok_def submitted_action_def new_approval_def)
  have links: "linked_ids ?st = linked_ids st @ [Some (ar_id ar)]"
    using link by (simp add: linked_ids_def)
  have notin: "Some (ar_id ar) \<notin> set (linked_ids st)"
    using none by (auto simp: linked_ids_def approval_of_def find_by_None)
  have ids: "action_ids ?st = action_ids st" "approval_ids ?st = approval_ids st @ [en_new_id en 0]"
    using new
    by (simp_all add: action_ids_def approval_ids_def put_action_def add_approval_def submitted_action_def)
  have "engine_ok ?st"
    unfolding engine_ok_def
  proof (intro conjI ballI)
    show "distinct (action_ids ?st)" "distinct (approval_ids ?st)" "distinct (linked_ids ?st)"
      using ok fresh notin by (simp_all add: ids links engine_ok_def)
    have "ar_id ar \<in> set (action_ids st)" using action_by_id_SomeD [OF ar] by (simp add: action_ids_def)
    then show "set (linked_ids ?st) \<subseteq> Some ` set (action_ids ?st)"
      using ok by (simp add: ids links engine_ok_def)
    fix x assume "x \<in> set (st_actions ?st)"
    then have "x = ?ar \<or> (x \<in> set (st_actions st) \<and> ar_id x \<noteq> ar_id ar)"
      by simp (drule set_put_action, simp add: id)
    then show "row_ok x (approval_of ?st (ar_id x))"
      using ok row by (auto simp: look(2) id engine_ok_def)
  qed
  moreover have "row_of ?st j = (if j = ar_id ar then (Some ?ar, Some ?ap) else row_of st j)" for j
    unfolding row_of_def look by simp
  moreover have "row_of st (ar_id ar) = (Some ar, None)" using ar none by (simp add: row_of_def)
  moreover have "row_life (Some ?ar, Some ?ap) = Some pending_life"
    by (simp add: row_life_def submitted_action_def new_approval_def)
  moreover have "row_life (Some ar, None) = Some (DraftPreview, None)"
    by (simp add: row_life_def draft)
  ultimately have "evolves st ?st"
    by (auto simp: evolves_def row_step_def intro: life_submit)
  then show ?thesis by (simp add: submitted_store_def Let_def)
qed

lemma submit_draft_evolves:
  assumes "engine_ok st" "action_by_id st (ar_id ar) = Some ar" "ar_status ar = DraftPreview"
    "en_new_id en 0 \<notin> set (approval_ids st)"
  shows "evolves st (snd (submit_draft en pr reason ar st))"
  using assms submitted_store_evolves [OF assms]
  by (auto simp: submit_draft_def Let_def split: commit_outcome.splits option.splits)

lemma submit_request_evolves:
  assumes ok: "engine_ok st" and fresh: "en_new_id en 0 \<notin> set (approval_ids st)"
  shows "evolves st (snd (submit_request en action_id reason st))"
proof (cases "owned_action st action_id (au_id (en_user en))")
  case None
  with ok show ?thesis by (simp add: submit_request_def)
next
  case (Some ar)
  from owned_action_SomeD [OF Some] have ar: "action_by_id st (ar_id ar) = Some ar" by simp
  show ?thesis
    using ok Some ar fresh
    by (auto simp: submit_request_def open_status_def evolves_with_valid_snapshot
        submit_draft_evolves expire_action_request_evolves split: sum.splits option.splits)
qed

lemma cancel_request_evolves:
  assumes ok: "engine_ok st"
  shows "evolves st (snd (cancel_request en action_id reason st))"
proof (cases "owned_action st action_id (au_id (en_user en))")
  case None
  with ok show ?thesis by (simp add: cancel_request_def)
next
  case (Some ar)
  from owned_action_SomeD [OF Some] have ar: "action_by_id st (ar_id ar) = Some ar" by simp
  have cancel: "evolves st (move_pair (ar\<lparr>ar_status := Cancelled\<rparr>)
      (ap\<lparr>ap_status := ApCancelled, ap_decision_reason := r, ap_decided_at := d\<rparr>) st)"
    if "approval_of st (ar_id ar) = Some ap" "ar_status ar = PendingApproval" "ap_status ap = ApPending"
    for ap r d
    using that ok ar
    by (intro evolves_move_pair [where i = "ar_id ar"]) (auto simp: row_ok_def intro: life_cancel)
  show ?thesis
    using ok Some ar cancel
    by (auto simp: cancel_request_def open_status_def Let_def put_pair_eq
        intro!: evolves_with_valid_snapshot evolves_commit_or_fail expire_action_request_evolves
        split: sum.splits option.splits)
qed

section \<open>The approver's operations\<close>

text \<open>Under the invariant both deadlines of a pending pair are one deadline.\<close>

lemma pending_deadlines:
  assumes "engine_ok st" "action_by_id st i = Some ar" "approval_of st i = Some ap"
    and "pair_pending ar ap"
  shows "ap_expires_at ap = ar_expires_at ar"
    and "pair_expired ar ap now \<longleftrightarrow> deadline_passed (ar_expires_at ar) now"
  using engine_ok_row [OF assms(1,2)] assms(3,4)
  by (auto simp: row_ok_def pair_pending_def pair_expired_def)

lemma put_action_approvals [simp]: "distinct (approval_ids (put_action ar st)) = distinct (approval_ids st)"
  by simp

lemma expire_one_pending:
  assumes ok: "engine_ok st" and look: "action_by_id st (ar_id ar) = Some ar"
    "approval_of st (ar_id ar) = Some ap" and pending: "pair_pending ar ap"
    and late: "pair_expired ar ap (en_now en)"
  shows "expire_one en ar ap st =
    (let ar' = ar\<lparr>ar_status := Expired\<rparr>;
         ap' = ap\<lparr>ap_status := ApExpired, ap_decided_at := Some (en_now en)\<rparr>
     in if en_commit en = Committed
        then (Inr True, add_audit (build_action_audit_log (au_id (en_user en)) ar' (Some ap') pair_expiry_event)
                          (move_pair ar' ap' st))
        else (Inl (internal_error ''The expired approval could not be updated safely.''), st))"
proof -
  from approval_of_SomeD [OF look(2)] have ap: "ap \<in> set (st_approvals st)"
    "ap_action_request_id ap = Some (ar_id ar)" by simp_all
  note dl = pending_deadlines [OF ok look pending]
  let ?f = "\<lambda>x. x\<lparr>ar_status := Expired\<rparr>"
  let ?g = "\<lambda>x. x\<lparr>ap_status := ApExpired, ap_decided_at := Some (en_now en)\<rparr>"
  have u: "update_actions (\<lambda>x. ar_id x = ar_id ar \<and> ar_status x = PendingApproval
        \<and> deadline_passed (ar_expires_at x) (en_now en)) ?f st = (1, put_action (?f ar) st)"
    using ok look(1) pending late dl
    by (subst update_actions_put [where ar = ar]) (simp_all add: pair_pending_def)
  have v: "update_approvals (\<lambda>x. ap_id x = ap_id ap \<and> ap_action_request_id x = Some (ar_id ar)
        \<and> ap_status x = ApPending \<and> deadline_passed (ap_expires_at x) (en_now en)) ?g (put_action (?f ar) st)
      = (1, put_approval (?g ap) (put_action (?f ar) st))"
    using ok ap pending late dl
    by (subst update_approvals_put [where ap = ap]) (simp_all add: pair_pending_def engine_ok_def)
  show ?thesis unfolding expire_one_def Let_def u prod.case v by (simp add: put_pair_eq)
qed

lemma expire_pair_evolves:
  assumes "engine_ok st" "action_by_id st (ar_id ar) = Some ar" "approval_of st (ar_id ar) = Some ap"
    and "pair_pending ar ap"
  shows "evolves st (move_pair (ar\<lparr>ar_status := Expired\<rparr>)
           (ap\<lparr>ap_status := ApExpired, ap_decided_at := d\<rparr>) st)"
  using assms
  by (intro evolves_move_pair [where i = "ar_id ar"])
     (auto simp: row_ok_def pair_pending_def intro: life_expire)

lemma expire_one_evolves:
  assumes "engine_ok st" "action_by_id st (ar_id ar) = Some ar" "approval_of st (ar_id ar) = Some ap"
    "pair_pending ar ap" "pair_expired ar ap (en_now en)"
  shows "evolves st (snd (expire_one en ar ap st))"
  using expire_pair_evolves [OF assms(1-4)] assms(1)
  by (simp add: expire_one_pending [OF assms] Let_def)

lemma with_pending_pair_evolves:
  assumes ok: "engine_ok st"
    and k: "\<And>pr ar ap. locked_pair st i = Some (ar, ap) \<Longrightarrow> action_presentation (ar_action_type ar) = Inr pr \<Longrightarrow>
              pd_allowed (approval_decision ar (env_context en st)) \<Longrightarrow> pair_pending ar ap \<Longrightarrow>
              \<not> pair_expired ar ap (en_now en) \<Longrightarrow> evolves st (snd (k pr ar ap))"
  shows "evolves st (snd (with_pending_pair en i st k))"
proof (cases "locked_pair st i")
  case None
  with ok show ?thesis by (simp add: with_pending_pair_def)
next
  case (Some p)
  obtain ar ap where p: "p = (ar, ap)" by (cases p)
  note look = locked_pair_SomeD [OF ok Some [unfolded p]]
  have "evolves st (snd (refuse_expired en ar ap st :: 'a service \<times> action_store))"
    if "pair_pending ar ap" "pair_expired ar ap (en_now en)"
    using expire_one_evolves [OF ok look(2,3) that]
    by (auto simp: refuse_expired_def split: prod.splits sum.splits)
  with ok Some p k show ?thesis
    by (auto simp: with_pending_pair_def require_pending_def split: sum.splits)
qed

lemma reject_evolves:
  assumes ok: "engine_ok st"
  shows "evolves st (snd (reject en i reason st))"
  unfolding reject_def
proof (rule with_pending_pair_evolves [OF ok])
  fix pr ar ap
  assume lp: "locked_pair st i = Some (ar, ap)" and pending: "pair_pending ar ap"
    and early: "\<not> pair_expired ar ap (en_now en)"
  note look = locked_pair_SomeD [OF ok lp]
  let ?ar = "ar\<lparr>ar_status := Rejected\<rparr>" and ?ap = "decide_approval en ApRejected reason ap"
  have u: "update_actions (\<lambda>x. ar_id x = ar_id ar \<and> ar_status x = PendingApproval
        \<and> \<not> deadline_passed (ar_expires_at x) (en_now en)) (\<lambda>x. x\<lparr>ar_status := Rejected\<rparr>) st
      = (1, put_action ?ar st)"
    using ok look(2) pending early
    by (subst update_actions_put [where ar = ar]) (simp_all add: pair_pending_def pair_expired_def)
  have v: "update_approvals (\<lambda>x. ap_id x = ap_id ap \<and> ap_status x = ApPending
        \<and> \<not> deadline_passed (ap_expires_at x) (en_now en)) (decide_approval en ApRejected reason)
        (put_action ?ar st) = (1, put_approval ?ap (put_action ?ar st))"
    using ok look(6) pending early
    by (subst update_approvals_put [where ap = ap])
       (simp_all add: pair_pending_def pair_expired_def engine_ok_def decide_approval_def)
  have "evolves st (move_pair ?ar ?ap st)"
    using ok look pending
    by (intro evolves_move_pair [where i = "ar_id ar"])
       (auto simp: row_ok_def pair_pending_def decide_approval_def intro: life_reject)
  with ok show "evolves st (snd (reject_pending en pr reason ar ap st))"
    unfolding reject_pending_def Let_def u prod.case v
    by (simp add: evolves_commit_or_fail put_pair_eq)
qed

text \<open>The sweep: pairs taken from the store that are still pending in it.\<close>

lemma evolves_trans_pending:
  assumes "evolves st st'" "evolves st' st''"
    and "\<And>i a. row_life (row_of st i) = Some (DraftPreview, a) \<Longrightarrow> row_of st' i = row_of st i"
  shows "evolves st st''"
  unfolding evolves_def
proof (intro conjI allI)
  show "engine_ok st''" using assms by (simp add: evolves_def)
  fix i
  show "row_step (row_of st i) (row_of st'' i)"
  proof (cases "\<exists>a. row_life (row_of st i) = Some (DraftPreview, a)")
    case True
    with assms show ?thesis by (auto simp: evolves_def) metis
  next
    case False
    with assms(1,2) show ?thesis by (auto simp: evolves_def intro: row_step_trans)
  qed
qed

definition untouched_drafts :: "action_store \<Rightarrow> action_store \<Rightarrow> bool" where
  "untouched_drafts st st' \<longleftrightarrow>
     (\<forall>i a. row_life (row_of st i) = Some (DraftPreview, a) \<longrightarrow> row_of st' i = row_of st i)"

text \<open>A pair read before the sweep is, in the store of the sweep, untouched or already expired.\<close>

definition pair_current :: "action_store \<Rightarrow> action_request \<times> approval_request \<Rightarrow> bool" where
  "pair_current st = (\<lambda>(ar, ap). row_of st (ar_id ar) = (Some ar, Some ap) \<and> pair_pending ar ap)"

lemma sweep_one_evolves:
  assumes ok: "engine_ok st" and cur: "pair_current st (ar, ap)"
  shows "evolves st (snd (sweep_one en ctx (b, st) (ar, ap)))"
    and "untouched_drafts st (snd (sweep_one en ctx (b, st) (ar, ap)))"
    and "i \<noteq> ar_id ar \<Longrightarrow> row_of (snd (sweep_one en ctx (b, st) (ar, ap))) i = row_of st i"
proof -
  from cur have look: "action_by_id st (ar_id ar) = Some ar" "approval_of st (ar_id ar) = Some ap"
    and pending: "pair_pending ar ap" by (auto simp: pair_current_def row_of_def)
  let ?ar = "ar\<lparr>ar_status := Expired\<rparr>"
  let ?ap = "ap\<lparr>ap_status := ApExpired, ap_decided_at := Some (en_now en)\<rparr>"
  have u: "update_actions (\<lambda>x. ar_id x = ar_id ar \<and> ar_status x = PendingApproval)
        (\<lambda>x. x\<lparr>ar_status := Expired\<rparr>) st = (1, put_action ?ar st)"
    using ok look(1) pending by (subst update_actions_put [where ar = ar]) (simp_all add: pair_pending_def)
  have res: "sweep_one en ctx (b, st) (ar, ap) =
      (if \<not> pd_allowed (approval_decision ar ctx) then (b, st)
       else (True, add_audit (build_action_audit_log (au_id (en_user en)) ?ar (Some ?ap) pair_expiry_event)
                     (move_pair ?ar ?ap st)))"
    unfolding sweep_one_def prod.case Let_def u by (simp add: put_pair_eq)
  note ev = expire_pair_evolves [OF ok look pending, of "Some (en_now en)"]
  have row: "row_ok ?ar (Some ?ap)" by (simp add: row_ok_def)
  have rows: "row_of (move_pair ?ar ?ap st) j = (if j = ar_id ar then (Some ?ar, Some ?ap) else row_of st j)" for j
    using move_pair_ok(2,3) [OF ok look _ _ _ row] by (simp add: row_of_def)
  show "evolves st (snd (sweep_one en ctx (b, st) (ar, ap)))" using ev ok by (simp add: res)
  show "untouched_drafts st (snd (sweep_one en ctx (b, st) (ar, ap)))"
    using cur by (auto simp: res rows untouched_drafts_def pair_current_def pair_pending_def row_life_def)
  show "i \<noteq> ar_id ar \<Longrightarrow> row_of (snd (sweep_one en ctx (b, st) (ar, ap))) i = row_of st i"
    by (simp add: res rows)
qed

lemma sweep_evolves:
  assumes "engine_ok st" "\<forall>p \<in> set ps. pair_current st p" "distinct (map (\<lambda>(ar, ap). ar_id ar) ps)"
  shows "evolves st (snd (foldl (sweep_one en ctx) (b, st) ps))
         \<and> untouched_drafts st (snd (foldl (sweep_one en ctx) (b, st) ps))"
  using assms
proof (induction ps arbitrary: b st)
  case (Cons p ps)
  obtain ar ap where p: "p = (ar, ap)" by (cases p)
  obtain b' st' where s: "sweep_one en ctx (b, st) p = (b', st')" by fastforce
  note one = sweep_one_evolves [OF Cons.prems(1), where ar = ar and ap = ap and en = en and ctx = ctx and b = b]
  have cur: "pair_current st (ar, ap)" using Cons.prems p by simp
  have ev: "evolves st st'" "untouched_drafts st st'" using one(1,2) [OF cur] s p by auto
  have "pair_current st' q" if "q \<in> set ps" for q
  proof -
    have "fst q \<in> fst ` set ps" "pair_current st q" using that Cons.prems by auto
    moreover have "ar_id (fst q) \<in> (\<lambda>a. ar_id (fst a)) ` set ps" using that by (rule imageI)
    moreover have "ar_id ar \<notin> (\<lambda>a. ar_id (fst a)) ` set ps"
      using Cons.prems(3) p by (simp add: case_prod_unfold)
    ultimately have "ar_id (fst q) \<noteq> ar_id ar" "pair_current st q" by metis+
    then show ?thesis using one(3) [OF cur, where i = "ar_id (fst q)"] s p
      by (auto simp: pair_current_def split: prod.splits)
  qed
  then have "evolves st' (snd (foldl (sweep_one en ctx) (b', st') ps))"
    "untouched_drafts st' (snd (foldl (sweep_one en ctx) (b', st') ps))"
    using Cons.IH [of st' b'] Cons.prems ev by (auto simp: evolves_def)
  with ev s show ?case
    by (auto simp: untouched_drafts_def intro!: evolves_trans_pending [of st st'])
qed (simp add: untouched_drafts_def)

lemma linked_unique:
  assumes "engine_ok st" and "ap_action_request_id a = Some i" "ap_action_request_id b = Some i"
    "a \<in> set (st_approvals st)" "b \<in> set (st_approvals st)"
  shows "a = b"
  using assms distinct_linked [of ap_action_request_id "st_approvals st" a b]
  by (simp add: engine_ok_def linked_ids_def)

lemma distinct_length_le_one:
  assumes "distinct xs" and "\<And>x y. x \<in> set xs \<Longrightarrow> y \<in> set xs \<Longrightarrow> x = y"
  shows "length xs \<le> 1"
proof -
  have "card (set xs) \<le> 1" using assms(2) by (simp add: card_le_Suc0_iff_eq)
  with distinct_card [OF assms(1)] show ?thesis by simp
qed

lemma distinct_concat_keys:
  assumes "distinct (map key xs)" and "\<And>x. x \<in> set xs \<Longrightarrow> length (f x) \<le> 1"
    and "\<And>x y. x \<in> set xs \<Longrightarrow> y \<in> set (f x) \<Longrightarrow> key' y = key x"
  shows "distinct (map key' (concat (map f xs)))"
  using assms
proof (induction xs)
  case (Cons x xs)
  have "length (f x) \<le> 1" using Cons.prems by simp
  then have "f x = [] \<or> (\<exists>y. f x = [y])" by (cases "f x") auto
  then show ?case
  proof
    assume "f x = []"
    with Cons show ?thesis by simp
  next
    assume "\<exists>y. f x = [y]"
    then obtain y where y: "f x = [y]" by blast
    have "key' z \<noteq> key x" if "x' \<in> set xs" "z \<in> set (f x')" for x' z
      using Cons.prems(1,3) that by (metis distinct.simps(2) imageI list.set_intros(2) list.set_map list.simps(9))
    moreover have "key' y = key x" using Cons.prems(3) y by simp
    moreover have "distinct (map key' (concat (map f xs)))"
      using Cons.prems by (intro Cons.IH) auto
    ultimately show ?thesis using y by (simp only: list.map concat.simps map_append) force
  qed
qed simp

lemma comprehension_pairs:
  "concat (map (\<lambda>y. if P y then [(x, y)] else []) ys) = map (Pair x) (filter P ys)"
  by (induction ys) auto

lemma expired_pairs_ok:
  assumes ok: "engine_ok st"
  shows "\<forall>p \<in> set (expired_pairs now st). pair_current st p"
    and "distinct (map (\<lambda>(ar, ap). ar_id ar) (expired_pairs now st))"
proof -
  show "\<forall>p \<in> set (expired_pairs now st). pair_current st p"
    using ok engine_ok_approval_of [OF ok]
    by (auto simp: expired_pairs_def pair_current_def row_of_def engine_ok_lookup)
  let ?f = "\<lambda>ar. map (Pair ar) (filter (\<lambda>ap. ap_action_request_id ap = Some (ar_id ar)
       \<and> pair_pending ar ap \<and> pair_expired ar ap now) (st_approvals st))"
  have eq: "expired_pairs now st = concat (map ?f (st_actions st))"
    unfolding expired_pairs_def by (simp add: comprehension_pairs)
  have "distinct (st_approvals st)"
    using ok by (auto simp: engine_ok_def approval_ids_def distinct_map)
  then have "length (?f ar) \<le> 1" for ar
    using linked_unique [OF ok, where i = "ar_id ar"]
    by (subst length_map, intro distinct_length_le_one) (auto simp: distinct_filter)
  then show "distinct (map (\<lambda>(ar, ap). ar_id ar) (expired_pairs now st))"
    unfolding eq using ok
    by (intro distinct_concat_keys [where key = ar_id]) (auto simp: engine_ok_def action_ids_def)
qed

end
