(* ===== verification/Preview_Records.thy ===== *)
theory Preview_Records
  imports Action_Lifecycle Query_Rows
begin

text \<open>
  What the two action handlers share when they build a preview: the validated request
  (\<open>schemas/actions.py\<close>), the target (\<open>action_engine/base.py\<close>), the read boundary of the query role
  (\<open>query_engine/runtime_role.py\<close>), the authorization of the required tables, policy flags, access
  snapshots, and their JSON documents (\<open>preview.py\<close>).

  The tables a preview reads besides the action store are the argument \<open>preview_sources\<close>. The rows of
  a table stand in the order the database returns them.
\<close>

section \<open>The request\<close>

record preview_request =
  pq_action_type :: supported_action_type
  pq_source_query_run_id :: "uuid option"
  pq_scope_id :: uuid
  pq_department_id :: "uuid option"
  pq_target_user_ids :: "uuid list option"
  pq_license_assignment_ids :: "uuid list option"
  pq_reason :: string

definition MAX_ACTION_REASON_LENGTH :: nat where "MAX_ACTION_REASON_LENGTH = 1000"
definition MAX_EXPLICIT_TARGET_IDS :: nat where "MAX_EXPLICIT_TARGET_IDS = 100"

definition ids_or_empty :: "uuid list option \<Rightarrow> uuid list" where
  "ids_or_empty ids = (case ids of None \<Rightarrow> [] | Some xs \<Rightarrow> xs)"

text \<open>\<open>max_length\<close> is tested on the list as sent, then the ids are deduplicated in order.\<close>

definition deduplicate_ids :: "uuid list option \<Rightarrow> uuid list option option" where
  "deduplicate_ids ids =
     (case ids of
        None \<Rightarrow> Some None
      | Some xs \<Rightarrow> if length xs > MAX_EXPLICIT_TARGET_IDS then None else Some (Some (dedup xs)))"

definition normalize_reason :: "string \<Rightarrow> string option" where
  "normalize_reason reason =
     (if reason = [] \<or> length reason > MAX_ACTION_REASON_LENGTH \<or> py_strip reason = [] then None
      else Some (py_strip reason))"

definition selectors_ok :: "preview_request \<Rightarrow> bool" where
  "selectors_ok q \<longleftrightarrow>
     length (ids_or_empty (pq_target_user_ids q)) + length (ids_or_empty (pq_license_assignment_ids q))
       \<le> MAX_EXPLICIT_TARGET_IDS
     \<and> (pq_action_type q = DisableInactiveUser \<longrightarrow>
          ids_or_empty (pq_target_user_ids q) \<noteq> [] \<and> ids_or_empty (pq_license_assignment_ids q) = [])"

definition validate_preview_request :: "preview_request \<Rightarrow> preview_request option" where
  "validate_preview_request q =
     (case (deduplicate_ids (pq_target_user_ids q), deduplicate_ids (pq_license_assignment_ids q),
            normalize_reason (pq_reason q)) of
        (Some users, Some assignments, Some reason) \<Rightarrow>
          (let q' = q\<lparr>pq_target_user_ids := users, pq_license_assignment_ids := assignments,
                      pq_reason := reason\<rparr>
           in if selectors_ok q' then Some q' else None)
      | _ \<Rightarrow> None)"

section \<open>The target\<close>

record target_reference =
  tr_record_type :: string
  tr_record_id :: uuid

record target_input =
  ti_action_type :: supported_action_type
  ti_scope_type :: string
  ti_scope_key :: string
  ti_targets :: "target_reference list"
  ti_reason :: string
  ti_source_query_run_id :: "uuid option"
  ti_scope_id :: "uuid option"
  ti_department_id :: "uuid option"

definition target_input_of :: "preview_request \<Rightarrow> access_scope_row \<Rightarrow> target_input" where
  "target_input_of q scope =
     \<lparr>ti_action_type = pq_action_type q, ti_scope_type = as_scope_type scope,
      ti_scope_key = as_scope_key scope,
      ti_targets =
        map (\<lambda>i. \<lparr>tr_record_type = ''directory_user'', tr_record_id = i\<rparr>)
          (ids_or_empty (pq_target_user_ids q))
        @ map (\<lambda>i. \<lparr>tr_record_type = ''license_assignment'', tr_record_id = i\<rparr>)
            (ids_or_empty (pq_license_assignment_ids q)),
      ti_reason = pq_reason q, ti_source_query_run_id = pq_source_query_run_id q,
      ti_scope_id = Some (as_id scope), ti_department_id = as_department_id scope\<rparr>"

definition target_is_cross_scope :: "target_input \<Rightarrow> uuid \<Rightarrow> bool" where
  "target_is_cross_scope t d \<longleftrightarrow>
     ti_scope_type t \<noteq> ''department'' \<or> ti_department_id t = None \<or> Some d \<noteq> ti_department_id t"

text \<open>
  How building a preview fails: an authorization error, too many records, another preview error of
  the handler, or a Python exception it does not convert.
\<close>

datatype preview_failure = PreviewForbidden | PreviewTooLarge | PreviewFailed | PreviewRaised py_exn

section \<open>Sources and the read boundary\<close>

record preview_sources =
  psr_resources :: "data_resource list"
  psr_query_runs :: "query_run list"
  psr_dialect :: string

definition QUERY_RUNTIME_ROLE :: string where
  "QUERY_RUNTIME_ROLE = ''queryops_query_runtime''"

definition set_query_runtime_role :: "db_session \<Rightarrow> db_session" where
  "set_query_runtime_role ss = ss\<lparr>ss_role := QUERY_RUNTIME_ROLE\<rparr>"

definition secure_read_boundary :: "db_session \<Rightarrow> bool" where
  "secure_read_boundary ss \<longleftrightarrow>
     ss_role ss = QUERY_RUNTIME_ROLE \<and> ss_read_only ss \<and> ss_row_security ss"

text \<open>
  A new connection in a read-only transaction, under the query role and the requester's settings.
  Under that role only the department policies of migration 0005 admit rows.
\<close>

definition open_read_boundary ::
  "db_session \<Rightarrow> user_access_context \<Rightarrow> preview_failure + db_session" where
  "open_read_boundary ss requester =
     (case set_rls_context (\<lambda>_. None) (build_rls_context requester) of
        Inl _ \<Rightarrow> Inl (PreviewRaised ValueError)
      | Inr settings \<Rightarrow>
          (let ss' = set_query_runtime_role (ss\<lparr>ss_read_only := True, ss_settings := settings\<rparr>)
           in if secure_read_boundary ss' then Inr ss' else Inl PreviewFailed))"

definition query_admits :: "db_session \<Rightarrow> uuid option \<Rightarrow> bool" where
  "query_admits ss department = rls_policy_admits (ss_settings ss) department"

record 'row candidate_read =
  cr_records :: "'row list"
  cr_runtime_role :: string
  cr_transaction_read_only :: bool
  cr_row_security_enabled :: bool

definition candidate_read_of :: "db_session \<Rightarrow> 'row list \<Rightarrow> preview_failure + 'row candidate_read" where
  "candidate_read_of ss rows =
     (if length rows > MAX_PREVIEW_RECORDS then Inl PreviewTooLarge
      else Inr \<lparr>cr_records = rows, cr_runtime_role = ss_role ss,
                cr_transaction_read_only = ss_read_only ss, cr_row_security_enabled = ss_row_security ss\<rparr>)"

section \<open>Required tables\<close>

record resource_grant =
  rg_table_name :: string
  rg_allowed :: bool
  rg_required_permission :: "string option"
  rg_matched_scopes :: "string list"

text \<open>A dictionary built from rows keeps the last row of a key.\<close>

definition last_by :: "('r \<Rightarrow> 'k) \<Rightarrow> 'k \<Rightarrow> 'r list \<Rightarrow> 'r option" where
  "last_by key k rows = find_by key k (rev rows)"

definition table_resource :: "data_resource list \<Rightarrow> string \<Rightarrow> data_resource option" where
  "table_resource rows table =
     last_by dr_table_name table (filter (\<lambda>r. dr_resource_type r = ''table'') rows)"

definition authorize_resource ::
  "user_access_context \<Rightarrow> target_input \<Rightarrow> data_resource \<Rightarrow> preview_failure + resource_grant" where
  "authorize_resource requester target r =
     (let decision = authorize_resource_access requester ''action:request'' (resource_to_dict r)
            \<lparr>rc_scope_type = Some (ti_scope_type target), rc_scope_key = Some (ti_scope_key target)\<rparr>
      in if \<not> ad_allowed decision \<or> \<not> dr_is_queryable r then Inl PreviewForbidden
         else Inr \<lparr>rg_table_name = dr_table_name r, rg_allowed = ad_allowed decision \<and> dr_is_queryable r,
                   rg_required_permission = ad_required_permission decision,
                   rg_matched_scopes = ad_matched_scopes decision\<rparr>)"

definition authorize_tables ::
  "string list \<Rightarrow> data_resource list \<Rightarrow> user_access_context \<Rightarrow> target_input
     \<Rightarrow> preview_failure + (data_resource list \<times> resource_grant list)" where
  "authorize_tables tables rows requester target =
     (let resources = map (table_resource rows) tables
      in if None \<in> set resources then Inl PreviewForbidden
         else result_bind (traverse (authorize_resource requester target) (map the resources))
                (\<lambda>grants. Inr (map the resources, grants)))"

text \<open>\<open>_department_scopes_for_rows\<close>, asked for one department of the rows.\<close>

definition department_scope_of :: "access_scope_row list \<Rightarrow> uuid \<Rightarrow> access_scope_row option" where
  "department_scope_of scopes d =
     last_by as_department_id (Some d) (filter (\<lambda>s. as_scope_type s = ''department'') scopes)"

section \<open>Flags, snapshots and the common part of a preview\<close>

record policy_flag =
  pfl_code :: string
  pfl_reason :: string
  pfl_requires_admin :: bool
  pfl_admin_overridable :: bool

definition SCOPED_APPROVAL_LIMIT :: nat where "SCOPED_APPROVAL_LIMIT = 20"

definition preview_flag_codes :: "string list \<Rightarrow> nat \<Rightarrow> bool \<Rightarrow> string list" where
  "preview_flag_codes codes actionable global_scope =
     sorted_set (codes
       @ (if actionable > SCOPED_APPROVAL_LIMIT then [''record_count_over_analyst_threshold''] else [])
       @ (if global_scope then [''global_scope_request''] else []))"

definition preview_flags :: "(string \<Rightarrow> string) \<Rightarrow> string list \<Rightarrow> nat \<Rightarrow> bool \<Rightarrow> policy_flag list" where
  "preview_flags reason codes actionable global_scope =
     map (\<lambda>c. \<lparr>pfl_code = c, pfl_reason = reason c, pfl_requires_admin = True, pfl_admin_overridable = True\<rparr>)
       (preview_flag_codes codes actionable global_scope)"

record preview_access_context =
  pac_app_user_id :: uuid
  pac_permissions :: "string list"
  pac_assigned_scopes :: "string list"
  pac_has_global_scope :: bool
  pac_assigned_scope_ids :: "uuid list"

definition preview_access_context_of :: "user_access_context \<Rightarrow> preview_access_context" where
  "preview_access_context_of requester =
     \<lparr>pac_app_user_id = uc_user_id requester,
      pac_permissions =
        (if has_permission requester ''can_request_action'' then [''can_request_action''] else []),
      pac_assigned_scopes = sort (map (\<lambda>s. scope_label (sc_type s) (sc_key s)) (uc_scopes requester)),
      pac_has_global_scope = uc_has_global_scope requester,
      pac_assigned_scope_ids = sort (map sc_id (uc_scopes requester))\<rparr>"

record preview_access_decision =
  pad_allowed :: bool
  pad_reason :: string
  pad_required_permission :: "string option"
  pad_matched_scopes :: "string list"
  pad_resource_decisions :: "resource_grant list"
  pad_runtime_role :: string
  pad_transaction_read_only :: bool
  pad_row_security_enabled :: bool

definition preview_access_decision_of ::
  "action_policy_decision \<Rightarrow> resource_grant list \<Rightarrow> 'row candidate_read \<Rightarrow> preview_access_decision" where
  "preview_access_decision_of decision grants read =
     \<lparr>pad_allowed = True, pad_reason = ''all_required_resources_authorized'',
      pad_required_permission = Some ''can_request_action'',
      pad_matched_scopes = sorted_set (pd_matched_scopes decision), pad_resource_decisions = grants,
      pad_runtime_role = cr_runtime_role read,
      pad_transaction_read_only = cr_transaction_read_only read,
      pad_row_security_enabled = cr_row_security_enabled read\<rparr>"

record resource_descriptor =
  rsd_table_name :: string
  rsd_display_name :: string
  rsd_sensitivity_level :: string

definition resource_descriptor_of :: "data_resource \<Rightarrow> resource_descriptor" where
  "resource_descriptor_of r =
     \<lparr>rsd_table_name = dr_table_name r, rsd_display_name = dr_display_name r,
      rsd_sensitivity_level = dr_sensitivity_level r\<rparr>"

text \<open>
  \<open>ActionPreview\<close> with the fields both subclasses add; the target input and the estimated impact,
  which no code reads from a preview, are left out.
\<close>

record action_preview =
  pv_generated_at :: instant
  pv_expires_at :: instant
  pv_policy_flags :: "policy_flag list"
  pv_access_context :: preview_access_context
  pv_access_decision :: preview_access_decision
  pv_requester_scope_ids :: "uuid list"
  pv_target_scope_ids :: "uuid list"
  pv_resources :: "resource_descriptor list"
  pv_exclusions_by_reason :: "(string \<times> nat) list"
  pv_requires_admin :: bool
  pv_crosses_scopes :: bool
  pv_requires_policy_override :: bool

text \<open>\<open>sorted(Counter(codes).items())\<close>.\<close>

definition count_codes :: "string list \<Rightarrow> (string \<times> nat) list" where
  "count_codes codes = map (\<lambda>c. (c, count_list codes c)) (sorted_set codes)"

section \<open>The shared documents\<close>

definition jstrs :: "string list \<Rightarrow> json" where
  "jstrs ss = JList (map JStr ss)"

definition access_context_json :: "preview_access_context \<Rightarrow> json" where
  "access_context_json c = JDict
     [(''app_user_id'', JStr (pac_app_user_id c)),
      (''effective_action_permissions'', jstrs (pac_permissions c)),
      (''assigned_scopes'', jstrs (pac_assigned_scopes c)),
      (''assigned_scope_ids'', jstrs (pac_assigned_scope_ids c)),
      (''has_global_scope'', JBool (pac_has_global_scope c))]"

definition resource_grant_json :: "resource_grant \<Rightarrow> json" where
  "resource_grant_json g = JDict
     [(''table_name'', JStr (rg_table_name g)), (''allowed'', JBool (rg_allowed g)),
      (''required_permission'', jopt (rg_required_permission g)),
      (''matched_scopes'', jstrs (rg_matched_scopes g))]"

definition access_decision_json :: "preview_access_decision \<Rightarrow> json" where
  "access_decision_json d = JDict
     [(''allowed'', JBool (pad_allowed d)), (''reason_code'', JStr (pad_reason d)),
      (''required_permission'', jopt (pad_required_permission d)),
      (''matched_scopes'', jstrs (pad_matched_scopes d)),
      (''resource_decisions'', JList (map resource_grant_json (pad_resource_decisions d))),
      (''read_boundary'', JDict
         [(''runtime_role'', JStr (pad_runtime_role d)),
          (''transaction_read_only'', JBool (pad_transaction_read_only d)),
          (''row_security_enabled'', JBool (pad_row_security_enabled d))])]"

definition policy_flag_json :: "policy_flag \<Rightarrow> json" where
  "policy_flag_json f = JDict
     [(''code'', JStr (pfl_code f)), (''reason'', JStr (pfl_reason f)),
      (''requires_admin'', JBool (pfl_requires_admin f)),
      (''admin_overridable'', JBool (pfl_admin_overridable f))]"

definition policy_flags_json :: "'a action_preview_scheme \<Rightarrow> json" where
  "policy_flags_json p = JDict
     [(''flags'', JList (map policy_flag_json (pv_policy_flags p))),
      (''requires_admin'', JBool (pv_requires_admin p)),
      (''crosses_scopes'', JBool (pv_crosses_scopes p)),
      (''requires_policy_override'', JBool (pv_requires_policy_override p))]"

definition resource_descriptor_json :: "resource_descriptor \<Rightarrow> json" where
  "resource_descriptor_json r = JDict
     [(''table_name'', JStr (rsd_table_name r)), (''display_name'', JStr (rsd_display_name r)),
      (''sensitivity_level'', JStr (rsd_sensitivity_level r))]"

definition exclusion_json :: "string \<times> nat \<Rightarrow> json" where
  "exclusion_json = (\<lambda>(code, n). JDict [(''reason_code'', JStr code), (''count'', JInt (int n))])"

definition skipped_records_json :: "json list \<Rightarrow> (string \<times> nat) list \<Rightarrow> json" where
  "skipped_records_json records exclusions = JDict
     [(''records'', JList records), (''exclusions_by_reason'', JList (map exclusion_json exclusions))]"

definition scope_json :: "uuid option \<Rightarrow> string \<Rightarrow> string \<Rightarrow> json" where
  "scope_json i ty key = JDict [(''id'', jopt i), (''type'', JStr ty), (''key'', JStr key)]"

definition instant_json :: "instant option \<Rightarrow> json" where
  "instant_json t = jopt (map_option timestamp t)"

record preview_storage =
  pst_preview_json :: json
  pst_policy_flags_json :: json
  pst_skipped_records_json :: json
  pst_access_context_json :: json
  pst_access_decision_json :: json
  pst_record_count :: int
  pst_skipped_count :: int

section \<open>Classification\<close>

text \<open>The loop over the candidates appends each to one of three lists, which are then sorted by id.\<close>

datatype ('e, 's, 'o) classified = ClEligible 'e | ClSkipped 's | ClOverride 'o

definition eligible_part :: "('e, 's, 'o) classified list \<Rightarrow> 'e list" where
  "eligible_part cs = concat (map (\<lambda>c. case c of ClEligible e \<Rightarrow> [e] | _ \<Rightarrow> []) cs)"

definition skipped_part :: "('e, 's, 'o) classified list \<Rightarrow> 's list" where
  "skipped_part cs = concat (map (\<lambda>c. case c of ClSkipped s \<Rightarrow> [s] | _ \<Rightarrow> []) cs)"

definition override_part :: "('e, 's, 'o) classified list \<Rightarrow> 'o list" where
  "override_part cs = concat (map (\<lambda>c. case c of ClOverride r \<Rightarrow> [r] | _ \<Rightarrow> []) cs)"

section \<open>Money\<close>

text \<open>
  \<open>Decimal(x).quantize(Decimal("0.01"), ROUND_HALF_UP)\<close> of a column value, in cents, and the same for
  a coefficient and an exponent, where more than 28 digits raise \<open>InvalidOperation\<close>.
\<close>

definition quantize_cents :: "rat \<Rightarrow> int" where
  "quantize_cents x = (if 0 \<le> x then \<lfloor>100 * x + 1 / 2\<rfloor> else - \<lfloor>100 * (- x) + 1 / 2\<rfloor>)"

definition quantize_money :: "nat \<times> int \<Rightarrow> py_exn + nat" where
  "quantize_money = (\<lambda>(c, e).
     let q = (if - 2 \<le> e then c * 10 ^ nat (e + 2)
              else (2 * c + 10 ^ nat (- 2 - e)) div (2 * 10 ^ nat (- 2 - e)))
     in if ndigits q \<le> 28 then Inr q else Inl ArithmeticError)"

text \<open>\<open>_money(sum(costs, Decimal("0")))\<close>.\<close>

definition sum_costs :: "nat list \<Rightarrow> py_exn + nat" where
  "sum_costs cents = quantize_money (foldl (\<lambda>acc c. dec_add acc (c, -2)) (0, 0) cents)"

text \<open>\<open>format(value, ".2f")\<close> of an amount in cents.\<close>

definition digit_char :: "nat \<Rightarrow> char" where
  "digit_char d = ''0123456789'' ! d"

fun nat_text :: "nat \<Rightarrow> string" where
  "nat_text n = (if n < 10 then [digit_char n] else nat_text (n div 10) @ [digit_char (n mod 10)])"

declare nat_text.simps [simp del]

definition money_string :: "nat \<Rightarrow> string" where
  "money_string cents =
     nat_text (cents div 100) @ ''.'' @ [digit_char (cents div 10 mod 10), digit_char (cents mod 10)]"

end
