(* ===== verification/Reclaim_Preview.thy ===== *)
theory Reclaim_Preview
  imports Preview_Records "HOL-Library.Product_Lexorder"
begin

text \<open>
  Building the preview of a reclaim request (\<open>domains/it_operations/actions/reclaim_unused_license.py\<close>):
  the candidate rows read under the query role, their classification, the counts and sums, and the
  documents that are stored (\<open>build_reclaim_preview_storage\<close> in \<open>preview.py\<close>).
\<close>

section \<open>Candidates\<close>

record reclaim_candidate =
  ca_assignment :: license_assignment
  ca_user :: "directory_user option"
  ca_license :: "license_row option"
  ca_cost :: "int option"

definition RECLAIM_RESOURCE_TABLES :: "string list" where
  "RECLAIM_RESOURCE_TABLES = [''directory_users'', ''license_assignments'', ''licenses'']"

definition NORMAL_ELIGIBILITY_DAYS :: int where "NORMAL_ELIGIBILITY_DAYS = 60"
definition HIGH_CONFIDENCE_DAYS :: int where "HIGH_CONFIDENCE_DAYS = 90"

definition reclaim_safe_reason :: "string \<Rightarrow> string" where
  "reclaim_safe_reason c =
     (if c = ''no_recorded_usage'' then ''No license usage is recorded.''
      else if c = ''unused_over_60_days'' then ''The license has not been used for more than 60 days.''
      else if c = ''assignment_already_reclaimed'' then ''The assignment is already reclaimed.''
      else if c = ''assignment_suspended'' then ''The assignment is suspended.''
      else if c = ''recent_usage'' then ''The license was used within the last 60 days.''
      else if c = ''record_structurally_invalid''
      then ''The assignment is not structurally valid for this action.''
      else if c = ''record_not_found_or_not_authorized'' then ''The selected record is unavailable.''
      else if c = ''mandatory_assignment'' then ''The assignment is mandatory and requires Admin review.''
      else if c = ''exception_assignment''
      then ''The assignment is an exception and requires Admin review.''
      else if c = ''service_account_assignment''
      then ''The assignment belongs to a service account and requires Admin review.''
      else if c = ''cross_scope_target''
      then ''The assignment is outside the requested scope and requires Admin review.''
      else if c = ''record_count_over_analyst_threshold''
      then ''The request contains more than 20 actionable records.''
      else ''The request targets global scope and requires global approval.'')"

text \<open>The condition of \<open>_candidate_statement\<close>; \<open>None\<close> is its authorization error.\<close>

definition selected_ids :: "string \<Rightarrow> target_input \<Rightarrow> uuid list" where
  "selected_ids ty t = map tr_record_id (filter (\<lambda>r. tr_record_type r = ty) (ti_targets t))"

definition candidate_condition :: "target_input \<Rightarrow> (license_assignment \<Rightarrow> bool) option" where
  "candidate_condition t =
     (let assignments = selected_ids ''license_assignment'' t; users = selected_ids ''directory_user'' t
      in if assignments \<noteq> [] \<or> users \<noteq> []
         then Some (\<lambda>la. la_id la \<in> set assignments \<or> la_user_id la \<in> set users)
         else case ti_department_id t of
                Some d \<Rightarrow> Some (\<lambda>la. la_department_id la = d)
              | None \<Rightarrow> if ti_scope_type t = ''global'' then Some (\<lambda>_. True) else None)"

definition reclaim_candidate_of :: "db_session \<Rightarrow> it_domain \<Rightarrow> license_assignment \<Rightarrow> reclaim_candidate" where
  "reclaim_candidate_of ss dm la =
     (let license = find_by li_id (la_license_id la) (it_licenses dm)
      in \<lparr>ca_assignment = la,
          ca_user = List.find (\<lambda>u. du_id u = la_user_id la \<and> query_admits ss (Some (du_department_id u)))
                      (it_users dm),
          ca_license = license,
          ca_cost = map_option (\<lambda>l. quantize_cents (li_monthly_cost_usd l)) license\<rparr>)"

definition reclaim_candidates ::
  "db_session \<Rightarrow> it_domain \<Rightarrow> (license_assignment \<Rightarrow> bool) \<Rightarrow> reclaim_candidate list" where
  "reclaim_candidates ss dm selected =
     map (reclaim_candidate_of ss dm)
       (take (MAX_PREVIEW_RECORDS + 1)
          (sort_key la_id
             (filter (\<lambda>la. selected la \<and> query_admits ss (Some (la_department_id la))) (it_assignments dm))))"

definition read_reclaim_candidates ::
  "preview_sources \<Rightarrow> db_session \<Rightarrow> it_domain \<Rightarrow> target_input \<Rightarrow> user_access_context
     \<Rightarrow> preview_failure + reclaim_candidate candidate_read" where
  "read_reclaim_candidates src ss dm target requester =
     (if psr_dialect src \<noteq> ''postgresql'' then Inl PreviewFailed
      else case candidate_condition target of
             None \<Rightarrow> Inl PreviewForbidden
           | Some selected \<Rightarrow>
               result_bind (open_read_boundary ss requester) (\<lambda>ss'.
                 candidate_read_of ss' (reclaim_candidates ss' dm selected)))"

section \<open>Records\<close>

record reclaim_eligible =
  rel_id :: uuid
  rel_scope_type :: string
  rel_scope_key :: string
  rel_user_id :: uuid
  rel_department_id :: uuid
  rel_scope_id :: uuid
  rel_user_display_label :: string
  rel_license_product :: string
  rel_license_vendor :: string
  rel_last_used_at :: "instant option"
  rel_monthly_cost :: nat
  rel_reason_code :: string
  rel_high_confidence :: bool

record reclaim_skipped =
  rsk_record_type :: string
  rsk_id :: uuid
  rsk_scope_type :: string
  rsk_scope_key :: string
  rsk_reason_code :: string
  rsk_reason :: string
  rsk_scope_id :: "uuid option"
  rsk_user_display_label :: "string option"
  rsk_license_product :: "string option"
  rsk_license_vendor :: "string option"
  rsk_last_used_at :: "instant option"
  rsk_monthly_cost :: "nat option"
  rsk_high_confidence :: bool

record reclaim_override =
  rov_id :: uuid
  rov_scope_type :: string
  rov_scope_key :: string
  rov_reason_code :: string
  rov_reason :: string
  rov_user_id :: uuid
  rov_department_id :: uuid
  rov_scope_id :: uuid
  rov_user_display_label :: string
  rov_license_product :: string
  rov_license_vendor :: string
  rov_last_used_at :: "instant option"
  rov_monthly_cost :: nat
  rov_high_confidence :: bool
  rov_override_reason_codes :: "string list"

section \<open>Classification\<close>

definition structural_error :: "access_scope_row option \<Rightarrow> reclaim_candidate \<Rightarrow> bool" where
  "structural_error scope row \<longleftrightarrow>
     scope = None \<or> ca_user row = None
     \<or> map_option du_department_id (ca_user row) \<noteq> Some (la_department_id (ca_assignment row))
     \<or> \<not> truthy_str (map_option du_full_name (ca_user row))
     \<or> ca_license row = None
     \<or> \<not> truthy_str (map_option li_product_name (ca_license row))
     \<or> \<not> truthy_str (map_option li_vendor (ca_license row))
     \<or> (case ca_cost row of None \<Rightarrow> True | Some c \<Rightarrow> c < 0)"

definition used_since :: "license_assignment \<Rightarrow> instant \<Rightarrow> bool" where
  "used_since la cutoff = (case la_last_used_at la of None \<Rightarrow> False | Some t \<Rightarrow> t \<ge> cutoff)"

definition reclaim_skip_code ::
  "access_scope_row option \<Rightarrow> instant \<Rightarrow> reclaim_candidate \<Rightarrow> string option" where
  "reclaim_skip_code scope normal_cutoff row =
     (let la = ca_assignment row
      in if la_status la = ''reclaimed'' then Some ''assignment_already_reclaimed''
         else if la_status la = ''suspended'' then Some ''assignment_suspended''
         else if la_status la \<noteq> ''active'' \<or> structural_error scope row
         then Some ''record_structurally_invalid''
         else if used_since la normal_cutoff then Some ''recent_usage''
         else None)"

definition safe_monthly_cost :: "int option \<Rightarrow> nat option" where
  "safe_monthly_cost c = (case c of None \<Rightarrow> None | Some x \<Rightarrow> if x < 0 then None else Some (nat x))"

definition reclaim_skipped_record ::
  "reclaim_candidate \<Rightarrow> access_scope_row option \<Rightarrow> string \<Rightarrow> string \<Rightarrow> string \<Rightarrow> bool \<Rightarrow> reclaim_skipped" where
  "reclaim_skipped_record row scope scope_type scope_key code high =
     \<lparr>rsk_record_type = ''license_assignment'', rsk_id = la_id (ca_assignment row),
      rsk_scope_type = scope_type, rsk_scope_key = scope_key, rsk_reason_code = code,
      rsk_reason = reclaim_safe_reason code, rsk_scope_id = map_option as_id scope,
      rsk_user_display_label = map_option du_full_name (ca_user row),
      rsk_license_product = map_option li_product_name (ca_license row),
      rsk_license_vendor = map_option li_vendor (ca_license row),
      rsk_last_used_at = la_last_used_at (ca_assignment row),
      rsk_monthly_cost = safe_monthly_cost (ca_cost row), rsk_high_confidence = high\<rparr>"

text \<open>The codes in the order the loop appends them; the account type is tested in between.\<close>

definition reclaim_preview_codes :: "target_input \<Rightarrow> license_assignment \<Rightarrow> string \<Rightarrow> string list" where
  "reclaim_preview_codes target la account_type =
     (if target_is_cross_scope target (la_department_id la) then [''cross_scope_target''] else [])
     @ (if account_type = ''service'' then [''service_account_assignment''] else [])
     @ (if la_is_mandatory la then [''mandatory_assignment''] else [])
     @ (if la_is_exception la then [''exception_assignment''] else [])"

definition classify_reclaim ::
  "target_input \<Rightarrow> (uuid \<Rightarrow> access_scope_row option) \<Rightarrow> instant \<Rightarrow> reclaim_candidate
     \<Rightarrow> (reclaim_eligible, reclaim_skipped, reclaim_override) classified" where
  "classify_reclaim target department_scopes now row =
     (let la = ca_assignment row;
          scope = department_scopes (la_department_id la);
          safe_type = (case scope of None \<Rightarrow> ti_scope_type target | Some s \<Rightarrow> as_scope_type s);
          safe_key = (case scope of None \<Rightarrow> ti_scope_key target | Some s \<Rightarrow> as_scope_key s);
          high = \<not> used_since la (now - HIGH_CONFIDENCE_DAYS * MICROSECONDS_PER_DAY)
      in case reclaim_skip_code scope (now - NORMAL_ELIGIBILITY_DAYS * MICROSECONDS_PER_DAY) row of
           Some code \<Rightarrow> ClSkipped (reclaim_skipped_record row scope safe_type safe_key code high)
         | None \<Rightarrow>
             (let s = the scope; u = the (ca_user row); l = the (ca_license row);
                  cost = nat (the (ca_cost row));
                  codes = reclaim_preview_codes target la (du_account_type u)
              in if du_account_type u \<noteq> ''service'' \<and> du_account_type u \<noteq> ''human''
                 then ClSkipped (reclaim_skipped_record row scope (as_scope_type s) (as_scope_key s)
                                   ''record_structurally_invalid'' high)
                 else if codes \<noteq> [] then ClOverride
                   \<lparr>rov_id = la_id la, rov_scope_type = as_scope_type s, rov_scope_key = as_scope_key s,
                    rov_reason_code = hd codes, rov_reason = reclaim_safe_reason (hd codes),
                    rov_user_id = du_id u, rov_department_id = la_department_id la,
                    rov_scope_id = as_id s, rov_user_display_label = du_full_name u,
                    rov_license_product = li_product_name l, rov_license_vendor = li_vendor l,
                    rov_last_used_at = la_last_used_at la, rov_monthly_cost = cost,
                    rov_high_confidence = high, rov_override_reason_codes = codes\<rparr>
                 else ClEligible
                   \<lparr>rel_id = la_id la, rel_scope_type = as_scope_type s, rel_scope_key = as_scope_key s,
                    rel_user_id = du_id u, rel_department_id = la_department_id la,
                    rel_scope_id = as_id s, rel_user_display_label = du_full_name u,
                    rel_license_product = li_product_name l, rel_license_vendor = li_vendor l,
                    rel_last_used_at = la_last_used_at la, rel_monthly_cost = cost,
                    rel_reason_code = (if la_last_used_at la = None then ''no_recorded_usage''
                                       else ''unused_over_60_days''),
                    rel_high_confidence = high\<rparr>))"

text \<open>\<open>_missing_selector_records\<close>: the selected ids no candidate row belongs to.\<close>

definition reclaim_missing :: "target_input \<Rightarrow> reclaim_candidate list \<Rightarrow> reclaim_skipped list" where
  "reclaim_missing target rows =
     map (\<lambda>r. \<lparr>rsk_record_type = tr_record_type r, rsk_id = tr_record_id r,
               rsk_scope_type = ti_scope_type target, rsk_scope_key = ti_scope_key target,
               rsk_reason_code = ''record_not_found_or_not_authorized'',
               rsk_reason = reclaim_safe_reason ''record_not_found_or_not_authorized'',
               rsk_scope_id = None, rsk_user_display_label = None, rsk_license_product = None,
               rsk_license_vendor = None, rsk_last_used_at = None, rsk_monthly_cost = None,
               rsk_high_confidence = False\<rparr>)
       (filter (\<lambda>r. \<not> (if tr_record_type r = ''license_assignment''
                      then tr_record_id r \<in> (la_id \<circ> ca_assignment) ` set rows
                      else if tr_record_type r = ''directory_user''
                      then tr_record_id r \<in> (la_user_id \<circ> ca_assignment) ` set rows
                      else False))
          (ti_targets target))"

section \<open>The preview\<close>

record reclaim_preview = action_preview +
  rp_eligible :: "reclaim_eligible list"
  rp_skipped :: "reclaim_skipped list"
  rp_overrides :: "reclaim_override list"
  rp_affected_license_assignment_count :: nat
  rp_affected_user_count :: nat
  rp_normal_eligible_count :: nat
  rp_skipped_count :: nat
  rp_override_required_count :: nat
  rp_high_confidence_count :: nat
  rp_estimated_monthly_savings :: nat
  rp_override_estimated_monthly_savings :: nat

definition raised :: "py_exn + 'a \<Rightarrow> preview_failure + 'a" where
  "raised r = (case r of Inl e \<Rightarrow> Inl (PreviewRaised e) | Inr x \<Rightarrow> Inr x)"

definition reclaim_preview_of ::
  "target_input \<Rightarrow> user_access_context \<Rightarrow> instant \<Rightarrow> (uuid \<Rightarrow> access_scope_row option)
     \<Rightarrow> action_policy_decision \<Rightarrow> data_resource list \<Rightarrow> resource_grant list
     \<Rightarrow> reclaim_candidate candidate_read \<Rightarrow> preview_failure + reclaim_preview" where
  "reclaim_preview_of target requester now scopes decision resources grants read =
     (let classified = map (classify_reclaim target scopes now) (cr_records read);
          eligible = sort_key rel_id (eligible_part classified);
          skipped = sort_key (\<lambda>r. (rsk_record_type r, rsk_id r))
                      (skipped_part classified @ reclaim_missing target (cr_records read));
          overrides = sort_key rov_id (override_part classified);
          actionable = length eligible + length overrides;
          codes = concat (map rov_override_reason_codes overrides)
      in result_bind (raised (sum_costs (map rel_monthly_cost eligible))) (\<lambda>savings.
         result_bind (raised (sum_costs (map rov_monthly_cost overrides))) (\<lambda>override_savings. Inr
           \<lparr>pv_generated_at = now, pv_expires_at = now + PREVIEW_LIFETIME,
            pv_policy_flags = preview_flags reclaim_safe_reason codes actionable (ti_scope_type target = ''global''),
            pv_access_context = preview_access_context_of requester,
            pv_access_decision = preview_access_decision_of decision grants read,
            pv_requester_scope_ids = sort (map sc_id (uc_scopes requester)),
            pv_target_scope_ids = sorted_set (map rel_scope_id eligible @ map rov_scope_id overrides
                                              @ [the (ti_scope_id target)]),
            pv_resources = map resource_descriptor_of resources,
            pv_exclusions_by_reason = count_codes (map rsk_reason_code skipped @ codes),
            pv_requires_admin =
              preview_flags reclaim_safe_reason codes actionable (ti_scope_type target = ''global'') \<noteq> [],
            pv_crosses_scopes = list_ex (\<lambda>r. ''cross_scope_target'' \<in> set (rov_override_reason_codes r)) overrides,
            pv_requires_policy_override = overrides \<noteq> [],
            rp_eligible = eligible, rp_skipped = skipped, rp_overrides = overrides,
            rp_affected_license_assignment_count = actionable,
            rp_affected_user_count = length (remdups (map rel_user_id eligible @ map rov_user_id overrides)),
            rp_normal_eligible_count = length eligible, rp_skipped_count = length skipped,
            rp_override_required_count = length overrides,
            rp_high_confidence_count = length (filter rel_high_confidence eligible)
                                       + length (filter rov_high_confidence overrides),
            rp_estimated_monthly_savings = savings,
            rp_override_estimated_monthly_savings = override_savings\<rparr>)))"

definition build_reclaim_preview ::
  "preview_sources \<Rightarrow> db_session \<Rightarrow> access_scope_row list \<Rightarrow> it_domain \<Rightarrow> target_input
     \<Rightarrow> user_access_context \<Rightarrow> instant \<Rightarrow> preview_failure + reclaim_preview" where
  "build_reclaim_preview src ss scopes dm target requester now =
     (if ti_action_type target \<noteq> ReclaimUnusedLicense \<or> ti_scope_id target = None then Inl PreviewForbidden
      else
        let decision = evaluate_action_request requester (ti_scope_type target) (ti_scope_key target)
        in if \<not> pd_allowed decision then Inl PreviewForbidden
           else
             result_bind (authorize_tables RECLAIM_RESOURCE_TABLES (psr_resources src) requester target)
               (\<lambda>(resources, grants).
             result_bind (read_reclaim_candidates src ss dm target requester) (\<lambda>read.
               reclaim_preview_of target requester now (department_scope_of scopes) decision resources
                 grants read)))"

section \<open>The stored documents\<close>

definition reclaim_record_json ::
  "string \<Rightarrow> uuid \<Rightarrow> uuid option \<Rightarrow> string \<Rightarrow> string \<Rightarrow> string option \<Rightarrow> string option \<Rightarrow> string option
     \<Rightarrow> instant option \<Rightarrow> nat option \<Rightarrow> string \<Rightarrow> string \<Rightarrow> bool \<Rightarrow> (string \<times> json) list" where
  "reclaim_record_json ty i scope_id scope_type scope_key label product vendor used cost code reason high =
     [(''record_type'', JStr ty), (''record_id'', JStr i),
      (''license_assignment_id'', if ty = ''license_assignment'' then JStr i else JNull),
      (''scope'', scope_json scope_id scope_type scope_key), (''user_display_label'', jopt label),
      (''license_product'', jopt product), (''license_vendor'', jopt vendor),
      (''last_used_at'', instant_json used), (''monthly_cost_usd'', jopt (map_option money_string cost)),
      (''reason_code'', JStr code), (''reason'', JStr reason), (''high_confidence'', JBool high)]"

definition eligible_record_json :: "reclaim_eligible \<Rightarrow> json" where
  "eligible_record_json r = JDict
     (reclaim_record_json ''license_assignment'' (rel_id r) (Some (rel_scope_id r)) (rel_scope_type r)
        (rel_scope_key r) (Some (rel_user_display_label r)) (Some (rel_license_product r))
        (Some (rel_license_vendor r)) (rel_last_used_at r) (Some (rel_monthly_cost r)) (rel_reason_code r)
        (if rel_reason_code r = ''no_recorded_usage'' then ''No license usage is recorded.''
         else ''The license has not been used for more than 60 days.'')
        (rel_high_confidence r))"

definition skipped_record_json :: "reclaim_skipped \<Rightarrow> json" where
  "skipped_record_json r = JDict
     (reclaim_record_json (rsk_record_type r) (rsk_id r) (rsk_scope_id r) (rsk_scope_type r)
        (rsk_scope_key r) (rsk_user_display_label r) (rsk_license_product r) (rsk_license_vendor r)
        (rsk_last_used_at r) (rsk_monthly_cost r) (rsk_reason_code r) (rsk_reason r)
        (rsk_high_confidence r))"

definition override_record_json :: "reclaim_override \<Rightarrow> json" where
  "override_record_json r = JDict
     (reclaim_record_json ''license_assignment'' (rov_id r) (Some (rov_scope_id r)) (rov_scope_type r)
        (rov_scope_key r) (Some (rov_user_display_label r)) (Some (rov_license_product r))
        (Some (rov_license_vendor r)) (rov_last_used_at r) (Some (rov_monthly_cost r)) (rov_reason_code r)
        (rov_reason r) (rov_high_confidence r)
      @ [(''override_reason_codes'', jstrs (rov_override_reason_codes r))])"

definition reclaim_summary_json :: "reclaim_preview \<Rightarrow> json" where
  "reclaim_summary_json p = JDict
     [(''affected_license_assignment_count'', JInt (int (rp_affected_license_assignment_count p))),
      (''affected_user_count'', JInt (int (rp_affected_user_count p))),
      (''normal_eligible_count'', JInt (int (rp_normal_eligible_count p))),
      (''skipped_count'', JInt (int (rp_skipped_count p))),
      (''override_required_count'', JInt (int (rp_override_required_count p))),
      (''high_confidence_count'', JInt (int (rp_high_confidence_count p))),
      (''estimated_monthly_savings'', JStr (money_string (rp_estimated_monthly_savings p))),
      (''override_estimated_monthly_savings'',
       JStr (money_string (rp_override_estimated_monthly_savings p)))]"

definition build_reclaim_preview_storage :: "reclaim_preview \<Rightarrow> preview_storage" where
  "build_reclaim_preview_storage p =
     \<lparr>pst_preview_json = JDict
        [(''schema_version'', JInt 1), (''action_type'', JStr ''reclaim_unused_license''),
         (''summary'', reclaim_summary_json p),
         (''eligible_records'', JList (map eligible_record_json (rp_eligible p))),
         (''override_required_records'', JList (map override_record_json (rp_overrides p))),
         (''generated_at'', JStr (timestamp (pv_generated_at p))),
         (''expires_at'', JStr (timestamp (pv_expires_at p))),
         (''requester_scope_ids'', jstrs (pv_requester_scope_ids p)),
         (''target_scope_ids'', jstrs (pv_target_scope_ids p)),
         (''resources'', JList (map resource_descriptor_json (pv_resources p)))],
      pst_policy_flags_json = policy_flags_json p,
      pst_skipped_records_json =
        skipped_records_json (map skipped_record_json (rp_skipped p)) (pv_exclusions_by_reason p),
      pst_access_context_json = access_context_json (pv_access_context p),
      pst_access_decision_json = access_decision_json (pv_access_decision p),
      pst_record_count = int (rp_affected_license_assignment_count p),
      pst_skipped_count = int (rp_skipped_count p)\<rparr>"

end
