(* ===== verification/Disable_Preview.thy ===== *)
theory Disable_Preview
  imports Preview_Records
begin

text \<open>
  Building the preview of a disable request (\<open>domains/it_operations/actions/disable_inactive_user.py\<close>):
  the explicit users read under the query role, their classification, the counts, and the documents
  that are stored (\<open>build_disable_preview_storage\<close> in \<open>preview.py\<close>).
\<close>

definition disable_preview_reason :: "string \<Rightarrow> string" where
  "disable_preview_reason c =
     (if c = ''inactive_human_user'' then ''The human account has no successful login within 90 days.''
      else if c = ''record_count_over_analyst_threshold''
      then ''The request contains more than 20 actionable records.''
      else if c = ''global_scope_request''
      then ''The request targets global scope and requires global approval.''
      else disable_safe_reason c)"

section \<open>Candidates\<close>

text \<open>\<open>disable_candidate_statement\<close> under the query role, whose policies look at each row's own department.\<close>

definition query_logins :: "db_session \<Rightarrow> it_domain \<Rightarrow> uuid \<Rightarrow> instant list" where
  "query_logins ss dm uid =
     map le_occurred_at (filter (\<lambda>e. le_user_id e = uid \<and> le_event_type e = ''success''
                                   \<and> query_admits ss (Some (le_department_id e))) (it_logins dm))"

definition query_privileged :: "db_session \<Rightarrow> it_domain \<Rightarrow> uuid \<Rightarrow> bool" where
  "query_privileged ss dm uid \<longleftrightarrow>
     list_ex (\<lambda>m. gm_user_id m = uid \<and> query_admits ss (Some (gm_department_id m))
                \<and> list_ex (\<lambda>g. gr_id g = gm_group_id m \<and> gr_is_privileged g
                             \<and> query_admits ss (gr_department_id g)) (it_groups dm)) (it_memberships dm)"

definition query_open_critical :: "db_session \<Rightarrow> it_domain \<Rightarrow> uuid \<Rightarrow> bool" where
  "query_open_critical ss dm uid \<longleftrightarrow>
     list_ex (\<lambda>e. se_user_id e = Some uid \<and> se_severity e = ''critical''
                \<and> (se_status e = ''open'' \<or> se_status e = ''investigating'')
                \<and> query_admits ss (se_department_id e)) (it_security dm)"

definition disable_candidate_of :: "db_session \<Rightarrow> it_domain \<Rightarrow> directory_user \<Rightarrow> disable_row" where
  "disable_candidate_of ss dm u =
     \<lparr>dr_user = u,
      dr_latest_login = latest (du_last_login_at u)
        (case query_logins ss dm (du_id u) of [] \<Rightarrow> None | t # ts \<Rightarrow> Some (foldl max t ts)),
      dr_privileged = query_privileged ss dm (du_id u),
      dr_open_critical = query_open_critical ss dm (du_id u)\<rparr>"

definition disable_candidates :: "db_session \<Rightarrow> it_domain \<Rightarrow> uuid list \<Rightarrow> disable_row list" where
  "disable_candidates ss dm ids =
     map (disable_candidate_of ss dm)
       (take (MAX_PREVIEW_RECORDS + 1)
          (sort_key du_id
             (filter (\<lambda>u. du_id u \<in> set ids \<and> query_admits ss (Some (du_department_id u))) (it_users dm))))"

definition read_disable_candidates ::
  "preview_sources \<Rightarrow> db_session \<Rightarrow> it_domain \<Rightarrow> target_input \<Rightarrow> user_access_context
     \<Rightarrow> preview_failure + disable_row candidate_read" where
  "read_disable_candidates src ss dm target requester =
     (if psr_dialect src \<noteq> ''postgresql'' then Inl PreviewFailed
      else
        result_bind (open_read_boundary ss requester) (\<lambda>ss'.
          if ti_targets target = [] then Inl PreviewForbidden
          else candidate_read_of ss' (disable_candidates ss' dm (map tr_record_id (ti_targets target)))))"

section \<open>Records\<close>

record disable_eligible =
  del_id :: uuid
  del_scope_type :: string
  del_scope_key :: string
  del_department_id :: uuid
  del_scope_id :: uuid
  del_user_display_label :: string
  del_last_login_at :: "instant option"
  del_reason_code :: string

record disable_skipped =
  dsk_id :: uuid
  dsk_scope_type :: string
  dsk_scope_key :: string
  dsk_reason_code :: string
  dsk_reason :: string
  dsk_scope_id :: "uuid option"
  dsk_user_display_label :: "string option"
  dsk_last_login_at :: "instant option"

record disable_override =
  dov_id :: uuid
  dov_scope_type :: string
  dov_scope_key :: string
  dov_reason_code :: string
  dov_reason :: string
  dov_department_id :: uuid
  dov_scope_id :: uuid
  dov_user_display_label :: string
  dov_last_login_at :: "instant option"
  dov_override_reason_codes :: "string list"

section \<open>Classification\<close>

definition disable_skip_code ::
  "access_scope_row option \<Rightarrow> instant \<Rightarrow> disable_row \<Rightarrow> string option" where
  "disable_skip_code scope cutoff row =
     (let u = dr_user row
      in if du_account_type u = ''service'' then Some ''service_account_excluded''
         else if du_account_type u \<noteq> ''human'' \<or> scope = None then Some ''invalid_current_state''
         else if du_account_status u = ''disabled'' then Some ''user_already_disabled''
         else if du_account_status u \<noteq> ''active'' then Some ''invalid_current_state''
         else if (case dr_latest_login row of None \<Rightarrow> False | Some t \<Rightarrow> t > cutoff)
         then Some ''recent_successful_login''
         else None)"

definition disable_preview_codes :: "target_input \<Rightarrow> disable_row \<Rightarrow> string list" where
  "disable_preview_codes target row =
     (if dr_privileged row then [''privileged_user''] else [])
     @ (if dr_open_critical row then [''open_critical_security_event''] else [])
     @ (if target_is_cross_scope target (du_department_id (dr_user row)) then [''cross_scope_target''] else [])"

definition classify_disable ::
  "target_input \<Rightarrow> (uuid \<Rightarrow> access_scope_row option) \<Rightarrow> instant \<Rightarrow> disable_row
     \<Rightarrow> (disable_eligible, disable_skipped, disable_override) classified" where
  "classify_disable target department_scopes now row =
     (let u = dr_user row;
          scope = department_scopes (du_department_id u);
          safe_type = (case scope of None \<Rightarrow> ti_scope_type target | Some s \<Rightarrow> as_scope_type s);
          safe_key = (case scope of None \<Rightarrow> ti_scope_key target | Some s \<Rightarrow> as_scope_key s);
          codes = disable_preview_codes target row
      in case disable_skip_code scope (now - INACTIVITY_DAYS * MICROSECONDS_PER_DAY) row of
           Some code \<Rightarrow> ClSkipped
             \<lparr>dsk_id = du_id u, dsk_scope_type = safe_type, dsk_scope_key = safe_key,
              dsk_reason_code = code, dsk_reason = disable_preview_reason code,
              dsk_scope_id = map_option as_id scope, dsk_user_display_label = Some (du_full_name u),
              dsk_last_login_at = dr_latest_login row\<rparr>
         | None \<Rightarrow>
             if codes \<noteq> [] then ClOverride
               \<lparr>dov_id = du_id u, dov_scope_type = as_scope_type (the scope),
                dov_scope_key = as_scope_key (the scope), dov_reason_code = hd codes,
                dov_reason = disable_preview_reason (hd codes), dov_department_id = du_department_id u,
                dov_scope_id = as_id (the scope), dov_user_display_label = du_full_name u,
                dov_last_login_at = dr_latest_login row, dov_override_reason_codes = codes\<rparr>
             else ClEligible
               \<lparr>del_id = du_id u, del_scope_type = as_scope_type (the scope),
                del_scope_key = as_scope_key (the scope), del_department_id = du_department_id u,
                del_scope_id = as_id (the scope), del_user_display_label = du_full_name u,
                del_last_login_at = dr_latest_login row, del_reason_code = ''inactive_human_user''\<rparr>)"

definition disable_missing :: "target_input \<Rightarrow> disable_row list \<Rightarrow> disable_skipped list" where
  "disable_missing target rows =
     map (\<lambda>r. \<lparr>dsk_id = tr_record_id r, dsk_scope_type = ti_scope_type target,
               dsk_scope_key = ti_scope_key target,
               dsk_reason_code = ''record_not_found_or_not_authorized'',
               dsk_reason = disable_preview_reason ''record_not_found_or_not_authorized'',
               dsk_scope_id = None, dsk_user_display_label = None, dsk_last_login_at = None\<rparr>)
       (filter (\<lambda>r. tr_record_id r \<notin> (du_id \<circ> dr_user) ` set rows) (ti_targets target))"

section \<open>The preview\<close>

record disable_preview = action_preview +
  dp_eligible :: "disable_eligible list"
  dp_skipped :: "disable_skipped list"
  dp_overrides :: "disable_override list"
  dp_affected_users_count :: nat
  dp_privileged_users_count :: nat
  dp_service_accounts_excluded_count :: nat
  dp_open_security_events_count :: nat
  dp_recent_login_skipped_count :: nat
  dp_normal_eligible_count :: nat
  dp_skipped_count :: nat
  dp_override_required_count :: nat
  dp_scope_decision_reason :: string

definition count_with_code :: "string \<Rightarrow> disable_override list \<Rightarrow> nat" where
  "count_with_code code overrides =
     length (filter (\<lambda>r. code \<in> set (dov_override_reason_codes r)) overrides)"

definition count_with_reason :: "string \<Rightarrow> disable_skipped list \<Rightarrow> nat" where
  "count_with_reason code skipped = length (filter (\<lambda>r. dsk_reason_code r = code) skipped)"

definition disable_preview_of ::
  "target_input \<Rightarrow> user_access_context \<Rightarrow> instant \<Rightarrow> (uuid \<Rightarrow> access_scope_row option)
     \<Rightarrow> action_policy_decision \<Rightarrow> data_resource list \<Rightarrow> resource_grant list
     \<Rightarrow> disable_row candidate_read \<Rightarrow> disable_preview" where
  "disable_preview_of target requester now scopes decision resources grants read =
     (let classified = map (classify_disable target scopes now) (cr_records read);
          eligible = sort_key del_id (eligible_part classified);
          skipped = sort_key dsk_id (skipped_part classified @ disable_missing target (cr_records read));
          overrides = sort_key dov_id (override_part classified);
          actionable = length eligible + length overrides;
          codes = concat (map dov_override_reason_codes overrides);
          flags = preview_flags disable_preview_reason codes actionable (ti_scope_type target = ''global'')
      in \<lparr>pv_generated_at = now, pv_expires_at = now + PREVIEW_LIFETIME, pv_policy_flags = flags,
          pv_access_context = preview_access_context_of requester,
          pv_access_decision = preview_access_decision_of decision grants read,
          pv_requester_scope_ids = sort (map sc_id (uc_scopes requester)),
          pv_target_scope_ids = sorted_set ([the (ti_scope_id target)] @ map del_scope_id eligible
                                            @ map dov_scope_id overrides),
          pv_resources = map resource_descriptor_of resources,
          pv_exclusions_by_reason = count_codes (map dsk_reason_code skipped @ codes),
          pv_requires_admin = flags \<noteq> [], pv_crosses_scopes = ''cross_scope_target'' \<in> set codes,
          pv_requires_policy_override = overrides \<noteq> [],
          dp_eligible = eligible, dp_skipped = skipped, dp_overrides = overrides,
          dp_affected_users_count = actionable,
          dp_privileged_users_count = count_with_code ''privileged_user'' overrides,
          dp_service_accounts_excluded_count = count_with_reason ''service_account_excluded'' skipped,
          dp_open_security_events_count = count_with_code ''open_critical_security_event'' overrides,
          dp_recent_login_skipped_count = count_with_reason ''recent_successful_login'' skipped,
          dp_normal_eligible_count = length eligible, dp_skipped_count = length skipped,
          dp_override_required_count = length overrides,
          dp_scope_decision_reason = pd_code decision\<rparr>)"

definition build_disable_preview ::
  "preview_sources \<Rightarrow> db_session \<Rightarrow> access_scope_row list \<Rightarrow> it_domain \<Rightarrow> target_input
     \<Rightarrow> user_access_context \<Rightarrow> instant \<Rightarrow> preview_failure + disable_preview" where
  "build_disable_preview src ss scopes dm target requester now =
     (if ti_action_type target \<noteq> DisableInactiveUser \<or> ti_scope_id target = None
         \<or> ti_targets target = [] \<or> list_ex (\<lambda>r. tr_record_type r \<noteq> ''directory_user'') (ti_targets target)
      then Inl PreviewForbidden
      else
        let decision = evaluate_action_request requester (ti_scope_type target) (ti_scope_key target)
        in if \<not> pd_allowed decision then Inl PreviewForbidden
           else
             result_bind (authorize_tables DISABLE_RESOURCE_TABLES (psr_resources src) requester target)
               (\<lambda>(resources, grants).
             result_bind (read_disable_candidates src ss dm target requester) (\<lambda>read.
               Inr (disable_preview_of target requester now (department_scope_of scopes) decision
                      resources grants read))))"

section \<open>The stored documents\<close>

definition disable_record_json ::
  "uuid \<Rightarrow> uuid option \<Rightarrow> string \<Rightarrow> string \<Rightarrow> string option \<Rightarrow> instant option \<Rightarrow> string \<Rightarrow> string
     \<Rightarrow> (string \<times> json) list" where
  "disable_record_json i scope_id scope_type scope_key label login code reason =
     [(''record_type'', JStr ''directory_user''), (''record_id'', JStr i), (''directory_user_id'', JStr i),
      (''scope'', scope_json scope_id scope_type scope_key), (''user_display_label'', jopt label),
      (''last_successful_login_at'', instant_json login), (''reason_code'', JStr code),
      (''reason'', JStr reason)]"

definition disable_eligible_json :: "disable_eligible \<Rightarrow> json" where
  "disable_eligible_json r = JDict
     (disable_record_json (del_id r) (Some (del_scope_id r)) (del_scope_type r) (del_scope_key r)
        (Some (del_user_display_label r)) (del_last_login_at r) (del_reason_code r)
        (disable_preview_reason (del_reason_code r)))"

definition disable_skipped_json :: "disable_skipped \<Rightarrow> json" where
  "disable_skipped_json r = JDict
     (disable_record_json (dsk_id r) (dsk_scope_id r) (dsk_scope_type r) (dsk_scope_key r)
        (dsk_user_display_label r) (dsk_last_login_at r) (dsk_reason_code r) (dsk_reason r))"

definition disable_override_json :: "disable_override \<Rightarrow> json" where
  "disable_override_json r = JDict
     (disable_record_json (dov_id r) (Some (dov_scope_id r)) (dov_scope_type r) (dov_scope_key r)
        (Some (dov_user_display_label r)) (dov_last_login_at r) (dov_reason_code r) (dov_reason r)
      @ [(''override_reason_codes'', jstrs (dov_override_reason_codes r))])"

definition disable_summary_json :: "disable_preview \<Rightarrow> json" where
  "disable_summary_json p = JDict
     [(''affected_users_count'', JInt (int (dp_affected_users_count p))),
      (''privileged_users_count'', JInt (int (dp_privileged_users_count p))),
      (''service_accounts_excluded_count'', JInt (int (dp_service_accounts_excluded_count p))),
      (''open_security_events_count'', JInt (int (dp_open_security_events_count p))),
      (''recent_login_skipped_count'', JInt (int (dp_recent_login_skipped_count p))),
      (''normal_eligible_count'', JInt (int (dp_normal_eligible_count p))),
      (''skipped_count'', JInt (int (dp_skipped_count p))),
      (''override_required_count'', JInt (int (dp_override_required_count p)))]"

definition build_disable_preview_storage :: "disable_preview \<Rightarrow> preview_storage" where
  "build_disable_preview_storage p =
     \<lparr>pst_preview_json = JDict
        [(''schema_version'', JInt 1), (''action_type'', JStr ''disable_inactive_user''),
         (''summary'', disable_summary_json p),
         (''eligible_records'', JList (map disable_eligible_json (dp_eligible p))),
         (''override_required_records'', JList (map disable_override_json (dp_overrides p))),
         (''generated_at'', JStr (timestamp (pv_generated_at p))),
         (''expires_at'', JStr (timestamp (pv_expires_at p))),
         (''requester_scope_ids'', jstrs (pv_requester_scope_ids p)),
         (''target_scope_ids'', jstrs (pv_target_scope_ids p)),
         (''target_resource_descriptors'', JList (map resource_descriptor_json (pv_resources p))),
         (''scope_decision_reason'', JStr (dp_scope_decision_reason p))],
      pst_policy_flags_json = policy_flags_json p,
      pst_skipped_records_json =
        skipped_records_json (map disable_skipped_json (dp_skipped p)) (pv_exclusions_by_reason p),
      pst_access_context_json = access_context_json (pv_access_context p),
      pst_access_decision_json = access_decision_json (pv_access_decision p),
      pst_record_count = int (dp_affected_users_count p),
      pst_skipped_count = int (dp_skipped_count p)\<rparr>"

end
