(* ===== verification/Preview_Service.thy ===== *)
theory Preview_Service
  imports Reclaim_Preview Disable_Preview
begin

text \<open>
  Creating a draft request (\<open>create_preview\<close> in \<open>action_engine/service.py\<close>): the scope and the source
  query of the request are checked, the handler of the action type builds the preview, its documents
  become a draft row, and the row has to pass the check every later reader makes.
\<close>

section \<open>Errors\<close>

definition action_scope_not_found :: api_error where
  "action_scope_not_found =
     \<lparr>ae_code = ''ACTION_SCOPE_NOT_FOUND'', ae_message = ''Action scope was not found.'', ae_status_code = 404\<rparr>"

definition action_scope_mismatch :: api_error where
  "action_scope_mismatch =
     \<lparr>ae_code = ''ACTION_SCOPE_MISMATCH'', ae_message = ''The requested scope is invalid.'',
      ae_status_code = 400\<rparr>"

definition source_run_not_found :: api_error where
  "source_run_not_found =
     \<lparr>ae_code = ''QUERY_RUN_NOT_FOUND'', ae_message = ''Query run was not found.'', ae_status_code = 404\<rparr>"

definition invalid_source_query :: api_error where
  "invalid_source_query =
     \<lparr>ae_code = ''ACTION_SOURCE_QUERY_INVALID'',
      ae_message = ''The source query is not compatible with this action.'', ae_status_code = 400\<rparr>"

definition preview_too_large :: api_error where
  "preview_too_large =
     \<lparr>ae_code = ''ACTION_PREVIEW_TOO_LARGE'',
      ae_message = ''The requested action preview exceeds the supported record limit.'',
      ae_status_code = 422\<rparr>"

definition preview_failed :: api_error where
  "preview_failed =
     \<lparr>ae_code = ''ACTION_PREVIEW_FAILED'',
      ae_message = ''The action preview could not be created safely.'', ae_status_code = 500\<rparr>"

section \<open>Scope and source\<close>

definition resolve_request_scope ::
  "access_scope_row list \<Rightarrow> uuid \<Rightarrow> user_access_context \<Rightarrow> api_error + access_scope_row" where
  "resolve_request_scope scopes scope_id ctx =
     (case find_by as_id scope_id scopes of
        None \<Rightarrow> Inl action_scope_not_found
      | Some scope \<Rightarrow>
          (let decision = evaluate_action_request ctx (as_scope_type scope) (as_scope_key scope)
           in if \<not> pd_allowed decision
              then (if pd_code decision = ''request_permission_required'' then Inl action_forbidden
                    else Inl action_scope_not_found)
              else if as_scope_type scope = ''department'' \<and> as_department_id scope \<noteq> None then Inr scope
              else if as_scope_type scope = ''global'' \<and> as_scope_key scope = ''global''
                      \<and> as_department_id scope = None
              then Inr scope
              else Inl action_scope_not_found))"

definition validate_department_bridge :: "access_scope_row \<Rightarrow> uuid option \<Rightarrow> api_error + unit" where
  "validate_department_bridge scope requested =
     (if requested = None \<or> as_department_id scope = requested then Inr () else Inl action_scope_mismatch)"

fun provenance_required :: "supported_action_type \<Rightarrow> string list" where
  "provenance_required ReclaimUnusedLicense = [''license_assignments'', ''licenses'']"
| "provenance_required DisableInactiveUser = [''directory_users'']"

fun provenance_allowed :: "supported_action_type \<Rightarrow> string list" where
  "provenance_allowed ReclaimUnusedLicense =
     [''departments'', ''directory_users'', ''license_assignments'', ''licenses'']"
| "provenance_allowed DisableInactiveUser =
     [''departments'', ''directory_users'', ''login_events'', ''groups'', ''user_group_memberships'',
      ''security_events'']"

fun provenance_template :: "supported_action_type \<Rightarrow> string" where
  "provenance_template ReclaimUnusedLicense = ''unused_licenses_by_department''"
| "provenance_template DisableInactiveUser = ''inactive_users_by_department''"

text \<open>\<open>{table.strip().lower() for table in raw if isinstance(table, str) and table.strip()}\<close>.\<close>

definition referenced_tables :: "json \<Rightarrow> string list" where
  "referenced_tables raw =
     map (\<lambda>v. map lower_char (py_strip (jstr v)))
       (filter (\<lambda>v. is_str v \<and> py_strip (jstr v) \<noteq> []) (jlist raw))"

definition source_compatible :: "supported_action_type \<Rightarrow> json \<Rightarrow> bool" where
  "source_compatible ty metadata \<longleftrightarrow>
     is_dict metadata \<and> is_list (jget metadata ''referenced_tables'')
     \<and> (let tables = referenced_tables (jget metadata ''referenced_tables'')
        in list_all (\<lambda>t. t \<in> set tables) (provenance_required ty)
           \<and> list_all (\<lambda>t. t \<in> set (provenance_allowed ty)) tables)
     \<and> (jget metadata ''provider'' = JStr ''domain_pack_template''
         \<longrightarrow> jget metadata ''template_id'' = JStr (provenance_template ty))"

definition validate_source_query_run ::
  "query_run list \<Rightarrow> uuid \<Rightarrow> uuid option \<Rightarrow> supported_action_type \<Rightarrow> api_error + query_run option" where
  "validate_source_query_run runs user source ty =
     (case source of
        None \<Rightarrow> Inr None
      | Some i \<Rightarrow>
          (case find_by qr_id i runs of
             None \<Rightarrow> Inl source_run_not_found
           | Some run \<Rightarrow>
               if qr_user_id run \<noteq> Some user \<or> qr_status run \<noteq> ''succeeded'' then Inl source_run_not_found
               else if source_compatible ty (qr_query_metadata run) then Inr (Some run)
               else Inl invalid_source_query))"

section \<open>Creating the draft\<close>

datatype built_preview = BuiltReclaim reclaim_preview | BuiltDisable disable_preview

fun build_action_preview_storage :: "built_preview \<Rightarrow> preview_storage" where
  "build_action_preview_storage (BuiltReclaim p) = build_reclaim_preview_storage p"
| "build_action_preview_storage (BuiltDisable p) = build_disable_preview_storage p"

fun built_base :: "built_preview \<Rightarrow> action_preview" where
  "built_base (BuiltReclaim p) = action_preview.truncate p"
| "built_base (BuiltDisable p) = action_preview.truncate p"

definition build_preview ::
  "action_env \<Rightarrow> preview_sources \<Rightarrow> action_store \<Rightarrow> target_input \<Rightarrow> user_access_context
     \<Rightarrow> preview_failure + built_preview" where
  "build_preview en src st target requester =
     (case ti_action_type target of
        ReclaimUnusedLicense \<Rightarrow>
          map_sum id BuiltReclaim (build_reclaim_preview src (en_session en) (at_scopes (st_auth st))
            (st_domain st) target requester (en_now en))
      | DisableInactiveUser \<Rightarrow>
          map_sum id BuiltDisable (build_disable_preview src (en_session en) (at_scopes (st_auth st))
            (st_domain st) target requester (en_now en)))"

definition default_priority :: "user_access_context \<Rightarrow> string" where
  "default_priority ctx =
     (if uc_role ctx = Some ''manager'' \<or> uc_role ctx = Some ''admin'' then ''high'' else ''normal'')"

definition draft_request ::
  "action_env \<Rightarrow> preview_request \<Rightarrow> access_scope_row \<Rightarrow> query_run option \<Rightarrow> user_access_context
     \<Rightarrow> built_preview \<Rightarrow> action_request" where
  "draft_request en q scope source ctx built =
     (let storage = build_action_preview_storage built; base = built_base built
      in \<lparr>ar_id = en_new_id en 0, ar_action_type = action_type_value (pq_action_type q),
          ar_requested_by = au_id (en_user en), ar_source_query_run_id = map_option qr_id source,
          ar_department_id = as_department_id scope, ar_scope_id = Some (as_id scope),
          ar_scope_type = Some (as_scope_type scope), ar_scope_key = Some (as_scope_key scope),
          ar_access_context_snapshot = pst_access_context_json storage,
          ar_access_decision_snapshot = pst_access_decision_json storage,
          ar_preview_json = pst_preview_json storage, ar_policy_flags = pst_policy_flags_json storage,
          ar_skipped_records = pst_skipped_records_json storage, ar_status = DraftPreview,
          ar_priority = default_priority ctx, ar_reason = Some (pq_reason q),
          ar_requires_admin = pv_requires_admin base, ar_record_count = pst_record_count storage,
          ar_skipped_count = pst_skipped_count storage,
          ar_idempotency_key = ''action-request:'' @ en_new_id en 0, ar_failure_user_safe = None,
          ar_failure_internal = None, ar_created_at = en_now en,
          ar_preview_generated_at = Some (pv_generated_at base),
          ar_preview_expires_at = Some (pv_expires_at base), ar_submitted_at = None,
          ar_approved_at = None, ar_executed_at = None, ar_completed_at = None,
          ar_expires_at = Some (pv_expires_at base)\<rparr>)"

lemma draft_request_fields [simp]:
  "ar_action_type (draft_request en q s src ctx b) = action_type_value (pq_action_type q)"
  "ar_requested_by (draft_request en q s src ctx b) = au_id (en_user en)"
  "ar_scope_id (draft_request en q s src ctx b) = Some (as_id s)"
  "ar_scope_type (draft_request en q s src ctx b) = Some (as_scope_type s)"
  "ar_department_id (draft_request en q s src ctx b) = as_department_id s"
  "ar_status (draft_request en q s src ctx b) = DraftPreview"
  "ar_id (draft_request en q s src ctx b) = en_new_id en 0"
  "ar_preview_json (draft_request en q s src ctx b) = pst_preview_json (build_action_preview_storage b)"
  "ar_policy_flags (draft_request en q s src ctx b) = pst_policy_flags_json (build_action_preview_storage b)"
  "ar_skipped_records (draft_request en q s src ctx b) = pst_skipped_records_json (build_action_preview_storage b)"
  "ar_access_context_snapshot (draft_request en q s src ctx b) = pst_access_context_json (build_action_preview_storage b)"
  "ar_access_decision_snapshot (draft_request en q s src ctx b) = pst_access_decision_json (build_action_preview_storage b)"
  "ar_record_count (draft_request en q s src ctx b) = pst_record_count (build_action_preview_storage b)"
  "ar_skipped_count (draft_request en q s src ctx b) = pst_skipped_count (build_action_preview_storage b)"
  "ar_requires_admin (draft_request en q s src ctx b) = pv_requires_admin (built_base b)"
  "ar_expires_at (draft_request en q s src ctx b) = Some (pv_expires_at (built_base b))"
  "ar_preview_expires_at (draft_request en q s src ctx b) = Some (pv_expires_at (built_base b))"
  by (simp_all add: draft_request_def Let_def)

definition preview_created_event :: "presentation \<Rightarrow> built_preview \<Rightarrow> query_run option \<Rightarrow> audit_event" where
  "preview_created_event pr built source =
     \<lparr>ev_type = ''action_preview_created'', ev_action = ''preview'', ev_status = DraftPreview,
      ev_summary = pr_preview_summary pr,
      ev_metadata = JDict
        ([(''policy_flag_codes'', jstrs (map pfl_code (pv_policy_flags (built_base built))))]
         @ (case source of None \<Rightarrow> [] | Some run \<Rightarrow> [(''source_query_run_id'', JStr (qr_id run))])),
      ev_before = JNull, ev_after = status_json ''draft_preview'', ev_severity = ''info'',
      ev_self_approved = None\<rparr>"

definition add_action :: "action_request \<Rightarrow> action_store \<Rightarrow> action_store" where
  "add_action ar st = st\<lparr>st_actions := st_actions st @ [ar]\<rparr>"

definition stored_draft ::
  "action_env \<Rightarrow> presentation \<Rightarrow> action_request \<Rightarrow> built_preview \<Rightarrow> query_run option
     \<Rightarrow> action_store \<Rightarrow> action_store" where
  "stored_draft en pr ar built source st =
     add_audit (build_action_audit_log (au_id (en_user en)) ar None (preview_created_event pr built source))
       (add_action ar st)"

definition save_preview ::
  "action_env \<Rightarrow> preview_request \<Rightarrow> access_scope_row \<Rightarrow> query_run option \<Rightarrow> user_access_context
     \<Rightarrow> built_preview \<Rightarrow> action_store \<Rightarrow> action_view service \<times> action_store" where
  "save_preview en q scope source ctx built st =
     (let ar = draft_request en q scope source ctx built; base = built_base built
      in if pv_generated_at base \<noteq> en_now en \<or> pv_expires_at base \<noteq> en_now en + PREVIEW_LIFETIME
         then (ServiceError preview_failed, st)
         else case validate_action_snapshot ar of
                Inl InvalidSnapshot \<Rightarrow> (ServiceError preview_failed, st)
              | Inl (SnapshotRaised e) \<Rightarrow> (Escaped e, st)
              | Inr _ \<Rightarrow>
                  (case action_presentation (ar_action_type ar) of
                     Inl e \<Rightarrow> (Escaped e, st)
                   | Inr pr \<Rightarrow>
                       commit_or_fail en ''The action preview could not be saved safely.'' st
                         (stored_draft en pr ar built source st)
                         (reply_view en st (ar\<lparr>ar_reason := None\<rparr>) None)))"

definition create_preview ::
  "action_env \<Rightarrow> preview_sources \<Rightarrow> preview_request \<Rightarrow> action_store \<Rightarrow> action_view service \<times> action_store" where
  "create_preview en src q st =
     (let ctx = env_context en st
      in if \<not> has_permission ctx ''can_request_action'' then (ServiceError action_forbidden, st)
         else if registry_get (en_registry en) (action_type_value (pq_action_type q)) = None
         then (ServiceError action_type_not_supported, st)
         else (case resolve_request_scope (at_scopes (st_auth st)) (pq_scope_id q) ctx of
             Inl e \<Rightarrow> (ServiceError e, st)
           | Inr scope \<Rightarrow>
             (case validate_department_bridge scope (pq_department_id q) of
                Inl e \<Rightarrow> (ServiceError e, st)
              | Inr _ \<Rightarrow>
                (case validate_source_query_run (psr_query_runs src) (au_id (en_user en))
                        (pq_source_query_run_id q) (pq_action_type q) of
                   Inl e \<Rightarrow> (ServiceError e, st)
                 | Inr source \<Rightarrow>
                   (case build_preview en src st (target_input_of q scope) ctx of
                      Inl PreviewForbidden \<Rightarrow> (ServiceError action_forbidden, st)
                    | Inl PreviewTooLarge \<Rightarrow> (ServiceError preview_too_large, st)
                    | Inl PreviewFailed \<Rightarrow> (ServiceError preview_failed, st)
                    | Inl (PreviewRaised e) \<Rightarrow> (Escaped e, st)
                    | Inr built \<Rightarrow> save_preview en q scope source ctx built st)))))"

end
