(* ===== verification/Approval_Invariants.thy ===== *)
theory Approval_Invariants
  imports Action_Invariants Preview_Service
begin

text \<open>
  Approving under the invariant: the normal forms of the branches of \<open>approve\<close>, the step
  relation of the action engine, its invariant, and the simulation of the abstract life cycle.
\<close>

section \<open>The sweep and the reads\<close>

lemma expire_pending_requests_evolves:
  assumes "engine_ok st"
  shows "evolves st (snd (expire_pending_requests en ctx st))"
  using assms sweep_evolves [OF assms expired_pairs_ok [OF assms], of en ctx False "en_now en"]
  by (auto simp: expire_pending_requests_def split: prod.splits bool.splits)

lemma list_pending_evolves:
  assumes "engine_ok st"
  shows "evolves st (snd (list_pending en limit offset st))"
  using assms expire_pending_requests_evolves [OF assms, of en "env_context en st"]
  by (auto simp: list_pending_def Let_def split: prod.splits sum.splits)

lemma get_approval_detail_evolves:
  assumes ok: "engine_ok st"
  shows "evolves st (snd (get_approval_detail en i st))"
proof (cases "locked_pair st i")
  case None
  with ok show ?thesis by (simp add: get_approval_detail_def)
next
  case (Some p)
  obtain ar ap where p: "p = (ar, ap)" by (cases p)
  note look = locked_pair_SomeD [OF ok Some [unfolded p]]
  have "evolves st (snd (expire_one en ar ap st))"
    if "pair_pending ar ap" "pair_expired ar ap (en_now en)"
    using expire_one_evolves [OF ok look(2,3) that] .
  with ok Some p show ?thesis
    by (auto simp: get_approval_detail_def Let_def split: prod.splits sum.splits option.splits)
qed

section \<open>The branches of an approval\<close>

lemma put_put_action [simp]:
  "ar_id ar' = ar_id ar \<Longrightarrow> put_action ar' (put_action ar st) = put_action ar' st"
  by (simp add: put_action_def)

lemma put_action_domain: "put_action ar (st\<lparr>st_domain := d\<rparr>) = (put_action ar st)\<lparr>st_domain := d\<rparr>"
  by (simp add: put_action_def)

lemma put_approval_domain:
  "put_approval ap (st\<lparr>st_domain := d\<rparr>) = (put_approval ap st)\<lparr>st_domain := d\<rparr>"
  by (simp add: put_approval_def)

definition failure_store ::
  "action_env \<Rightarrow> string \<Rightarrow> string \<Rightarrow> action_request \<Rightarrow> approval_request \<Rightarrow> action_store \<Rightarrow> action_store" where
  "failure_store en reason category ar ap st =
     (let ar' = failed_action en category ar; ap' = decide_approval en ApApproved reason ap;
          me = au_id (en_user en);
          notes = map (\<lambda>who. build_action_notification who me ''action_failed'' ''Action failed''
                         ''The action could not be completed safely.'' ar' ap')
                    (sorted_set [ar_requested_by ar, me])
      in add_notifications (active_notifications (st_auth st) notes)
           (add_audit (build_action_audit_log me ar' (Some ap') (failure_event category))
             (move_pair ar' ap' st)))"

lemma persist_execution_failure_pending:
  assumes ok: "engine_ok st" and look: "action_by_id st (ar_id ar) = Some ar"
    "approval_of st (ar_id ar) = Some ap" "approval_by_id st (ap_id ap) = Some ap"
    and pending: "pair_pending ar ap"
  shows "persist_execution_failure en (ar_id ar) (ap_id ap) reason category st =
    (if en_failure_commit en = Committed then (Inr True, failure_store en reason category ar ap st)
     else (Inl SQLAlchemyError, st))"
proof -
  from approval_of_SomeD [OF look(2)] have ap: "ap \<in> set (st_approvals st)"
    "ap_action_request_id ap = Some (ar_id ar)" by simp_all
  let ?ar = "failed_action en category ar"
  have u: "update_actions (\<lambda>x. ar_id x = ar_id ar \<and> ar_status x = PendingApproval)
      (failed_action en category) st = (1, put_action ?ar st)"
    using ok look(1) pending
    by (subst update_actions_put [where ar = ar]) (simp_all add: pair_pending_def failed_action_def)
  have v: "update_approvals (\<lambda>x. ap_id x = ap_id ap \<and> ap_action_request_id x = Some (ar_id ar)
        \<and> ap_status x = ApPending) (decide_approval en ApApproved reason) (put_action ?ar st)
      = (1, put_approval (decide_approval en ApApproved reason ap) (put_action ?ar st))"
    using ok ap pending
    by (subst update_approvals_put [where ap = ap])
       (simp_all add: pair_pending_def engine_ok_def decide_approval_def)
  show ?thesis
    unfolding persist_execution_failure_def look(1,3) prod.case option.case Let_def u v
      failure_store_def
    using pending by (simp add: put_pair_eq)
qed

lemma failure_store_evolves:
  assumes "engine_ok st" "action_by_id st (ar_id ar) = Some ar" "approval_of st (ar_id ar) = Some ap"
    and "pair_pending ar ap"
  shows "evolves st (failure_store en reason category ar ap st)"
proof -
  have "evolves st (move_pair (failed_action en category ar) (decide_approval en ApApproved reason ap) st)"
    using assms
    by (intro evolves_move_pair [where i = "ar_id ar"])
       (auto simp: row_ok_def pair_pending_def failed_action_def decide_approval_def intro: life_fail)
  then show ?thesis by (simp add: failure_store_def Let_def)
qed

definition failure_reply ::
  "action_env \<Rightarrow> action_request \<Rightarrow> approval_request \<Rightarrow> action_store \<Rightarrow> decision_result service" where
  "failure_reply en ar ap st =
     Answered \<lparr>dn_approval_id = ap_id ap, dn_action_id = ar_id ar, dn_status = Failed,
       dn_executed = 0, dn_skipped = 0,
       dn_self_approved = pd_self_approved (approval_decision ar (env_context en st)),
       dn_override_used = False, dn_at = en_now en\<rparr>"

lemma record_failure_pending:
  assumes "engine_ok st" "action_by_id st (ar_id ar) = Some ar" "approval_of st (ar_id ar) = Some ap"
    "approval_by_id st (ap_id ap) = Some ap" "pair_pending ar ap"
  shows "record_failure en ar ap reason category st =
    (if en_failure_commit en = Committed
     then (failure_reply en ar ap st, failure_store en reason category ar ap st)
     else (ServiceError (internal_error ''The action could not be completed safely.''), st))"
  unfolding record_failure_def persist_execution_failure_pending [OF assms]
  by (simp add: failure_reply_def)

lemma record_failure_evolves:
  assumes "engine_ok st" "action_by_id st (ar_id ar) = Some ar" "approval_of st (ar_id ar) = Some ap"
    "approval_by_id st (ap_id ap) = Some ap" "pair_pending ar ap"
  shows "evolves st (snd (record_failure en ar ap reason category st))"
  using assms failure_store_evolves [OF assms(1,2,3,5)]
  by (simp add: record_failure_pending [OF assms])

text \<open>The claim is undone by the completion, which writes the whole row.\<close>

lemma claim_pending:
  assumes "engine_ok st" "action_by_id st (ar_id ar) = Some ar" "pair_pending ar ap"
    "\<not> pair_expired ar ap (en_now en)"
  shows "update_actions (\<lambda>x. ar_id x = ar_id ar \<and> ar_status x = PendingApproval
            \<and> \<not> deadline_passed (ar_expires_at x) (en_now en))
          (\<lambda>x. x\<lparr>ar_status := ApprovedExecuting, ar_approved_at := Some (en_now en)\<rparr>) st
    = (1, put_action (ar\<lparr>ar_status := ApprovedExecuting, ar_approved_at := Some (en_now en)\<rparr>) st)"
  using assms
  by (subst update_actions_put [where ar = ar]) (simp_all add: pair_pending_def pair_expired_def)

lemma completed_store_claim:
  assumes "ar_id claimed = ar_id ar"
  shows "completed_store en pr reason ar ap rv self ids dm (put_action claimed st)
       = completed_store en pr reason ar ap rv self ids dm st"
  using assms
  by (simp add: completed_store_def Let_def put_action_domain put_approval_domain completed_action_def
      completion_notifications_def)

definition completion_reply ::
  "action_env \<Rightarrow> action_request \<Rightarrow> approval_request \<Rightarrow> revalidation \<Rightarrow> bool \<Rightarrow> uuid list
     \<Rightarrow> decision_result service" where
  "completion_reply en ar ap rv self ids =
     Answered \<lparr>dn_approval_id = ap_id ap, dn_action_id = ar_id ar, dn_status = Completed,
       dn_executed = length ids, dn_skipped = int (length (prior_skips ar @ current_skips rv)),
       dn_self_approved = self, dn_override_used = rv_requires_policy_override rv,
       dn_at = en_now en\<rparr>"

lemma execute_claimed_pending:
  assumes "engine_ok st" "action_by_id st (ar_id ar) = Some ar" "pair_pending ar ap"
    "\<not> pair_expired ar ap (en_now en)"
  shows "execute_claimed en pr reason ar ap h ss rv self st =
    (let fail = record_failure en ar ap reason ''execution_failed'' st
     in if en_fault en Claim then fail
        else (case staged en Execution (hd_execute h (set_action_runtime_role ss) (st_domain st) ar
                     (au_id (en_user en)) rv (en_now en)) of
           Inl _ \<Rightarrow> fail
         | Inr (ids, dm) \<Rightarrow>
             if en_fault en Completion \<or> en_commit en \<noteq> Committed then fail
             else (completion_reply en ar ap rv self ids,
                   completed_store en pr reason ar ap rv self ids dm st)))"
  unfolding execute_claimed_def Let_def claim_pending [OF assms] prod.case
  using assms(3)
  by (auto simp: pair_pending_def completion_reply_def completed_store_claim split: sum.splits prod.splits)

lemma completed_store_evolves:
  assumes "engine_ok st" "action_by_id st (ar_id ar) = Some ar" "approval_of st (ar_id ar) = Some ap"
    "pair_pending ar ap"
  shows "evolves st (completed_store en pr reason ar ap rv self ids dm st)"
proof -
  have "evolves st (move_pair (completed_action en ar rv) (decide_approval en ApApproved reason ap) st)"
    using assms
    by (intro evolves_move_pair [where i = "ar_id ar"])
       (auto simp: row_ok_def pair_pending_def completed_action_def decide_approval_def intro: life_complete)
  then show ?thesis
    by (simp add: completed_store_def Let_def put_action_domain put_approval_domain put_pair_eq)
qed

lemma escalated_store_evolves:
  assumes "engine_ok st" "action_by_id st (ar_id ar) = Some ar" "approval_of st (ar_id ar) = Some ap"
    "pair_pending ar ap"
  shows "evolves st (escalated_store en pr ar ap rv flags st)"
proof -
  have "row_ok ar (Some ap)" using engine_ok_row [OF assms(1,2)] assms(3) by simp
  then have "evolves st (move_pair (escalated_action ar rv flags) (ap\<lparr>ap_required_approver_role := Some ''admin''\<rparr>) st)"
    using assms
    by (intro evolves_move_pair [where i = "ar_id ar"])
       (auto simp: row_ok_def pair_pending_def escalated_action_def)
  then show ?thesis by (simp add: escalated_store_def Let_def put_pair_eq)
qed

text \<open>The facts every branch of an approval needs about its pair, in any store with the same tables.\<close>

lemma later_lookup [simp]:
  "approval_by_id (st\<lparr>st_domain := d\<rparr>) i = approval_by_id st i"
  "env_context en (st\<lparr>st_domain := d\<rparr>) = env_context en st"
  by (simp_all add: approval_by_id_def env_context_def)

lemma approve_pending_evolves:
  assumes ok: "engine_ok st" and look: "action_by_id st (ar_id ar) = Some ar"
    "approval_of st (ar_id ar) = Some ap" "approval_by_id st (ap_id ap) = Some ap"
    and pair: "pair_pending ar ap" "\<not> pair_expired ar ap (en_now en)"
  shows "evolves st (snd (approve_pending en pr reason ar ap st))"
proof -
  let ?later = "st\<lparr>st_domain := en_concurrent en (st_domain st)\<rparr>"
  have later: "engine_ok ?later" "action_by_id ?later (ar_id ar) = Some ar"
    "approval_of ?later (ar_id ar) = Some ap" "approval_by_id ?later (ap_id ap) = Some ap"
    using ok look by simp_all
  have fail: "evolves st (snd (record_failure en ar ap reason c ?later))" for c
    using record_failure_evolves [OF later pair(1)] by simp
  have exec: "evolves st (snd (execute_claimed en pr reason ar ap h ss rv self ?later))" for h ss rv self
    using fail completed_store_evolves [OF later(1-3) pair(1)]
    by (auto simp: execute_claimed_pending [OF later(1,2) pair] Let_def split: sum.splits)
  have esc: "evolves st (snd (escalate en pr reason ar ap rv ?later))" for rv
    using fail escalated_store_evolves [OF later(1-3) pair(1)] ok
    by (auto simp: escalate_def commit_or_fail_def split: sum.splits)
  show ?thesis
    using fail exec esc ok
    by (auto simp: approve_pending_def Let_def split: sum.splits)
qed

lemma approve_evolves:
  assumes ok: "engine_ok st"
  shows "evolves st (snd (approve en i reason st))"
  unfolding approve_def
proof (rule with_pending_pair_evolves [OF ok])
  fix pr ar ap
  assume "locked_pair st i = Some (ar, ap)" "pair_pending ar ap" "\<not> pair_expired ar ap (en_now en)"
  with locked_pair_SomeD [OF ok this(1)] ok
  show "evolves st (snd (approve_pending en pr reason ar ap st))"
    by (intro approve_pending_evolves) simp_all
qed

section \<open>Steps and reachable stores\<close>

text \<open>
  Other parts of the system may change the authorization tables and the IT tables at any time.
  Creating a preview is a step of its own: it adds a request, under an id \<open>uuid4\<close> has not returned before.
\<close>

inductive action_step :: "action_store \<Rightarrow> action_store \<Rightarrow> bool" where
  step_submit: "en_new_id en 0 \<notin> set (approval_ids st) \<Longrightarrow>
     action_step st (snd (submit_request en i reason st))"
| step_cancel: "action_step st (snd (cancel_request en i reason st))"
| step_reject: "action_step st (snd (reject en i reason st))"
| step_approve: "action_step st (snd (approve en i reason st))"
| step_list: "action_step st (snd (list_pending en limit offset st))"
| step_detail: "action_step st (snd (get_approval_detail en i st))"
| step_domain: "action_step st (st\<lparr>st_domain := d\<rparr>)"
| step_auth: "action_step st (st\<lparr>st_auth := au\<rparr>)"

inductive action_run :: "action_store \<Rightarrow> action_store \<Rightarrow> bool" where
  run_refl: "action_run st st"
| run_step: "action_run st st' \<Longrightarrow> action_step st' st'' \<Longrightarrow> action_run st st''"
| run_preview: "action_run st st' \<Longrightarrow> en_new_id en 0 \<notin> set (action_ids st') \<Longrightarrow>
     action_run st (snd (create_preview en src q st'))"

lemma action_step_evolves: "action_step st st' \<Longrightarrow> engine_ok st \<Longrightarrow> evolves st st'"
  by (induction rule: action_step.induct)
     (simp_all add: submit_request_evolves cancel_request_evolves reject_evolves approve_evolves
       list_pending_evolves get_approval_detail_evolves)

text \<open>Creating a preview changes nothing, or adds one draft and its audit entry.\<close>

lemma save_preview_store:
  "snd (save_preview en q s source ctx b st) = st
   \<or> (\<exists>ar a. ar_id ar = en_new_id en 0 \<and> ar_status ar = DraftPreview
        \<and> snd (save_preview en q s source ctx b st) = add_audit a (add_action ar st))"
proof -
  let ?ar = "draft_request en q s source ctx b"
  have "snd (save_preview en q s source ctx b st) = st
      \<or> (\<exists>a. snd (save_preview en q s source ctx b st) = add_audit a (add_action ?ar st))"
    by (auto simp: save_preview_def Let_def commit_or_fail_def stored_draft_def
        split: sum.split snapshot_error.split)
  then show ?thesis by (metis draft_request_fields(6,7))
qed

lemma create_preview_store:
  obtains (same) "snd (create_preview en src q st) = st"
    | (draft) ar a where "ar_id ar = en_new_id en 0" "ar_status ar = DraftPreview"
      "snd (create_preview en src q st) = add_audit a (add_action ar st)"
proof -
  have "snd (create_preview en src q st) = st
   \<or> (\<exists>s source b. snd (create_preview en src q st) = snd (save_preview en q s source (env_context en st) b st))"
    unfolding create_preview_def Let_def
    by (auto split: sum.split preview_failure.split)
  then show thesis using save_preview_store same draft by metis
qed

lemma row_of_add_audit [simp]: "row_of (add_audit a st) = row_of st"
  by (simp add: row_of_def fun_eq_iff)

lemma add_action_rows:
  assumes "ar_id ar \<notin> set (action_ids st)"
  shows "row_of (add_action ar st) i = (if i = ar_id ar then (Some ar, approval_of st i) else row_of st i)"
proof -
  have "action_by_id st (ar_id ar) = None"
    using assms by (simp add: action_by_id_def find_by_None action_ids_def)
  then show ?thesis
    by (simp add: row_of_def action_by_id_def approval_of_def add_action_def find_by_append
        split: option.splits)
       (simp add: find_by_def)
qed

lemma add_action_ok:
  assumes ok: "engine_ok st" and new: "ar_id ar \<notin> set (action_ids st)" and d: "ar_status ar = DraftPreview"
  shows "engine_ok (add_action ar st)"
proof -
  have none: "approval_of st (ar_id ar) = None"
    using ok new by (force simp: engine_ok_def approval_of_def find_by_None linked_ids_def)
  have eqs: "action_ids (add_action ar st) = action_ids st @ [ar_id ar]"
    "approval_ids (add_action ar st) = approval_ids st" "linked_ids (add_action ar st) = linked_ids st"
    "approval_of (add_action ar st) = approval_of st"
    by (simp_all add: add_action_def action_ids_def approval_ids_def linked_ids_def approval_of_def fun_eq_iff)
  have "row_ok ar None" by (simp add: row_ok_def d)
  with ok new none show ?thesis
    unfolding engine_ok_def eqs by (auto simp: add_action_def)
qed

lemma create_preview_ok:
  assumes "engine_ok st" "en_new_id en 0 \<notin> set (action_ids st)"
  shows "engine_ok (snd (create_preview en src q st))"
proof (cases rule: create_preview_store [of en src q st])
  case (draft ar a)
  then show ?thesis
    using assms add_action_ok same_tables_lookup(6) [of "add_action ar st" "add_audit a (add_action ar st)"] by simp
qed (simp add: assms)

lemma create_preview_rows:
  assumes "en_new_id en 0 \<notin> set (action_ids st)" "i \<noteq> en_new_id en 0"
  shows "row_of (snd (create_preview en src q st)) i = row_of st i"
  using assms by (cases rule: create_preview_store [of en src q st]) (simp_all add: add_action_rows)

lemma action_run_ok: "action_run st st' \<Longrightarrow> engine_ok st \<Longrightarrow> engine_ok st'"
  by (induction rule: action_run.induct) (auto simp: create_preview_ok evolves_def dest!: action_step_evolves)

lemma action_run_closed:
  assumes "action_run st st'" and "engine_ok st" and "row_life (row_of st i) = Some l"
    and "\<not> open_status (fst l)"
  shows "row_of st' i = row_of st i"
  using assms
proof (induction rule: action_run.induct)
  case (run_step st st' st'')
  then have "evolves st' st''" by (blast intro: action_step_evolves action_run_ok)
  then have "row_step (row_of st' i) (row_of st'' i)" by (simp add: evolves_def)
  moreover have "row_of st' i = row_of st i" using run_step by simp
  ultimately show ?case using row_step_closed run_step.prems by metis
next
  case (run_preview st st' en src q)
  then have "action_by_id st' i \<noteq> None" by (auto simp: row_of_def row_life_def)
  then have "i \<in> set (action_ids st')" by (auto simp: action_ids_def dest: action_by_id_SomeD)
  with run_preview show ?case by (cases "i = en_new_id en 0") (simp_all add: create_preview_rows)
qed simp

end
