(* ===== verification/Handler_Contract.thy ===== *)
theory Handler_Contract
  imports Action_Handlers
begin

text \<open>
  What the approval service relies on when it calls a handler (the \<open>ActionHandler\<close> protocol of
  \<open>action_engine/base.py\<close>), as the locale \<open>approval_handler\<close>, and its two interpretations: the
  reclaim handler and the disable handler.
\<close>

section \<open>Collected verdicts\<close>

lemma verdict_records_iff:
  "r \<in> set (verdict_records vs) \<longleftrightarrow> (\<exists>i. (i, Execute r) \<in> set vs)"
  by (force simp: verdict_records_def split: verdict.splits)

lemma verdict_skips_iff:
  "s \<in> set (verdict_skips reason vs) \<longleftrightarrow>
     (\<exists>i c. (i, Skip c) \<in> set vs \<and> s = \<lparr>sk_id = i, sk_code = c, sk_reason = reason c\<rparr>)"
  by (force simp: verdict_skips_def split: verdict.splits)

lemma verdict_records_ids:
  assumes "\<And>i r. (i, Execute r) \<in> set vs \<Longrightarrow> ex_id r = i"
  shows "map ex_id (verdict_records vs) = map fst (filter (\<lambda>(i, v). v \<notin> range Skip) vs)"
  using assms
proof (induction vs)
  case (Cons p vs)
  obtain i v where p: "p = (i, v)" by (cases p)
  have "map ex_id (verdict_records vs) = map fst (filter (\<lambda>(i, v). v \<notin> range Skip) vs)"
    by (rule Cons.IH) (rule Cons.prems, simp)
  with p Cons.prems [of i] show ?case by (cases v) (auto simp: verdict_records_def)
qed (simp add: verdict_records_def)

lemma verdict_skips_ids:
  "map sk_id (verdict_skips reason vs) = map fst (filter (\<lambda>(i, v). v \<in> range Skip) vs)"
proof (induction vs)
  case (Cons p vs)
  then show ?case by (cases p; cases "snd p") (auto simp: verdict_skips_def)
qed (simp add: verdict_skips_def)

text \<open>The executable and the skipped records partition the targets.\<close>

definition partitions :: "uuid list \<Rightarrow> revalidation \<Rightarrow> bool" where
  "partitions targets rv \<longleftrightarrow>
     distinct (map ex_id (rv_executable rv)) \<and> distinct (map sk_id (rv_skipped rv))
     \<and> set (map ex_id (rv_executable rv)) \<inter> set (map sk_id (rv_skipped rv)) = {}
     \<and> set (map ex_id (rv_executable rv)) \<union> set (map sk_id (rv_skipped rv)) = set targets
     \<and> length (rv_executable rv) + length (rv_skipped rv) = length targets"

lemma distinct_map_filter_fst: "distinct (map fst vs) \<Longrightarrow> distinct (map fst (filter P vs))"
  by (induction vs) auto

lemma collect_verdicts_partitions:
  assumes targets: "targets = map fst vs" and dist: "distinct targets"
    and ids: "\<And>i r. (i, Execute r) \<in> set vs \<Longrightarrow> ex_id r = i"
  shows "partitions targets (collect_verdicts ty reason cross vs)"
proof -
  let ?E = "filter (\<lambda>(i, v). v \<notin> range Skip) vs" and ?S = "filter (\<lambda>(i, v). v \<in> range Skip) vs"
  have rec: "map ex_id (verdict_records vs) = map fst ?E" by (rule verdict_records_ids) (rule ids)
  have skip: "map sk_id (verdict_skips reason vs) = map fst ?S" by (rule verdict_skips_ids)
  have "length (verdict_records vs) = length ?E" "length (verdict_skips reason vs) = length ?S"
    using arg_cong [OF rec, of length] arg_cong [OF skip, of length] by simp_all
  moreover have "length ?E + length ?S = length vs"
    using sum_length_filter_compl [of "\<lambda>(i, v). v \<in> range Skip" vs] by (simp add: case_prod_unfold add.commute)
  moreover have "set (map fst ?E) \<inter> set (map fst ?S) = {}"
    using dist unfolding targets by (auto simp: distinct_map inj_on_def)
  moreover have "set (map fst ?E) \<union> set (map fst ?S) = set (map fst vs)" by force
  ultimately show ?thesis
    using dist unfolding partitions_def collect_verdicts_def Let_def targets
    by (simp add: rec skip distinct_map_filter_fst del: set_map)
qed

lemma collect_verdicts_simps [simp]:
  "rv_executable (collect_verdicts ty reason cross vs) = verdict_records vs"
  "rv_type (collect_verdicts ty reason cross vs) = ty"
  "rv_skipped (collect_verdicts ty reason cross vs) = verdict_skips reason vs"
  by (simp_all add: collect_verdicts_def Let_def)

lemma persisted_target_ids_props:
  assumes "persisted_target_ids ty ar = Inr targets"
  shows "distinct targets" and "int (length targets) = ar_record_count ar"
  using assms
  by (auto simp: persisted_target_ids_def list_parts_def Let_def result_bind_Inr_iff split: if_splits)

section \<open>The contract\<close>

definition it_domain_ok :: "it_domain \<Rightarrow> bool" where
  "it_domain_ok dm \<longleftrightarrow> distinct (map la_id (it_assignments dm)) \<and> distinct (map du_id (it_users dm))"

text \<open>
  The session an approval executes in: the secure boundary of the executors, and the row-level
  settings of the approver.
\<close>

definition action_session :: "db_session \<Rightarrow> uuid \<Rightarrow> bool" where
  "action_session ss approver \<longleftrightarrow>
     secure_action_boundary ss \<and> ss_settings ss ''app.current_user_id'' = Some approver"

locale approval_handler =
  fixes revalidate ::
      "db_session \<Rightarrow> it_domain \<Rightarrow> action_request \<Rightarrow> user_access_context \<Rightarrow> instant \<Rightarrow> py_exn + revalidation"
    and execute ::
      "db_session \<Rightarrow> it_domain \<Rightarrow> action_request \<Rightarrow> uuid \<Rightarrow> revalidation \<Rightarrow> instant
         \<Rightarrow> py_exn + (uuid list \<times> it_domain)"
    and kind :: supported_action_type
    and record_type :: string
    and pending_row :: "it_domain \<Rightarrow> uuid \<Rightarrow> bool"
  assumes reval_targets: "revalidate ss dm ar ctx now = Inr rv \<Longrightarrow>
      \<exists>targets. persisted_target_ids record_type ar = Inr targets \<and> partitions targets rv"
    and reval_kind: "revalidate ss dm ar ctx now = Inr rv \<Longrightarrow> rv_type rv = kind"
    and reval_pending: "revalidate ss dm ar ctx now = Inr rv \<Longrightarrow> r \<in> set (rv_executable rv) \<Longrightarrow>
      it_domain_ok dm \<Longrightarrow> pending_row dm (ex_id r)"
    and exec_ids: "execute ss dm ar approver rv now = Inr (ids, dm') \<Longrightarrow>
      ids = map ex_id (rv_executable rv) \<and> secure_action_boundary ss"
    and exec_audits: "execute ss dm ar approver rv now = Inr (ids, dm') \<Longrightarrow>
      \<exists>es. it_audits dm' = it_audits dm @ es \<and> map ie_resource_id es = ids
         \<and> (\<forall>e \<in> set es. ie_actor_app_user_id e = approver \<and> ie_occurred_at e = now)"
    and exec_done: "execute ss dm ar approver rv now = Inr (ids, dm') \<Longrightarrow> it_domain_ok dm \<Longrightarrow>
      i \<in> set ids \<Longrightarrow> \<not> pending_row dm' i"
    and exec_frame: "execute ss dm ar approver rv now = Inr (ids, dm') \<Longrightarrow> i \<notin> set ids \<Longrightarrow>
      pending_row dm' i = pending_row dm i"
    and exec_fresh: "revalidate ss dm ar ctx now = Inr rv \<Longrightarrow> action_session ss approver \<Longrightarrow>
      it_domain_ok dm \<Longrightarrow> \<exists>dm'. execute ss dm ar approver rv now = Inr (map ex_id (rv_executable rv), dm')"
begin

lemma executed_within_targets:
  assumes "revalidate ss dm ar ctx now = Inr rv" and "execute ss' dm'' ar approver rv now' = Inr (ids, dm')"
  shows "\<exists>targets. persisted_target_ids record_type ar = Inr targets \<and> set ids \<subseteq> set targets \<and> distinct ids
           \<and> int (length ids + length (rv_skipped rv)) = ar_record_count ar"
proof -
  obtain targets where t: "persisted_target_ids record_type ar = Inr targets" "partitions targets rv"
    using reval_targets [OF assms(1)] by blast
  then have "set ids \<subseteq> set targets" "distinct ids"
    "length ids + length (rv_skipped rv) = length targets"
    using exec_ids [OF assms(2)] unfolding partitions_def by force+
  with t(1) persisted_target_ids_props(2) [OF t(1)] show ?thesis by metis
qed

lemma execute_accounting:
  assumes "execute ss dm ar approver rv now = Inr (ids, dm')"
  shows "ids = map ex_id (rv_executable rv)
     \<and> (\<exists>es. it_audits dm' = it_audits dm @ es \<and> map ie_resource_id es = ids
          \<and> (\<forall>e \<in> set es. ie_actor_app_user_id e = approver \<and> ie_occurred_at e = now))
     \<and> (it_domain_ok dm \<longrightarrow> (\<forall>i. pending_row dm' i = (pending_row dm i \<and> i \<notin> set ids)))"
proof (intro conjI impI allI)
  show "ids = map ex_id (rv_executable rv)" using exec_ids [OF assms] by simp
  show "\<exists>es. it_audits dm' = it_audits dm @ es \<and> map ie_resource_id es = ids
      \<and> (\<forall>e \<in> set es. ie_actor_app_user_id e = approver \<and> ie_occurred_at e = now)"
    by (rule exec_audits [OF assms])
  show "pending_row dm' i = (pending_row dm i \<and> i \<notin> set ids)" if "it_domain_ok dm" for i
    using exec_done [OF assms that, of i] exec_frame [OF assms, of i] by (cases "i \<in> set ids") simp_all
qed

lemma execute_effect:
  assumes "revalidate ss dm ar ctx now = Inr rv" and "action_session ss approver" and "it_domain_ok dm"
  shows "\<exists>dm' es. execute ss dm ar approver rv now = Inr (map ex_id (rv_executable rv), dm')
     \<and> (\<forall>i. pending_row dm' i = (pending_row dm i \<and> i \<notin> ex_id ` set (rv_executable rv)))
     \<and> it_audits dm' = it_audits dm @ es \<and> map ie_resource_id es = map ex_id (rv_executable rv)
     \<and> (\<forall>e \<in> set es. ie_actor_app_user_id e = approver)"
proof -
  obtain dm' where ex: "execute ss dm ar approver rv now = Inr (map ex_id (rv_executable rv), dm')"
    using exec_fresh [OF assms] by blast
  from execute_accounting [OF ex] assms(3) ex show ?thesis by auto
qed

end

section \<open>Reclaim\<close>

lemma reclaim_verdict_execute:
  assumes "reclaim_verdict ar ctx cutoff found = Execute r"
  shows "\<exists>row. found = Some row \<and> ex_id r = la_id (rr_assignment row)
    \<and> ex_department_id r = la_department_id (rr_assignment row)
    \<and> la_status (rr_assignment row) = ''active''"
  using assms by (auto simp: reclaim_verdict_def Let_def split: option.splits if_splits)

lemma reclaim_row_found:
  assumes "find_by (\<lambda>r. la_id (rr_assignment r)) i (reclaim_rows ss dm targets) = Some row"
  shows "rr_assignment row \<in> set (it_assignments dm)" "la_id (rr_assignment row) = i"
    "scope_admits ss (Some (la_department_id (rr_assignment row)))"
  using find_by_SomeD [OF assms] by (auto simp: reclaim_rows_def)

definition reclaim_verdicts ::
  "db_session \<Rightarrow> it_domain \<Rightarrow> action_request \<Rightarrow> user_access_context \<Rightarrow> instant \<Rightarrow> uuid list \<Rightarrow> (uuid \<times> verdict) list" where
  "reclaim_verdicts ss dm ar ctx now targets =
     map (\<lambda>i. (i, reclaim_verdict ar ctx (now - ELIGIBILITY_DAYS * MICROSECONDS_PER_DAY)
                     (find_by (\<lambda>r. la_id (rr_assignment r)) i (reclaim_rows ss dm targets)))) targets"

lemma revalidate_reclaim_Inr:
  "revalidate_reclaim_targets ss dm ar ctx now = Inr rv \<longleftrightarrow>
     (validate_reclaim_snapshot ar = Inr ()
      \<and> (\<exists>targets. persisted_target_ids ''license_assignment'' ar = Inr targets
           \<and> rv = collect_verdicts ReclaimUnusedLicense reclaim_skip_reason ''cross_scope''
                    (reclaim_verdicts ss dm ar ctx now targets)))"
  by (auto simp: revalidate_reclaim_targets_def result_bind_Inr_iff checked_def Let_def
      reclaim_verdicts_def split: sum.splits)

lemma reclaim_verdicts_execute:
  assumes "(i, Execute r) \<in> set (reclaim_verdicts ss dm ar ctx now targets)"
  shows "ex_id r = i" and "\<exists>la \<in> set (it_assignments dm). la_id la = i \<and> la_status la = ''active''
    \<and> scope_admits ss (Some (la_department_id la)) \<and> ex_department_id r = la_department_id la"
proof -
  from assms obtain row where row: "find_by (\<lambda>r. la_id (rr_assignment r)) i (reclaim_rows ss dm targets) = Some row"
    "ex_id r = la_id (rr_assignment row)" "ex_department_id r = la_department_id (rr_assignment row)"
    "la_status (rr_assignment row) = ''active''"
    by (auto simp: reclaim_verdicts_def dest!: reclaim_verdict_execute [OF sym])
  with reclaim_row_found [OF row(1)] show "ex_id r = i"
    "\<exists>la \<in> set (it_assignments dm). la_id la = i \<and> la_status la = ''active''
      \<and> scope_admits ss (Some (la_department_id la)) \<and> ex_department_id r = la_department_id la"
    by auto
qed

definition active_assignment :: "it_domain \<Rightarrow> uuid \<Rightarrow> bool" where
  "active_assignment dm i \<longleftrightarrow> list_ex (\<lambda>la. la_id la = i \<and> la_status la = ''active'') (it_assignments dm)"

lemma insert_it_audits_Inr:
  "insert_it_audits ss es dm = Inr dm' \<longleftrightarrow>
     list_all (audit_insert_admitted ss) es \<and> dm' = dm\<lparr>it_audits := it_audits dm @ es\<rparr>"
  by (auto simp: insert_it_audits_def)

lemma length_filter_ids:
  assumes "distinct (map key rows)" and "distinct ids"
    and "\<And>i. i \<in> set ids \<Longrightarrow> \<exists>r \<in> set rows. key r = i \<and> P r"
    and "\<And>r. r \<in> set rows \<Longrightarrow> P r \<Longrightarrow> key r \<in> set ids"
  shows "length (filter P rows) = length ids"
proof -
  have "distinct (map key (filter P rows))" using assms(1) by (rule distinct_map_filter)
  moreover have "set (map key (filter P rows)) = set ids"
    using assms(3,4) by fastforce
  ultimately show ?thesis using assms(2) by (metis distinct_card length_map)
qed

text \<open>An update by condition keeps the ids and changes the rows it admits.\<close>

lemma list_ex_map_update:
  assumes "\<And>x. key (f x) = key x" and "\<And>x. c x \<Longrightarrow> \<not> q (f x)"
  shows "list_ex (\<lambda>x. key x = i \<and> q x) (map (\<lambda>x. if c x then f x else x) xs)
     \<longleftrightarrow> list_ex (\<lambda>x. key x = i \<and> q x \<and> \<not> c x) xs"
  using assms by (induction xs) auto

lemma execute_reclaim_Inr:
  assumes "execute_reclaim ss dm action_id approver rv now = Inr (ids, dm')"
  shows "ids = map ex_id (rv_executable rv)" "secure_action_boundary ss"
    "it_audits dm' = it_audits dm @ map (reclaim_audit action_id approver now) (rv_executable rv)"
    "it_users dm' = it_users dm"
    "it_assignments dm' = map (\<lambda>la. if reclaimable ss ids la
        then la\<lparr>la_status := ''reclaimed'', la_reclaimed_at := Some now, la_reclaimed_by := Some approver\<rparr>
        else la) (it_assignments dm)"
    "length (filter (reclaimable ss ids) (it_assignments dm)) = length ids"
proof -
  have none: "reclaimable ss [] la = False" for la by (simp add: reclaimable_def)
  note * = assms [unfolded execute_reclaim_def Let_def]
  show "ids = map ex_id (rv_executable rv)" "secure_action_boundary ss"
    "it_audits dm' = it_audits dm @ map (reclaim_audit action_id approver now) (rv_executable rv)"
    "it_users dm' = it_users dm"
    "it_assignments dm' = map (\<lambda>la. if reclaimable ss ids la
        then la\<lparr>la_status := ''reclaimed'', la_reclaimed_at := Some now, la_reclaimed_by := Some approver\<rparr>
        else la) (it_assignments dm)"
    "length (filter (reclaimable ss ids) (it_assignments dm)) = length ids"
    using * by (auto simp: none insert_it_audits_Inr result_bind_Inr_iff split: if_splits)
qed

lemma reclaim_done_rows:
  assumes ex: "execute_reclaim ss dm action_id approver rv now = Inr (ids, dm')"
  shows "active_assignment dm' i \<longleftrightarrow>
     list_ex (\<lambda>la. la_id la = i \<and> la_status la = ''active'' \<and> \<not> reclaimable ss ids la) (it_assignments dm)"
  unfolding active_assignment_def execute_reclaim_Inr(5) [OF ex]
  by (rule list_ex_map_update) simp_all

lemma unique_row:
  assumes "distinct (map key rows)" "a \<in> set rows" "b \<in> set rows" "key a = key b"
  shows "a = b"
  using assms by (auto simp: distinct_map inj_on_def)

text \<open>
  When every counted row is unique and the counts agree, every listed id has its row: the row
  count check of the executors is exact.
\<close>

lemma count_covers_ids:
  assumes "distinct (map key rows)" and "length (filter P rows) = length ids"
    and "\<And>r. r \<in> set rows \<Longrightarrow> P r \<Longrightarrow> key r \<in> set ids" and "i \<in> set ids"
  shows "\<exists>r \<in> set rows. key r = i \<and> P r"
proof -
  have d: "distinct (map key (filter P rows))" using assms(1) by (rule distinct_map_filter)
  have sub: "set (map key (filter P rows)) \<subseteq> set ids" using assms(3) by auto
  have "card (set ids) \<le> length ids" by (rule card_length)
  also have "\<dots> = card (set (map key (filter P rows)))"
    using distinct_card [OF d] assms(2) by simp
  finally have "set (map key (filter P rows)) = set ids"
    using sub by (intro card_subset_eq) (auto intro: le_antisym card_mono)
  with assms(4) have "i \<in> set (map key (filter P rows))" by simp
  then obtain r where "r \<in> set (filter P rows)" "i = key r" by auto
  then show ?thesis by (intro bexI [of _ r]) simp_all
qed

lemma reclaim_reval_Inr:
  "hd_revalidate reclaim_handler ss dm ar ctx now = Inr rv \<Longrightarrow>
     \<exists>targets. persisted_target_ids ''license_assignment'' ar = Inr targets
       \<and> rv = collect_verdicts ReclaimUnusedLicense reclaim_skip_reason ''cross_scope''
                (reclaim_verdicts ss dm ar ctx now targets)"
  by (simp add: reclaim_handler_def revalidate_reclaim_Inr)

lemma reclaim_partitions:
  assumes "persisted_target_ids ty ar = Inr targets"
  shows "partitions targets (collect_verdicts k reason cross (reclaim_verdicts ss dm ar ctx now targets))"
proof (rule collect_verdicts_partitions)
  show "targets = map fst (reclaim_verdicts ss dm ar ctx now targets)"
    by (simp add: reclaim_verdicts_def comp_def)
  show "distinct targets" by (rule persisted_target_ids_props(1) [OF assms])
qed (rule reclaim_verdicts_execute(1))

lemma reclaim_reval_row:
  assumes "hd_revalidate reclaim_handler ss dm ar ctx now = Inr rv" and "r \<in> set (rv_executable rv)"
  shows "\<exists>la \<in> set (it_assignments dm). la_id la = ex_id r \<and> la_status la = ''active''
    \<and> scope_admits ss (Some (la_department_id la)) \<and> ex_department_id r = la_department_id la"
proof -
  obtain targets where rv: "rv = collect_verdicts ReclaimUnusedLicense reclaim_skip_reason ''cross_scope''
      (reclaim_verdicts ss dm ar ctx now targets)"
    using reclaim_reval_Inr [OF assms(1)] by blast
  with assms(2) obtain i where i: "(i, Execute r) \<in> set (reclaim_verdicts ss dm ar ctx now targets)"
    by (auto simp: verdict_records_iff)
  from reclaim_verdicts_execute [OF i] show ?thesis by simp
qed

lemma reclaim_exec_Inr:
  "hd_execute reclaim_handler ss dm ar approver rv now = Inr (ids, dm') \<Longrightarrow>
     execute_reclaim ss dm (ar_id ar) approver rv now = Inr (ids, dm')"
  by (simp add: reclaim_handler_def split: if_splits)

lemma reclaim_exec_done:
  assumes ex: "execute_reclaim ss dm action_id approver rv now = Inr (ids, dm')"
    and ok: "it_domain_ok dm" and i: "i \<in> set ids"
  shows "\<not> active_assignment dm' i"
proof
  assume "active_assignment dm' i"
  then obtain la where la: "la \<in> set (it_assignments dm)" "la_id la = i" "\<not> reclaimable ss ids la"
    by (auto simp: reclaim_done_rows [OF ex] list_ex_iff)
  have dist: "distinct (map la_id (it_assignments dm))" using ok by (simp add: it_domain_ok_def)
  obtain la' where "la' \<in> set (it_assignments dm)" "la_id la' = i" "reclaimable ss ids la'"
    using count_covers_ids [OF dist execute_reclaim_Inr(6) [OF ex] _ i] by (auto simp: reclaimable_def)
  with la unique_row [OF dist] show False by metis
qed

lemma reclaim_exec_frame:
  assumes ex: "execute_reclaim ss dm action_id approver rv now = Inr (ids, dm')" and i: "i \<notin> set ids"
  shows "active_assignment dm' i = active_assignment dm i"
proof -
  have "\<not> reclaimable ss ids la" if "la_id la = i" for la using i that by (simp add: reclaimable_def)
  then show ?thesis unfolding reclaim_done_rows [OF ex] unfolding active_assignment_def
    by (intro arg_cong2 [of _ _ _ _ list_ex] ext) auto
qed

lemma reclaim_exec_fresh:
  assumes R: "hd_revalidate reclaim_handler ss dm ar ctx now = Inr rv"
    and ses: "action_session ss approver" and ok: "it_domain_ok dm"
  shows "\<exists>dm'. hd_execute reclaim_handler ss dm ar approver rv now = Inr (map ex_id (rv_executable rv), dm')"
proof -
  let ?ids = "map ex_id (rv_executable rv)"
  obtain targets where t: "persisted_target_ids ''license_assignment'' ar = Inr targets"
    and rv: "rv = collect_verdicts ReclaimUnusedLicense reclaim_skip_reason ''cross_scope''
                    (reclaim_verdicts ss dm ar ctx now targets)"
    using reclaim_reval_Inr [OF R] by blast
  have dist: "distinct ?ids" using reclaim_partitions [OF t] unfolding rv partitions_def by blast
  have rows: "\<exists>la \<in> set (it_assignments dm). la_id la = i \<and> reclaimable ss ?ids la" if "i \<in> set ?ids" for i
    using that reclaim_reval_row [OF R] unfolding reclaimable_def by fastforce
  have len: "length (filter (reclaimable ss ?ids) (it_assignments dm)) = length ?ids"
    using ok rows dist by (intro length_filter_ids [where key = la_id])
      (simp_all add: it_domain_ok_def reclaimable_def)
  have "audit_insert_admitted ss (reclaim_audit (ar_id ar) approver now r)" if "r \<in> set (rv_executable rv)" for r
    using reclaim_reval_row [OF R that] ses
    by (auto simp: audit_insert_admitted_def reclaim_audit_def action_session_def)
  then have aud: "list_all (audit_insert_admitted ss)
      (map (reclaim_audit (ar_id ar) approver now) (rv_executable rv))"
    by (simp add: list_all_iff)
  have "rv_type rv = ReclaimUnusedLicense" by (simp add: rv)
  with len aud ses show ?thesis
    by (simp add: reclaim_handler_def execute_reclaim_def Let_def action_session_def insert_it_audits_def)
qed

interpretation reclaim_contract: approval_handler "hd_revalidate reclaim_handler"
  "hd_execute reclaim_handler" ReclaimUnusedLicense "''license_assignment''" active_assignment
proof (unfold_locales, goal_cases)
  case 1
  then show ?case using reclaim_reval_Inr reclaim_partitions by metis
next
  case 2
  then show ?case using reclaim_reval_Inr by fastforce
next
  case 3
  then show ?case using reclaim_reval_row [OF 3(1,2)] by (auto simp: active_assignment_def list_ex_iff)
next
  case 4
  from execute_reclaim_Inr(1,2) [OF reclaim_exec_Inr [OF this]] show ?case by simp
next
  case 5
  from execute_reclaim_Inr(1,3) [OF reclaim_exec_Inr [OF this]] show ?case
    by (auto simp: reclaim_audit_def comp_def)
next
  case 6
  then show ?case using reclaim_exec_done reclaim_exec_Inr by blast
next
  case 7
  then show ?case using reclaim_exec_frame reclaim_exec_Inr by blast
next
  case 8
  then show ?case by (rule reclaim_exec_fresh)
qed

section \<open>Disable\<close>

lemma disable_verdict_execute:
  assumes "disable_verdict ar ctx cutoff found = Execute r"
  shows "\<exists>row. found = Some row \<and> ex_id r = du_id (dr_user row)
    \<and> ex_department_id r = du_department_id (dr_user row)
    \<and> du_account_status (dr_user row) = ''active'' \<and> du_account_type (dr_user row) = ''human''"
  using assms by (auto simp: disable_verdict_def Let_def split: option.splits if_splits)

lemma disable_row_found:
  assumes "find_by (\<lambda>r. du_id (dr_user r)) i (disable_rows ss dm targets) = Some row"
  shows "dr_user row \<in> set (it_users dm)" "du_id (dr_user row) = i" "user_lockable ss (dr_user row)"
proof -
  have "row \<in> set (disable_rows ss dm targets)" "du_id (dr_user row) = i" using find_by_SomeD [OF assms] by auto
  then show "dr_user row \<in> set (it_users dm)" "du_id (dr_user row) = i" "user_lockable ss (dr_user row)"
    by (auto simp: disable_rows_def disable_row_of_def dest!: in_set_takeD)
qed

definition disable_verdicts ::
  "db_session \<Rightarrow> it_domain \<Rightarrow> action_request \<Rightarrow> user_access_context \<Rightarrow> instant \<Rightarrow> uuid list \<Rightarrow> (uuid \<times> verdict) list" where
  "disable_verdicts ss dm ar ctx now targets =
     map (\<lambda>i. (i, disable_verdict ar ctx (now - INACTIVITY_DAYS * MICROSECONDS_PER_DAY)
                     (find_by (\<lambda>r. du_id (dr_user r)) i (disable_rows ss dm targets)))) targets"

lemma disable_reval_Inr:
  "hd_revalidate disable_handler ss dm ar ctx now = Inr rv \<Longrightarrow>
     \<exists>targets. persisted_target_ids ''directory_user'' ar = Inr targets
       \<and> rv = collect_verdicts DisableInactiveUser disable_safe_reason ''cross_scope_target''
                (disable_verdicts ss dm ar ctx now targets)"
  by (auto simp: disable_handler_def revalidate_disable_targets_def result_bind_Inr_iff Let_def
      disable_verdicts_def)

lemma disable_verdicts_execute:
  assumes "(i, Execute r) \<in> set (disable_verdicts ss dm ar ctx now targets)"
  shows "ex_id r = i" and "\<exists>u \<in> set (it_users dm). du_id u = i \<and> du_account_status u = ''active''
    \<and> du_account_type u = ''human'' \<and> user_lockable ss u \<and> ex_department_id r = du_department_id u"
proof -
  from assms obtain row where row: "find_by (\<lambda>r. du_id (dr_user r)) i (disable_rows ss dm targets) = Some row"
    "ex_id r = du_id (dr_user row)" "ex_department_id r = du_department_id (dr_user row)"
    "du_account_status (dr_user row) = ''active''" "du_account_type (dr_user row) = ''human''"
    by (auto simp: disable_verdicts_def dest!: disable_verdict_execute [OF sym])
  with disable_row_found [OF row(1)] show "ex_id r = i"
    "\<exists>u \<in> set (it_users dm). du_id u = i \<and> du_account_status u = ''active''
      \<and> du_account_type u = ''human'' \<and> user_lockable ss u \<and> ex_department_id r = du_department_id u"
    by auto
qed

lemma disable_partitions:
  assumes "persisted_target_ids ty ar = Inr targets"
  shows "partitions targets (collect_verdicts k reason cross (disable_verdicts ss dm ar ctx now targets))"
proof (rule collect_verdicts_partitions)
  show "targets = map fst (disable_verdicts ss dm ar ctx now targets)"
    by (simp add: disable_verdicts_def comp_def)
  show "distinct targets" by (rule persisted_target_ids_props(1) [OF assms])
qed (rule disable_verdicts_execute(1))

definition active_account :: "it_domain \<Rightarrow> uuid \<Rightarrow> bool" where
  "active_account dm i \<longleftrightarrow> list_ex (\<lambda>u. du_id u = i \<and> du_account_status u = ''active'') (it_users dm)"

lemma disable_reval_row:
  assumes "hd_revalidate disable_handler ss dm ar ctx now = Inr rv" and "r \<in> set (rv_executable rv)"
  shows "\<exists>u \<in> set (it_users dm). du_id u = ex_id r \<and> du_account_status u = ''active''
    \<and> du_account_type u = ''human'' \<and> user_lockable ss u \<and> ex_department_id r = du_department_id u"
proof -
  obtain targets where rv: "rv = collect_verdicts DisableInactiveUser disable_safe_reason ''cross_scope_target''
      (disable_verdicts ss dm ar ctx now targets)"
    using disable_reval_Inr [OF assms(1)] by blast
  with assms(2) obtain i where i: "(i, Execute r) \<in> set (disable_verdicts ss dm ar ctx now targets)"
    by (auto simp: verdict_records_iff)
  from disable_verdicts_execute [OF i] show ?thesis by simp
qed

lemma disable_exec_Inr:
  "hd_execute disable_handler ss dm ar approver rv now = Inr (ids, dm') \<Longrightarrow>
     execute_disable ss dm (ar_id ar) approver rv now = Inr (ids, dm')"
  by (simp add: disable_handler_def split: if_splits)

lemma execute_disable_Inr:
  assumes "execute_disable ss dm action_id approver rv now = Inr (ids, dm')"
  shows "ids = map ex_id (rv_executable rv)" "secure_action_boundary ss"
    "it_audits dm' = it_audits dm @ map (disable_audit action_id approver now) (rv_executable rv)"
    "it_assignments dm' = it_assignments dm"
    "it_users dm' = map (\<lambda>u. if disableable ss ids u
        then u\<lparr>du_account_status := ''disabled'', du_updated_at := now\<rparr> else u) (it_users dm)"
    "length (filter (disableable ss ids) (it_users dm)) = length ids"
proof -
  have none: "disableable ss [] u = False" for u by (simp add: disableable_def)
  note * = assms [unfolded execute_disable_def Let_def]
  show "ids = map ex_id (rv_executable rv)" "secure_action_boundary ss"
    "it_audits dm' = it_audits dm @ map (disable_audit action_id approver now) (rv_executable rv)"
    "it_assignments dm' = it_assignments dm"
    "it_users dm' = map (\<lambda>u. if disableable ss ids u
        then u\<lparr>du_account_status := ''disabled'', du_updated_at := now\<rparr> else u) (it_users dm)"
    "length (filter (disableable ss ids) (it_users dm)) = length ids"
    using * by (auto simp: none insert_it_audits_Inr result_bind_Inr_iff split: if_splits)
qed

lemma disable_done_rows:
  assumes ex: "execute_disable ss dm action_id approver rv now = Inr (ids, dm')"
  shows "active_account dm' i \<longleftrightarrow>
     list_ex (\<lambda>u. du_id u = i \<and> du_account_status u = ''active'' \<and> \<not> disableable ss ids u) (it_users dm)"
  unfolding active_account_def execute_disable_Inr(5) [OF ex]
  by (rule list_ex_map_update) simp_all

lemma disable_exec_done:
  assumes ex: "execute_disable ss dm action_id approver rv now = Inr (ids, dm')"
    and ok: "it_domain_ok dm" and i: "i \<in> set ids"
  shows "\<not> active_account dm' i"
proof
  assume "active_account dm' i"
  then obtain u where u: "u \<in> set (it_users dm)" "du_id u = i" "\<not> disableable ss ids u"
    by (auto simp: disable_done_rows [OF ex] list_ex_iff)
  have dist: "distinct (map du_id (it_users dm))" using ok by (simp add: it_domain_ok_def)
  obtain u' where "u' \<in> set (it_users dm)" "du_id u' = i" "disableable ss ids u'"
    using count_covers_ids [OF dist execute_disable_Inr(6) [OF ex] _ i] by (auto simp: disableable_def)
  with u unique_row [OF dist] show False by metis
qed

lemma disable_exec_frame:
  assumes ex: "execute_disable ss dm action_id approver rv now = Inr (ids, dm')" and i: "i \<notin> set ids"
  shows "active_account dm' i = active_account dm i"
proof -
  have "\<not> disableable ss ids u" if "du_id u = i" for u using i that by (simp add: disableable_def)
  then show ?thesis unfolding disable_done_rows [OF ex] unfolding active_account_def
    by (intro arg_cong2 [of _ _ _ _ list_ex] ext) auto
qed

lemma disable_exec_fresh:
  assumes R: "hd_revalidate disable_handler ss dm ar ctx now = Inr rv"
    and ses: "action_session ss approver" and ok: "it_domain_ok dm"
  shows "\<exists>dm'. hd_execute disable_handler ss dm ar approver rv now = Inr (map ex_id (rv_executable rv), dm')"
proof -
  let ?ids = "map ex_id (rv_executable rv)"
  obtain targets where t: "persisted_target_ids ''directory_user'' ar = Inr targets"
    and rv: "rv = collect_verdicts DisableInactiveUser disable_safe_reason ''cross_scope_target''
                    (disable_verdicts ss dm ar ctx now targets)"
    using disable_reval_Inr [OF R] by blast
  have dist: "distinct ?ids" using disable_partitions [OF t] unfolding rv partitions_def by blast
  have rows: "\<exists>u \<in> set (it_users dm). du_id u = i \<and> disableable ss ?ids u" if "i \<in> set ?ids" for i
    using that disable_reval_row [OF R] unfolding disableable_def by fastforce
  have len: "length (filter (disableable ss ?ids) (it_users dm)) = length ?ids"
    using ok rows dist by (intro length_filter_ids [where key = du_id])
      (simp_all add: it_domain_ok_def disableable_def)
  have "audit_insert_admitted ss (disable_audit (ar_id ar) approver now r)" if "r \<in> set (rv_executable rv)" for r
    using disable_reval_row [OF R that] ses
    by (auto simp: audit_insert_admitted_def disable_audit_def action_session_def user_lockable_def)
  then have aud: "list_all (audit_insert_admitted ss)
      (map (disable_audit (ar_id ar) approver now) (rv_executable rv))"
    by (simp add: list_all_iff)
  have "rv_type rv = DisableInactiveUser" by (simp add: rv)
  with len aud ses show ?thesis
    by (simp add: disable_handler_def execute_disable_def Let_def action_session_def insert_it_audits_def)
qed

interpretation disable_contract: approval_handler "hd_revalidate disable_handler"
  "hd_execute disable_handler" DisableInactiveUser "''directory_user''" active_account
proof (unfold_locales, goal_cases)
  case 1
  then show ?case using disable_reval_Inr disable_partitions by metis
next
  case 2
  then show ?case using disable_reval_Inr by fastforce
next
  case 3
  then show ?case using disable_reval_row [OF 3(1,2)] by (auto simp: active_account_def list_ex_iff)
next
  case 4
  from execute_disable_Inr(1,2) [OF disable_exec_Inr [OF this]] show ?case by simp
next
  case 5
  from execute_disable_Inr(1,3) [OF disable_exec_Inr [OF this]] show ?case
    by (auto simp: disable_audit_def comp_def)
next
  case 6
  then show ?case using disable_exec_done disable_exec_Inr by blast
next
  case 7
  then show ?case using disable_exec_frame disable_exec_Inr by blast
next
  case 8
  then show ?case by (rule disable_exec_fresh)
qed

text \<open>
  Under the action role the locking query shows active human accounts only, so a row that is
  found is neither a service account nor disabled.
\<close>

lemma disable_row_under_role:
  assumes "find_by (\<lambda>r. du_id (dr_user r)) i (disable_rows ss dm targets) = Some row"
    and "under_action_role ss"
  shows "du_account_type (dr_user row) = ''human''" "du_account_status (dr_user row) = ''active''"
  using disable_row_found(3) [OF assms(1)] assms(2) by (simp_all add: user_lockable_def)

lemma disable_skip_codes:
  assumes R: "hd_revalidate disable_handler ss dm ar ctx now = Inr rv" and role: "under_action_role ss"
    and s: "s \<in> set (rv_skipped rv)"
  shows "sk_code s = ''record_not_found_or_not_authorized'' \<or> sk_code s = ''recent_successful_login''
    \<or> sk_code s = ''scope_unavailable''"
proof -
  obtain targets where "rv = collect_verdicts DisableInactiveUser disable_safe_reason ''cross_scope_target''
      (disable_verdicts ss dm ar ctx now targets)"
    using disable_reval_Inr [OF R] by blast
  with s obtain i c where c: "sk_code s = c"
    "disable_verdict ar ctx (now - INACTIVITY_DAYS * MICROSECONDS_PER_DAY)
       (find_by (\<lambda>r. du_id (dr_user r)) i (disable_rows ss dm targets)) = Skip c"
    by (auto simp: verdict_skips_iff disable_verdicts_def)
  show ?thesis
  proof (cases "find_by (\<lambda>r. du_id (dr_user r)) i (disable_rows ss dm targets)")
    case None
    with c show ?thesis by (simp add: disable_verdict_def)
  next
    case (Some row)
    with c disable_row_under_role [OF Some role] show ?thesis
      by (auto simp: disable_verdict_def Let_def split: if_splits option.splits)
  qed
qed

end
