(* ===== verification/Snapshot_Preservation.thy ===== *)
theory Snapshot_Preservation
  imports Approval_Lifecycle Handler_Contract
begin

text \<open>
  An action carries its preview through its whole life, and every reader checks the preview
  again. Here: what the lifecycle writes back into the documents (the flags of an escalation, the
  skips and counts of a completion) passes the same check.
\<close>

section \<open>Escalation\<close>

lemma flag_is_true_jset [simp]:
  "flag_is_true (jset k v d) k' = (if k' = k then v = JBool True else flag_is_true d k')"
  by (simp add: flag_is_true_def)

lemma checks_needs: "checks (map need bs) = Inr u \<longleftrightarrow> list_all (\<lambda>b. b) bs"
  by (auto simp: checks_map_ok list_all_iff)

text \<open>The parts of a snapshot an escalation leaves alone, and the one it changes.\<close>

lemma escalated_parts [simp]:
  "list_parts (escalated_action ar rv flags) = list_parts ar"
  "ar_preview_json (escalated_action ar rv flags) = ar_preview_json ar"
  "ar_skipped_records (escalated_action ar rv flags) = ar_skipped_records ar"
  "ar_action_type (escalated_action ar rv flags) = ar_action_type ar"
  "ar_record_count (escalated_action ar rv flags) = ar_record_count ar"
  "ar_skipped_count (escalated_action ar rv flags) = ar_skipped_count ar"
  "ar_scope_id (escalated_action ar rv flags) = ar_scope_id ar"
  "ar_scope_type (escalated_action ar rv flags) = ar_scope_type ar"
  "ar_access_context_snapshot (escalated_action ar rv flags) = ar_access_context_snapshot ar"
  "ar_access_decision_snapshot (escalated_action ar rv flags) = ar_access_decision_snapshot ar"
  "ar_requested_by (escalated_action ar rv flags) = ar_requested_by ar"
  "is_dict (ar_policy_flags (escalated_action ar rv flags))"
  "ar_requires_admin (escalated_action ar rv flags)"
  by (simp_all add: escalated_action_def list_parts_def)

lemma escalated_flags [simp]:
  "jget (ar_policy_flags (escalated_action ar rv flags)) ''flags'' = jget (ar_policy_flags ar) ''flags''"
  "jget (ar_policy_flags (escalated_action ar rv flags)) ''requires_admin''
     = jget (ar_policy_flags ar) ''requires_admin''"
  "jget (ar_policy_flags (escalated_action ar rv flags)) ''requires_policy_override''
     = jget (ar_policy_flags ar) ''requires_policy_override''"
  "jget (ar_policy_flags (escalated_action ar rv flags)) ''crosses_scopes''
     = jget (ar_policy_flags ar) ''crosses_scopes''"
  "flag_is_true (ar_policy_flags (escalated_action ar rv flags)) ''revalidation_requires_admin''"
  by (simp_all add: escalated_action_def)

lemma escalated_shape:
  assumes "snapshot_shape ar ty = Inr ()"
  shows "snapshot_shape (escalated_action ar rv flags) ty = Inr ()"
  using assms by (simp add: snapshot_shape_def Let_def)

lemma escalated_codes [simp]:
  "expected_flag_codes (escalated_action ar rv flags) ov n = expected_flag_codes ar ov n"
  by (simp add: expected_flag_codes_def)

lemma escalated_snapshot_flags:
  assumes "snapshot_flags ar = Inr ()"
  shows "snapshot_flags (escalated_action ar rv flags) = Inr ()"
  using assms by (simp add: snapshot_flags_def Let_def split: prod.splits)

lemma escalated_reclaim:
  assumes "validate_reclaim_snapshot ar = Inr ()"
  shows "validate_reclaim_snapshot (escalated_action ar rv flags) = Inr ()"
  using assms
  by (simp add: validate_reclaim_snapshot_def Let_def escalated_shape escalated_snapshot_flags
      split: prod.splits)

lemma escalated_access:
  "validate_disable_access_snapshots (escalated_action ar rv flags) tables
     = validate_disable_access_snapshots ar tables"
  by (simp add: validate_disable_access_snapshots_def)

lemma escalated_disable:
  assumes "validate_disable_snapshot ar = Inr ()"
  shows "validate_disable_snapshot (escalated_action ar rv flags) = Inr ()"
  using assms
  by (simp add: validate_disable_snapshot_def Let_def escalated_shape escalated_snapshot_flags
      expected_disable_counts_def escalated_access split: prod.splits)

lemma validate_action_cases:
  "validate_action_snapshot ar = Inr () \<longleftrightarrow>
     (\<exists>ty. supported_action_type_of (ar_action_type ar) = Some ty
        \<and> (case ty of ReclaimUnusedLicense \<Rightarrow> validate_reclaim_snapshot ar
                     | DisableInactiveUser \<Rightarrow> validate_disable_snapshot ar) = Inr ())"
  by (auto simp: validate_action_snapshot_def split: option.splits supported_action_type.splits)

lemma escalated_snapshot:
  assumes "validate_action_snapshot ar = Inr ()"
  shows "validate_action_snapshot (escalated_action ar rv flags) = Inr ()"
  using assms
  by (auto simp: validate_action_cases escalated_reclaim escalated_disable
      split: supported_action_type.splits)

section \<open>Completion\<close>

text \<open>The list of skips a completion stores is the old list followed by the new skips.\<close>

lemma completed_parts:
  "list_parts (completed_action en ar rv)
     = (fst (list_parts ar), fst (snd (list_parts ar)), prior_skips ar @ current_skips rv)"
  by (simp add: list_parts_def completed_action_def completed_skips_def)

lemma list_parts_prior: "snd (snd (list_parts ar)) = prior_skips ar"
  by (simp add: list_parts_def prior_skips_def)

lemma completed_fields [simp]:
  "ar_policy_flags (completed_action en ar rv) = ar_policy_flags ar"
  "ar_action_type (completed_action en ar rv) = ar_action_type ar"
  "ar_record_count (completed_action en ar rv) = ar_record_count ar"
  "ar_skipped_count (completed_action en ar rv) = int (length (prior_skips ar @ current_skips rv))"
  "ar_scope_id (completed_action en ar rv) = ar_scope_id ar"
  "ar_scope_type (completed_action en ar rv) = ar_scope_type ar"
  "ar_access_context_snapshot (completed_action en ar rv) = ar_access_context_snapshot ar"
  "ar_access_decision_snapshot (completed_action en ar rv) = ar_access_decision_snapshot ar"
  "ar_requested_by (completed_action en ar rv) = ar_requested_by ar"
  "ar_requires_admin (completed_action en ar rv) = ar_requires_admin ar"
  "k \<noteq> ''summary'' \<Longrightarrow> jget (ar_preview_json (completed_action en ar rv)) k = jget (ar_preview_json ar) k"
  "is_dict (ar_preview_json (completed_action en ar rv))"
  "is_dict (ar_skipped_records (completed_action en ar rv))"
  "jget (ar_skipped_records (completed_action en ar rv)) ''records''
     = JList (prior_skips ar @ current_skips rv)"
  "jget (ar_preview_json (completed_action en ar rv)) ''summary'' = completed_summary ar rv"
  by (simp_all add: completed_action_def completed_skips_def)

lemma jget_set_if_present:
  "jget (set_if_present k v d) k'
     = (if k' = k \<and> k \<in> fst ` set (dict_items d) then v else jget d k')"
  by (simp add: set_if_present_def)

lemma present_iff: "jget d k \<noteq> JNull \<Longrightarrow> k \<in> fst ` set (dict_items d)"
  by (cases d) (auto split: option.splits dest: map_of_SomeD intro: rev_image_eqI)

lemma set_if_present_dict: "is_dict d \<Longrightarrow> is_dict (set_if_present k v d)"
  by (simp add: set_if_present_def)

lemma completed_summary_dict [simp]: "is_dict (completed_summary ar rv)"
  by (simp add: completed_summary_def Let_def set_if_present_dict)

lemma completed_shape:
  assumes "snapshot_shape ar ty = Inr ()"
  shows "snapshot_shape (completed_action en ar rv) ty = Inr ()"
  using assms by (simp add: snapshot_shape_def Let_def)

lemma completed_codes [simp]:
  "expected_flag_codes (completed_action en ar rv) ov n = expected_flag_codes ar ov n"
  by (simp add: expected_flag_codes_def)

lemma completed_snapshot_flags:
  "snapshot_flags (completed_action en ar rv) = snapshot_flags ar"
  by (simp add: snapshot_flags_def Let_def completed_parts split: prod.splits)

text \<open>\<open>_skip_counts\<close> writes a valid exclusion list that counts every code once.\<close>

lemma skip_counts_exclusions: "validate_exclusions (skip_counts records) = Inr ()"
  by (auto simp: validate_exclusions_def skip_counts_def Let_def list_all_iff exclusion_ok_def count_int_def)

lemma skip_counts_match:
  assumes "expected = map (\<lambda>r. jstr (jget r ''reason_code''))
             (filter (\<lambda>r. is_str (jget r ''reason_code'')) records)"
  shows "exclusions_match (exclusion_pairs (skip_counts records)) expected"
  by (simp add: exclusions_match_def exclusion_pairs_def skip_counts_def Let_def comp_def assms[symmetric]
      list_all_iff)

text \<open>A new skip is a valid record of its type.\<close>

lemma reclaim_reason_nonempty: "reclaim_skip_reason c \<noteq> []"
  by (simp add: reclaim_skip_reason_def)

lemma disable_reason_nonempty: "disable_safe_reason c \<noteq> []"
  by (simp add: disable_safe_reason_def)

definition skip_ok :: "skipped_record \<Rightarrow> bool" where
  "skip_ok s \<longleftrightarrow> parse_uuid (sk_id s) \<noteq> None \<and> sk_code s \<noteq> [] \<and> sk_reason s \<noteq> []"

lemma reclaim_skip_valid:
  assumes "skip_ok s"
  shows "validate_record (skip_as_dict ReclaimUnusedLicense s) False False = Inr ()"
  using assms
  by (simp add: validate_record_def Let_def skip_as_dict_def in_str_set_def skip_ok_def
      validated_uuid_def nonempty_str_def none_or_str_def skip_scope_def)

lemma disable_skip_valid:
  assumes "skip_ok s"
  shows "validate_disable_record (skip_as_dict DisableInactiveUser s) False False = Inr ()"
  using assms
  by (simp add: validate_disable_record_def Let_def skip_as_dict_def skip_ok_def
      validated_uuid_def nonempty_str_def none_or_str_def skip_scope_def)


lemma persisted_target_uuid:
  assumes "persisted_target_ids ty ar = Inr targets" and "i \<in> set targets"
  shows "parse_uuid i \<noteq> None"
proof -
  have "i \<in> set us \<Longrightarrow> parse_uuid i \<noteq> None" if "traverse record_uuid rs = Inr us" for rs us
    using that
  proof (induction rs arbitrary: us)
    case (Cons r rs)
    then obtain u vs where "record_uuid r = Inr u" "traverse record_uuid rs = Inr vs" "us = u # vs"
      by (auto simp: result_bind_Inr_iff)
    moreover from this(1) have "parse_uuid u \<noteq> None"
      by (auto simp: record_uuid_def validated_uuid_def is_uuid_def
          dest!: parse_uuid_canonical split: option.splits json.splits)
    ultimately show ?case using Cons by auto
  qed simp
  with assms show ?thesis
    by (auto simp: persisted_target_ids_def Let_def result_bind_Inr_iff split: prod.splits if_splits)
qed

lemma skips_of_targets:
  assumes "persisted_target_ids ty ar = Inr targets" and "s \<in> set (verdict_skips reason vs)"
    and "map fst vs = targets" and "\<And>i c. (i, Skip c) \<in> set vs \<Longrightarrow> c \<noteq> []" and "\<And>c. reason c \<noteq> []"
  shows "skip_ok s"
proof -
  obtain i c where s: "(i, Skip c) \<in> set vs" "s = \<lparr>sk_id = i, sk_code = c, sk_reason = reason c\<rparr>"
    using assms(2) by (auto simp: verdict_skips_iff)
  then have "i \<in> set targets" using assms(3) by force
  with s assms(4,5) persisted_target_uuid [OF assms(1)] show ?thesis by (auto simp: skip_ok_def)
qed

lemma reclaim_verdict_skip: "reclaim_verdict ar ctx cutoff found = Skip c \<Longrightarrow> c \<noteq> []"
  by (auto simp: reclaim_verdict_def Let_def split: option.splits if_splits)

lemma disable_verdict_skip: "disable_verdict ar ctx cutoff found = Skip c \<Longrightarrow> c \<noteq> []"
  by (auto simp: disable_verdict_def Let_def split: option.splits if_splits)

lemma reclaim_reval_skips:
  assumes "hd_revalidate reclaim_handler ss dm ar ctx now = Inr rv" and "s \<in> set (rv_skipped rv)"
  shows "skip_ok s"
proof -
  obtain targets where t: "persisted_target_ids ''license_assignment'' ar = Inr targets"
    and rv: "rv = collect_verdicts ReclaimUnusedLicense reclaim_skip_reason ''cross_scope''
                    (reclaim_verdicts ss dm ar ctx now targets)"
    using reclaim_reval_Inr [OF assms(1)] by blast
  show ?thesis
  proof (rule skips_of_targets [OF t])
    show "s \<in> set (verdict_skips reclaim_skip_reason (reclaim_verdicts ss dm ar ctx now targets))"
      using assms(2) rv by simp
  qed (auto simp: reclaim_verdicts_def comp_def reclaim_reason_nonempty dest: reclaim_verdict_skip [OF sym])
qed

lemma disable_reval_skips:
  assumes "hd_revalidate disable_handler ss dm ar ctx now = Inr rv" and "s \<in> set (rv_skipped rv)"
  shows "skip_ok s"
proof -
  obtain targets where t: "persisted_target_ids ''directory_user'' ar = Inr targets"
    and rv: "rv = collect_verdicts DisableInactiveUser disable_safe_reason ''cross_scope_target''
                    (disable_verdicts ss dm ar ctx now targets)"
    using disable_reval_Inr [OF assms(1)] by blast
  show ?thesis
  proof (rule skips_of_targets [OF t])
    show "s \<in> set (verdict_skips disable_safe_reason (disable_verdicts ss dm ar ctx now targets))"
      using assms(2) rv by simp
  qed (auto simp: disable_verdicts_def comp_def disable_reason_nonempty dest: disable_verdict_skip [OF sym])
qed

lemma keys_jset: "fst ` set (dict_items (jset k v d)) = insert k (fst ` set (dict_items d))"
  by (simp add: jset_def fst_dict_set)

lemma completed_exclusions:
  "jget (ar_skipped_records (completed_action en ar rv)) ''exclusions_by_reason''
     = skip_counts (prior_skips ar @ current_skips rv @ override_reason_records ar)"
  by (simp add: completed_action_def completed_skips_def)

lemma completed_summary_get:
  "jget (completed_summary ar rv) k =
    (if k = ''skipped_count'' then JInt (int (length (prior_skips ar @ current_skips rv)))
     else if k = ''recent_login_skipped_count'' \<and> k \<in> fst ` set (dict_items (jget (ar_preview_json ar) ''summary''))
     then JInt (count_code ''recent_successful_login'' (prior_skips ar @ current_skips rv))
     else if k = ''service_accounts_excluded_count'' \<and> k \<in> fst ` set (dict_items (jget (ar_preview_json ar) ''summary''))
     then JInt (count_code ''service_account_excluded'' (prior_skips ar @ current_skips rv))
     else jget (jget (ar_preview_json ar) ''summary'') k)"
  by (cases "k = ''recent_login_skipped_count''"; cases "k = ''service_accounts_excluded_count''")
     (simp_all add: completed_summary_def Let_def jget_set_if_present set_if_present_def keys_jset)

lemma checks_append [simp]: "checks (xs @ ys) = Inr u \<longleftrightarrow> checks xs = Inr () \<and> checks ys = Inr ()"
  by (simp add: checks_Inr_iff)

lemma completed_reclaim:
  assumes "validate_reclaim_snapshot ar = Inr ()" and "rv_type rv = ReclaimUnusedLicense"
    and "\<And>s. s \<in> set (rv_skipped rv) \<Longrightarrow> skip_ok s"
  shows "validate_reclaim_snapshot (completed_action en ar rv) = Inr ()"
proof -
  obtain el ov sk where parts: "list_parts ar = (el, ov, sk)" by (cases "list_parts ar") auto
  have sk: "sk = prior_skips ar" using list_parts_prior [of ar] parts by simp
  have cur: "\<forall>r \<in> set (current_skips rv). validate_record r False False = Inr ()"
    using assms(2,3) by (auto simp: current_skips_def reclaim_skip_valid)
  show ?thesis
    using assms(1) cur
    by (simp add: validate_reclaim_snapshot_def Let_def parts completed_parts completed_shape
        completed_snapshot_flags completed_summary_get sk checks_map_ok validate_summary_def count_int_def
        completed_exclusions skip_counts_exclusions ball_Un)
qed


text \<open>For a disable action the counts by reason are part of the check.\<close>

lemma disable_record_reason:
  "validate_disable_record r a b = Inr () \<Longrightarrow> is_str (jget r ''reason_code'')"
  "validate_disable_record r a True = Inr () \<Longrightarrow> is_dict r"
  "validate_disable_record r a True = Inr () \<Longrightarrow> list_all is_str (jlist (jget r ''override_reason_codes''))"
  by (auto simp: validate_disable_record_def Let_def nonempty_str_def override_codes_ok_def list_all_iff)

lemma override_reason_codes_all:
  assumes "\<forall>r \<in> set ov. is_dict r \<and> list_all is_str (jlist (jget r ''override_reason_codes''))"
    and "jlist (jget (ar_preview_json ar) ''override_required_records'') = ov"
  shows "map (\<lambda>r. jstr (jget r ''reason_code''))
           (filter (\<lambda>r. is_str (jget r ''reason_code'')) (override_reason_records ar)) = all_override_codes ov"
proof -
  have str: "filter is_str cs = cs" if "list_all is_str cs" for cs
    using that by (simp add: list_all_iff filter_id_conv)
  have single: "filter (\<lambda>r. is_str (jget r ''reason_code'')) (map (\<lambda>c. JDict [(''reason_code'', c)]) cs)
      = map (\<lambda>c. JDict [(''reason_code'', c)]) (filter is_str cs)" for cs
    by (simp add: filter_map comp_def)
  have "filter is_dict ov = ov" using assms(1) by (simp add: filter_id_conv)
  moreover have "concat (map (\<lambda>r. map (\<lambda>c. JDict [(''reason_code'', c)])
        (filter is_str (jlist (jget r ''override_reason_codes'')))) ov)
      = concat (map (\<lambda>r. map (\<lambda>c. JDict [(''reason_code'', c)]) (jlist (jget r ''override_reason_codes''))) ov)"
    using assms(1) str by (intro arg_cong [where f = concat] map_cong) auto
  ultimately show ?thesis
    using assms(1)
    by (simp add: override_reason_records_def assms(2) filter_concat map_concat comp_def single str
        all_override_codes_def record_override_codes_def cong: map_cong)
qed

lemma completed_counts:
  assumes "list_all (\<lambda>(k, n). strict_int (jget (jget (ar_preview_json ar) ''summary'') k) = Some n)
             (expected_disable_counts ar)"
  shows "list_all (\<lambda>(k, n). strict_int (jget (completed_summary ar rv) k) = Some n)
           (expected_disable_counts (completed_action en ar rv))"
proof -
  obtain el ov sk where parts: "list_parts ar = (el, ov, sk)" by (cases "list_parts ar") auto
  have sk: "sk = prior_skips ar" using list_parts_prior [of ar] parts by simp
  let ?d = "jget (ar_preview_json ar) ''summary''"
  have present: "k \<in> fst ` set (dict_items ?d)" if "jget ?d k = JInt n" for k n
    using present_iff [of ?d k] that by simp
  show ?thesis
    using assms present [of "''recent_login_skipped_count''"]
      present [of "''service_accounts_excluded_count''"]
    by (simp add: expected_disable_counts_def parts completed_parts completed_summary_get sk)
qed

lemma completed_disable:
  assumes "validate_disable_snapshot ar = Inr ()" and "rv_type rv = DisableInactiveUser"
    and "\<And>s. s \<in> set (rv_skipped rv) \<Longrightarrow> skip_ok s"
  shows "validate_disable_snapshot (completed_action en ar rv) = Inr ()"
proof -
  obtain el ov sk where parts: "list_parts ar = (el, ov, sk)" by (cases "list_parts ar") auto
  have sk: "sk = prior_skips ar" using list_parts_prior [of ar] parts by simp
  have ov: "jlist (jget (ar_preview_json ar) ''override_required_records'') = ov"
    using parts by (simp add: list_parts_def)
  have cur: "\<forall>r \<in> set (current_skips rv). validate_disable_record r False False = Inr ()"
    using assms(2,3) by (auto simp: current_skips_def disable_skip_valid)
  have prior: "\<forall>r \<in> set (prior_skips ar). validate_disable_record r False False = Inr ()"
    and over: "\<forall>r \<in> set ov. validate_disable_record r True True = Inr ()"
    using assms(1) by (simp_all add: validate_disable_snapshot_def Let_def parts sk checks_map_ok)
  have codes: "\<forall>r \<in> set (prior_skips ar @ current_skips rv). is_str (jget r ''reason_code'')"
    using cur prior disable_record_reason(1) by auto
  have "exclusions_match (exclusion_pairs (skip_counts (prior_skips ar @ current_skips rv @ override_reason_records ar)))
          (expected_exclusions (prior_skips ar @ current_skips rv) ov)"
  proof (rule skip_counts_match)
    have "filter (\<lambda>r. is_str (jget r ''reason_code'')) (prior_skips ar) = prior_skips ar"
      "filter (\<lambda>r. is_str (jget r ''reason_code'')) (current_skips rv) = current_skips rv"
      using codes by (simp_all add: filter_id_conv)
    moreover have "map (\<lambda>r. jstr (jget r ''reason_code''))
        (filter (\<lambda>r. is_str (jget r ''reason_code'')) (override_reason_records ar)) = all_override_codes ov"
      using over disable_record_reason(2,3) ov by (intro override_reason_codes_all) blast+
    ultimately show "expected_exclusions (prior_skips ar @ current_skips rv) ov
        = map (\<lambda>r. jstr (jget r ''reason_code''))
            (filter (\<lambda>r. is_str (jget r ''reason_code''))
              (prior_skips ar @ current_skips rv @ override_reason_records ar))"
      by (simp add: expected_exclusions_def)
  qed
  then have "validate_disable_exclusions
      (jget (ar_skipped_records (completed_action en ar rv)) ''exclusions_by_reason'')
      (expected_exclusions (prior_skips ar @ current_skips rv) ov) = Inr ()"
    by (simp add: validate_disable_exclusions_def completed_exclusions skip_counts_exclusions)
  moreover have "validate_disable_access_snapshots (completed_action en ar rv) tables
      = validate_disable_access_snapshots ar tables" for tables
    by (simp add: validate_disable_access_snapshots_def)
  moreover have "list_all (\<lambda>(k, n). strict_int (jget (completed_summary ar rv) k) = Some n)
      (expected_disable_counts (completed_action en ar rv))"
    using assms(1) by (intro completed_counts) (simp add: validate_disable_snapshot_def Let_def parts)
  ultimately show ?thesis
    using assms(1) cur
    by (simp add: validate_disable_snapshot_def Let_def parts completed_parts completed_shape
        completed_snapshot_flags sk checks_map_ok ball_Un cong: option.case_cong)
qed

section \<open>Handlers of the default registry\<close>

lemma default_registry_handlers:
  assumes "build_default_action_registry = Inr reg" and "registry_get reg action_type = Some h"
  shows "h = reclaim_handler \<and> action_type = ''reclaim_unused_license''
    \<or> h = disable_handler \<and> action_type = ''disable_inactive_user''"
proof -
  have "reg = (\<lambda>ty. case ty of ReclaimUnusedLicense \<Rightarrow> Some reclaim_handler
                        | DisableInactiveUser \<Rightarrow> Some disable_handler)"
    using assms(1)
    by (auto simp: build_default_action_registry_def register_handler_def reclaim_handler_def disable_handler_def
        supported_action_type_of_def fun_eq_iff split: supported_action_type.splits if_splits)
  with assms(2) show ?thesis
    by (auto simp: registry_get_def supported_action_type_of_def
        split: option.splits if_splits supported_action_type.splits)
qed

lemma completed_snapshot:
  assumes reg: "build_default_action_registry = Inr reg" "registry_get reg (ar_action_type ar) = Some h"
    and rv: "hd_revalidate h ss dm ar ctx now = Inr rv" and ok: "validate_action_snapshot ar = Inr ()"
  shows "validate_action_snapshot (completed_action en ar rv) = Inr ()"
  using default_registry_handlers [OF reg]
proof
  assume h: "h = reclaim_handler \<and> ar_action_type ar = ''reclaim_unused_license''"
  then have "validate_reclaim_snapshot ar = Inr ()"
    using ok by (simp add: validate_action_snapshot_def supported_action_type_of_def)
  then have "validate_reclaim_snapshot (completed_action en ar rv) = Inr ()"
    using h rv reclaim_contract.reval_kind reclaim_reval_skips by (intro completed_reclaim) blast+
  with h show ?thesis by (simp add: validate_action_snapshot_def supported_action_type_of_def)
next
  assume h: "h = disable_handler \<and> ar_action_type ar = ''disable_inactive_user''"
  then have "validate_disable_snapshot ar = Inr ()"
    using ok by (simp add: validate_action_snapshot_def supported_action_type_of_def)
  then have "validate_disable_snapshot (completed_action en ar rv) = Inr ()"
    using h rv disable_contract.reval_kind disable_reval_skips by (intro completed_disable) blast+
  with h show ?thesis by (simp add: validate_action_snapshot_def supported_action_type_of_def)
qed

end
