(* ===== verification/Action_Examples.thy ===== *)
theory Action_Examples
  imports Snapshot_Preservation
begin

text \<open>
  One small store on which the guarantees of the action engine are instantiated: an analyst of
  a department asks to reclaim one unused license, and an approver of the department decides.
\<close>

definition example_uuid :: "char \<Rightarrow> uuid" where
  "example_uuid c = ''00000000-0000-0000-0000-00000000000'' @ [c]"

definition requester_id :: uuid where "requester_id = example_uuid CHR ''1''"
definition approver_id :: uuid where "approver_id = example_uuid CHR ''2''"
definition department_id :: uuid where "department_id = example_uuid CHR ''3''"
definition scope_id :: uuid where "scope_id = example_uuid CHR ''4''"
definition assignment_id :: uuid where "assignment_id = example_uuid CHR ''5''"
definition holder_id :: uuid where "holder_id = example_uuid CHR ''6''"
definition license_id :: uuid where "license_id = example_uuid CHR ''7''"
definition request_id :: uuid where "request_id = example_uuid CHR ''8''"
definition approval_id :: uuid where "approval_id = example_uuid CHR ''9''"

definition example_user :: "uuid \<Rightarrow> app_user" where
  "example_user i =
     \<lparr>au_id = i, au_role_id = Some ''r'', au_status = ''active'', au_auth_provider = ''dev'',
      au_full_name = ''n'', au_email = ''e'', au_department_id = Some department_id\<rparr>"

definition example_auth :: auth_tables where
  "example_auth =
     \<lparr>at_users = [example_user requester_id, example_user approver_id],
      at_roles = [\<lparr>ro_id = ''r'', ro_name = ''analyst''\<rparr>],
      at_permissions = [\<lparr>pm_id = ''p'', pm_key = ''can_request_action''\<rparr>,
                        \<lparr>pm_id = ''q'', pm_key = ''can_approve_scoped_action''\<rparr>],
      at_role_permissions = [\<lparr>rp_role_id = ''r'', rp_permission_id = ''p''\<rparr>,
                             \<lparr>rp_role_id = ''r'', rp_permission_id = ''q''\<rparr>],
      at_user_permissions = [],
      at_scopes = [\<lparr>as_id = scope_id, as_scope_type = ''department'', as_scope_key = ''it'',
                    as_display_name = ''IT'', as_department_id = Some department_id\<rparr>],
      at_user_scopes =
        [\<lparr>us_user_id = requester_id, us_scope_id = scope_id, us_access_level = ''read'', us_is_default = True\<rparr>,
         \<lparr>us_user_id = approver_id, us_scope_id = scope_id, us_access_level = ''read'', us_is_default = True\<rparr>]\<rparr>"

definition example_domain :: it_domain where
  "example_domain =
     \<lparr>it_licenses = [\<lparr>li_id = license_id, li_product_name = ''p'', li_vendor = ''v'',
                     li_monthly_cost_usd = 12\<rparr>],
      it_users = [\<lparr>du_id = holder_id, du_full_name = ''h'', du_department_id = department_id,
                   du_account_type = ''human'', du_account_status = ''active'',
                   du_last_login_at = None, du_updated_at = 0\<rparr>],
      it_assignments = [\<lparr>la_id = assignment_id, la_user_id = holder_id, la_license_id = license_id,
                         la_department_id = department_id, la_last_used_at = None, la_status = ''active'',
                         la_is_mandatory = False, la_is_exception = False, la_reclaimed_at = None,
                         la_reclaimed_by = None\<rparr>],
      it_logins = [], it_groups = [], it_memberships = [], it_security = [], it_audits = []\<rparr>"

definition example_record :: json where
  "example_record = JDict
     [(''record_type'', JStr ''license_assignment''), (''record_id'', JStr assignment_id),
      (''license_assignment_id'', JStr assignment_id),
      (''scope'', JDict [(''id'', JStr scope_id), (''type'', JStr ''department''), (''key'', JStr ''it'')]),
      (''user_display_label'', JStr ''h''), (''license_product'', JStr ''p''), (''license_vendor'', JStr ''v''),
      (''last_used_at'', JNull), (''monthly_cost_usd'', JStr ''12.00''),
      (''reason_code'', JStr ''no_recorded_usage''), (''reason'', JStr ''No license usage is recorded.''),
      (''high_confidence'', JBool True)]"

definition example_action :: action_request where
  "example_action =
     \<lparr>ar_id = request_id, ar_action_type = ''reclaim_unused_license'', ar_requested_by = requester_id,
      ar_source_query_run_id = None, ar_department_id = Some department_id, ar_scope_id = Some scope_id,
      ar_scope_type = Some ''department'', ar_scope_key = Some ''it'',
      ar_access_context_snapshot = JDict [], ar_access_decision_snapshot = JDict [],
      ar_preview_json = JDict
        [(''schema_version'', JInt 1), (''action_type'', JStr ''reclaim_unused_license''),
         (''summary'', JDict
            [(''affected_license_assignment_count'', JInt 1), (''affected_user_count'', JInt 1),
             (''normal_eligible_count'', JInt 1), (''skipped_count'', JInt 0),
             (''override_required_count'', JInt 0), (''high_confidence_count'', JInt 1),
             (''estimated_monthly_savings'', JStr ''12.00''),
             (''override_estimated_monthly_savings'', JStr ''0.00'')]),
         (''eligible_records'', JList [example_record]), (''override_required_records'', JList [])],
      ar_policy_flags = JDict
        [(''flags'', JList []), (''requires_admin'', JBool False),
         (''requires_policy_override'', JBool False), (''crosses_scopes'', JBool False)],
      ar_skipped_records = JDict [(''records'', JList []), (''exclusions_by_reason'', JList [])],
      ar_status = PendingApproval, ar_priority = ''normal'', ar_reason = Some ''unused'',
      ar_requires_admin = False, ar_record_count = 1, ar_skipped_count = 0, ar_idempotency_key = ''k'',
      ar_failure_user_safe = None, ar_failure_internal = None, ar_created_at = 0,
      ar_preview_generated_at = Some 0, ar_preview_expires_at = Some 50, ar_submitted_at = Some 10,
      ar_approved_at = None, ar_executed_at = None, ar_completed_at = None, ar_expires_at = Some 100\<rparr>"

definition example_approval :: approval_request where
  "example_approval =
     \<lparr>ap_id = approval_id, ap_requester = Some requester_id, ap_decided_by = None,
      ap_action_request_id = Some request_id, ap_request_type = ''reclaim_unused_license'',
      ap_title = ''t'', ap_description = Some ''unused'', ap_status = ApPending, ap_payload = JDict [],
      ap_policy_snapshot = JDict [], ap_decision_reason = None, ap_decided_at = None,
      ap_required_approver_role = Some ''analyst_or_admin'', ap_expires_at = Some 100\<rparr>"

definition example_actions :: action_store where
  "example_actions =
     \<lparr>st_actions = [example_action], st_approvals = [example_approval], st_audits = [],
      st_notifications = [], st_auth = example_auth, st_domain = example_domain\<rparr>"

definition default_registry :: action_registry where
  "default_registry =
     (case build_default_action_registry of Inl _ \<Rightarrow> (\<lambda>_. None) | Inr reg \<Rightarrow> reg)"

definition example_env :: "uuid \<Rightarrow> instant \<Rightarrow> action_env" where
  "example_env user now =
     \<lparr>en_user = example_user user, en_now = now, en_scope_order = (\<lambda>xs. xs),
      en_new_id = (\<lambda>_. example_uuid CHR ''a''), en_commit = Committed, en_failure_commit = Committed,
      en_session = \<lparr>ss_role = ''app'', ss_login_role = ''app'', ss_read_only = False,
                    ss_row_security = True, ss_settings = (\<lambda>_. None)\<rparr>,
      en_registry = default_registry, en_fault = (\<lambda>_. False), en_concurrent = (\<lambda>dm. dm)\<rparr>"

section \<open>The stored preview is valid\<close>

lemma example_parses [simp]:
  "parse_uuid assignment_id = Some assignment_id" "parse_uuid scope_id = Some scope_id"
  by code_simp+
lemma example_money [simp]: "parse_decimal ''12.00'' = Some (DecFinite False 1200 (-2))" "parse_decimal ''0.00'' = Some (DecFinite False 0 (-2))" by code_simp+

lemma example_fields [simp]:
  "ar_id example_action = request_id" "ar_action_type example_action = ''reclaim_unused_license''"
  "ar_requested_by example_action = requester_id" "ar_department_id example_action = Some department_id"
  "ar_scope_type example_action = Some ''department''" "ar_scope_key example_action = Some ''it''"
  "ar_status example_action = PendingApproval" "ar_record_count example_action = 1"
  "ar_skipped_count example_action = 0" "ar_requires_admin example_action = False"
  "ar_expires_at example_action = Some 100" "ar_scope_id example_action = Some scope_id"
  "list_parts example_action = ([example_record], [], [])"
  "ar_policy_flags example_action =  JDict
        [(''flags'', JList []), (''requires_admin'', JBool False),
         (''requires_policy_override'', JBool False), (''crosses_scopes'', JBool False)]"
  "ar_skipped_records example_action = JDict [(''records'', JList []), (''exclusions_by_reason'', JList [])]"
  by (simp_all add: example_action_def list_parts_def)

lemma example_record_valid: "validate_record example_record True False = Inr ()"
  by (simp add: validate_record_def example_record_def Let_def in_str_set_def validated_uuid_def nonempty_str_def none_or_str_def money_text_ok_def)
lemma example_flags_valid: "snapshot_flags example_action = Inr ()" 
  by (simp add: snapshot_flags_def Let_def expected_flag_codes_def all_override_codes_def validate_policy_flags_def flag_codes_def flag_is_true_def)
lemma example_sums: "sum_money [example_record] = 12" "sum_money [] = 0" 
  by (simp_all add: sum_money_def example_record_def decimal_of_def dec_add_def round28_def ndigits.simps ten_to_def)
lemma example_shape: "snapshot_shape example_action ReclaimUnusedLicense = Inr ()"
  by (simp add: snapshot_shape_def Let_def) (simp add: example_action_def)
lemma example_summary_valid: "validate_summary (jget (ar_preview_json example_action) ''summary'') 1 = Inr ()"
  by (simp add: validate_summary_def example_action_def count_int_def money_text_ok_def)
lemma example_snapshot: "validate_reclaim_snapshot example_action = Inr ()"
  by (simp add: validate_reclaim_snapshot_def Let_def example_record_valid example_flags_valid example_sums
      example_shape example_summary_valid validate_exclusions_def)
     (simp add: example_action_def high_confidence_total_def example_record_def flag_is_true_def
      decimal_of_def ten_to_def)
lemma example_targets: "persisted_target_ids ''license_assignment'' example_action = Inr [assignment_id]"
  by (simp add: persisted_target_ids_def record_uuid_def) (simp add: example_record_def validated_uuid_def sorted_set_def)


section \<open>A disable request\<close>

definition disable_record :: json where
  "disable_record = JDict
     [(''record_type'', JStr ''directory_user''), (''record_id'', JStr holder_id),
      (''directory_user_id'', JStr holder_id),
      (''scope'', JDict [(''id'', JStr scope_id), (''type'', JStr ''department''), (''key'', JStr ''it'')]),
      (''user_display_label'', JStr ''h''), (''last_successful_login_at'', JNull),
      (''reason_code'', JStr ''inactive_human_user''), (''reason'', JStr ''r'')]"

definition disable_resource :: "string \<Rightarrow> json" where
  "disable_resource t = JDict
     [(''table_name'', JStr t), (''display_name'', JStr t), (''sensitivity_level'', JStr ''internal'')]"

definition disable_grant :: "string \<Rightarrow> json" where
  "disable_grant t = JDict
     [(''table_name'', JStr t), (''allowed'', JBool True),
      (''required_permission'', JStr ''can_request_action''), (''matched_scopes'', JList [])]"

definition example_disable_preview :: json where
  "example_disable_preview = JDict
     [(''schema_version'', JInt 1), (''action_type'', JStr ''disable_inactive_user''),
      (''summary'', JDict
         [(''affected_users_count'', JInt 1), (''normal_eligible_count'', JInt 1),
          (''skipped_count'', JInt 0), (''override_required_count'', JInt 0),
          (''privileged_users_count'', JInt 0), (''open_security_events_count'', JInt 0),
          (''service_accounts_excluded_count'', JInt 0), (''recent_login_skipped_count'', JInt 0)]),
      (''eligible_records'', JList [disable_record]), (''override_required_records'', JList []),
      (''scope_decision_reason'', JStr ''r''),
      (''requester_scope_ids'', JList [JStr scope_id]), (''target_scope_ids'', JList [JStr scope_id]),
      (''target_resource_descriptors'', JList (map disable_resource DISABLE_RESOURCE_TABLES))]"

definition disable_context :: json where
  "disable_context = JDict
     [(''app_user_id'', JStr requester_id),
      (''effective_action_permissions'', JList [JStr ''can_request_action'']),
      (''assigned_scope_ids'', JList [JStr scope_id]), (''assigned_scopes'', JList []),
      (''has_global_scope'', JBool False)]"

definition disable_decision :: json where
  "disable_decision = JDict
     [(''allowed'', JBool True), (''reason_code'', JStr ''all_required_resources_authorized''),
      (''required_permission'', JStr ''can_request_action''), (''matched_scopes'', JList []),
      (''resource_decisions'', JList (map disable_grant DISABLE_RESOURCE_TABLES)),
      (''read_boundary'', JDict
         [(''runtime_role'', JStr ''queryops_query_runtime''), (''transaction_read_only'', JBool True),
          (''row_security_enabled'', JBool True)])]"

definition disable_action :: action_request where
  "disable_action = example_action
     \<lparr>ar_action_type := ''disable_inactive_user'', ar_preview_json := example_disable_preview,
      ar_access_context_snapshot := disable_context, ar_access_decision_snapshot := disable_decision\<rparr>"

lemma disable_fields [simp]:
  "ar_id disable_action = request_id" "ar_action_type disable_action = ''disable_inactive_user''"
  "ar_requested_by disable_action = requester_id" "ar_scope_type disable_action = Some ''department''"
  "ar_record_count disable_action = 1" "ar_skipped_count disable_action = 0"
  "ar_requires_admin disable_action = False" "ar_scope_id disable_action = Some scope_id"
  "list_parts disable_action = ([disable_record], [], [])"
  "ar_policy_flags disable_action = ar_policy_flags example_action"
  "ar_skipped_records disable_action = JDict [(''records'', JList []), (''exclusions_by_reason'', JList [])]"
  "ar_preview_json disable_action = example_disable_preview"
  "ar_access_context_snapshot disable_action = disable_context"
  "ar_access_decision_snapshot disable_action = disable_decision"
  by (simp_all add: disable_action_def list_parts_def) (simp_all add: example_disable_preview_def)

lemma holder_parses [simp]: "parse_uuid holder_id = Some holder_id"
  by code_simp

lemma example_disable_record_valid: "validate_disable_record disable_record True False = Inr ()"
  by (simp add: validate_disable_record_def disable_record_def Let_def validated_uuid_def nonempty_str_def
      none_or_str_def)

lemma disable_flags_valid: "snapshot_flags disable_action = Inr ()"
  by (simp add: snapshot_flags_def Let_def expected_flag_codes_def all_override_codes_def
      validate_policy_flags_def flag_codes_def flag_is_true_def)

lemma disable_shape: "snapshot_shape disable_action DisableInactiveUser = Inr ()"
  by (simp add: snapshot_shape_def Let_def) (simp add: example_disable_preview_def)

lemma disable_scopes: "scope_ids_ok (JList [JStr scope_id])" "scope_id_set (JList [JStr scope_id]) = [scope_id]"
  by (simp_all add: scope_ids_ok_def scope_id_set_def validated_uuid_def)

lemma disable_tables:
  "resource_tables (JList (map disable_resource DISABLE_RESOURCE_TABLES)) = DISABLE_RESOURCE_TABLES"
  "resource_descriptors_ok (JList (map disable_resource DISABLE_RESOURCE_TABLES))"
proof -
  show t: "resource_tables (JList (map disable_resource DISABLE_RESOURCE_TABLES)) = DISABLE_RESOURCE_TABLES"
    by (simp add: resource_tables_def comp_def disable_resource_def)
  show "resource_descriptors_ok (JList (map disable_resource DISABLE_RESOURCE_TABLES))"
    unfolding resource_descriptors_ok_def t
    by (simp add: DISABLE_RESOURCE_TABLES_def resource_descriptor_ok_def disable_resource_def nonempty_str_def)
qed

lemma disable_grants:
  "granted_tables (JList (map disable_grant DISABLE_RESOURCE_TABLES)) = map JStr DISABLE_RESOURCE_TABLES"
  by (simp add: granted_tables_def DISABLE_RESOURCE_TABLES_def disable_grant_def flag_is_true_def)

lemma disable_access: "validate_disable_access_snapshots disable_action DISABLE_RESOURCE_TABLES = Inr ()"
  by (simp add: validate_disable_access_snapshots_def Let_def)
     (simp add: disable_context_def disable_decision_def disable_scopes flag_is_true_def disable_grants
      read_boundary_ok_def comp_def list_all_iff checks_simps, simp add: DISABLE_RESOURCE_TABLES_def)

lemma disable_snapshot: "validate_disable_snapshot disable_action = Inr ()"
proof -
  have preview: "jget example_disable_preview ''target_resource_descriptors'' = JList (map disable_resource DISABLE_RESOURCE_TABLES)"
    "jget example_disable_preview ''scope_decision_reason'' = JStr ''r''"
    "jget example_disable_preview ''requester_scope_ids'' = JList [JStr scope_id]"
    "jget example_disable_preview ''target_scope_ids'' = JList [JStr scope_id]"
    by (simp_all add: example_disable_preview_def)
  have counts: "list_all (\<lambda>(k, n). strict_int (jget (jget example_disable_preview ''summary'') k) = Some n)
      (expected_disable_counts disable_action)"
    by (simp add: expected_disable_counts_def) (simp add: example_disable_preview_def count_override_def count_code_def)
  have "validate_disable_exclusions (JList []) (expected_exclusions [] []) = Inr ()"
    by (simp add: validate_disable_exclusions_def validate_exclusions_def exclusions_match_def
        exclusion_pairs_def expected_exclusions_def all_override_codes_def)
  with counts example_disable_record_valid disable_flags_valid disable_shape disable_access show ?thesis
    by (simp add: validate_disable_snapshot_def Let_def preview disable_tables disable_scopes)
qed

lemma disable_targets: "persisted_target_ids ''directory_user'' disable_action = Inr [holder_id]"
  by (simp add: persisted_target_ids_def record_uuid_def)
     (simp add: disable_record_def validated_uuid_def sorted_set_def)

end
