(* ===== verification/Action_Guarantees.thy ===== *)
theory Action_Guarantees
  imports Approval_Invariants Action_Examples
begin

text \<open>
  What the action engine promises: the invariant of its tables, the life cycle of a request, what a
  completed and a failed approval mean, and the two contracts of the handlers at work. The
  witnesses use the store of \<open>Action_Examples\<close>.
\<close>

section \<open>Normal forms of an approval\<close>

lemma approve_reaches:
  assumes "locked_pair st i = Some (ar, ap)" "action_presentation (ar_action_type ar) = Inr pr"
    "pd_allowed (approval_decision ar (env_context en st))" "pair_pending ar ap"
    "\<not> pair_expired ar ap (en_now en)"
  shows "approve en i reason st = approve_pending en pr reason ar ap st"
  using assms by (simp add: approve_def with_pending_pair_def require_pending_def)

lemma refuse_expired_error: "fst (refuse_expired en ar ap st) \<noteq> Answered r"
  by (auto simp: refuse_expired_def split: prod.splits sum.splits)

text \<open>An answer of \<open>reject\<close> or \<open>approve\<close> comes from a pending pair within its deadline.\<close>

lemma with_pending_pair_Answered:
  assumes "fst (with_pending_pair en i st k) = Answered r"
  obtains ar ap pr where "locked_pair st i = Some (ar, ap)" "action_presentation (ar_action_type ar) = Inr pr"
    "pd_allowed (approval_decision ar (env_context en st))" "pair_pending ar ap"
    "\<not> pair_expired ar ap (en_now en)" "with_pending_pair en i st k = k pr ar ap"
  using assms
  by (auto simp: with_pending_pair_def require_pending_def refuse_expired_error split: option.splits sum.splits if_splits)

lemma set_reset_set:
  "set_action_runtime_role (reset_action_runtime_role (set_action_runtime_role ss)) = set_action_runtime_role ss"
  by simp

definition approver_settings :: "action_env \<Rightarrow> user_access_context \<Rightarrow> pg_settings" where
  "approver_settings en ctx =
     (case set_rls_context (ss_settings (en_session en)) (build_rls_context ctx) of
        Inl _ \<Rightarrow> ss_settings (en_session en) | Inr s \<Rightarrow> s)"

text \<open>The session in which both revalidations and the execution run.\<close>

definition approver_session :: "action_env \<Rightarrow> user_access_context \<Rightarrow> db_session" where
  "approver_session en ctx =
     set_action_runtime_role ((en_session en)\<lparr>ss_settings := approver_settings en ctx\<rparr>)"

lemma set_rls_context_Inr: "\<exists>s. set_rls_context db c = Inr s"
  by (simp add: set_rls_context_total)

lemma staged_Inr: "staged en stage r = Inr x \<longleftrightarrow> \<not> en_fault en stage \<and> r = Inr x"
  by (simp add: staged_def)

lemma require_action_revalidation_Inr:
  "require_action_revalidation ty rv = Inr rv' \<longleftrightarrow> supported_action_type_of ty = Some (rv_type rv) \<and> rv' = rv"
  by (auto simp: require_action_revalidation_def split: option.splits if_splits)

lemma revalidate_twice_Inr:
  assumes "revalidate_twice en ar ctx st = Inr (h, ss, rv)"
  shows "validate_action_snapshot ar = Inr ()" "registry_get (en_registry en) (ar_action_type ar) = Some h"
    "hd_revalidate h (approver_session en ctx) (en_concurrent en (st_domain st)) ar ctx (en_now en) = Inr rv"
    "set_action_runtime_role ss = approver_session en ctx"
    "supported_action_type_of (ar_action_type ar) = Some (rv_type rv)"
  using assms set_rls_context_Inr [of "ss_settings (en_session en)" "build_rls_context ctx"]
  by (auto simp: revalidate_twice_def Let_def result_bind_Inr_iff checked_def staged_Inr
      require_action_revalidation_Inr approver_session_def approver_settings_def
      split: option.splits sum.splits)

lemma distinct_map_ids: "partitions targets rv \<Longrightarrow> distinct (map ex_id (rv_executable rv))"
  by (simp add: partitions_def)

lemma revalidate_twice_quiet:
  assumes "validate_action_snapshot ar = Inr ()" "registry_get (en_registry en) (ar_action_type ar) = Some h"
    and "hd_revalidate h (approver_session en ctx) (st_domain st) ar ctx (en_now en) = Inr rv"
    and "supported_action_type_of (ar_action_type ar) = Some (rv_type rv)"
    and "distinct (map ex_id (rv_executable rv))"
    and "en_concurrent en (st_domain st) = st_domain st" and "\<And>s. \<not> en_fault en s"
  shows "\<exists>ss. revalidate_twice en ar ctx st = Inr (h, ss, rv) \<and> set_action_runtime_role ss = approver_session en ctx"
proof -
  obtain s where s: "set_rls_context (ss_settings (en_session en)) (build_rls_context ctx) = Inr s"
    using set_rls_context_Inr by blast
  have ses: "approver_session en ctx = set_action_runtime_role ((en_session en)\<lparr>ss_settings := s\<rparr>)"
    by (simp add: approver_session_def approver_settings_def s)
  have "require_action_revalidation (ar_action_type ar) rv = Inr rv"
    using assms(4) by (simp add: require_action_revalidation_Inr)
  moreover have "require_stable_execution_set rv rv = Inr ()"
    using assms(5) by (simp add: require_stable_execution_set_def list_all_iff)
  ultimately show ?thesis
    using assms(1-3,6,7)
    by (simp add: revalidate_twice_def Let_def checked_def s staged_def lock_action_dependencies_def
        ses [symmetric]) (simp add: ses)
qed


text \<open>A completed or a failed answer, taken apart.\<close>

lemma failure_reply_status:
  assumes "fst (record_failure en ar ap reason c st) = Answered r"
  shows "dn_status r = Failed"
  using assms by (auto simp: record_failure_def split: prod.splits sum.splits bool.splits)

lemma escalate_not_completed:
  assumes "fst (escalate en pr reason ar ap rv st) = Answered r"
  shows "dn_status r = Failed"
  using assms failure_reply_status
  by (auto simp: escalate_def commit_or_fail_def split: sum.splits if_splits)

lemma execute_claimed_completed:
  assumes ok: "engine_ok st" "action_by_id st (ar_id ar) = Some ar" "pair_pending ar ap"
      "\<not> pair_expired ar ap (en_now en)"
    and ans: "execute_claimed en pr reason ar ap h ss rv self st = (Answered r, st')" "dn_status r = Completed"
  obtains ids dm where
    "hd_execute h (set_action_runtime_role ss) (st_domain st) ar (au_id (en_user en)) rv (en_now en) = Inr (ids, dm)"
    "Answered r = completion_reply en ar ap rv self ids"
    "st' = completed_store en pr reason ar ap rv self ids dm st"
proof -
  let ?fail = "record_failure en ar ap reason ''execution_failed'' st"
  have nf: "?fail \<noteq> (Answered r, st')"
    using failure_reply_status [of en ar ap reason "''execution_failed''" st r] ans(2) by fastforce
  show ?thesis
    using ans(1) nf that unfolding execute_claimed_pending [OF ok] Let_def
    by (auto simp: staged_Inr split: if_splits sum.splits prod.splits)
qed

lemma approve_completed:
  assumes ok: "engine_ok st" and ans: "approve en i reason st = (Answered r, st')" "dn_status r = Completed"
  obtains ar ap pr h rv ids dm where
    "locked_pair st i = Some (ar, ap)" "action_presentation (ar_action_type ar) = Inr pr"
    "pair_pending ar ap" "\<not> pair_expired ar ap (en_now en)"
    "pd_allowed (approval_decision ar (env_context en st))" "validate_action_snapshot ar = Inr ()"
    "registry_get (en_registry en) (ar_action_type ar) = Some h"
    "hd_revalidate h (approver_session en (env_context en st)) (en_concurrent en (st_domain st)) ar
       (env_context en st) (en_now en) = Inr rv"
    "pd_allowed (evaluate_action_approval (env_context en st) (current_question ar rv))"
    "hd_execute h (approver_session en (env_context en st)) (en_concurrent en (st_domain st)) ar
       (au_id (en_user en)) rv (en_now en) = Inr (ids, dm)"
    "Answered r = completion_reply en ar ap rv
       (pd_self_approved (evaluate_action_approval (env_context en st) (current_question ar rv))) ids"
    "st' = completed_store en pr reason ar ap rv
       (pd_self_approved (evaluate_action_approval (env_context en st) (current_question ar rv))) ids dm
       (st\<lparr>st_domain := en_concurrent en (st_domain st)\<rparr>)"
proof -
  let ?ctx = "env_context en st" and ?later = "st\<lparr>st_domain := en_concurrent en (st_domain st)\<rparr>"
  from ans(1) have "fst (approve en i reason st) = Answered r" by simp
  then obtain ar ap pr where lp: "locked_pair st i = Some (ar, ap)"
    and pr: "action_presentation (ar_action_type ar) = Inr pr"
    and al: "pd_allowed (approval_decision ar ?ctx)" and pend: "pair_pending ar ap"
      "\<not> pair_expired ar ap (en_now en)"
    unfolding approve_def by (rule with_pending_pair_Answered)
  have run: "approve_pending en pr reason ar ap st = (Answered r, st')"
    using approve_reaches [OF lp pr al pend] ans(1) by simp
  have nf: "record_failure en ar ap reason c ?later \<noteq> (Answered r, st')" for c
    using failure_reply_status [of en ar ap reason c ?later r] ans(2) by fastforce
  have ne: "escalate en pr reason ar ap rv ?later \<noteq> (Answered r, st')" for rv
    using escalate_not_completed [of en pr reason ar ap rv ?later r] ans(2) by fastforce
  obtain h ss rv where tw: "revalidate_twice en ar ?ctx st = Inr (h, ss, rv)"
    using run nf unfolding approve_pending_def Let_def by (auto split: sum.splits)
  note R = revalidate_twice_Inr [OF tw]
  let ?d = "evaluate_action_approval ?ctx (current_question ar rv)"
  have ex: "pd_allowed ?d" "execute_claimed en pr reason ar ap h ss rv (pd_self_approved ?d) ?later = (Answered r, st')"
    using run ne unfolding approve_pending_def Let_def tw by (auto split: if_splits)
  note look = locked_pair_SomeD [OF ok lp]
  have "engine_ok ?later" "action_by_id ?later (ar_id ar) = Some ar" using ok look by simp_all
  from execute_claimed_completed [OF this pend ex(2) ans(2)] obtain ids dm where
    "hd_execute h (set_action_runtime_role ss) (st_domain ?later) ar (au_id (en_user en)) rv (en_now en) = Inr (ids, dm)"
    "Answered r = completion_reply en ar ap rv (pd_self_approved ?d) ids"
    "st' = completed_store en pr reason ar ap rv (pd_self_approved ?d) ids dm ?later" .
  then show ?thesis using that lp pr pend al R ex(1) by simp
qed


section \<open>The example\<close>

lemma example_actions_ok: "engine_ok example_actions"
  by (simp add: engine_ok_def example_actions_def action_ids_def approval_ids_def linked_ids_def
      approval_of_def find_by_def row_ok_def example_approval_def)

lemma example_pair [simp]:
  "locked_pair example_actions approval_id = Some (example_action, example_approval)"
  "pair_pending example_action example_approval"
  "pair_expired example_action example_approval now \<longleftrightarrow> 100 \<le> now"
  by (simp_all add: locked_pair_def approval_by_id_def action_by_id_def find_by_def example_actions_def
      example_approval_def pair_pending_def pair_expired_def)

lemma example_ids [simp]: "approver_id \<noteq> requester_id" "requester_id \<noteq> approver_id"
  by (simp_all add: approver_id_def requester_id_def example_uuid_def)

lemma example_permissions:
  "set (resolve_effective_permission_keys (example_user u) example_auth)
     = {''can_request_action'', ''can_approve_scoped_action''}"
  by (simp add: resolve_effective_permission_keys_def role_permission_keys_def user_permission_rows_def
      example_user_def example_auth_def)

lemma example_scopes:
  "u = requester_id \<or> u = approver_id \<Longrightarrow>
     load_scope_contexts (\<lambda>xs. xs) (example_user u) example_auth =
       [\<lparr>sc_id = scope_id, sc_type = ''department'', sc_key = ''it'', sc_display_name = ''IT'',
         sc_access_level = ''read'', sc_is_default = True, sc_department_id = Some department_id\<rparr>]"
  by (auto simp: load_scope_contexts_def scope_context_of_def example_user_def example_auth_def)

definition example_ctx :: user_access_context where
  "example_ctx = env_context (example_env approver_id 20) example_actions"

lemma example_ctx_fields [simp]:
  "uc_user_id example_ctx = approver_id"
  "has_permission example_ctx k \<longleftrightarrow> k = ''can_request_action'' \<or> k = ''can_approve_scoped_action''"
  "uc_scopes example_ctx =
     [\<lparr>sc_id = scope_id, sc_type = ''department'', sc_key = ''it'', sc_display_name = ''IT'',
       sc_access_level = ''read'', sc_is_default = True, sc_department_id = Some department_id\<rparr>]"
  "uc_has_global_scope example_ctx = False"
  unfolding example_ctx_def env_context_def has_permission_def
  by (simp_all add: example_env_def example_actions_def example_permissions example_scopes
      build_user_access_context_scopes build_user_access_context_global)
     (simp_all add: example_user_def has_scope_def example_scopes [unfolded example_user_def])

lemma example_env_fields [simp]:
  "en_user (example_env u t) = example_user u" "en_now (example_env u t) = t"
  "en_registry (example_env u t) = default_registry" "en_commit (example_env u t) = Committed"
  "en_failure_commit (example_env u t) = Committed" "en_concurrent (example_env u t) dm = dm"
  "en_fault (example_env u t) stage = False" "au_id (example_user u) = u"
  by (simp_all add: example_env_def example_user_def)

lemma example_admits [simp]:
  "pd_allowed (evaluate_action_approval example_ctx
     \<lparr>aq_requester = requester_id, aq_scope_type = ''department'', aq_scope_key = ''it'',
      aq_record_count = 1, aq_crosses_scopes = False, aq_requires_policy_override = False\<rparr>)"
  by (simp add: evaluate_action_approval_allowed approval_admits_def requires_global_approval_def
      SCOPED_APPROVAL_RECORD_LIMIT_def covers_scope_def has_scope_def)

lemma example_question [simp]:
  "action_question example_action =
     \<lparr>aq_requester = requester_id, aq_scope_type = ''department'', aq_scope_key = ''it'',
      aq_record_count = 1, aq_crosses_scopes = False, aq_requires_policy_override = False\<rparr>"
  by (simp add: action_question_def action_crosses_scopes_def action_requires_override_def flag_is_true_def
      or_empty_def)


section \<open>Approving executes\<close>

definition pending_target :: "action_request \<Rightarrow> it_domain \<Rightarrow> uuid \<Rightarrow> bool" where
  "pending_target ar = (if ar_action_type ar = ''disable_inactive_user'' then active_account else active_assignment)"

definition target_record_type :: "action_request \<Rightarrow> string" where
  "target_record_type ar =
     (if ar_action_type ar = ''disable_inactive_user'' then ''directory_user'' else ''license_assignment'')"

lemma approver_session_ok:
  assumes "\<not> ss_read_only (en_session en)" "ss_row_security (en_session en)"
  shows "action_session (approver_session en (env_context en st)) (au_id (en_user en))"
  using assms
  by (simp add: action_session_def secure_action_boundary_def approver_session_def approver_settings_def
      set_rls_context_total set_action_runtime_role_def build_rls_context_def env_context_def)

text \<open>Both handlers satisfy the contract, whichever the request names.\<close>

lemma handler_contract:
  assumes "build_default_action_registry = Inr reg" "registry_get reg (ar_action_type ar) = Some h"
    and "hd_revalidate h ss dm ar ctx now = Inr rv"
  shows "\<exists>targets. persisted_target_ids (target_record_type ar) ar = Inr targets \<and> partitions targets rv"
    and "supported_action_type_of (ar_action_type ar) = Some (rv_type rv)"
    and "action_session ss approver \<Longrightarrow> it_domain_ok dm \<Longrightarrow>
      \<exists>dm' es. hd_execute h ss dm ar approver rv now = Inr (map ex_id (rv_executable rv), dm')
       \<and> (\<forall>i. pending_target ar dm' i = (pending_target ar dm i \<and> i \<notin> ex_id ` set (rv_executable rv)))
       \<and> it_audits dm' = it_audits dm @ es \<and> map ie_resource_id es = map ex_id (rv_executable rv)
       \<and> (\<forall>e \<in> set es. ie_actor_app_user_id e = approver)"
    and "hd_execute h ss' dm'' ar approver rv now' = Inr (ids, dm') \<Longrightarrow>
      ids = map ex_id (rv_executable rv)
       \<and> (\<exists>es. it_audits dm' = it_audits dm'' @ es \<and> map ie_resource_id es = ids
            \<and> (\<forall>e \<in> set es. ie_actor_app_user_id e = approver \<and> ie_occurred_at e = now'))
       \<and> (it_domain_ok dm'' \<longrightarrow>
            (\<forall>i. pending_target ar dm' i = (pending_target ar dm'' i \<and> i \<notin> set ids)))"
proof -
  consider (r) "h = reclaim_handler" "ar_action_type ar = ''reclaim_unused_license''"
    | (d) "h = disable_handler" "ar_action_type ar = ''disable_inactive_user''"
    using default_registry_handlers [OF assms(1,2)] by blast
  note cs = this
  show "\<exists>targets. persisted_target_ids (target_record_type ar) ar = Inr targets \<and> partitions targets rv"
    using cs assms(3) reclaim_contract.reval_targets disable_contract.reval_targets
    by cases (simp_all add: target_record_type_def)
  show "supported_action_type_of (ar_action_type ar) = Some (rv_type rv)"
    using cs
  proof cases
    case r
    with assms(3) reclaim_contract.reval_kind show ?thesis by (simp add: supported_action_type_of_def)
  next
    case d
    with assms(3) disable_contract.reval_kind show ?thesis by (simp add: supported_action_type_of_def)
  qed
  show "\<exists>dm' es. hd_execute h ss dm ar approver rv now = Inr (map ex_id (rv_executable rv), dm')
       \<and> (\<forall>i. pending_target ar dm' i = (pending_target ar dm i \<and> i \<notin> ex_id ` set (rv_executable rv)))
       \<and> it_audits dm' = it_audits dm @ es \<and> map ie_resource_id es = map ex_id (rv_executable rv)
       \<and> (\<forall>e \<in> set es. ie_actor_app_user_id e = approver)"
    if "action_session ss approver" "it_domain_ok dm"
    using cs
  proof cases
    case r
    with reclaim_contract.execute_effect [OF _ that] assms(3) show ?thesis by (simp add: pending_target_def)
  next
    case d
    with disable_contract.execute_effect [OF _ that] assms(3) show ?thesis by (simp add: pending_target_def)
  qed
  show "ids = map ex_id (rv_executable rv)
       \<and> (\<exists>es. it_audits dm' = it_audits dm'' @ es \<and> map ie_resource_id es = ids
            \<and> (\<forall>e \<in> set es. ie_actor_app_user_id e = approver \<and> ie_occurred_at e = now'))
       \<and> (it_domain_ok dm'' \<longrightarrow>
            (\<forall>i. pending_target ar dm' i = (pending_target ar dm'' i \<and> i \<notin> set ids)))"
    if ex: "hd_execute h ss' dm'' ar approver rv now' = Inr (ids, dm')"
    using cs
  proof cases
    case r
    with reclaim_contract.execute_accounting ex show ?thesis by (simp add: pending_target_def)
  next
    case d
    with disable_contract.execute_accounting ex show ?thesis by (simp add: pending_target_def)
  qed
qed

text \<open>
  An approval is ready: the pair is pending, the snapshot valid, and nothing fails or interferes.
\<close>

definition quiet_env :: "action_env \<Rightarrow> action_store \<Rightarrow> bool" where
  "quiet_env en st \<longleftrightarrow>
     en_concurrent en (st_domain st) = st_domain st \<and> (\<forall>s. \<not> en_fault en s) \<and> en_commit en = Committed
     \<and> \<not> ss_read_only (en_session en) \<and> ss_row_security (en_session en)"

lemma pending_approval_completes_aux:
  assumes ok: "engine_ok st" "it_domain_ok (st_domain st)"
    and pair: "locked_pair st i = Some (ar, ap)" "pair_pending ar ap" "\<not> pair_expired ar ap (en_now en)"
    and reg: "build_default_action_registry = Inr (en_registry en)"
      "registry_get (en_registry en) (ar_action_type ar) = Some h"
    and rv: "hd_revalidate h (approver_session en (env_context en st)) (st_domain st) ar (env_context en st)
          (en_now en) = Inr rv"
    and snap: "validate_action_snapshot ar = Inr ()" and quiet: "quiet_env en st"
    and adm: "approval_admits (env_context en st) (action_question ar)"
      "approval_admits (env_context en st) (current_question ar rv)"
  shows "\<exists>r st'. approve en i reason st = (Answered r, st') \<and> dn_status r = Completed
    \<and> dn_executed r = length (rv_executable rv)
    \<and> (\<forall>j. pending_target ar (st_domain st') j
          \<longleftrightarrow> pending_target ar (st_domain st) j \<and> j \<notin> ex_id ` set (rv_executable rv))"
proof -
  let ?ctx = "env_context en st"
  note look = locked_pair_SomeD [OF ok(1) pair(1)]
  note con = handler_contract [OF reg rv]
  obtain pr where pr: "action_presentation (ar_action_type ar) = Inr pr"
    using con(2) by (auto simp: action_presentation_def)
  have dist: "distinct (map ex_id (rv_executable rv))" using con(1) distinct_map_ids by blast
  have q: "en_concurrent en (st_domain st) = st_domain st" "\<And>s. \<not> en_fault en s" "en_commit en = Committed"
    "action_session (approver_session en ?ctx) (au_id (en_user en))"
    using quiet approver_session_ok by (auto simp: quiet_env_def)
  obtain ss where tw: "revalidate_twice en ar ?ctx st = Inr (h, ss, rv)"
    and ss: "set_action_runtime_role ss = approver_session en ?ctx"
    using revalidate_twice_quiet [OF snap reg(2) rv con(2) dist q(1,2)] by blast
  obtain dm where ex: "hd_execute h (approver_session en ?ctx) (st_domain st) ar (au_id (en_user en)) rv
      (en_now en) = Inr (map ex_id (rv_executable rv), dm)"
    and eff: "\<forall>j. pending_target ar dm j = (pending_target ar (st_domain st) j \<and> j \<notin> ex_id ` set (rv_executable rv))"
    using con(3) [OF q(4) ok(2)] by blast
  have run: "approve en i reason st = approve_pending en pr reason ar ap st"
    using adm(1) by (intro approve_reaches pair pr) (simp add: approval_decision_allowed_iff)
  let ?self = "pd_self_approved (evaluate_action_approval ?ctx (current_question ar rv))"
  have "execute_claimed en pr reason ar ap h ss rv ?self st
      = (completion_reply en ar ap rv ?self (map ex_id (rv_executable rv)),
         completed_store en pr reason ar ap rv ?self (map ex_id (rv_executable rv)) dm st)"
    using q ex ss unfolding execute_claimed_pending [OF ok(1) look(2) pair(2,3)]
    by (simp add: Let_def staged_def)
  then have "approve en i reason st
      = (completion_reply en ar ap rv ?self (map ex_id (rv_executable rv)),
         completed_store en pr reason ar ap rv ?self (map ex_id (rv_executable rv)) dm st)"
    unfolding run approve_pending_def Let_def tw using adm(2) q(1)
    by (simp add: evaluate_action_approval_allowed)
  with eff show ?thesis by (simp add: completion_reply_def completed_store_def Let_def)
qed


text \<open>The example request revalidates to its one assignment.\<close>

lemma department_array: "string_to_array department_id = [department_id]"
  by code_simp

lemma example_rls [simp]:
  "scope_admits (approver_session (example_env approver_id 20) example_ctx) (Some department_id)"
  by (simp add: scope_admits_def approver_session_def approver_settings_def set_rls_context_total
      build_rls_context_def department_scope_keys_def rls_policy_admits_def scope_keys_setting_def
      has_global_scope_setting_def department_array)

definition example_executable :: executable_record where
  "example_executable =
     \<lparr>ex_id = assignment_id, ex_user_id = holder_id, ex_license_id = Some license_id,
      ex_department_id = department_id, ex_scope_key = ''it'', ex_override_codes = []\<rparr>"

definition example_revalidation :: revalidation where
  "example_revalidation =
     \<lparr>rv_type = ReclaimUnusedLicense, rv_executable = [example_executable], rv_skipped = [],
      rv_override_codes = [], rv_crosses_scopes = False\<rparr>"

lemma example_rows:
  "reclaim_rows (approver_session (example_env approver_id 20) example_ctx) example_domain [assignment_id]
     = [\<lparr>rr_assignment = hd (it_assignments example_domain), rr_user = Some (hd (it_users example_domain)),
         rr_license = Some (hd (it_licenses example_domain))\<rparr>]"
  by (simp add: reclaim_rows_def example_domain_def find_by_def)

lemma example_revalidates:
  "hd_revalidate reclaim_handler (approver_session (example_env approver_id 20) example_ctx)
     example_domain example_action example_ctx 20 = Inr example_revalidation"
  by (simp add: reclaim_handler_def revalidate_reclaim_targets_def checked_def example_snapshot
      example_targets Let_def example_rows)
     (simp add: find_by_def example_domain_def reclaim_verdict_def structurally_valid_def
      scope_key_for_department_def truthy_str_def reclaim_override_codes_def is_cross_scope_def
      sorted_set_def collect_verdicts_def verdict_records_def verdict_skips_def example_revalidation_def
      example_executable_def)

lemma example_executes_one: "length (rv_executable example_revalidation) = 1"
  by (simp add: example_revalidation_def)

lemma example_registry:
  "build_default_action_registry = Inr default_registry"
  "registry_get default_registry ''reclaim_unused_license'' = Some reclaim_handler"
  by (simp_all add: default_registry_def build_default_action_registry_def register_handler_def
      reclaim_handler_def disable_handler_def supported_action_type_of_def registry_get_def)


lemma example_ready:
  "env_context (example_env approver_id 20) example_actions = example_ctx"
  "st_domain example_actions = example_domain"
  "it_domain_ok example_domain"
  "validate_action_snapshot example_action = Inr ()"
  "quiet_env (example_env approver_id 20) example_actions"
  by (simp_all add: example_ctx_def example_actions_def it_domain_ok_def example_domain_def
      validate_action_snapshot_def supported_action_type_of_def example_snapshot quiet_env_def)
     (simp_all add: example_env_def)

lemma example_current [simp]:
  "current_question example_action example_revalidation = action_question example_action"
  by (simp add: current_question_def example_revalidation_def rv_requires_policy_override_def)

lemma example_admitted: "approval_admits example_ctx (action_question example_action)"
  using example_admits by (simp add: evaluate_action_approval_allowed)

lemma example_approves:
  "\<exists>r st'. approve (example_env approver_id 20) approval_id ''ok'' example_actions = (Answered r, st')
     \<and> dn_status r = Completed"
  using pending_approval_completes_aux [of example_actions approval_id example_action example_approval
      "example_env approver_id 20" reclaim_handler example_revalidation "''ok''"]
    example_revalidates example_admitted
  by (auto simp: example_actions_ok example_ready example_registry)

section \<open>The tables and the life cycle\<close>

text \<open>
  C13: The invariant of the action tables survives every run: ids are unique, an action has at most
  one approval, every approval belongs to an action, and the two statuses of a request agree with
  its deadlines, whatever previews, requests, decisions, expiries and outside changes to the
  authorization and IT tables are interleaved.
\<close>
theorem action_tables_invariant:
  assumes "action_run st st'" and "engine_ok st"
  shows "engine_ok st'"
  using assms by (rule action_run_ok)

lemma example_run: "action_run example_actions (snd (approve (example_env approver_id 20) approval_id ''ok'' example_actions))"
  by (rule run_step [OF run_refl]) (rule step_approve)

lemma action_tables_invariant_witness:
  "engine_ok (snd (approve (example_env approver_id 20) approval_id ''ok'' example_actions))"
  by (rule action_tables_invariant [OF example_run example_actions_ok])

text \<open>
  C14: The handlers refine the abstract life cycle. A step leaves the pair of statuses of every
  request as it is or moves it along one edge: draft to pending, draft to expired, and pending to
  expired, cancelled, rejected, completed or failed, always together with its approval; and no
  request appears or disappears.
\<close>
theorem requests_follow_life_cycle:
  assumes "action_step st st'" and "engine_ok st"
  shows "life_of st' i = life_of st i
    \<or> (\<exists>l l'. life_of st i = Some l \<and> life_of st' i = Some l' \<and> life_step l l')"
proof -
  have "row_step (row_of st i) (row_of st' i)"
    using action_step_evolves [OF assms] by (simp add: evolves_def)
  then show ?thesis by (auto simp: row_step_def life_of_row)
qed

lemma requests_follow_life_cycle_witness:
  "let st' = snd (approve (example_env approver_id 20) approval_id ''ok'' example_actions)
   in life_of st' request_id = life_of example_actions request_id
    \<or> (\<exists>l l'. life_of example_actions request_id = Some l \<and> life_of st' request_id = Some l' \<and> life_step l l')"
  unfolding Let_def by (rule requests_follow_life_cycle [OF step_approve example_actions_ok])

text \<open>
  C18: A closed request is final. Once a request is completed, failed, rejected, cancelled or
  expired, no run changes its row or the row of its approval, and every further attempt to cancel,
  reject or approve it is answered with an error.
\<close>
theorem closed_request_is_final:
  assumes run: "action_run st st'" and ok: "engine_ok st"
    and closed: "action_by_id st i = Some ar" "\<not> open_status (ar_status ar)"
  shows "action_by_id st' i = Some ar \<and> approval_of st' i = approval_of st i
    \<and> \<not> answered (fst (cancel_request en i reason st'))
    \<and> (\<forall>ap. approval_of st i = Some ap \<longrightarrow>
         \<not> answered (fst (reject en (ap_id ap) reason st')) \<and> \<not> answered (fst (approve en (ap_id ap) reason st')))"
proof -
  have ok': "engine_ok st'" using run ok by (rule action_run_ok)
  have "row_of st' i = row_of st i"
    using run ok closed by (intro action_run_closed) (auto simp: row_of_def row_life_def)
  then have same: "action_by_id st' i = Some ar" "approval_of st' i = approval_of st i"
    using closed by (simp_all add: row_of_def)
  have notp: "ar_status ar \<noteq> PendingApproval" using closed(2) by (simp add: open_status_def)
  then have "\<not> answered (fst (cancel_request en i reason st'))"
    using same(1) by (simp add: cancel_request_def owned_action_def split: sum.splits)
  moreover have "\<not> answered (fst (with_pending_pair en (ap_id ap) st' k))"
    if ap: "approval_of st i = Some ap"
    for ap and k :: "presentation \<Rightarrow> action_request \<Rightarrow> approval_request \<Rightarrow> decision_result service \<times> action_store"
  proof
    assume "answered (fst (with_pending_pair en (ap_id ap) st' k))"
    then obtain r where "fst (with_pending_pair en (ap_id ap) st' k) = Answered r"
      by (cases "fst (with_pending_pair en (ap_id ap) st' k)") auto
    then obtain ar' ap' where lp: "locked_pair st' (ap_id ap) = Some (ar', ap')" "pair_pending ar' ap'"
      by (rule with_pending_pair_Answered)
    note look = locked_pair_SomeD [OF ok' lp(1)]
    have "ap' = ap"
      using look(5,6) approval_of_SomeD [of st' i ap] same(2) ap engine_ok_inj(2) [OF ok', of ap' ap] by simp
    then have "ar' = ar" using look(2,7) approval_of_SomeD [of st i ap] ap same(1) by simp
    with lp(2) notp show False by (simp add: pair_pending_def)
  qed
  ultimately show ?thesis using same by (simp add: reject_def approve_def)
qed

definition rejected_example :: action_store where
  "rejected_example = example_actions
     \<lparr>st_actions := [example_action\<lparr>ar_status := Rejected\<rparr>],
      st_approvals := [example_approval\<lparr>ap_status := ApRejected\<rparr>]\<rparr>"

lemma rejected_example_ok: "engine_ok rejected_example"
  by (simp add: engine_ok_def rejected_example_def action_ids_def approval_ids_def linked_ids_def
      approval_of_def find_by_def row_ok_def example_approval_def)

lemma closed_request_is_final_witness:
  "\<not> answered (fst (approve (example_env approver_id 20) approval_id ''ok'' rejected_example))"
  using closed_request_is_final [OF run_refl rejected_example_ok, of request_id
      "example_action\<lparr>ar_status := Rejected\<rparr>" "example_env approver_id 20" "''ok''"]
  by (simp add: action_by_id_def approval_of_def find_by_def rejected_example_def open_status_def
      example_approval_def)

section \<open>Decisions\<close>

text \<open>
  C15: A completed approval was authorized, for what it executed. The pair was pending and within its
  deadline, its snapshot valid; the approver passed the policy both for the request as stored and
  for the rows as revalidated; the executed ids are distinct targets of the persisted preview; each
  is audited in the approver's name at that moment; and of the IT tables exactly those rows stopped
  being active.
\<close>
theorem completed_approval_is_authorized:
  assumes ok: "engine_ok st" and reg: "build_default_action_registry = Inr (en_registry en)"
    and ans: "approve en i reason st = (Answered r, st')" "dn_status r = Completed"
  shows "\<exists>ar ap rv targets ids es. locked_pair st i = Some (ar, ap) \<and> pair_pending ar ap
    \<and> \<not> pair_expired ar ap (en_now en) \<and> validate_action_snapshot ar = Inr ()
    \<and> approval_admits (env_context en st) (action_question ar)
    \<and> approval_admits (env_context en st) (current_question ar rv)
    \<and> (\<exists>h. registry_get (en_registry en) (ar_action_type ar) = Some h
         \<and> hd_revalidate h (approver_session en (env_context en st)) (en_concurrent en (st_domain st)) ar
              (env_context en st) (en_now en) = Inr rv)
    \<and> persisted_target_ids (target_record_type ar) ar = Inr targets
    \<and> ids = map ex_id (rv_executable rv) \<and> distinct ids \<and> set ids \<subseteq> set targets \<and> dn_executed r = length ids
    \<and> it_audits (st_domain st') = it_audits (en_concurrent en (st_domain st)) @ es
    \<and> map ie_resource_id es = ids
    \<and> list_all (\<lambda>e. ie_actor_app_user_id e = au_id (en_user en) \<and> ie_occurred_at e = en_now en) es
    \<and> (it_domain_ok (en_concurrent en (st_domain st)) \<longrightarrow>
        (\<forall>j. pending_target ar (st_domain st') j
           \<longleftrightarrow> pending_target ar (en_concurrent en (st_domain st)) j \<and> j \<notin> set ids))"
proof (rule approve_completed [OF ok ans])
  fix ar ap pr h rv ids dm
  assume lp: "locked_pair st i = Some (ar, ap)" "pair_pending ar ap" "\<not> pair_expired ar ap (en_now en)"
    and adm: "pd_allowed (approval_decision ar (env_context en st))"
      "pd_allowed (evaluate_action_approval (env_context en st) (current_question ar rv))"
    and snap: "validate_action_snapshot ar = Inr ()"
    and h: "registry_get (en_registry en) (ar_action_type ar) = Some h"
    and rv: "hd_revalidate h (approver_session en (env_context en st)) (en_concurrent en (st_domain st)) ar
       (env_context en st) (en_now en) = Inr rv"
    and ex: "hd_execute h (approver_session en (env_context en st)) (en_concurrent en (st_domain st)) ar
       (au_id (en_user en)) rv (en_now en) = Inr (ids, dm)"
    and r: "Answered r = completion_reply en ar ap rv
       (pd_self_approved (evaluate_action_approval (env_context en st) (current_question ar rv))) ids"
    and st': "st' = completed_store en pr reason ar ap rv
       (pd_self_approved (evaluate_action_approval (env_context en st) (current_question ar rv))) ids dm
       (st\<lparr>st_domain := en_concurrent en (st_domain st)\<rparr>)"
  note con = handler_contract [OF reg h rv]
  obtain targets where t: "persisted_target_ids (target_record_type ar) ar = Inr targets" "partitions targets rv"
    using con(1) by blast
  have dom: "st_domain st' = dm" by (simp add: st' completed_store_def Let_def)
  have "dn_executed r = length ids" using r by (simp add: completion_reply_def)
  moreover have "ids = map ex_id (rv_executable rv)" using con(4) [OF ex] by simp
  moreover from this have "distinct ids" "set ids \<subseteq> set targets" using t(2) by (auto simp: partitions_def)
  ultimately show ?thesis
    using lp adm snap t(1) h rv con(4) [OF ex] unfolding dom approval_decision_allowed_iff
    by (simp add: evaluate_action_approval_allowed list_all_iff) blast
qed


lemma completed_approval_is_authorized_witness:
  "\<exists>r st'. approve (example_env approver_id 20) approval_id ''ok'' example_actions = (Answered r, st')
    \<and> (\<exists>ar rv. approval_admits example_ctx (current_question ar rv) \<and> dn_executed r = length (rv_executable rv))"
proof -
  obtain r st' where a: "approve (example_env approver_id 20) approval_id ''ok'' example_actions = (Answered r, st')"
    "dn_status r = Completed"
    using example_approves by blast
  have "build_default_action_registry = Inr (en_registry (example_env approver_id 20))"
    by (simp add: example_registry)
  from completed_approval_is_authorized [OF example_actions_ok this a] obtain ar rv where
    "approval_admits (env_context (example_env approver_id 20) example_actions) (current_question ar rv)"
    "dn_executed r = length (map ex_id (rv_executable rv))"
    by (elim exE conjE) metis
  with a show ?thesis unfolding example_ready(1) by auto
qed

text \<open>
  C16: A ready approval executes. When the pair is pending and in time, the snapshot valid, the approver
  admitted for the request and for its current rows, and no statement fails and no other session
  interferes, \<open>approve\<close> answers Completed, reports one executed record per revalidated row, and exactly
  these rows stop being active: the checks between revalidation and commit never refuse the set they
  were given.
\<close>
theorem ready_approval_executes:
  assumes ok: "engine_ok st" "it_domain_ok (st_domain st)"
    and pair: "locked_pair st i = Some (ar, ap)" "pair_pending ar ap" "\<not> pair_expired ar ap (en_now en)"
    and reg: "build_default_action_registry = Inr (en_registry en)"
      "registry_get (en_registry en) (ar_action_type ar) = Some h"
    and rv: "hd_revalidate h (approver_session en (env_context en st)) (st_domain st) ar (env_context en st)
          (en_now en) = Inr rv"
    and snap: "validate_action_snapshot ar = Inr ()" and quiet: "quiet_env en st"
    and adm: "approval_admits (env_context en st) (action_question ar)"
      "approval_admits (env_context en st) (current_question ar rv)"
  shows "\<exists>r st'. approve en i reason st = (Answered r, st') \<and> dn_status r = Completed
    \<and> dn_executed r = length (rv_executable rv)
    \<and> (\<forall>j. pending_target ar (st_domain st') j
          \<longleftrightarrow> pending_target ar (st_domain st) j \<and> j \<notin> ex_id ` set (rv_executable rv))"
  using assms by (rule pending_approval_completes_aux)

lemma ready_approval_executes_witness:
  "\<exists>r st'. approve (example_env approver_id 20) approval_id ''ok'' example_actions = (Answered r, st')
     \<and> dn_status r = Completed \<and> dn_executed r = 1"
  using ready_approval_executes [of example_actions approval_id example_action example_approval
      "example_env approver_id 20" reclaim_handler example_revalidation "''ok''"]
    example_revalidates example_admitted
  by (auto simp: example_actions_ok example_ready example_registry example_executes_one)

text \<open>The IT tables after an approval that did not complete.\<close>

lemma record_failure_domain: "st_domain (snd (record_failure en ar ap reason c st)) = st_domain st"
  by (auto simp: record_failure_def persist_execution_failure_def update_actions_def update_approvals_def
      Let_def split: prod.splits sum.splits bool.splits option.splits)

lemma record_failure_audits:
  assumes "fst (record_failure en ar ap reason c st) = Answered r"
  shows "\<exists>e. st_audits (snd (record_failure en ar ap reason c st)) = st_audits st @ [e]
    \<and> al_event_type e = ''action_failed'' \<and> al_actor e = au_id (en_user en)"
  using assms
  by (auto simp: record_failure_def persist_execution_failure_def update_actions_def update_approvals_def
      Let_def build_action_audit_log_def failure_event_def
      split: prod.splits sum.splits bool.splits option.splits if_splits)

lemma expire_one_domain: "st_domain (snd (expire_one en ar ap st)) = st_domain st"
  by (auto simp: expire_one_def update_actions_def update_approvals_def Let_def)

lemma with_pending_pair_domain:
  assumes "\<And>pr ar ap. st_domain (snd (k pr ar ap)) \<in> D" and "st_domain st \<in> D"
  shows "st_domain (snd (with_pending_pair en i st k)) \<in> D"
  using assms expire_one_domain [of en _ _ st]
  by (auto simp: with_pending_pair_def refuse_expired_def split: option.splits sum.splits prod.splits)
     (metis snd_conv)+


lemma execute_claimed_failed:
  assumes ok: "engine_ok st" "action_by_id st (ar_id ar) = Some ar" "pair_pending ar ap"
      "\<not> pair_expired ar ap (en_now en)"
    and ans: "fst (execute_claimed en pr reason ar ap h ss rv self st) = Answered r" "dn_status r \<noteq> Completed"
  shows "execute_claimed en pr reason ar ap h ss rv self st = record_failure en ar ap reason ''execution_failed'' st"
proof -
  have "completion_reply en ar ap rv self ids \<noteq> Answered r" for ids
    using ans(2) by (auto simp: completion_reply_def)
  then show ?thesis
    using ans(1) unfolding execute_claimed_pending [OF ok] Let_def
    by (auto split: if_splits sum.splits prod.splits)
qed

lemma escalate_failed:
  assumes "fst (escalate en pr reason ar ap rv st) = Answered r"
  shows "escalate en pr reason ar ap rv st = record_failure en ar ap reason ''validation_failed'' st"
  using assms by (auto simp: escalate_def commit_or_fail_def split: sum.splits if_splits)

lemma approve_pending_failed:
  assumes ok: "engine_ok st" and look: "action_by_id st (ar_id ar) = Some ar"
      "approval_of st (ar_id ar) = Some ap" "approval_by_id st (ap_id ap) = Some ap"
    and pair: "pair_pending ar ap" "\<not> pair_expired ar ap (en_now en)"
    and ans: "fst (approve_pending en pr reason ar ap st) = Answered r" "dn_status r \<noteq> Completed"
  shows "\<exists>c. approve_pending en pr reason ar ap st
      = (failure_reply en ar ap st, failure_store en reason c ar ap (st\<lparr>st_domain := en_concurrent en (st_domain st)\<rparr>))"
proof -
  let ?later = "st\<lparr>st_domain := en_concurrent en (st_domain st)\<rparr>" and ?ctx = "env_context en st"
  have later: "engine_ok ?later" "action_by_id ?later (ar_id ar) = Some ar"
    "approval_of ?later (ar_id ar) = Some ap" "approval_by_id ?later (ap_id ap) = Some ap"
    using ok look by simp_all
  have "\<exists>c. approve_pending en pr reason ar ap st = record_failure en ar ap reason c ?later"
  proof (cases "revalidate_twice en ar ?ctx st")
    case (Inl e)
    then show ?thesis by (auto simp: approve_pending_def)
  next
    case (Inr p)
    obtain h ss rv where p: "p = (h, ss, rv)" by (cases p)
    let ?d = "evaluate_action_approval ?ctx (current_question ar rv)"
    show ?thesis
    proof (cases "pd_allowed ?d")
      case True
      then have "approve_pending en pr reason ar ap st
          = execute_claimed en pr reason ar ap h ss rv (pd_self_approved ?d) ?later"
        by (simp add: approve_pending_def Inr p)
      with execute_claimed_failed [OF later(1,2) pair] ans show ?thesis by metis
    next
      case False
      with ans(1) have "approve_pending en pr reason ar ap st = escalate en pr reason ar ap rv ?later"
        by (simp add: approve_pending_def Inr p Let_def split: if_splits)
      with escalate_failed ans(1) show ?thesis by metis
    qed
  qed
  then obtain c where c: "approve_pending en pr reason ar ap st = record_failure en ar ap reason c ?later" by blast
  have "failure_reply en ar ap ?later = failure_reply en ar ap st" by (simp add: failure_reply_def)
  with c ans(1) show ?thesis unfolding record_failure_pending [OF later pair(1)] by (auto split: if_splits)
qed

text \<open>
  C17: A failed approval leaves no trace in the IT tables. When \<open>approve\<close> answers and the status it
  reports is not Completed, it is Failed: the request is failed and its approval decided by this
  approver, one audit entry says so, and the IT tables hold what the other sessions committed, with
  nothing of the attempted execution.
\<close>
theorem failed_approval_rolls_back:
  assumes ok: "engine_ok st"
    and ans: "approve en i reason st = (Answered r, st')" "dn_status r \<noteq> Completed"
  shows "dn_status r = Failed \<and> dn_executed r = 0
    \<and> st_domain st' = en_concurrent en (st_domain st)
    \<and> (\<exists>ar ap e. locked_pair st i = Some (ar, ap) \<and> life_of st' (ar_id ar) = Some (Failed, Some ApApproved)
         \<and> approval_of st' (ar_id ar) = Some (decide_approval en ApApproved reason ap)
         \<and> st_audits st' = st_audits st @ [e] \<and> al_event_type e = ''action_failed''
         \<and> al_actor e = au_id (en_user en) \<and> al_action_request_id e = ar_id ar)"
proof -
  from ans(1) have "fst (approve en i reason st) = Answered r" by simp
  then obtain ar ap pr where lp: "locked_pair st i = Some (ar, ap)"
    and pr: "action_presentation (ar_action_type ar) = Inr pr"
    and al: "pd_allowed (approval_decision ar (env_context en st))" and pend: "pair_pending ar ap"
      "\<not> pair_expired ar ap (en_now en)"
    unfolding approve_def by (rule with_pending_pair_Answered)
  note look = locked_pair_SomeD [OF ok lp]
  let ?later = "st\<lparr>st_domain := en_concurrent en (st_domain st)\<rparr>"
  have run: "approve_pending en pr reason ar ap st = (Answered r, st')"
    using approve_reaches [OF lp pr al pend] ans(1) by simp
  have "approval_by_id st (ap_id ap) = Some ap" using look(4,5) by simp
  from approve_pending_failed [OF ok look(2,3) this pend, of pr reason r] run ans(2)
  obtain c where c: "Answered r = failure_reply en ar ap st" "st' = failure_store en reason c ar ap ?later"
    by auto
  let ?ar = "failed_action en c ar" and ?ap = "decide_approval en ApApproved reason ap"
  have later: "engine_ok ?later" "action_by_id ?later (ar_id ar) = Some ar" "approval_of ?later (ar_id ar) = Some ap"
    using ok look by simp_all
  have "row_ok ?ar (Some ?ap)" by (simp add: row_ok_def failed_action_def decide_approval_def)
  then have mv: "action_by_id (move_pair ?ar ?ap ?later) (ar_id ar) = Some ?ar"
    "approval_of (move_pair ?ar ?ap ?later) (ar_id ar) = Some ?ap"
    using move_pair_ok(2,3) [OF later, of ?ar ?ap "ar_id ar"] by (simp_all add: failed_action_def decide_approval_def)
  then have rows: "action_by_id st' (ar_id ar) = Some ?ar" "approval_of st' (ar_id ar) = Some ?ap"
    by (simp_all add: c(2) failure_store_def Let_def)
  then have "life_of st' (ar_id ar) = Some (Failed, Some ApApproved)"
    by (simp add: life_of_def failed_action_def decide_approval_def)
  with rows lp c show ?thesis
    by (auto simp: failure_reply_def failure_store_def Let_def build_action_audit_log_def failure_event_def
        failed_action_def)
qed


definition faulty_env :: action_env where
  "faulty_env = (example_env approver_id 20)\<lparr>en_fault := (\<lambda>_. True)\<rparr>"

lemma example_fails:
  "\<exists>r st'. approve faulty_env approval_id ''ok'' example_actions = (Answered r, st') \<and> dn_status r = Failed"
proof -
  have env: "env_context faulty_env example_actions = example_ctx" "en_now faulty_env = 20"
    "en_failure_commit faulty_env = Committed" "\<And>s. en_fault faulty_env s"
    "en_registry faulty_env = default_registry" "en_concurrent faulty_env dm = dm" for dm
    by (simp_all add: faulty_env_def example_ctx_def env_context_def)
  note look = locked_pair_SomeD [OF example_actions_ok example_pair(1)]
  have pr: "action_presentation (ar_action_type example_action) = Inr (PRESENTATIONS ReclaimUnusedLicense)"
    by (simp add: action_presentation_def supported_action_type_of_def)
  have "approve faulty_env approval_id ''ok'' example_actions
      = approve_pending faulty_env (PRESENTATIONS ReclaimUnusedLicense) ''ok'' example_action example_approval example_actions"
    by (rule approve_reaches [OF example_pair(1) pr])
       (simp_all add: env approval_decision_def)
  also have "\<dots> = record_failure faulty_env example_action example_approval ''ok'' ''validation_failed''
      (example_actions\<lparr>st_domain := en_concurrent faulty_env (st_domain example_actions)\<rparr>)"
  proof -
    obtain s where "set_rls_context (ss_settings (en_session faulty_env)) (build_rls_context example_ctx) = Inr s"
      using set_rls_context_Inr by blast
    then have "\<exists>e. revalidate_twice faulty_env example_action example_ctx example_actions = Inl e"
      by (simp add: revalidate_twice_def checked_def example_ready env example_registry Let_def staged_def)
    then show ?thesis by (auto simp: approve_pending_def env)
  qed
  finally show ?thesis
    using look example_actions_ok
    by (simp add: record_failure_pending env failure_reply_def)
qed

lemma failed_approval_rolls_back_witness:
  "\<exists>r st'. approve faulty_env approval_id ''ok'' example_actions = (Answered r, st')
    \<and> dn_status r = Failed \<and> st_domain st' = example_domain"
proof -
  obtain r st' where a: "approve faulty_env approval_id ''ok'' example_actions = (Answered r, st')"
    "dn_status r = Failed"
    using example_fails by blast
  have "st_domain st' = en_concurrent faulty_env (st_domain example_actions)"
    using failed_approval_rolls_back [OF example_actions_ok a(1)] a(2) by simp
  with a show ?thesis by (simp add: faulty_env_def example_ready)
qed

text \<open>
  C28: Under the action role a disable revalidation reports a skipped user only as unavailable, as recently
  logged in, or as outside the approver's scopes: it never reports a service account, an account that is
  already disabled, or an invalid state, whatever the tables hold.
\<close>
theorem disable_skips_under_action_role:
  assumes "revalidate_disable_targets ss dm ar ctx now = Inr rv" and "under_action_role ss"
    and "s \<in> set (rv_skipped rv)"
  shows "sk_code s = ''record_not_found_or_not_authorized'' \<or> sk_code s = ''recent_successful_login''
    \<or> sk_code s = ''scope_unavailable''"
proof -
  have "hd_revalidate disable_handler ss dm ar ctx now = Inr rv" using assms(1) by (simp add: disable_handler_def)
  then show ?thesis using assms(2,3) by (rule disable_skip_codes)
qed


definition disabled_domain :: it_domain where
  "disabled_domain = example_domain\<lparr>it_users := [(hd (it_users example_domain))\<lparr>du_account_status := ''disabled''\<rparr>]\<rparr>"

lemma disabled_revalidates:
  "\<exists>rv. revalidate_disable_targets (approver_session (example_env approver_id 20) example_ctx) disabled_domain
      disable_action example_ctx 20 = Inr rv
    \<and> rv_skipped rv = [\<lparr>sk_id = holder_id, sk_code = ''record_not_found_or_not_authorized'',
         sk_reason = ''The selected record is unavailable.''\<rparr>]"
proof -
  have role: "under_action_role (approver_session (example_env approver_id 20) example_ctx)"
    by (simp add: approver_session_def)
  then have "disable_rows (approver_session (example_env approver_id 20) example_ctx) disabled_domain [holder_id] = []"
    by (simp add: disable_rows_def disabled_domain_def example_domain_def user_lockable_def)
  then show ?thesis
    by (simp add: revalidate_disable_targets_def checked_def validate_action_snapshot_def
        supported_action_type_of_def disable_snapshot disable_targets find_by_def disable_verdict_def
        verdict_skips_def disable_safe_reason_def)
qed

lemma disable_skips_under_action_role_witness:
  "\<exists>rv s. revalidate_disable_targets (approver_session (example_env approver_id 20) example_ctx) disabled_domain
      disable_action example_ctx 20 = Inr rv
    \<and> s \<in> set (rv_skipped rv)
    \<and> (sk_code s = ''record_not_found_or_not_authorized'' \<or> sk_code s = ''recent_successful_login''
       \<or> sk_code s = ''scope_unavailable'')"
proof -
  obtain rv s where rv: "revalidate_disable_targets (approver_session (example_env approver_id 20) example_ctx)
      disabled_domain disable_action example_ctx 20 = Inr rv" "s \<in> set (rv_skipped rv)"
    using disabled_revalidates by (metis list.set_intros(1))
  have "under_action_role (approver_session (example_env approver_id 20) example_ctx)"
    by (simp add: approver_session_def)
  from disable_skips_under_action_role [OF rv(1) this rv(2)] rv show ?thesis by blast
qed

section \<open>Stored previews\<close>

definition previews_ok :: "action_store \<Rightarrow> bool" where
  "previews_ok st \<longleftrightarrow> list_all (\<lambda>ar. safe_action_preview ar = Inr ()) (st_actions st)"

text \<open>The check reads these fields only.\<close>

definition same_snapshot :: "action_request \<Rightarrow> action_request \<Rightarrow> bool" where
  "same_snapshot ar ar' \<longleftrightarrow>
     ar_action_type ar' = ar_action_type ar \<and> ar_requested_by ar' = ar_requested_by ar
     \<and> ar_scope_id ar' = ar_scope_id ar \<and> ar_scope_type ar' = ar_scope_type ar
     \<and> ar_access_context_snapshot ar' = ar_access_context_snapshot ar
     \<and> ar_access_decision_snapshot ar' = ar_access_decision_snapshot ar
     \<and> ar_preview_json ar' = ar_preview_json ar \<and> ar_policy_flags ar' = ar_policy_flags ar
     \<and> ar_skipped_records ar' = ar_skipped_records ar \<and> ar_requires_admin ar' = ar_requires_admin ar
     \<and> ar_record_count ar' = ar_record_count ar \<and> ar_skipped_count ar' = ar_skipped_count ar"

lemma same_snapshot_valid:
  assumes "same_snapshot ar ar'"
  shows "validate_action_snapshot ar' = validate_action_snapshot ar"
proof -
  note f = assms [unfolded same_snapshot_def]
  have "list_parts ar' = list_parts ar" "snapshot_shape ar' = snapshot_shape ar" for ty
    using f by (simp_all add: list_parts_def snapshot_shape_def fun_eq_iff Let_def)
  moreover from this have "snapshot_flags ar' = snapshot_flags ar"
    "expected_disable_counts ar' = expected_disable_counts ar"
    "validate_disable_access_snapshots ar' = validate_disable_access_snapshots ar"
    using f by (simp_all add: snapshot_flags_def expected_flag_codes_def expected_disable_counts_def
        validate_disable_access_snapshots_def fun_eq_iff)
  ultimately have "validate_reclaim_snapshot ar' = validate_reclaim_snapshot ar"
    "validate_disable_snapshot ar' = validate_disable_snapshot ar"
    using f by (simp_all add: validate_reclaim_snapshot_def validate_disable_snapshot_def)
  then show ?thesis
    using f by (simp add: validate_action_snapshot_def split: option.split supported_action_type.split)
qed

lemma same_snapshot_safe:
  assumes "same_snapshot ar ar'"
  shows "safe_action_preview ar' = safe_action_preview ar"
  using same_snapshot_valid [OF assms] assms by (simp add: safe_action_preview_def same_snapshot_def)

lemma safe_preview_fields [simp]:
  "safe_action_preview (ar\<lparr>ar_status := s\<rparr>) = safe_action_preview ar"
  "safe_action_preview (submitted_action en reason ar) = safe_action_preview ar"
  "safe_action_preview (failed_action en c ar) = safe_action_preview ar"
  "safe_action_preview (ar\<lparr>ar_status := s, ar_approved_at := t\<rparr>) = safe_action_preview ar"
  by (rule same_snapshot_safe, simp add: same_snapshot_def submitted_action_def failed_action_def)+

lemma safe_preview_valid: "safe_action_preview ar = Inr () \<Longrightarrow> validate_action_snapshot ar = Inr ()"
  by (auto simp: safe_action_preview_def result_bind_Inr_iff)

lemma previews_ok_tables [simp]:
  "previews_ok (put_approval ap st) = previews_ok st" "previews_ok (add_approval ap st) = previews_ok st"
  "previews_ok (add_audit a st) = previews_ok st" "previews_ok (add_notifications ns st) = previews_ok st"
  "previews_ok (st\<lparr>st_domain := d\<rparr>) = previews_ok st" "previews_ok (st\<lparr>st_approvals := aps\<rparr>) = previews_ok st"
  by (simp_all add: previews_ok_def)

lemma previews_ok_put [simp]:
  "previews_ok st \<Longrightarrow> safe_action_preview ar = Inr () \<Longrightarrow> previews_ok (put_action ar st)"
  by (auto simp: previews_ok_def put_action_def list_all_iff)

lemma previews_ok_update:
  "previews_ok st \<Longrightarrow> (\<And>ar. safe_action_preview (f ar) = safe_action_preview ar) \<Longrightarrow>
     previews_ok (snd (update_actions c f st))"
  by (auto simp: previews_ok_def update_actions_def list_all_iff)

lemma previews_ok_update_approvals [simp]: "previews_ok (snd (update_approvals c f st)) = previews_ok st"
  by (simp add: update_approvals_def)

lemma previews_ok_row: "previews_ok st \<Longrightarrow> action_by_id st i = Some ar \<Longrightarrow> safe_action_preview ar = Inr ()"
  by (auto simp: previews_ok_def list_all_iff dest: action_by_id_SomeD)

lemma previews_ok_commit:
  "previews_ok st \<Longrightarrow> previews_ok st' \<Longrightarrow> previews_ok (snd (commit_or_fail en m st st' r))"
  by (simp add: commit_or_fail_def)

lemma expire_action_previews:
  "previews_ok st \<Longrightarrow> action_by_id st i = Some ar \<Longrightarrow> previews_ok (snd (expire_action_request en ar kind st))"
  using previews_ok_row [of st i ar]
  by (auto simp: expire_action_request_def Let_def intro!: previews_ok_commit split: option.splits)

lemma submit_previews:
  assumes "previews_ok st"
  shows "previews_ok (snd (submit_request en i reason st))"
proof (cases "owned_action st i (au_id (en_user en))")
  case None
  with assms show ?thesis by (simp add: submit_request_def)
next
  case (Some ar)
  then have ar: "action_by_id st i = Some ar" using owned_action_SomeD by blast
  have "previews_ok (submitted_store en pr reason ar st)" for pr
    using assms previews_ok_row [OF assms ar] by (simp add: submitted_store_def Let_def)
  then have "previews_ok (snd (submit_draft en pr reason ar st))" for pr
    using assms by (auto simp: submit_draft_def Let_def split: commit_outcome.splits option.splits)
  with assms expire_action_previews [OF assms ar] Some show ?thesis
    by (auto simp: submit_request_def with_valid_snapshot_def
        split: sum.splits snapshot_error.splits option.splits)
qed

lemma cancel_previews:
  assumes "previews_ok st"
  shows "previews_ok (snd (cancel_request en i reason st))"
proof (cases "owned_action st i (au_id (en_user en))")
  case None
  with assms show ?thesis by (simp add: cancel_request_def)
next
  case (Some ar)
  then have ar: "action_by_id st i = Some ar" using owned_action_SomeD by blast
  with assms expire_action_previews [OF assms ar] previews_ok_row [OF assms ar] Some show ?thesis
    by (auto simp: cancel_request_def with_valid_snapshot_def Let_def intro!: previews_ok_commit
        split: sum.splits snapshot_error.splits option.splits)
qed

text \<open>The updates by condition, in the shapes the approval service uses.\<close>

lemma update_pair_previews:
  assumes "previews_ok st" "\<And>ar. safe_action_preview (f ar) = safe_action_preview ar"
    and "update_actions c f st = (n, st1)" "update_approvals d g st1 = (m, st2)"
  shows "previews_ok st2"
  using previews_ok_update [OF assms(1,2), of c] previews_ok_update_approvals [of d g st1] assms(3,4) by simp

lemma expire_one_previews:
  assumes "previews_ok st"
  shows "previews_ok (snd (expire_one en ar ap st))"
  using assms update_pair_previews [OF assms, of "\<lambda>x. x\<lparr>ar_status := Expired\<rparr>"]
  unfolding expire_one_def Let_def by (simp split: prod.split)

lemma refuse_expired_previews:
  assumes "previews_ok st"
  shows "previews_ok (snd (refuse_expired en ar ap st))"
  using expire_one_previews [OF assms, of en ar ap] by (auto simp: refuse_expired_def split: prod.splits sum.splits)

lemma with_pending_pair_previews:
  assumes "previews_ok st" and "\<And>pr ar ap. locked_pair st i = Some (ar, ap) \<Longrightarrow> previews_ok (snd (k pr ar ap))"
  shows "previews_ok (snd (with_pending_pair en i st k))"
  using assms refuse_expired_previews [OF assms(1)]
  by (auto simp: with_pending_pair_def split: option.splits sum.splits)

lemma reject_previews:
  assumes "previews_ok st"
  shows "previews_ok (snd (reject en i reason st))"
  unfolding reject_def
proof (rule with_pending_pair_previews [OF assms])
  fix pr ar ap
  show "previews_ok (snd (reject_pending en pr reason ar ap st))"
    using assms update_pair_previews [OF assms, of "\<lambda>x. x\<lparr>ar_status := Rejected\<rparr>"]
    unfolding reject_pending_def Let_def by (simp add: previews_ok_commit split: prod.split)
qed

lemma sweep_previews:
  assumes "previews_ok st"
  shows "previews_ok (snd (foldl (sweep_one en ctx) (b, st) ps))"
  using assms
proof (induction ps arbitrary: b st)
  case (Cons p ps)
  have up: "previews_ok st1" if "update_actions c (\<lambda>x. x\<lparr>ar_status := Expired\<rparr>) st = (n, st1)" for c n st1
    using previews_ok_update [OF Cons.prems, of "\<lambda>x. x\<lparr>ar_status := Expired\<rparr>" c] that by simp
  have "previews_ok (snd (sweep_one en ctx (b, st) p))"
    using Cons.prems up by (cases p) (auto simp: sweep_one_def Let_def split: prod.split)
  with Cons.IH [of "snd (sweep_one en ctx (b, st) p)" "fst (sweep_one en ctx (b, st) p)"]
  show ?case by simp
qed simp

lemma list_pending_previews:
  assumes "previews_ok st"
  shows "previews_ok (snd (list_pending en limit offset st))"
proof -
  have "previews_ok (snd (expire_pending_requests en ctx st))" for ctx
    using assms sweep_previews [OF assms, of en ctx False "expired_pairs (en_now en) st"]
    by (auto simp: expire_pending_requests_def split: prod.splits bool.splits)
  then have "expire_pending_requests en ctx st = (r, st') \<Longrightarrow> previews_ok st'" for ctx r st' by (metis snd_conv)
  with assms show ?thesis by (auto simp: list_pending_def Let_def split: prod.splits sum.splits)
qed

lemma get_approval_detail_previews:
  assumes "previews_ok st"
  shows "previews_ok (snd (get_approval_detail en i st))"
  using assms expire_one_previews [OF assms]
  by (auto simp: get_approval_detail_def Let_def split: prod.splits sum.splits option.splits) (metis snd_conv)+


text \<open>Approving writes back documents that pass the check.\<close>

lemma completed_preview:
  assumes "build_default_action_registry = Inr reg" "registry_get reg (ar_action_type ar) = Some h"
    and "hd_revalidate h ss dm ar ctx now = Inr rv" "safe_action_preview ar = Inr ()"
  shows "safe_action_preview (completed_action en ar rv) = Inr ()"
  using completed_snapshot [OF assms(1-3) safe_preview_valid [OF assms(4)]] assms(4)
  by (auto simp: safe_action_preview_def result_bind_Inr_iff split: if_splits)

lemma escalated_preview:
  assumes "safe_action_preview ar = Inr ()" and "safe_action_revalidation_flags ty rv = Inr flags"
  shows "safe_action_preview (escalated_action ar rv flags) = Inr ()"
proof -
  have "map_of (dict_items (ar_policy_flags (escalated_action ar rv flags))) ''revalidation_flags'' = Some flags"
    by (simp add: escalated_action_def jset_def)
  moreover have "json_iterable flags"
    using assms(2) by (auto simp: safe_action_revalidation_flags_def result_bind_Inr_iff)
  ultimately show ?thesis
    using escalated_snapshot [OF safe_preview_valid [OF assms(1)]]
    by (simp add: safe_action_preview_def revalidation_flags_iterable_def)
qed

lemma record_failure_previews:
  assumes "previews_ok st"
  shows "previews_ok (snd (record_failure en ar ap reason c st))"
proof -
  have "previews_ok (snd (persist_execution_failure en i j reason c st))" for i j
    using assms update_pair_previews [OF assms, of "failed_action en c"]
    unfolding persist_execution_failure_def Let_def by (simp split: prod.split option.split)
  then have "persist_execution_failure en i j reason c st = (r, st') \<Longrightarrow> previews_ok st'" for i j r st'
    by (metis snd_conv)
  then show ?thesis by (auto simp: record_failure_def split: prod.splits sum.splits bool.splits)
qed

lemma approve_pending_previews:
  assumes ok: "previews_ok st" and ar: "action_by_id st i = Some ar"
    and reg: "build_default_action_registry = Inr (en_registry en)"
  shows "previews_ok (snd (approve_pending en pr reason ar ap st))"
proof -
  let ?later = "st\<lparr>st_domain := en_concurrent en (st_domain st)\<rparr>" and ?ctx = "env_context en st"
  have row: "safe_action_preview ar = Inr ()" by (rule previews_ok_row [OF ok ar])
  have later: "previews_ok ?later" using ok by simp
  note fail = record_failure_previews [OF later]
  have esc: "previews_ok (snd (escalate en pr reason ar ap rv ?later))" for rv
    using fail later escalated_preview [OF row]
    by (auto simp: escalate_def escalated_store_def Let_def staged_Inr intro!: previews_ok_commit
        split: sum.splits)
  have exec: "previews_ok (snd (execute_claimed en pr reason ar ap h ss rv self ?later))"
    if "revalidate_twice en ar ?ctx st = Inr (h, ss, rv)" for h ss rv self
  proof -
    note R = revalidate_twice_Inr [OF that]
    have "safe_action_preview (completed_action en ar rv) = Inr ()"
      by (rule completed_preview [OF reg R(2,3) row])
    moreover have "previews_ok claimed"
      if "update_actions c (\<lambda>x. x\<lparr>ar_status := ApprovedExecuting, ar_approved_at := Some (en_now en)\<rparr>) ?later
          = (n, claimed)" for c n claimed
      using previews_ok_update [OF later, of "\<lambda>x. x\<lparr>ar_status := ApprovedExecuting,
          ar_approved_at := Some (en_now en)\<rparr>" c] that by simp
    ultimately show ?thesis
      using fail later
      by (auto simp: execute_claimed_def Let_def completed_store_def split: prod.splits sum.splits)
  qed
  show ?thesis
    using fail esc exec later
    by (auto simp: approve_pending_def Let_def split: sum.splits)
qed

lemma approve_previews:
  assumes ok: "engine_ok st" "previews_ok st" and reg: "build_default_action_registry = Inr (en_registry en)"
  shows "previews_ok (snd (approve en i reason st))"
  unfolding approve_def
proof (rule with_pending_pair_previews [OF ok(2)])
  fix pr ar ap
  assume "locked_pair st i = Some (ar, ap)"
  from locked_pair_SomeD(2) [OF ok(1) this]
  show "previews_ok (snd (approve_pending en pr reason ar ap st))"
    by (rule approve_pending_previews [OF ok(2) _ reg])
qed

text \<open>
  C26: A stored preview stays readable. When every stored preview passes its check, it still does after
  submitting, cancelling, listing, reading, rejecting and approving, including the counts, exclusions and
  flags a completion and an escalation rewrite: the engine never makes a preview unavailable itself.
\<close>
theorem stored_previews_stay_valid:
  assumes "engine_ok st" and "previews_ok st" and "build_default_action_registry = Inr (en_registry en)"
  shows "previews_ok (snd (submit_request en i reason st)) \<and> previews_ok (snd (cancel_request en i reason st))
    \<and> previews_ok (snd (list_pending en limit offset st)) \<and> previews_ok (snd (get_approval_detail en i st))
    \<and> previews_ok (snd (reject en i reason st)) \<and> previews_ok (snd (approve en i reason st))"
  using assms
  by (simp add: submit_previews cancel_previews list_pending_previews get_approval_detail_previews
      reject_previews approve_previews)

lemma stored_previews_stay_valid_witness:
  "previews_ok (snd (approve (example_env approver_id 20) approval_id ''ok'' example_actions))"
proof -
  have "safe_action_preview example_action = Inr ()"
    by (simp add: safe_action_preview_def example_ready revalidation_flags_iterable_def)
  then have "previews_ok example_actions" by (simp add: previews_ok_def example_actions_def)
  moreover have "build_default_action_registry = Inr (en_registry (example_env approver_id 20))"
    by (simp add: example_registry)
  ultimately show ?thesis
    using stored_previews_stay_valid [OF example_actions_ok] by blast
qed

end
