(* ===== verification/Request_Guarantees.thy ===== *)
theory Request_Guarantees
  imports Action_Guarantees
begin

text \<open>
  The requester's view and the bookkeeping of the action engine: late decisions, submitting twice,
  the count of what was executed and skipped, the pending list, and the audit metadata.
\<close>

section \<open>Late decisions\<close>

lemma with_pending_pair_late:
  assumes ok: "engine_ok st" and lp: "locked_pair st i = Some (ar, ap)" "pair_pending ar ap"
      "pair_expired ar ap (en_now en)"
    and adm: "approval_admits (env_context en st) (action_question ar)"
    and ty: "supported_action_type_of (ar_action_type ar) \<noteq> None" and com: "en_commit en = Committed"
  shows "with_pending_pair en i st k = (ServiceError action_expired_error, snd (expire_one en ar ap st))"
    and "life_of (snd (expire_one en ar ap st)) (ar_id ar) = Some (Expired, Some ApExpired)"
    and "st_domain (snd (expire_one en ar ap st)) = st_domain st"
proof -
  note look = locked_pair_SomeD [OF ok lp(1)]
  note one = expire_one_pending [OF ok look(2,3) lp(2,3)]
  obtain st1 where "expire_one en ar ap st = (Inr True, st1)"
    using com by (simp add: one Let_def)
  moreover obtain pr where "action_presentation (ar_action_type ar) = Inr pr"
    using ty by (auto simp: action_presentation_def)
  ultimately show "with_pending_pair en i st k = (ServiceError action_expired_error, snd (expire_one en ar ap st))"
    using lp adm
    by (simp add: with_pending_pair_def approval_decision_allowed_iff refuse_expired_def)
  let ?ar = "ar\<lparr>ar_status := Expired\<rparr>" and ?ap = "ap\<lparr>ap_status := ApExpired, ap_decided_at := Some (en_now en)\<rparr>"
  have "row_ok ?ar (Some ?ap)" by (simp add: row_ok_def)
  then have mv: "action_by_id (move_pair ?ar ?ap st) (ar_id ar) = Some ?ar"
    "approval_of (move_pair ?ar ?ap st) (ar_id ar) = Some ?ap"
    using move_pair_ok(2,3) [OF ok look(2,3), of ?ar ?ap "ar_id ar"] by simp_all
  then show "life_of (snd (expire_one en ar ap st)) (ar_id ar) = Some (Expired, Some ApExpired)"
    using com by (simp add: one Let_def life_of_def)
  show "st_domain (snd (expire_one en ar ap st)) = st_domain st"
    by (rule expire_one_domain)
qed

text \<open>
  A late decision is refused. When the deadline of a pending pair has passed, approving and rejecting
  by an admitted approver are both answered with 410, touch no IT row, and leave the request and its
  approval expired; executing never happens after the deadline.
\<close>
theorem late_decision_is_refused:
  assumes "engine_ok st" "locked_pair st i = Some (ar, ap)" "pair_pending ar ap"
      "pair_expired ar ap (en_now en)" "approval_admits (env_context en st) (action_question ar)"
      "supported_action_type_of (ar_action_type ar) \<noteq> None" "en_commit en = Committed"
  shows "\<exists>st'. approve en i reason st = (ServiceError action_expired_error, st')
    \<and> reject en i reason st = (ServiceError action_expired_error, st')
    \<and> ae_status_code action_expired_error = 410
    \<and> st_domain st' = st_domain st \<and> life_of st' (ar_id ar) = Some (Expired, Some ApExpired)"
  unfolding approve_def reject_def with_pending_pair_late(1) [OF assms]
  using with_pending_pair_late(2,3) [OF assms] by (auto simp: action_expired_error_def)

lemma late_decision_is_refused_witness:
  "\<exists>st'. approve (example_env approver_id 100) approval_id ''ok'' example_actions
      = (ServiceError action_expired_error, st') \<and> life_of st' request_id = Some (Expired, Some ApExpired)"
proof -
  have ctx: "env_context (example_env approver_id 100) example_actions = example_ctx"
    by (simp add: example_ctx_def env_context_def example_env_def)
  show ?thesis
    using late_decision_is_refused [OF example_actions_ok example_pair(1,2), of "example_env approver_id 100" "''ok''"]
      example_admitted
    by (auto simp: ctx supported_action_type_of_def)
qed

section \<open>Submitting twice\<close>

lemma reply_view_auth: "st_auth st' = st_auth st \<Longrightarrow> reply_view en st' = reply_view en st"
  by (simp add: reply_view_def env_context_def fun_eq_iff)

text \<open>An answered submission either found the request pending or moved the draft.\<close>

lemma submit_Answered:
  assumes ok: "engine_ok st" and ans: "submit_request en i reason st = (Answered v, st')"
  obtains (pending) ar where "owned_action st i (au_id (en_user en)) = Some ar" "ar_status ar = PendingApproval"
      "st' = st"
    | (draft) ar pr where "owned_action st i (au_id (en_user en)) = Some ar" "ar_status ar = DraftPreview"
      "action_presentation (ar_action_type ar) = Inr pr" "validate_action_snapshot ar = Inr ()"
      "registry_get (en_registry en) (ar_action_type ar) \<noteq> None"
      "has_permission (env_context en st) ''can_request_action''"
      "st' = submitted_store en pr reason ar st"
      "reply_view en st (submitted_action en reason ar) (Some (new_approval en pr reason (submitted_action en reason ar)))
         = Answered v"
proof -
  have exp: "fst (expire_action_request en ar kind st) \<noteq> Answered v" for ar kind
    by (simp add: expire_action_request_def Let_def commit_or_fail_def)
  have none: "fst (x :: action_view service, y :: action_store) \<noteq> Answered v \<Longrightarrow> (x, y) \<noteq> (Answered v, st')" for x y
    by auto
  obtain ar where own: "owned_action st i (au_id (en_user en)) = Some ar"
    using ans by (auto simp: submit_request_def split: if_splits option.splits)
  note ar = owned_action_SomeD [OF own]
  have exp': "expire_action_request en a kind st \<noteq> (Answered v, st')" for a kind
    using exp [of a kind] by (metis fst_conv)
  show thesis
  proof (cases "ar_status ar = PendingApproval")
    case True
    then have "st' = st"
      using ans own exp' [of ar]
      by (auto simp: submit_request_def with_valid_snapshot_def
          split: if_splits option.splits sum.splits snapshot_error.splits)
    with own True show thesis by (rule pending)
  next
    case False
    obtain pr where pr: "action_presentation (ar_action_type ar) = Inr pr"
      using ans own by (auto simp: submit_request_def split: if_splits option.splits sum.splits)
    have cond: "ar_status ar = DraftPreview" "validate_action_snapshot ar = Inr ()"
      "registry_get (en_registry en) (ar_action_type ar) \<noteq> None"
      "has_permission (env_context en st) ''can_request_action''"
      "submit_draft en pr reason ar st = (Answered v, st')"
      using ans own False pr exp' [of ar]
      by (auto simp: submit_request_def with_valid_snapshot_def
          split: if_splits option.splits sum.splits snapshot_error.splits)
    have "approval_of st (ar_id ar) = None"
      using engine_ok_row [OF ok, of "ar_id ar" ar] ar cond(1) by (auto simp: row_ok_def)
    then have "st' = submitted_store en pr reason ar st"
      "reply_view en st (submitted_action en reason ar)
         (Some (new_approval en pr reason (submitted_action en reason ar))) = Answered v"
      using cond(5) by (auto simp: submit_draft_def Let_def split: commit_outcome.splits option.splits)
    with own cond pr show thesis by (intro draft)
  qed
qed

text \<open>A pending request that is submitted again, in any environment.\<close>

lemma submit_pending:
  assumes "has_permission (env_context en st) ''can_request_action''"
    and "owned_action st i (au_id (en_user en)) = Some ar" "ar_status ar = PendingApproval"
    and "registry_get (en_registry en) (ar_action_type ar) \<noteq> None"
    and "action_presentation (ar_action_type ar) = Inr pr" "validate_action_snapshot ar = Inr ()"
    and "approval_of st (ar_id ar) = Some ap"
  shows "submit_request en i reason st =
    (if deadline_passed (ar_expires_at ar) (en_now en) then expire_action_request en ar ''pending_approval'' st
     else (reply_view en st ar (Some ap), st))"
  using assms by (auto simp: submit_request_def with_valid_snapshot_def)

text \<open>The reply for a pending request in time depends on the session only by its user and scopes.\<close>

lemma reply_view_pending:
  assumes "reply_view en st ar ap = Answered v" "ar_status ar = PendingApproval"
    and "\<not> deadline_passed (ar_expires_at ar) (en_now en)" "\<not> deadline_passed (ar_expires_at ar) (en_now en')"
    and "env_context en' st' = env_context en st"
  shows "reply_view en' st' ar ap = Answered v"
  using assms by (simp add: reply_view_def serialize_action_request_def effective_deadline_def)

lemma resubmission_answer:
  assumes ok: "engine_ok st" and ans: "submit_request en i reason st = (Answered v, st')"
    and same: "en_user en' = en_user en" "en_scope_order en' = en_scope_order en" "en_registry en' = en_registry en"
  shows "\<exists>ar. action_by_id st' i = Some ar \<and> ar_status ar = PendingApproval
    \<and> submit_request en' i reason' st' =
        (if deadline_passed (ar_expires_at ar) (en_now en')
         then expire_action_request en' ar ''pending_approval'' st' else (Answered v, st'))"
  using ok ans
proof (cases rule: submit_Answered)
  case (pending ar)
  have exp: "expire_action_request en a kind st \<noteq> (Answered v, st')" for a kind
    by (simp add: expire_action_request_def Let_def commit_or_fail_def split: commit_outcome.splits)
  from ans pending(1,2) exp [of ar] obtain pr ap where
      perm: "has_permission (env_context en st) ''can_request_action''"
    and reg: "registry_get (en_registry en) (ar_action_type ar) \<noteq> None"
    and pr: "action_presentation (ar_action_type ar) = Inr pr" and val: "validate_action_snapshot ar = Inr ()"
    and ap: "approval_of st (ar_id ar) = Some ap"
    by (auto simp: submit_request_def with_valid_snapshot_def
        split: if_splits option.splits sum.splits snapshot_error.splits)
  have first: "\<not> deadline_passed (ar_expires_at ar) (en_now en)" "reply_view en st ar (Some ap) = Answered v"
    using ans submit_pending [OF perm pending(1,2) reg pr val ap, of reason] exp [of ar] by (auto split: if_splits)
  have ctx: "env_context en' st = env_context en st" using same by (simp add: env_context_def)
  note again = submit_pending [of en' st i ar pr ap reason', unfolded ctx same, OF perm pending(1,2) reg pr val ap]
  have "action_by_id st i = Some ar" using owned_action_SomeD [OF pending(1)] by simp
  then show ?thesis
    using again pending(2) reply_view_pending [OF first(2) pending(2) first(1) _ ctx] by (simp add: pending(3))
next
  case (draft ar pr)
  let ?ar = "submitted_action en reason ar" and ?ap = "new_approval en pr reason (submitted_action en reason ar)"
  have ar: "action_by_id st i = Some ar" "ar_id ar = i" "ar_requested_by ar = au_id (en_user en)"
    using owned_action_SomeD [OF draft(1)] by simp_all
  have none: "approval_of st i = None" using engine_ok_row [OF ok ar(1)] draft(2) by (auto simp: row_ok_def)
  have auth: "st_auth st' = st_auth st" by (simp add: draft(7) submitted_store_def Let_def)
  have id: "ar_id ?ar = i" "ap_action_request_id ?ap = Some i"
    by (simp_all add: submitted_action_def new_approval_def ar)
  have row: "action_by_id st' i = Some ?ar"
    using ar id by (simp add: draft(7) submitted_store_def Let_def action_by_id_put)
  then have own: "owned_action st' i (au_id (en_user en)) = Some ?ar"
    by (simp add: owned_action_def submitted_action_def ar)
  have appr: "approval_of st' (ar_id ?ar) = Some ?ap"
    using none id by (simp add: draft(7) submitted_store_def Let_def add_approval_lookup)
  have "same_snapshot ar ?ar" by (simp add: same_snapshot_def submitted_action_def)
  have val: "validate_action_snapshot ?ar = Inr ()"
    using draft(4) same_snapshot_valid [OF \<open>same_snapshot ar ?ar\<close>] by simp
  have ctx: "env_context en' st' = env_context en st" using same auth by (simp add: env_context_def)
  have fields: "ar_action_type ?ar = ar_action_type ar" "ar_status ?ar = PendingApproval"
    "\<not> deadline_passed (ar_expires_at ?ar) (en_now en)"
    by (simp_all add: submitted_action_def PENDING_APPROVAL_LIFETIME_def)
  note again = submit_pending [of en' st' i ?ar pr ?ap reason', unfolded ctx same fields(1),
      OF draft(6) own fields(2) draft(5,3) val appr]
  show ?thesis
    using again row fields(2) reply_view_pending [OF draft(8) fields(2,3) _ ctx] by simp
qed

text \<open>
  C24: Submitting is idempotent until the deadline. After an answered submission the request is pending, and
  submitting it again by the same user, at any moment, with whatever reason, fresh ids and outcome of
  commits, gives the same answer and changes nothing as long as the deadline has not passed: no second
  approval, no second notification and no second audit entry. After the deadline the second submission
  expires the request instead.
\<close>
theorem resubmission_is_idempotent:
  assumes "engine_ok st" and "submit_request en i reason st = (Answered v, st')"
    and "en_user en' = en_user en" "en_scope_order en' = en_scope_order en" "en_registry en' = en_registry en"
  shows "\<exists>ar. action_by_id st' i = Some ar \<and> ar_status ar = PendingApproval
    \<and> submit_request en' i reason' st' =
        (if deadline_passed (ar_expires_at ar) (en_now en')
         then expire_action_request en' ar ''pending_approval'' st' else (Answered v, st'))"
  by (rule resubmission_answer [OF assms])

definition draft_example :: action_store where
  "draft_example = example_actions
     \<lparr>st_actions := [example_action\<lparr>ar_status := DraftPreview\<rparr>], st_approvals := []\<rparr>"

lemma draft_example_ok: "engine_ok draft_example"
  by (simp add: engine_ok_def draft_example_def action_ids_def approval_ids_def linked_ids_def
      approval_of_def find_by_def row_ok_def example_actions_def)

lemma example_preview: "safe_action_preview example_action = Inr ()"
  by (simp add: safe_action_preview_def example_ready revalidation_flags_iterable_def)

lemma example_action_preview_deadline [simp]: "ar_preview_expires_at example_action = Some 50"
  by (simp add: example_action_def)

lemma example_submits:
  "\<exists>v st'. submit_request (example_env requester_id 20) request_id ''x'' draft_example = (Answered v, st')
     \<and> av_status v = PendingApproval"
proof -
  let ?ar = "example_action\<lparr>ar_status := DraftPreview\<rparr>" and ?en = "example_env requester_id 20"
  have perm: "has_permission (env_context ?en draft_example) ''can_request_action''"
    by (simp add: env_context_def has_permission_def example_env_def draft_example_def example_actions_def
        example_permissions)
  have own: "owned_action draft_example request_id requester_id = Some ?ar"
    by (simp add: owned_action_def action_by_id_def find_by_def draft_example_def)
  have none: "approval_of draft_example request_id = None"
    by (simp add: approval_of_def find_by_def draft_example_def)
  have val: "validate_action_snapshot ?ar = Inr ()" using safe_preview_valid example_preview by simp
  have "safe_action_preview (submitted_action ?en ''x'' ?ar) = Inr ()" by (simp add: example_preview)
  then have "\<exists>v. reply_view ?en draft_example (submitted_action ?en ''x'' ?ar) ap = Answered v
      \<and> av_status v = PendingApproval" for ap
    by (auto simp: reply_view_def serialize_action_request_def submitted_action_def)
  then show ?thesis
    using perm own none val
    by (simp add: submit_request_def example_registry action_presentation_def supported_action_type_of_def
        with_valid_snapshot_def submit_draft_def Let_def)
qed

lemma resubmission_is_idempotent_witness:
  "\<exists>v st' ar. submit_request (example_env requester_id 20) request_id ''x'' draft_example = (Answered v, st')
     \<and> action_by_id st' request_id = Some ar
     \<and> submit_request ((example_env requester_id 30)\<lparr>en_new_id := \<lambda>_. ''b''\<rparr>) request_id ''y'' st' =
         (if deadline_passed (ar_expires_at ar) 30
          then expire_action_request ((example_env requester_id 30)\<lparr>en_new_id := \<lambda>_. ''b''\<rparr>) ar ''pending_approval'' st'
          else (Answered v, st'))"
proof -
  obtain v st' where a: "submit_request (example_env requester_id 20) request_id ''x'' draft_example = (Answered v, st')"
    using example_submits by blast
  have env: "en_user ((example_env requester_id 30)\<lparr>en_new_id := \<lambda>_. ''b''\<rparr>) = en_user (example_env requester_id 20)"
      "en_scope_order ((example_env requester_id 30)\<lparr>en_new_id := \<lambda>_. ''b''\<rparr>) = en_scope_order (example_env requester_id 20)"
      "en_registry ((example_env requester_id 30)\<lparr>en_new_id := \<lambda>_. ''b''\<rparr>) = en_registry (example_env requester_id 20)"
      "en_now ((example_env requester_id 30)\<lparr>en_new_id := \<lambda>_. ''b''\<rparr>) = 30"
    by (simp_all add: example_env_def)
  from resubmission_is_idempotent [OF draft_example_ok a env(1-3), of "''y''"] a show ?thesis
    unfolding env(4) by blast
qed

section \<open>What was executed and skipped\<close>

lemma valid_skipped_count:
  assumes "validate_action_snapshot ar = Inr ()"
  shows "ar_skipped_count ar = int (length (prior_skips ar))"
  using assms list_parts_prior [of ar]
  by (auto simp: validate_action_cases validate_reclaim_snapshot_def validate_disable_snapshot_def Let_def
      split: supported_action_type.splits prod.splits)
     (metis supported_action_type.exhaust)

text \<open>
  C25: The counts of a completed approval add up. Executed and skipped records are together the records of
  the request and the skips stored at its preview; so at most the requested number is executed, none is
  counted twice, and the stored row carries the reported number of skips.
\<close>
theorem completion_counts_add_up:
  assumes ok: "engine_ok st" and reg: "build_default_action_registry = Inr (en_registry en)"
    and ans: "approve en i reason st = (Answered r, st')" "dn_status r = Completed"
  shows "\<exists>ar ap. locked_pair st i = Some (ar, ap)
    \<and> int (dn_executed r) + dn_skipped r = ar_record_count ar + ar_skipped_count ar
    \<and> int (dn_executed r) \<le> ar_record_count ar \<and> ar_skipped_count ar \<le> dn_skipped r
    \<and> map_option ar_skipped_count (action_by_id st' (ar_id ar)) = Some (dn_skipped r)"
proof (rule approve_completed [OF ok ans])
  fix ar ap pr h rv ids dm
  assume lp: "locked_pair st i = Some (ar, ap)" and snap: "validate_action_snapshot ar = Inr ()"
    and h: "registry_get (en_registry en) (ar_action_type ar) = Some h"
    and rv: "hd_revalidate h (approver_session en (env_context en st)) (en_concurrent en (st_domain st)) ar
       (env_context en st) (en_now en) = Inr rv"
    and ex: "hd_execute h (approver_session en (env_context en st)) (en_concurrent en (st_domain st)) ar
       (au_id (en_user en)) rv (en_now en) = Inr (ids, dm)"
    and r: "Answered r = completion_reply en ar ap rv
       (pd_self_approved (evaluate_action_approval (env_context en st) (current_question ar rv))) ids"
    and st': "st' = completed_store en pr reason ar ap rv
       (pd_self_approved (evaluate_action_approval (env_context en st) (current_question ar rv))) ids dm
       (st\<lparr>st_domain := en_concurrent en (st_domain st)\<rparr>)"
  note con = handler_contract [OF reg h rv] and look = locked_pair_SomeD [OF ok lp]
  obtain targets where t: "persisted_target_ids (target_record_type ar) ar = Inr targets" "partitions targets rv"
    using con(1) by blast
  have "length ids + length (rv_skipped rv) = length targets"
    using t(2) con(4) [OF ex] by (simp add: partitions_def)
  then have sum: "int (length ids) + int (length (rv_skipped rv)) = ar_record_count ar"
    using persisted_target_ids_props(2) [OF t(1)] by simp
  have prior: "ar_skipped_count ar = int (length (prior_skips ar))" by (rule valid_skipped_count [OF snap])
  have row: "action_by_id st' (ar_id ar) = Some (completed_action en ar rv)"
    using look(2) by (simp add: st' completed_store_def Let_def action_by_id_put completed_action_def)
  show ?thesis
    using lp sum prior row r by (auto simp: completion_reply_def current_skips_def)
qed

lemma completion_counts_add_up_witness:
  "\<exists>r st'. approve (example_env approver_id 20) approval_id ''ok'' example_actions = (Answered r, st')
    \<and> int (dn_executed r) + dn_skipped r = 1"
proof -
  obtain r st' where a: "approve (example_env approver_id 20) approval_id ''ok'' example_actions = (Answered r, st')"
    "dn_status r = Completed"
    using example_approves by blast
  have "build_default_action_registry = Inr (en_registry (example_env approver_id 20))"
    by (simp add: example_registry)
  from completion_counts_add_up [OF example_actions_ok this a] a(1) show ?thesis by auto
qed


section \<open>The pending list\<close>

definition decidable_pairs ::
  "user_access_context \<Rightarrow> instant \<Rightarrow> action_store \<Rightarrow> (action_request \<times> approval_request) set" where
  "decidable_pairs ctx now st =
     {(ar, ap). locked_pair st (ap_id ap) = Some (ar, ap) \<and> pair_pending ar ap
        \<and> \<not> pair_expired ar ap now \<and> approval_admits ctx (action_question ar)}"

text \<open>The order a reader of the list expects: urgency, then age, then the approval id.\<close>

definition listed_before ::
  "action_request \<times> approval_request \<Rightarrow> action_request \<times> approval_request \<Rightarrow> bool" where
  "listed_before p q \<longleftrightarrow>
     priority_rank (ar_priority (fst p)) < priority_rank (ar_priority (fst q))
     \<or> priority_rank (ar_priority (fst p)) = priority_rank (ar_priority (fst q))
       \<and> (ar_created_at (fst p) < ar_created_at (fst q)
          \<or> ar_created_at (fst p) = ar_created_at (fst q) \<and> ap_id (snd p) \<le> ap_id (snd q))"

lemma sorted_wrt_insort_key:
  assumes "sorted_wrt (\<lambda>x y. f x < f y \<or> f x = f y \<and> R x y) ys" "\<And>y. y \<in> set ys \<Longrightarrow> R x y"
  shows "sorted_wrt (\<lambda>x y. f x < f y \<or> f x = f y \<and> R x y) (insort_key (f :: 'a \<Rightarrow> 'b :: linorder) x ys)"
  using assms by (induction ys) (auto simp: set_insort_key less_le)

lemma sorted_wrt_sort_key:
  assumes "sorted_wrt R xs"
  shows "sorted_wrt (\<lambda>x y. f x < f y \<or> f x = f y \<and> R x y) (sort_key (f :: 'a \<Rightarrow> 'b :: linorder) xs)"
  using assms
proof (induction xs)
  case (Cons x xs)
  then show ?case using sorted_wrt_insort_key [of f R "sort_key f xs" x] by (simp add: set_sort)
qed simp

lemma pending_candidates_sorted: "sorted_wrt listed_before (pending_candidates now st)"
proof -
  have "sorted_wrt (\<lambda>x y. f x \<le> f y) (sort_key f xs)" for f :: "action_request \<times> approval_request \<Rightarrow> string" and xs
    using sorted_sort_key [of f xs] by (simp add: sorted_map)
  note this [THEN sorted_wrt_sort_key [where f = "\<lambda>(ar, ap). ar_created_at ar"],
      THEN sorted_wrt_sort_key [where f = "\<lambda>(ar, ap). priority_rank (ar_priority ar)"]]
  from this [of "\<lambda>(ar, ap). ap_id ap"] show ?thesis
    unfolding pending_candidates_def
    by (rule sorted_wrt_mono_rel [rotated]) (auto simp: listed_before_def)
qed

lemma locked_pair_iff:
  assumes "engine_ok st"
  shows "locked_pair st i = Some (ar, ap) \<longleftrightarrow>
    ar \<in> set (st_actions st) \<and> ap \<in> set (st_approvals st) \<and> ap_id ap = i \<and> ap_action_request_id ap = Some (ar_id ar)"
proof
  assume "locked_pair st i = Some (ar, ap)"
  from locked_pair_SomeD [OF assms this] show "ar \<in> set (st_actions st) \<and> ap \<in> set (st_approvals st)
      \<and> ap_id ap = i \<and> ap_action_request_id ap = Some (ar_id ar)" by simp
next
  assume a: "ar \<in> set (st_actions st) \<and> ap \<in> set (st_approvals st) \<and> ap_id ap = i
      \<and> ap_action_request_id ap = Some (ar_id ar)"
  then have "approval_by_id st i = Some ap"
    using assms find_by_distinct [of ap_id "st_approvals st" ap]
    by (auto simp: approval_by_id_def engine_ok_def approval_ids_def)
  with a engine_ok_lookup [OF assms] show "locked_pair st i = Some (ar, ap)" by (simp add: locked_pair_def)
qed

lemma pending_candidates_set:
  "set (pending_candidates now st) =
     {(ar, ap). ar \<in> set (st_actions st) \<and> ap \<in> set (st_approvals st)
        \<and> ap_action_request_id ap = Some (ar_id ar) \<and> pair_pending ar ap \<and> \<not> pair_expired ar ap now}"
  by (auto simp: pending_candidates_def set_sort)

lemma distinct_sort_key_map: "distinct (map f (sort_key k xs)) = distinct (map f xs)"
  by (rule mset_eq_imp_distinct_iff) simp

lemma length_concat_guard: "length (concat (map (\<lambda>x. if P x then [f x] else []) xs)) = length (filter P xs)"
  by (induction xs) auto

text \<open>Each pending approval meets its one action once.\<close>

lemma pending_candidates_distinct:
  assumes "engine_ok st"
  shows "distinct (map (\<lambda>(ar, ap). ap_id ap) (pending_candidates now st))"
proof -
  let ?P = "\<lambda>ar ap. ap_action_request_id ap = Some (ar_id ar) \<and> pair_pending ar ap \<and> \<not> pair_expired ar ap now"
  let ?f = "\<lambda>ap. [(ar, ap). ar \<leftarrow> st_actions st, ?P ar ap]"
  have "distinct (map (\<lambda>(ar, ap). ap_id ap) (concat (map ?f (st_approvals st))))"
  proof (rule distinct_concat_keys [where key = ap_id])
    show "distinct (map ap_id (st_approvals st))" using assms by (simp add: engine_ok_def approval_ids_def)
    fix ap
    have "distinct (st_actions st)" using assms by (auto simp: engine_ok_def action_ids_def distinct_map)
    then have "distinct (filter (\<lambda>ar. ?P ar ap) (st_actions st))" by simp
    moreover have "x = y" if "x \<in> set (filter (\<lambda>ar. ?P ar ap) (st_actions st))"
        "y \<in> set (filter (\<lambda>ar. ?P ar ap) (st_actions st))" for x y
      using that engine_ok_inj(1) [OF assms, of x y] by auto
    ultimately have "length (filter (\<lambda>ar. ?P ar ap) (st_actions st)) \<le> 1" by (rule distinct_length_le_one)
    moreover have "length (?f ap) = length (filter (\<lambda>ar. ?P ar ap) (st_actions st))"
      by (rule length_concat_guard)
    ultimately show "length (?f ap) \<le> 1" by simp
  qed auto
  then show ?thesis by (simp add: pending_candidates_def distinct_sort_key_map)
qed

lemma expire_pending_ok:
  assumes "engine_ok st"
  shows "engine_ok (snd (expire_pending_requests en ctx st))"
  using expire_pending_requests_evolves [OF assms] by (simp add: evolves_def)

lemma pending_visible:
  fixes ctx now
  assumes "engine_ok st"
  defines "ys \<equiv> filter (\<lambda>(ar, ap). pd_allowed (approval_decision ar ctx)) (pending_candidates now st)"
  shows "set ys = decidable_pairs ctx now st" "distinct (map (\<lambda>(ar, ap). ap_id ap) ys)" "sorted_wrt listed_before ys"
proof -
  show "set ys = decidable_pairs ctx now st"
    using assms(1)
    by (auto simp: ys_def decidable_pairs_def pending_candidates_set locked_pair_iff approval_decision_def
        evaluate_action_approval_allowed)
  show "distinct (map (\<lambda>(ar, ap). ap_id ap) ys)" "sorted_wrt listed_before ys"
    unfolding ys_def
    using pending_candidates_distinct [OF assms(1)] pending_candidates_sorted
    by (auto intro: distinct_map_filter sorted_wrt_filter)
qed

text \<open>
  C27: The pending list is complete, sound and ordered. An answered listing is a window (limit and offset)
  of one list that holds every pair the caller could decide at that moment, no other pair, each approval
  once, in the order of urgency, age and approval id; the reported total is the length of that list.
\<close>
theorem pending_list_is_exact:
  assumes "engine_ok st" "list_pending en limit offset st = (Answered pg, st')"
  shows "\<exists>ys. pp_items pg = map (\<lambda>(ar, ap). (ap_id ap, ar_id ar)) (take limit (drop offset ys))
    \<and> pp_total pg = length ys \<and> set ys = decidable_pairs (env_context en st) (en_now en) st'
    \<and> distinct (map (\<lambda>(ar, ap). ap_id ap) ys) \<and> sorted_wrt listed_before ys"
proof -
  have ok: "engine_ok st'"
    using assms expire_pending_ok [OF assms(1), of en "env_context en st"]
    by (auto simp: list_pending_def Let_def split: if_splits prod.splits sum.splits)
  show ?thesis
    using assms(2) pending_visible [OF ok, of "env_context en st" "en_now en"]
    by (intro exI [of _ "filter (\<lambda>(ar, ap). pd_allowed (approval_decision ar (env_context en st)))
          (pending_candidates (en_now en) st')"])
       (auto simp: list_pending_def Let_def split: if_splits prod.splits sum.splits)
qed

lemma pending_list_is_exact_witness:
  "\<exists>pg st' ys. list_pending (example_env approver_id 20) 10 0 example_actions = (Answered pg, st')
     \<and> pp_total pg = 1 \<and> pp_items pg = [(approval_id, request_id)]
     \<and> pp_items pg = map (\<lambda>(ar, ap). (ap_id ap, ar_id ar)) (take 10 ys)
     \<and> set ys = decidable_pairs example_ctx 20 st'"
proof -
  let ?en = "example_env approver_id 20"
  have ctx: "env_context ?en example_actions = example_ctx"
    by (simp add: example_ctx_def env_context_def example_env_def)
  have perm: "list_ex (has_permission example_ctx) APPROVAL_PERMISSIONS"
    using example_ctx_fields(2) [of "''can_approve_scoped_action''"] by (simp add: APPROVAL_PERMISSIONS_def)
  have sweep: "expire_pending_requests ?en example_ctx example_actions = (Inr (), example_actions)"
    by (simp add: expire_pending_requests_def expired_pairs_def example_actions_def)
  have cands: "pending_candidates 20 example_actions = [(example_action, example_approval)]"
    by (simp add: pending_candidates_def example_actions_def example_pair(2,3)) (simp add: example_approval_def)
  have dec: "pd_allowed (approval_decision example_action example_ctx)"
    using example_admitted by (simp only: approval_decision_def evaluate_action_approval_allowed)
  have ids: "ap_id example_approval = approval_id" by (simp add: example_approval_def)
  have "list_pending ?en 10 0 example_actions
      = (Answered \<lparr>pp_items = [(approval_id, request_id)], pp_total = 1\<rparr>, example_actions)"
    by (simp add: list_pending_def ctx Let_def perm sweep cands dec ids)
  note a = this pending_list_is_exact [OF example_actions_ok this]
  from a show ?thesis by (simp add: ctx) (elim exE conjE, intro exI conjI)
qed

section \<open>The audit metadata\<close>

text \<open>What may be stored, written out: a flat value, under one of fourteen keys.\<close>

fun flat_audit_value :: "json \<Rightarrow> bool" where
  "flat_audit_value (JStr _) = True"
| "flat_audit_value (JInt _) = True"
| "flat_audit_value (JBool _) = True"
| "flat_audit_value (JList vs) \<longleftrightarrow> (\<forall>v \<in> set vs. \<exists>s. v = JStr s)"
| "flat_audit_value _ = False"

definition audit_entry_keys :: "string list" where
  "audit_entry_keys =
     [''action_type'', ''record_count'', ''skipped_count'', ''requires_admin'', ''policy_flag_codes'',
      ''approval_request_id'', ''source_query_run_id'', ''notification_count'', ''cancellation_reason'',
      ''expiration_kind'', ''executed_count'', ''override_used'', ''failure_category'', ''escalation_reason'']"

definition flat_entries :: "(string \<times> json) list \<Rightarrow> bool" where
  "flat_entries kvs \<longleftrightarrow>
     distinct (map fst kvs) \<and> fst ` set kvs \<subseteq> set audit_entry_keys \<and> list_all (\<lambda>(_, v). flat_audit_value v) kvs"

lemma audit_scalar_flat: "audit_scalar v \<Longrightarrow> flat_audit_value v"
  by (cases v) auto

lemma flat_dict_set:
  "list_all (\<lambda>(_, v). P v) kvs \<Longrightarrow> P v \<Longrightarrow> list_all (\<lambda>(_, v). P v) (dict_set k v kvs)"
  by (induction k v kvs rule: dict_set.induct) (auto split: if_splits)

lemma flat_entries_dict_set:
  assumes "flat_entries kvs" "k \<in> set audit_entry_keys" "flat_audit_value v"
  shows "flat_entries (dict_set k v kvs)"
  using assms flat_dict_set [of flat_audit_value kvs v k]
  by (simp add: flat_entries_def fst_dict_set distinct_dict_set)

lemma flat_entries_foldl:
  assumes "flat_entries kvs" "set ks \<subseteq> set audit_entry_keys"
  shows "flat_entries (foldl (\<lambda>acc k. if audit_scalar (jget m k) then dict_set k (jget m k) acc else acc) kvs ks)"
  using assms
  by (induction ks arbitrary: kvs) (auto simp: flat_entries_dict_set audit_scalar_flat)

text \<open>
  C40: Audit metadata stays flat and typed. Whatever the caller of the audit log passes, the stored metadata
  is a dictionary with distinct keys, all from the fixed list, whose values are strings, integers, booleans
  or lists of strings; and the action type, the record count and the admin flag are those of the audited
  row.
\<close>
theorem audit_metadata_is_typed:
  shows "\<exists>kvs. safe_audit_metadata ar metadata = JDict kvs \<and> flat_entries kvs
    \<and> map_of kvs ''action_type'' = Some (JStr (ar_action_type ar))
    \<and> map_of kvs ''record_count'' = Some (JInt (ar_record_count ar))
    \<and> map_of kvs ''requires_admin'' = Some (JBool (ar_requires_admin ar))"
proof -
  let ?base = "[(''action_type'', JStr (ar_action_type ar)), (''record_count'', JInt (ar_record_count ar)),
     (''skipped_count'', JInt (ar_skipped_count ar)), (''requires_admin'', JBool (ar_requires_admin ar))]"
  let ?f = "\<lambda>acc k. if audit_scalar (jget metadata k) then dict_set k (jget metadata k) acc else acc"
  have sub: "set AUDIT_METADATA_KEYS \<subseteq> set audit_entry_keys"
    by (simp add: audit_entry_keys_def AUDIT_METADATA_KEYS_def)
  have pf: "''policy_flag_codes'' \<in> set audit_entry_keys" by (simp add: audit_entry_keys_def)
  have strs: "flat_audit_value (JList (filter is_str codes))" for codes by (auto elim: is_str.elims)
  have "flat_entries ?base" by (simp add: flat_entries_def audit_entry_keys_def)
  from flat_entries_foldl [OF this sub] have flat: "flat_entries (foldl ?f ?base AUDIT_METADATA_KEYS)" .
  have keep: "map_of (foldl ?f kvs ks) k = map_of kvs k" if "k \<notin> set ks" for k kvs ks
    using that by (induction ks arbitrary: kvs) auto
  have base: "map_of (foldl ?f ?base AUDIT_METADATA_KEYS) k = map_of ?base k" if "k \<notin> set AUDIT_METADATA_KEYS" for k
    using that by (rule keep)
  let ?kvs = "case jget metadata ''policy_flag_codes'' of
      JList codes \<Rightarrow> dict_set ''policy_flag_codes'' (JList (filter is_str codes)) (foldl ?f ?base AUDIT_METADATA_KEYS)
    | _ \<Rightarrow> foldl ?f ?base AUDIT_METADATA_KEYS"
  have "flat_entries ?kvs"
    using flat flat_entries_dict_set [OF flat pf strs] by (cases "jget metadata ''policy_flag_codes''") simp_all
  moreover have "map_of ?kvs k = map_of ?base k" if "k \<notin> set AUDIT_METADATA_KEYS" "k \<noteq> ''policy_flag_codes''" for k
    using base [OF that(1)] that(2) by (cases "jget metadata ''policy_flag_codes''") simp_all
  from this [of "''action_type''"] this [of "''record_count''"] this [of "''requires_admin''"]
  have "map_of ?kvs ''action_type'' = Some (JStr (ar_action_type ar))"
    "map_of ?kvs ''record_count'' = Some (JInt (ar_record_count ar))"
    "map_of ?kvs ''requires_admin'' = Some (JBool (ar_requires_admin ar))"
    by (simp_all add: AUDIT_METADATA_KEYS_def)
  ultimately show ?thesis unfolding safe_audit_metadata_def Let_def by blast
qed

end
