(* ===== verification/Preview_Documents.thy ===== *)
theory Preview_Documents
  imports Preview_Service
begin

text \<open>
  Reading back what a preview stores: amounts of money, ids, flags and exclusion counts. These lemmas
  relate each writer of \<open>Preview_Records\<close> to the check of \<open>Preview_Snapshot\<close> that reads it.
\<close>

section \<open>Numbers in text\<close>

lemma lt10_cases:
  fixes d :: nat
  assumes "d < 10"
  shows "d = 0 \<or> d = 1 \<or> d = 2 \<or> d = 3 \<or> d = 4 \<or> d = 5 \<or> d = 6 \<or> d = 7 \<or> d = 8 \<or> d = 9"
  using assms by arith

lemma digit_char_value: "d < 10 \<Longrightarrow> of_char (digit_char d) - 48 = d"
  by (drule lt10_cases, elim disjE) (simp_all add: digit_char_def)

lemma digit_char_plain:
  "d < 10 \<Longrightarrow> is_ascii_digit (digit_char d) \<and> \<not> py_isspace (digit_char d)
     \<and> lower_char (digit_char d) = digit_char d \<and> digit_char d \<notin> set ''_+-ins''"
  by (drule lt10_cases, elim disjE)
     (simp_all add: digit_char_def is_ascii_digit_def py_isspace_def lower_char_def)

lemma digits_value_append: "digits_value acc (xs @ ys) = digits_value (digits_value acc xs) ys"
  by (induction acc xs rule: digits_value.induct) auto

lemma nat_text_props:
  "digits_value 0 (nat_text n) = n" "nat_text n \<noteq> []" "c \<in> set (nat_text n) \<Longrightarrow> \<exists>d < 10. c = digit_char d"
proof (induction n arbitrary: c rule: nat_text.induct)
  case (1 n)
  { case 1 then show ?case
      using "1.IH"(1) digit_char_value [of n] digit_char_value [of "n mod 10"]
      by (subst nat_text.simps) (auto simp: digits_value_append) }
  { case 2 show ?case by (subst nat_text.simps) simp }
  { case 3 then show ?case
      using "1.IH"(3) by (subst (asm) nat_text.simps) (auto split: if_splits intro: exI [of _ "n mod 10"]) }
qed

lemma money_string_chars:
  "c \<in> set (money_string n) \<Longrightarrow> c = CHR ''.'' \<or> (\<exists>d < 10. c = digit_char d)"
  using nat_text_props(3) [of c "n div 100"]
  by (auto simp: money_string_def intro: exI [of _ "n mod 10"] exI [of _ "n div 10 mod 10"])

lemma money_char_plain:
  assumes "c \<in> set (money_string n)"
  shows "\<not> py_isspace c \<and> lower_char c = c \<and> c \<notin> set ''_+-ins''"
proof -
  from money_string_chars [OF assms] show ?thesis
  proof
    assume "c = CHR ''.''"
    then show ?thesis by (simp add: py_isspace_def lower_char_def)
  next
    assume "\<exists>d < 10. c = digit_char d"
    then show ?thesis using digit_char_plain by blast
  qed
qed

lemma money_string_plain:
  "py_strip (money_string n) = money_string n" "filter (\<lambda>c. c \<noteq> CHR ''_'') (money_string n) = money_string n"
  "map lower_char (money_string n) = money_string n" "split_sign (money_string n) = (False, money_string n)"
  "take 3 (money_string n) \<noteq> ''nan''" "take 4 (money_string n) \<noteq> ''snan''"
  "money_string n \<noteq> ''inf''" "money_string n \<noteq> ''infinity''"
proof -
  note plain = money_char_plain [of _ n]
  have "dropWhile py_isspace (money_string n) = money_string n"
    "dropWhile py_isspace (rev (money_string n)) = rev (money_string n)"
    using plain by (intro dropWhile_none; simp)+
  then show "py_strip (money_string n) = money_string n" by (simp add: py_strip_def)
  show "filter (\<lambda>c. c \<noteq> CHR ''_'') (money_string n) = money_string n"
    using plain by (intro filter_True) auto
  show "map lower_char (money_string n) = money_string n" using plain by (intro map_idI) auto
  obtain x xs where x: "money_string n = x # xs" by (cases "money_string n") (auto simp: money_string_def)
  with plain have "x \<notin> set ''_+-ins''" by simp
  then show "split_sign (money_string n) = (False, money_string n)"
    "take 3 (money_string n) \<noteq> ''nan''" "take 4 (money_string n) \<noteq> ''snan''"
    "money_string n \<noteq> ''inf''" "money_string n \<noteq> ''infinity''"
    by (auto simp: x split_sign_def)
qed

lemma money_digits:
  fixes n :: nat
  shows "10 * (10 * (n div 100) + n div 10 mod 10) + n mod 10 = n"
proof -
  have "n div 100 = n div 10 div 10" by (simp add: div_mult2_eq [symmetric])
  then show ?thesis by (metis mult_div_mod_eq)
qed

lemma parse_money_string: "parse_decimal (money_string n) = Some (DecFinite False n (- 2))"
proof -
  let ?w = "nat_text (n div 100)" and ?f = "[digit_char (n div 10 mod 10), digit_char (n mod 10)]"
  have digits: "\<And>c. c \<in> set ?w \<Longrightarrow> is_ascii_digit c" "\<And>c. c \<in> set ?f \<Longrightarrow> is_ascii_digit c"
    using nat_text_props(3) [of _ "n div 100"] digit_char_plain by auto
  have dot: "\<not> is_ascii_digit CHR ''.''" by (simp add: is_ascii_digit_def)
  have parts: "takeWhile is_ascii_digit (money_string n) = ?w"
    "dropWhile is_ascii_digit (money_string n) = ''.'' @ ?f"
    using digits(1) dot by (simp_all add: money_string_def takeWhile_append2 dropWhile_append2)
  have frac: "takeWhile is_ascii_digit ?f = ?f" "dropWhile is_ascii_digit ?f = []" using digits(2) by simp_all
  have "digits_value 0 (?w @ ?f) = 10 * (10 * (n div 100) + n div 10 mod 10) + n mod 10"
    using digit_char_value [of "n div 10 mod 10"] digit_char_value [of "n mod 10"]
    by (simp add: digits_value_append nat_text_props(1))
  then have amount: "digits_value 0 (?w @ ?f) = n" by (simp only: money_digits)
  have "parse_decimal (money_string n) =
     (let whole = ?w; after = ''.'' @ ?f; dotted = (take 1 after = ''.'');
          frac = (if dotted then takeWhile is_ascii_digit (drop 1 after) else []);
          rest = (if dotted then dropWhile is_ascii_digit (drop 1 after) else after)
      in if whole = [] \<and> frac = [] then None
         else map_option (\<lambda>e. DecFinite False (digits_value 0 (whole @ frac)) (e - int (length frac)))
                (parse_exponent rest))"
    unfolding parse_decimal_def money_string_plain Let_def parts prod.case
    using money_string_plain(5-8) [of n] by (simp only: if_False simp_thms)
  also have "\<dots> = map_option (\<lambda>e. DecFinite False (digits_value 0 (?w @ ?f)) (e - int (length ?f)))
      (parse_exponent (dropWhile is_ascii_digit ?f))"
    unfolding Let_def using frac(1) by simp
  finally show ?thesis unfolding frac(2) amount by (simp add: parse_exponent_def)
qed

lemma money_string_ok: "money_text_ok (money_string n)" "money_string n \<noteq> []"
  unfolding money_text_ok_def parse_money_string by (simp_all add: money_string_def)

lemma money_string_value: "decimal_value (decimal_of (JStr (money_string n))) = of_nat n * ten_to (- 2)"
  by (simp add: decimal_of_def parse_money_string)

section \<open>Sums\<close>

lemma ndigits_le: "0 < k \<Longrightarrow> n < 10 ^ k \<Longrightarrow> ndigits n \<le> k"
proof (induction k arbitrary: n)
  case (Suc k)
  show ?case
  proof (cases "n < 10")
    case False
    with Suc.prems have "0 < k" by (cases k) auto
    moreover have "n div 10 < 10 ^ k" using Suc.prems(2) by (simp add: less_mult_imp_div_less mult.commute)
    ultimately show ?thesis using Suc.IH [of "n div 10"] False by (subst ndigits.simps) simp
  qed (simp add: ndigits.simps)
qed simp

lemma round28_small: "c < 10 ^ 28 \<Longrightarrow> round28 (c, e) = (c, e)"
  using ndigits_le [of 28 c] by (simp add: round28_def)

lemma dec_add_cents: "a + c < 10 ^ 28 \<Longrightarrow> dec_add (a, - 2) (c, - 2) = (a + c, - 2)"
  by (simp add: dec_add_def round28_small)

lemma dec_add_zero: "c < 10 ^ 28 \<Longrightarrow> dec_add (0, 0) (c, - 2) = (c, - 2)"
  by (simp add: dec_add_def round28_small)

lemma foldl_dec_add:
  "a + sum_list cs < 10 ^ 28 \<Longrightarrow> foldl (\<lambda>acc c. dec_add acc (c, - 2)) (a, - 2) cs = (a + sum_list cs, - 2)"
  by (induction cs arbitrary: a) (simp_all add: dec_add_cents add.assoc)

lemma sum_cents:
  assumes "sum_list cs < 10 ^ 28"
  shows "foldl (\<lambda>acc c. dec_add acc (c, - 2)) (0, 0) cs = (sum_list cs, if cs = [] then 0 else - 2)"
  using assms by (cases cs) (simp_all add: dec_add_zero foldl_dec_add)

lemma sum_costs_small:
  assumes "sum_list cs < 10 ^ 28"
  shows "sum_costs cs = Inr (sum_list cs)"
  using ndigits_le [of 28 "sum_list cs"] assms
  by (cases "cs = []") (simp_all add: sum_costs_def sum_cents quantize_money_def ndigits.simps)

lemma sum_money_cents:
  assumes "\<And>r. r \<in> set rs \<Longrightarrow> jget (doc r) ''monthly_cost_usd'' = JStr (money_string (cost r))"
    and "sum_list (map cost rs) < 10 ^ 28"
  shows "sum_money (map doc rs) = of_nat (sum_list (map cost rs)) * ten_to (- 2)"
proof -
  have "foldl (\<lambda>acc r. dec_add acc (decimal_parts (decimal_of (jget r ''monthly_cost_usd'')))) a (map doc rs)
      = foldl (\<lambda>acc c. dec_add acc (c, - 2)) a (map cost rs)" for a
    using assms(1) by (induction rs arbitrary: a) (simp_all add: decimal_of_def parse_money_string)
  then show ?thesis
    using assms(2) by (cases "rs = []") (simp_all add: sum_money_def sum_cents)
qed

lemma sum_list_bound:
  fixes b :: nat
  shows "(\<And>x. x \<in> set xs \<Longrightarrow> f x \<le> b) \<Longrightarrow> sum_list (map f xs) \<le> length xs * b"
  by (induction xs) (auto simp: add_mono)

section \<open>Flags and exclusions\<close>

lemma jlist_simps [simp]: "jlist (jstrs ss) = map JStr ss" "is_list (jstrs ss)"
  by (simp_all add: jstrs_def)

lemma jopt_simps [simp]: "jopt None = JNull" "jopt (Some s) = JStr s"
  by (simp_all add: jopt_def)

lemma none_or_str_jopt [simp]: "none_or_str (jopt s)" "none_or_str (instant_json t)"
  by (cases s; simp add: none_or_str_def) (simp add: instant_json_def jopt_def none_or_str_def split: option.split)

lemma scope_json_simps [simp]:
  "is_dict (scope_json i ty key)" "jget (scope_json i ty key) ''id'' = jopt i"
  "jget (scope_json i ty key) ''type'' = JStr ty" "jget (scope_json i ty key) ''key'' = JStr key"
  by (simp_all add: scope_json_def)

lemma nonempty_str_simps [simp]: "nonempty_str (JStr s) \<longleftrightarrow> s \<noteq> []" "\<not> nonempty_str JNull"
  by (simp_all add: nonempty_str_def)

lemma validated_uuid_simps [simp]:
  "is_uuid u \<Longrightarrow> validated_uuid (JStr u) = Some u" "validated_uuid JNull = None"
  by (simp_all add: validated_uuid_def is_uuid_def)

lemma policy_flag_json_ok:
  "pfl_code f \<noteq> [] \<Longrightarrow> pfl_requires_admin f \<Longrightarrow> pfl_admin_overridable f \<Longrightarrow> policy_flag_ok (policy_flag_json f)"
  by (simp add: policy_flag_ok_def policy_flag_json_def flag_is_true_def)

lemma flag_codes_json: "flag_codes (JList (map policy_flag_json fs)) = map pfl_code fs"
  by (simp add: flag_codes_def policy_flag_json_def)

lemma preview_flags_codes: "map pfl_code (preview_flags reason codes n g) = preview_flag_codes codes n g"
  by (simp add: preview_flags_def comp_def)

lemma preview_flags_ok:
  assumes "[] \<notin> set codes"
  shows "validate_policy_flags (JList (map policy_flag_json (preview_flags reason codes n g))) = Inr ()"
proof -
  have "[] \<notin> set (preview_flag_codes codes n g)" using assms by (simp add: preview_flag_codes_def)
  then have "list_all policy_flag_ok (map policy_flag_json (preview_flags reason codes n g))"
    by (auto simp: list_all_iff preview_flags_def intro!: policy_flag_json_ok)
  then show ?thesis
    by (simp add: validate_policy_flags_def flag_codes_json preview_flags_codes)
       (simp add: preview_flag_codes_def)
qed

text \<open>The flags a builder derives from its records are the flags the check expects.\<close>

lemma built_flags_valid:
  assumes parts: "list_parts ar = (es, os, ss)" and flags: "ar_policy_flags ar = policy_flags_json p"
    and fl: "pv_policy_flags p = preview_flags reason codes (length es + length os) (ar_scope_type ar = Some ''global'')"
    and codes: "all_override_codes os = codes" "[] \<notin> set codes"
    and admin: "pv_requires_admin p \<longleftrightarrow> pv_policy_flags p \<noteq> []" "ar_requires_admin ar = pv_requires_admin p"
    and over: "pv_requires_policy_override p \<longleftrightarrow> os \<noteq> []"
    and cross: "pv_crosses_scopes p \<longleftrightarrow> ''cross_scope_target'' \<in> set codes"
  shows "snapshot_flags ar = Inr ()"
proof -
  let ?n = "length es + length os" and ?g = "ar_scope_type ar = Some ''global''"
  let ?ex = "expected_flag_codes ar os ?n"
  have same: "set (preview_flag_codes codes ?n ?g) = set ?ex"
    by (simp add: preview_flag_codes_def expected_flag_codes_def codes SCOPED_APPROVAL_LIMIT_def)
  then have "preview_flag_codes codes ?n ?g = [] \<longleftrightarrow> ?ex = []" by (metis set_empty)
  then have none: "pv_policy_flags p = [] \<longleftrightarrow> ?ex = []"
    unfolding fl by (metis preview_flags_codes Nil_is_map_conv)
  have get: "jget (policy_flags_json p) ''flags'' = JList (map policy_flag_json (pv_policy_flags p))"
    "jget (policy_flags_json p) ''requires_admin'' = JBool (pv_requires_admin p)"
    "jget (policy_flags_json p) ''crosses_scopes'' = JBool (pv_crosses_scopes p)"
    "jget (policy_flags_json p) ''requires_policy_override'' = JBool (pv_requires_policy_override p)"
    "\<not> flag_is_true (policy_flags_json p) ''revalidation_requires_admin''"
    by (simp_all add: policy_flags_json_def flag_is_true_def)
  show ?thesis
    unfolding snapshot_flags_def parts flags Let_def prod.case checks_ok_simps get ensure_Inr_iff
    using preview_flags_ok [OF codes(2), of reason ?n ?g] same none admin over cross codes(1)
    by (simp add: fl flag_codes_json preview_flags_codes get(5))
qed

lemma count_codes_simps:
  "map fst (count_codes codes) = sorted_set codes" "set (map fst (count_codes codes)) = set codes"
  by (simp_all add: count_codes_def comp_def)

lemma exclusion_json_ok: "exclusion_ok (exclusion_json e)"
  by (cases e) (simp add: exclusion_ok_def exclusion_json_def count_int_def)

lemma exclusions_valid: "validate_exclusions (JList (map exclusion_json es)) = Inr ()"
  by (simp add: validate_exclusions_def list_all_iff exclusion_json_ok)

lemma exclusion_pairs_json: "exclusion_pairs (JList (map exclusion_json es)) = map (\<lambda>(c, n). (c, int n)) es"
  by (auto simp: exclusion_pairs_def exclusion_json_def)

lemma disable_exclusions_valid:
  "validate_disable_exclusions (JList (map exclusion_json (count_codes codes))) codes = Inr ()"
proof -
  have "map fst (map (\<lambda>(c, n). (c, int n)) (count_codes codes)) = sorted_set codes"
    by (simp add: count_codes_def comp_def)
  moreover have "list_all (\<lambda>(c, n). n = int (count_list codes c)) (map (\<lambda>(c, n). (c, int n)) (count_codes codes))"
    by (simp add: count_codes_def list_all_iff)
  ultimately show ?thesis
    by (simp add: validate_disable_exclusions_def exclusions_valid exclusion_pairs_json exclusions_match_def)
qed

section \<open>The three parts of a classification\<close>

lemma part_simps [simp]:
  "eligible_part [] = []" "skipped_part [] = []" "override_part [] = []"
  "eligible_part (c # cs) = (case c of ClEligible e \<Rightarrow> e # eligible_part cs | _ \<Rightarrow> eligible_part cs)"
  "skipped_part (c # cs) = (case c of ClSkipped s \<Rightarrow> s # skipped_part cs | _ \<Rightarrow> skipped_part cs)"
  "override_part (c # cs) = (case c of ClOverride r \<Rightarrow> r # override_part cs | _ \<Rightarrow> override_part cs)"
  by (simp_all add: eligible_part_def skipped_part_def override_part_def split: classified.split)

lemma set_parts:
  "e \<in> set (eligible_part cs) \<longleftrightarrow> ClEligible e \<in> set cs"
  "s \<in> set (skipped_part cs) \<longleftrightarrow> ClSkipped s \<in> set cs"
  "r \<in> set (override_part cs) \<longleftrightarrow> ClOverride r \<in> set cs"
  by (induction cs) (auto split: classified.split)

lemma length_parts:
  "length (eligible_part cs) + length (skipped_part cs) + length (override_part cs) = length cs"
  by (induction cs) (auto split: classified.split)

end
