(* ===== verification/Reclaim_Preview_Check.thy ===== *)
theory Reclaim_Preview_Check
  imports Preview_Documents
begin

text \<open>
  A reclaim preview passes the check of \<open>validate_reclaim_snapshot\<close>: each record document, the sums of
  money, the counts and the flags, for previews built from well-formed rows.
\<close>

section \<open>Record documents\<close>

lemma reclaim_record_get:
  fixes ty i sid sty skey label product vendor used cost code reason high extra
  defines "doc \<equiv> JDict (reclaim_record_json ty i sid sty skey label product vendor used cost code reason high @ extra)"
  shows "is_dict doc" "jget doc ''record_type'' = JStr ty" "jget doc ''record_id'' = JStr i"
    "jget doc ''license_assignment_id'' = (if ty = ''license_assignment'' then JStr i else JNull)"
    "jget doc ''scope'' = scope_json sid sty skey" "jget doc ''user_display_label'' = jopt label"
    "jget doc ''license_product'' = jopt product" "jget doc ''license_vendor'' = jopt vendor"
    "jget doc ''last_used_at'' = instant_json used"
    "jget doc ''monthly_cost_usd'' = jopt (map_option money_string cost)"
    "jget doc ''reason_code'' = JStr code" "jget doc ''reason'' = JStr reason"
    "jget doc ''high_confidence'' = JBool high"
    "jget doc ''override_reason_codes'' = jget (JDict extra) ''override_reason_codes''"
  by (simp_all add: doc_def reclaim_record_json_def)

lemma override_codes_jstrs:
  "codes \<noteq> [] \<Longrightarrow> [] \<notin> set codes \<Longrightarrow> override_codes_ok (jstrs codes) \<and> hd (jlist (jstrs codes)) = JStr (hd codes)"
  by (cases codes) (auto simp: override_codes_ok_def list_all_iff)

lemma reclaim_record_valid:
  fixes ty i sid sty skey label product vendor used cost code reason high extra
  defines "doc \<equiv> JDict (reclaim_record_json ty i sid sty skey label product vendor used cost code reason high @ extra)"
  assumes ty: "ty = ''license_assignment'' \<or> ty = ''directory_user''" "actionable \<Longrightarrow> ty = ''license_assignment''"
    and ids: "is_uuid i" "pred_option is_uuid sid" "actionable \<Longrightarrow> sid \<noteq> None"
    and strs: "sty \<noteq> []" "skey \<noteq> []" "code \<noteq> []" "reason \<noteq> []"
    and act: "actionable \<Longrightarrow> truthy_str label \<and> truthy_str product \<and> truthy_str vendor \<and> cost \<noteq> None"
    and over: "map_of extra ''override_reason_codes'' = (if override then Some (jstrs codes) else None)"
      "override \<Longrightarrow> codes \<noteq> [] \<and> hd codes = code \<and> [] \<notin> set codes"
  shows "validate_record doc actionable override = Inr ()"
proof -
  note get = reclaim_record_get
    [of ty i sid sty skey label product vendor used cost code reason high extra, folded doc_def]
  have type: "in_str_set (JStr ty) [''directory_user'', ''license_assignment''] = Inr True"
    using ty(1) by (auto simp: in_str_set_def)
  have money: "jopt (map_option money_string cost) \<noteq> JNull \<longrightarrow> money_text_ok (jstr (jopt (map_option money_string cost)))"
    by (cases cost) (simp_all add: money_string_ok)
  have full: "actionable \<longrightarrow> jopt sid \<noteq> JNull \<and> list_all nonempty_str
      [jopt label, jopt product, jopt vendor, jopt (map_option money_string cost)]"
    using act ids(3) by (auto simp: truthy_str_def money_string_ok split: option.splits)
  have sid: "jopt sid = JNull \<or> validated_uuid (jopt sid) \<noteq> None" using ids(2) by (cases sid) simp_all
  show ?thesis
    unfolding validate_record_def Let_def get checks_ok_simps ensure_Inr_iff type sum.case
    using ty ids(1) strs money full sid over(2) override_codes_jstrs [of codes]
    by (cases override) (simp_all add: get over(1) del: jlist_simps(1))
qed

section \<open>Classified rows\<close>

text \<open>Ten digits of \<open>numeric(10, 2)\<close>, as a bound on an amount in cents.\<close>

definition MAX_COST :: nat where "MAX_COST = 10 ^ 10"

definition scope_row_ok :: "access_scope_row \<Rightarrow> bool" where
  "scope_row_ok s \<longleftrightarrow> is_uuid (as_id s) \<and> as_scope_type s \<noteq> [] \<and> as_scope_key s \<noteq> []"

definition reclaim_row_ok :: "reclaim_candidate \<Rightarrow> bool" where
  "reclaim_row_ok row \<longleftrightarrow>
     is_uuid (la_id (ca_assignment row))
     \<and> (case ca_cost row of None \<Rightarrow> True | Some c \<Rightarrow> c \<le> int MAX_COST)"

definition target_ok :: "target_input \<Rightarrow> bool" where
  "target_ok t \<longleftrightarrow>
     ti_scope_type t \<noteq> [] \<and> ti_scope_key t \<noteq> []
     \<and> list_all (\<lambda>r. is_uuid (tr_record_id r)
          \<and> (tr_record_type r = ''license_assignment'' \<or> tr_record_type r = ''directory_user'')) (ti_targets t)
     \<and> (case ti_scope_id t of None \<Rightarrow> False | Some i \<Rightarrow> is_uuid i)"

definition scopes_fn_ok :: "(uuid \<Rightarrow> access_scope_row option) \<Rightarrow> bool" where
  "scopes_fn_ok scopes \<longleftrightarrow> (\<forall>d s. scopes d = Some s \<longrightarrow> scope_row_ok s)"

lemma reclaim_safe_reason_nonempty [simp]: "reclaim_safe_reason c \<noteq> []"
  by (simp add: reclaim_safe_reason_def)

lemma structural_ok:
  assumes "\<not> structural_error scope row"
  obtains s u l c where "scope = Some s" "ca_user row = Some u" "ca_license row = Some l" "ca_cost row = Some c"
    "0 \<le> c" "du_full_name u \<noteq> []" "li_product_name l \<noteq> []" "li_vendor l \<noteq> []"
    "du_department_id u = la_department_id (ca_assignment row)"
  using assms by (auto simp: structural_error_def split: option.splits)

lemma skip_code_None:
  assumes "reclaim_skip_code scope cutoff row = None"
  shows "\<not> structural_error scope row" "la_status (ca_assignment row) = ''active''"
    "\<not> used_since (ca_assignment row) cutoff"
  using assms by (auto simp: reclaim_skip_code_def Let_def split: if_splits)

lemma skip_code_Some: "reclaim_skip_code scope cutoff row = Some code \<Longrightarrow> code \<noteq> []"
  by (auto simp: reclaim_skip_code_def Let_def split: if_splits)

lemma preview_codes_nonempty: "[] \<notin> set (reclaim_preview_codes t la ty)"
  by (auto simp: reclaim_preview_codes_def)

lemma skipped_record_valid:
  assumes "is_uuid (rsk_id r)" "pred_option is_uuid (rsk_scope_id r)" "rsk_scope_type r \<noteq> []" "rsk_scope_key r \<noteq> []"
    "rsk_reason_code r \<noteq> []" "rsk_reason r \<noteq> []"
    "rsk_record_type r = ''license_assignment'' \<or> rsk_record_type r = ''directory_user''"
  shows "validate_record (skipped_record_json r) False False = Inr ()"
  unfolding skipped_record_json_def
  using reclaim_record_valid [where extra = "[]" and override = False and actionable = False, simplified] assms
  by simp

lemma classify_reclaim_cases:
  assumes row: "reclaim_row_ok row" and sc: "scopes_fn_ok scopes" and t: "target_ok t"
  shows "case classify_reclaim t scopes now row of
      ClEligible e \<Rightarrow> validate_record (eligible_record_json e) True False = Inr () \<and> rel_monthly_cost e \<le> MAX_COST
    | ClSkipped s \<Rightarrow> validate_record (skipped_record_json s) False False = Inr ()
    | ClOverride r \<Rightarrow> validate_record (override_record_json r) True True = Inr () \<and> rov_monthly_cost r \<le> MAX_COST
        \<and> [] \<notin> set (rov_override_reason_codes r)"
proof -
  let ?la = "ca_assignment row" and ?sc = "scopes (la_department_id (ca_assignment row))"
  let ?type = "case ?sc of None \<Rightarrow> ti_scope_type t | Some s \<Rightarrow> as_scope_type s"
  let ?key = "case ?sc of None \<Rightarrow> ti_scope_key t | Some s \<Rightarrow> as_scope_key s"
  have i: "is_uuid (la_id ?la)" using row by (simp add: reclaim_row_ok_def)
  have sok: "?sc = Some s \<Longrightarrow> scope_row_ok s" for s using sc by (simp add: scopes_fn_ok_def)
  have safe: "?type \<noteq> []" "?key \<noteq> []" "pred_option is_uuid (map_option as_id ?sc)"
    using t sok by (cases ?sc; simp add: target_ok_def scope_row_ok_def)+
  have skip: "validate_record (skipped_record_json (reclaim_skipped_record row ?sc ty k code high)) False False = Inr ()"
    if "ty \<noteq> []" "k \<noteq> []" "code \<noteq> []" for ty k code high
    using that i safe(3) by (intro skipped_record_valid) (simp_all add: reclaim_skipped_record_def)
  show ?thesis
  proof (cases "reclaim_skip_code ?sc (now - NORMAL_ELIGIBILITY_DAYS * MICROSECONDS_PER_DAY) row")
    case (Some code)
    with skip [OF safe(1,2) skip_code_Some [OF Some]] show ?thesis by (simp add: classify_reclaim_def Let_def)
  next
    case None
    obtain s u l c where st: "?sc = Some s" "ca_user row = Some u" "ca_license row = Some l" "ca_cost row = Some c"
      "0 \<le> c" "du_full_name u \<noteq> []" "li_product_name l \<noteq> []" "li_vendor l \<noteq> []"
      by (rule structural_ok [OF skip_code_None(1) [OF None]])
    have s: "is_uuid (as_id s)" "as_scope_type s \<noteq> []" "as_scope_key s \<noteq> []"
      using sok [OF st(1)] by (simp_all add: scope_row_ok_def)
    have c: "nat c \<le> MAX_COST" using row st(4,5) by (simp add: reclaim_row_ok_def nat_le_iff)
    let ?codes = "reclaim_preview_codes t ?la (du_account_type u)"
    have valid: "validate_record (JDict (reclaim_record_json ''license_assignment'' (la_id ?la) (Some (as_id s))
        (as_scope_type s) (as_scope_key s) (Some (du_full_name u)) (Some (li_product_name l)) (Some (li_vendor l))
        used (Some cost) code reason high @ extra)) True override = Inr ()"
      if "code \<noteq> []" "reason \<noteq> []"
        "map_of extra ''override_reason_codes'' = (if override then Some (jstrs codes) else None)"
        "override \<Longrightarrow> codes \<noteq> [] \<and> hd codes = code \<and> [] \<notin> set codes"
      for used cost code reason high extra override codes
      using that st s i by (intro reclaim_record_valid [where codes = codes]) auto
    have ne: "?codes \<noteq> [] \<Longrightarrow> hd ?codes \<noteq> []"
      using preview_codes_nonempty [of t ?la "du_account_type u"] by (metis hd_in_set)
    show ?thesis
      using ne skip [of "as_scope_type s" "as_scope_key s" "''record_structurally_invalid''"] s c
        valid [where extra = "[]" and override = False and codes = "[]"]
        valid [where override = True and codes = ?codes and code = "hd ?codes"
          and extra = "[(''override_reason_codes'', jstrs ?codes)]"]
        preview_codes_nonempty [of t ?la "du_account_type u"]
      by (cases ?codes)
         (simp_all add: classify_reclaim_def Let_def None [unfolded st(1)] st eligible_record_json_def
          override_record_json_def)
  qed
qed

section \<open>The snapshot\<close>

lemma length_sort_parts:
  "length (sort_key k (eligible_part cs)) = length (eligible_part cs)"
  "length (sort_key k' (override_part cs)) = length (override_part cs)"
  by simp_all

lemma high_confidence_docs:
  assumes "\<And>r. r \<in> set rs \<Longrightarrow> jget (doc r) ''high_confidence'' = JBool (high r)"
  shows "high_confidence_total (map doc rs) = int (length (filter high rs))"
  using assms by (induction rs) (auto simp: high_confidence_total_def flag_is_true_def)

lemma high_confidence_append: "high_confidence_total (xs @ ys) = high_confidence_total xs + high_confidence_total ys"
  by (simp add: high_confidence_total_def)

lemma record_override_codes_doc:
  assumes "jget d ''override_reason_codes'' = jstrs codes"
  shows "record_override_codes d = codes"
  by (simp add: record_override_codes_def assms comp_def)

lemma override_record_get:
  "jget (override_record_json r) ''override_reason_codes'' = jstrs (rov_override_reason_codes r)"
  "jget (override_record_json r) ''monthly_cost_usd'' = JStr (money_string (rov_monthly_cost r))"
  "jget (override_record_json r) ''high_confidence'' = JBool (rov_high_confidence r)"
  by (simp_all add: override_record_json_def reclaim_record_json_def)

lemma eligible_record_get:
  "jget (eligible_record_json r) ''monthly_cost_usd'' = JStr (money_string (rel_monthly_cost r))"
  "jget (eligible_record_json r) ''high_confidence'' = JBool (rel_high_confidence r)"
  by (simp_all add: eligible_record_json_def reclaim_record_json_def)

lemma all_override_codes_docs:
  "all_override_codes (map override_record_json rs) = concat (map rov_override_reason_codes rs)"
  by (simp add: all_override_codes_def comp_def record_override_codes_doc [OF override_record_get(1)])

lemma reclaim_summary_get:
  "is_dict (reclaim_summary_json p)"
  "jget (reclaim_summary_json p) ''affected_license_assignment_count'' = JInt (int (rp_affected_license_assignment_count p))"
  "jget (reclaim_summary_json p) ''affected_user_count'' = JInt (int (rp_affected_user_count p))"
  "jget (reclaim_summary_json p) ''normal_eligible_count'' = JInt (int (rp_normal_eligible_count p))"
  "jget (reclaim_summary_json p) ''skipped_count'' = JInt (int (rp_skipped_count p))"
  "jget (reclaim_summary_json p) ''override_required_count'' = JInt (int (rp_override_required_count p))"
  "jget (reclaim_summary_json p) ''high_confidence_count'' = JInt (int (rp_high_confidence_count p))"
  "jget (reclaim_summary_json p) ''estimated_monthly_savings'' = JStr (money_string (rp_estimated_monthly_savings p))"
  "jget (reclaim_summary_json p) ''override_estimated_monthly_savings''
     = JStr (money_string (rp_override_estimated_monthly_savings p))"
  by (simp_all add: reclaim_summary_json_def)

lemma reclaim_storage_get:
  "is_dict (pst_preview_json (build_reclaim_preview_storage p))"
  "is_dict (pst_policy_flags_json (build_reclaim_preview_storage p))"
  "is_dict (pst_skipped_records_json (build_reclaim_preview_storage p))"
  "jget (pst_preview_json (build_reclaim_preview_storage p)) ''schema_version'' = JInt 1"
  "jget (pst_preview_json (build_reclaim_preview_storage p)) ''action_type'' = JStr ''reclaim_unused_license''"
  "jget (pst_preview_json (build_reclaim_preview_storage p)) ''summary'' = reclaim_summary_json p"
  "jget (pst_preview_json (build_reclaim_preview_storage p)) ''eligible_records''
     = JList (map eligible_record_json (rp_eligible p))"
  "jget (pst_preview_json (build_reclaim_preview_storage p)) ''override_required_records''
     = JList (map override_record_json (rp_overrides p))"
  "jget (pst_policy_flags_json (build_reclaim_preview_storage p)) ''flags''
     = JList (map policy_flag_json (pv_policy_flags p))"
  "jget (pst_skipped_records_json (build_reclaim_preview_storage p)) ''records''
     = JList (map skipped_record_json (rp_skipped p))"
  "jget (pst_skipped_records_json (build_reclaim_preview_storage p)) ''exclusions_by_reason''
     = JList (map exclusion_json (pv_exclusions_by_reason p))"
  by (simp_all add: build_reclaim_preview_storage_def policy_flags_json_def skipped_records_json_def)

text \<open>What a reclaim preview has to satisfy, and the check it then passes.\<close>

definition reclaim_preview_ok :: "reclaim_preview \<Rightarrow> bool \<Rightarrow> bool" where
  "reclaim_preview_ok p global_scope \<longleftrightarrow>
     list_all (\<lambda>r. validate_record (eligible_record_json r) True False = Inr ()) (rp_eligible p)
     \<and> list_all (\<lambda>r. validate_record (override_record_json r) True True = Inr ()) (rp_overrides p)
     \<and> list_all (\<lambda>r. validate_record (skipped_record_json r) False False = Inr ()) (rp_skipped p)
     \<and> rp_normal_eligible_count p = length (rp_eligible p)
     \<and> rp_override_required_count p = length (rp_overrides p)
     \<and> rp_skipped_count p = length (rp_skipped p)
     \<and> rp_affected_license_assignment_count p = length (rp_eligible p) + length (rp_overrides p)
     \<and> rp_affected_user_count p \<le> rp_affected_license_assignment_count p
     \<and> rp_high_confidence_count p = length (filter rel_high_confidence (rp_eligible p))
                                     + length (filter rov_high_confidence (rp_overrides p))
     \<and> rp_estimated_monthly_savings p = sum_list (map rel_monthly_cost (rp_eligible p))
     \<and> rp_override_estimated_monthly_savings p = sum_list (map rov_monthly_cost (rp_overrides p))
     \<and> rp_estimated_monthly_savings p < 10 ^ 28 \<and> rp_override_estimated_monthly_savings p < 10 ^ 28
     \<and> [] \<notin> set (concat (map rov_override_reason_codes (rp_overrides p)))
     \<and> pv_policy_flags p = preview_flags reclaim_safe_reason (concat (map rov_override_reason_codes (rp_overrides p)))
         (length (rp_eligible p) + length (rp_overrides p)) global_scope
     \<and> pv_requires_admin p = (pv_policy_flags p \<noteq> [])
     \<and> pv_requires_policy_override p = (rp_overrides p \<noteq> [])
     \<and> pv_crosses_scopes p = (''cross_scope_target'' \<in> set (concat (map rov_override_reason_codes (rp_overrides p))))"

lemma reclaim_snapshot_valid:
  fixes p :: reclaim_preview
  defines "s \<equiv> build_reclaim_preview_storage p"
  assumes ok: "reclaim_preview_ok p (ar_scope_type ar = Some ''global'')"
    and ar: "ar_action_type ar = ''reclaim_unused_license''" "ar_preview_json ar = pst_preview_json s"
      "ar_policy_flags ar = pst_policy_flags_json s" "ar_skipped_records ar = pst_skipped_records_json s"
      "ar_requires_admin ar = pv_requires_admin p" "ar_record_count ar = pst_record_count s"
      "ar_skipped_count ar = pst_skipped_count s"
  shows "validate_reclaim_snapshot ar = Inr ()"
proof -
  let ?es = "map eligible_record_json (rp_eligible p)" and ?os = "map override_record_json (rp_overrides p)"
    and ?ss = "map skipped_record_json (rp_skipped p)"
  note get = reclaim_storage_get [of p, folded s_def]
  note facts = ok [unfolded reclaim_preview_ok_def]
  have counts: "pst_record_count s = int (rp_affected_license_assignment_count p)"
    "pst_skipped_count s = int (rp_skipped_count p)" "pst_policy_flags_json s = policy_flags_json p"
    by (simp_all add: s_def build_reclaim_preview_storage_def)
  have parts: "list_parts ar = (?es, ?os, ?ss)" by (simp add: list_parts_def ar get)
  have shape: "snapshot_shape ar ReclaimUnusedLicense = Inr ()"
    by (simp add: snapshot_shape_def Let_def ar get reclaim_summary_get)
  have flags: "snapshot_flags ar = Inr ()"
    by (rule built_flags_valid [OF parts, where p = p and reason = reclaim_safe_reason
          and codes = "concat (map rov_override_reason_codes (rp_overrides p))"])
       (use facts in \<open>simp_all add: ar counts all_override_codes_docs\<close>)
  have money: "sum_money ?es = of_nat (rp_estimated_monthly_savings p) * ten_to (- 2)"
    "sum_money ?os = of_nat (rp_override_estimated_monthly_savings p) * ten_to (- 2)"
    using sum_money_cents [of "rp_eligible p" eligible_record_json rel_monthly_cost]
      sum_money_cents [of "rp_overrides p" override_record_json rov_monthly_cost] facts
    by (simp_all add: eligible_record_get override_record_get)
  have high: "high_confidence_total (?es @ ?os) = int (rp_high_confidence_count p)"
    using facts
    by (simp add: high_confidence_append high_confidence_docs eligible_record_get override_record_get)
  have high_le: "rp_high_confidence_count p \<le> length ?es + length ?os"
    using facts by (simp add: add_mono)
  have summary: "validate_summary (reclaim_summary_json p) (int (length ?es + length ?os)) = Inr ()"
    using facts high_le
    by (simp add: validate_summary_def reclaim_summary_get count_int_def money_string_ok)
  have records: "checks (map (\<lambda>r. validate_record r True False) ?es) = Inr ()"
    "checks (map (\<lambda>r. validate_record r True True) ?os) = Inr ()"
    "checks (map (\<lambda>r. validate_record r False False) ?ss) = Inr ()"
    using facts by (simp_all add: checks_map_ok list_all_iff del: map_map)
  show ?thesis
    unfolding validate_reclaim_snapshot_def parts Let_def prod.case checks_ok_simps ensure_Inr_iff ar get
    using shape records summary flags high facts
    by (simp add: reclaim_summary_get money_string_value money exclusions_valid counts)
qed

section \<open>Built previews\<close>

lemma sum_list_sort_key: "sum_list (map f (sort_key k xs)) = sum_list (map f xs)" for f :: "'a \<Rightarrow> nat"
  by (metis mset_map mset_sort sum_mset_sum_list)

lemma reclaim_missing_valid:
  assumes "target_ok t" "s \<in> set (reclaim_missing t rows)"
  shows "validate_record (skipped_record_json s) False False = Inr ()"
  using assms
  by (intro skipped_record_valid) (auto simp: reclaim_missing_def target_ok_def list_all_iff)

lemma affected_users_le:
  "length (remdups (map f xs @ map g ys)) \<le> length xs + length ys"
  by (metis length_append length_map length_remdups_leq)

lemma reclaim_preview_of_ok:
  assumes rows: "list_all reclaim_row_ok (cr_records read)" "length (cr_records read) \<le> MAX_PREVIEW_RECORDS"
    and sc: "scopes_fn_ok scopes" and t: "target_ok t"
  shows "\<exists>p. reclaim_preview_of t requester now scopes decision resources grants read = Inr p
    \<and> reclaim_preview_ok p (ti_scope_type t = ''global'')
    \<and> pv_generated_at p = now \<and> pv_expires_at p = now + PREVIEW_LIFETIME"
proof -
  let ?cs = "map (classify_reclaim t scopes now) (cr_records read)"
  let ?es = "eligible_part ?cs" and ?os = "override_part ?cs"
  note cases = classify_reclaim_cases [OF _ sc t, of _ now]
  have e: "validate_record (eligible_record_json e) True False = Inr () \<and> rel_monthly_cost e \<le> MAX_COST"
    if "e \<in> set ?es" for e
    using that cases rows(1) by (fastforce simp: set_parts list_all_iff split: classified.splits)
  have o: "validate_record (override_record_json r) True True = Inr () \<and> rov_monthly_cost r \<le> MAX_COST
      \<and> [] \<notin> set (rov_override_reason_codes r)"
    if "r \<in> set ?os" for r
    using that cases rows(1) by (fastforce simp: set_parts list_all_iff split: classified.splits)
  have s: "validate_record (skipped_record_json s) False False = Inr ()"
    if "s \<in> set (skipped_part ?cs @ reclaim_missing t (cr_records read))" for s
    using that cases rows(1) reclaim_missing_valid [OF t]
    by (fastforce simp: set_parts list_all_iff split: classified.splits)
  have len: "length ?es \<le> 500" "length ?os \<le> 500"
    using rows(2) length_parts [of ?cs] by (simp_all add: MAX_PREVIEW_RECORDS_def)
  have "sum_list (map rel_monthly_cost ?es) \<le> length ?es * MAX_COST"
    "sum_list (map rov_monthly_cost ?os) \<le> length ?os * MAX_COST"
    using e o by (auto intro!: sum_list_bound)
  moreover have "length ?es * MAX_COST \<le> 500 * MAX_COST" "length ?os * MAX_COST \<le> 500 * MAX_COST"
    using len by (simp_all only: mult_le_mono1)
  ultimately have small: "sum_list (map rel_monthly_cost ?es) < 10 ^ 28" "sum_list (map rov_monthly_cost ?os) < 10 ^ 28"
    by (simp_all add: MAX_COST_def)
  note sums = sum_costs_small [of "map rel_monthly_cost (sort_key rel_id ?es)", unfolded sum_list_sort_key, OF small(1)]
    sum_costs_small [of "map rov_monthly_cost (sort_key rov_id ?os)", unfolded sum_list_sort_key, OF small(2)]
  show ?thesis
    unfolding reclaim_preview_of_def Let_def sums
    using e o s small affected_users_le [of rel_user_id "sort_key rel_id ?es" rov_user_id "sort_key rov_id ?os"]
    by (simp add: raised_def reclaim_preview_ok_def list_all_iff sum_list_sort_key list_ex_iff)
qed

lemma last_by_SomeD: "last_by key k rows = Some r \<Longrightarrow> r \<in> set rows \<and> key r = k"
  by (auto simp: last_by_def dest: find_by_SomeD)

lemma department_scope_ok: "list_all scope_row_ok scopes \<Longrightarrow> scopes_fn_ok (department_scope_of scopes)"
  by (auto simp: scopes_fn_ok_def department_scope_of_def list_all_iff dest!: last_by_SomeD)

definition preview_domain_ok :: "it_domain \<Rightarrow> bool" where
  "preview_domain_ok dm \<longleftrightarrow>
     list_all (\<lambda>la. is_uuid (la_id la)) (it_assignments dm)
     \<and> list_all (\<lambda>u. is_uuid (du_id u)) (it_users dm) \<and> distinct (map du_id (it_users dm))
     \<and> list_all (\<lambda>l. li_monthly_cost_usd l < 10 ^ 8) (it_licenses dm)"

lemma quantize_cents_bound:
  assumes "x < 10 ^ 8"
  shows "quantize_cents x \<le> int MAX_COST"
proof (cases "0 \<le> x")
  case True
  with assms show ?thesis by (simp add: quantize_cents_def MAX_COST_def floor_le_iff)
next
  case False
  then have "0 \<le> \<lfloor>100 * (- x) + 1 / 2\<rfloor>" by simp
  with False show ?thesis by (simp only: quantize_cents_def if_False MAX_COST_def)
qed

lemma reclaim_candidates_ok:
  assumes "preview_domain_ok dm"
  shows "list_all reclaim_row_ok (reclaim_candidates ss dm selected)"
proof -
  have "reclaim_row_ok (reclaim_candidate_of ss dm la)" if "la \<in> set (it_assignments dm)" for la
    using assms that quantize_cents_bound
    by (auto simp: reclaim_row_ok_def reclaim_candidate_of_def Let_def preview_domain_ok_def list_all_iff
        split: option.split dest!: find_by_SomeD)
  then show ?thesis by (auto simp: reclaim_candidates_def list_all_iff dest: in_set_takeD)
qed

lemma candidate_read_ofD:
  "candidate_read_of ss rows = Inr read \<Longrightarrow>
     cr_records read = rows \<and> length rows \<le> MAX_PREVIEW_RECORDS \<and> cr_runtime_role read = ss_role ss
     \<and> cr_transaction_read_only read = ss_read_only ss \<and> cr_row_security_enabled read = ss_row_security ss"
  by (auto simp: candidate_read_of_def split: if_splits)

lemma read_reclaim_ok:
  assumes "preview_domain_ok dm" "read_reclaim_candidates src ss dm target requester = Inr read"
  shows "list_all reclaim_row_ok (cr_records read)" "length (cr_records read) \<le> MAX_PREVIEW_RECORDS"
  using assms reclaim_candidates_ok [OF assms(1)]
  by (auto simp: read_reclaim_candidates_def result_bind_Inr_iff dest!: candidate_read_ofD
      split: if_splits option.splits)

lemma build_reclaim_preview_ok:
  assumes "preview_domain_ok dm" "list_all scope_row_ok scopes" "target_ok t"
    and "build_reclaim_preview src ss scopes dm t requester now = Inr p"
  shows "reclaim_preview_ok p (ti_scope_type t = ''global'')" "pv_generated_at p = now"
    "pv_expires_at p = now + PREVIEW_LIFETIME" "ti_action_type t = ReclaimUnusedLicense"
proof -
  obtain resources grants read where
    r: "read_reclaim_candidates src ss dm t requester = Inr read"
    and p: "reclaim_preview_of t requester now (department_scope_of scopes)
       (evaluate_action_request requester (ti_scope_type t) (ti_scope_key t)) resources grants read = Inr p"
    and ty: "ti_action_type t = ReclaimUnusedLicense"
    using assms(4)
    by (auto simp: build_reclaim_preview_def Let_def result_bind_Inr_iff split: if_splits prod.splits)
  from reclaim_preview_of_ok [OF read_reclaim_ok [OF assms(1) r] department_scope_ok [OF assms(2)] assms(3)] p ty
  show "reclaim_preview_ok p (ti_scope_type t = ''global'')" "pv_generated_at p = now"
    "pv_expires_at p = now + PREVIEW_LIFETIME" "ti_action_type t = ReclaimUnusedLicense"
    by (metis sum.inject(2))+
qed

end
