(* ===== verification/Disable_Preview_Check.thy ===== *)
theory Disable_Preview_Check
  imports Reclaim_Preview_Check
begin

text \<open>
  A disable preview passes the check of \<open>validate_disable_snapshot\<close>, which reads everything the preview
  stores: record documents, every count, the exclusions, the flags, the scope ids, the resources and the
  access snapshots.
\<close>

section \<open>Record documents\<close>

lemma disable_record_get:
  fixes i sid sty skey label login code reason extra
  defines "doc \<equiv> JDict (disable_record_json i sid sty skey label login code reason @ extra)"
  shows "is_dict doc" "jget doc ''record_type'' = JStr ''directory_user''" "jget doc ''record_id'' = JStr i"
    "jget doc ''directory_user_id'' = JStr i" "jget doc ''scope'' = scope_json sid sty skey"
    "jget doc ''user_display_label'' = jopt label" "jget doc ''last_successful_login_at'' = instant_json login"
    "jget doc ''reason_code'' = JStr code" "jget doc ''reason'' = JStr reason"
    "jget doc ''override_reason_codes'' = jget (JDict extra) ''override_reason_codes''"
  by (simp_all add: doc_def disable_record_json_def)

lemma jstrs_distinct [simp]: "distinct (jlist (jstrs codes)) = distinct codes"
  by (simp add: distinct_map inj_on_def)

lemma disable_record_valid:
  fixes i sid sty skey label login code reason extra
  defines "doc \<equiv> JDict (disable_record_json i sid sty skey label login code reason @ extra)"
  assumes ids: "is_uuid i" "pred_option is_uuid sid" "actionable \<Longrightarrow> sid \<noteq> None \<and> label \<noteq> None"
    and strs: "sty \<noteq> []" "skey \<noteq> []" "code \<noteq> []" "reason \<noteq> []"
    and over: "map_of extra ''override_reason_codes'' = (if override then Some (jstrs codes) else None)"
      "override \<Longrightarrow> codes \<noteq> [] \<and> hd codes = code \<and> [] \<notin> set codes \<and> distinct codes"
  shows "validate_disable_record doc actionable override = Inr ()"
proof -
  note get = disable_record_get [of i sid sty skey label login code reason extra, folded doc_def]
  have sid: "jopt sid = JNull \<or> validated_uuid (jopt sid) \<noteq> None" using ids(2) by (cases sid) simp_all
  have full: "actionable \<longrightarrow> jopt sid \<noteq> JNull \<and> is_str (jopt label)"
    using ids(3) by (auto simp: jopt_def split: option.split)
  show ?thesis
    unfolding validate_disable_record_def Let_def get checks_ok_simps ensure_Inr_iff
    using ids(1) strs sid full over(2) override_codes_jstrs [of codes]
    by (cases override) (simp_all add: get over(1) del: jlist_simps(1))
qed

section \<open>Classified rows\<close>

definition disable_row_ok :: "disable_row \<Rightarrow> bool" where
  "disable_row_ok row \<longleftrightarrow> is_uuid (du_id (dr_user row))"

lemma disable_preview_reason_nonempty [simp]: "disable_preview_reason c \<noteq> []"
  by (simp add: disable_preview_reason_def disable_safe_reason_def)

lemma disable_skip_code_Some: "disable_skip_code scope cutoff row = Some code \<Longrightarrow> code \<noteq> []"
  by (auto simp: disable_skip_code_def Let_def split: if_splits)

lemma disable_skip_code_None: "disable_skip_code scope cutoff row = None \<Longrightarrow> scope \<noteq> None"
  by (auto simp: disable_skip_code_def Let_def split: if_splits)

lemma disable_codes_props: "[] \<notin> set (disable_preview_codes t row)" "distinct (disable_preview_codes t row)"
  by (auto simp: disable_preview_codes_def)

lemma disable_skipped_valid:
  assumes "is_uuid (dsk_id r)" "pred_option is_uuid (dsk_scope_id r)" "dsk_scope_type r \<noteq> []"
    "dsk_scope_key r \<noteq> []" "dsk_reason_code r \<noteq> []" "dsk_reason r \<noteq> []"
  shows "validate_disable_record (disable_skipped_json r) False False = Inr ()"
  unfolding disable_skipped_json_def
  using disable_record_valid [where extra = "[]" and override = False and actionable = False, simplified] assms
  by simp

lemma classify_disable_cases:
  assumes row: "disable_row_ok row" and sc: "scopes_fn_ok scopes" and t: "target_ok t"
  shows "case classify_disable t scopes now row of
      ClEligible e \<Rightarrow> validate_disable_record (disable_eligible_json e) True False = Inr ()
        \<and> is_uuid (del_scope_id e) \<and> del_id e = du_id (dr_user row)
    | ClSkipped s \<Rightarrow> validate_disable_record (disable_skipped_json s) False False = Inr ()
    | ClOverride r \<Rightarrow> validate_disable_record (disable_override_json r) True True = Inr ()
        \<and> is_uuid (dov_scope_id r) \<and> dov_id r = du_id (dr_user row) \<and> [] \<notin> set (dov_override_reason_codes r)"
proof -
  let ?u = "dr_user row" and ?sc = "scopes (du_department_id (dr_user row))"
  have i: "is_uuid (du_id ?u)" using row by (simp add: disable_row_ok_def)
  have sok: "?sc = Some s \<Longrightarrow> scope_row_ok s" for s using sc by (simp add: scopes_fn_ok_def)
  have safe: "(case ?sc of None \<Rightarrow> ti_scope_type t | Some s \<Rightarrow> as_scope_type s) \<noteq> []"
    "(case ?sc of None \<Rightarrow> ti_scope_key t | Some s \<Rightarrow> as_scope_key s) \<noteq> []"
    "pred_option is_uuid (map_option as_id ?sc)"
    using t sok by (cases ?sc; simp add: target_ok_def scope_row_ok_def)+
  show ?thesis
  proof (cases "disable_skip_code ?sc (now - INACTIVITY_DAYS * MICROSECONDS_PER_DAY) row")
    case (Some code)
    with safe i disable_skip_code_Some [OF Some] show ?thesis
      by (auto simp: classify_disable_def Let_def intro!: disable_skipped_valid)
  next
    case None
    then obtain s where st: "?sc = Some s" using disable_skip_code_None by blast
    have s: "is_uuid (as_id s)" "as_scope_type s \<noteq> []" "as_scope_key s \<noteq> []"
      using sok [OF st] by (simp_all add: scope_row_ok_def)
    let ?codes = "disable_preview_codes t row"
    have valid: "validate_disable_record (JDict (disable_record_json (du_id ?u) (Some (as_id s))
        (as_scope_type s) (as_scope_key s) (Some (du_full_name ?u)) login code reason @ extra)) True override = Inr ()"
      if "code \<noteq> []" "reason \<noteq> []"
        "map_of extra ''override_reason_codes'' = (if override then Some (jstrs codes) else None)"
        "override \<Longrightarrow> codes \<noteq> [] \<and> hd codes = code \<and> [] \<notin> set codes \<and> distinct codes"
      for login code reason extra override codes
      using that st s i by (intro disable_record_valid [where codes = codes]) auto
    have ne: "?codes \<noteq> [] \<Longrightarrow> hd ?codes \<noteq> []" using disable_codes_props(1) [of t row] by (metis hd_in_set)
    show ?thesis
      using ne s valid [where extra = "[]" and override = False and codes = "[]"]
        valid [where override = True and codes = ?codes and code = "hd ?codes"
          and extra = "[(''override_reason_codes'', jstrs ?codes)]"]
        disable_codes_props [of t row]
      by (cases ?codes)
         (simp_all add: classify_disable_def Let_def None [unfolded st] st disable_eligible_json_def
          disable_override_json_def)
  qed
qed

section \<open>The stored documents\<close>

lemma disable_override_get:
  "jget (disable_override_json r) ''override_reason_codes'' = jstrs (dov_override_reason_codes r)"
  "jget (disable_override_json r) ''record_id'' = JStr (dov_id r)"
  by (simp_all add: disable_override_json_def disable_record_json_def)

lemma disable_eligible_get: "jget (disable_eligible_json r) ''record_id'' = JStr (del_id r)"
  by (simp add: disable_eligible_json_def disable_record_json_def)

lemma disable_skipped_get: "jget (disable_skipped_json r) ''reason_code'' = JStr (dsk_reason_code r)"
  by (simp add: disable_skipped_json_def disable_record_json_def)

lemma disable_override_codes_docs:
  "record_override_codes (disable_override_json r) = dov_override_reason_codes r"
  "all_override_codes (map disable_override_json rs) = concat (map dov_override_reason_codes rs)"
  by (simp_all add: all_override_codes_def comp_def record_override_codes_doc [OF disable_override_get(1)])

lemma disable_count_docs:
  "count_override code (map disable_override_json rs) = int (count_with_code code rs)"
  "count_code code (map disable_skipped_json ss) = int (count_with_reason code ss)"
  by (simp_all add: count_override_def count_with_code_def count_code_def count_with_reason_def
      filter_map comp_def disable_override_codes_docs disable_skipped_get)

lemma disable_summary_get:
  "is_dict (disable_summary_json p)"
  "jget (disable_summary_json p) ''affected_users_count'' = JInt (int (dp_affected_users_count p))"
  "jget (disable_summary_json p) ''privileged_users_count'' = JInt (int (dp_privileged_users_count p))"
  "jget (disable_summary_json p) ''service_accounts_excluded_count'' = JInt (int (dp_service_accounts_excluded_count p))"
  "jget (disable_summary_json p) ''open_security_events_count'' = JInt (int (dp_open_security_events_count p))"
  "jget (disable_summary_json p) ''recent_login_skipped_count'' = JInt (int (dp_recent_login_skipped_count p))"
  "jget (disable_summary_json p) ''normal_eligible_count'' = JInt (int (dp_normal_eligible_count p))"
  "jget (disable_summary_json p) ''skipped_count'' = JInt (int (dp_skipped_count p))"
  "jget (disable_summary_json p) ''override_required_count'' = JInt (int (dp_override_required_count p))"
  by (simp_all add: disable_summary_json_def)

lemma disable_storage_get:
  "is_dict (pst_preview_json (build_disable_preview_storage p))"
  "is_dict (pst_policy_flags_json (build_disable_preview_storage p))"
  "is_dict (pst_skipped_records_json (build_disable_preview_storage p))"
  "jget (pst_preview_json (build_disable_preview_storage p)) ''schema_version'' = JInt 1"
  "jget (pst_preview_json (build_disable_preview_storage p)) ''action_type'' = JStr ''disable_inactive_user''"
  "jget (pst_preview_json (build_disable_preview_storage p)) ''summary'' = disable_summary_json p"
  "jget (pst_preview_json (build_disable_preview_storage p)) ''eligible_records''
     = JList (map disable_eligible_json (dp_eligible p))"
  "jget (pst_preview_json (build_disable_preview_storage p)) ''override_required_records''
     = JList (map disable_override_json (dp_overrides p))"
  "jget (pst_preview_json (build_disable_preview_storage p)) ''requester_scope_ids'' = jstrs (pv_requester_scope_ids p)"
  "jget (pst_preview_json (build_disable_preview_storage p)) ''target_scope_ids'' = jstrs (pv_target_scope_ids p)"
  "jget (pst_preview_json (build_disable_preview_storage p)) ''target_resource_descriptors''
     = JList (map resource_descriptor_json (pv_resources p))"
  "jget (pst_preview_json (build_disable_preview_storage p)) ''scope_decision_reason''
     = JStr (dp_scope_decision_reason p)"
  "jget (pst_policy_flags_json (build_disable_preview_storage p)) ''flags''
     = JList (map policy_flag_json (pv_policy_flags p))"
  "jget (pst_skipped_records_json (build_disable_preview_storage p)) ''records''
     = JList (map disable_skipped_json (dp_skipped p))"
  "jget (pst_skipped_records_json (build_disable_preview_storage p)) ''exclusions_by_reason''
     = JList (map exclusion_json (pv_exclusions_by_reason p))"
  "pst_access_context_json (build_disable_preview_storage p) = access_context_json (pv_access_context p)"
  "pst_access_decision_json (build_disable_preview_storage p) = access_decision_json (pv_access_decision p)"
  by (simp_all add: build_disable_preview_storage_def policy_flags_json_def skipped_records_json_def)

lemma scope_ids_jstrs:
  assumes "list_all is_uuid ids" "distinct ids"
  shows "scope_ids_ok (jstrs ids)" "scope_id_set (jstrs ids) = ids"
proof -
  have "map validated_uuid (map JStr ids) = map Some ids" using assms(1) by (simp add: list_all_iff)
  then show "scope_ids_ok (jstrs ids)"
    using assms by (simp add: scope_ids_ok_def list_all_iff distinct_map inj_on_def del: map_map)
  show "scope_id_set (jstrs ids) = ids" using assms(1) by (simp add: scope_id_set_def list_all_iff comp_def map_idI)
qed

definition descriptor_ok :: "resource_descriptor \<Rightarrow> bool" where
  "descriptor_ok r \<longleftrightarrow> rsd_table_name r \<noteq> [] \<and> rsd_display_name r \<noteq> [] \<and> rsd_sensitivity_level r \<noteq> []"

lemma resource_tables_json: "resource_tables (JList (map resource_descriptor_json rs)) = map rsd_table_name rs"
  by (simp add: resource_tables_def resource_descriptor_json_def)

lemma resource_descriptors_json:
  assumes "rs \<noteq> []" "list_all descriptor_ok rs" "distinct (map rsd_table_name rs)"
  shows "resource_descriptors_ok (JList (map resource_descriptor_json rs))"
  using assms
  by (simp add: resource_descriptors_ok_def resource_tables_json list_all_iff)
     (auto simp: resource_descriptor_ok_def resource_descriptor_json_def descriptor_ok_def)

text \<open>The access snapshots of a preview that was authorized for the tables and read behind the boundary.\<close>

definition access_ok :: "preview_access_context \<Rightarrow> preview_access_decision \<Rightarrow> uuid \<Rightarrow> string list \<Rightarrow> bool" where
  "access_ok c d requester tables \<longleftrightarrow>
     pac_app_user_id c = requester \<and> pac_permissions c = [''can_request_action'']
     \<and> list_all is_uuid (pac_assigned_scope_ids c) \<and> distinct (pac_assigned_scope_ids c)
     \<and> pad_allowed d \<and> pad_reason d = ''all_required_resources_authorized''
     \<and> pad_required_permission d = Some ''can_request_action''
     \<and> map rg_table_name (pad_resource_decisions d) = tables
     \<and> list_all (\<lambda>g. rg_allowed g \<and> rg_required_permission g = Some ''can_request_action'') (pad_resource_decisions d)
     \<and> pad_runtime_role d = QUERY_RUNTIME_ROLE \<and> pad_transaction_read_only d \<and> pad_row_security_enabled d"

lemma granted_tables_json:
  assumes "list_all (\<lambda>g. rg_allowed g \<and> rg_required_permission g = Some ''can_request_action'') gs"
  shows "granted_tables (JList (map resource_grant_json gs)) = map (JStr \<circ> rg_table_name) gs"
proof -
  have "filter (\<lambda>i. is_dict i \<and> flag_is_true i ''allowed'' \<and> jget i ''required_permission'' = JStr ''can_request_action''
      \<and> is_list (jget i ''matched_scopes'')) (map resource_grant_json gs) = map resource_grant_json gs"
    using assms by (intro filter_True) (auto simp: list_all_iff resource_grant_json_def flag_is_true_def)
  then show ?thesis by (simp add: granted_tables_def resource_grant_json_def)
qed

lemma access_snapshots_valid:
  assumes ok: "access_ok c d requester tables" and dist: "distinct tables"
    and ar: "ar_requested_by ar = requester" "ar_access_context_snapshot ar = access_context_json c"
      "ar_access_decision_snapshot ar = access_decision_json d"
  shows "validate_disable_access_snapshots ar tables = Inr ()"
proof -
  note facts = ok [unfolded access_ok_def]
  have get: "jget (access_context_json c) ''app_user_id'' = JStr requester"
    "jget (access_context_json c) ''effective_action_permissions'' = JList [JStr ''can_request_action'']"
    "jget (access_context_json c) ''assigned_scope_ids'' = jstrs (pac_assigned_scope_ids c)"
    "jget (access_context_json c) ''assigned_scopes'' = jstrs (pac_assigned_scopes c)"
    "jget (access_context_json c) ''has_global_scope'' = JBool (pac_has_global_scope c)"
    "jget (access_decision_json d) ''reason_code'' = JStr ''all_required_resources_authorized''"
    "jget (access_decision_json d) ''required_permission'' = JStr ''can_request_action''"
    "jget (access_decision_json d) ''matched_scopes'' = jstrs (pad_matched_scopes d)"
    "jget (access_decision_json d) ''resource_decisions'' = JList (map resource_grant_json (pad_resource_decisions d))"
    "flag_is_true (access_decision_json d) ''allowed''"
    "is_dict (access_context_json c)" "is_dict (access_decision_json d)"
    using facts by (simp_all add: access_context_json_def access_decision_json_def flag_is_true_def jstrs_def)
  have "read_boundary_ok (JDict [(''runtime_role'', JStr QUERY_RUNTIME_ROLE), (''transaction_read_only'', JBool True),
      (''row_security_enabled'', JBool True)])"
    by (simp add: read_boundary_ok_def QUERY_RUNTIME_ROLE_def)
  then have boundary: "read_boundary_ok (jget (access_decision_json d) ''read_boundary'')"
    using facts by (simp add: access_decision_json_def)
  have granted: "granted_tables (JList (map resource_grant_json (pad_resource_decisions d))) = map JStr tables"
    using facts granted_tables_json [of "pad_resource_decisions d"] by (metis map_map)
  have len: "length (pad_resource_decisions d) = length tables" using facts by (metis length_map)
  show ?thesis
    unfolding validate_disable_access_snapshots_def Let_def ar get granted checks_ok_simps ensure_Inr_iff
    using facts dist len boundary
    by (simp add: get(10-12) scope_ids_jstrs list_all_iff comp_def distinct_remdups_id)
qed

section \<open>The snapshot\<close>

definition disable_records_ok :: "disable_preview \<Rightarrow> bool" where
  "disable_records_ok p \<longleftrightarrow>
     list_all (\<lambda>r. validate_disable_record (disable_eligible_json r) True False = Inr ()) (dp_eligible p)
     \<and> list_all (\<lambda>r. validate_disable_record (disable_override_json r) True True = Inr ()) (dp_overrides p)
     \<and> list_all (\<lambda>r. validate_disable_record (disable_skipped_json r) False False = Inr ()) (dp_skipped p)
     \<and> distinct (map del_id (dp_eligible p) @ map dov_id (dp_overrides p))
     \<and> [] \<notin> set (concat (map dov_override_reason_codes (dp_overrides p)))"

definition disable_counts_ok :: "disable_preview \<Rightarrow> bool" where
  "disable_counts_ok p \<longleftrightarrow>
     dp_affected_users_count p = length (dp_eligible p) + length (dp_overrides p)
     \<and> dp_normal_eligible_count p = length (dp_eligible p) \<and> dp_skipped_count p = length (dp_skipped p)
     \<and> dp_override_required_count p = length (dp_overrides p)
     \<and> dp_privileged_users_count p = count_with_code ''privileged_user'' (dp_overrides p)
     \<and> dp_open_security_events_count p = count_with_code ''open_critical_security_event'' (dp_overrides p)
     \<and> dp_service_accounts_excluded_count p = count_with_reason ''service_account_excluded'' (dp_skipped p)
     \<and> dp_recent_login_skipped_count p = count_with_reason ''recent_successful_login'' (dp_skipped p)
     \<and> pv_exclusions_by_reason p
         = count_codes (map dsk_reason_code (dp_skipped p) @ concat (map dov_override_reason_codes (dp_overrides p)))"

definition disable_policy_ok :: "disable_preview \<Rightarrow> bool \<Rightarrow> bool" where
  "disable_policy_ok p global_scope \<longleftrightarrow>
     pv_policy_flags p = preview_flags disable_preview_reason
        (concat (map dov_override_reason_codes (dp_overrides p)))
        (length (dp_eligible p) + length (dp_overrides p)) global_scope
     \<and> pv_requires_admin p = (pv_policy_flags p \<noteq> []) \<and> pv_requires_policy_override p = (dp_overrides p \<noteq> [])
     \<and> pv_crosses_scopes p = (''cross_scope_target'' \<in> set (concat (map dov_override_reason_codes (dp_overrides p))))"

definition disable_scopes_ok :: "disable_preview \<Rightarrow> uuid \<Rightarrow> bool" where
  "disable_scopes_ok p scope \<longleftrightarrow>
     list_all is_uuid (pv_requester_scope_ids p) \<and> distinct (pv_requester_scope_ids p)
     \<and> list_all is_uuid (pv_target_scope_ids p) \<and> distinct (pv_target_scope_ids p)
     \<and> scope \<in> set (pv_target_scope_ids p)
     \<and> list_all descriptor_ok (pv_resources p) \<and> map rsd_table_name (pv_resources p) = DISABLE_RESOURCE_TABLES"

lemma disable_tables_distinct: "distinct DISABLE_RESOURCE_TABLES" "DISABLE_RESOURCE_TABLES \<noteq> []"
  by (simp_all add: DISABLE_RESOURCE_TABLES_def)

lemma disable_snapshot_valid:
  fixes p :: disable_preview
  defines "s \<equiv> build_disable_preview_storage p"
  assumes ok: "disable_records_ok p" "disable_counts_ok p" "disable_policy_ok p (ar_scope_type ar = Some ''global'')"
      "disable_scopes_ok p scope"
    and access: "access_ok (pv_access_context p) (pv_access_decision p) requester DISABLE_RESOURCE_TABLES"
    and ar: "ar_action_type ar = ''disable_inactive_user''" "ar_preview_json ar = pst_preview_json s"
      "ar_policy_flags ar = pst_policy_flags_json s" "ar_skipped_records ar = pst_skipped_records_json s"
      "ar_requires_admin ar = pv_requires_admin p" "ar_record_count ar = pst_record_count s"
      "ar_skipped_count ar = pst_skipped_count s" "ar_scope_id ar = Some scope" "ar_requested_by ar = requester"
      "ar_access_context_snapshot ar = pst_access_context_json s"
      "ar_access_decision_snapshot ar = pst_access_decision_json s"
  shows "validate_disable_snapshot ar = Inr ()"
proof -
  let ?es = "map disable_eligible_json (dp_eligible p)" and ?os = "map disable_override_json (dp_overrides p)"
    and ?ss = "map disable_skipped_json (dp_skipped p)"
  note get = disable_storage_get [of p, folded s_def]
  note records = ok(1) [unfolded disable_records_ok_def] and counts = ok(2) [unfolded disable_counts_ok_def]
    and policy = ok(3) [unfolded disable_policy_ok_def] and scopes = ok(4) [unfolded disable_scopes_ok_def]
  have store: "pst_record_count s = int (dp_affected_users_count p)" "pst_skipped_count s = int (dp_skipped_count p)"
    "pst_policy_flags_json s = policy_flags_json p"
    by (simp_all add: s_def build_disable_preview_storage_def)
  have parts: "list_parts ar = (?es, ?os, ?ss)" by (simp add: list_parts_def ar get)
  have shape: "snapshot_shape ar DisableInactiveUser = Inr ()"
    by (simp add: snapshot_shape_def Let_def ar get disable_summary_get)
  have flags: "snapshot_flags ar = Inr ()"
    by (rule built_flags_valid [OF parts, where p = p and reason = disable_preview_reason
          and codes = "concat (map dov_override_reason_codes (dp_overrides p))"])
       (use records policy in \<open>simp_all add: ar store disable_override_codes_docs\<close>)
  have docs: "checks (map (\<lambda>r. validate_disable_record r True False) ?es) = Inr ()"
    "checks (map (\<lambda>r. validate_disable_record r True True) ?os) = Inr ()"
    "checks (map (\<lambda>r. validate_disable_record r False False) ?ss) = Inr ()"
    using records by (simp_all add: checks_map_ok list_all_iff del: map_map)
  have ids: "distinct (map (\<lambda>r. jget r ''record_id'') (?es @ ?os))"
  proof -
    have "map (\<lambda>r. jget r ''record_id'') (?es @ ?os)
        = map JStr (map del_id (dp_eligible p) @ map dov_id (dp_overrides p))"
      by (simp add: disable_eligible_get disable_override_get)
    then show ?thesis using records by (simp only: distinct_map) (simp add: inj_on_def)
  qed
  have summary: "list_all (\<lambda>(k, n). strict_int (jget (disable_summary_json p) k) = Some n) (expected_disable_counts ar)"
    using counts by (simp add: expected_disable_counts_def parts disable_summary_get disable_count_docs)
  have excl: "expected_exclusions ?ss ?os
      = map dsk_reason_code (dp_skipped p) @ concat (map dov_override_reason_codes (dp_overrides p))"
    by (simp add: expected_exclusions_def disable_override_codes_docs disable_skipped_get comp_def)
  have exclusions: "validate_disable_exclusions (JList (map exclusion_json (pv_exclusions_by_reason p)))
      (expected_exclusions ?ss ?os) = Inr ()"
    unfolding excl using counts disable_exclusions_valid by simp
  have tables: "resource_tables (JList (map resource_descriptor_json (pv_resources p))) = DISABLE_RESOURCE_TABLES"
    using scopes by (simp add: resource_tables_json)
  have descriptors: "resource_descriptors_ok (JList (map resource_descriptor_json (pv_resources p)))"
    using scopes disable_tables_distinct by (intro resource_descriptors_json) auto
  have acc: "validate_disable_access_snapshots ar DISABLE_RESOURCE_TABLES = Inr ()"
    by (rule access_snapshots_valid [OF access disable_tables_distinct(1)]) (simp_all add: ar get)
  show ?thesis
    unfolding validate_disable_snapshot_def parts Let_def prod.case checks_ok_simps ensure_Inr_iff ar get tables
    using shape docs ids summary flags exclusions descriptors acc counts scopes
    by (simp add: store scope_ids_jstrs)
qed

section \<open>Built previews\<close>

lemma action_request_permission:
  "ad_required_permission (evaluate_access subject ''action:request'' r c) = Some ''can_request_action''"
  by (simp add: evaluate_access_def ACTION_REQUIRED_PERMISSIONS_def Let_def)

lemma authorize_resource_Inr:
  "authorize_resource requester t r = Inr g \<Longrightarrow>
     rg_table_name g = dr_table_name r \<and> rg_allowed g \<and> rg_required_permission g = Some ''can_request_action''"
  by (auto simp: authorize_resource_def Let_def authorize_resource_access_def action_request_permission
      split: if_splits)

lemma authorize_tables_Inr:
  assumes "authorize_tables tables rows requester t = Inr (resources, grants)"
  shows "map dr_table_name resources = tables" "set resources \<subseteq> set rows" "map rg_table_name grants = tables"
    "list_all (\<lambda>g. rg_allowed g \<and> rg_required_permission g = Some ''can_request_action'') grants"
proof -
  have some: "None \<notin> set (map (table_resource rows) tables)"
    and r: "resources = map the (map (table_resource rows) tables)"
    and g: "traverse (authorize_resource requester t) resources = Inr grants"
    using assms by (auto simp: authorize_tables_def Let_def result_bind_Inr_iff split: if_splits)
  have each: "the (table_resource rows x) \<in> set rows \<and> dr_table_name (the (table_resource rows x)) = x"
    if "x \<in> set tables" for x
  proof -
    have "table_resource rows x \<noteq> None" using some that by (metis image_eqI set_map)
    then obtain y where "table_resource rows x = Some y" by blast
    then show ?thesis by (auto simp: table_resource_def dest: last_by_SomeD)
  qed
  then show names: "map dr_table_name resources = tables" by (simp add: r comp_def map_idI)
  show "set resources \<subseteq> set rows" using each by (auto simp: r)
  have two: "list_all2 (\<lambda>x y. authorize_resource requester t x = Inr y) resources grants"
    using g by (simp add: traverse_Inr_iff)
  then have "list_all2 (\<lambda>x y. rg_table_name y = dr_table_name x \<and> rg_allowed y
      \<and> rg_required_permission y = Some ''can_request_action'') resources grants"
    by (rule list_all2_mono) (rule authorize_resource_Inr)
  then have "map rg_table_name grants = map dr_table_name resources
      \<and> list_all (\<lambda>g. rg_allowed g \<and> rg_required_permission g = Some ''can_request_action'') grants"
    by (induction rule: list_all2_induct) auto
  then show "map rg_table_name grants = tables"
    "list_all (\<lambda>g. rg_allowed g \<and> rg_required_permission g = Some ''can_request_action'') grants"
    using names by auto
qed

definition requester_ok :: "user_access_context \<Rightarrow> bool" where
  "requester_ok ctx \<longleftrightarrow> list_all (\<lambda>s. is_uuid (sc_id s)) (uc_scopes ctx) \<and> distinct (map sc_id (uc_scopes ctx))"

definition resources_ok :: "data_resource list \<Rightarrow> bool" where
  "resources_ok rs \<longleftrightarrow> list_all (\<lambda>r. dr_display_name r \<noteq> [] \<and> dr_sensitivity_level r \<noteq> []) rs"

text \<open>The ids of the eligible and the override records are ids of different rows.\<close>

lemma classified_ids_distinct:
  fixes now
  assumes "distinct (map (du_id \<circ> dr_user) rows)" "list_all disable_row_ok rows" "scopes_fn_ok scopes" "target_ok t"
  defines "cs \<equiv> map (classify_disable t scopes now) rows"
  shows "distinct (map del_id (eligible_part cs) @ map dov_id (override_part cs))
    \<and> set (map del_id (eligible_part cs) @ map dov_id (override_part cs)) \<subseteq> (du_id \<circ> dr_user) ` set rows"
  unfolding cs_def using assms(1,2)
proof (induction rows)
  case (Cons row rows)
  then have ok: "disable_row_ok row" and new: "du_id (dr_user row) \<notin> (du_id \<circ> dr_user) ` set rows"
    and ih: "distinct (map del_id (eligible_part (map (classify_disable t scopes now) rows))
        @ map dov_id (override_part (map (classify_disable t scopes now) rows)))"
      "set (map del_id (eligible_part (map (classify_disable t scopes now) rows))
        @ map dov_id (override_part (map (classify_disable t scopes now) rows))) \<subseteq> (du_id \<circ> dr_user) ` set rows"
    by auto
  show ?case
    using classify_disable_cases [OF ok assms(3,4), of now] new ih
    by (cases "classify_disable t scopes now row") auto
qed simp

lemma sort_key_distinct_keys:
  "distinct (map f (sort_key k xs) @ map g (sort_key l ys)) = distinct (map f xs @ map g ys)"
proof -
  have "mset (map f (sort_key k xs) @ map g (sort_key l ys)) = mset (map f xs @ map g ys)" by simp
  then show ?thesis by (rule mset_eq_imp_distinct_iff)
qed

lemma disable_missing_valid:
  assumes "target_ok t" "s \<in> set (disable_missing t rows)"
  shows "validate_disable_record (disable_skipped_json s) False False = Inr ()"
  using assms by (intro disable_skipped_valid) (auto simp: disable_missing_def target_ok_def list_all_iff)

lemma disable_preview_of_ok:
  fixes now decision
  assumes rows: "list_all disable_row_ok (cr_records read)" "distinct (map (du_id \<circ> dr_user) (cr_records read))"
    and sc: "scopes_fn_ok scopes" and t: "target_ok t" and req: "requester_ok requester"
    and perm: "has_permission requester ''can_request_action''"
    and res: "map dr_table_name resources = DISABLE_RESOURCE_TABLES" "resources_ok resources"
    and grants: "map rg_table_name grants = DISABLE_RESOURCE_TABLES"
      "list_all (\<lambda>g. rg_allowed g \<and> rg_required_permission g = Some ''can_request_action'') grants"
    and read: "cr_runtime_role read = QUERY_RUNTIME_ROLE" "cr_transaction_read_only read" "cr_row_security_enabled read"
  defines "p \<equiv> disable_preview_of t requester now scopes decision resources grants read"
  shows "disable_records_ok p" "disable_counts_ok p" "disable_policy_ok p (ti_scope_type t = ''global'')"
    "disable_scopes_ok p (the (ti_scope_id t))"
    "access_ok (pv_access_context p) (pv_access_decision p) (uc_user_id requester) DISABLE_RESOURCE_TABLES"
    "pv_generated_at p = now" "pv_expires_at p = now + PREVIEW_LIFETIME"
proof -
  let ?cs = "map (classify_disable t scopes now) (cr_records read)"
  let ?es = "eligible_part ?cs" and ?os = "override_part ?cs"
  note cases = classify_disable_cases [OF _ sc t, of _ now]
  have e: "validate_disable_record (disable_eligible_json e) True False = Inr () \<and> is_uuid (del_scope_id e)"
    if "e \<in> set ?es" for e
    using that cases rows(1) by (fastforce simp: set_parts list_all_iff split: classified.splits)
  have o: "validate_disable_record (disable_override_json r) True True = Inr () \<and> is_uuid (dov_scope_id r)
      \<and> [] \<notin> set (dov_override_reason_codes r)" if "r \<in> set ?os" for r
    using that cases rows(1) by (fastforce simp: set_parts list_all_iff split: classified.splits)
  have s: "validate_disable_record (disable_skipped_json s) False False = Inr ()"
    if "s \<in> set (skipped_part ?cs @ disable_missing t (cr_records read))" for s
    using that cases rows(1) disable_missing_valid [OF t]
    by (fastforce simp: set_parts list_all_iff split: classified.splits)
  have fields: "dp_eligible p = sort_key del_id ?es" "dp_overrides p = sort_key dov_id ?os"
    "dp_skipped p = sort_key dsk_id (skipped_part ?cs @ disable_missing t (cr_records read))"
    by (simp_all add: p_def disable_preview_of_def Let_def)
  have "distinct (map del_id (dp_eligible p) @ map dov_id (dp_overrides p))"
    unfolding fields sort_key_distinct_keys using classified_ids_distinct [OF rows(2,1) sc t, of now] by blast
  then show "disable_records_ok p" using e o s by (simp add: disable_records_ok_def fields list_all_iff)
  show "disable_counts_ok p" "disable_policy_ok p (ti_scope_type t = ''global'')"
    unfolding disable_counts_ok_def disable_policy_ok_def
    by (simp_all add: p_def disable_preview_of_def Let_def)
  obtain i where i: "ti_scope_id t = Some i" "is_uuid i" using t by (auto simp: target_ok_def split: option.splits)
  have "map rsd_table_name (pv_resources p) = map dr_table_name resources"
    by (simp add: p_def disable_preview_of_def Let_def resource_descriptor_of_def)
  moreover have "list_all descriptor_ok (pv_resources p)"
  proof -
    have "\<forall>x \<in> set resources. dr_table_name x \<in> set DISABLE_RESOURCE_TABLES" using res(1) by (metis image_eqI set_map)
    then have "\<forall>x \<in> set resources. dr_table_name x \<noteq> []" by (auto simp: DISABLE_RESOURCE_TABLES_def)
    then show ?thesis
      using res(2)
      by (auto simp: p_def disable_preview_of_def Let_def resource_descriptor_of_def descriptor_ok_def
          resources_ok_def list_all_iff)
  qed
  moreover have "list_all is_uuid (pv_target_scope_ids p)" "distinct (pv_target_scope_ids p)"
    "i \<in> set (pv_target_scope_ids p)"
    using e o i by (auto simp: p_def disable_preview_of_def Let_def list_all_iff)
  moreover have "list_all is_uuid (pv_requester_scope_ids p)" "distinct (pv_requester_scope_ids p)"
    using req by (auto simp: p_def disable_preview_of_def Let_def requester_ok_def list_all_iff)
  ultimately show "disable_scopes_ok p (the (ti_scope_id t))"
    by (simp add: disable_scopes_ok_def res(1) i)
  show "access_ok (pv_access_context p) (pv_access_decision p) (uc_user_id requester) DISABLE_RESOURCE_TABLES"
    using req perm grants read
    by (auto simp: p_def disable_preview_of_def Let_def access_ok_def preview_access_context_of_def
        preview_access_decision_of_def requester_ok_def list_all_iff)
  show "pv_generated_at p = now" "pv_expires_at p = now + PREVIEW_LIFETIME"
    by (simp_all add: p_def disable_preview_of_def Let_def)
qed

lemma disable_candidates_ok:
  assumes "preview_domain_ok dm"
  shows "list_all disable_row_ok (disable_candidates ss dm ids)"
    "distinct (map (du_id \<circ> dr_user) (disable_candidates ss dm ids))"
proof -
  let ?P = "\<lambda>u. du_id u \<in> set ids \<and> query_admits ss (Some (du_department_id u))"
  let ?us = "take (MAX_PREVIEW_RECORDS + 1) (sort_key du_id (filter ?P (it_users dm)))"
  have rows: "disable_candidates ss dm ids = map (disable_candidate_of ss dm) ?us"
    by (simp add: disable_candidates_def)
  have "dr_user (disable_candidate_of ss dm u) = u" for u by (simp add: disable_candidate_of_def)
  then have users: "map (du_id \<circ> dr_user) (map (disable_candidate_of ss dm) ?us) = map du_id ?us" by simp
  have "distinct (map du_id (filter ?P (it_users dm)))"
    using assms by (auto simp: preview_domain_ok_def intro: distinct_map_filter)
  moreover have "mset (map du_id (sort_key du_id (filter ?P (it_users dm)))) = mset (map du_id (filter ?P (it_users dm)))"
    by simp
  ultimately have "distinct (map du_id (sort_key du_id (filter ?P (it_users dm))))"
    using mset_eq_imp_distinct_iff by blast
  then have "distinct (map du_id ?us)" by (simp add: take_map [symmetric])
  then show "distinct (map (du_id \<circ> dr_user) (disable_candidates ss dm ids))" by (simp only: rows users)
  show "list_all disable_row_ok (disable_candidates ss dm ids)"
    using assms
    by (auto simp: rows list_all_iff disable_row_ok_def disable_candidate_of_def preview_domain_ok_def
        dest: in_set_takeD)
qed

lemma open_read_boundary_secure: "open_read_boundary ss requester = Inr ss' \<Longrightarrow> secure_read_boundary ss'"
  by (auto simp: open_read_boundary_def Let_def split: sum.splits if_splits)

lemma read_disable_ok:
  assumes "preview_domain_ok dm" "read_disable_candidates src ss dm target requester = Inr read"
  shows "list_all disable_row_ok (cr_records read)" "distinct (map (du_id \<circ> dr_user) (cr_records read))"
    "cr_runtime_role read = QUERY_RUNTIME_ROLE" "cr_transaction_read_only read" "cr_row_security_enabled read"
proof -
  obtain ss' ids where b: "open_read_boundary ss requester = Inr ss'"
    and r: "candidate_read_of ss' (disable_candidates ss' dm ids) = Inr read"
    using assms(2) by (auto simp: read_disable_candidates_def result_bind_Inr_iff split: if_splits)
  show "list_all disable_row_ok (cr_records read)" "distinct (map (du_id \<circ> dr_user) (cr_records read))"
    "cr_runtime_role read = QUERY_RUNTIME_ROLE" "cr_transaction_read_only read" "cr_row_security_enabled read"
    using candidate_read_ofD [OF r] disable_candidates_ok [OF assms(1), of ss' ids]
      open_read_boundary_secure [OF b]
    by (auto simp: secure_read_boundary_def)
qed

lemma build_disable_preview_ok:
  assumes "preview_domain_ok dm" "list_all scope_row_ok scopes" "target_ok t" "requester_ok requester"
    and "resources_ok (psr_resources src)"
    and "build_disable_preview src ss scopes dm t requester now = Inr p"
  shows "disable_records_ok p" "disable_counts_ok p" "disable_policy_ok p (ti_scope_type t = ''global'')"
    "disable_scopes_ok p (the (ti_scope_id t))"
    "access_ok (pv_access_context p) (pv_access_decision p) (uc_user_id requester) DISABLE_RESOURCE_TABLES"
    "pv_generated_at p = now" "pv_expires_at p = now + PREVIEW_LIFETIME" "ti_action_type t = DisableInactiveUser"
proof -
  obtain resources grants read where
    auth: "authorize_tables DISABLE_RESOURCE_TABLES (psr_resources src) requester t = Inr (resources, grants)"
    and r: "read_disable_candidates src ss dm t requester = Inr read"
    and p: "p = disable_preview_of t requester now (department_scope_of scopes)
       (evaluate_action_request requester (ti_scope_type t) (ti_scope_key t)) resources grants read"
    and al: "pd_allowed (evaluate_action_request requester (ti_scope_type t) (ti_scope_key t))"
    and ty: "ti_action_type t = DisableInactiveUser"
    using assms(6)
    by (auto simp: build_disable_preview_def Let_def result_bind_Inr_iff split: if_splits prod.splits)
  note a = authorize_tables_Inr [OF auth] and rd = read_disable_ok [OF assms(1) r]
  have perm: "has_permission requester ''can_request_action''" using al by (simp add: evaluate_action_request_allowed)
  have res: "resources_ok resources" using assms(5) a(2) by (auto simp: resources_ok_def list_all_iff)
  note all = disable_preview_of_ok [OF rd(1,2) department_scope_ok [OF assms(2)] assms(3,4) perm a(1) res a(3,4) rd(3-5),
      where now = now, folded p]
  show "disable_records_ok p" "disable_counts_ok p" "disable_policy_ok p (ti_scope_type t = ''global'')"
    "disable_scopes_ok p (the (ti_scope_id t))"
    "access_ok (pv_access_context p) (pv_access_decision p) (uc_user_id requester) DISABLE_RESOURCE_TABLES"
    "pv_generated_at p = now" "pv_expires_at p = now + PREVIEW_LIFETIME" "ti_action_type t = DisableInactiveUser"
    unfolding p by (rule all ty)+
qed

end
