(* ===== verification/Preview_Guarantees.thy ===== *)
theory Preview_Guarantees
  imports Disable_Preview_Check Preview_Service Request_Guarantees
begin

text \<open>
  What creating a preview guarantees: the stored draft passes every later check, and a request that
  cannot be previewed is refused without a trace.
\<close>

section \<open>The stored draft\<close>

lemma target_input_of_fields [simp]:
  "ti_scope_type (target_input_of q s) = as_scope_type s" "ti_scope_key (target_input_of q s) = as_scope_key s"
  "ti_scope_id (target_input_of q s) = Some (as_id s)" "ti_department_id (target_input_of q s) = as_department_id s"
  "ti_action_type (target_input_of q s) = pq_action_type q"
  by (simp_all add: target_input_of_def)

definition request_ids_ok :: "preview_request \<Rightarrow> bool" where
  "request_ids_ok q \<longleftrightarrow>
     list_all is_uuid (ids_or_empty (pq_target_user_ids q))
     \<and> list_all is_uuid (ids_or_empty (pq_license_assignment_ids q))"

lemma target_input_ok:
  assumes "request_ids_ok q" "scope_row_ok s"
  shows "target_ok (target_input_of q s)"
  using assms by (auto simp: target_ok_def request_ids_ok_def scope_row_ok_def target_input_of_def list_all_iff)

lemma truncate_preview_simps [simp]:
  "pv_requires_admin (action_preview.truncate p) = pv_requires_admin p"
  "pv_generated_at (action_preview.truncate p) = pv_generated_at p"
  "pv_expires_at (action_preview.truncate p) = pv_expires_at p"
  "pv_policy_flags (action_preview.truncate p) = pv_policy_flags p"
  by (simp_all add: action_preview.truncate_def)

text \<open>What the tables hold: well-formed ids, names and amounts.\<close>

definition preview_tables_ok :: "action_env \<Rightarrow> preview_sources \<Rightarrow> action_store \<Rightarrow> bool" where
  "preview_tables_ok en src st \<longleftrightarrow>
     preview_domain_ok (st_domain st) \<and> list_all scope_row_ok (at_scopes (st_auth st))
     \<and> resources_ok (psr_resources src) \<and> requester_ok (env_context en st)"

lemma env_context_user [simp]: "uc_user_id (env_context en st) = au_id (en_user en)"
  by (simp add: env_context_def)

lemma built_preview_valid:
  fixes ctx source
  assumes ok: "preview_tables_ok en src st" and ids: "request_ids_ok q" and s: "scope_row_ok s"
    and b: "build_preview en src st (target_input_of q s) (env_context en st) = Inr built"
  defines "ar \<equiv> draft_request en q s source ctx built"
  shows "validate_action_snapshot ar = Inr ()" "pv_generated_at (built_base built) = en_now en"
    "pv_expires_at (built_base built) = en_now en + PREVIEW_LIFETIME"
    "\<exists>p :: unit action_preview_ext. ar_policy_flags ar = policy_flags_json p"
proof -
  note t = target_input_ok [OF ids s]
  have ok': "preview_domain_ok (st_domain st)" "list_all scope_row_ok (at_scopes (st_auth st))"
    "resources_ok (psr_resources src)" "requester_ok (env_context en st)"
    using ok by (simp_all add: preview_tables_ok_def)
  have "validate_action_snapshot ar = Inr () \<and> pv_generated_at (built_base built) = en_now en
      \<and> pv_expires_at (built_base built) = en_now en + PREVIEW_LIFETIME
      \<and> (\<exists>p :: unit action_preview_ext. ar_policy_flags ar = policy_flags_json p)"
  proof (cases "pq_action_type q")
    case ReclaimUnusedLicense
    then obtain p where p: "built = BuiltReclaim p"
      and bp: "build_reclaim_preview src (en_session en) (at_scopes (st_auth st)) (st_domain st)
        (target_input_of q s) (env_context en st) (en_now en) = Inr p"
      using b by (auto simp: build_preview_def map_sum_def split: sum.splits)
    note r = build_reclaim_preview_ok [OF ok'(1,2) t bp]
    have "validate_reclaim_snapshot ar = Inr ()"
      by (rule reclaim_snapshot_valid [of p]) (use r(1) ReclaimUnusedLicense in \<open>simp_all add: ar_def p\<close>)
    moreover have "ar_policy_flags ar = policy_flags_json (action_preview.truncate p)"
      by (simp add: ar_def p build_reclaim_preview_storage_def policy_flags_json_def action_preview.truncate_def)
    ultimately show ?thesis
      using r(2,3) ReclaimUnusedLicense
      by (auto simp: validate_action_cases supported_action_type_of_def p ar_def)
  next
    case DisableInactiveUser
    then obtain p where p: "built = BuiltDisable p"
      and bp: "build_disable_preview src (en_session en) (at_scopes (st_auth st)) (st_domain st)
        (target_input_of q s) (env_context en st) (en_now en) = Inr p"
      using b by (auto simp: build_preview_def map_sum_def split: sum.splits)
    note r = build_disable_preview_ok [OF ok'(1,2) t ok'(4,3) bp]
    have "validate_disable_snapshot ar = Inr ()"
      by (rule disable_snapshot_valid [of p _ "as_id s" "au_id (en_user en)"])
         (use r DisableInactiveUser in \<open>simp_all add: ar_def p\<close>)
    moreover have "ar_policy_flags ar = policy_flags_json (action_preview.truncate p)"
      by (simp add: ar_def p build_disable_preview_storage_def policy_flags_json_def action_preview.truncate_def)
    ultimately show ?thesis
      using r(6,7) DisableInactiveUser
      by (auto simp: validate_action_cases supported_action_type_of_def p ar_def)
  qed
  then show "validate_action_snapshot ar = Inr ()" "pv_generated_at (built_base built) = en_now en"
    "pv_expires_at (built_base built) = en_now en + PREVIEW_LIFETIME"
    "\<exists>p :: unit action_preview_ext. ar_policy_flags ar = policy_flags_json p" by blast+
qed

section \<open>Refusals\<close>

lemma authorize_tables_Inl: "authorize_tables tables rows requester t = Inl f \<Longrightarrow> f = PreviewForbidden"
proof -
  assume a: "authorize_tables tables rows requester t = Inl f"
  have "authorize_resource requester t r = Inl g \<Longrightarrow> g = PreviewForbidden" for r g
    by (auto simp: authorize_resource_def Let_def split: if_splits)
  then have "traverse (authorize_resource requester t) rs = Inl g \<Longrightarrow> g = PreviewForbidden" for rs g
    by (induction rs) (auto simp: result_bind_def split: sum.splits)
  with a show ?thesis by (auto simp: authorize_tables_def Let_def result_bind_def split: if_splits sum.splits)
qed

lemma open_read_boundary_total:
  "ss_row_security ss \<Longrightarrow> \<exists>ss'. open_read_boundary ss requester = Inr ss'"
  by (auto simp: open_read_boundary_def set_rls_context_total set_query_runtime_role_def
      secure_read_boundary_def)

lemma candidate_read_of_Inl: "candidate_read_of ss rows = Inl f \<Longrightarrow> f = PreviewTooLarge"
  by (auto simp: candidate_read_of_def split: if_splits)

lemma build_reclaim_preview_Inl:
  assumes dm: "preview_domain_ok dm" and sc: "list_all scope_row_ok scopes" and t: "target_ok t"
    and env: "psr_dialect src = ''postgresql''" "ss_row_security ss"
    and f: "build_reclaim_preview src ss scopes dm t requester now = Inl f"
  shows "f = PreviewForbidden \<or> f = PreviewTooLarge"
proof -
  obtain ss' where b: "open_read_boundary ss requester = Inr ss'" using open_read_boundary_total [OF env(2)] by blast
  have r: "read_reclaim_candidates src ss dm t requester = Inl g \<Longrightarrow> g = PreviewForbidden \<or> g = PreviewTooLarge" for g
    by (auto simp: read_reclaim_candidates_def env(1) b dest!: candidate_read_of_Inl split: option.splits)
  have p: "reclaim_preview_of t requester now (department_scope_of scopes) d resources grants read \<noteq> Inl g"
    if "read_reclaim_candidates src ss dm t requester = Inr read" for d resources grants read g
    using reclaim_preview_of_ok [OF read_reclaim_ok [OF dm that] department_scope_ok [OF sc] t] by (metis Inl_Inr_False)
  show ?thesis
    using f r p
    by (auto simp: build_reclaim_preview_def Let_def result_bind_def dest: authorize_tables_Inl
        split: if_splits sum.splits prod.splits)
qed

lemma build_disable_preview_Inl:
  assumes env: "psr_dialect src = ''postgresql''" "ss_row_security ss"
    and f: "build_disable_preview src ss scopes dm t requester now = Inl f"
  shows "f = PreviewForbidden \<or> f = PreviewTooLarge"
proof -
  obtain ss' where b: "open_read_boundary ss requester = Inr ss'" using open_read_boundary_total [OF env(2)] by blast
  have r: "read_disable_candidates src ss dm t requester = Inl g \<Longrightarrow> g = PreviewForbidden \<or> g = PreviewTooLarge" for g
    by (auto simp: read_disable_candidates_def env(1) b dest!: candidate_read_of_Inl split: if_splits)
  show ?thesis
    using f r
    by (auto simp: build_disable_preview_def Let_def result_bind_def dest: authorize_tables_Inl
        split: if_splits sum.splits prod.splits)
qed

lemma build_preview_Inl:
  assumes "preview_tables_ok en src st" "target_ok t" "psr_dialect src = ''postgresql''"
    "ss_row_security (en_session en)" "build_preview en src st t requester = Inl f"
  shows "f = PreviewForbidden \<or> f = PreviewTooLarge"
  using assms build_reclaim_preview_Inl [of "st_domain st" "at_scopes (st_auth st)" t src "en_session en"]
    build_disable_preview_Inl [of src "en_session en"]
  by (auto simp: build_preview_def preview_tables_ok_def map_sum_def
      split: supported_action_type.splits sum.splits)

lemma resolve_request_scope_Inr:
  "resolve_request_scope scopes i ctx = Inr s \<Longrightarrow>
     s \<in> set scopes \<and> as_id s = i \<and> covers_scope ctx (as_scope_type s) (as_scope_key s)"
  by (auto simp: resolve_request_scope_def Let_def evaluate_action_request_allowed dest: find_by_SomeD
      split: option.splits if_splits)

lemma resolve_request_scope_Inl:
  "resolve_request_scope scopes i ctx = Inl e \<Longrightarrow> e = action_forbidden \<or> e = action_scope_not_found"
  by (auto simp: resolve_request_scope_def Let_def split: option.splits if_splits)

lemma validate_source_query_run_Inl:
  "validate_source_query_run runs user src ty = Inl e \<Longrightarrow> e = source_run_not_found \<or> e = invalid_source_query"
  by (auto simp: validate_source_query_run_def split: option.splits if_splits)

definition preview_refusals :: "api_error list" where
  "preview_refusals =
     [action_forbidden, action_type_not_supported, action_scope_not_found, action_scope_mismatch,
      source_run_not_found, invalid_source_query, preview_too_large]"

text \<open>A call either saves a built preview or refuses and keeps the store.\<close>

lemma create_preview_cases:
  assumes ok: "preview_tables_ok en src st" and ids: "request_ids_ok q"
    and env: "psr_dialect src = ''postgresql''" "ss_row_security (en_session en)"
  obtains (refused) e where "create_preview en src q st = (ServiceError e, st)" "e \<in> set preview_refusals"
    | (saved) s source built where "s \<in> set (at_scopes (st_auth st))" "as_id s = pq_scope_id q"
      "covers_scope (env_context en st) (as_scope_type s) (as_scope_key s)"
      "has_permission (env_context en st) ''can_request_action''"
      "build_preview en src st (target_input_of q s) (env_context en st) = Inr built"
      "create_preview en src q st = save_preview en q s source (env_context en st) built st"
proof -
  let ?ctx = "env_context en st"
  have ref: thesis if "create_preview en src q st = (ServiceError e, st)"
      "e = action_forbidden \<or> e = action_type_not_supported \<or> e = action_scope_not_found
       \<or> e = action_scope_mismatch \<or> e = source_run_not_found \<or> e = invalid_source_query
       \<or> e = preview_too_large" for e
    using that by (intro refused) (auto simp: preview_refusals_def)
  show thesis
  proof (cases "has_permission ?ctx ''can_request_action''
      \<and> registry_get (en_registry en) (action_type_value (pq_action_type q)) \<noteq> None")
    case False
    then have "create_preview en src q st = (ServiceError action_forbidden, st)
        \<or> create_preview en src q st = (ServiceError action_type_not_supported, st)"
      by (auto simp: create_preview_def Let_def)
    then show thesis using ref by blast
  next
    case go: True
    show thesis
    proof (cases "resolve_request_scope (at_scopes (st_auth st)) (pq_scope_id q) ?ctx")
      case (Inl e)
      with go have "create_preview en src q st = (ServiceError e, st)" by (auto simp: create_preview_def Let_def)
      then show thesis using resolve_request_scope_Inl [OF Inl] by (intro ref) auto
    next
      case s: (Inr s)
      note sc = resolve_request_scope_Inr [OF s]
      have "scope_row_ok s" using ok sc by (simp add: preview_tables_ok_def list_all_iff)
      note t = target_input_ok [OF ids this]
      show thesis
      proof (cases "validate_department_bridge s (pq_department_id q)")
        case (Inl e)
        then have "e = action_scope_mismatch" by (auto simp: validate_department_bridge_def split: if_splits)
        moreover have "create_preview en src q st = (ServiceError e, st)"
          using go s Inl by (auto simp: create_preview_def Let_def)
        ultimately show thesis by (intro ref) auto
      next
        case b: (Inr u)
        show thesis
        proof (cases "validate_source_query_run (psr_query_runs src) (au_id (en_user en))
            (pq_source_query_run_id q) (pq_action_type q)")
          case (Inl e)
          with go s b have "create_preview en src q st = (ServiceError e, st)" by (auto simp: create_preview_def Let_def)
          then show thesis using validate_source_query_run_Inl [OF Inl] by (intro ref) auto
        next
          case v: (Inr source)
          show thesis
          proof (cases "build_preview en src st (target_input_of q s) ?ctx")
            case (Inl f)
            with go s b v build_preview_Inl [OF ok t env Inl]
            have "create_preview en src q st = (ServiceError action_forbidden, st)
                \<or> create_preview en src q st = (ServiceError preview_too_large, st)"
              by (auto simp: create_preview_def Let_def)
            then show thesis using ref by blast
          next
            case (Inr built)
            with go s b v have "create_preview en src q st = save_preview en q s source ?ctx built st"
              by (auto simp: create_preview_def Let_def)
            with go sc Inr show thesis by (intro saved) auto
          qed
        qed
      qed
    qed
  qed
qed

text \<open>
  C38: A created preview is valid. On well-formed tables, with row-level security on and a commit that
  succeeds, creating a preview for a validated request either adds one draft of the requester, under the fresh id, with
  one audit entry, whose stored documents pass the check that submitting, approving and reading make, and
  answers with it; or it is refused with one of seven client errors and changes nothing. It never ends in the
  internal preview error, and no exception escapes.
\<close>
theorem created_preview_is_valid:
  assumes ok: "preview_tables_ok en src st" "request_ids_ok q"
    and env: "psr_dialect src = ''postgresql''" "ss_row_security (en_session en)" "en_commit en = Committed"
  shows "(\<exists>ar a v. create_preview en src q st = (Answered v, add_audit a (add_action ar st))
      \<and> ar_id ar = en_new_id en 0 \<and> ar_status ar = DraftPreview \<and> ar_requested_by ar = au_id (en_user en)
      \<and> ar_action_type ar = action_type_value (pq_action_type q)
      \<and> validate_action_snapshot ar = Inr () \<and> safe_action_preview ar = Inr ()
      \<and> ar_preview_expires_at ar = Some (en_now en + PREVIEW_LIFETIME)
      \<and> av_id v = ar_id ar \<and> av_status v = DraftPreview)
    \<or> (\<exists>e. create_preview en src q st = (ServiceError e, st) \<and> e \<in> set preview_refusals)"
proof (rule create_preview_cases [OF ok env(1,2)])
  fix s source built
  assume s: "s \<in> set (at_scopes (st_auth st))"
    and b: "build_preview en src st (target_input_of q s) (env_context en st) = Inr built"
    and c: "create_preview en src q st = save_preview en q s source (env_context en st) built st"
  let ?ar = "draft_request en q s source (env_context en st) built"
  have sr: "scope_row_ok s" using ok s by (simp add: preview_tables_ok_def list_all_iff)
  note valid = built_preview_valid(1) [OF ok sr b, of source "env_context en st"]
    built_preview_valid(2,3) [OF ok sr b] built_preview_valid(4) [OF ok sr b, of source "env_context en st"]
  obtain p :: "unit action_preview_ext" where p: "ar_policy_flags ?ar = policy_flags_json p" using valid(4) by blast
  have safe: "safe_action_preview ?ar = Inr ()"
    using valid(1) by (simp add: safe_action_preview_def p [simplified] policy_flags_json_def revalidation_flags_iterable_def)
  have "safe_action_preview (?ar\<lparr>ar_reason := None\<rparr>) = safe_action_preview ?ar"
    by (rule same_snapshot_safe) (simp add: same_snapshot_def)
  with safe obtain v where v: "reply_view en st (?ar\<lparr>ar_reason := None\<rparr>) None = Answered v"
      "av_id v = ar_id ?ar" "av_status v = DraftPreview"
    by (simp add: reply_view_def serialize_action_request_def)
  have "create_preview en src q st = (Answered v, add_audit (build_action_audit_log (au_id (en_user en)) ?ar None
      (preview_created_event (PRESENTATIONS (pq_action_type q)) built source)) (add_action ?ar st))"
    using c valid(1-3) v(1) env(3)
    by (simp add: save_preview_def Let_def action_presentation_def stored_draft_def commit_or_fail_def)
  then show ?thesis using valid(1,3) safe v(2,3) by (intro disjI1 exI [of _ ?ar]) auto
qed blast

definition example_table :: "string \<Rightarrow> data_resource" where
  "example_table t =
     \<lparr>dr_id = t, dr_resource_type = ''table'', dr_domain = ''it_operations'', dr_schema_name = None,
      dr_table_name = t, dr_column_name = None, dr_display_name = t, dr_sensitivity_level = ''internal'',
      dr_scope_type = None, dr_scope_column = None, dr_is_queryable = True, dr_is_exportable = True,
      dr_llm_exposure_level = ''metadata''\<rparr>"

definition example_sources :: preview_sources where
  "example_sources =
     \<lparr>psr_resources = map example_table RECLAIM_RESOURCE_TABLES, psr_query_runs = [],
      psr_dialect = ''postgresql''\<rparr>"

definition example_preview_request :: preview_request where
  "example_preview_request =
     \<lparr>pq_action_type = ReclaimUnusedLicense, pq_source_query_run_id = None, pq_scope_id = scope_id,
      pq_department_id = None, pq_target_user_ids = None, pq_license_assignment_ids = Some [assignment_id],
      pq_reason = ''unused''\<rparr>"

definition example_scope :: access_scope_row where
  "example_scope = hd (at_scopes example_auth)"

lemma example_scope_simps [simp]:
  "as_id example_scope = scope_id" "as_scope_type example_scope = ''department''"
  "as_scope_key example_scope = ''it''" "as_department_id example_scope = Some department_id"
  "at_scopes example_auth = [example_scope]"
  by (simp_all add: example_scope_def example_auth_def)

lemma example_store_simps [simp]:
  "st_auth example_actions = example_auth" "st_domain example_actions = example_domain"
  "env_context (example_env approver_id t) example_actions = example_ctx"
  by (simp_all add: example_actions_def example_ctx_def env_context_def example_env_def)

lemma example_is_uuid [simp]:
  "is_uuid assignment_id" "is_uuid scope_id" "is_uuid holder_id"
  by code_simp+

lemma example_preview_tables: "preview_tables_ok (example_env approver_id 20) example_sources example_actions"
  by (simp add: preview_tables_ok_def preview_domain_ok_def scope_row_ok_def resources_ok_def requester_ok_def
      example_sources_def example_table_def list_all_iff)
     (simp add: example_domain_def RECLAIM_RESOURCE_TABLES_def)

definition example_target :: target_input where
  "example_target = target_input_of example_preview_request example_scope"

lemma example_request_fields [simp]:
  "pq_action_type example_preview_request = ReclaimUnusedLicense"
  "pq_scope_id example_preview_request = scope_id" "pq_department_id example_preview_request = None"
  "pq_source_query_run_id example_preview_request = None"
  by (simp_all add: example_preview_request_def)

lemma example_target_fields [simp]:
  "target_input_of example_preview_request example_scope = example_target"
  "ti_action_type example_target = ReclaimUnusedLicense" "ti_scope_type example_target = ''department''"
  "ti_scope_key example_target = ''it''" "ti_scope_id example_target = Some scope_id"
  "ti_department_id example_target = Some department_id"
  "ti_targets example_target = [\<lparr>tr_record_type = ''license_assignment'', tr_record_id = assignment_id\<rparr>]"
  by (simp_all add: example_target_def)
     (simp add: target_input_of_def example_preview_request_def ids_or_empty_def)

lemma example_request_allowed: "pd_allowed (evaluate_action_request example_ctx ''department'' ''it'')"
  by (simp add: evaluate_action_request_allowed covers_scope_def has_scope_def)

lemma example_grants:
  "\<exists>gs. authorize_tables RECLAIM_RESOURCE_TABLES (psr_resources example_sources) example_ctx
     example_target = Inr (map example_table RECLAIM_RESOURCE_TABLES, gs)"
proof -
  have res: "map (table_resource (psr_resources example_sources)) RECLAIM_RESOURCE_TABLES
      = map (Some \<circ> example_table) RECLAIM_RESOURCE_TABLES"
    by (simp add: table_resource_def last_by_def find_by_def example_sources_def example_table_def
        RECLAIM_RESOURCE_TABLES_def)
  have "\<exists>g. authorize_resource example_ctx example_target (example_table t) = Inr g" for t
    by (simp add: authorize_resource_def authorize_resource_access_def evaluate_access_def Let_def
        ACTION_REQUIRED_PERMISSIONS_def QUERY_ACTIONS_def EXACT_SCOPE_ACTIONS_def SCOPED_DATA_ACTIONS_def
        resource_to_dict_def str_or_def truthy_str_def has_scope_def example_table_def)
  then obtain g where g: "authorize_resource example_ctx example_target
      (example_table t) = Inr (g t)" for t by metis
  have "traverse (authorize_resource example_ctx example_target)
      (map example_table RECLAIM_RESOURCE_TABLES) = Inr (map g RECLAIM_RESOURCE_TABLES)"
    using g by (simp add: traverse_Inr_iff list_all2_map1 list_all2_map2 list_all2_same)
  then show ?thesis
    unfolding authorize_tables_def Let_def res by (simp add: image_iff comp_def)
qed

lemma example_target_ok: "target_ok example_target"
  by (simp add: target_ok_def)

lemma example_builds:
  "\<exists>p. build_preview (example_env approver_id 20) example_sources example_actions
     example_target example_ctx = Inr (BuiltReclaim p)"
proof -
  let ?ss = "en_session (example_env approver_id 20)" and ?t = example_target
  have ok: "preview_domain_ok example_domain" "list_all scope_row_ok [example_scope]"
    using example_preview_tables by (simp_all add: preview_tables_ok_def)
  have src: "psr_dialect example_sources = ''postgresql''" "ss_row_security ?ss"
    by (simp_all add: example_sources_def example_env_def)
  obtain ss' where b: "open_read_boundary ?ss example_ctx = Inr ss'" using open_read_boundary_total [OF src(2)] by blast
  have few: "length (reclaim_candidates ss' example_domain f) \<le> MAX_PREVIEW_RECORDS" for f
  proof -
    have "length (reclaim_candidates ss' example_domain f) \<le> length (it_assignments example_domain)"
      unfolding reclaim_candidates_def length_map length_take length_sort
      by (rule le_trans [OF min.cobounded1 length_filter_le])
    also have "\<dots> = 1" by (simp add: example_domain_def)
    finally show ?thesis by (simp add: MAX_PREVIEW_RECORDS_def)
  qed
  have len: "candidate_read_of ss' (reclaim_candidates ss' example_domain f) \<noteq> Inl e" for f e
    using few [of f] by (simp add: candidate_read_of_def)
  obtain f where "candidate_condition ?t = Some f" by (simp add: candidate_condition_def selected_ids_def)
  then have "read_reclaim_candidates example_sources ?ss example_domain ?t example_ctx
      = candidate_read_of ss' (reclaim_candidates ss' example_domain f)"
    by (simp add: read_reclaim_candidates_def src b)
  with len obtain read where r: "read_reclaim_candidates example_sources ?ss example_domain ?t example_ctx = Inr read"
    by (metis sum.exhaust)
  obtain gs where g: "authorize_tables RECLAIM_RESOURCE_TABLES (psr_resources example_sources) example_ctx ?t
      = Inr (map example_table RECLAIM_RESOURCE_TABLES, gs)" using example_grants by blast
  obtain p where "reclaim_preview_of ?t example_ctx 20 (department_scope_of [example_scope])
      (evaluate_action_request example_ctx ''department'' ''it'') (map example_table RECLAIM_RESOURCE_TABLES) gs read = Inr p"
    using reclaim_preview_of_ok [OF read_reclaim_ok [OF ok(1) r] department_scope_ok [OF ok(2)] example_target_ok]
    by blast
  then show ?thesis
    using r g example_request_allowed by (simp add: build_preview_def build_reclaim_preview_def)
qed

lemma created_preview_is_valid_witness:
  "\<exists>ar a v. create_preview (example_env approver_id 20) example_sources example_preview_request example_actions
      = (Answered v, add_audit a (add_action ar example_actions))
    \<and> validate_action_snapshot ar = Inr () \<and> av_status v = DraftPreview"
proof -
  let ?en = "example_env approver_id 20" and ?q = example_preview_request
  have ids: "request_ids_ok ?q" by (simp add: request_ids_ok_def example_preview_request_def ids_or_empty_def)
  have src: "psr_dialect example_sources = ''postgresql''" "ss_row_security (en_session ?en)"
    by (simp_all add: example_sources_def example_env_def)
  obtain p where "build_preview ?en example_sources example_actions example_target example_ctx
      = Inr (BuiltReclaim p)" using example_builds by blast
  moreover have "resolve_request_scope [example_scope] scope_id example_ctx = Inr example_scope"
    using example_request_allowed by (simp add: resolve_request_scope_def find_by_def Let_def)
  moreover have "registry_get default_registry ''reclaim_unused_license'' = Some reclaim_handler"
    by (rule example_registry)
  ultimately have save: "create_preview ?en example_sources ?q example_actions
      = save_preview ?en ?q example_scope None example_ctx (BuiltReclaim p) example_actions"
    by (simp add: create_preview_def validate_department_bridge_def validate_source_query_run_def)
  have "fst (save_preview ?en ?q s src ctx b st) \<noteq> ServiceError e" if "e \<in> set preview_refusals" for s src ctx b st e
  proof -
    have "ae_code e \<noteq> ''ACTION_PREVIEW_FAILED''"
      using that by (auto simp: preview_refusals_def action_forbidden_def action_type_not_supported_def
          action_scope_not_found_def action_scope_mismatch_def source_run_not_found_def
          invalid_source_query_def preview_too_large_def)
    then show ?thesis
      by (auto simp: save_preview_def Let_def commit_or_fail_def preview_failed_def reply_view_def
          split: sum.splits snapshot_error.splits)
  qed
  then have "\<nexists>e. create_preview ?en example_sources ?q example_actions = (ServiceError e, example_actions)
      \<and> e \<in> set preview_refusals"
    unfolding save by (metis fst_conv)
  then show ?thesis
    using created_preview_is_valid [OF example_preview_tables ids src example_env_fields(4)] by blast
qed

section \<open>What a reclaim preview selects\<close>

text \<open>The conditions of the code, stated of the tables and not of the order they are tested in.\<close>

definition department_visible :: "user_access_context \<Rightarrow> uuid \<Rightarrow> bool" where
  "department_visible ctx d \<longleftrightarrow>
     uc_has_global_scope ctx
     \<or> list_ex (\<lambda>sc. sc_type sc = ''department'' \<and> sc_department_id sc = Some d) (uc_scopes ctx)"

definition unused_assignment ::
  "it_domain \<Rightarrow> access_scope_row list \<Rightarrow> instant \<Rightarrow> license_assignment \<Rightarrow> bool" where
  "unused_assignment dm scopes now la \<longleftrightarrow>
     la_status la = ''active''
     \<and> (case la_last_used_at la of None \<Rightarrow> True | Some t \<Rightarrow> t < now - 60 * MICROSECONDS_PER_DAY)
     \<and> list_ex (\<lambda>s. as_scope_type s = ''department'' \<and> as_department_id s = Some (la_department_id la)) scopes
     \<and> (case find_by li_id (la_license_id la) (it_licenses dm) of
          None \<Rightarrow> False
        | Some l \<Rightarrow> li_product_name l \<noteq> [] \<and> li_vendor l \<noteq> [] \<and> 0 \<le> quantize_cents (li_monthly_cost_usd l))
     \<and> (case find_by du_id (la_user_id la) (it_users dm) of
          None \<Rightarrow> False
        | Some u \<Rightarrow> du_department_id u = la_department_id la \<and> du_full_name u \<noteq> []
            \<and> (du_account_type u = ''human'' \<or> du_account_type u = ''service''))"

definition needs_review :: "it_domain \<Rightarrow> target_input \<Rightarrow> license_assignment \<Rightarrow> bool" where
  "needs_review dm t la \<longleftrightarrow>
     target_is_cross_scope t (la_department_id la) \<or> la_is_mandatory la \<or> la_is_exception la
     \<or> (case find_by du_id (la_user_id la) (it_users dm) of
          None \<Rightarrow> False | Some u \<Rightarrow> du_account_type u = ''service'')"

lemma open_read_boundary_admits:
  assumes "no_comma_ids requester" "open_read_boundary ss requester = Inr ss'"
  shows "query_admits ss' (Some d) \<longleftrightarrow> department_visible requester d"
proof -
  obtain settings where s: "set_rls_context (\<lambda>_. None) (build_rls_context requester) = Inr settings"
    "ss_settings ss' = settings"
    using assms(2) by (auto simp: open_read_boundary_def Let_def set_query_runtime_role_def split: sum.splits if_splits)
  show ?thesis
    unfolding query_admits_def s(2) rls_policy_visibility [OF assms(1) s(1)]
    by (auto simp: department_visible_def list_ex_iff)
qed

lemma department_scope_of_None:
  "department_scope_of scopes d = None \<longleftrightarrow>
     \<not> list_ex (\<lambda>s. as_scope_type s = ''department'' \<and> as_department_id s = Some d) scopes"
  by (auto simp: department_scope_of_def last_by_def find_by_None list_ex_iff image_iff)

text \<open>The holder the query role sees is the holder, when the department is the assignment's.\<close>

lemma candidate_holder:
  assumes "distinct (map du_id (it_users dm))" "query_admits ss (Some d)" "du_department_id u = d"
  shows "List.find (\<lambda>u. du_id u = i \<and> query_admits ss (Some (du_department_id u))) (it_users dm) = Some u
     \<longleftrightarrow> find_by du_id i (it_users dm) = Some u"
proof
  assume "List.find (\<lambda>u. du_id u = i \<and> query_admits ss (Some (du_department_id u))) (it_users dm) = Some u"
  then have "u \<in> set (it_users dm)" "du_id u = i" by (auto dest: find_SomeD)
  then show "find_by du_id i (it_users dm) = Some u" using find_by_distinct [OF assms(1)] by blast
next
  assume a: "find_by du_id i (it_users dm) = Some u"
  then have u: "u \<in> set (it_users dm)" "du_id u = i" by (auto dest: find_by_SomeD)
  obtain v where v: "List.find (\<lambda>u. du_id u = i \<and> query_admits ss (Some (du_department_id u))) (it_users dm) = Some v"
    using u assms(2,3) by (cases "List.find (\<lambda>u. du_id u = i \<and> query_admits ss (Some (du_department_id u))) (it_users dm)")
      (auto simp: find_None_iff)
  then have "v \<in> set (it_users dm)" "du_id v = i" by (auto dest: find_SomeD)
  then have "find_by du_id i (it_users dm) = Some v" using find_by_distinct [OF assms(1)] by blast
  with a v show "List.find (\<lambda>u. du_id u = i \<and> query_admits ss (Some (du_department_id u))) (it_users dm) = Some u"
    by simp
qed

definition candidate_ok :: "db_session \<Rightarrow> it_domain \<Rightarrow> access_scope_row list \<Rightarrow> instant \<Rightarrow> license_assignment \<Rightarrow> bool" where
  "candidate_ok ss dm scopes now la \<longleftrightarrow>
     (let row = reclaim_candidate_of ss dm la; scope = department_scope_of scopes (la_department_id la)
      in reclaim_skip_code scope (now - NORMAL_ELIGIBILITY_DAYS * MICROSECONDS_PER_DAY) row = None
         \<and> (du_account_type (the (ca_user row)) = ''service'' \<or> du_account_type (the (ca_user row)) = ''human''))"

lemma reclaim_skip_code_None_iff:
  "reclaim_skip_code scope cutoff row = None \<longleftrightarrow>
     la_status (ca_assignment row) = ''active'' \<and> \<not> structural_error scope row
     \<and> \<not> used_since (ca_assignment row) cutoff"
  by (auto simp: reclaim_skip_code_def Let_def)

lemma not_structural_error_iff:
  "\<not> structural_error scope row \<longleftrightarrow>
     scope \<noteq> None
     \<and> (\<exists>u. ca_user row = Some u \<and> du_department_id u = la_department_id (ca_assignment row) \<and> du_full_name u \<noteq> [])
     \<and> (\<exists>l. ca_license row = Some l \<and> li_product_name l \<noteq> [] \<and> li_vendor l \<noteq> [])
     \<and> (\<exists>c. ca_cost row = Some c \<and> 0 \<le> c)"
  unfolding structural_error_def
  by (cases "ca_user row"; cases "ca_license row"; cases "ca_cost row") (auto simp: truthy_str_def)

lemma collect_conditions:
  "(A \<and> (B \<and> (\<exists>u. x = Some u \<and> D u \<and> F u) \<and> (\<exists>l. y = Some l \<and> P l \<and> Q l) \<and> (\<exists>c. map_option f y = Some c \<and> R c)) \<and> N)
     \<and> (T (the x) \<or> H (the x))
   \<longleftrightarrow> (A \<and> N \<and> B \<and> (\<exists>l. y = Some l \<and> P l \<and> Q l \<and> R (f l))) \<and> (\<exists>u. x = Some u \<and> D u \<and> F u \<and> (H u \<or> T u))"
  by (cases x; cases y) auto

lemma candidate_ok_iff:
  assumes dist: "distinct (map du_id (it_users dm))" and q: "query_admits ss (Some (la_department_id la))"
  shows "candidate_ok ss dm scopes now la \<longleftrightarrow> unused_assignment dm scopes now la"
    and "unused_assignment dm scopes now la \<Longrightarrow> \<exists>u. ca_user (reclaim_candidate_of ss dm la) = Some u
      \<and> find_by du_id (la_user_id la) (it_users dm) = Some u"
proof -
  let ?u = "List.find (\<lambda>u. du_id u = la_user_id la \<and> query_admits ss (Some (du_department_id u))) (it_users dm)"
  let ?v = "find_by du_id (la_user_id la) (it_users dm)"
  have parts: "ca_assignment (reclaim_candidate_of ss dm la) = la" "ca_user (reclaim_candidate_of ss dm la) = ?u"
    "ca_license (reclaim_candidate_of ss dm la) = find_by li_id (la_license_id la) (it_licenses dm)"
    "ca_cost (reclaim_candidate_of ss dm la)
       = map_option (\<lambda>l. quantize_cents (li_monthly_cost_usd l)) (find_by li_id (la_license_id la) (it_licenses dm))"
    by (simp_all add: reclaim_candidate_of_def Let_def)
  have same: "?u = Some u \<longleftrightarrow> ?v = Some u" if "du_department_id u = la_department_id la" for u
    by (rule candidate_holder [OF dist q that])
  have holder: "(\<exists>u. ?u = Some u \<and> du_department_id u = la_department_id la \<and> P u)
      \<longleftrightarrow> (\<exists>u. ?v = Some u \<and> du_department_id u = la_department_id la \<and> P u)" for P
    by (intro iff_exI) (use same in \<open>blast\<close>)
  let ?lic = "\<exists>l. find_by li_id (la_license_id la) (it_licenses dm) = Some l \<and> li_product_name l \<noteq> []
      \<and> li_vendor l \<noteq> [] \<and> 0 \<le> quantize_cents (li_monthly_cost_usd l)"
  let ?base = "la_status la = ''active'' \<and> \<not> used_since la (now - 60 * MICROSECONDS_PER_DAY)
      \<and> department_scope_of scopes (la_department_id la) \<noteq> None \<and> ?lic"
  let ?type = "\<lambda>u. du_account_type u = ''human'' \<or> du_account_type u = ''service''"
  have "candidate_ok ss dm scopes now la \<longleftrightarrow> ?base \<and> (\<exists>u. ?u = Some u \<and> du_department_id u = la_department_id la
      \<and> (du_full_name u \<noteq> [] \<and> ?type u))"
    unfolding candidate_ok_def Let_def reclaim_skip_code_None_iff not_structural_error_iff parts
      NORMAL_ELIGIBILITY_DAYS_def
    by (rule collect_conditions [where T = "\<lambda>u. du_account_type u = ''service''" and H = "\<lambda>u. du_account_type u = ''human''"])
  also have "\<dots> \<longleftrightarrow> ?base \<and> (\<exists>u. ?v = Some u \<and> du_department_id u = la_department_id la
      \<and> (du_full_name u \<noteq> [] \<and> ?type u))"
    by (simp only: holder)
  also have "\<dots> \<longleftrightarrow> unused_assignment dm scopes now la"
    unfolding unused_assignment_def used_since_def department_scope_of_None
    by (cases ?v; cases "find_by li_id (la_license_id la) (it_licenses dm)"; cases "la_last_used_at la")
       (simp_all add: not_le)
  finally show "candidate_ok ss dm scopes now la \<longleftrightarrow> unused_assignment dm scopes now la" .
  show "\<exists>u. ca_user (reclaim_candidate_of ss dm la) = Some u \<and> ?v = Some u"
    if "unused_assignment dm scopes now la"
  proof -
    from that have "\<exists>u. ?v = Some u \<and> du_department_id u = la_department_id la \<and> True"
      by (auto simp: unused_assignment_def split: option.splits)
    then obtain u where "?v = Some u" "du_department_id u = la_department_id la" by blast
    then show ?thesis unfolding parts by (intro exI [of _ u] conjI) (simp_all only: same)
  qed
qed

lemma classify_reclaim_exact:
  fixes now scopes t
  assumes dist: "distinct (map du_id (it_users dm))" and q: "query_admits ss (Some (la_department_id la))"
  defines "c \<equiv> classify_reclaim t (department_scope_of scopes) now (reclaim_candidate_of ss dm la)"
  shows "(\<exists>e. c = ClEligible e \<and> rel_id e = i)
      \<longleftrightarrow> la_id la = i \<and> unused_assignment dm scopes now la \<and> \<not> needs_review dm t la"
    and "(\<exists>r. c = ClOverride r \<and> rov_id r = i)
      \<longleftrightarrow> la_id la = i \<and> unused_assignment dm scopes now la \<and> needs_review dm t la"
proof -
  let ?row = "reclaim_candidate_of ss dm la"
  have la: "ca_assignment ?row = la" by (simp add: reclaim_candidate_of_def Let_def)
  note iff = candidate_ok_iff [OF dist q, of scopes now]
  let ?codes = "reclaim_preview_codes t la (du_account_type (the (ca_user ?row)))"
  have kinds: "(\<exists>e. c = ClEligible e \<and> rel_id e = i) \<longleftrightarrow> candidate_ok ss dm scopes now la \<and> ?codes = [] \<and> la_id la = i"
    "(\<exists>r. c = ClOverride r \<and> rov_id r = i) \<longleftrightarrow> candidate_ok ss dm scopes now la \<and> ?codes \<noteq> [] \<and> la_id la = i"
    unfolding c_def classify_reclaim_def candidate_ok_def Let_def la
    by (cases "reclaim_skip_code (department_scope_of scopes (la_department_id la))
          (now - NORMAL_ELIGIBILITY_DAYS * MICROSECONDS_PER_DAY) ?row"; cases ?codes; auto)+
  have "needs_review dm t la \<longleftrightarrow> ?codes \<noteq> []" if "unused_assignment dm scopes now la"
    using iff(2) [OF that] by (auto simp: needs_review_def reclaim_preview_codes_def)
  then show "(\<exists>e. c = ClEligible e \<and> rel_id e = i)
      \<longleftrightarrow> la_id la = i \<and> unused_assignment dm scopes now la \<and> \<not> needs_review dm t la"
    "(\<exists>r. c = ClOverride r \<and> rov_id r = i)
      \<longleftrightarrow> la_id la = i \<and> unused_assignment dm scopes now la \<and> needs_review dm t la"
    unfolding kinds iff(1) by blast+
qed

text \<open>A preview that was built read every row of the condition, and none outside the requester's scopes.\<close>

lemma build_reclaim_preview_Inr:
  assumes "build_reclaim_preview src ss scopes dm t requester now = Inr p"
  obtains f ss' resources grants read where
    "candidate_condition t = Some f" "open_read_boundary ss requester = Inr ss'"
    "set (cr_records read)
       = reclaim_candidate_of ss' dm ` {la \<in> set (it_assignments dm). f la \<and> query_admits ss' (Some (la_department_id la))}"
    "reclaim_preview_of t requester now (department_scope_of scopes)
       (evaluate_action_request requester (ti_scope_type t) (ti_scope_key t)) resources grants read = Inr p"
proof -
  obtain resources grants read where
    r: "read_reclaim_candidates src ss dm t requester = Inr read"
    and p: "reclaim_preview_of t requester now (department_scope_of scopes)
       (evaluate_action_request requester (ti_scope_type t) (ti_scope_key t)) resources grants read = Inr p"
    using assms by (auto simp: build_reclaim_preview_def Let_def result_bind_Inr_iff split: if_splits prod.splits)
  obtain f ss' where f: "candidate_condition t = Some f" and b: "open_read_boundary ss requester = Inr ss'"
    and c: "candidate_read_of ss' (reclaim_candidates ss' dm f) = Inr read"
    using r by (auto simp: read_reclaim_candidates_def result_bind_Inr_iff split: if_splits option.splits)
  let ?P = "\<lambda>la. f la \<and> query_admits ss' (Some (la_department_id la))"
  have rows: "cr_records read = reclaim_candidates ss' dm f" "length (cr_records read) \<le> MAX_PREVIEW_RECORDS"
    using candidate_read_ofD [OF c] by auto
  then have "length (filter ?P (it_assignments dm)) \<le> MAX_PREVIEW_RECORDS"
    by (auto simp: reclaim_candidates_def min_def split: if_splits)
  then have "cr_records read = map (reclaim_candidate_of ss' dm) (sort_key la_id (filter ?P (it_assignments dm)))"
    by (simp add: rows(1) reclaim_candidates_def)
  then have "set (cr_records read) = reclaim_candidate_of ss' dm ` {la \<in> set (it_assignments dm). ?P la}" by simp
  with f b p show thesis by (intro that)
qed

lemma reclaim_preview_of_parts:
  assumes "reclaim_preview_of t requester now scopes decision resources grants read = Inr p"
  shows "set (rp_eligible p) = {e. \<exists>row \<in> set (cr_records read). classify_reclaim t scopes now row = ClEligible e}"
    and "set (rp_overrides p) = {r. \<exists>row \<in> set (cr_records read). classify_reclaim t scopes now row = ClOverride r}"
  using assms
  by (auto simp: reclaim_preview_of_def Let_def result_bind_Inr_iff set_parts image_iff; metis)+

text \<open>
  C39: A reclaim preview is exact. The eligible records are precisely the assignments the request selects, in
  departments the requester's scopes show, that are active, unused for sixty days, with a scope, a holder of
  the same department, a licence with a name, and that need no review; the override records are those that
  do. Nothing outside the requester's scopes is previewed, and no such assignment is left out.
\<close>
theorem reclaim_preview_is_exact:
  assumes dm: "distinct (map du_id (it_users dm))" and ids: "no_comma_ids requester"
    and b: "build_reclaim_preview src ss scopes dm t requester now = Inr p"
  defines "due \<equiv> {la \<in> set (it_assignments dm). the (candidate_condition t) la
      \<and> department_visible requester (la_department_id la) \<and> unused_assignment dm scopes now la}"
  shows "rel_id ` set (rp_eligible p) = la_id ` {la \<in> due. \<not> needs_review dm t la}
    \<and> rov_id ` set (rp_overrides p) = la_id ` {la \<in> due. needs_review dm t la}"
proof (rule build_reclaim_preview_Inr [OF b])
  fix f ss' resources grants read
  assume f: "candidate_condition t = Some f" and o: "open_read_boundary ss requester = Inr ss'"
    and rows: "set (cr_records read) = reclaim_candidate_of ss' dm
       ` {la \<in> set (it_assignments dm). f la \<and> query_admits ss' (Some (la_department_id la))}"
    and p: "reclaim_preview_of t requester now (department_scope_of scopes)
       (evaluate_action_request requester (ti_scope_type t) (ti_scope_key t)) resources grants read = Inr p"
  note vis = open_read_boundary_admits [OF ids o]
  let ?c = "\<lambda>la. classify_reclaim t (department_scope_of scopes) now (reclaim_candidate_of ss' dm la)"
  let ?D = "{la \<in> set (it_assignments dm). f la \<and> department_visible requester (la_department_id la)}"
  have "rel_id ` set (rp_eligible p) = {i. \<exists>la \<in> ?D. \<exists>e. ?c la = ClEligible e \<and> rel_id e = i}"
    "rov_id ` set (rp_overrides p) = {i. \<exists>la \<in> ?D. \<exists>r. ?c la = ClOverride r \<and> rov_id r = i}"
    unfolding reclaim_preview_of_parts [OF p] rows vis by blast+
  moreover have "(\<exists>e. ?c la = ClEligible e \<and> rel_id e = i)
      \<longleftrightarrow> la_id la = i \<and> unused_assignment dm scopes now la \<and> \<not> needs_review dm t la"
    "(\<exists>r. ?c la = ClOverride r \<and> rov_id r = i)
      \<longleftrightarrow> la_id la = i \<and> unused_assignment dm scopes now la \<and> needs_review dm t la"
    if "la \<in> ?D" for la i
    using that classify_reclaim_exact [OF dm, of ss' la t scopes now i] vis by auto
  ultimately show ?thesis by (auto simp: due_def f)
qed

lemma example_no_comma: "no_comma_ids example_ctx"
  by (simp add: no_comma_ids_def department_id_def example_uuid_def)

lemma reclaim_preview_is_exact_witness:
  "\<exists>p. build_reclaim_preview example_sources (en_session (example_env approver_id 20)) [example_scope]
       example_domain example_target example_ctx 20 = Inr p
     \<and> rel_id ` set (rp_eligible p) = {assignment_id} \<and> rov_id ` set (rp_overrides p) = {}"
proof -
  let ?ss = "en_session (example_env approver_id 20)"
  obtain p where p: "build_reclaim_preview example_sources ?ss [example_scope] example_domain example_target example_ctx 20 = Inr p"
    using example_builds by (auto simp: build_preview_def map_sum_def split: sum.splits)
  let ?la = "hd (it_assignments example_domain)"
  have dom: "it_assignments example_domain = [?la]" "la_id ?la = assignment_id" "la_department_id ?la = department_id"
    "la_user_id ?la = holder_id"
    by (simp_all add: example_domain_def)
  have cond: "the (candidate_condition example_target) ?la"
    by (simp add: candidate_condition_def selected_ids_def dom(2))
  have vis: "department_visible example_ctx department_id" by (simp add: department_visible_def)
  have unused: "unused_assignment example_domain [example_scope] 20 ?la"
    by (simp add: unused_assignment_def dom(3)) (simp add: example_domain_def find_by_def quantize_cents_def)
  have rev: "\<not> needs_review example_domain example_target ?la"
    by (simp add: needs_review_def target_is_cross_scope_def dom(3)) (simp add: example_domain_def find_by_def)
  have ids: "distinct (map du_id (it_users example_domain))" by (simp add: example_domain_def)
  have "{la \<in> set (it_assignments example_domain). the (candidate_condition example_target) la
      \<and> department_visible example_ctx (la_department_id la) \<and> unused_assignment example_domain [example_scope] 20 la} = {?la}"
    by (subst dom(1)) (use cond vis unused dom(3) in \<open>auto simp del: list.sel\<close>)
  with reclaim_preview_is_exact [OF ids example_no_comma p] rev p dom(2) show ?thesis
    by (intro exI [of _ p]) auto
qed

end
