(* ===== verification/Role_Requests.thy ===== *)
theory Role_Requests
  imports Action_Records Dashboard_Store
begin

text \<open>
  Role upgrade requests (\<open>api/routes/role_requests.py\<close>): asking for a higher role, the lists
  of a user and of the administrators, and the two decisions.

  A handler works on two views of the database. Its dependencies
  (\<open>require_authenticated_user\<close>, \<open>require_permission\<close>) run before any lock is taken; they see
  \<open>rc_seen\<close>, which other sessions may have changed meanwhile. The store that is passed is what
  the handler reads once it holds the row locks. The rows of a table are listed in the order
  in which the database returns them where the source asks for no order.

  \<open>value.isoformat()\<close> of a timestamp depends on the time zone of the connection: it is the
  field \<open>re_isoformat\<close>. The \<open>details\<close> of an error are not modelled.
\<close>

section \<open>Rows, store and calls\<close>

record role_request_row =
  rur_id :: uuid
  rur_requester_user_id :: uuid
  rur_requested_role_id :: uuid
  rur_requested_scope_id :: "uuid option"
  rur_requested_scope_type :: "string option"
  rur_requested_scope_key :: "string option"
  rur_department_id :: "uuid option"
  rur_status :: string
  rur_reason :: "string option"
  rur_decision_reason :: "string option"
  rur_decided_by_user_id :: "uuid option"
  rur_decided_at :: "instant option"
  rur_created_at :: instant
  rur_updated_at :: instant

record role_audit =
  ra_actor_user_id :: uuid
  ra_event_type :: string
  ra_action :: string
  ra_status :: string
  ra_entity_type :: string
  ra_entity_id :: uuid
  ra_summary :: string
  ra_metadata :: json

record role_store =
  rs_tables :: auth_tables
  rs_requests :: "role_request_row list"
  rs_audits :: "role_audit list"

record role_env =
  re_scope_order :: scope_order
  re_isoformat :: "instant \<Rightarrow> string"
  re_now :: instant
  re_db_now :: instant
  re_new_id :: uuid
  re_commit_ok :: bool

record role_call =
  rc_current :: "app_user option"
  rc_seen :: auth_tables
  rc_csrf_ok :: bool

record role_request_create =
  rp_requested_role :: string
  rp_requested_scope_id :: "uuid option"
  rp_reason :: string

section \<open>Roles\<close>

definition ROLE_UPGRADE_TARGETS :: "string list" where
  "ROLE_UPGRADE_TARGETS = [''manager'', ''analyst'', ''admin'']"

definition ROLE_HIERARCHY :: "(string \<times> nat) list" where
  "ROLE_HIERARCHY = [(''user'', 0), (''manager'', 1), (''analyst'', 2), (''admin'', 3)]"

definition is_upward_role_request :: "string \<Rightarrow> string \<Rightarrow> bool" where
  "is_upward_role_request current_role requested =
     (case (map_of ROLE_HIERARCHY current_role, map_of ROLE_HIERARCHY requested) of
        (Some c, Some r) \<Rightarrow> r > c
      | _ \<Rightarrow> False)"

definition access_level_for_role :: "string \<Rightarrow> string" where
  "access_level_for_role role =
     (if role = ''admin'' \<or> role = ''analyst'' then ''manage'' else ''read'')"

text \<open>\<open>db.get(Role, user.role_id) if user.role_id else None\<close>.\<close>

definition role_of_user :: "auth_tables \<Rightarrow> app_user \<Rightarrow> role_row option" where
  "role_of_user db user =
     (case au_role_id user of None \<Rightarrow> None | Some r \<Rightarrow> find_by ro_id r (at_roles db))"

section \<open>Error responses\<close>

definition invalid_requested_role :: api_error where
  "invalid_requested_role =
     error_response ''INVALID_REQUESTED_ROLE''
       ''Requested role must be manager, analyst, or admin.'' 400"

definition requested_role_unavailable :: api_error where
  "requested_role_unavailable =
     error_response ''INVALID_REQUESTED_ROLE'' ''Requested role is not available.'' 400"

definition role_request_reason_required :: api_error where
  "role_request_reason_required =
     error_response ''ROLE_REQUEST_REASON_REQUIRED'' ''A role upgrade request reason is required.'' 400"

definition role_request_current_role :: api_error where
  "role_request_current_role =
     error_response ''ROLE_REQUEST_CURRENT_ROLE'' ''You already have the requested role.'' 400"

definition role_request_not_upward :: api_error where
  "role_request_not_upward =
     error_response ''ROLE_REQUEST_NOT_UPWARD''
       ''Role upgrade requests must target a higher role.'' 400"

definition pending_role_request_exists :: api_error where
  "pending_role_request_exists =
     error_response ''PENDING_ROLE_REQUEST_EXISTS''
       ''You already have a pending role upgrade request.'' 409"

definition requested_scope_not_found :: api_error where
  "requested_scope_not_found =
     error_response ''REQUESTED_SCOPE_NOT_FOUND'' ''Requested access scope was not found.'' 400"

definition admin_scope_required :: api_error where
  "admin_scope_required =
     error_response ''INVALID_REQUESTED_SCOPE'' ''Admin role requests must use global scope.'' 400"

definition department_scope_required :: api_error where
  "department_scope_required =
     error_response ''INVALID_REQUESTED_SCOPE''
       ''Non-admin role requests must use a department scope.'' 400"

definition role_request_not_found :: api_error where
  "role_request_not_found =
     error_response ''ROLE_REQUEST_NOT_FOUND'' ''Role upgrade request was not found.'' 404"

definition role_request_self_approval :: api_error where
  "role_request_self_approval =
     error_response ''ROLE_REQUEST_SELF_APPROVAL''
       ''You cannot approve or reject your own role upgrade request.'' 403"

definition role_request_already_processed :: api_error where
  "role_request_already_processed =
     error_response ''ROLE_REQUEST_ALREADY_PROCESSED''
       ''This role upgrade request has already been processed.'' 409"

definition role_request_not_processable :: api_error where
  "role_request_not_processable =
     error_response ''ROLE_REQUEST_STATE_CHANGED''
       ''This role request cannot be processed in its current state.'' 409"

definition role_request_state_changed :: api_error where
  "role_request_state_changed =
     error_response ''ROLE_REQUEST_STATE_CHANGED''
       ''This role request is no longer valid for the current user or scope.'' 409"

definition decision_reason_required_response :: api_error where
  "decision_reason_required_response =
     error_response ''ROLE_REQUEST_DECISION_REASON_REQUIRED'' ''A decision reason is required.'' 400"

definition role_request_persistence_failed :: api_error where
  "role_request_persistence_failed =
     error_response ''ROLE_REQUEST_PERSISTENCE_FAILED''
       ''The role request could not be completed safely.'' 503"

section \<open>Scopes of a request\<close>

text \<open>The scope of an administrator: \<open>scope_type == "global" and scope_key == "global"\<close>.\<close>

definition is_global_scope :: "access_scope_row \<Rightarrow> bool" where
  "is_global_scope s \<longleftrightarrow> as_scope_type s = ''global'' \<and> as_scope_key s = ''global''"

text \<open>\<open>None\<close> when the scope fits the role, the error response otherwise.\<close>

definition requested_scope_validation_error ::
  "access_scope_row option \<Rightarrow> string \<Rightarrow> api_error option" where
  "requested_scope_validation_error scope role =
     (if role = ''admin'' then
        (case scope of
           None \<Rightarrow> None
         | Some s \<Rightarrow>
             if is_global_scope s \<and> as_department_id s = None
             then None else Some admin_scope_required)
      else
        (case scope of
           Some s \<Rightarrow>
             if as_scope_type s = ''department'' \<and> as_department_id s \<noteq> None
                \<and> py_strip (as_scope_key s) \<noteq> []
             then None else Some department_scope_required
         | None \<Rightarrow> Some department_scope_required))"

definition default_scope_for_user ::
  "scope_order \<Rightarrow> app_user \<Rightarrow> auth_tables \<Rightarrow> access_scope_row option" where
  "default_scope_for_user ord user db =
     (case uc_default_scope (build_user_access_context ord user db) of
        Some sc \<Rightarrow> find_by as_id (sc_id sc) (at_scopes db)
      | None \<Rightarrow>
          (case au_department_id user of
             None \<Rightarrow> None
           | Some d \<Rightarrow>
               List.find (\<lambda>s. as_scope_type s = ''department'' \<and> as_department_id s = Some d)
                 (at_scopes db)))"

definition requested_scope_for_create ::
  "scope_order \<Rightarrow> app_user \<Rightarrow> uuid option \<Rightarrow> string \<Rightarrow> auth_tables
     \<Rightarrow> api_error + access_scope_row option" where
  "requested_scope_for_create ord user requested_scope_id role db =
     (case requested_scope_id of
        Some i \<Rightarrow>
          (case find_by as_id i (at_scopes db) of
             None \<Rightarrow> Inl requested_scope_not_found
           | Some s \<Rightarrow>
               (case requested_scope_validation_error (Some s) role of
                  Some e \<Rightarrow> Inl e | None \<Rightarrow> Inr (Some s)))
      | None \<Rightarrow>
          if role = ''admin'' then Inr None
          else
            let scope = default_scope_for_user ord user db in
            (case requested_scope_validation_error scope role of
               Some e \<Rightarrow> Inl e | None \<Rightarrow> Inr scope))"

definition requested_scope_row :: "auth_tables \<Rightarrow> role_request_row \<Rightarrow> access_scope_row option" where
  "requested_scope_row db rr =
     (case rur_requested_scope_id rr of None \<Rightarrow> None | Some i \<Rightarrow> find_by as_id i (at_scopes db))"

definition scope_for_approval ::
  "scope_order \<Rightarrow> role_request_row \<Rightarrow> app_user \<Rightarrow> string \<Rightarrow> auth_tables
     \<Rightarrow> access_scope_row option" where
  "scope_for_approval ord rr requester role db =
     (if role = ''admin'' then
        List.find is_global_scope (at_scopes db)
      else
        (case requested_scope_row db rr of
           Some s \<Rightarrow> Some s
         | None \<Rightarrow> default_scope_for_user ord requester db))"

text \<open>
  \<open>_assign_user_scope\<close>: when the scope becomes the default, every other row of the user
  loses the mark; the row of the scope is created or updated.
\<close>

definition assign_user_scope ::
  "uuid \<Rightarrow> uuid \<Rightarrow> string \<Rightarrow> bool \<Rightarrow> user_access_scope_row list \<Rightarrow> user_access_scope_row list" where
  "assign_user_scope user scope level make_default rows =
     (let marked =
            (if make_default
             then map (\<lambda>u. if us_user_id u = user
                            then u\<lparr>us_is_default := (us_scope_id u = scope)\<rparr> else u) rows
             else rows)
      in if list_ex (\<lambda>u. us_user_id u = user \<and> us_scope_id u = scope) rows
         then map (\<lambda>u. if us_user_id u = user \<and> us_scope_id u = scope
                        then u\<lparr>us_access_level := level,
                               us_is_default := (make_default \<or> us_is_default u)\<rparr>
                        else u) marked
         else marked @ [\<lparr>us_user_id = user, us_scope_id = scope, us_access_level = level,
                         us_is_default = make_default\<rparr>])"

section \<open>Serialisation\<close>

definition person_json :: "app_user \<Rightarrow> json" where
  "person_json u =
     JDict [(''id'', JStr (au_id u)), (''email'', JStr (au_email u)),
            (''full_name'', JStr (au_full_name u))]"

definition serialize_requested_scope :: "auth_tables \<Rightarrow> role_request_row \<Rightarrow> json" where
  "serialize_requested_scope db rr =
     (case requested_scope_row db rr of
        None \<Rightarrow> JNull
      | Some s \<Rightarrow>
          let assigned = List.find (\<lambda>u. us_user_id u = rur_requester_user_id rr
                                        \<and> us_scope_id u = as_id s) (at_user_scopes db)
          in JDict
               [(''id'', JStr (as_id s)),
                (''type'', JStr (as_scope_type s)),
                (''key'', JStr (as_scope_key s)),
                (''display_name'', JStr (as_display_name s)),
                (''access_level'', jopt (map_option us_access_level assigned)),
                (''is_default'',
                 JBool (case assigned of None \<Rightarrow> False | Some u \<Rightarrow> us_is_default u)),
                (''department_id'', jopt (as_department_id s))])"

text \<open>
  The requester and the requested role are rows the foreign keys keep; without them the
  attribute access raises.
\<close>

definition serialize_role_request ::
  "(instant \<Rightarrow> string) \<Rightarrow> auth_tables \<Rightarrow> role_request_row \<Rightarrow> py_exn + json" where
  "serialize_role_request isoformat db rr =
     (case (find_by au_id (rur_requester_user_id rr) (at_users db),
            find_by ro_id (rur_requested_role_id rr) (at_roles db)) of
        (Some requester, Some role) \<Rightarrow>
          Inr (JDict
            [(''id'', JStr (rur_id rr)),
             (''requester'', person_json requester),
             (''requested_role'', JStr (ro_name role)),
             (''requested_scope'', serialize_requested_scope db rr),
             (''status'', JStr (rur_status rr)),
             (''reason'', jopt (rur_reason rr)),
             (''decision_reason'', jopt (rur_decision_reason rr)),
             (''decided_by'',
              (case rur_decided_by_user_id rr of
                 None \<Rightarrow> JNull
               | Some i \<Rightarrow> (case find_by au_id i (at_users db) of
                             None \<Rightarrow> JNull | Some u \<Rightarrow> person_json u))),
             (''decided_at'', jopt (map_option isoformat (rur_decided_at rr))),
             (''created_at'', JStr (isoformat (rur_created_at rr))),
             (''updated_at'', JStr (isoformat (rur_updated_at rr)))])
      | _ \<Rightarrow> Inl AttributeError)"

definition role_reply :: "int \<Rightarrow> py_exn + 'a \<Rightarrow> 'a http" where
  "role_reply code r = (case r of Inl e \<Rightarrow> Raised e | Inr x \<Rightarrow> Success code x)"

definition scope_audit_metadata :: "access_scope_row \<Rightarrow> json" where
  "scope_audit_metadata s =
     JDict [(''id'', JStr (as_id s)), (''type'', JStr (as_scope_type s)),
            (''key'', JStr (as_scope_key s))]"

definition assigned_scope_audit_metadata :: "access_scope_row \<Rightarrow> string \<Rightarrow> json" where
  "assigned_scope_audit_metadata s level =
     JDict [(''id'', JStr (as_id s)), (''type'', JStr (as_scope_type s)),
            (''key'', JStr (as_scope_key s)), (''access_level'', JStr level)]"

definition build_audit_log ::
  "role_request_row \<Rightarrow> app_user \<Rightarrow> string \<Rightarrow> string \<Rightarrow> string \<Rightarrow> json \<Rightarrow> role_audit" where
  "build_audit_log rr admin event_type action summary metadata =
     \<lparr>ra_actor_user_id = au_id admin, ra_event_type = event_type, ra_action = action,
      ra_status = ''success'', ra_entity_type = ''role_upgrade_request'',
      ra_entity_id = rur_id rr, ra_summary = summary, ra_metadata = metadata\<rparr>"

section \<open>Asking for a role\<close>

definition pending_of :: "uuid \<Rightarrow> role_request_row list \<Rightarrow> role_request_row list" where
  "pending_of user rows =
     filter (\<lambda>rr. rur_requester_user_id rr = user \<and> rur_status rr = ''pending'') rows"

definition new_role_request ::
  "role_env \<Rightarrow> app_user \<Rightarrow> role_row \<Rightarrow> access_scope_row option \<Rightarrow> string \<Rightarrow> role_request_row" where
  "new_role_request en user role scope reason =
     \<lparr>rur_id = re_new_id en, rur_requester_user_id = au_id user,
      rur_requested_role_id = ro_id role,
      rur_requested_scope_id = map_option as_id scope,
      rur_requested_scope_type = map_option as_scope_type scope,
      rur_requested_scope_key = map_option as_scope_key scope,
      rur_department_id = (case scope of Some s \<Rightarrow> as_department_id s | None \<Rightarrow> au_department_id user),
      rur_status = ''pending'', rur_reason = Some reason, rur_decision_reason = None,
      rur_decided_by_user_id = None, rur_decided_at = None,
      rur_created_at = re_db_now en, rur_updated_at = re_db_now en\<rparr>"

text \<open>The checks of \<open>create_role_request\<close>, in order; the row to add when all pass.\<close>

definition requested_row ::
  "role_env \<Rightarrow> role_call \<Rightarrow> role_request_create \<Rightarrow> role_store \<Rightarrow> api_error + role_request_row" where
  "requested_row en call payload st =
     result_bind (require_authenticated_user (rc_current call)) (\<lambda>seen_user.
     result_bind (ensure (rc_csrf_ok call) csrf_error_response) (\<lambda>_.
     let name = py_lower (py_strip (rp_requested_role payload));
         reason = py_strip (rp_reason payload);
         db = rs_tables st in
     result_bind (ensure (name \<in> set ROLE_UPGRADE_TARGETS) invalid_requested_role) (\<lambda>_.
     result_bind (ensure (reason \<noteq> []) role_request_reason_required) (\<lambda>_.
     result_bind (or_error unauthorized_error (find_by au_id (au_id seen_user) (at_users db))) (\<lambda>user.
     result_bind (ensure (au_status user = ''active'') unauthorized_error) (\<lambda>_.
     result_bind (or_error requested_role_unavailable (find_by ro_name name (at_roles db))) (\<lambda>role.
     result_bind
       (case role_of_user db user of
          None \<Rightarrow> Inr ()
        | Some current \<Rightarrow>
            result_bind (ensure (ro_name current \<noteq> ro_name role) role_request_current_role) (\<lambda>_.
            ensure (is_upward_role_request (ro_name current) (ro_name role)) role_request_not_upward))
       (\<lambda>_.
     result_bind (ensure (pending_of (au_id user) (rs_requests st) = []) pending_role_request_exists) (\<lambda>_.
     result_bind
       (requested_scope_for_create (re_scope_order en) user (rp_requested_scope_id payload)
          (ro_name role) db) (\<lambda>scope.
     Inr (new_role_request en user role scope reason)))))))))))"

definition create_role_request ::
  "role_env \<Rightarrow> role_call \<Rightarrow> role_request_create \<Rightarrow> role_store \<Rightarrow> json http \<times> role_store" where
  "create_role_request en call payload st =
     (case requested_row en call payload st of
        Inl e \<Rightarrow> (Refused e, st)
      | Inr rr \<Rightarrow>
          if \<not> re_commit_ok en then (Refused role_request_persistence_failed, st)
          else (role_reply 201 (serialize_role_request (re_isoformat en) (rs_tables st) rr),
                st\<lparr>rs_requests := rs_requests st @ [rr]\<rparr>))"

section \<open>The lists\<close>

text \<open>\<open>ORDER BY created_at DESC, id DESC\<close>.\<close>

definition latest_first :: "role_request_row list \<Rightarrow> role_request_row list" where
  "latest_first rows = rev (sort_key rur_created_at (sort_key rur_id rows))"

definition list_my_role_requests ::
  "role_env \<Rightarrow> role_call \<Rightarrow> role_store \<Rightarrow> json list http" where
  "list_my_role_requests en call st =
     (case require_authenticated_user (rc_current call) of
        Inl e \<Rightarrow> Refused e
      | Inr user \<Rightarrow>
          role_reply 200 (traverse (serialize_role_request (re_isoformat en) (rs_tables st))
            (latest_first (filter (\<lambda>rr. rur_requester_user_id rr = au_id user) (rs_requests st)))))"

definition list_admin_role_requests ::
  "role_env \<Rightarrow> role_call \<Rightarrow> role_store \<Rightarrow> json list http" where
  "list_admin_role_requests en call st =
     (case require_permission ''can_approve_role_requests'' (rc_current call) (rc_seen call) of
        Inl e \<Rightarrow> Refused e
      | Inr _ \<Rightarrow>
          role_reply 200 (traverse (serialize_role_request (re_isoformat en) (rs_tables st))
            (latest_first (rs_requests st))))"

section \<open>Deciding a request\<close>

definition decision_actor_error :: "auth_tables \<Rightarrow> app_user \<Rightarrow> api_error + unit" where
  "decision_actor_error db admin =
     (case find_by au_id (au_id admin) (at_users db) of
        None \<Rightarrow> Inl forbidden_error
      | Some actor \<Rightarrow>
          ensure (au_status actor = ''active''
                  \<and> ''can_approve_role_requests'' \<in> set (resolve_effective_permission_keys actor db))
            forbidden_error)"

definition role_request_processing_error ::
  "role_request_row list \<Rightarrow> role_request_row \<Rightarrow> app_user \<Rightarrow> api_error + unit" where
  "role_request_processing_error rows rr admin =
     result_bind (ensure (rur_requester_user_id rr \<noteq> au_id admin) role_request_self_approval) (\<lambda>_.
     result_bind (ensure (rur_status rr = ''pending'') role_request_already_processed) (\<lambda>_.
     ensure (length (pending_of (rur_requester_user_id rr) rows) = 1) role_request_not_processable))"

text \<open>
  The common prefix of the two decisions: the acting administrator, the locked request and
  the reason.
\<close>

definition decidable_request ::
  "role_call \<Rightarrow> uuid \<Rightarrow> string \<Rightarrow> role_store \<Rightarrow> api_error + (app_user \<times> role_request_row \<times> string)" where
  "decidable_request call role_request_id decision_reason st =
     result_bind (require_permission ''can_approve_role_requests'' (rc_current call) (rc_seen call)) (\<lambda>admin.
     result_bind (ensure (rc_csrf_ok call) csrf_error_response) (\<lambda>_.
     result_bind (or_error role_request_not_found
       (find_by rur_id role_request_id (rs_requests st))) (\<lambda>rr.
     result_bind (decision_actor_error (rs_tables st) admin) (\<lambda>_.
     result_bind (role_request_processing_error (rs_requests st) rr admin) (\<lambda>_.
     let reason = py_strip decision_reason in
     result_bind (ensure (reason \<noteq> []) decision_reason_required_response) (\<lambda>_.
     Inr (admin, rr, reason)))))))"

text \<open>\<open>requester\<close>, \<open>requester.role\<close> and \<open>requested_role\<close> of a request; \<open>None\<close> where one is missing.\<close>

definition request_parties ::
  "auth_tables \<Rightarrow> role_request_row \<Rightarrow> (app_user \<times> role_row option \<times> role_row) option" where
  "request_parties db rr =
     (case (find_by au_id (rur_requester_user_id rr) (at_users db),
            find_by ro_id (rur_requested_role_id rr) (at_roles db)) of
        (Some requester, Some role) \<Rightarrow> Some (requester, role_of_user db requester, role)
      | _ \<Rightarrow> None)"

text \<open>The scope to assign when the request still fits the user and the scope.\<close>

definition approvable_scope ::
  "scope_order \<Rightarrow> role_request_row \<Rightarrow> app_user \<Rightarrow> role_row option \<Rightarrow> string \<Rightarrow> auth_tables
     \<Rightarrow> access_scope_row option" where
  "approvable_scope ord rr requester current_role new_role db =
     (case (current_role, scope_for_approval ord rr requester new_role db) of
        (Some role, Some scope) \<Rightarrow>
          if au_status requester \<noteq> ''active''
             \<or> new_role \<notin> set ROLE_UPGRADE_TARGETS
             \<or> \<not> is_upward_role_request (ro_name role) new_role
             \<or> requested_scope_validation_error (Some scope) new_role \<noteq> None
             \<or> (rur_requested_scope_id rr = None
                \<and> (rur_requested_scope_type rr \<noteq> None \<or> rur_requested_scope_key rr \<noteq> None))
             \<or> (rur_requested_scope_id rr \<noteq> None
                \<and> (rur_requested_scope_type rr \<noteq> Some (as_scope_type scope)
                   \<or> rur_requested_scope_key rr \<noteq> Some (as_scope_key scope)
                   \<or> rur_department_id rr \<noteq> as_department_id scope))
          then None else Some scope
      | _ \<Rightarrow> None)"

definition decided_row ::
  "role_env \<Rightarrow> app_user \<Rightarrow> string \<Rightarrow> string \<Rightarrow> role_request_row \<Rightarrow> role_request_row" where
  "decided_row en admin status reason rr =
     rr\<lparr>rur_status := status, rur_decision_reason := Some reason,
        rur_decided_by_user_id := Some (au_id admin), rur_decided_at := Some (re_now en),
        rur_updated_at := re_db_now en\<rparr>"

definition fill_scope :: "access_scope_row \<Rightarrow> role_request_row \<Rightarrow> role_request_row" where
  "fill_scope s rr =
     (if rur_requested_scope_id rr = None
      then rr\<lparr>rur_requested_scope_id := Some (as_id s),
              rur_requested_scope_type := Some (as_scope_type s),
              rur_requested_scope_key := Some (as_scope_key s),
              rur_department_id := as_department_id s\<rparr>
      else rr)"

definition set_request :: "role_request_row \<Rightarrow> role_request_row list \<Rightarrow> role_request_row list" where
  "set_request rr rows = map (\<lambda>x. if rur_id x = rur_id rr then rr else x) rows"

definition approval_audit ::
  "role_request_row \<Rightarrow> app_user \<Rightarrow> app_user \<Rightarrow> role_row option \<Rightarrow> string \<Rightarrow> access_scope_row \<Rightarrow> string
     \<Rightarrow> role_audit" where
  "approval_audit rr admin requester old_role new_role scope reason =
     build_audit_log rr admin ''role_request.approved'' ''approve''
       (''Approved role upgrade for '' @ au_email requester @ '' from ''
        @ (case old_role of None \<Rightarrow> ''unassigned'' | Some r \<Rightarrow> ro_name r)
        @ '' to '' @ new_role @ ''.'')
       (JDict [(''requester_user_id'', JStr (au_id requester)),
               (''requested_role_id'', JStr (rur_requested_role_id rr)),
               (''old_role'', jopt (map_option ro_name old_role)),
               (''new_role'', JStr new_role),
               (''requested_role'', JStr new_role),
               (''requested_scope'', scope_audit_metadata scope),
               (''assigned_scope'',
                assigned_scope_audit_metadata scope (access_level_for_role new_role)),
               (''decision_reason'', JStr reason)])"

definition rejection_audit ::
  "role_request_row \<Rightarrow> app_user \<Rightarrow> app_user \<Rightarrow> role_row option \<Rightarrow> string \<Rightarrow> string \<Rightarrow> role_audit" where
  "rejection_audit rr admin requester old_role requested reason =
     build_audit_log rr admin ''role_request.rejected'' ''reject''
       (''Rejected role upgrade for '' @ au_email requester @ '' to '' @ requested @ ''.'')
       (JDict [(''requester_user_id'', JStr (au_id requester)),
               (''requested_role_id'', JStr (rur_requested_role_id rr)),
               (''old_role'', jopt (map_option ro_name old_role)),
               (''requested_role'', JStr requested),
               (''decision_reason'', JStr reason)])"

text \<open>What an approval writes to the users and their scopes.\<close>

definition grant_role :: "uuid \<Rightarrow> role_row \<Rightarrow> access_scope_row \<Rightarrow> auth_tables \<Rightarrow> auth_tables" where
  "grant_role user role scope db =
     db\<lparr>at_users := map (\<lambda>u. if au_id u = user then u\<lparr>au_role_id := Some (ro_id role)\<rparr> else u)
                       (at_users db),
        at_user_scopes := assign_user_scope user (as_id scope)
                            (access_level_for_role (ro_name role)) True (at_user_scopes db)\<rparr>"

definition approved_store ::
  "role_env \<Rightarrow> app_user \<Rightarrow> app_user \<Rightarrow> role_row option \<Rightarrow> role_row \<Rightarrow> access_scope_row \<Rightarrow> string
     \<Rightarrow> role_request_row \<Rightarrow> role_store \<Rightarrow> role_store" where
  "approved_store en admin requester old_role role scope reason rr st =
     st\<lparr>rs_tables := grant_role (au_id requester) role scope (rs_tables st),
        rs_requests := set_request (decided_row en admin ''approved'' reason (fill_scope scope rr))
                         (rs_requests st),
        rs_audits := rs_audits st
          @ [approval_audit rr admin requester old_role (ro_name role) scope reason]\<rparr>"

definition approve_role_request ::
  "role_env \<Rightarrow> role_call \<Rightarrow> uuid \<Rightarrow> string \<Rightarrow> role_store \<Rightarrow> json http \<times> role_store" where
  "approve_role_request en call role_request_id decision_reason st =
     (case decidable_request call role_request_id decision_reason st of
        Inl e \<Rightarrow> (Refused e, st)
      | Inr (admin, rr, reason) \<Rightarrow>
     (case request_parties (rs_tables st) rr of
        None \<Rightarrow> (Raised AttributeError, st)
      | Some (requester, old_role, role) \<Rightarrow>
     (case approvable_scope (re_scope_order en) rr requester old_role (ro_name role) (rs_tables st) of
        None \<Rightarrow> (Refused role_request_state_changed, st)
      | Some scope \<Rightarrow>
          if \<not> re_commit_ok en then (Refused role_request_persistence_failed, st)
          else
            let st' = approved_store en admin requester old_role role scope reason rr st in
            (role_reply 200 (serialize_role_request (re_isoformat en) (rs_tables st')
               (decided_row en admin ''approved'' reason (fill_scope scope rr))), st'))))"

definition rejected_store ::
  "role_env \<Rightarrow> app_user \<Rightarrow> app_user \<Rightarrow> role_row option \<Rightarrow> role_row \<Rightarrow> string
     \<Rightarrow> role_request_row \<Rightarrow> role_store \<Rightarrow> role_store" where
  "rejected_store en admin requester old_role role reason rr st =
     st\<lparr>rs_requests := set_request (decided_row en admin ''rejected'' reason rr) (rs_requests st),
        rs_audits := rs_audits st
          @ [rejection_audit rr admin requester old_role (ro_name role) reason]\<rparr>"

definition reject_role_request ::
  "role_env \<Rightarrow> role_call \<Rightarrow> uuid \<Rightarrow> string \<Rightarrow> role_store \<Rightarrow> json http \<times> role_store" where
  "reject_role_request en call role_request_id decision_reason st =
     (case decidable_request call role_request_id decision_reason st of
        Inl e \<Rightarrow> (Refused e, st)
      | Inr (admin, rr, reason) \<Rightarrow>
     (case request_parties (rs_tables st) rr of
        None \<Rightarrow> (Raised AttributeError, st)
      | Some (requester, old_role, role) \<Rightarrow>
          if \<not> re_commit_ok en then (Refused role_request_persistence_failed, st)
          else
            let st' = rejected_store en admin requester old_role role reason rr st in
            (role_reply 200 (serialize_role_request (re_isoformat en) (rs_tables st')
               (decided_row en admin ''rejected'' reason rr)), st')))"

end
