(* ===== verification/Role_Guarantees.thy ===== *)
theory Role_Guarantees
  imports Role_Requests
begin

text \<open>
  What the role requests guarantee: a role changes only by the approval of a pending request
  by another, freshly authorized user, and the new role comes with its scope; requests stay
  consistent over every run; and which created requests can be approved.
\<close>

section \<open>When a handler writes\<close>

text \<open>A create either leaves the store or appends the row its checks produced.\<close>

lemma requested_row_Inr:
  assumes "requested_row en call payload st = Inr rr"
  obtains seen user role scope where
    "rc_current call = Some seen" "rc_csrf_ok call"
    "find_by au_id (au_id seen) (at_users (rs_tables st)) = Some user"
    "au_status user = ''active''"
    "py_strip (rp_reason payload) \<noteq> []"
    "py_lower (py_strip (rp_requested_role payload)) \<in> set ROLE_UPGRADE_TARGETS"
    "find_by ro_name (py_lower (py_strip (rp_requested_role payload))) (at_roles (rs_tables st)) = Some role"
    "\<forall>current. role_of_user (rs_tables st) user = Some current \<longrightarrow>
       is_upward_role_request (ro_name current) (ro_name role)"
    "pending_of (au_id user) (rs_requests st) = []"
    "requested_scope_for_create (re_scope_order en) user (rp_requested_scope_id payload)
       (ro_name role) (rs_tables st) = Inr scope"
    "rr = new_role_request en user role scope (py_strip (rp_reason payload))"
proof -
  let ?name = "py_lower (py_strip (rp_requested_role payload))"
  from assms obtain seen where seen: "rc_current call = Some seen"
    by (auto simp: requested_row_def require_authenticated_user_def split: option.splits)
  with assms have csrf: "rc_csrf_ok call" and name: "?name \<in> set ROLE_UPGRADE_TARGETS"
      and reason: "py_strip (rp_reason payload) \<noteq> []"
    by (simp_all add: requested_row_def require_authenticated_user_def Let_def split: if_splits)
  from assms seen csrf name reason obtain user role where
      user: "find_by au_id (au_id seen) (at_users (rs_tables st)) = Some user" "au_status user = ''active''"
      and role: "find_by ro_name ?name (at_roles (rs_tables st)) = Some role"
    by (auto simp: requested_row_def require_authenticated_user_def Let_def result_bind_Inr_iff
             split: if_splits)
  from assms seen csrf name reason user role
  have up: "\<forall>current. role_of_user (rs_tables st) user = Some current \<longrightarrow>
      is_upward_role_request (ro_name current) (ro_name role)"
    by (auto simp: requested_row_def require_authenticated_user_def Let_def split: if_splits)
  from assms seen csrf name reason user role
  have pending: "pending_of (au_id user) (rs_requests st) = []"
    by (auto simp: requested_row_def require_authenticated_user_def Let_def result_bind_Inr_iff
             split: if_splits)
  from assms seen csrf name reason user role
  obtain scope where scope: "requested_scope_for_create (re_scope_order en) user
       (rp_requested_scope_id payload) (ro_name role) (rs_tables st) = Inr scope"
    "rr = new_role_request en user role scope (py_strip (rp_reason payload))"
    by (auto simp: requested_row_def require_authenticated_user_def Let_def result_bind_Inr_iff
             split: if_splits)
  then show thesis by (rule that [OF seen csrf user reason name role up pending])
qed

lemma create_store:
  "snd (create_role_request en call payload st) = st \<or>
   (\<exists>rr. requested_row en call payload st = Inr rr
       \<and> snd (create_role_request en call payload st) = st\<lparr>rs_requests := rs_requests st @ [rr]\<rparr>)"
  by (auto simp: create_role_request_def split: sum.splits)

lemma decidable_request_Inr:
  assumes "decidable_request call i words st = Inr (admin, rr, reason)"
  obtains actor where
    "require_permission ''can_approve_role_requests'' (rc_current call) (rc_seen call) = Inr admin"
    "rc_csrf_ok call" "find_by rur_id i (rs_requests st) = Some rr"
    "find_by au_id (au_id admin) (at_users (rs_tables st)) = Some actor"
    "au_status actor = ''active''"
    "''can_approve_role_requests'' \<in> set (resolve_effective_permission_keys actor (rs_tables st))"
    "rur_requester_user_id rr \<noteq> au_id admin" "rur_status rr = ''pending''"
    "length (pending_of (rur_requester_user_id rr) (rs_requests st)) = 1"
    "reason = py_strip words" "reason \<noteq> []"
proof -
  show thesis
    using assms that
    by (auto simp: decidable_request_def Let_def result_bind_Inr_iff decision_actor_error_def
          role_request_processing_error_def split: option.splits if_splits)
qed

lemma approve_store:
  "snd (approve_role_request en call i words st) = st \<or>
   (\<exists>admin rr reason requester old role scope.
      decidable_request call i words st = Inr (admin, rr, reason)
      \<and> request_parties (rs_tables st) rr = Some (requester, old, role)
      \<and> approvable_scope (re_scope_order en) rr requester old (ro_name role) (rs_tables st) = Some scope
      \<and> snd (approve_role_request en call i words st)
          = approved_store en admin requester old role scope reason rr st)"
  by (auto simp: approve_role_request_def Let_def split: sum.splits option.splits)

lemma reject_store:
  "snd (reject_role_request en call i words st) = st \<or>
   (\<exists>admin rr reason requester old role.
      decidable_request call i words st = Inr (admin, rr, reason)
      \<and> request_parties (rs_tables st) rr = Some (requester, old, role)
      \<and> snd (reject_role_request en call i words st)
          = rejected_store en admin requester old role reason rr st)"
  by (auto simp: reject_role_request_def Let_def split: sum.splits option.splits)

lemma request_parties_Some:
  "request_parties db rr = Some (requester, old, role) \<longleftrightarrow>
     find_by au_id (rur_requester_user_id rr) (at_users db) = Some requester
     \<and> find_by ro_id (rur_requested_role_id rr) (at_roles db) = Some role
     \<and> old = role_of_user db requester"
  by (auto simp: request_parties_def split: option.splits)

lemma approvable_scope_Some:
  assumes "approvable_scope ord rr requester old name db = Some scope"
  shows "\<exists>current. old = Some current \<and> is_upward_role_request (ro_name current) name"
    and "scope_for_approval ord rr requester name db = Some scope"
    and "au_status requester = ''active''" and "name \<in> set ROLE_UPGRADE_TARGETS"
    and "requested_scope_validation_error (Some scope) name = None"
  using assms by (auto simp: approvable_scope_def split: option.splits if_splits)

text \<open>The scope a role is granted with: everything for an administrator, a department otherwise.\<close>

definition scope_fits_role :: "string \<Rightarrow> access_scope_row \<Rightarrow> bool" where
  "scope_fits_role name s \<longleftrightarrow>
     (if name = ''admin'' then is_global_scope s
      else as_scope_type s = ''department'' \<and> as_department_id s \<noteq> None)"

lemma scope_error_fits:
  "requested_scope_validation_error (Some s) name = None \<Longrightarrow> scope_fits_role name s"
  by (simp add: requested_scope_validation_error_def scope_fits_role_def split: if_splits)

lemma default_scope_row:
  "default_scope_for_user ord user db = Some s \<Longrightarrow> s \<in> set (at_scopes db)"
  by (auto simp: default_scope_for_user_def split: option.splits dest: find_by_SomeD find_SomeD)

lemma scope_for_approval_row:
  "scope_for_approval ord rr user name db = Some s \<Longrightarrow> s \<in> set (at_scopes db)"
  by (auto simp: scope_for_approval_def requested_scope_row_def split: if_splits option.splits
      dest: find_by_SomeD find_SomeD default_scope_row)

section \<open>The granted scope is the only default\<close>

definition user_scopes_of :: "uuid \<Rightarrow> user_access_scope_row list \<Rightarrow> user_access_scope_row list" where
  "user_scopes_of user rows = filter (\<lambda>u. us_user_id u = user) rows"

definition mark_scope :: "uuid \<Rightarrow> uuid \<Rightarrow> string \<Rightarrow> user_access_scope_row \<Rightarrow> user_access_scope_row" where
  "mark_scope user scope level u =
     (if us_user_id u \<noteq> user then u
      else if us_scope_id u = scope then u\<lparr>us_access_level := level, us_is_default := True\<rparr>
      else u\<lparr>us_is_default := False\<rparr>)"

lemma mark_scope_fields [simp]:
  "us_user_id (mark_scope user scope level u) = us_user_id u"
  "us_scope_id (mark_scope user scope level u) = us_scope_id u"
  by (simp_all add: mark_scope_def)

lemma assign_user_scope_marks:
  "assign_user_scope user scope level True rows =
     map (mark_scope user scope level) rows
     @ (if \<exists>u \<in> set rows. us_user_id u = user \<and> us_scope_id u = scope then []
        else [\<lparr>us_user_id = user, us_scope_id = scope, us_access_level = level,
                us_is_default = True\<rparr>])"
  by (auto simp: assign_user_scope_def mark_scope_def list_ex_iff Let_def)

lemma assigned_scope_row:
  "\<exists>u \<in> set (assign_user_scope user scope level True rows).
     us_user_id u = user \<and> us_scope_id u = scope"
  by (auto simp: assign_user_scope_marks)

lemma assigned_scope_default:
  assumes "u \<in> set (assign_user_scope user scope level True rows)" "us_user_id u = user"
  shows "us_is_default u \<longleftrightarrow> us_scope_id u = scope"
    and "us_is_default u \<Longrightarrow> us_access_level u = level"
proof -
  from assms(1) consider v where "u = mark_scope user scope level v"
    | "u = \<lparr>us_user_id = user, us_scope_id = scope, us_access_level = level, us_is_default = True\<rparr>"
    by (auto simp: assign_user_scope_marks split: if_splits)
  then show "us_is_default u \<longleftrightarrow> us_scope_id u = scope"
      "us_is_default u \<Longrightarrow> us_access_level u = level"
    using assms(2) by (cases; simp add: mark_scope_def split: if_splits)+
qed

lemma assigned_scope_others:
  "filter (\<lambda>u. us_user_id u \<noteq> user) (assign_user_scope user scope level True rows)
     = filter (\<lambda>u. us_user_id u \<noteq> user) rows"
proof -
  have "filter (\<lambda>u. us_user_id u \<noteq> user) (map (mark_scope user scope level) rows)
      = filter (\<lambda>u. us_user_id u \<noteq> user) rows"
    by (induction rows) (auto simp: mark_scope_def)
  then show ?thesis by (simp add: assign_user_scope_marks)
qed

text \<open>After a grant the next access context of the user has the role and the scope.\<close>

lemma granted_context:
  fixes db user role scope
  defines "db' \<equiv> grant_role (au_id user) role scope db"
  assumes ord: "scope_order_ok ord"
    and roles: "find_by ro_id (ro_id role) (at_roles db) = Some role"
    and scopes: "distinct (map as_id (at_scopes db))" "scope \<in> set (at_scopes db)"
  shows "\<exists>sc. uc_role (build_user_access_context ord (user\<lparr>au_role_id := Some (ro_id role)\<rparr>) db')
                = Some (ro_name role)
            \<and> uc_default_scope (build_user_access_context ord (user\<lparr>au_role_id := Some (ro_id role)\<rparr>) db')
                = Some sc
            \<and> sc_id sc = as_id scope \<and> sc_type sc = as_scope_type scope
            \<and> sc_key sc = as_scope_key scope
            \<and> sc_access_level sc = access_level_for_role (ro_name role)"
proof -
  let ?u = "user\<lparr>au_role_id := Some (ro_id role)\<rparr>"
  let ?lvl = "access_level_for_role (ro_name role)"
  let ?rows = "assign_user_scope (au_id user) (as_id scope) ?lvl True (at_user_scopes db)"
  let ?l = "load_scope_contexts ord ?u db'"
  have db': "at_roles db' = at_roles db" "at_scopes db' = at_scopes db" "at_user_scopes db' = ?rows"
    by (simp_all add: db'_def grant_role_def)
  obtain a where a: "a \<in> set ?rows" "us_user_id a = au_id user" "us_scope_id a = as_id scope"
    using assigned_scope_row by blast
  have "scope_context_of (a, scope) \<in> set ?l"
    unfolding load_scope_contexts_set [OF ord] db'
    using a scopes(2) by (intro CollectI exI [of _ a] exI [of _ scope]) simp
  moreover have "sc_is_default (scope_context_of (a, scope))"
    using assigned_scope_default(1) [OF a(1,2)] a(3) by (simp add: scope_context_of_def)
  ultimately obtain sc where sc: "List.find sc_is_default ?l = Some sc"
    by (metis find_None_iff_ex option.exhaust)
  then have "sc \<in> set ?l" "sc_is_default sc" by (auto dest: find_SomeD)
  then obtain u s where us: "sc = scope_context_of (u, s)" "u \<in> set ?rows" "s \<in> set (at_scopes db)"
      "as_id s = us_scope_id u" "us_user_id u = au_id user" "us_is_default u"
    unfolding load_scope_contexts_set [OF ord] db' by (auto simp: scope_context_of_def)
  have u: "us_scope_id u = as_id scope" "us_access_level u = ?lvl"
    using assigned_scope_default [OF us(2,5)] us(6) by simp_all
  have "inj_on as_id (set (at_scopes db))" using scopes(1) by (simp add: distinct_map)
  then have "s = scope" using us(3,4) u(1) scopes(2) by (simp add: inj_on_def)
  with us(1) u(2)
  have "sc = scope_context_of (u, scope)" "us_access_level u = ?lvl" by simp_all
  moreover have "uc_default_scope (build_user_access_context ord ?u db') = Some sc"
    by (simp add: build_user_access_context_def Let_def sc)
  moreover have "uc_role (build_user_access_context ord ?u db') = Some (ro_name role)"
    by (simp add: build_user_access_context_def Let_def db' roles)
  ultimately show ?thesis by (simp add: scope_context_of_def)
qed

section \<open>Steps and runs\<close>

text \<open>
  The handlers as steps; the id of a new row is fresh. Other code may change the tables and
  the audit log in any way, but no other code of the repository writes role requests.
\<close>

inductive role_step :: "role_store \<Rightarrow> role_store \<Rightarrow> bool" where
  create: "re_new_id en \<notin> rur_id ` set (rs_requests st) \<Longrightarrow>
     role_step st (snd (create_role_request en call payload st))"
| approve: "role_step st (snd (approve_role_request en call i words st))"
| reject: "role_step st (snd (reject_role_request en call i words st))"

definition role_event :: "role_store \<Rightarrow> role_store \<Rightarrow> bool" where
  "role_event st st' \<longleftrightarrow> role_step st st' \<or> rs_requests st' = rs_requests st"

inductive role_reachable :: "role_store \<Rightarrow> bool" where
  start: "rs_requests st = [] \<Longrightarrow> role_reachable st"
| event: "role_reachable st \<Longrightarrow> role_event st st' \<Longrightarrow> role_reachable st'"

text \<open>The primary keys and unique constraints of the tables the handlers read.\<close>

definition role_keys_ok :: "auth_tables \<Rightarrow> bool" where
  "role_keys_ok db \<longleftrightarrow>
     distinct (map au_id (at_users db)) \<and> distinct (map ro_id (at_roles db))
     \<and> distinct (map as_id (at_scopes db))
     \<and> distinct (map (\<lambda>s. (as_scope_type s, as_scope_key s)) (at_scopes db))"

section \<open>Who changes a role\<close>

lemma tables_change:
  assumes "role_step st st'" "rs_tables st' \<noteq> rs_tables st"
  obtains en call i words admin rr reason requester old role scope where
    "decidable_request call i words st = Inr (admin, rr, reason)"
    "request_parties (rs_tables st) rr = Some (requester, old, role)"
    "approvable_scope (re_scope_order en) rr requester old (ro_name role) (rs_tables st) = Some scope"
    "st' = approved_store en admin requester old role scope reason rr st"
  using assms
proof cases
  case (create en call payload)
  then show thesis using create_store [of en call payload st] assms(2) by auto
next
  case (approve en call i words)
  then show thesis using approve_store [of en call i words st] assms(2) that by auto
next
  case (reject en call i words)
  then show thesis using reject_store [of en call i words st] assms(2)
    by (auto simp: rejected_store_def)
qed

lemma approved_row:
  assumes "rr \<in> set (rs_requests st)"
  shows "decided_row en admin ''approved'' reason (fill_scope scope rr)
     \<in> set (rs_requests (approved_store en admin requester old role scope reason rr st))"
  using assms
  by (auto simp: approved_store_def set_request_def decided_row_def fill_scope_def image_iff)

lemma granted_user:
  "find_by au_id i (at_users (grant_role k role scope db)) =
     map_option (\<lambda>u. if au_id u = k then u\<lparr>au_role_id := Some (ro_id role)\<rparr> else u)
       (find_by au_id i (at_users db))"
  unfolding grant_role_def by (simp add: find_by_map_key)

text \<open>
  C19: a user's role changes in a step of the handlers only when a pending request of that
  user is approved by another user, who is active and holds the permission at that moment;
  the new role is the requested one and ranks above the old one; and the next access context
  of the user has the new role and, as its default, a scope that fits the role, with the
  access level of the role.
\<close>

theorem role_change_is_granted:
  assumes step: "role_step st st'" and keys: "role_keys_ok (rs_tables st)"
    and before: "find_by au_id i (at_users (rs_tables st)) = Some u"
    and after: "find_by au_id i (at_users (rs_tables st')) = Some u'"
    and change: "au_role_id u' \<noteq> au_role_id u"
    and ord: "scope_order_ok ord"
  shows "\<exists>rr actor old role scope sc.
    rr \<in> set (rs_requests st) \<and> rur_status rr = ''pending'' \<and> rur_requester_user_id rr = i
    \<and> actor \<in> set (at_users (rs_tables st)) \<and> au_id actor \<noteq> i \<and> au_status actor = ''active''
    \<and> ''can_approve_role_requests'' \<in> set (resolve_effective_permission_keys actor (rs_tables st))
    \<and> au_status u = ''active'' \<and> role_of_user (rs_tables st) u = Some old
    \<and> role \<in> set (at_roles (rs_tables st)) \<and> ro_id role = rur_requested_role_id rr
    \<and> is_upward_role_request (ro_name old) (ro_name role)
    \<and> (\<exists>rr' \<in> set (rs_requests st'). rur_id rr' = rur_id rr \<and> rur_status rr' = ''approved''
         \<and> rur_decided_by_user_id rr' = Some (au_id actor))
    \<and> scope \<in> set (at_scopes (rs_tables st)) \<and> scope_fits_role (ro_name role) scope
    \<and> uc_role (build_user_access_context ord u' (rs_tables st')) = Some (ro_name role)
    \<and> uc_default_scope (build_user_access_context ord u' (rs_tables st')) = Some sc
    \<and> sc_id sc = as_id scope \<and> sc_access_level sc = access_level_for_role (ro_name role)"
proof -
  let ?db = "rs_tables st"
  have "rs_tables st' \<noteq> ?db" using before after change by auto
  then obtain en call k words admin rr reason requester old role scope
    where dec: "decidable_request call k words st = Inr (admin, rr, reason)"
      and par: "request_parties ?db rr = Some (requester, old, role)"
      and fit: "approvable_scope (re_scope_order en) rr requester old (ro_name role) ?db = Some scope"
      and st': "st' = approved_store en admin requester old role scope reason rr st"
    by (rule tables_change [OF step])
  have db': "rs_tables st' = grant_role (au_id requester) role scope ?db"
    by (simp add: st' approved_store_def)
  from dec obtain actor where actor: "find_by au_id (au_id admin) (at_users ?db) = Some actor"
      "au_status actor = ''active''"
      "''can_approve_role_requests'' \<in> set (resolve_effective_permission_keys actor ?db)"
      and rr: "find_by rur_id k (rs_requests st) = Some rr" "rur_status rr = ''pending''"
      "rur_requester_user_id rr \<noteq> au_id admin"
    by (rule decidable_request_Inr)
  have parts: "find_by au_id (rur_requester_user_id rr) (at_users ?db) = Some requester"
      "find_by ro_id (rur_requested_role_id rr) (at_roles ?db) = Some role"
      "old = role_of_user ?db requester"
    using par by (simp_all add: request_parties_Some)
  have u': "u' = (if au_id u = au_id requester then u\<lparr>au_role_id := Some (ro_id role)\<rparr> else u)"
    using after before by (simp add: db' granted_user)
  then have same: "au_id u = au_id requester" using change by (auto split: if_splits)
  have ids: "au_id u = i" "au_id requester = rur_requester_user_id rr" "au_id actor = au_id admin"
    using before parts(1) actor(1) by (auto dest: find_by_SomeD)
  have requester: "requester = u" using before parts(1) same ids by simp
  obtain current where current: "old = Some current"
      "is_upward_role_request (ro_name current) (ro_name role)"
    using approvable_scope_Some(1) [OF fit] by blast
  have scope: "scope \<in> set (at_scopes ?db)" "scope_fits_role (ro_name role) scope"
    using approvable_scope_Some(2,5) [OF fit] by (auto intro: scope_for_approval_row scope_error_fits)
  have role: "role \<in> set (at_roles ?db)" "ro_id role = rur_requested_role_id rr"
    using parts(2) by (auto dest: find_by_SomeD)
  have "distinct (map as_id (at_scopes ?db))" using keys by (simp add: role_keys_ok_def)
  moreover have "find_by ro_id (ro_id role) (at_roles ?db) = Some role" using parts(2) role(2) by simp
  moreover have "u' = u\<lparr>au_role_id := Some (ro_id role)\<rparr>" using u' same by simp
  moreover have "rs_tables st' = grant_role (au_id u) role scope ?db" using db' same by simp
  ultimately have "\<exists>sc. uc_role (build_user_access_context ord u' (rs_tables st')) = Some (ro_name role)
      \<and> uc_default_scope (build_user_access_context ord u' (rs_tables st')) = Some sc
      \<and> sc_id sc = as_id scope \<and> sc_type sc = as_scope_type scope \<and> sc_key sc = as_scope_key scope
      \<and> sc_access_level sc = access_level_for_role (ro_name role)"
    using granted_context [OF ord _ _ scope(1), of role u] by simp
  then obtain sc where sc:
      "uc_role (build_user_access_context ord u' (rs_tables st')) = Some (ro_name role)"
      "uc_default_scope (build_user_access_context ord u' (rs_tables st')) = Some sc"
      "sc_id sc = as_id scope" "sc_access_level sc = access_level_for_role (ro_name role)"
    by (elim exE conjE)
  have row: "rr \<in> set (rs_requests st)" using rr(1) by (auto dest: find_by_SomeD)
  have "decided_row en admin ''approved'' reason (fill_scope scope rr) \<in> set (rs_requests st')"
    unfolding st' by (rule approved_row [OF row])
  then have "\<exists>rr' \<in> set (rs_requests st'). rur_id rr' = rur_id rr \<and> rur_status rr' = ''approved''
         \<and> rur_decided_by_user_id rr' = Some (au_id actor)"
    by (rule bexI [rotated]) (simp add: decided_row_def fill_scope_def ids)
  note approved = this
  have who: "actor \<in> set (at_users ?db)" using actor(1) by (auto dest: find_by_SomeD)
  have active: "au_status u = ''active''" using approvable_scope_Some(3) [OF fit] requester by simp
  have from_role: "role_of_user ?db u = Some current" using parts(3) current(1) requester by simp
  have other: "rur_requester_user_id rr = i" "au_id actor \<noteq> i" using ids requester rr(3) by simp_all
  show ?thesis
    by (rule exI [of _ rr], rule exI [of _ actor], rule exI [of _ current], rule exI [of _ role],
        rule exI [of _ scope], rule exI [of _ sc], intro conjI)
      (fact row rr(2) actor(2,3) role current(2) scope sc approved who active from_role other)+
qed

section \<open>Requests stay consistent\<close>

text \<open>A decided request names its decider, who is not the requester, with a reason and a time.\<close>

definition role_row_ok :: "role_request_row \<Rightarrow> bool" where
  "role_row_ok rr \<longleftrightarrow>
     (if rur_status rr = ''pending''
      then rur_decided_by_user_id rr = None \<and> rur_decision_reason rr = None \<and> rur_decided_at rr = None
      else (rur_status rr = ''approved'' \<or> rur_status rr = ''rejected'')
           \<and> rur_decided_by_user_id rr \<noteq> None
           \<and> rur_decided_by_user_id rr \<noteq> Some (rur_requester_user_id rr)
           \<and> truthy_str (rur_decision_reason rr) \<and> rur_decided_at rr \<noteq> None)"

definition role_requests_ok :: "role_request_row list \<Rightarrow> bool" where
  "role_requests_ok rows \<longleftrightarrow>
     distinct (map rur_id rows) \<and> list_all role_row_ok rows
     \<and> (\<forall>user. length (pending_of user rows) \<le> 1)"

lemma requests_after_create:
  assumes ok: "role_requests_ok (rs_requests st)"
    and new: "re_new_id en \<notin> rur_id ` set (rs_requests st)"
    and row: "requested_row en call payload st = Inr rr"
  shows "role_requests_ok (rs_requests st @ [rr])"
proof -
  from row obtain user role scope where
      free: "pending_of (au_id user) (rs_requests st) = []"
      and rr: "rr = new_role_request en user role scope (py_strip (rp_reason payload))"
    by (rule requested_row_Inr)
  have "length (pending_of k (rs_requests st @ [rr])) \<le> 1" for k
  proof (cases "k = au_id user")
    case True
    with free show ?thesis by (simp add: pending_of_def)
  next
    case False
    then have "pending_of k (rs_requests st @ [rr]) = pending_of k (rs_requests st)"
      by (simp add: pending_of_def rr new_role_request_def)
    then show ?thesis using ok by (simp add: role_requests_ok_def)
  qed
  moreover have "role_row_ok rr" by (simp add: rr new_role_request_def role_row_ok_def)
  moreover have "rur_id rr = re_new_id en" by (simp add: rr new_role_request_def)
  ultimately show ?thesis using ok new by (auto simp: role_requests_ok_def)
qed

text \<open>Both decisions replace one pending row by a decided row with the same id and requester.\<close>

lemma set_request_ids: "map rur_id (set_request rr rows) = map rur_id rows"
  by (induction rows) (auto simp: set_request_def)

lemma set_request_pending:
  assumes "rur_status rr \<noteq> ''pending''"
  shows "length (pending_of k (set_request rr rows)) \<le> length (pending_of k rows)"
  using assms by (induction rows) (auto simp: set_request_def pending_of_def)

lemma set_request_ok:
  assumes ok: "role_requests_ok rows" and new: "role_row_ok rr" "rur_status rr \<noteq> ''pending''"
  shows "role_requests_ok (set_request rr rows)"
proof -
  have "list_all role_row_ok (set_request rr rows)"
    using ok new(1) by (auto simp: role_requests_ok_def list_all_iff set_request_def)
  moreover have "length (pending_of k (set_request rr rows)) \<le> 1" for k
    using set_request_pending [OF new(2), of k rows] ok
    by (auto simp: role_requests_ok_def intro: le_trans)
  ultimately show ?thesis using ok by (simp add: role_requests_ok_def set_request_ids)
qed

lemma decided_row_ok:
  assumes "rur_requester_user_id rr \<noteq> au_id admin" "reason \<noteq> []"
    "status = ''approved'' \<or> status = ''rejected''"
  shows "role_row_ok (decided_row en admin status reason rr)"
    and "rur_status (decided_row en admin status reason rr) \<noteq> ''pending''"
  using assms by (auto simp: role_row_ok_def decided_row_def)

lemma fill_scope_fields [simp]:
  "rur_id (fill_scope s rr) = rur_id rr"
  "rur_requester_user_id (fill_scope s rr) = rur_requester_user_id rr"
  by (simp_all add: fill_scope_def)

text \<open>Every step keeps the rows, adds a fresh pending row, or decides a pending row.\<close>

lemma step_requests:
  assumes "role_step st st'"
  obtains (same) "rs_requests st' = rs_requests st"
    | (new) en call payload rr where "requested_row en call payload st = Inr rr"
        "re_new_id en \<notin> rur_id ` set (rs_requests st)" "rs_requests st' = rs_requests st @ [rr]"
    | (decided) rr new where "rr \<in> set (rs_requests st)" "rur_status rr = ''pending''"
        "rur_id new = rur_id rr" "role_row_ok new" "rur_status new \<noteq> ''pending''"
        "rs_requests st' = set_request new (rs_requests st)"
  using assms
proof cases
  case (create en call payload)
  then show thesis using create_store [of en call payload st] that(1,2) by auto
next
  case (approve en call i words)
  show thesis
  proof (cases "st' = st")
    case False
    then obtain admin rr reason requester old role scope where
        dec: "decidable_request call i words st = Inr (admin, rr, reason)"
        and st': "st' = approved_store en admin requester old role scope reason rr st"
      using approve_store [of en call i words st] approve by metis
    from dec show thesis
    proof (rule decidable_request_Inr)
      assume rr: "find_by rur_id i (rs_requests st) = Some rr" "rur_status rr = ''pending''"
        "rur_requester_user_id rr \<noteq> au_id admin" "reason \<noteq> []"
      then have "rr \<in> set (rs_requests st)" by (auto dest: find_by_SomeD)
      moreover have "rur_requester_user_id (fill_scope scope rr) \<noteq> au_id admin" using rr(3) by simp
      ultimately show thesis
        using that(3) [of rr "decided_row en admin ''approved'' reason (fill_scope scope rr)"]
          decided_row_ok [of "fill_scope scope rr" admin reason "''approved''" en] rr
        by (simp add: st' approved_store_def decided_row_def)
    qed
  qed (use that(1) in simp)
next
  case (reject en call i words)
  show thesis
  proof (cases "st' = st")
    case False
    then obtain admin rr reason requester old role where
        dec: "decidable_request call i words st = Inr (admin, rr, reason)"
        and st': "st' = rejected_store en admin requester old role reason rr st"
      using reject_store [of en call i words st] reject by metis
    from dec show thesis
    proof (rule decidable_request_Inr)
      assume rr: "find_by rur_id i (rs_requests st) = Some rr" "rur_status rr = ''pending''"
        "rur_requester_user_id rr \<noteq> au_id admin" "reason \<noteq> []"
      then have "rr \<in> set (rs_requests st)" by (auto dest: find_by_SomeD)
      then show thesis
        using that(3) [of rr "decided_row en admin ''rejected'' reason rr"]
          decided_row_ok [of rr admin reason "''rejected''" en] rr
        by (simp add: st' rejected_store_def decided_row_def)
    qed
  qed (use that(1) in simp)
qed

lemma event_requests_ok:
  assumes "role_event st st'" "role_requests_ok (rs_requests st)"
  shows "role_requests_ok (rs_requests st')"
proof (cases "role_step st st'")
  case True
  then show ?thesis
    by (cases rule: step_requests) (auto simp: assms(2) intro: requests_after_create set_request_ok)
next
  case False
  then show ?thesis using assms by (simp add: role_event_def)
qed

lemma event_keeps_decided:
  assumes "role_event st st'" "role_requests_ok (rs_requests st)"
    and rr: "rr \<in> set (rs_requests st)" "rur_status rr \<noteq> ''pending''"
  shows "rr \<in> set (rs_requests st')"
proof (cases "role_step st st'")
  case True
  then show ?thesis
  proof (cases rule: step_requests)
    case (decided old new)
    have "inj_on rur_id (set (rs_requests st))"
      using assms(2) by (simp add: role_requests_ok_def distinct_map)
    then have "rur_id rr \<noteq> rur_id new" using decided(1-3) rr by (auto dest: inj_onD)
    then show ?thesis using rr(1) decided(6) by (auto simp: set_request_def image_iff)
  qed (use rr in simp_all)
next
  case False
  then show ?thesis using assms by (simp add: role_event_def)
qed

lemma reachable_requests_ok: "role_reachable st \<Longrightarrow> role_requests_ok (rs_requests st)"
  by (induction rule: role_reachable.induct)
    (auto simp: role_requests_ok_def [of "[]"] pending_of_def intro: event_requests_ok)

text \<open>
  C20: over every run of the handlers and of other code on the users, roles, scopes and
  permissions, starting with no requests, ids stay unique, a user has at most one pending
  request, a pending request carries no decision, and a decided one is approved or rejected
  by somebody else than the requester with a reason and a time; and a decided request never
  changes again.
\<close>

theorem role_requests_stay_consistent:
  assumes "role_reachable st" and "role_event\<^sup>*\<^sup>* st st'"
  shows "role_requests_ok (rs_requests st')
    \<and> (\<forall>rr \<in> set (rs_requests st). rur_status rr \<noteq> ''pending'' \<longrightarrow> rr \<in> set (rs_requests st'))"
  using assms(2)
proof (induction rule: rtranclp_induct)
  case base
  then show ?case using reachable_requests_ok [OF assms(1)] by simp
next
  case (step s s')
  then show ?case by (blast intro: event_requests_ok event_keeps_decided)
qed

section \<open>Which created requests can be approved\<close>

definition global_scope_available :: "auth_tables \<Rightarrow> bool" where
  "global_scope_available db \<longleftrightarrow>
     list_ex (\<lambda>s. is_global_scope s \<and> as_department_id s = None) (at_scopes db)"

text \<open>With unique keys the scope looked up for an administrator is the one global row.\<close>

lemma global_scope_found:
  assumes "role_keys_ok db" "s \<in> set (at_scopes db)" "is_global_scope s"
  shows "List.find is_global_scope (at_scopes db) = Some s"
proof -
  obtain s' where s': "List.find is_global_scope (at_scopes db) = Some s'"
    using assms(2,3) by (metis find_None_iff_ex option.exhaust)
  have "inj_on (\<lambda>s. (as_scope_type s, as_scope_key s)) (set (at_scopes db))"
    using assms(1) by (simp add: role_keys_ok_def distinct_map)
  then have "s' = s"
    using find_SomeD [OF s'] assms(2,3) by (simp add: is_global_scope_def inj_on_def)
  with s' show ?thesis by simp
qed

lemma admin_scope:
  assumes "role_keys_ok db"
  shows "global_scope_available db \<longleftrightarrow>
    (\<exists>s. List.find is_global_scope (at_scopes db) = Some s \<and> as_department_id s = None)"
  using global_scope_found [OF assms]
  by (auto simp: global_scope_available_def list_ex_iff dest: find_SomeD)

lemma created_scope_row:
  assumes "requested_scope_for_create ord user i name db = Inr (Some s)"
  shows "s \<in> set (at_scopes db)" and "requested_scope_validation_error (Some s) name = None"
  using assms
  by (auto simp: requested_scope_for_create_def Let_def split: option.splits if_splits
      dest: find_by_SomeD default_scope_row)

lemma created_without_scope:
  assumes "requested_scope_for_create ord user i name db = Inr None"
  shows "name = ''admin''"
  using assms
  by (auto simp: requested_scope_for_create_def requested_scope_validation_error_def Let_def
      split: option.splits if_splits)

lemma new_request_approvable:
  fixes en user role scope reason
  defines "rr \<equiv> new_role_request en user role scope reason"
  assumes keys: "role_keys_ok db"
    and created: "requested_scope_for_create ord user i (ro_name role) db = Inr scope"
    and active: "au_status user = ''active''" and target: "ro_name role \<in> set ROLE_UPGRADE_TARGETS"
    and up: "\<forall>current. role_of_user db user = Some current \<longrightarrow>
      is_upward_role_request (ro_name current) (ro_name role)"
  shows "(approvable_scope ord' rr user (role_of_user db user) (ro_name role) db \<noteq> None) \<longleftrightarrow>
    role_of_user db user \<noteq> None \<and> (ro_name role = ''admin'' \<longrightarrow> global_scope_available db)"
proof (cases "role_of_user db user")
  case None
  then show ?thesis by (simp add: approvable_scope_def)
next
  case (Some current)
  with up have upward: "is_upward_role_request (ro_name current) (ro_name role)" by simp
  show ?thesis
  proof (cases scope)
    case scope: None
    from created have "ro_name role = ''admin''" unfolding scope by (rule created_without_scope)
    then show ?thesis
      using Some upward active target
      by (auto simp: admin_scope [OF keys] approvable_scope_def scope_for_approval_def scope rr_def
          new_role_request_def requested_scope_validation_error_def
          dest: find_SomeD split: option.splits)
  next
    case scope: (Some s)
    from created_scope_row created have s: "s \<in> set (at_scopes db)"
        "requested_scope_validation_error (Some s) (ro_name role) = None"
      unfolding scope by blast+
    have same: "scope_for_approval ord' rr user (ro_name role) db = Some s"
    proof (cases "ro_name role = ''admin''")
      case True
      then have "is_global_scope s"
        using s(2) by (simp add: requested_scope_validation_error_def split: if_splits)
      then show ?thesis
        using True global_scope_found [OF keys s(1)] by (simp add: scope_for_approval_def)
    next
      case False
      have "find_by as_id (as_id s) (at_scopes db) = Some s"
        using keys s(1) by (simp add: role_keys_ok_def find_by_distinct)
      with False show ?thesis
        by (simp add: scope_for_approval_def requested_scope_row_def rr_def new_role_request_def scope)
    qed
    have "global_scope_available db" if "ro_name role = ''admin''"
      using s that
      by (auto simp: global_scope_available_def list_ex_iff requested_scope_validation_error_def
          split: if_splits)
    then show ?thesis
      using Some same s(2) upward active target
      by (simp add: approvable_scope_def rr_def new_role_request_def scope)
  qed
qed

text \<open>
  C21: a request that was just created is answered, when another active user with the
  permission approves it with a reason, by the approved request, exactly when the requester
  has a role, and, for the role of an administrator, when the global scope exists. In the
  remaining cases the only answer is the conflict: a user without a role can ask for one, but
  no such request can be approved.
\<close>

theorem created_request_can_be_approved:
  assumes created: "create_role_request en call payload st = (Success code doc, st')"
    and seen: "rc_current call = Some seen"
    and user: "find_by au_id (au_id seen) (at_users (rs_tables st)) = Some user"
    and keys: "role_keys_ok (rs_tables st)"
    and fresh: "re_new_id en \<notin> rur_id ` set (rs_requests st)"
    and admin: "require_permission ''can_approve_role_requests'' (rc_current call') (rc_seen call')
      = Inr admin"
    and actor: "decision_actor_error (rs_tables st) admin = Inr ()" "au_id admin \<noteq> au_id user"
    and decision: "rc_csrf_ok call'" "py_strip words \<noteq> []" "re_commit_ok en'"
  shows "case fst (approve_role_request en' call' (re_new_id en) words st') of
      Success c _ \<Rightarrow> c = 200 \<and> role_of_user (rs_tables st) user \<noteq> None
        \<and> (py_lower (py_strip (rp_requested_role payload)) = ''admin''
             \<longrightarrow> global_scope_available (rs_tables st))
    | Refused e \<Rightarrow> e = role_request_state_changed
        \<and> (role_of_user (rs_tables st) user = None
           \<or> py_lower (py_strip (rp_requested_role payload)) = ''admin''
              \<and> \<not> global_scope_available (rs_tables st))
    | Raised _ \<Rightarrow> False"
proof -
  let ?db = "rs_tables st" and ?name = "py_lower (py_strip (rp_requested_role payload))"
  from created obtain rr where row: "requested_row en call payload st = Inr rr"
      and st': "st' = st\<lparr>rs_requests := rs_requests st @ [rr]\<rparr>"
    by (auto simp: create_role_request_def split: sum.splits if_splits)
  from row obtain u role scope where parts: "find_by au_id (au_id seen) (at_users ?db) = Some u"
      "au_status u = ''active''" "?name \<in> set ROLE_UPGRADE_TARGETS"
      "find_by ro_name ?name (at_roles ?db) = Some role"
      "\<forall>current. role_of_user ?db u = Some current \<longrightarrow>
         is_upward_role_request (ro_name current) (ro_name role)"
      "pending_of (au_id u) (rs_requests st) = []"
      "requested_scope_for_create (re_scope_order en) u (rp_requested_scope_id payload)
         (ro_name role) ?db = Inr scope"
      and rr: "rr = new_role_request en u role scope (py_strip (rp_reason payload))"
    by (rule requested_row_Inr) (use seen in simp)
  have u: "u = user" using parts(1) user by simp
  have name: "ro_name role = ?name" "role \<in> set (at_roles ?db)"
    using find_by_SomeD [OF parts(4)] by simp_all
  have uid: "find_by au_id (au_id user) (at_users ?db) = Some user"
    using user find_by_SomeD [OF user] by simp
  have "find_by rur_id (re_new_id en) (rs_requests st) = None"
    using fresh by (simp add: find_by_None)
  then have found: "find_by rur_id (re_new_id en) (rs_requests st @ [rr]) = Some rr"
    by (simp add: find_by_append) (simp add: find_by_def rr new_role_request_def)
  have "pending_of (au_id user) (rs_requests st @ [rr]) = [rr]"
    using parts(6) by (simp add: pending_of_def u rr new_role_request_def)
  then have dec: "decidable_request call' (re_new_id en) words st' = Inr (admin, rr, py_strip words)"
    using admin actor decision
    by (simp add: decidable_request_def st' found role_request_processing_error_def Let_def)
      (simp add: rr new_role_request_def u)
  have tables: "rs_tables st' = ?db" by (simp add: st')
  have role_id: "find_by ro_id (ro_id role) (at_roles ?db) = Some role"
    using keys name(2) by (simp add: role_keys_ok_def find_by_distinct)
  then have par: "request_parties ?db rr = Some (user, role_of_user ?db user, role)"
    by (simp add: request_parties_Some rr new_role_request_def u uid)
  have fit: "approvable_scope (re_scope_order en') rr user (role_of_user ?db user) (ro_name role) ?db \<noteq> None
      \<longleftrightarrow> role_of_user ?db user \<noteq> None \<and> (?name = ''admin'' \<longrightarrow> global_scope_available ?db)"
    using new_request_approvable [OF keys parts(7,2) _ parts(5)] parts(3) name(1) rr u by simp
  have ser: "\<exists>d. serialize_role_request f (rs_tables (approved_store en' admin user old role s r rr st'))
      (decided_row en' admin k r (fill_scope s rr)) = Inr d" for f old s r k
    using uid role_id
    by (simp add: serialize_role_request_def approved_store_def granted_user st' decided_row_def
        fill_scope_def rr new_role_request_def u) (simp add: grant_role_def)
  show ?thesis
  proof (cases "approvable_scope (re_scope_order en') rr user (role_of_user ?db user) (ro_name role) ?db")
    case None
    then have "approve_role_request en' call' (re_new_id en) words st'
        = (Refused role_request_state_changed, st')"
      by (simp add: approve_role_request_def dec par tables)
    then show ?thesis using fit None by auto
  next
    case (Some s)
    obtain d where "serialize_role_request (re_isoformat en')
        (rs_tables (approved_store en' admin user (role_of_user ?db user) role s (py_strip words) rr st'))
        (decided_row en' admin ''approved'' (py_strip words) (fill_scope s rr)) = Inr d"
      using ser by blast
    then have "fst (approve_role_request en' call' (re_new_id en) words st') = Success 200 d"
      using Some decision(3) by (simp add: approve_role_request_def dec par Let_def role_reply_def tables)
    then show ?thesis using fit Some by auto
  qed
qed

section \<open>A worked example\<close>

definition defaults_first :: scope_order where
  "defaults_first rows = sort_key (\<lambda>(u, s). \<not> us_is_default u) rows"

lemma defaults_first_ok: "scope_order_ok defaults_first"
  by (simp add: scope_order_ok_def defaults_first_def)

definition role_example_user :: "uuid \<Rightarrow> uuid option \<Rightarrow> app_user" where
  "role_example_user i role =
     \<lparr>au_id = i, au_role_id = role, au_status = ''active'', au_auth_provider = ''demo'',
      au_full_name = i, au_email = i @ ''@example.org'', au_department_id = Some ''d1''\<rparr>"

definition role_example_tables :: auth_tables where
  "role_example_tables =
     \<lparr>at_users = [role_example_user ''ann'' (Some ''r0''), role_example_user ''bob'' (Some ''r3'')],
      at_roles = [\<lparr>ro_id = ''r0'', ro_name = ''user''\<rparr>, \<lparr>ro_id = ''r1'', ro_name = ''manager''\<rparr>,
                  \<lparr>ro_id = ''r3'', ro_name = ''admin''\<rparr>],
      at_permissions = [\<lparr>pm_id = ''p1'', pm_key = ''can_approve_role_requests''\<rparr>],
      at_role_permissions = [\<lparr>rp_role_id = ''r3'', rp_permission_id = ''p1''\<rparr>],
      at_user_permissions = [],
      at_scopes = [\<lparr>as_id = ''s1'', as_scope_type = ''department'', as_scope_key = ''d1'',
                     as_display_name = ''D1'', as_department_id = Some ''d1''\<rparr>,
                   \<lparr>as_id = ''s2'', as_scope_type = ''global'', as_scope_key = ''global'',
                     as_display_name = ''Global'', as_department_id = None\<rparr>],
      at_user_scopes = [\<lparr>us_user_id = ''ann'', us_scope_id = ''s1'', us_access_level = ''read'',
                          us_is_default = False\<rparr>]\<rparr>"

definition role_example_start :: role_store where
  "role_example_start = \<lparr>rs_tables = role_example_tables, rs_requests = [], rs_audits = []\<rparr>"

definition role_example_env :: role_env where
  "role_example_env =
     \<lparr>re_scope_order = defaults_first, re_isoformat = timestamp, re_now = 1000, re_db_now = 999,
      re_new_id = ''q1'', re_commit_ok = True\<rparr>"

definition role_example_call :: "uuid \<Rightarrow> uuid \<Rightarrow> role_call" where
  "role_example_call i role =
     \<lparr>rc_current = Some (role_example_user i (Some role)), rc_seen = role_example_tables,
      rc_csrf_ok = True\<rparr>"

definition role_example_create :: role_request_create where
  "role_example_create =
     \<lparr>rp_requested_role = '' Admin '', rp_requested_scope_id = None, rp_reason = ''on call''\<rparr>"

definition role_example_asked :: role_store where
  "role_example_asked =
     snd (create_role_request role_example_env (role_example_call ''ann'' ''r0'')
            role_example_create role_example_start)"

definition role_example_granted :: role_store where
  "role_example_granted =
     snd (approve_role_request role_example_env (role_example_call ''bob'' ''r3'') ''q1'' '' ok ''
            role_example_asked)"

lemma role_example_asked_value:
  "role_example_asked = role_example_start\<lparr>rs_requests :=
     [new_role_request role_example_env (role_example_user ''ann'' (Some ''r0''))
        \<lparr>ro_id = ''r3'', ro_name = ''admin''\<rparr> None ''on call'']\<rparr>"
  by code_simp

lemma role_example_granted_value:
  "at_users (rs_tables role_example_granted)
     = [role_example_user ''ann'' (Some ''r3''), role_example_user ''bob'' (Some ''r3'')]"
  "map rur_status (rs_requests role_example_granted) = [''approved'']"
  by code_simp+

lemma role_change_is_granted_witness:
  "\<exists>rr actor. rr \<in> set (rs_requests role_example_asked) \<and> rur_requester_user_id rr = ''ann''
     \<and> actor \<in> set (at_users role_example_tables) \<and> au_id actor \<noteq> ''ann''"
proof -
  have step: "role_step role_example_asked role_example_granted"
    unfolding role_example_granted_def by (rule role_step.approve)
  have keys: "role_keys_ok (rs_tables role_example_asked)" by code_simp
  have before: "find_by au_id ''ann'' (at_users (rs_tables role_example_asked))
      = Some (role_example_user ''ann'' (Some ''r0''))" by code_simp
  have after: "find_by au_id ''ann'' (at_users (rs_tables role_example_granted))
      = Some (role_example_user ''ann'' (Some ''r3''))"
    by (simp add: role_example_granted_value find_by_def role_example_user_def)
  have change: "au_role_id (role_example_user ''ann'' (Some ''r3''))
      \<noteq> au_role_id (role_example_user ''ann'' (Some ''r0''))"
    by (simp add: role_example_user_def)
  have tables: "rs_tables role_example_asked = role_example_tables" by code_simp
  from role_change_is_granted [OF step keys before after change defaults_first_ok]
  show ?thesis unfolding tables by blast
qed

lemma role_requests_stay_consistent_witness:
  "role_requests_ok (rs_requests role_example_granted)"
proof (rule role_requests_stay_consistent [THEN conjunct1])
  have "role_reachable role_example_start"
    by (rule role_reachable.start) (simp add: role_example_start_def)
  moreover have "role_step role_example_start role_example_asked"
    unfolding role_example_asked_def
    by (rule role_step.create) (simp add: role_example_start_def)
  ultimately show "role_reachable role_example_asked"
    by (blast intro: role_reachable.event role_event_def [THEN iffD2])
  have "role_step role_example_asked role_example_granted"
    unfolding role_example_granted_def by (rule role_step.approve)
  then show "role_event\<^sup>*\<^sup>* role_example_asked role_example_granted"
    by (simp add: role_event_def r_into_rtranclp)
qed

lemma created_request_can_be_approved_witness:
  "case fst (approve_role_request role_example_env (role_example_call ''bob'' ''r3'') ''q1'' '' ok ''
       role_example_asked) of
     Success c _ \<Rightarrow> c = 200 | _ \<Rightarrow> False"
proof -
  have created: "create_role_request role_example_env (role_example_call ''ann'' ''r0'')
      role_example_create role_example_start
    = (Success 201 (case serialize_role_request timestamp role_example_tables
         (hd (rs_requests role_example_asked)) of Inr d \<Rightarrow> d | Inl _ \<Rightarrow> JNull), role_example_asked)"
    by code_simp
  have seen: "rc_current (role_example_call ''ann'' ''r0'')
      = Some (role_example_user ''ann'' (Some ''r0''))"
    by (simp add: role_example_call_def)
  have user: "find_by au_id (au_id (role_example_user ''ann'' (Some ''r0'')))
      (at_users (rs_tables role_example_start)) = Some (role_example_user ''ann'' (Some ''r0''))"
    by code_simp
  have keys: "role_keys_ok (rs_tables role_example_start)" by code_simp
  have fresh: "re_new_id role_example_env \<notin> rur_id ` set (rs_requests role_example_start)"
    by (simp add: role_example_start_def)
  have admin: "require_permission ''can_approve_role_requests'' (rc_current (role_example_call ''bob'' ''r3''))
      (rc_seen (role_example_call ''bob'' ''r3'')) = Inr (role_example_user ''bob'' (Some ''r3''))"
    by code_simp
  have actor: "decision_actor_error (rs_tables role_example_start) (role_example_user ''bob'' (Some ''r3''))
      = Inr ()"
    by code_simp
  have other: "au_id (role_example_user ''bob'' (Some ''r3'')) \<noteq> au_id (role_example_user ''ann'' (Some ''r0''))"
    by (simp add: role_example_user_def)
  have decision: "rc_csrf_ok (role_example_call ''bob'' ''r3'')" "py_strip '' ok '' \<noteq> []"
      "re_commit_ok role_example_env"
    by code_simp+
  have parts: "role_of_user (rs_tables role_example_start) (role_example_user ''ann'' (Some ''r0'')) \<noteq> None"
      "global_scope_available (rs_tables role_example_start)"
      "re_new_id role_example_env = ''q1''"
    by code_simp+
  show ?thesis
    using created_request_can_be_approved
      [OF created seen user keys fresh admin actor other decision] parts
    by (auto split: http.splits)
qed

end
