(* ===== verification/Csv_Export.thy ===== *)
theory Csv_Export
  imports Json
begin

text \<open>
  The CSV document of an export (\<open>exports/csv_exporter.py\<close>): the text of a cell, the guard
  against spreadsheet formulas, and the rows as \<open>csv.writer\<close> of the standard library writes
  them (delimiter comma, quote character \<open>"\<close>, minimal quoting, line terminator \<open>\n\<close>).

  \<open>read_csv\<close> is the reference: a strict reader of such documents. The main lemma says that it
  gives back exactly the cells that were written, for every document.
\<close>

section \<open>Cells\<close>

text \<open>
  A value of a result row, by the branches of \<open>_cell_to_string\<close>. \<open>CellText\<close> is a float, a
  decimal, a date, a datetime or a UUID, with the text \<open>str\<close> or \<open>isoformat\<close> gives for it;
  \<open>CellJson\<close> is a list or a dict with the result of \<open>json.dumps\<close>, which raises on a value it
  cannot encode; \<open>CellOther\<close> is any other value with its \<open>str\<close>.
\<close>

datatype cell =
    CellNone
  | CellStr string
  | CellBool bool
  | CellInt int
  | CellText string
  | CellJson "py_exn + string"
  | CellOther string

definition FORMULA_PREFIXES :: "char list" where
  "FORMULA_PREFIXES = [CHR ''='', CHR ''+'', CHR ''-'', CHR ''@'']"

definition CSV_INJECTION_PREFIXES :: "char list" where
  "CSV_INJECTION_PREFIXES = FORMULA_PREFIXES @ [CHR 0x09, CHR 0x0D, CHR 0x0A]"

definition starts_with_any :: "char list \<Rightarrow> string \<Rightarrow> bool" where
  "starts_with_any cs s = (case s of [] \<Rightarrow> False | c # _ \<Rightarrow> c \<in> set cs)"

definition sanitize_csv_injection :: "string \<Rightarrow> string" where
  "sanitize_csv_injection value =
     (if starts_with_any [CHR 0x27] value then value
      else if starts_with_any CSV_INJECTION_PREFIXES value then CHR 0x27 # value
      else if starts_with_any FORMULA_PREFIXES (py_lstrip value) then CHR 0x27 # value
      else value)"

definition cell_to_string :: "cell \<Rightarrow> py_exn + string" where
  "cell_to_string v =
     (case v of
        CellNone \<Rightarrow> Inr []
      | CellStr s \<Rightarrow> Inr (sanitize_csv_injection s)
      | CellBool b \<Rightarrow> Inr (if b then ''True'' else ''False'')
      | CellInt i \<Rightarrow> Inr (int_text i)
      | CellText s \<Rightarrow> Inr s
      | CellJson r \<Rightarrow> r
      | CellOther s \<Rightarrow> Inr (sanitize_csv_injection s))"

section \<open>Rows\<close>

definition needs_quotes :: "string \<Rightarrow> bool" where
  "needs_quotes s \<longleftrightarrow> list_ex (\<lambda>c. c \<in> {CHR '','', CHR 0x22, CHR 0x0A, CHR 0x0D}) s"

definition double_quotes :: "string \<Rightarrow> string" where
  "double_quotes s = concat (map (\<lambda>c. if c = CHR 0x22 then [c, c] else [c]) s)"

definition csv_field :: "string \<Rightarrow> string" where
  "csv_field s = (if needs_quotes s then CHR 0x22 # double_quotes s @ [CHR 0x22] else s)"

text \<open>A row of one empty field is written quoted, so that it is not an empty line.\<close>

definition csv_row :: "string list \<Rightarrow> string" where
  "csv_row fields =
     (if fields = [[]] then [CHR 0x22, CHR 0x22] else join_char CHR '','' (map csv_field fields))
     @ [CHR 0x0A]"

type_synonym result_row = "(string \<times> cell) list"

definition row_cell :: "result_row \<Rightarrow> string \<Rightarrow> cell" where
  "row_cell row column = (case map_of row column of None \<Rightarrow> CellNone | Some v \<Rightarrow> v)"

definition export_lines ::
  "string list \<Rightarrow> result_row list \<Rightarrow> bool \<Rightarrow> py_exn + string list list" where
  "export_lines columns rows include_headers =
     result_bind (traverse (\<lambda>row. traverse (\<lambda>c. cell_to_string (row_cell row c)) columns) rows)
       (\<lambda>body. Inr ((if include_headers then [map sanitize_csv_injection columns] else []) @ body))"

definition rows_to_csv ::
  "string list \<Rightarrow> result_row list \<Rightarrow> bool \<Rightarrow> py_exn + string" where
  "rows_to_csv columns rows include_headers =
     result_bind (export_lines columns rows include_headers) (\<lambda>ls. Inr (concat (map csv_row ls)))"

section \<open>The formula guard\<close>

definition spreadsheet_safe :: "string \<Rightarrow> bool" where
  "spreadsheet_safe s \<longleftrightarrow>
     s = [] \<or> hd s = CHR 0x27
     \<or> hd s \<notin> set CSV_INJECTION_PREFIXES
        \<and> (py_lstrip s = [] \<or> hd (py_lstrip s) \<notin> set FORMULA_PREFIXES)"

lemma sanitize_csv_injection_safe: "spreadsheet_safe (sanitize_csv_injection s)"
  by (auto simp: sanitize_csv_injection_def spreadsheet_safe_def starts_with_any_def
      split: list.splits)

lemma sanitize_csv_injection_keeps:
  "sanitize_csv_injection s = (if spreadsheet_safe s then s else CHR 0x27 # s)"
proof (cases s)
  case Nil
  then show ?thesis
    by (simp add: sanitize_csv_injection_def spreadsheet_safe_def starts_with_any_def py_lstrip_def)
next
  case (Cons c cs)
  then show ?thesis
    by (auto simp: sanitize_csv_injection_def spreadsheet_safe_def starts_with_any_def
        split: list.splits)
qed

section \<open>A strict reader\<close>

datatype csv_state = StartRecord | StartField | InField | InQuotes | QuoteSeen

text \<open>
  The fields read so far and the current field are accumulated; \<open>None\<close> is malformed text: a
  quote or a carriage return in an unquoted field, text after a closing quote, or an end of
  the input inside a record.
\<close>

fun csv_scan :: "csv_state \<Rightarrow> string \<Rightarrow> string list \<Rightarrow> string \<Rightarrow> string list list option" where
  "csv_scan StartRecord field fields [] = Some []"
| "csv_scan _ field fields [] = None"
| "csv_scan StartRecord field fields (c # cs) =
     (if c = CHR 0x0A then map_option ((#) []) (csv_scan StartRecord [] [] cs)
      else if c = CHR 0x22 then csv_scan InQuotes [] [] cs
      else if c = CHR '','' then csv_scan StartField [] [[]] cs
      else if c = CHR 0x0D then None
      else csv_scan InField [c] [] cs)"
| "csv_scan StartField field fields (c # cs) =
     (if c = CHR 0x0A then map_option ((#) (fields @ [[]])) (csv_scan StartRecord [] [] cs)
      else if c = CHR 0x22 then csv_scan InQuotes [] fields cs
      else if c = CHR '','' then csv_scan StartField [] (fields @ [[]]) cs
      else if c = CHR 0x0D then None
      else csv_scan InField [c] fields cs)"
| "csv_scan InField field fields (c # cs) =
     (if c = CHR 0x0A then map_option ((#) (fields @ [field])) (csv_scan StartRecord [] [] cs)
      else if c = CHR '','' then csv_scan StartField [] (fields @ [field]) cs
      else if c = CHR 0x22 \<or> c = CHR 0x0D then None
      else csv_scan InField (field @ [c]) fields cs)"
| "csv_scan InQuotes field fields (c # cs) =
     (if c = CHR 0x22 then csv_scan QuoteSeen field fields cs
      else csv_scan InQuotes (field @ [c]) fields cs)"
| "csv_scan QuoteSeen field fields (c # cs) =
     (if c = CHR 0x22 then csv_scan InQuotes (field @ [c]) fields cs
      else if c = CHR '','' then csv_scan StartField [] (fields @ [field]) cs
      else if c = CHR 0x0A then map_option ((#) (fields @ [field])) (csv_scan StartRecord [] [] cs)
      else None)"

definition read_csv :: "string \<Rightarrow> string list list option" where
  "read_csv s = csv_scan StartRecord [] [] s"

section \<open>Reading back what was written\<close>

text \<open>What the reader does at the end of a field that started in any of the two start states.\<close>

definition field_end :: "char \<Rightarrow> string \<Rightarrow> string list \<Rightarrow> string \<Rightarrow> string list list option" where
  "field_end sep field fields rest =
     (if sep = CHR '','' then csv_scan StartField [] (fields @ [field]) rest
      else map_option ((#) (fields @ [field])) (csv_scan StartRecord [] [] rest))"

lemma scan_plain:
  assumes "\<not> needs_quotes s" "sep = CHR '','' \<or> sep = CHR 0x0A"
  shows "csv_scan InField field fields (s @ sep # rest) = field_end sep (field @ s) fields rest"
  using assms
  by (induction s arbitrary: field) (auto simp: needs_quotes_def field_end_def)

lemma scan_quoted:
  "csv_scan InQuotes field fields (double_quotes s @ CHR 0x22 # rest)
     = csv_scan QuoteSeen (field @ s) fields rest"
  by (induction s arbitrary: field) (simp_all add: double_quotes_def)

lemma scan_quote_end:
  "sep = CHR '','' \<or> sep = CHR 0x0A \<Longrightarrow>
     csv_scan QuoteSeen field fields (sep # rest) = field_end sep field fields rest"
  by (auto simp: field_end_def)

lemma scan_field:
  assumes sep: "sep = CHR '','' \<or> sep = CHR 0x0A"
  shows "csv_scan StartField [] fields (csv_field s @ sep # rest) = field_end sep s fields rest"
proof (cases "needs_quotes s")
  case True
  then show ?thesis using scan_quote_end [OF sep] by (simp add: csv_field_def scan_quoted)
next
  case False
  show ?thesis
  proof (cases s)
    case Nil
    then show ?thesis using sep by (auto simp: csv_field_def needs_quotes_def field_end_def)
  next
    case (Cons c cs)
    with False have "c \<notin> {CHR '','', CHR 0x22, CHR 0x0A, CHR 0x0D}" "\<not> needs_quotes cs"
      by (simp_all add: needs_quotes_def)
    then show ?thesis
      using scan_plain [of cs, OF _ sep, of "[c]"] False Cons by (simp add: csv_field_def)
  qed
qed

text \<open>The start of a record differs from the start of a field only on an empty line.\<close>

lemma scan_first_field:
  assumes "sep = CHR '','' \<or> sep = CHR 0x0A" "s \<noteq> [] \<or> sep = CHR '',''"
  shows "csv_scan StartRecord [] [] (csv_field s @ sep # rest) = field_end sep s [] rest"
proof -
  have "csv_scan StartRecord [] [] (c # cs) = csv_scan StartField [] [] (c # cs)"
    if "c \<noteq> CHR 0x0A" for c cs
    using that by simp
  moreover have "hd (csv_field s @ sep # rest) \<noteq> CHR 0x0A"
    using assms by (cases s) (auto simp: csv_field_def needs_quotes_def)
  ultimately show ?thesis
    using scan_field [OF assms(1), of "[]" s rest] by (cases "csv_field s @ sep # rest") simp_all
qed

lemma scan_fields:
  "fs \<noteq> [] \<Longrightarrow> csv_scan StartField [] fields (join_char CHR '','' (map csv_field fs) @ CHR 0x0A # rest)
     = map_option ((#) (fields @ fs)) (csv_scan StartRecord [] [] rest)"
proof (induction fs arbitrary: fields)
  case (Cons f fs)
  show ?case
  proof (cases fs)
    case Nil
    then show ?thesis by (simp add: scan_field field_end_def)
  next
    case (Cons g gs)
    with Cons.IH [of "fields @ [f]"] show ?thesis by (simp add: scan_field field_end_def)
  qed
qed simp

lemma scan_row:
  "csv_scan StartRecord [] [] (csv_row fs @ rest) = map_option ((#) fs) (csv_scan StartRecord [] [] rest)"
proof (cases "fs = [] \<or> fs = [[]]")
  case True
  then show ?thesis by (auto simp: csv_row_def)
next
  case False
  then obtain f gs where fs: "fs = f # gs" by (cases fs) auto
  show ?thesis
  proof (cases gs)
    case Nil
    with False fs show ?thesis
      using scan_first_field [of "CHR 0x0A" f rest] by (simp add: csv_row_def field_end_def)
  next
    case (Cons g hs)
    then show ?thesis
      using scan_first_field [of "CHR '',''" f] scan_fields [of gs "[f]" rest]
      by (simp add: csv_row_def fs field_end_def)
  qed
qed

lemma read_csv_rows: "read_csv (concat (map csv_row rows)) = Some rows"
  unfolding read_csv_def by (induction rows) (simp_all add: scan_row)

section \<open>Properties\<close>

lemma traverse_nth:
  assumes "traverse f xs = Inr ys"
  shows "length ys = length xs" and "i < length xs \<Longrightarrow> f (xs ! i) = Inr (ys ! i)"
  using assms by (auto simp: traverse_Inr_iff list_all2_conv_all_nth)

lemma text_cell_safe:
  "cell_to_string v = Inr s \<Longrightarrow> v = CellStr t \<or> v = CellOther t \<Longrightarrow> spreadsheet_safe s"
  by (auto simp: cell_to_string_def sanitize_csv_injection_safe)

text \<open>
  C22: reading an exported document gives back exactly the cells that were written: the
  sanitized column names when headers are asked for, then one line per row with one field per
  column, whatever commas, quotes and line breaks the values contain; and no header and no
  text value can start a formula in a spreadsheet.
\<close>

theorem exported_csv_reads_back:
  fixes columns rows headers body
  defines "k \<equiv> (if headers then 1 else 0 :: nat)"
  assumes "rows_to_csv columns rows headers = Inr body"
  shows "\<exists>ls. read_csv body = Some ls
    \<and> length ls = k + length rows
    \<and> (headers \<longrightarrow> hd ls = map sanitize_csv_injection columns \<and> list_all spreadsheet_safe (hd ls))
    \<and> (\<forall>i < length rows. length (ls ! (k + i)) = length columns
        \<and> (\<forall>j < length columns.
             cell_to_string (row_cell (rows ! i) (columns ! j)) = Inr (ls ! (k + i) ! j)
             \<and> (\<forall>t. row_cell (rows ! i) (columns ! j) \<in> {CellStr t, CellOther t}
                   \<longrightarrow> spreadsheet_safe (ls ! (k + i) ! j))))"
proof -
  let ?head = "if headers then [map sanitize_csv_injection columns] else []"
  from assms(2) obtain ls where "export_lines columns rows headers = Inr ls"
      and body: "body = concat (map csv_row ls)"
    by (auto simp: rows_to_csv_def result_bind_Inr_iff)
  then obtain cells where
      cells: "traverse (\<lambda>row. traverse (\<lambda>c. cell_to_string (row_cell row c)) columns) rows = Inr cells"
      and ls: "ls = ?head @ cells"
    by (auto simp: export_lines_def result_bind_Inr_iff)
  have n: "length cells = length rows" using traverse_nth(1) [OF cells] .
  have at: "ls ! (k + i) = cells ! i" for i by (simp add: ls k_def nth_append)
  have row: "traverse (\<lambda>c. cell_to_string (row_cell (rows ! i) c)) columns = Inr (cells ! i)"
    if "i < length rows" for i
    using traverse_nth(2) [OF cells that] .
  have "length (cells ! i) = length columns \<and> (\<forall>j < length columns.
      cell_to_string (row_cell (rows ! i) (columns ! j)) = Inr (cells ! i ! j)
      \<and> (\<forall>t. row_cell (rows ! i) (columns ! j) \<in> {CellStr t, CellOther t}
           \<longrightarrow> spreadsheet_safe (cells ! i ! j)))" if "i < length rows" for i
    using traverse_nth [OF row [OF that]] by (auto intro: text_cell_safe)
  moreover have "list_all spreadsheet_safe (map sanitize_csv_injection columns)"
    by (simp add: list_all_iff sanitize_csv_injection_safe)
  moreover have "read_csv body = Some ls" by (simp add: body read_csv_rows)
  moreover have "length ls = k + length rows" by (simp add: ls k_def n)
  moreover have "headers \<Longrightarrow> hd ls = map sanitize_csv_injection columns" by (simp add: ls)
  ultimately show ?thesis by (auto simp: at)
qed

definition example_export_rows :: "result_row list" where
  "example_export_rows =
     [[(''name'', CellStr ''=1+1''), (''n'', CellInt (- 20))],
      [(''name'', CellStr [CHR ''a'', CHR 0x22, CHR '','', CHR 0x0A]), (''n'', CellNone)]]"

lemma exported_csv_reads_back_witness:
  "\<exists>body. rows_to_csv [''name'', ''n''] example_export_rows True = Inr body
     \<and> (\<exists>ls. read_csv body = Some ls \<and> length ls = 3 \<and> hd ls = [''name'', ''n''])"
proof -
  obtain body where body: "rows_to_csv [''name'', ''n''] example_export_rows True = Inr body"
  proof -
    have "is_ok (rows_to_csv [''name'', ''n''] example_export_rows True)" by code_simp
    then show thesis using that by (auto simp: is_ok_iff)
  qed
  have names: "map sanitize_csv_injection [''name'', ''n''] = [''name'', ''n'']" by code_simp
  have "length example_export_rows = 2" by (simp add: example_export_rows_def)
  with exported_csv_reads_back [OF body] have "\<exists>ls. read_csv body = Some ls \<and> length ls = 3
      \<and> hd ls = map sanitize_csv_injection [''name'', ''n'']"
    by auto
  then show ?thesis unfolding names using body by blast
qed

end
