(* ===== verification/Export_Routes.thy ===== *)
theory Export_Routes
  imports Csv_Export Action_Records Dashboard_Store
begin

text \<open>
  The CSV exports of query runs and dashboard cards (\<open>api/routes/exports.py\<close>) with the restored
  bound of the saved query (\<open>query_engine/delivery.py\<close>).

  The validator of the SQL and its executor work on the syntax trees of the sqlglot package
  and on the database connection; the executor is injected (\<open>Depends(get_export_sql_executor)\<close>).
  Both are parameters: \<open>xe_validate\<close> is \<open>_validate_export_sql\<close> for the caller, \<open>xe_execute\<close> the
  executor with the options of an export. The caller, the access context, the CSRF check and
  the outcome of the commit are those of \<open>dash_request\<close>.
\<close>

section \<open>Request, results and tables\<close>

record export_payload =
  ep_filename :: "string option"
  ep_include_headers :: bool

record sql_validation =
  sv_valid :: bool
  sv_sanitized_sql :: "string option"
  sv_referenced_tables :: "string list"
  sv_error_code :: "string option"
  sv_input_limit :: "int option"
  sv_effective_limit :: "int option"
  sv_limit_source :: "string option"

record sql_execution =
  sx_status :: string
  sx_columns :: "string list"
  sx_rows :: "result_row list"
  sx_row_count :: int
  sx_execution_metadata :: json
  sx_error_code :: "string option"

record export_audit =
  ea_actor_user_id :: uuid
  ea_event_type :: string
  ea_action :: string
  ea_status :: string
  ea_entity_type :: string
  ea_entity_id :: uuid
  ea_summary :: string
  ea_ip_address :: "string option"
  ea_user_agent :: "string option"
  ea_metadata :: json

record export_store =
  xs_dash :: dash_store
  xs_resources :: "data_resource list"
  xs_audits :: "export_audit list"

record export_env =
  xe_validate :: "string \<Rightarrow> sql_validation"
  xe_execute :: "sql_validation \<Rightarrow> sql_execution"
  xe_ip_address :: "string option"
  xe_user_agent :: "string option"

record csv_response =
  cr_body :: string
  cr_filename :: string
  cr_delivery :: string
  cr_row_count :: int

section \<open>Error responses\<close>

definition invalid_export_request_response :: api_error where
  "invalid_export_request_response =
     error_response ''INVALID_EXPORT_REQUEST'' ''Export request is invalid or unsupported.'' 400"

definition query_run_not_exportable_response :: api_error where
  "query_run_not_exportable_response =
     error_response ''QUERY_RUN_NOT_EXPORTABLE''
       ''Only successful owned query runs with safe executed SQL can be exported.'' 400"

definition card_not_exportable_response :: api_error where
  "card_not_exportable_response =
     error_response ''CARD_NOT_EXPORTABLE'' ''Dashboard card cannot be exported as CSV.'' 400"

definition csv_export_not_allowed_response :: api_error where
  "csv_export_not_allowed_response =
     error_response ''CSV_EXPORT_NOT_ALLOWED'' ''CSV export is not allowed for this resource.'' 403"

definition csv_export_execution_error_response :: "sql_execution \<Rightarrow> api_error" where
  "csv_export_execution_error_response x =
     (if sx_error_code x \<in> {Some ''access_denied'', Some ''invalid_sql'',
            Some ''missing_referenced_tables'', Some ''resource_not_found'',
            Some ''resource_not_queryable'', Some ''unsafe_sql''}
      then csv_export_not_allowed_response
      else error_response ''CSV_EXPORT_FAILED'' ''CSV export failed safely.'' 500)"

section \<open>The request document\<close>

definition MAX_EXPORT_FILENAME_LENGTH :: nat where
  "MAX_EXPORT_FILENAME_LENGTH = 255"

definition ends_with_csv :: "string \<Rightarrow> bool" where
  "ends_with_csv s \<longleftrightarrow> length s \<ge> 4 \<and> drop (length s - 4) (py_lower s) = ''.csv''"

definition printable_ascii :: "char \<Rightarrow> bool" where
  "printable_ascii c \<longleftrightarrow> (let n = (of_char c :: nat) in 32 \<le> n \<and> n \<le> 126)"

text \<open>\<open>None\<close> is the sentinel \<open>_INVALID\<close>.\<close>

definition export_filename :: "json \<Rightarrow> string option" where
  "export_filename value =
     (case value of
        JStr s \<Rightarrow>
          let filename = py_strip s; parts = split_char CHR ''.'' filename in
          if filename = [] \<or> filename = ''.'' \<or> filename = ''..'' then None
          else if \<not> list_all printable_ascii filename then None
          else if CHR ''/'' \<in> set filename \<or> CHR 0x5C \<in> set filename \<or> CHR 0x00 \<in> set filename then None
          else if CHR 0x22 \<in> set filename \<or> CHR '';'' \<in> set filename then None
          else if length parts > 1
             \<and> (length parts \<noteq> 2 \<or> py_lower (last parts) \<noteq> ''csv'' \<or> hd parts = []) then None
          else if (if ends_with_csv filename then length filename else length filename + 4)
             > MAX_EXPORT_FILENAME_LENGTH then None
          else Some filename
      | _ \<Rightarrow> None)"

definition parse_export_payload :: "json \<Rightarrow> api_error + export_payload" where
  "parse_export_payload payload =
     (let e = invalid_export_request_response in
      if \<not> is_dict payload then Inl e
      else if \<not> jkeys payload \<subseteq> {''filename'', ''include_headers''} then Inl e
      else
        result_bind
          (if present payload ''filename''
           then or_error e (map_option Some (export_filename (jget payload ''filename'')))
           else Inr None) (\<lambda>filename.
        result_bind
          (if present payload ''include_headers''
           then (case jget payload ''include_headers'' of JBool b \<Rightarrow> Inr b | _ \<Rightarrow> Inl e)
           else Inr True) (\<lambda>include_headers.
        Inr \<lparr>ep_filename = filename, ep_include_headers = include_headers\<rparr>)))"

definition csv_filename :: "string \<Rightarrow> uuid \<Rightarrow> string option \<Rightarrow> string" where
  "csv_filename prefix i filename =
     (let base = (case str_or filename None of Some f \<Rightarrow> f | None \<Rightarrow> prefix @ i)
      in if ends_with_csv base then base else base @ ''.csv'')"

definition query_run_csv_filename :: "uuid \<Rightarrow> string option \<Rightarrow> string" where
  "query_run_csv_filename = csv_filename ''query-run-''"

definition card_csv_filename :: "uuid \<Rightarrow> string option \<Rightarrow> string" where
  "card_csv_filename = csv_filename ''card-''"

text \<open>\<open>f"{filename[:-4][:255 - len(suffix) - 4]}{suffix}.csv"\<close> when there is a suffix.\<close>

definition delivery_suffix :: "string \<Rightarrow> string" where
  "delivery_suffix delivery =
     (if delivery = ''safety_limited'' then ''-partial''
      else if delivery = ''unknown'' then ''-completeness-unknown'' else [])"

definition delivered_filename :: "string \<Rightarrow> string \<Rightarrow> string" where
  "delivered_filename delivery filename =
     (let suffix = delivery_suffix delivery in
      if suffix = [] then filename
      else take (255 - length suffix - 4) (take (length filename - 4) filename) @ suffix @ ''.csv'')"

section \<open>The bound and the completeness of the delivery\<close>

definition DEFAULT_QUERY_LIMIT :: int where "DEFAULT_QUERY_LIMIT = 100"

definition MAX_QUERY_LIMIT :: int where "MAX_QUERY_LIMIT = 500"

definition restore_saved_bound :: "sql_validation \<Rightarrow> json \<Rightarrow> sql_validation" where
  "restore_saved_bound v metadata =
     (let unknown = v\<lparr>sv_input_limit := None, sv_limit_source := None\<rparr>;
          prior = jget metadata ''validation'' in
      if \<not> sv_valid v \<or> \<not> is_dict metadata then unknown
      else if \<not> is_dict prior \<or> jget prior ''valid'' \<noteq> JBool True then unknown
      else (case strict_int (jget prior ''effective_limit'') of
        None \<Rightarrow> unknown
      | Some effective \<Rightarrow>
          let original = jget prior ''input_limit''; source = jget prior ''limit_source'' in
          if effective < 0 \<or> Some effective \<noteq> sv_effective_limit v
             \<or> sv_limit_source v \<noteq> Some ''input'' then unknown
          else if source = JStr ''input'' \<and> original = JInt effective
          then v\<lparr>sv_input_limit := Some effective, sv_limit_source := Some ''input''\<rparr>
          else if source = JStr ''safety_added'' \<and> original = JNull \<and> effective = DEFAULT_QUERY_LIMIT
          then v\<lparr>sv_input_limit := None, sv_limit_source := Some ''safety_added''\<rparr>
          else (case strict_int original of
              None \<Rightarrow> unknown
            | Some n \<Rightarrow>
                if source = JStr ''safety_clamped'' \<and> n > effective \<and> effective = MAX_QUERY_LIMIT
                then v\<lparr>sv_input_limit := Some n, sv_limit_source := Some ''safety_clamped''\<rparr>
                else unknown)))"

definition delivery_completeness :: "sql_execution \<Rightarrow> string" where
  "delivery_completeness x =
     (case jget (sx_execution_metadata x) ''delivery_completeness'' of
        JStr s \<Rightarrow> if s \<in> set [''complete'', ''safety_limited'', ''unknown''] then s else ''unknown''
      | _ \<Rightarrow> ''unknown'')"

section \<open>Tables and the resource policy\<close>

fun referenced_table_names :: "json list \<Rightarrow> string list option" where
  "referenced_table_names [] = Some []"
| "referenced_table_names (JStr s # rest) =
     (let name = py_lower (py_strip s) in
      if \<not> is_identifier name then None
      else map_option ((#) name) (referenced_table_names rest))"
| "referenced_table_names (_ # rest) = None"

definition referenced_tables_for_export :: "query_run \<Rightarrow> api_error + string list" where
  "referenced_tables_for_export run =
     (if \<not> is_dict (qr_query_metadata run) then Inl csv_export_not_allowed_response
      else (case jget (qr_query_metadata run) ''referenced_tables'' of
        JList (t # ts) \<Rightarrow>
          (case referenced_table_names (t # ts) of
             None \<Rightarrow> Inl csv_export_not_allowed_response
           | Some names \<Rightarrow> Inr (sorted_set names))
      | _ \<Rightarrow> Inl csv_export_not_allowed_response))"

record export_policy_decision =
  xd_allowed :: bool
  xd_restricted_tables :: "string list"
  xd_override_used :: bool

text \<open>
  A dictionary keyed by the table name: of several rows for one table the last one counts.
\<close>

definition resource_for_table :: "data_resource list \<Rightarrow> string \<Rightarrow> data_resource option" where
  "resource_for_table resources name =
     find_by dr_table_name name
       (rev (filter (\<lambda>r. dr_domain r = ''it_operations'' \<and> dr_resource_type r = ''table'') resources))"

fun restricted_tables :: "data_resource list \<Rightarrow> string list \<Rightarrow> string list option" where
  "restricted_tables resources [] = Some []"
| "restricted_tables resources (t # ts) =
     (case resource_for_table resources t of
        None \<Rightarrow> None
      | Some r \<Rightarrow>
          if \<not> dr_is_queryable r then None
          else map_option (\<lambda>rest. if dr_is_exportable r then rest else t # rest)
                 (restricted_tables resources ts))"

definition evaluate_export_resource_policy ::
  "data_resource list \<Rightarrow> user_access_context \<Rightarrow> string list \<Rightarrow> export_policy_decision" where
  "evaluate_export_resource_policy resources ctx tables =
     (case restricted_tables resources tables of
        None \<Rightarrow> \<lparr>xd_allowed = False, xd_restricted_tables = [], xd_override_used = False\<rparr>
      | Some restricted \<Rightarrow>
          let names = sort restricted in
          if names = [] then \<lparr>xd_allowed = True, xd_restricted_tables = [], xd_override_used = False\<rparr>
          else if \<not> has_permission ctx ''can_export_restricted_results''
          then \<lparr>xd_allowed = False, xd_restricted_tables = names, xd_override_used = False\<rparr>
          else \<lparr>xd_allowed = True, xd_restricted_tables = names, xd_override_used = True\<rparr>)"

section \<open>The export\<close>

text \<open>What the two routes pass on: names of the audit row and the response for a run that cannot be exported.\<close>

record export_source =
  xo_filename :: string
  xo_entity_type :: string
  xo_entity_id :: uuid
  xo_summary :: string
  xo_metadata :: "(string \<times> json) list"
  xo_not_exportable :: api_error

definition runnable_sql :: "query_run \<Rightarrow> string option" where
  "runnable_sql run =
     (case qr_executed_sql run of
        None \<Rightarrow> None
      | Some sql \<Rightarrow> if py_strip sql = [] then None else Some sql)"

text \<open>The checks before the executor runs: the tables, the policy decision and the validated SQL.\<close>

definition checked_export ::
  "export_env \<Rightarrow> dash_request \<Rightarrow> query_run \<Rightarrow> export_source \<Rightarrow> export_store
     \<Rightarrow> api_error + (string list \<times> export_policy_decision \<times> sql_validation)" where
  "checked_export xe rq run src st =
     result_bind (ensure (qr_status run = ''succeeded'') (xo_not_exportable src)) (\<lambda>_.
     result_bind (or_error (xo_not_exportable src) (runnable_sql run)) (\<lambda>sql.
     result_bind (referenced_tables_for_export run) (\<lambda>tables.
     let policy = evaluate_export_resource_policy (xs_resources st) (rq_ctx rq) tables;
         v = xe_validate xe sql in
     result_bind (ensure (xd_allowed policy) csv_export_not_allowed_response) (\<lambda>_.
     result_bind (ensure (sv_valid v \<and> sv_sanitized_sql v \<noteq> None) csv_export_not_allowed_response) (\<lambda>_.
     result_bind (ensure (sort (sv_referenced_tables v) = tables) csv_export_not_allowed_response) (\<lambda>_.
     Inr (tables, policy, restore_saved_bound v (qr_query_metadata run))))))))"

definition export_audit_row ::
  "export_env \<Rightarrow> dash_request \<Rightarrow> export_source \<Rightarrow> export_payload \<Rightarrow> string list \<Rightarrow> export_policy_decision
     \<Rightarrow> csv_response \<Rightarrow> export_audit" where
  "export_audit_row xe rq src p tables policy r =
     \<lparr>ea_actor_user_id = au_id (rq_user rq), ea_event_type = ''csv_export'', ea_action = ''export_csv'',
      ea_status = ''succeeded'', ea_entity_type = xo_entity_type src, ea_entity_id = xo_entity_id src,
      ea_summary = xo_summary src, ea_ip_address = xe_ip_address xe, ea_user_agent = xe_user_agent xe,
      ea_metadata = JDict (xo_metadata src @
        [(''format'', JStr ''csv''), (''filename'', JStr (cr_filename r)),
         (''include_headers'', JBool (ep_include_headers p)),
         (''row_count'', JInt (cr_row_count r)),
         (''delivery_completeness'', JStr (cr_delivery r)),
         (''referenced_tables'', JList (map JStr tables)),
         (''export_policy_override'', JBool (xd_override_used policy)),
         (''restricted_tables'', JList (map JStr (xd_restricted_tables policy)))]
        @ (if xd_override_used policy
           then [(''override_permission'', JStr ''can_export_restricted_results'')] else []))\<rparr>"

definition csv_response_of :: "export_source \<Rightarrow> string \<Rightarrow> sql_execution \<Rightarrow> csv_response" where
  "csv_response_of src body x =
     (let delivery = delivery_completeness x in
      \<lparr>cr_body = body, cr_filename = delivered_filename delivery (xo_filename src),
       cr_delivery = delivery, cr_row_count = sx_row_count x\<rparr>)"

definition export_query_run_as_csv ::
  "export_env \<Rightarrow> dash_request \<Rightarrow> query_run \<Rightarrow> export_payload \<Rightarrow> export_source \<Rightarrow> export_store
     \<Rightarrow> csv_response http \<times> export_store" where
  "export_query_run_as_csv xe rq run p src st =
     (case checked_export xe rq run src st of
        Inl e \<Rightarrow> (Refused e, st)
      | Inr (tables, policy, v) \<Rightarrow>
          let x = xe_execute xe v in
          if sx_status x \<noteq> ''succeeded'' then (Refused (csv_export_execution_error_response x), st)
          else (case rows_to_csv (sx_columns x) (sx_rows x) (ep_include_headers p) of
              Inl exn \<Rightarrow> (Raised exn, st)
            | Inr body \<Rightarrow>
                let r = csv_response_of src body x in
                if \<not> rq_commit_ok rq then (Raised SQLAlchemyError, st)
                else (Success 200 r,
                      st\<lparr>xs_audits := xs_audits st @ [export_audit_row xe rq src p tables policy r]\<rparr>)))"

text \<open>The two routes up to the shared part.\<close>

definition query_run_source :: "query_run \<Rightarrow> export_payload \<Rightarrow> export_source" where
  "query_run_source run p =
     \<lparr>xo_filename = query_run_csv_filename (qr_id run) (ep_filename p),
      xo_entity_type = ''query_run_export'', xo_entity_id = qr_id run,
      xo_summary = ''CSV export completed for query run '' @ qr_id run @ ''.'',
      xo_metadata = [(''export_source'', JStr ''query_run''), (''query_run_id'', JStr (qr_id run))],
      xo_not_exportable = query_run_not_exportable_response\<rparr>"

definition export_query_run_csv ::
  "export_env \<Rightarrow> dash_request \<Rightarrow> uuid \<Rightarrow> json \<Rightarrow> export_store \<Rightarrow> csv_response http \<times> export_store" where
  "export_query_run_csv xe rq query_run_id payload st =
     (if \<not> rq_csrf_ok rq then (Refused csrf_error_response, st)
      else case parse_export_payload payload of
        Inl e \<Rightarrow> (Refused e, st)
      | Inr p \<Rightarrow>
          if \<not> has_permission (rq_ctx rq) ''can_export_results'' then (Refused forbidden_error, st)
          else (case find_by qr_id query_run_id (ds_runs (xs_dash st)) of
              None \<Rightarrow> (Refused query_run_not_found_response, st)
            | Some run \<Rightarrow>
                if qr_user_id run \<noteq> Some (au_id (rq_user rq))
                then (Refused query_run_not_found_response, st)
                else export_query_run_as_csv xe rq run p (query_run_source run p) st))"

text \<open>
  \<open>ORDER BY completed_at DESC, created_at DESC, id DESC LIMIT 1\<close>; in a descending order a null
  comes first.
\<close>

definition latest_runs_first :: "query_run list \<Rightarrow> query_run list" where
  "latest_runs_first runs =
     rev (sort_key (\<lambda>r. qr_completed_at r = None)
       (sort_key (\<lambda>r. case qr_completed_at r of None \<Rightarrow> 0 | Some t \<Rightarrow> t)
         (sort_key qr_created_at (sort_key qr_id runs))))"

definition query_run_for_card_export :: "query_run list \<Rightarrow> dashboard_card \<Rightarrow> query_run option" where
  "query_run_for_card_export runs dc =
     (case dc_saved_query_id dc of
        None \<Rightarrow> None
      | Some q \<Rightarrow>
          (case latest_runs_first
                  (filter (\<lambda>r. qr_saved_query_id r = Some q \<and> qr_status r = ''succeeded'') runs) of
             [] \<Rightarrow> None
           | r # _ \<Rightarrow> Some r))"

definition card_source :: "dashboard_card \<Rightarrow> uuid \<Rightarrow> query_run \<Rightarrow> export_payload \<Rightarrow> export_source" where
  "card_source dc saved_query_id run p =
     \<lparr>xo_filename = card_csv_filename (dc_id dc) (ep_filename p),
      xo_entity_type = ''dashboard_card_export'', xo_entity_id = dc_id dc,
      xo_summary = ''CSV export completed for dashboard card '' @ dc_id dc @ ''.'',
      xo_metadata =
        [(''export_source'', JStr ''dashboard_card''), (''card_id'', JStr (dc_id dc)),
         (''dashboard_id'', JStr (dc_dashboard_id dc)), (''saved_query_id'', JStr saved_query_id),
         (''query_run_id'', JStr (qr_id run))],
      xo_not_exportable = card_not_exportable_response\<rparr>"

definition export_card_csv ::
  "export_env \<Rightarrow> dash_request \<Rightarrow> uuid \<Rightarrow> json \<Rightarrow> export_store \<Rightarrow> csv_response http \<times> export_store" where
  "export_card_csv xe rq card_id payload st =
     (if \<not> rq_csrf_ok rq then (Refused csrf_error_response, st)
      else case parse_export_payload payload of
        Inl e \<Rightarrow> (Refused e, st)
      | Inr p \<Rightarrow>
          if \<not> has_permission (rq_ctx rq) ''can_export_results'' then (Refused forbidden_error, st)
          else (case card_by_id (xs_dash st) card_id of
              None \<Rightarrow> (Refused card_not_found_response, st)
            | Some dc \<Rightarrow>
          (case dashboard_by_id (xs_dash st) (dc_dashboard_id dc) of
              None \<Rightarrow> (Refused card_not_found_response, st)
            | Some d \<Rightarrow>
                if db_is_archived d then (Refused card_not_found_response, st)
                else if \<not> dashboard_is_visible d (rq_user rq) (rq_ctx rq) then (Refused forbidden_error, st)
                else
          (case dc_saved_query_id dc of
              None \<Rightarrow> (Refused card_not_exportable_response, st)
            | Some q \<Rightarrow>
                if find_by sq_id q (ds_saved (xs_dash st)) = None
                then (Refused card_not_exportable_response, st)
                else
          (case query_run_for_card_export (ds_runs (xs_dash st)) dc of
              None \<Rightarrow> (Refused card_not_exportable_response, st)
            | Some run \<Rightarrow>
                if runnable_sql run = None then (Refused card_not_exportable_response, st)
                else export_query_run_as_csv xe rq run p (card_source dc q run p) st)))))"

end
