(* ===== verification/Export_Guarantees.thy ===== *)
theory Export_Guarantees
  imports Export_Routes
begin

text \<open>
  What the CSV exports guarantee: who gets which data, that every delivered export is audited
  and nothing else is written, and what the name of the file can be.
\<close>

section \<open>The resource policy\<close>

lemma restricted_tables_Some:
  assumes "restricted_tables resources tables = Some restricted"
  shows "set restricted \<subseteq> set tables"
    and "t \<in> set tables \<Longrightarrow> \<exists>r. resource_for_table resources t = Some r \<and> dr_is_queryable r
           \<and> (dr_is_exportable r \<longleftrightarrow> t \<notin> set restricted)"
  using assms
proof (induction tables arbitrary: restricted t)
  case (Cons x xs)
  {
    case 1
    then show ?case using Cons.IH(1) by (auto split: option.splits if_splits)
  next
    case 2
    then obtain r rest where r: "resource_for_table resources x = Some r" "dr_is_queryable r"
        and rest: "restricted_tables resources xs = Some rest"
        and eq: "restricted = (if dr_is_exportable r then rest else x # rest)"
      by (auto split: option.splits if_splits)
    show ?case
    proof (cases "t = x")
      case True
      show ?thesis
      proof (cases "x \<in> set xs")
        case True
        with Cons.IH(2) [OF True rest] \<open>t = x\<close> r show ?thesis by (auto simp: eq)
      next
        case False
        with Cons.IH(1) [OF rest] \<open>t = x\<close> r show ?thesis by (auto simp: eq)
      qed
    next
      case False
      with Cons.IH(2) [OF _ rest, of t] 2 show ?thesis by (auto simp: eq)
    qed
  }
qed simp_all

text \<open>A table may be exported when it is queryable and exportable, or restricted and overridden.\<close>

definition table_exportable :: "data_resource list \<Rightarrow> user_access_context \<Rightarrow> string \<Rightarrow> bool" where
  "table_exportable resources ctx t =
     (case resource_for_table resources t of
        None \<Rightarrow> False
      | Some r \<Rightarrow> dr_is_queryable r
          \<and> (dr_is_exportable r \<or> has_permission ctx ''can_export_restricted_results''))"

definition table_restricted :: "data_resource list \<Rightarrow> string \<Rightarrow> bool" where
  "table_restricted resources t =
     (case resource_for_table resources t of None \<Rightarrow> False | Some r \<Rightarrow> \<not> dr_is_exportable r)"

lemma export_policy_allowed:
  assumes "xd_allowed (evaluate_export_resource_policy resources ctx tables)"
  shows "\<forall>t \<in> set tables. table_exportable resources ctx t"
    and "xd_override_used (evaluate_export_resource_policy resources ctx tables)
      \<longleftrightarrow> (\<exists>t \<in> set tables. table_restricted resources t)"
proof -
  obtain restricted where r: "restricted_tables resources tables = Some restricted"
    using assms by (auto simp: evaluate_export_resource_policy_def split: option.splits)
  have nil: "sort restricted = [] \<longleftrightarrow> restricted = []" by (metis set_empty set_sort)
  have perm: "restricted = [] \<or> has_permission ctx ''can_export_restricted_results''"
    using assms r by (auto simp: evaluate_export_resource_policy_def Let_def nil split: if_splits)
  have over: "xd_override_used (evaluate_export_resource_policy resources ctx tables) \<longleftrightarrow> restricted \<noteq> []"
    using assms r by (auto simp: evaluate_export_resource_policy_def Let_def nil split: if_splits)
  have rows: "\<exists>x. resource_for_table resources t = Some x \<and> dr_is_queryable x
      \<and> (dr_is_exportable x \<longleftrightarrow> t \<notin> set restricted)" if "t \<in> set tables" for t
    using restricted_tables_Some(2) [OF r that] .
  show "\<forall>t \<in> set tables. table_exportable resources ctx t"
  proof
    fix t assume "t \<in> set tables"
    then obtain x where "resource_for_table resources t = Some x" "dr_is_queryable x"
        "dr_is_exportable x \<longleftrightarrow> t \<notin> set restricted"
      using rows by blast
    with perm show "table_exportable resources ctx t" by (auto simp: table_exportable_def)
  qed
  have "restricted \<noteq> [] \<longleftrightarrow> (\<exists>t \<in> set tables. t \<in> set restricted)"
    using restricted_tables_Some(1) [OF r] by (cases restricted) auto
  also have "\<dots> \<longleftrightarrow> (\<exists>t \<in> set tables. table_restricted resources t)"
  proof (rule bex_cong [OF refl])
    fix t assume "t \<in> set tables"
    from rows [OF this] show "t \<in> set restricted \<longleftrightarrow> table_restricted resources t"
      by (auto simp: table_restricted_def)
  qed
  finally show "xd_override_used (evaluate_export_resource_policy resources ctx tables)
      \<longleftrightarrow> (\<exists>t \<in> set tables. table_restricted resources t)"
    using over by simp
qed

section \<open>The shared part of the two routes\<close>

lemma checked_export_Inr:
  assumes "checked_export xe rq run src st = Inr (tables, policy, v)"
  obtains sql where
    "qr_status run = ''succeeded''" "qr_executed_sql run = Some sql"
    "referenced_tables_for_export run = Inr tables"
    "policy = evaluate_export_resource_policy (xs_resources st) (rq_ctx rq) tables" "xd_allowed policy"
    "sv_valid (xe_validate xe sql)" "sort (sv_referenced_tables (xe_validate xe sql)) = tables"
    "v = restore_saved_bound (xe_validate xe sql) (qr_query_metadata run)"
proof -
  from assms obtain sql where "runnable_sql run = Some sql" "qr_status run = ''succeeded''"
      and tables: "referenced_tables_for_export run = Inr tables"
      and policy: "policy = evaluate_export_resource_policy (xs_resources st) (rq_ctx rq) tables" "xd_allowed policy"
      and v: "sv_valid (xe_validate xe sql)" "sort (sv_referenced_tables (xe_validate xe sql)) = tables"
        "v = restore_saved_bound (xe_validate xe sql) (qr_query_metadata run)"
    by (auto simp: checked_export_def Let_def result_bind_Inr_iff split: if_splits)
  moreover from this have "qr_executed_sql run = Some sql"
    by (auto simp: runnable_sql_def split: option.splits if_splits)
  ultimately show thesis using that by blast
qed

lemma export_refused_unchanged:
  "\<not> http_ok (fst (export_query_run_as_csv xe rq run p src st)) \<Longrightarrow>
     snd (export_query_run_as_csv xe rq run p src st) = st"
  by (auto simp: export_query_run_as_csv_def Let_def split: sum.splits)

text \<open>What a delivered export of one run is.\<close>

definition delivered_run ::
  "export_env \<Rightarrow> dash_request \<Rightarrow> query_run \<Rightarrow> export_payload \<Rightarrow> export_store \<Rightarrow> csv_response
     \<Rightarrow> export_audit \<Rightarrow> bool" where
  "delivered_run xe rq run p st r a \<longleftrightarrow>
     (\<exists>sql tables x.
        qr_status run = ''succeeded'' \<and> qr_executed_sql run = Some sql
        \<and> referenced_tables_for_export run = Inr tables
        \<and> sv_valid (xe_validate xe sql) \<and> sort (sv_referenced_tables (xe_validate xe sql)) = tables
        \<and> (\<forall>t \<in> set tables. table_exportable (xs_resources st) (rq_ctx rq) t)
        \<and> x = xe_execute xe (restore_saved_bound (xe_validate xe sql) (qr_query_metadata run))
        \<and> sx_status x = ''succeeded''
        \<and> rows_to_csv (sx_columns x) (sx_rows x) (ep_include_headers p) = Inr (cr_body r)
        \<and> ea_actor_user_id a = au_id (rq_user rq)
        \<and> jget (ea_metadata a) ''query_run_id'' = JStr (qr_id run)
        \<and> jget (ea_metadata a) ''export_policy_override''
            = JBool (\<exists>t \<in> set tables. table_restricted (xs_resources st) t))"

lemma delivered_export:
  assumes ok: "export_query_run_as_csv xe rq run p src st = (Success code r, st')"
    and src: "xo_metadata src = xo_metadata (query_run_source run p)
      \<or> xo_metadata src = xo_metadata (card_source dc q run p)"
  shows "\<exists>a. st' = st\<lparr>xs_audits := xs_audits st @ [a]\<rparr> \<and> delivered_run xe rq run p st r a"
    and "cr_filename r = delivered_filename (cr_delivery r) (xo_filename src)"
proof -
  from ok obtain tables policy v where ch: "checked_export xe rq run src st = Inr (tables, policy, v)"
    by (auto simp: export_query_run_as_csv_def split: sum.splits)
  let ?x = "xe_execute xe v"
  from ok ch have x: "sx_status ?x = ''succeeded''"
    by (auto simp: export_query_run_as_csv_def Let_def split: if_splits)
  with ok ch obtain body where
      body: "rows_to_csv (sx_columns ?x) (sx_rows ?x) (ep_include_headers p) = Inr body"
    by (auto simp: export_query_run_as_csv_def Let_def split: sum.splits)
  with ok ch x have r: "r = csv_response_of src body ?x"
      and st': "st' = st\<lparr>xs_audits := xs_audits st @ [export_audit_row xe rq src p tables policy r]\<rparr>"
    by (auto simp: export_query_run_as_csv_def Let_def split: if_splits)
  show "cr_filename r = delivered_filename (cr_delivery r) (xo_filename src)"
    by (simp add: r csv_response_of_def Let_def)
  from ch obtain sql where parts: "qr_status run = ''succeeded''" "qr_executed_sql run = Some sql"
      "referenced_tables_for_export run = Inr tables"
      and policy: "policy = evaluate_export_resource_policy (xs_resources st) (rq_ctx rq) tables"
        "xd_allowed policy"
      and sql: "sv_valid (xe_validate xe sql)" "sort (sv_referenced_tables (xe_validate xe sql)) = tables"
        "v = restore_saved_bound (xe_validate xe sql) (qr_query_metadata run)"
    by (rule checked_export_Inr)
  let ?a = "export_audit_row xe rq src p tables policy r"
  have "jget (ea_metadata ?a) ''query_run_id'' = JStr (qr_id run)"
    and over: "jget (ea_metadata ?a) ''export_policy_override'' = JBool (xd_override_used policy)"
    using src by (auto simp: export_audit_row_def query_run_source_def card_source_def)
  moreover have "cr_body r = body" by (simp add: r csv_response_of_def Let_def)
  moreover have "ea_actor_user_id ?a = au_id (rq_user rq)" by (simp add: export_audit_row_def)
  ultimately have "delivered_run xe rq run p st r ?a"
    unfolding delivered_run_def
    using parts sql x body policy export_policy_allowed [of "xs_resources st" "rq_ctx rq" tables]
    by (intro exI [of _ sql] exI [of _ tables] exI [of _ ?x]) simp
  with st' show "\<exists>a. st' = st\<lparr>xs_audits := xs_audits st @ [a]\<rparr> \<and> delivered_run xe rq run p st r a"
    by blast
qed

section \<open>The two routes\<close>

text \<open>The routes as one relation, with the run they export.\<close>

definition csv_export_answer ::
  "export_env \<Rightarrow> dash_request \<Rightarrow> uuid \<Rightarrow> json \<Rightarrow> export_store
     \<Rightarrow> csv_response http \<times> export_store \<Rightarrow> bool" where
  "csv_export_answer xe rq i payload st answer \<longleftrightarrow>
     answer = export_query_run_csv xe rq i payload st \<or> answer = export_card_csv xe rq i payload st"

text \<open>The caller owns the run, or sees a card whose latest run it is.\<close>

definition may_read_run :: "dash_store \<Rightarrow> dash_request \<Rightarrow> query_run \<Rightarrow> bool" where
  "may_read_run ds rq run \<longleftrightarrow>
     qr_user_id run = Some (au_id (rq_user rq))
     \<or> (\<exists>dc \<in> set (ds_cards ds). \<exists>d \<in> set (ds_dashboards ds).
          dc_dashboard_id dc = db_id d \<and> \<not> db_is_archived d
          \<and> dashboard_is_visible d (rq_user rq) (rq_ctx rq)
          \<and> qr_saved_query_id run \<noteq> None \<and> qr_saved_query_id run = dc_saved_query_id dc)"

lemma set_latest_runs_first [simp]: "set (latest_runs_first runs) = set runs"
  by (simp add: latest_runs_first_def)

lemma card_run:
  assumes "query_run_for_card_export runs dc = Some run"
  shows "run \<in> set runs" "qr_saved_query_id run = dc_saved_query_id dc" "dc_saved_query_id dc \<noteq> None"
proof -
  from assms obtain q where q: "dc_saved_query_id dc = Some q"
    by (auto simp: query_run_for_card_export_def split: option.splits)
  let ?own = "filter (\<lambda>r. qr_saved_query_id r = Some q \<and> qr_status r = ''succeeded'') runs"
  from assms q obtain rest where "latest_runs_first ?own = run # rest"
    by (simp add: query_run_for_card_export_def split: list.splits)
  then have "run \<in> set (latest_runs_first ?own)" by simp
  then have "run \<in> set ?own" by (simp only: set_latest_runs_first)
  then show "run \<in> set runs" "qr_saved_query_id run = dc_saved_query_id dc" "dc_saved_query_id dc \<noteq> None"
    using q by simp_all
qed

lemma query_run_answer:
  assumes "export_query_run_csv xe rq i payload st = (Success code r, st')"
  obtains p run where "rq_csrf_ok rq" "parse_export_payload payload = Inr p"
    "has_permission (rq_ctx rq) ''can_export_results''" "run \<in> set (ds_runs (xs_dash st))"
    "may_read_run (xs_dash st) rq run"
    "export_query_run_as_csv xe rq run p (query_run_source run p) st = (Success code r, st')"
proof -
  from assms have csrf: "rq_csrf_ok rq" by (auto simp: export_query_run_csv_def split: if_splits)
  with assms obtain p where p: "parse_export_payload payload = Inr p"
    by (auto simp: export_query_run_csv_def split: sum.splits)
  with assms csrf have perm: "has_permission (rq_ctx rq) ''can_export_results''"
    by (simp add: export_query_run_csv_def split: if_splits)
  with assms csrf p obtain run where run: "find_by qr_id i (ds_runs (xs_dash st)) = Some run"
    by (auto simp: export_query_run_csv_def split: option.splits)
  with assms csrf p perm have "qr_user_id run = Some (au_id (rq_user rq))"
      "export_query_run_as_csv xe rq run p (query_run_source run p) st = (Success code r, st')"
    by (simp_all add: export_query_run_csv_def split: if_splits)
  moreover have "run \<in> set (ds_runs (xs_dash st))" using run by (auto dest: find_by_SomeD)
  ultimately show thesis using csrf p perm by (intro that) (simp_all add: may_read_run_def)
qed

lemma card_answer:
  assumes "export_card_csv xe rq i payload st = (Success code r, st')"
  obtains p run dc q where "rq_csrf_ok rq" "parse_export_payload payload = Inr p"
    "has_permission (rq_ctx rq) ''can_export_results''" "run \<in> set (ds_runs (xs_dash st))"
    "may_read_run (xs_dash st) rq run" "dc \<in> set (ds_cards (xs_dash st))"
    "export_query_run_as_csv xe rq run p (card_source dc q run p) st = (Success code r, st')"
proof -
  from assms have csrf: "rq_csrf_ok rq" by (auto simp: export_card_csv_def split: if_splits)
  with assms obtain p where p: "parse_export_payload payload = Inr p"
    by (auto simp: export_card_csv_def split: sum.splits)
  with assms csrf have perm: "has_permission (rq_ctx rq) ''can_export_results''"
    by (simp add: export_card_csv_def split: if_splits)
  with assms csrf p obtain dc where dc: "card_by_id (xs_dash st) i = Some dc"
    by (auto simp: export_card_csv_def split: option.splits)
  with assms csrf p perm obtain d where d: "dashboard_by_id (xs_dash st) (dc_dashboard_id dc) = Some d"
    by (auto simp: export_card_csv_def split: option.splits)
  with assms csrf p perm dc have vis: "\<not> db_is_archived d" "dashboard_is_visible d (rq_user rq) (rq_ctx rq)"
    by (simp_all add: export_card_csv_def split: if_splits)
  with assms csrf p perm dc d obtain q where q: "dc_saved_query_id dc = Some q"
    by (auto simp: export_card_csv_def split: option.splits)
  with assms csrf p perm dc d vis obtain run where
      run: "query_run_for_card_export (ds_runs (xs_dash st)) dc = Some run"
    by (auto simp: export_card_csv_def split: option.splits if_splits)
  have ans: "export_query_run_as_csv xe rq run p (card_source dc q run p) st = (Success code r, st')"
    using assms csrf p perm dc d vis q run by (simp add: export_card_csv_def split: if_splits)
  have rows: "dc \<in> set (ds_cards (xs_dash st))" "d \<in> set (ds_dashboards (xs_dash st))"
      "db_id d = dc_dashboard_id dc"
    using dc d by (auto simp: card_by_id_def dashboard_by_id_def dest: find_by_SomeD)
  have "may_read_run (xs_dash st) rq run"
    unfolding may_read_run_def using rows vis card_run(2,3) [OF run]
    by (intro disjI2 bexI [of _ dc] bexI [of _ d]) simp_all
  with csrf p perm card_run(1) [OF run] rows(1) ans show thesis by (intro that)
qed

lemma routes_refused_unchanged:
  "\<not> http_ok (fst (export_query_run_csv xe rq i payload st)) \<Longrightarrow>
     snd (export_query_run_csv xe rq i payload st) = st"
  "\<not> http_ok (fst (export_card_csv xe rq i payload st)) \<Longrightarrow>
     snd (export_card_csv xe rq i payload st) = st"
  by (auto simp: export_query_run_csv_def export_card_csv_def
      intro: export_refused_unchanged split: sum.splits option.splits)

text \<open>
  C23: an export by either route is delivered only to a caller with a valid CSRF token and the
  export permission, who owns the run or sees a card it belongs to. The run succeeded, the SQL
  was validated again and names exactly the recorded tables, each table is registered and
  exportable, or restricted and the caller holds the override permission; the body is the
  result of that SQL, and exactly one audit row is added, with the caller, the run, and
  whether the override was used. An export that is not delivered writes nothing.
\<close>

theorem csv_export_is_authorized:
  assumes "csv_export_answer xe rq i payload st answer"
  shows "case answer of
      (Success _ r, st') \<Rightarrow>
        rq_csrf_ok rq \<and> has_permission (rq_ctx rq) ''can_export_results''
        \<and> (\<exists>p run a. parse_export_payload payload = Inr p \<and> run \<in> set (ds_runs (xs_dash st))
             \<and> may_read_run (xs_dash st) rq run \<and> delivered_run xe rq run p st r a
             \<and> st' = st\<lparr>xs_audits := xs_audits st @ [a]\<rparr>)
    | (_, st') \<Rightarrow> st' = st"
proof (cases "http_ok (fst answer)")
  case False
  with assms have "snd answer = st"
    unfolding csv_export_answer_def using routes_refused_unchanged by blast
  with False show ?thesis by (cases answer) (auto split: http.splits)
next
  case True
  then obtain code r st' where ans: "answer = (Success code r, st')"
    by (cases answer; cases "fst answer") auto
  from assms consider "export_query_run_csv xe rq i payload st = (Success code r, st')"
    | "export_card_csv xe rq i payload st = (Success code r, st')"
    unfolding csv_export_answer_def ans by metis
  then show ?thesis
  proof cases
    case 1
    then show ?thesis
      by (rule query_run_answer) (use delivered_export(1) in \<open>simp add: ans; blast\<close>)
  next
    case 2
    then show ?thesis
      by (rule card_answer) (use delivered_export(1) in \<open>simp add: ans; blast\<close>)
  qed
qed

section \<open>The name of the file\<close>

definition filename_char :: "char \<Rightarrow> bool" where
  "filename_char c \<longleftrightarrow>
     printable_ascii c \<and> c \<noteq> CHR ''/'' \<and> c \<noteq> CHR 0x5C \<and> c \<noteq> CHR 0x22 \<and> c \<noteq> CHR '';''"

definition header_safe :: "string \<Rightarrow> bool" where
  "header_safe s \<longleftrightarrow> length s \<le> 255 \<and> list_all filename_char s \<and> ends_with_csv s"

lemma list_all_part: "list_all P xs \<Longrightarrow> list_all P (take n (drop m xs))"
  by (auto simp: list_all_iff dest: in_set_takeD in_set_dropD)

lemma uuid_chars:
  assumes "is_uuid u"
  shows "length u = 36" and "list_all filename_char u"
proof -
  from assms obtain n where u: "u = uuid_text n"
    by (auto simp: is_uuid_def parse_uuid_def Let_def split: if_splits option.splits)
  have "\<forall>m \<in> set [0..<16]. filename_char (hex_char m)" by code_simp
  then have "filename_char (hex_char (m mod 16))" for m by simp
  then have h: "list_all filename_char (hex_text k m)" for k m
    by (induction k arbitrary: m) simp_all
  have "filename_char CHR ''-''" by code_simp
  then show "list_all filename_char u"
    using list_all_part [OF h, of _ 0] list_all_part [OF h] list_all_part [OF h, of 32 20 32 n]
    by (simp add: u uuid_text_def dashed_def)
  show "length u = 36" by (simp add: u uuid_text_def dashed_def)
qed

lemma ends_with_csv_append: "ends_with_csv (s @ ''.csv'')"
proof -
  have "py_lower (s @ ''.csv'') = py_lower s @ ''.csv''"
    by (simp add: py_lower_def py_lower_char_def)
  moreover have "length (py_lower s) = length s" by (simp add: py_lower_def)
  ultimately show ?thesis by (simp add: ends_with_csv_def)
qed

lemma export_filename_chars:
  assumes "export_filename v = Some f"
  shows "f \<noteq> []" and "list_all filename_char f"
    and "(if ends_with_csv f then length f else length f + 4) \<le> 255"
  using assms
  by (auto simp: export_filename_def filename_char_def list_all_iff Let_def
      MAX_EXPORT_FILENAME_LENGTH_def split: json.splits if_splits)

lemma parsed_filename:
  assumes "parse_export_payload payload = Inr p" "ep_filename p = Some f"
  shows "\<exists>v. export_filename v = Some f"
  using assms
  by (auto simp: parse_export_payload_def Let_def result_bind_Inr_iff split: if_splits)

lemma csv_filename_safe:
  assumes p: "parse_export_payload payload = Inr p"
    and i: "is_uuid i" and pre: "list_all filename_char pre" "length pre \<le> 100"
  shows "header_safe (csv_filename pre i (ep_filename p))"
proof -
  have csv: "list_all filename_char ''.csv''" by code_simp
  show ?thesis
  proof (cases "ep_filename p")
    case None
    then show ?thesis
      using uuid_chars [OF i] pre csv ends_with_csv_append [of "pre @ i"]
      by (simp add: csv_filename_def Let_def str_or_def header_safe_def ends_with_csv_append)
  next
    case (Some f)
    with parsed_filename [OF p] obtain v where "export_filename v = Some f" by blast
    from export_filename_chars [OF this] Some csv show ?thesis
      by (simp add: csv_filename_def Let_def str_or_def header_safe_def ends_with_csv_append
          split: if_splits)
  qed
qed

lemma delivered_filename_safe:
  assumes "header_safe f"
  shows "header_safe (delivered_filename delivery f)"
proof (cases "delivery_suffix delivery = []")
  case True
  with assms show ?thesis by (simp add: delivered_filename_def Let_def)
next
  case False
  let ?s = "delivery_suffix delivery"
  let ?b = "take (255 - length ?s - 4) (take (length f - 4) f)"
  have "list_all filename_char ''-partial''" "list_all filename_char ''-completeness-unknown''"
      "list_all filename_char ''.csv''" by code_simp+
  then have "list_all filename_char (?s @ ''.csv'')" "length ?s \<le> 21"
    by (auto simp: delivery_suffix_def)
  moreover have "list_all filename_char ?b"
    using assms by (auto simp: header_safe_def list_all_iff dest: in_set_takeD)
  moreover have "length ?b \<le> 255 - length ?s - 4" by simp
  moreover have "delivered_filename delivery f = (?b @ ?s) @ ''.csv''"
    using False by (simp add: delivered_filename_def Let_def)
  ultimately show ?thesis by (simp add: header_safe_def ends_with_csv_append del: append_assoc)
qed

lemma delivered_name:
  "export_query_run_as_csv xe rq run p src st = (Success code r, st') \<Longrightarrow>
     cr_filename r = delivered_filename (cr_delivery r) (xo_filename src)"
  by (auto simp: export_query_run_as_csv_def Let_def csv_response_of_def
      split: sum.splits if_splits)

text \<open>
  The file name that an export puts between quotes into its \<open>Content-Disposition\<close> header,
  whatever name the request asks for, has at most 255 printable characters, without a quote, a
  semicolon or a path separator, and ends in \<open>.csv\<close>.
\<close>

theorem export_filename_is_safe:
  assumes "csv_export_answer xe rq i payload st (Success code r, st')"
    and "list_all (\<lambda>run. is_uuid (qr_id run)) (ds_runs (xs_dash st))"
    and "list_all (\<lambda>dc. is_uuid (dc_id dc)) (ds_cards (xs_dash st))"
  shows "header_safe (cr_filename r)"
proof -
  from assms(1) consider "export_query_run_csv xe rq i payload st = (Success code r, st')"
    | "export_card_csv xe rq i payload st = (Success code r, st')"
    unfolding csv_export_answer_def by metis
  then show ?thesis
  proof cases
    case 1
    then show ?thesis
    proof (rule query_run_answer)
      fix p run
      assume p: "parse_export_payload payload = Inr p" and run: "run \<in> set (ds_runs (xs_dash st))"
        and ans: "export_query_run_as_csv xe rq run p (query_run_source run p) st = (Success code r, st')"
      have "is_uuid (qr_id run)" using assms(2) run by (simp add: list_all_iff)
      moreover have "list_all filename_char ''query-run-''" by code_simp
      ultimately have "header_safe (xo_filename (query_run_source run p))"
        using csv_filename_safe [OF p] by (simp add: query_run_source_def query_run_csv_filename_def)
      then show ?thesis using delivered_name [OF ans] by (simp add: delivered_filename_safe)
    qed
  next
    case 2
    then show ?thesis
    proof (rule card_answer)
      fix p run dc q
      assume p: "parse_export_payload payload = Inr p" and dc: "dc \<in> set (ds_cards (xs_dash st))"
        and ans: "export_query_run_as_csv xe rq run p (card_source dc q run p) st = (Success code r, st')"
      have "is_uuid (dc_id dc)" using assms(3) dc by (simp add: list_all_iff)
      moreover have "list_all filename_char ''card-''" by code_simp
      ultimately have "header_safe (xo_filename (card_source dc q run p))"
        using csv_filename_safe [OF p] by (simp add: card_source_def card_csv_filename_def)
      then show ?thesis using delivered_name [OF ans] by (simp add: delivered_filename_safe)
    qed
  qed
qed

section \<open>A worked example\<close>

definition export_example_user :: app_user where
  "export_example_user =
     \<lparr>au_id = ''ann'', au_role_id = None, au_status = ''active'', au_auth_provider = ''demo'',
      au_full_name = ''Ann'', au_email = ''ann@example.org'', au_department_id = None\<rparr>"

definition export_example_call :: dash_request where
  "export_example_call =
     \<lparr>rq_user = export_example_user,
      rq_ctx = \<lparr>uc_user_id = ''ann'', uc_role = None, uc_permissions = {''can_export_results''},
        uc_scopes = [], uc_default_scope = None, uc_has_global_scope = False,
        uc_subject_attributes = \<lparr>sa_role = None, sa_permissions = [''can_export_results''],
          sa_scope_types = [], sa_has_global_scope = False, sa_auth_provider = ''demo''\<rparr>\<rparr>,
      rq_csrf_ok = True, rq_now = 0, rq_db_now = 0, rq_new_id = (\<lambda>_. ''n''), rq_commit_ok = True\<rparr>"

definition export_example_id :: uuid where
  "export_example_id = ''00000000-0000-0000-0000-00000000000a''"

definition export_example_store :: export_store where
  "export_example_store =
     \<lparr>xs_dash = \<lparr>ds_dashboards = [], ds_cards = [],
        ds_runs = [\<lparr>qr_id = export_example_id, qr_user_id = Some ''ann'', qr_saved_query_id = None,
          qr_status = ''succeeded'', qr_natural_language_question = None, qr_generated_sql = None,
          qr_executed_sql = Some ''SELECT 1'',
          qr_query_metadata = JDict [(''referenced_tables'', JList [JStr '' Tickets ''])],
          qr_created_at = 0, qr_completed_at = None\<rparr>],
        ds_saved = []\<rparr>,
      xs_resources = [\<lparr>dr_id = ''r'', dr_resource_type = ''table'', dr_domain = ''it_operations'',
        dr_schema_name = None, dr_table_name = ''tickets'', dr_column_name = None,
        dr_display_name = ''Tickets'', dr_sensitivity_level = ''low'', dr_scope_type = None,
        dr_scope_column = None, dr_is_queryable = True, dr_is_exportable = True,
        dr_llm_exposure_level = ''none''\<rparr>],
      xs_audits = []\<rparr>"

definition export_example_env :: export_env where
  "export_example_env =
     \<lparr>xe_validate = (\<lambda>sql. \<lparr>sv_valid = True, sv_sanitized_sql = Some sql,
        sv_referenced_tables = [''tickets''], sv_error_code = None, sv_input_limit = None,
        sv_effective_limit = None, sv_limit_source = None\<rparr>),
      xe_execute = (\<lambda>v. \<lparr>sx_status = ''succeeded'', sx_columns = [''name''],
        sx_rows = [[(''name'', CellStr ''=A1'')]], sx_row_count = 1,
        sx_execution_metadata = JDict [], sx_error_code = None\<rparr>),
      xe_ip_address = None, xe_user_agent = None\<rparr>"

definition export_example_payload :: json where
  "export_example_payload = JDict [(''filename'', JStr '' report ''), (''include_headers'', JBool True)]"

definition export_example_answer :: "csv_response http \<times> export_store" where
  "export_example_answer =
     export_query_run_csv export_example_env export_example_call export_example_id
       export_example_payload export_example_store"

lemma export_example_response:
  "fst export_example_answer =
     Success 200 \<lparr>cr_body = ''name'' @ [CHR 0x0A, CHR 0x27] @ ''=A1'' @ [CHR 0x0A],
       cr_filename = ''report-completeness-unknown.csv'', cr_delivery = ''unknown'', cr_row_count = 1\<rparr>"
  by code_simp

lemma export_example_is_answer:
  "csv_export_answer export_example_env export_example_call export_example_id
     export_example_payload export_example_store export_example_answer"
  by (simp add: csv_export_answer_def export_example_answer_def)

lemma csv_export_is_authorized_witness:
  "\<exists>a. snd export_example_answer
     = export_example_store\<lparr>xs_audits := xs_audits export_example_store @ [a]\<rparr>"
proof -
  obtain r where "fst export_example_answer = Success 200 r"
    using export_example_response by blast
  then obtain st' where e: "export_example_answer = (Success 200 r, st')"
    by (metis prod.collapse)
  from csv_export_is_authorized [OF export_example_is_answer] show ?thesis
    unfolding e by auto
qed

lemma export_filename_is_safe_witness: "header_safe ''report-completeness-unknown.csv''"
proof -
  have uuid: "is_uuid export_example_id" by code_simp
  have answer: "csv_export_answer export_example_env export_example_call export_example_id
      export_example_payload export_example_store
      (Success 200 \<lparr>cr_body = ''name'' @ [CHR 0x0A, CHR 0x27] @ ''=A1'' @ [CHR 0x0A],
         cr_filename = ''report-completeness-unknown.csv'', cr_delivery = ''unknown'', cr_row_count = 1\<rparr>,
       snd export_example_answer)"
    using export_example_is_answer unfolding export_example_response [symmetric] by simp
  have "list_all (\<lambda>run. is_uuid (qr_id run)) (ds_runs (xs_dash export_example_store))"
      "list_all (\<lambda>dc. is_uuid (dc_id dc)) (ds_cards (xs_dash export_example_store))"
    by (simp_all add: export_example_store_def uuid)
  from export_filename_is_safe [OF answer this] show ?thesis by simp
qed

end
