(* ===== verification/Semantic_Catalog.thy ===== *)
theory Semantic_Catalog
  imports Json
begin

text \<open>
  The semantic catalog of a domain pack (\<open>query_engine/semantic_catalog.py\<close>,
  \<open>query_engine/domain_pack.py\<close>, \<open>query_engine/result_intent.py\<close>): entities with their tables,
  relationships between them, business concepts with the predicates they stand for, metrics and
  composition rules; and the transitive expansion of concepts.

  The authorization guidance, the restricted tables and the examples of a catalog are only
  shown to the planner; they are left out, as are display names.
\<close>

section \<open>Values\<close>

text \<open>
  A scalar of Python; \<open>SInf\<close> is an infinite float, with \<open>True\<close> for the positive one, and \<open>SNaN\<close>
  the undefined one. Python compares and hashes \<open>True\<close>, \<open>1\<close> and \<open>1.0\<close> alike: two scalars are
  equal when their keys are, except that \<open>nan\<close> is not equal to itself.
\<close>

datatype scalar = SStr string | SInt int | SFloat rat | SInf bool | SNaN | SBool bool

datatype scalar_key = KStr string | KNum rat | KInf bool | KNaN

fun key_of_scalar :: "scalar \<Rightarrow> scalar_key" where
  "key_of_scalar (SStr s) = KStr s"
| "key_of_scalar (SInt i) = KNum (of_int i)"
| "key_of_scalar (SFloat r) = KNum r"
| "key_of_scalar (SInf positive) = KInf positive"
| "key_of_scalar SNaN = KNaN"
| "key_of_scalar (SBool b) = KNum (if b then 1 else 0)"

fun is_finite :: "scalar \<Rightarrow> bool" where
  "is_finite (SInf _) = False"
| "is_finite SNaN = False"
| "is_finite _ = True"

datatype sem_value = One scalar | Many "scalar list"

definition scalar_keys :: "scalar list \<Rightarrow> scalar_key set" where
  "scalar_keys vs = key_of_scalar ` set vs"

section \<open>The catalog\<close>

datatype predicate_operator =
  OpEquals | OpIn | OpIsNullOrOlderThanDays | OpOlderThanDays | OpWithinLastDays

datatype cardinality = ManyToOne | OneToOne

record known_values =
  kv_column :: string
  kv_values :: "scalar list"

record semantic_entity =
  en_id :: string
  en_table :: string
  en_references :: "string list"
  en_known_values :: "known_values list"

record semantic_relationship =
  rl_id :: string
  rl_from_entity :: string
  rl_from_column :: string
  rl_to_entity :: string
  rl_to_column :: string
  rl_cardinality :: cardinality
  rl_optional :: bool

record semantic_predicate =
  sp_column :: string
  sp_operator :: predicate_operator
  sp_value :: sem_value

record semantic_concept =
  cn_id :: string
  cn_entity_id :: string
  cn_references :: "string list"
  cn_required_predicates :: "semantic_predicate list"
  cn_all_of_concept_ids :: "string list"
  cn_supersedes :: "string list"

datatype aggregation_function = AgCount | AgSum

record semantic_metric =
  mt_id :: string
  mt_entity_id :: string
  mt_references :: "string list"
  mt_required_concept_ids :: "string list"
  mt_aggregation_function :: aggregation_function

record composition_rule =
  ru_id :: string
  ru_references :: "string list"
  ru_all_of_concept_ids :: "string list"
  ru_or_concept_ids :: "string list"

record semantic_catalog =
  ca_entities :: "semantic_entity list"
  ca_relationships :: "semantic_relationship list"
  ca_concepts :: "semantic_concept list"
  ca_metrics :: "semantic_metric list"
  ca_rules :: "composition_rule list"

text \<open>A dictionary comprehension over rows: of two rows with one key the last one is kept.\<close>

definition dict_get :: "('r \<Rightarrow> 'k) \<Rightarrow> 'k \<Rightarrow> 'r list \<Rightarrow> 'r option" where
  "dict_get key k rows = find_by key k (rev rows)"

lemma dict_get_SomeD: "dict_get key k rows = Some r \<Longrightarrow> r \<in> set rows \<and> key r = k"
  unfolding dict_get_def by (drule find_by_SomeD) simp

lemma dict_get_None: "dict_get key k rows = None \<longleftrightarrow> k \<notin> key ` set rows"
  by (simp add: dict_get_def find_by_None)

lemma pred_option_code [code]:
  "pred_option p None = True" "pred_option p (Some x) = p x"
  by simp_all

abbreviation entity_of :: "semantic_catalog \<Rightarrow> string \<Rightarrow> semantic_entity option" where
  "entity_of cat i \<equiv> dict_get en_id i (ca_entities cat)"

abbreviation concept_of :: "semantic_catalog \<Rightarrow> string \<Rightarrow> semantic_concept option" where
  "concept_of cat i \<equiv> dict_get cn_id i (ca_concepts cat)"

abbreviation metric_of :: "semantic_catalog \<Rightarrow> string \<Rightarrow> semantic_metric option" where
  "metric_of cat i \<equiv> dict_get mt_id i (ca_metrics cat)"

abbreviation rule_of :: "semantic_catalog \<Rightarrow> string \<Rightarrow> composition_rule option" where
  "rule_of cat i \<equiv> dict_get ru_id i (ca_rules cat)"

abbreviation relationship_of :: "semantic_catalog \<Rightarrow> string \<Rightarrow> semantic_relationship option" where
  "relationship_of cat i \<equiv> dict_get rl_id i (ca_relationships cat)"

section \<open>The domain pack\<close>

record domain_column =
  dm_name :: string
  dm_data_type :: string
  dm_nullable :: bool

record domain_table =
  dt_name :: string
  dt_columns :: "domain_column list"

record domain_pack =
  pk_tables :: "domain_table list"
  pk_catalog :: semantic_catalog

definition pack_column :: "domain_pack \<Rightarrow> string \<Rightarrow> string \<Rightarrow> domain_column option" where
  "pack_column pack table column =
     (case dict_get dt_name table (pk_tables pack) of
        None \<Rightarrow> None | Some t \<Rightarrow> dict_get dm_name column (dt_columns t))"

section \<open>Grounded result intents\<close>

record grounded_field =
  gf_table :: string
  gf_column :: string

datatype grain_mode = GrainDetail | GrainGrouped

record grounded_grain =
  gg_mode :: grain_mode
  gg_identity_fields :: "grounded_field list"

record grounded_aggregation =
  ga_id :: string
  ga_function :: aggregation_function
  ga_target_field :: "grounded_field option"
  ga_distinct :: bool

datatype comparison = CmpEquals | CmpGreater | CmpGreaterEqual | CmpLess | CmpLessEqual

record grounded_having =
  gh_aggregation_id :: string
  gh_operator :: comparison
  gh_value :: scalar

record grounded_intent =
  gi_row_grain :: "grounded_grain option"
  gi_required_output_fields :: "grounded_field list"
  gi_aggregations :: "grounded_aggregation list"
  gi_group_by :: "grounded_field list"
  gi_having :: "grounded_having list"
  gi_distinct :: "bool option"

section \<open>Expanding concepts\<close>

definition open_concepts :: "semantic_catalog \<Rightarrow> string list \<Rightarrow> nat" where
  "open_concepts cat expanded = card (cn_id ` set (ca_concepts cat) - set expanded)"

lemma open_concepts_less:
  assumes "concept_of cat c = Some concept" "c \<notin> set expanded"
  shows "open_concepts cat (c # expanded) < open_concepts cat expanded"
proof -
  have "c \<in> cn_id ` set (ca_concepts cat)" using dict_get_SomeD [OF assms(1)] by auto
  with assms(2) show ?thesis
    unfolding open_concepts_def by (intro psubset_card_mono) auto
qed

text \<open>
  \<open>expand\<close> with the calls that are still to come as an explicit list: a call on a known,
  not yet expanded concept adds it and then makes the calls for its components. \<open>None\<close> is
  the \<open>DomainPackValidationError\<close> of an unknown concept.
\<close>

function expand_calls :: "semantic_catalog \<Rightarrow> string list \<Rightarrow> string list \<Rightarrow> string list option" where
  "expand_calls cat [] expanded = Some expanded"
| "expand_calls cat (c # calls) expanded =
     (case concept_of cat c of
        None \<Rightarrow> None
      | Some concept \<Rightarrow>
          if c \<in> set expanded then expand_calls cat calls expanded
          else expand_calls cat (cn_all_of_concept_ids concept @ calls) (c # expanded))"
  by pat_completeness auto

termination
  by (relation "measures [\<lambda>(cat, calls, expanded). open_concepts cat expanded,
                          \<lambda>(cat, calls, expanded). length calls]")
    (auto simp: open_concepts_less)

definition expand_semantic_concept_ids :: "semantic_catalog \<Rightarrow> string list \<Rightarrow> string list option" where
  "expand_semantic_concept_ids cat ids = map_option sorted_set (expand_calls cat (sorted_set ids) [])"

text \<open>The reference: the components a concept reaches.\<close>

definition component :: "semantic_catalog \<Rightarrow> (string \<times> string) set" where
  "component cat =
     {(c, d). \<exists>concept. concept_of cat c = Some concept \<and> d \<in> set (cn_all_of_concept_ids concept)}"

definition reached :: "semantic_catalog \<Rightarrow> string set \<Rightarrow> string set" where
  "reached cat ids = (component cat)\<^sup>* `` ids"

lemma expand_calls_sound:
  assumes "expand_calls cat calls expanded = Some ys"
  shows "set expanded \<subseteq> set ys" and "set ys \<subseteq> set expanded \<union> reached cat (set calls)"
  using assms
proof (induction cat calls expanded arbitrary: ys rule: expand_calls.induct)
  case (2 cat c calls expanded)
  {
    case 1
    with 2 show ?case by (auto split: option.splits if_splits)
  next
    case 2
    obtain concept where con: "concept_of cat c = Some concept"
      using 2 by (auto split: option.splits)
    show ?case
    proof (cases "c \<in> set expanded")
      case True
      with 2 con "2.IH"(2) [OF con True] show ?thesis by (auto simp: reached_def)
    next
      case False
      have step: "reached cat (set (cn_all_of_concept_ids concept)) \<subseteq> reached cat {c}"
        using con by (auto simp: reached_def component_def intro: converse_rtrancl_into_rtrancl)
      have "set ys \<subseteq> set (c # expanded) \<union> reached cat (set (cn_all_of_concept_ids concept @ calls))"
        using 2 con False "2.IH"(4) [OF con False] by simp
      also have "\<dots> \<subseteq> set expanded \<union> reached cat (set (c # calls))"
        using step by (auto simp: reached_def Image_Un)
      finally show ?thesis .
    qed
  }
qed auto

text \<open>Everything called is expanded, and with it its components.\<close>

definition components_in :: "semantic_catalog \<Rightarrow> string set \<Rightarrow> string set \<Rightarrow> bool" where
  "components_in cat S T \<longleftrightarrow> (\<forall>c d. c \<in> S \<longrightarrow> (c, d) \<in> component cat \<longrightarrow> d \<in> T)"

lemma expand_calls_closed:
  assumes "expand_calls cat calls expanded = Some ys"
    and "components_in cat (set expanded) (set expanded \<union> set calls)"
  shows "set calls \<subseteq> set ys \<and> components_in cat (set ys) (set ys)"
  using assms
proof (induction cat calls expanded arbitrary: ys rule: expand_calls.induct)
  case (2 cat c calls expanded)
  obtain concept where con: "concept_of cat c = Some concept"
    using 2 by (auto split: option.splits)
  show ?case
  proof (cases "c \<in> set expanded")
    case True
    have "components_in cat (set expanded) (set expanded \<union> set calls)"
      using 2(4) True by (auto simp: components_in_def)
    then have "set calls \<subseteq> set ys \<and> components_in cat (set ys) (set ys)"
      using 2(1) [OF con True] 2(3) con True by simp
    moreover have "c \<in> set ys" using expand_calls_sound(1) [of cat calls expanded ys] 2(3) con True by auto
    ultimately show ?thesis by simp
  next
    case False
    have calls: "expand_calls cat (cn_all_of_concept_ids concept @ calls) (c # expanded) = Some ys"
      using 2(3) con False by simp
    have "components_in cat (set (c # expanded))
        (set (c # expanded) \<union> set (cn_all_of_concept_ids concept @ calls))"
      using 2(4) con by (auto simp: components_in_def component_def)
    then have "set (cn_all_of_concept_ids concept @ calls) \<subseteq> set ys \<and> components_in cat (set ys) (set ys)"
      using 2(2) [OF con False calls] by simp
    moreover have "c \<in> set ys" using expand_calls_sound(1) [OF calls] by simp
    ultimately show ?thesis by simp
  qed
qed auto

lemma expand_calls_known:
  assumes "expand_calls cat calls expanded = Some ys" "\<forall>c \<in> set expanded. concept_of cat c \<noteq> None"
  shows "\<forall>c \<in> set ys. concept_of cat c \<noteq> None"
  using assms
  by (induction cat calls expanded arbitrary: ys rule: expand_calls.induct)
    (auto split: option.splits if_splits)

lemma expand_calls_fails:
  assumes "expand_calls cat calls expanded = None"
  shows "\<exists>c \<in> reached cat (set calls). concept_of cat c = None"
  using assms
proof (induction cat calls expanded rule: expand_calls.induct)
  case (2 cat c calls expanded)
  show ?case
  proof (cases "concept_of cat c")
    case None
    then show ?thesis by (auto simp: reached_def)
  next
    case con: (Some concept)
    show ?thesis
    proof (cases "c \<in> set expanded")
      case True
      with 2(1) [OF con True] 2(3) con show ?thesis by (auto simp: reached_def)
    next
      case False
      have "reached cat (set (cn_all_of_concept_ids concept @ calls)) \<subseteq> reached cat (set (c # calls))"
        using con by (auto simp: reached_def component_def intro: converse_rtrancl_into_rtrancl)
      with 2(2) [OF con False] 2(3) con False show ?thesis by auto
    qed
  qed
qed simp

lemma reached_least:
  assumes "ids \<subseteq> T" "components_in cat T T"
  shows "reached cat ids \<subseteq> T"
proof
  fix d assume "d \<in> reached cat ids"
  then obtain c where "c \<in> ids" "(c, d) \<in> (component cat)\<^sup>*" by (auto simp: reached_def)
  from this(2,1) assms show "d \<in> T"
    by (induction rule: rtrancl_induct) (auto simp: components_in_def)
qed

text \<open>
  C37: expanding concepts returns, on every catalog, cyclic ones included: it fails exactly when
  the given ids reach an unknown concept, and otherwise returns, sorted and once each, exactly
  the concepts that the given ids reach through \<open>all_of_concept_ids\<close>.
\<close>

theorem concept_expansion_is_closure:
  "case expand_semantic_concept_ids cat ids of
     None \<Rightarrow> \<exists>c \<in> reached cat (set ids). concept_of cat c = None
   | Some ys \<Rightarrow> set ys = reached cat (set ids) \<and> sorted ys \<and> distinct ys
       \<and> list_all (\<lambda>c. concept_of cat c \<noteq> None) ys"
proof (cases "expand_calls cat (sorted_set ids) []")
  case None
  then show ?thesis
    using expand_calls_fails [OF None] by (simp add: expand_semantic_concept_ids_def)
next
  case (Some ys)
  have sub: "set ys \<subseteq> reached cat (set ids)" using expand_calls_sound(2) [OF Some] by simp
  have "set (sorted_set ids) \<subseteq> set ys \<and> components_in cat (set ys) (set ys)"
    by (rule expand_calls_closed [OF Some]) (simp add: components_in_def)
  then have "reached cat (set ids) \<subseteq> set ys" by (intro reached_least) simp_all
  moreover have "\<forall>c \<in> set ys. concept_of cat c \<noteq> None"
    by (rule expand_calls_known [OF Some]) simp
  ultimately show ?thesis
    using sub by (simp add: expand_semantic_concept_ids_def Some list_all_iff)
qed

end
