(* ===== verification/Semantic_Plan.thy ===== *)
theory Semantic_Plan
  imports Semantic_Catalog
begin

text \<open>
  Semantic plans and the check of their relationships (\<open>query_engine/semantic_plan.py\<close>,
  \<open>query_engine/relational_semantics.py\<close>): the plan a language model proposes, the union-find
  and the search that decide whether the chosen relationships join the chosen entities as a
  tree, and the join order of the renderer.

  The reason of a rejected plan is its text; the observation attached to some of the reasons
  is not modelled. A missing key of a dictionary raises \<open>KeyError\<close>.
\<close>

section \<open>Plans\<close>

record field_ref =
  fr_entity_id :: string
  fr_column :: string

datatype literal_operator = LfEquals | LfNotEquals | LfIn | LfNotIn

record literal_filter =
  lf_field :: field_ref
  lf_operator :: literal_operator
  lf_value :: sem_value

datatype join_type = JoinInner | JoinLeft | JoinLeftReverse

record relationship_intent =
  ri_relationship_id :: string
  ri_join_type :: join_type

record aggregation_intent =
  ai_id :: string
  ai_function :: aggregation_function
  ai_field :: "field_ref option"
  ai_distinct :: bool

record having_intent =
  hv_aggregation_id :: string
  hv_operator :: comparison
  hv_value :: scalar

datatype order_target = TargetField | TargetAggregation

datatype order_direction = Ascending | Descending

record order_intent =
  oi_target_kind :: order_target
  oi_field :: "field_ref option"
  oi_aggregation_id :: "string option"
  oi_direction :: order_direction

record semantic_plan =
  pl_entity_ids :: "string list"
  pl_concept_ids :: "string list"
  pl_rule_ids :: "string list"
  pl_metric_id :: "string option"
  pl_distinct :: bool
  pl_literal_filters :: "literal_filter list"
  pl_relationships :: "relationship_intent list"
  pl_output_fields :: "field_ref list"
  pl_aggregations :: "aggregation_intent list"
  pl_group_by :: "field_ref list"
  pl_having :: "having_intent list"
  pl_order_by :: "order_intent list"
  pl_limit :: "int option"

definition has_output_intent :: "semantic_plan \<Rightarrow> bool" where
  "has_output_intent plan \<longleftrightarrow>
     pl_metric_id plan \<noteq> None \<or> pl_output_fields plan \<noteq> [] \<or> pl_aggregations plan \<noteq> []"

definition field_key :: "field_ref \<Rightarrow> string \<times> string" where
  "field_key f = (fr_entity_id f, fr_column f)"

subsection \<open>What the model validators accept\<close>

definition MAX_PLAN_ITEMS :: nat where "MAX_PLAN_ITEMS = 64"

definition plan_identifier :: "string \<Rightarrow> bool" where
  "plan_identifier s \<longleftrightarrow> is_identifier s \<and> length s \<le> 128"

definition valid_field_ref :: "field_ref \<Rightarrow> bool" where
  "valid_field_ref f \<longleftrightarrow> plan_identifier (fr_entity_id f) \<and> plan_identifier (fr_column f)"

definition valid_literal_filter :: "literal_filter \<Rightarrow> bool" where
  "valid_literal_filter f \<longleftrightarrow> valid_field_ref (lf_field f) \<and>
     (case lf_value f of
        Many vs \<Rightarrow> lf_operator f \<in> {LfIn, LfNotIn} \<and> vs \<noteq> []
      | One v \<Rightarrow> lf_operator f \<in> {LfEquals, LfNotEquals})"

definition valid_aggregation :: "aggregation_intent \<Rightarrow> bool" where
  "valid_aggregation a \<longleftrightarrow> plan_identifier (ai_id a) \<and> pred_option valid_field_ref (ai_field a)
     \<and> (ai_function a = AgSum \<longrightarrow> ai_field a \<noteq> None)"

definition valid_having :: "having_intent \<Rightarrow> bool" where
  "valid_having h \<longleftrightarrow> plan_identifier (hv_aggregation_id h) \<and>
     (case hv_value h of SInt _ \<Rightarrow> True | SFloat _ \<Rightarrow> True | _ \<Rightarrow> False)"

definition valid_order :: "order_intent \<Rightarrow> bool" where
  "valid_order i \<longleftrightarrow> pred_option valid_field_ref (oi_field i)
     \<and> pred_option plan_identifier (oi_aggregation_id i)
     \<and> (case oi_target_kind i of
          TargetField \<Rightarrow> oi_field i \<noteq> None \<and> oi_aggregation_id i = None
        | TargetAggregation \<Rightarrow> oi_field i = None \<and> oi_aggregation_id i \<noteq> None)"

definition valid_plan :: "semantic_plan \<Rightarrow> bool" where
  "valid_plan plan \<longleftrightarrow>
     list_all plan_identifier (pl_entity_ids plan) \<and> list_all plan_identifier (pl_concept_ids plan)
     \<and> list_all plan_identifier (pl_rule_ids plan) \<and> pred_option plan_identifier (pl_metric_id plan)
     \<and> list_all valid_literal_filter (pl_literal_filters plan)
     \<and> list_all (\<lambda>r. plan_identifier (ri_relationship_id r)) (pl_relationships plan)
     \<and> list_all valid_field_ref (pl_output_fields plan)
     \<and> list_all valid_aggregation (pl_aggregations plan)
     \<and> list_all valid_field_ref (pl_group_by plan)
     \<and> list_all valid_having (pl_having plan) \<and> list_all valid_order (pl_order_by plan)
     \<and> list_all (\<lambda>n. n \<le> MAX_PLAN_ITEMS)
          [length (pl_entity_ids plan), length (pl_concept_ids plan), length (pl_rule_ids plan),
           length (pl_literal_filters plan), length (pl_relationships plan),
           length (pl_output_fields plan), length (pl_aggregations plan), length (pl_group_by plan),
           length (pl_having plan), length (pl_order_by plan)]
     \<and> (case pl_limit plan of None \<Rightarrow> True | Some n \<Rightarrow> 1 \<le> n \<and> n \<le> 500)"

section \<open>Errors\<close>

text \<open>\<open>PlanDiverges\<close> stands for a loop that does not end; no plan reaches it (see below).\<close>

datatype plan_error =
    PlanInvalid string
  | CatalogInvalid
  | PlanRaised py_exn
  | PlanDiverges

definition require_unique :: "'a list \<Rightarrow> string \<Rightarrow> plan_error + unit" where
  "require_unique xs reason = ensure (length xs = card (set xs)) (PlanInvalid reason)"

definition require_subset :: "'a list \<Rightarrow> 'a list \<Rightarrow> string \<Rightarrow> plan_error + unit" where
  "require_subset xs allowed reason = ensure (set xs \<subseteq> set allowed) (PlanInvalid reason)"

definition require_key :: "'a option \<Rightarrow> plan_error + 'a" where
  "require_key r = (case r of None \<Rightarrow> Inl (PlanRaised KeyError) | Some x \<Rightarrow> Inr x)"

lemma require_unique_Inr [simp]: "require_unique xs reason = Inr u \<longleftrightarrow> distinct xs"
  by (simp add: require_unique_def) (metis card_distinct distinct_card)

lemma require_subset_Inr [simp]: "require_subset xs allowed reason = Inr u \<longleftrightarrow> set xs \<subseteq> set allowed"
  by (simp add: require_subset_def)

lemma require_key_Inr [simp]: "require_key r = Inr x \<longleftrightarrow> r = Some x"
  by (cases r) (simp_all add: require_key_def)

section \<open>The relationship graph\<close>

text \<open>\<open>find\<close>: the root of an entity, halving the path on the way.\<close>

type_synonym parents = "string \<Rightarrow> string"

partial_function (option) uf_find :: "parents \<Rightarrow> string \<Rightarrow> (string \<times> parents) option" where
  "uf_find parent e =
     (if parent e = e then Some (e, parent)
      else let halved = parent(e := parent (parent e)) in uf_find halved (halved e))"

declare uf_find.simps [code]

text \<open>
  The loop over the relationships, which joins trees and refuses a cycle. An end that is no
  entity of the plan is a \<open>KeyError\<close> of \<open>parent\<close>.
\<close>

type_synonym edge = "string \<times> string"

fun join_edges :: "string list \<Rightarrow> parents \<Rightarrow> edge option list \<Rightarrow> plan_error + parents" where
  "join_edges entities parent [] = Inr parent"
| "join_edges entities parent (None # edges) = Inl (PlanRaised KeyError)"
| "join_edges entities parent (Some (a, b) # edges) =
     (if a \<notin> set entities \<or> b \<notin> set entities then Inl (PlanRaised KeyError)
      else case uf_find parent a of
        None \<Rightarrow> Inl PlanDiverges
      | Some (left, parent1) \<Rightarrow>
     (case uf_find parent1 b of
        None \<Rightarrow> Inl PlanDiverges
      | Some (right, parent2) \<Rightarrow>
          if left = right then Inl (PlanInvalid ''relationship_graph_cycle'')
          else join_edges entities (parent2(left := right)) edges))"

definition neighbours :: "edge list \<Rightarrow> string \<Rightarrow> string list" where
  "neighbours edges x =
     sorted_set (map snd (filter (\<lambda>(a, b). a = x) edges) @ map fst (filter (\<lambda>(a, b). b = x) edges))"

definition unvisited :: "string list \<Rightarrow> string list \<Rightarrow> nat" where
  "unvisited entities visited = card (set entities - set visited)"

lemma unvisited_less:
  "x \<in> set entities \<Longrightarrow> x \<notin> set visited \<Longrightarrow> unvisited entities (x # visited) < unvisited entities visited"
  unfolding unvisited_def by (intro psubset_card_mono) auto

text \<open>
  The search from the smallest entity; the frontier is a stack with its top in front. \<open>None\<close>
  is the \<open>KeyError\<close> of an entity that is not one of the plan's.
\<close>

function visit ::
  "(string \<Rightarrow> string list) \<Rightarrow> string list \<Rightarrow> string list \<Rightarrow> string list \<Rightarrow> string list option" where
  "visit adj entities [] visited = Some visited"
| "visit adj entities (x # frontier) visited =
     (if x \<in> set visited then visit adj entities frontier visited
      else if x \<notin> set entities then None
      else visit adj entities
             (filter (\<lambda>y. y \<notin> set (x # visited)) (adj x) @ frontier) (x # visited))"
  by pat_completeness auto

termination
  by (relation "measures [\<lambda>(adj, entities, frontier, visited). unvisited entities visited,
                          \<lambda>(adj, entities, frontier, visited). length frontier]")
    (auto simp: unvisited_less)

definition edge_of :: "semantic_relationship \<Rightarrow> edge" where
  "edge_of r = (rl_from_entity r, rl_to_entity r)"

definition least_string :: "string list \<Rightarrow> string" where
  "least_string xs = hd (sorted_set xs)"

definition validate_relationship_graph ::
  "string list \<Rightarrow> relationship_intent list \<Rightarrow> semantic_relationship list \<Rightarrow> plan_error + unit" where
  "validate_relationship_graph entity_ids intents relationships =
     (if length entity_ids = 1 then
        ensure (relationships = []) (PlanInvalid ''relationship_unused'')
      else let lookups = map (\<lambda>i. map_option edge_of (dict_get rl_id (ri_relationship_id i) relationships))
                        intents;
            edges = map the lookups in
        result_bind (join_edges entity_ids id lookups) (\<lambda>_.
        result_bind (ensure (entity_ids \<noteq> []) (PlanRaised ValueError)) (\<lambda>_.
        result_bind (require_key (visit (neighbours edges) entity_ids [least_string entity_ids] [])) (\<lambda>visited.
        result_bind (ensure (set visited = set entity_ids)
          (PlanInvalid ''relationship_graph_disconnected'')) (\<lambda>_.
        ensure (card (rl_id ` set relationships) + 1 = length entity_ids)
          (PlanInvalid ''relationship_graph_not_tree''))))))"

section \<open>The join order\<close>

text \<open>
  The next relationship that can be attached: a left join from its preserved side, an inner
  join from either side; the attached entity, and the rest in order.
\<close>

type_synonym join_step = "semantic_relationship \<times> join_type \<times> string"

definition attachable :: "string set \<Rightarrow> semantic_relationship \<Rightarrow> join_type \<Rightarrow> bool" where
  "attachable available r j =
     (let source = rl_from_entity r \<in> available; target = rl_to_entity r \<in> available in
      (j = JoinLeft \<and> source \<and> \<not> target) \<or> (j = JoinLeftReverse \<and> target \<and> \<not> source)
      \<or> (j = JoinInner \<and> source \<noteq> target))"

fun take_attachable ::
  "string set \<Rightarrow> (semantic_relationship \<times> join_type) list
     \<Rightarrow> (join_step \<times> (semantic_relationship \<times> join_type) list) option" where
  "take_attachable available [] = None"
| "take_attachable available ((r, j) # pending) =
     (if attachable available r j
      then Some ((r, j, if rl_from_entity r \<in> available then rl_to_entity r else rl_from_entity r), pending)
      else map_option (\<lambda>(s, rest). (s, (r, j) # rest)) (take_attachable available pending))"

lemma take_attachable_length:
  "take_attachable available pending = Some (s, rest) \<Longrightarrow> length pending = Suc (length rest)"
  by (induction available pending arbitrary: s rest rule: take_attachable.induct)
    (auto split: if_splits)

text \<open>The steps taken from a root, and what is left when nothing can be attached any more.\<close>

function attach_all ::
  "string set \<Rightarrow> (semantic_relationship \<times> join_type) list
     \<Rightarrow> join_step list \<times> (semantic_relationship \<times> join_type) list \<times> string set" where
  "attach_all available pending =
     (case take_attachable available pending of
        None \<Rightarrow> ([], pending, available)
      | Some ((r, j, added), rest) \<Rightarrow>
          let (steps, left, reach) = attach_all (insert added available) rest
          in ((r, j, added) # steps, left, reach))"
  by pat_completeness auto

termination
  by (relation "measure (\<lambda>(available, pending). length pending)")
    (auto dest: take_attachable_length)

declare attach_all.simps [simp del]

fun first_root ::
  "string set \<Rightarrow> (semantic_relationship \<times> join_type) list \<Rightarrow> string list
     \<Rightarrow> (string \<times> join_step list) option" where
  "first_root V pending [] = None"
| "first_root V pending (start # starts) =
     (let (steps, left, reach) = attach_all {start} pending in
      if left = [] \<and> reach = V then Some (start, steps) else first_root V pending starts)"

definition selected_relationships ::
  "semantic_catalog \<Rightarrow> semantic_plan \<Rightarrow> plan_error + (semantic_relationship \<times> join_type) list" where
  "selected_relationships cat plan =
     traverse (\<lambda>i. result_bind (require_key (relationship_of cat (ri_relationship_id i)))
                     (\<lambda>r. Inr (r, ri_join_type i))) (pl_relationships plan)"

definition selected_join_order ::
  "semantic_catalog \<Rightarrow> semantic_plan \<Rightarrow> plan_error + (string \<times> join_step list) option" where
  "selected_join_order cat plan =
     result_bind (selected_relationships cat plan) (\<lambda>selected.
       Inr (first_root (set (pl_entity_ids plan)) (sort_key (\<lambda>x. rl_id (fst x)) selected)
              (sort (pl_entity_ids plan))))"

text \<open>\<open>population_may_multiply\<close>: whether some edge on the way out of the population is not to-one.\<close>

fun take_crossing ::
  "string set \<Rightarrow> semantic_relationship list
     \<Rightarrow> (semantic_relationship \<times> semantic_relationship list) option" where
  "take_crossing visited [] = None"
| "take_crossing visited (e # edges) =
     (if (rl_from_entity e \<in> visited) \<noteq> (rl_to_entity e \<in> visited) then Some (e, edges)
      else map_option (\<lambda>(x, rest). (x, e # rest)) (take_crossing visited edges))"

lemma take_crossing_length:
  "take_crossing visited edges = Some (e, rest) \<Longrightarrow> length edges = Suc (length rest)"
  by (induction visited edges arbitrary: e rest rule: take_crossing.induct) (auto split: if_splits)

definition to_one :: "string set \<Rightarrow> semantic_relationship \<Rightarrow> bool" where
  "to_one visited e \<longleftrightarrow>
     rl_cardinality e = OneToOne \<or> rl_from_entity e \<in> visited \<and> rl_cardinality e = ManyToOne"

function edges_may_multiply :: "string set \<Rightarrow> semantic_relationship list \<Rightarrow> bool" where
  "edges_may_multiply visited edges =
     (if edges = [] then False
      else case take_crossing visited edges of
        None \<Rightarrow> True
      | Some (e, rest) \<Rightarrow>
          if \<not> to_one visited e then True
          else edges_may_multiply
                 (insert (if rl_from_entity e \<in> visited then rl_to_entity e else rl_from_entity e) visited)
                 rest)"
  by pat_completeness auto

termination
  by (relation "measure (\<lambda>(visited, edges). length edges)") (auto dest: take_crossing_length)

declare edges_may_multiply.simps [simp del]

definition population_may_multiply ::
  "semantic_catalog \<Rightarrow> string \<Rightarrow> semantic_plan \<Rightarrow> plan_error + bool" where
  "population_may_multiply cat entity_id plan =
     result_bind (selected_relationships cat plan) (\<lambda>selected.
       Inr (edges_may_multiply {entity_id} (map fst selected)))"

definition field_is_non_null :: "domain_pack \<Rightarrow> field_ref \<Rightarrow> semantic_plan \<Rightarrow> plan_error + bool" where
  "field_is_non_null pack f plan =
     result_bind (selected_join_order (pk_catalog pack) plan) (\<lambda>order.
       case order of
         None \<Rightarrow> Inr False
       | Some (start, steps) \<Rightarrow>
           if fr_entity_id f \<notin> set (pl_entity_ids plan) then Inr False
           else
             result_bind (require_key (entity_of (pk_catalog pack) (fr_entity_id f))) (\<lambda>entity.
             result_bind (require_key (dict_get dt_name (en_table entity) (pk_tables pack))) (\<lambda>table.
             Inr (case dict_get dm_name (fr_column f) (dt_columns table) of
                    None \<Rightarrow> False
                  | Some column \<Rightarrow>
                      \<not> dm_nullable column
                      \<and> list_all (\<lambda>(_, j, added). added \<noteq> fr_entity_id f \<or> j = JoinInner) steps))))"

end
