(* ===== verification/Join_Graph.thy ===== *)
theory Join_Graph
  imports Semantic_Plan
begin

text \<open>
  What the check of the relationship graph decides. The union-find of the source is compared
  with a plain table of representatives (\<open>rep\<close>), and that with connectedness; the search
  visits exactly what is connected to its start.
\<close>

section \<open>Connected entities\<close>

definition conn :: "edge set \<Rightarrow> (string \<times> string) set" where
  "conn E = (E \<union> E\<inverse>)\<^sup>*"

lemma conn_refl [simp]: "(x, x) \<in> conn E"
  by (simp add: conn_def)

lemma conn_trans [trans]: "(x, y) \<in> conn E \<Longrightarrow> (y, z) \<in> conn E \<Longrightarrow> (x, z) \<in> conn E"
  unfolding conn_def by (rule rtrancl_trans)

lemma conn_sym: "(x, y) \<in> conn E \<Longrightarrow> (y, x) \<in> conn E"
  unfolding conn_def by (rule symD [OF sym_rtrancl]) (auto simp: sym_def)

lemma conn_edge: "(a, b) \<in> E \<Longrightarrow> (a, b) \<in> conn E"
  by (auto simp: conn_def)

lemma conn_mono: "E \<subseteq> F \<Longrightarrow> (x, y) \<in> conn E \<Longrightarrow> (x, y) \<in> conn F"
  unfolding conn_def using rtrancl_mono [of "E \<union> E\<inverse>" "F \<union> F\<inverse>"] by blast

lemma conn_insert:
  "(x, y) \<in> conn (insert (a, b) E) \<longleftrightarrow>
     (x, y) \<in> conn E \<or> (x, a) \<in> conn E \<and> (b, y) \<in> conn E \<or> (x, b) \<in> conn E \<and> (a, y) \<in> conn E"
    (is "?l \<longleftrightarrow> ?r y")
proof
  assume ?l
  then have "(x, y) \<in> (insert (a, b) E \<union> (insert (a, b) E)\<inverse>)\<^sup>*" by (simp add: conn_def)
  then show "?r y"
  proof (induction rule: rtrancl_induct)
    case (step y z)
    then consider "(y, z) \<in> conn E" | "y = a" "z = b" | "y = b" "z = a"
      by (auto simp: conn_def)
    then show ?case using step.IH by cases (auto intro: conn_trans dest: conn_sym)
  qed simp
next
  assume r: "?r y"
  have "(a, b) \<in> conn (insert (a, b) E)" by (rule conn_edge) simp
  with r show ?l by (metis conn_mono conn_sym conn_trans subset_insertI)
qed

section \<open>Representatives\<close>

text \<open>The edges are listed with the latest in front.\<close>

fun rep :: "edge list \<Rightarrow> string \<Rightarrow> string" where
  "rep [] x = x"
| "rep ((a, b) # earlier) x = (if rep earlier x = rep earlier a then rep earlier b else rep earlier x)"

lemma merged_eq:
  "(if p = s then t else p) = (if q = s then t else q) \<longleftrightarrow>
     p = q \<or> p = s \<and> t = q \<or> p = t \<and> s = q"
  by (cases "p = s"; cases "q = s") auto

lemma rep_conn: "rep es x = rep es y \<longleftrightarrow> (x, y) \<in> conn (set es)"
proof (induction es arbitrary: x y)
  case Nil
  then show ?case by (simp add: conn_def)
next
  case (Cons e es)
  obtain a b where e: "e = (a, b)" by (cases e)
  have "rep (e # es) x = rep (e # es) y \<longleftrightarrow>
      rep es x = rep es y \<or> rep es x = rep es a \<and> rep es b = rep es y
        \<or> rep es x = rep es b \<and> rep es a = rep es y"
    unfolding e rep.simps by (rule merged_eq)
  also have "\<dots> \<longleftrightarrow> (x, y) \<in> conn (insert (a, b) (set es))"
    by (simp only: Cons conn_insert)
  finally show ?case by (simp only: e list.set)
qed

fun acyclic_from :: "edge list \<Rightarrow> edge list \<Rightarrow> bool" where
  "acyclic_from earlier [] = True"
| "acyclic_from earlier ((a, b) # es) \<longleftrightarrow>
     rep earlier a \<noteq> rep earlier b \<and> acyclic_from ((a, b) # earlier) es"

text \<open>Each edge merges at most two classes, and exactly two when it closes no cycle.\<close>

lemma card_rep_step:
  assumes "finite V"
  shows "card (rep es ` V) \<le> card (rep ((a, b) # es) ` V) + 1"
proof -
  have "rep es ` V \<subseteq> insert (rep es a) (rep ((a, b) # es) ` V)" by auto
  then have "card (rep es ` V) \<le> card (insert (rep es a) (rep ((a, b) # es) ` V))"
    using assms by (intro card_mono) auto
  also have "\<dots> \<le> card (rep ((a, b) # es) ` V) + 1" by (simp add: card_insert_le_m1 card_insert_if assms)
  finally show ?thesis .
qed

lemma merge_image:
  assumes "b \<in> V" "f a \<noteq> f b"
  shows "(\<lambda>x. if f x = f a then f b else f x) ` V = f ` V - {f a}"
proof
  show "(\<lambda>x. if f x = f a then f b else f x) ` V \<subseteq> f ` V - {f a}" using assms by auto
  show "f ` V - {f a} \<subseteq> (\<lambda>x. if f x = f a then f b else f x) ` V"
  proof
    fix r assume "r \<in> f ` V - {f a}"
    then obtain x where "x \<in> V" "r = f x" "f x \<noteq> f a" by blast
    then show "r \<in> (\<lambda>x. if f x = f a then f b else f x) ` V" by (intro image_eqI [of _ _ x]) simp_all
  qed
qed

lemma card_rep_merge:
  assumes "finite V" "a \<in> V" "b \<in> V" "rep es a \<noteq> rep es b"
  shows "card (rep es ` V) = card (rep ((a, b) # es) ` V) + 1"
proof -
  have "rep ((a, b) # es) = (\<lambda>x. if rep es x = rep es a then rep es b else rep es x)"
    by (intro ext) simp
  then have "rep ((a, b) # es) ` V = rep es ` V - {rep es a}"
    using merge_image [OF assms(3), of "rep es" a] assms(4) by simp
  moreover have "card (rep es ` V) = Suc (card (rep es ` V - {rep es a}))"
    using assms(1,2) by (intro card.remove) simp_all
  ultimately show ?thesis by simp
qed

lemma card_rep_le: "finite V \<Longrightarrow> card (rep earlier ` V) \<le> card (rep (rev es @ earlier) ` V) + length es"
proof (induction es arbitrary: earlier)
  case (Cons e es)
  have "card (rep earlier ` V) \<le> card (rep (e # earlier) ` V) + 1"
    using card_rep_step [OF Cons.prems, of earlier "fst e" "snd e"] by simp
  also have "card (rep (e # earlier) ` V) \<le> card (rep (rev es @ e # earlier) ` V) + length es"
    by (rule Cons.IH [OF Cons.prems])
  finally show ?case by simp
qed simp

lemma card_rep_cyclic:
  assumes "finite V" "\<not> acyclic_from earlier es"
  shows "card (rep earlier ` V) < card (rep (rev es @ earlier) ` V) + length es"
  using assms(2)
proof (induction es arbitrary: earlier)
  case (Cons e es)
  obtain a b where e: "e = (a, b)" by (cases e)
  show ?case
  proof (cases "rep earlier a = rep earlier b")
    case True
    then have "rep (e # earlier) = rep earlier" by (intro ext) (simp add: e)
    then show ?thesis using card_rep_le [OF assms(1), of "e # earlier" es] by simp
  next
    case False
    with Cons e have "\<not> acyclic_from (e # earlier) es" by simp
    from Cons.IH [OF this] show ?thesis
      using card_rep_step [OF assms(1), of earlier a b] by (simp add: e)
  qed
qed simp

lemma card_rep_acyclic:
  assumes "finite V" "acyclic_from earlier es" "\<forall>(a, b) \<in> set es. a \<in> V \<and> b \<in> V"
  shows "card (rep earlier ` V) = card (rep (rev es @ earlier) ` V) + length es"
  using assms(2,3)
proof (induction es arbitrary: earlier)
  case (Cons e es)
  obtain a b where e: "e = (a, b)" by (cases e)
  then show ?case
    using Cons.IH [of "e # earlier"] Cons.prems card_rep_merge [OF assms(1), of a b earlier] by simp
qed simp

definition connects :: "string set \<Rightarrow> edge list \<Rightarrow> bool" where
  "connects V es \<longleftrightarrow> (\<forall>x \<in> V. \<forall>y \<in> V. (x, y) \<in> conn (set es))"

lemma connects_card:
  assumes "finite V" "V \<noteq> {}"
  shows "connects V es \<longleftrightarrow> card (rep (rev es) ` V) = 1"
proof -
  have "connects V es \<longleftrightarrow> (\<forall>x \<in> V. \<forall>y \<in> V. rep (rev es) x = rep (rev es) y)"
    by (simp add: connects_def rep_conn)
  also have "\<dots> \<longleftrightarrow> card (rep (rev es) ` V) = 1"
  proof
    assume same: "\<forall>x \<in> V. \<forall>y \<in> V. rep (rev es) x = rep (rev es) y"
    obtain v where v: "v \<in> V" using assms(2) by blast
    have "rep (rev es) ` V = {rep (rev es) v}"
    proof
      show "rep (rev es) ` V \<subseteq> {rep (rev es) v}" using same v by blast
    qed (use v in simp)
    then show "card (rep (rev es) ` V) = 1" by simp
  next
    assume "card (rep (rev es) ` V) = 1"
    then obtain r where r: "rep (rev es) ` V = {r}" by (rule card_1_singletonE)
    have "rep (rev es) x = r" if "x \<in> V" for x using r that by blast
    then show "\<forall>x \<in> V. \<forall>y \<in> V. rep (rev es) x = rep (rev es) y" by simp
  qed
  finally show ?thesis .
qed

text \<open>A spanning tree: connected with one edge less than entities, or connected without a cycle.\<close>

lemma spanning_tree_iff:
  assumes "finite V" "V \<noteq> {}" "\<forall>(a, b) \<in> set es. a \<in> V \<and> b \<in> V"
  shows "acyclic_from [] es \<and> connects V es \<longleftrightarrow> connects V es \<and> length es + 1 = card V"
proof (cases "connects V es")
  case True
  then have one: "card (rep (rev es @ []) ` V) = 1" using connects_card [OF assms(1,2)] by simp
  have all: "card (rep [] ` V) = card V" by (simp add: image_def)
  show ?thesis
  proof (cases "acyclic_from [] es")
    case True
    from card_rep_acyclic [OF assms(1) this assms(3)] one all True show ?thesis by simp
  next
    case False
    from card_rep_cyclic [OF assms(1) this] one all False show ?thesis by simp
  qed
qed simp

section \<open>Union-find\<close>

text \<open>Following the parents from an entity ends at a root.\<close>

definition leads :: "parents \<Rightarrow> string \<Rightarrow> string \<Rightarrow> bool" where
  "leads p x r \<longleftrightarrow> (\<exists>n. (p ^^ n) x = r) \<and> p r = r"

definition ranked :: "parents \<Rightarrow> (string \<Rightarrow> nat) \<Rightarrow> nat \<Rightarrow> bool" where
  "ranked p rank B \<longleftrightarrow> (\<forall>x. rank x \<le> B \<and> (p x \<noteq> x \<longrightarrow> rank x < rank (p x)))"

definition forest :: "parents \<Rightarrow> bool" where
  "forest p \<longleftrightarrow> (\<exists>rank B. ranked p rank B)"

lemma rank_induct [consumes 1, case_names below]:
  assumes "ranked p rank B" and "\<And>x. (\<And>y. rank x < rank y \<Longrightarrow> P y) \<Longrightarrow> P x"
  shows "P x"
proof (induction "B - rank x" arbitrary: x rule: less_induct)
  case less
  show ?case
  proof (rule assms(2))
    fix y assume y: "rank x < rank y"
    have "rank y \<le> B" using assms(1) by (simp add: ranked_def)
    with y show "P y" by (intro less) simp
  qed
qed

lemma leads_fixed: "p x = x \<Longrightarrow> leads p x r \<longleftrightarrow> r = x"
proof -
  assume fixed: "p x = x"
  then have "(p ^^ n) x = x" for n by (induction n) simp_all
  with fixed show ?thesis by (auto simp: leads_def)
qed

lemma leads_step: "leads p (p x) r \<longleftrightarrow> leads p x r"
proof
  assume "leads p (p x) r"
  then obtain n where "(p ^^ n) (p x) = r" "p r = r" by (auto simp: leads_def)
  then have "(p ^^ Suc n) x = r" by (simp add: funpow_swap1)
  with \<open>p r = r\<close> show "leads p x r" unfolding leads_def by blast
next
  assume "leads p x r"
  then obtain n where n: "(p ^^ n) x = r" "p r = r" by (auto simp: leads_def)
  show "leads p (p x) r"
  proof (cases n)
    case 0
    with n show ?thesis by (simp add: leads_fixed)
  next
    case (Suc m)
    with n have "(p ^^ m) (p x) = r" by (simp add: funpow_swap1)
    with n(2) show ?thesis by (auto simp: leads_def)
  qed
qed

lemma leads_unique: "leads p x r \<Longrightarrow> leads p x s \<Longrightarrow> r = s"
proof -
  have "p ((p ^^ n) x) = (p ^^ n) x \<Longrightarrow> leads p x s \<Longrightarrow> s = (p ^^ n) x" for n x s
  proof (induction n arbitrary: x)
    case 0
    then show ?case by (simp add: leads_fixed)
  next
    case (Suc n)
    have "leads p (p x) s" using Suc.prems(2) by (simp only: leads_step)
    with Suc.IH [of "p x"] Suc.prems(1) show ?case by (simp add: funpow_swap1)
  qed
  then show "leads p x r \<Longrightarrow> leads p x s \<Longrightarrow> r = s" by (metis leads_def)
qed

lemma halving:
  assumes "ranked p rank B" "p e \<noteq> e"
  shows "ranked (p(e := p (p e))) rank B" and "leads (p(e := p (p e))) x r \<longleftrightarrow> leads p x r"
proof -
  have up: "rank e < rank (p (p e))" and up1: "rank e < rank (p e)"
    using assms by (auto simp: ranked_def intro: less_le_trans less_imp_le)
      (metis less_trans)
  then show "ranked (p(e := p (p e))) rank B"
    using assms(1) by (auto simp: ranked_def)
  let ?q = "p(e := p (p e))"
  show "leads ?q x r \<longleftrightarrow> leads p x r"
    using assms(1)
  proof (induction x rule: rank_induct)
    case (below x)
    show ?case
    proof (cases "p x = x")
      case True
      then have "?q x = x" using assms(2) by auto
      with True show ?thesis by (simp only: leads_fixed)
    next
      case False
      have "leads ?q x r \<longleftrightarrow> leads ?q (?q x) r" by (simp only: leads_step)
      also have "\<dots> \<longleftrightarrow> leads p (?q x) r"
      proof (rule below)
        show "rank x < rank (?q x)"
          using up False assms(1) by (simp add: ranked_def)
      qed
      also have "\<dots> \<longleftrightarrow> leads p x r" using leads_step [of p x r] leads_step [of p "p x" r] by auto
      finally show ?thesis .
    qed
  qed
qed

lemma uf_find_ok:
  assumes "ranked p rank B"
  shows "\<exists>r q. uf_find p e = Some (r, q) \<and> leads p e r \<and> ranked q rank B
    \<and> (\<forall>x s. leads q x s \<longleftrightarrow> leads p x s)"
proof -
  have "\<forall>p. ranked p rank B \<longrightarrow> (\<exists>r q. uf_find p e = Some (r, q) \<and> leads p e r \<and> ranked q rank B
      \<and> (\<forall>x s. leads q x s \<longleftrightarrow> leads p x s))"
    using assms
  proof (induction e rule: rank_induct)
    case (below e)
    show ?case
    proof (intro allI impI)
      fix p assume p: "ranked p rank B"
      show "\<exists>r q. uf_find p e = Some (r, q) \<and> leads p e r \<and> ranked q rank B
          \<and> (\<forall>x s. leads q x s \<longleftrightarrow> leads p x s)"
      proof (cases "p e = e")
        case True
        with p show ?thesis by (subst uf_find.simps) (simp add: leads_fixed)
      next
        case False
        let ?h = "p(e := p (p e))"
        note h = halving [OF p False]
        have "rank e < rank (?h e)" using h(1) p False
          by (metis fun_upd_same less_trans ranked_def)
        with below h(1) obtain r q where rq: "uf_find ?h (?h e) = Some (r, q)" "leads ?h (?h e) r"
            "ranked q rank B" "\<forall>x s. leads q x s \<longleftrightarrow> leads ?h x s"
          by blast
        have "uf_find p e = uf_find ?h (?h e)"
          by (subst uf_find.simps) (simp add: False Let_def)
        moreover have "leads p e r" using rq(2) h(2) leads_step [of ?h e r] by simp
        moreover have "\<forall>x s. leads q x s \<longleftrightarrow> leads p x s" using rq(4) h(2) by simp
        ultimately show ?thesis using rq(1,3) by (intro exI [of _ r] exI [of _ q]) simp
      qed
    qed
  qed
  then show ?thesis using assms by blast
qed

text \<open>Linking one root under another one merges their trees.\<close>

lemma link:
  assumes p: "ranked p rank B" and l: "p l = l" and r: "p r = r" and "l \<noteq> r"
  shows "forest (p(l := r))"
    and "leads (p(l := r)) x s \<longleftrightarrow> (if leads p x l then s = r else leads p x s)"
proof -
  let ?q = "p(l := r)"
  define rank' where "rank' x = (if leads p x l then rank x else B + 1 + rank x)" for x
  have le: "rank x \<le> B" for x using p by (simp add: ranked_def)
  have "\<not> leads p r l" using r \<open>l \<noteq> r\<close> by (simp add: leads_fixed)
  then have top: "rank' l < rank' r"
    using le [of l] l by (simp add: rank'_def leads_fixed)
  have "ranked ?q rank' (2 * B + 1)"
    unfolding ranked_def
  proof (intro allI conjI impI)
    fix x
    show "rank' x \<le> 2 * B + 1" using le [of x] by (simp add: rank'_def)
    assume q: "?q x \<noteq> x"
    show "rank' x < rank' (?q x)"
    proof (cases "x = l")
      case True
      with top show ?thesis by simp
    next
      case False
      with q have "p x \<noteq> x" by simp
      then have "rank x < rank (p x)" using p by (simp add: ranked_def)
      moreover have "leads p (p x) l \<longleftrightarrow> leads p x l" by (rule leads_step)
      ultimately show ?thesis using False by (simp add: rank'_def)
    qed
  qed
  then show "forest ?q" unfolding forest_def by blast
  show "leads ?q x s \<longleftrightarrow> (if leads p x l then s = r else leads p x s)"
    using p
  proof (induction x rule: rank_induct)
    case (below x)
    have qr: "?q r = r" using r \<open>l \<noteq> r\<close> by simp
    show ?case
    proof (cases "p x = x")
      case True
      show ?thesis
      proof (cases "x = l")
        case True
        have "leads ?q l s \<longleftrightarrow> leads ?q (?q l) s" by (simp only: leads_step)
        also have "\<dots> \<longleftrightarrow> s = r" using qr by (simp add: leads_fixed)
        finally show ?thesis using True l by (simp add: leads_fixed del: fun_upd_apply)
      next
        case False
        with True have "?q x = x" "\<not> leads p x l" by (auto simp: leads_fixed)
        then show ?thesis using True by (simp add: leads_fixed del: fun_upd_apply)
      qed
    next
      case False
      then have "x \<noteq> l" using l by auto
      then have "leads ?q x s \<longleftrightarrow> leads ?q (p x) s" using leads_step [of ?q x s] by simp
      also have "\<dots> \<longleftrightarrow> (if leads p (p x) l then s = r else leads p (p x) s)"
        by (rule below) (use p False in \<open>simp add: ranked_def\<close>)
      finally show ?thesis by (simp only: leads_step)
    qed
  qed
qed

text \<open>Two entities have one root exactly when they have one representative.\<close>

definition same_classes :: "parents \<Rightarrow> edge list \<Rightarrow> bool" where
  "same_classes p es \<longleftrightarrow>
     (\<forall>x y r s. leads p x r \<longrightarrow> leads p y s \<longrightarrow> (r = s \<longleftrightarrow> rep es x = rep es y))"

lemma join_edges_acyclic:
  assumes "\<forall>(a, b) \<in> set es. a \<in> set V \<and> b \<in> set V" "forest p" "same_classes p earlier"
  shows "if acyclic_from earlier es then \<exists>q. join_edges V p (map Some es) = Inr q
    else join_edges V p (map Some es) = Inl (PlanInvalid ''relationship_graph_cycle'')"
  using assms
proof (induction es arbitrary: p earlier)
  case (Cons e es)
  obtain a b where e: "e = (a, b)" by (cases e)
  have V: "a \<in> set V" "b \<in> set V" and rest: "\<forall>(a, b) \<in> set es. a \<in> set V \<and> b \<in> set V"
    using Cons.prems(1) by (auto simp: e)
  obtain rank B where p: "ranked p rank B" using Cons.prems(2) by (auto simp: forest_def)
  obtain l p1 where l: "uf_find p a = Some (l, p1)" "leads p a l" "ranked p1 rank B"
      "\<forall>x s. leads p1 x s \<longleftrightarrow> leads p x s"
    using uf_find_ok [OF p, of a] by blast
  obtain r p2 where r: "uf_find p1 b = Some (r, p2)" "leads p1 b r" "ranked p2 rank B"
      "\<forall>x s. leads p2 x s \<longleftrightarrow> leads p1 x s"
    using uf_find_ok [OF l(3), of b] by blast
  have same: "leads p2 x s \<longleftrightarrow> leads p x s" for x s using l(4) r(4) by simp
  have b: "leads p b r" using r(2) l(4) by simp
  have lr: "l = r \<longleftrightarrow> rep earlier a = rep earlier b"
    using Cons.prems(3) l(2) b by (simp add: same_classes_def)
  show ?case
  proof (cases "l = r")
    case True
    then show ?thesis using lr by (simp add: e V l(1) r(1))
  next
    case False
    have roots: "p2 l = l" "p2 r = r"
      using l(2) b same [of a l] same [of b r] by (simp_all add: leads_def)
    note link = link [OF r(3) roots False]
    have "same_classes (p2(l := r)) (e # earlier)"
      unfolding same_classes_def
    proof (intro allI impI)
      fix x y s t
      assume "leads (p2(l := r)) x s" "leads (p2(l := r)) y t"
      then have xs: "if leads p x l then s = r else leads p x s"
        and yt: "if leads p y l then t = r else leads p y t"
        by (simp_all only: link(2) same)
      have total: "\<exists>s. leads p z s" for z using uf_find_ok [OF p, of z] by blast
      have cls: "leads p z w \<Longrightarrow> leads p z' w' \<Longrightarrow> w = w' \<longleftrightarrow> rep earlier z = rep earlier z'" for z z' w w'
        using Cons.prems(3) by (simp add: same_classes_def)
      have xa: "leads p x l \<longleftrightarrow> rep earlier x = rep earlier a"
        using total [of x] cls [OF _ l(2), of x] leads_unique by metis
      have ya: "leads p y l \<longleftrightarrow> rep earlier y = rep earlier a"
        using total [of y] cls [OF _ l(2), of y] leads_unique by metis
      show "s = t \<longleftrightarrow> rep (e # earlier) x = rep (e # earlier) y"
        using xs yt xa ya cls [OF b, of y t] cls [of x s b r] cls [of x s y t] b
        by (auto simp: e)
    qed
    from Cons.IH [OF rest link(1) this] show ?thesis
      using lr False by (simp add: e V l(1) r(1))
  qed
qed simp

lemma join_edges_start:
  assumes "\<forall>(a, b) \<in> set es. a \<in> set V \<and> b \<in> set V"
  shows "if acyclic_from [] es then \<exists>q. join_edges V id (map Some es) = Inr q
   else join_edges V id (map Some es) = Inl (PlanInvalid ''relationship_graph_cycle'')"
proof (rule join_edges_acyclic [OF assms])
  have "ranked id (\<lambda>_. 0) 0" by (simp add: ranked_def)
  then show "forest id" unfolding forest_def by blast
  show "same_classes id []" by (simp add: same_classes_def leads_fixed)
qed

section \<open>The search\<close>

lemma map_the_Some: "map the (map Some xs) = xs"
  by simp

lemma set_neighbours: "y \<in> set (neighbours es x) \<longleftrightarrow> (x, y) \<in> set es \<or> (y, x) \<in> set es"
  by (force simp: neighbours_def)

definition closed_under :: "edge list \<Rightarrow> string set \<Rightarrow> string set \<Rightarrow> bool" where
  "closed_under es S T \<longleftrightarrow> (\<forall>x y. x \<in> S \<longrightarrow> y \<in> set (neighbours es x) \<longrightarrow> y \<in> T)"

lemma visit_ok:
  assumes "adj = neighbours es" "\<forall>(a, b) \<in> set es. a \<in> set V \<and> b \<in> set V" "set frontier \<subseteq> set V"
    and "closed_under es (set visited) (set visited \<union> set frontier)"
  shows "\<exists>ys. visit adj V frontier visited = Some ys
    \<and> set visited \<union> set frontier \<subseteq> set ys \<and> closed_under es (set ys) (set ys)
    \<and> (\<forall>y \<in> set ys. y \<in> set visited \<or> (\<exists>x \<in> set frontier. (x, y) \<in> conn (set es)))"
  using assms
proof (induction adj V frontier visited rule: visit.induct)
  case (1 adj V visited)
  then show ?case by simp
next
  case (2 adj V x frontier visited)
  show ?case
  proof (cases "x \<in> set visited")
    case True
    have "closed_under es (set visited) (set visited \<union> set frontier)"
      using 2(6) True by (auto simp: closed_under_def)
    with 2(1) [OF True 2(3,4)] 2(5) obtain ys where "visit adj V frontier visited = Some ys"
        "set visited \<union> set frontier \<subseteq> set ys" "closed_under es (set ys) (set ys)"
        "\<forall>y \<in> set ys. y \<in> set visited \<or> (\<exists>x \<in> set frontier. (x, y) \<in> conn (set es))"
      by auto
    then show ?thesis using True by (intro exI [of _ ys]) auto
  next
    case False
    have V: "x \<in> set V" using 2(5) by simp
    let ?next = "filter (\<lambda>y. y \<notin> set (x # visited)) (adj x)"
    have nb: "set (adj x) \<subseteq> set V" using 2(3,4) by (auto simp: set_neighbours)
    have step: "(x, y) \<in> conn (set es)" if "y \<in> set (adj x)" for y
      using that 2(3) by (auto simp: set_neighbours intro: conn_edge conn_sym)
    have "closed_under es (set (x # visited)) (set (x # visited) \<union> set (?next @ frontier))"
      using 2(3,6) by (auto simp: closed_under_def)
    moreover have "set (?next @ frontier) \<subseteq> set V" using nb 2(5) by auto
    ultimately obtain ys where
        ys: "visit adj V (?next @ frontier) (x # visited) = Some ys"
        "set (x # visited) \<union> set (?next @ frontier) \<subseteq> set ys" "closed_under es (set ys) (set ys)"
        "\<forall>y \<in> set ys. y \<in> set (x # visited) \<or> (\<exists>z \<in> set (?next @ frontier). (z, y) \<in> conn (set es))"
      using 2(2) [OF False _ 2(3,4)] V by blast
    have "y \<in> set visited \<or> (\<exists>z \<in> set (x # frontier). (z, y) \<in> conn (set es))" if y: "y \<in> set ys" for y
    proof -
      consider "y = x" | "y \<in> set visited" | z where "z \<in> set (adj x)" "(z, y) \<in> conn (set es)"
        | z where "z \<in> set frontier" "(z, y) \<in> conn (set es)"
        using ys(4) y by auto
      then show ?thesis
      proof cases
        case 3
        with step have "(x, y) \<in> conn (set es)" by (blast intro: conn_trans)
        then show ?thesis by simp
      qed auto
    qed
    moreover have "visit adj V (x # frontier) visited = Some ys"
      using ys(1) False V by simp
    ultimately show ?thesis using ys(2,3) by (intro exI [of _ ys]) auto
  qed
qed

lemma visit_from:
  assumes "\<forall>(a, b) \<in> set es. a \<in> set V \<and> b \<in> set V" "s \<in> set V"
  obtains ys where "visit (neighbours es) V [s] [] = Some ys" "set ys = {y. (s, y) \<in> conn (set es)}"
proof -
  have "closed_under es (set []) (set [] \<union> set [s])" by (simp add: closed_under_def)
  with visit_ok [OF refl assms(1), of "[s]" "[]"] assms(2) obtain ys where
      ys: "visit (neighbours es) V [s] [] = Some ys" "s \<in> set ys" "closed_under es (set ys) (set ys)"
      "\<forall>y \<in> set ys. (s, y) \<in> conn (set es)"
    by auto
  have "y \<in> set ys" if "(s, y) \<in> conn (set es)" for y
    using that unfolding conn_def
  proof (induction rule: rtrancl_induct)
    case (step y z)
    then have "z \<in> set (neighbours es y)" by (auto simp: set_neighbours)
    with step.IH ys(3) show ?case by (auto simp: closed_under_def)
  qed (rule ys(2))
  with ys(4) have "set ys = {y. (s, y) \<in> conn (set es)}" by blast
  with ys(1) show thesis by (rule that)
qed

section \<open>The check\<close>

lemma least_string_in: "xs \<noteq> [] \<Longrightarrow> least_string xs \<in> set xs"
  unfolding least_string_def by (metis hd_in_set set_sorted_set sorted_set_eq_Nil)

lemma relationship_graph_outcome:
  fixes entity_ids intents relationships
  defines "es \<equiv> map edge_of relationships"
  assumes "entity_ids \<noteq> []" "distinct entity_ids"
    and "distinct (map rl_id relationships)" "distinct (map ri_relationship_id intents)"
    and "set (map ri_relationship_id intents) = set (map rl_id relationships)"
    and "\<forall>(a, b) \<in> set es. a \<in> set entity_ids \<and> b \<in> set entity_ids"
  shows "(validate_relationship_graph entity_ids intents relationships = Inr ()
      \<longleftrightarrow> connects (set entity_ids) es \<and> length relationships + 1 = length entity_ids)
    \<and> validate_relationship_graph entity_ids intents relationships \<in>
        {Inr (), Inl (PlanInvalid ''relationship_unused''), Inl (PlanInvalid ''relationship_graph_cycle''),
         Inl (PlanInvalid ''relationship_graph_disconnected'')}"
proof (cases "length entity_ids = 1")
  case True
  then obtain v where v: "entity_ids = [v]" by (auto simp: length_Suc_conv)
  show ?thesis
  proof (cases "relationships = []")
    case True
    then show ?thesis by (simp add: validate_relationship_graph_def v es_def connects_def)
  next
    case False
    then show ?thesis by (simp add: validate_relationship_graph_def v ensure_def)
  qed
next
  case False
  let ?V = "set entity_ids" and ?look = "\<lambda>i. dict_get rl_id (ri_relationship_id i) relationships"
  define rows where "rows = map (\<lambda>i. the (?look i)) intents"
  have found: "?look i = Some (the (?look i))" if "i \<in> set intents" for i
  proof -
    have "ri_relationship_id i \<in> rl_id ` set relationships" using assms(6) that by auto
    then show ?thesis by (metis dict_get_None not_None_eq option.sel)
  qed
  have look: "map (\<lambda>i. map_option edge_of (?look i)) intents = map Some (map edge_of rows)"
    using found by (simp add: rows_def) (metis option.simps(9))
  have "rl_id (the (?look i)) = ri_relationship_id i \<and> the (?look i) \<in> set relationships"
    if "i \<in> set intents" for i
    using dict_get_SomeD [OF found [OF that]] by simp
  then have ids: "map rl_id rows = map ri_relationship_id intents" and sub: "set rows \<subseteq> set relationships"
    by (auto simp: rows_def)
  have "distinct rows" using assms(5) ids distinct_map by metis
  moreover have "set rows = set relationships"
  proof
    show "set relationships \<subseteq> set rows"
    proof
      fix r assume r: "r \<in> set relationships"
      then have "rl_id r \<in> rl_id ` set rows" using assms(6) ids by (metis image_eqI list.set_map)
      then obtain r' where "r' \<in> set rows" "rl_id r' = rl_id r" by auto
      moreover have "inj_on rl_id (set relationships)" using assms(4) by (simp add: distinct_map)
      ultimately show "r \<in> set rows" using r sub by (metis inj_onD subsetD)
    qed
  qed (rule sub)
  ultimately have len: "length rows = length relationships"
    using assms(4) by (metis distinct_card distinct_map)
  let ?es = "map edge_of rows"
  have set_es: "set ?es = set es" by (simp add: es_def \<open>set rows = set relationships\<close>)
  have ends: "\<forall>(a, b) \<in> set ?es. a \<in> ?V \<and> b \<in> ?V" using assms(7) set_es by simp
  have conn: "connects ?V ?es \<longleftrightarrow> connects ?V es" unfolding connects_def set_es ..
  obtain ys where ys: "visit (neighbours ?es) entity_ids [least_string entity_ids] [] = Some ys"
      "set ys = {y. (least_string entity_ids, y) \<in> conn (set ?es)}"
    using visit_from [OF ends least_string_in [OF assms(2)]] .
  have all: "set ys = ?V \<longleftrightarrow> connects ?V ?es"
  proof
    assume "set ys = ?V"
    then show "connects ?V ?es"
      unfolding connects_def ys(2) by (blast intro: conn_trans conn_sym)
  next
    assume c: "connects ?V ?es"
    have "y \<in> ?V" if "(least_string entity_ids, y) \<in> conn (set ?es)" for y
      using that unfolding conn_def
    proof (induction rule: rtrancl_induct)
      case base
      show ?case using least_string_in [OF assms(2)] .
    next
      case (step y z)
      then show ?case using ends by auto
    qed
    then show "set ys = ?V"
      using c least_string_in [OF assms(2)] unfolding connects_def ys(2) by blast
  qed
  have card: "card (rl_id ` set relationships) = length relationships"
    using assms(4) by (metis distinct_card length_map list.set_map)
  have tree: "acyclic_from [] ?es \<and> connects ?V ?es \<longleftrightarrow>
      connects ?V es \<and> length relationships + 1 = length entity_ids"
    using spanning_tree_iff [OF _ _ ends] assms(2,3) len conn by (simp add: distinct_card)
  have outcome: "validate_relationship_graph entity_ids intents relationships =
      (if \<not> acyclic_from [] ?es then Inl (PlanInvalid ''relationship_graph_cycle'')
       else if \<not> connects ?V ?es then Inl (PlanInvalid ''relationship_graph_disconnected'')
       else Inr ())"
  proof (cases "acyclic_from [] ?es")
    case True
    with join_edges_start [OF ends] obtain q where q: "join_edges entity_ids id (map Some ?es) = Inr q" by auto
    show ?thesis
      using True tree False ys(1) all
      by (simp add: validate_relationship_graph_def look q Let_def require_key_def map_the_Some ensure_def card assms(2)
          del: map_map visit.simps)
  next
    case cyc: False
    with join_edges_start [OF ends] False show ?thesis
      by (simp add: validate_relationship_graph_def look Let_def del: map_map)
  qed
  show ?thesis unfolding outcome using tree conn by auto
qed

text \<open>
  C33: for a plan without repeated ids whose relationships are rows of the catalog between
  entities of the plan, the check of the relationship graph returns exactly when the
  relationships form a spanning tree: they connect all entities, and are one less than these.
  Otherwise the answer is one of three reasons; the loops always end and the reason
  \<open>relationship_graph_not_tree\<close> is never given.
\<close>

theorem relationship_graph_is_spanning_tree:
  fixes entity_ids intents relationships
  defines "es \<equiv> map edge_of relationships"
  assumes "entity_ids \<noteq> []" "distinct entity_ids"
    and "distinct (map rl_id relationships)" "distinct (map ri_relationship_id intents)"
    and "set (map ri_relationship_id intents) = set (map rl_id relationships)"
    and "\<forall>(a, b) \<in> set es. a \<in> set entity_ids \<and> b \<in> set entity_ids"
  shows "(validate_relationship_graph entity_ids intents relationships = Inr ()
      \<longleftrightarrow> connects (set entity_ids) es \<and> length relationships + 1 = length entity_ids)
    \<and> validate_relationship_graph entity_ids intents relationships \<in>
        {Inr (), Inl (PlanInvalid ''relationship_unused''), Inl (PlanInvalid ''relationship_graph_cycle''),
         Inl (PlanInvalid ''relationship_graph_disconnected'')}"
  using relationship_graph_outcome assms(2-) unfolding es_def by blast

text \<open>Three entities joined in a chain.\<close>

definition sample_relationship :: "string \<Rightarrow> string \<Rightarrow> string \<Rightarrow> semantic_relationship" where
  "sample_relationship i a b =
     \<lparr>rl_id = i, rl_from_entity = a, rl_from_column = ''id'', rl_to_entity = b, rl_to_column = ''id'',
      rl_cardinality = ManyToOne, rl_optional = False\<rparr>"

definition sample_chain :: "semantic_relationship list" where
  "sample_chain = [sample_relationship ''r'' ''a'' ''b'', sample_relationship ''s'' ''c'' ''b'']"

definition sample_intents :: "relationship_intent list" where
  "sample_intents = map (\<lambda>i. \<lparr>ri_relationship_id = i, ri_join_type = JoinInner\<rparr>) [''s'', ''r'']"

theorem relationship_graph_is_spanning_tree_witness:
  "connects (set [''a'', ''b'', ''c'']) [(''a'', ''b''), (''c'', ''b'')]"
proof -
  have edges: "map edge_of sample_chain = [(''a'', ''b''), (''c'', ''b'')]"
    by code_simp
  have "validate_relationship_graph [''a'', ''b'', ''c''] sample_intents sample_chain = Inr ()"
    by code_simp
  then show ?thesis
    using relationship_graph_is_spanning_tree [of "[''a'', ''b'', ''c'']" sample_chain sample_intents]
    unfolding edges by (simp add: insert_commute sample_chain_def sample_intents_def sample_relationship_def)
qed

end
