(* ===== verification/Join_Order.thy ===== *)
theory Join_Order
  imports Semantic_Plan "HOL-Library.Multiset"
begin

text \<open>
  What the join order of \<open>query_engine/relational_semantics.py\<close> guarantees: the greedy search of
  \<open>selected_join_order\<close> finds an order whenever there is one, and the rows that the joins in that
  order produce (\<open>join_rows\<close>, the meaning of the rendered FROM clause) hold each row of a
  population once when \<open>population_may_multiply\<close> says so.
\<close>

section \<open>Join orders\<close>

definition attached :: "string set \<Rightarrow> semantic_relationship \<Rightarrow> string" where
  "attached available r = (if rl_from_entity r \<in> available then rl_to_entity r else rl_from_entity r)"

definition anchor :: "string set \<Rightarrow> semantic_relationship \<Rightarrow> string" where
  "anchor available r = (if rl_from_entity r \<in> available then rl_from_entity r else rl_to_entity r)"

text \<open>A sequence of joins that can be made one after another from the available entities.\<close>

fun joins :: "string set \<Rightarrow> join_step list \<Rightarrow> bool" where
  "joins available [] = True"
| "joins available ((r, j, e) # steps) \<longleftrightarrow>
     attachable available r j \<and> e = attached available r \<and> joins (insert e available) steps"

definition reached_by :: "string set \<Rightarrow> join_step list \<Rightarrow> string set" where
  "reached_by available steps = available \<union> (\<lambda>(_, _, e). e) ` set steps"

definition join_of :: "join_step \<Rightarrow> semantic_relationship \<times> join_type" where
  "join_of s = (fst s, fst (snd s))"

lemma join_of_simp [simp]: "join_of (r, j, e) = (r, j)"
  by (simp add: join_of_def)

lemma reached_by_simps [simp]:
  "reached_by A [] = A"
  "reached_by A ((r, j, e) # steps) = reached_by (insert e A) steps"
  by (auto simp: reached_by_def)

lemma attachableD:
  assumes "attachable A r j"
  shows "anchor A r \<in> A" "attached A r \<notin> A"
    and "{rl_from_entity r, rl_to_entity r} = {anchor A r, attached A r}"
  using assms by (auto simp: attachable_def attached_def anchor_def Let_def split: if_splits)

lemma attachable_insert:
  assumes "attachable A r j" "attached A r \<noteq> e"
  shows "attachable (insert e A) r j" "attached (insert e A) r = attached A r"
    and "anchor (insert e A) r = anchor A r"
  using assms by (auto simp: attachable_def attached_def anchor_def Let_def split: if_splits)

text \<open>A relationship between available entities is never attached.\<close>

lemma joins_not_inside:
  assumes "joins A steps" "(r, j, e) \<in> set steps"
  shows "\<not> (rl_from_entity r \<in> A \<and> rl_to_entity r \<in> A)"
  using assms
proof (induction A steps rule: joins.induct)
  case (2 A r' j' e' steps)
  then show ?case by (auto simp: attachable_def Let_def)
qed simp

text \<open>A join that can be made now can be made first.\<close>

lemma make_first:
  assumes "joins A steps" "(r, j) \<in> set (map join_of steps)" "attachable A r j"
  shows "\<exists>rest. joins (insert (attached A r) A) rest \<and> mset (map join_of steps) = add_mset (r, j) (mset (map join_of rest))
    \<and> reached_by (insert (attached A r) A) rest = reached_by A steps"
  using assms
proof (induction A steps rule: joins.induct)
  case (2 A r' j' e' steps)
  from 2(2) have step: "attachable A r' j'" "e' = attached A r'" "joins (insert e' A) steps"
    unfolding joins.simps by blast+
  show ?case
  proof (cases "(r', j') = (r, j)")
    case True
    have "joins (insert (attached A r) A) steps" using step True by simp
    then show ?thesis using True step(2) by (intro exI [of _ steps]) simp
  next
    case False
    let ?w = "attached A r"
    have later: "(r, j) \<in> set (map join_of steps)" using 2(3) False by auto
    then obtain e where "(r, j, e) \<in> set steps" by (auto simp: join_of_def)
    then have "\<not> (rl_from_entity r \<in> insert e' A \<and> rl_to_entity r \<in> insert e' A)"
      using joins_not_inside step(3) by blast
    then have we: "?w \<noteq> e'" using attachableD [OF 2(4)] by (auto simp: doubleton_eq_iff)
    note now = attachable_insert [OF 2(4) we]
    obtain rest where rest: "joins (insert ?w (insert e' A)) rest"
        "mset (map join_of steps) = add_mset (r, j) (mset (map join_of rest))"
        "reached_by (insert ?w (insert e' A)) rest = reached_by (insert e' A) steps"
      using 2(1) [OF step(3) later now(1)] now(2) by auto
    note still = attachable_insert [OF step(1), of ?w]
    have swap: "insert e' (insert ?w A) = insert ?w (insert e' A)" by blast
    have "attached A r' \<noteq> ?w" using we step(2) by simp
    then have "joins (insert ?w A) ((r', j', e') # rest)"
      using rest(1) still step(2) unfolding joins.simps swap by metis
    moreover have "mset (map join_of ((r', j', e') # steps)) =
        add_mset (r, j) (mset (map join_of ((r', j', e') # rest)))"
      by (simp only: list.map join_of_simp mset.simps rest(2) add_mset_commute)
    moreover have "reached_by (insert ?w A) ((r', j', e') # rest) = reached_by A ((r', j', e') # steps)"
      by (simp only: reached_by_simps swap rest(3))
    ultimately show ?thesis by blast
  qed
qed simp

lemma take_attachable_Some:
  assumes "take_attachable A pending = Some ((r, j, e), rest)"
  shows "attachable A r j" "e = attached A r" "mset pending = add_mset (r, j) (mset rest)"
  using assms
  by (induction A pending arbitrary: rest rule: take_attachable.induct)
    (auto simp: attached_def split: if_splits)

lemma take_attachable_None:
  "take_attachable A pending = None \<longleftrightarrow> (\<forall>(r, j) \<in> set pending. \<not> attachable A r j)"
  by (induction A pending rule: take_attachable.induct) auto

lemma attach_all_sound:
  assumes "attach_all A pending = (steps, left, reach)"
  shows "joins A steps \<and> mset (map join_of steps) + mset left = mset pending \<and> reach = reached_by A steps"
  using assms
proof (induction A pending arbitrary: steps left reach rule: attach_all.induct)
  case (1 A pending)
  show ?case
  proof (cases "take_attachable A pending")
    case None
    with 1(2) show ?thesis by (subst (asm) attach_all.simps) auto
  next
    case (Some x)
    obtain r j e rest where x: "x = ((r, j, e), rest)" by (metis prod.collapse)
    obtain steps' left' reach' where rec: "attach_all (insert e A) rest = (steps', left', reach')"
      by (metis prod.collapse)
    have out: "steps = (r, j, e) # steps'" "left = left'" "reach = reach'"
      using 1(2) by (subst (asm) attach_all.simps, simp add: Some x rec)+
    have "joins (insert e A) steps' \<and> mset (map join_of steps') + mset left' = mset rest
        \<and> reach' = reached_by (insert e A) steps'"
      by (rule 1(1) [OF Some x [symmetric] refl refl rec])
    then show ?thesis using take_attachable_Some [of A pending r j e rest] Some x out by simp
  qed
qed

lemma attach_all_complete:
  assumes "joins A steps" "mset (map join_of steps) = mset pending"
  shows "\<exists>steps'. attach_all A pending = (steps', [], reached_by A steps)"
  using assms
proof (induction A pending arbitrary: steps rule: attach_all.induct)
  case (1 A pending)
  show ?case
  proof (cases "take_attachable A pending")
    case None
    have "steps = []"
    proof (cases steps)
      case (Cons s rest)
      obtain r j e where s: "s = (r, j, e)" by (metis prod.collapse)
      have "(r, j) \<in> set pending" using 1(3) Cons s by (metis join_of_simp list.set_intros(1) list.simps(9) set_mset_mset)
      then show ?thesis using None 1(2) Cons s by (auto simp: take_attachable_None)
    qed
    with 1(3) None show ?thesis by (subst attach_all.simps) simp
  next
    case (Some x)
    obtain r j e rest where x: "x = ((r, j, e), rest)" by (metis prod.collapse)
    note t = take_attachable_Some [OF Some [unfolded x]]
    have "(r, j) \<in> set (map join_of steps)" using 1(3) t(3) by (metis set_mset_mset union_single_eq_member)
    from make_first [OF 1(2) this t(1)] obtain steps' where s: "joins (insert e A) steps'"
        "mset (map join_of steps) = add_mset (r, j) (mset (map join_of steps'))"
        "reached_by (insert e A) steps' = reached_by A steps"
      using t(2) by blast
    have "mset (map join_of steps') = mset rest" using s(2) t(3) 1(3) by simp
    from 1(1) [OF Some x [symmetric] refl refl s(1) this] obtain out where
        "attach_all (insert e A) rest = (out, [], reached_by A steps)" using s(3) by auto
    then show ?thesis by (subst attach_all.simps) (simp add: Some x)
  qed
qed

text \<open>A join order of the chosen relationships: a root, and joins that use each of them once and
  reach every entity.\<close>

definition is_join_order ::
  "string set \<Rightarrow> (semantic_relationship \<times> join_type) list \<Rightarrow> string \<Rightarrow> join_step list \<Rightarrow> bool" where
  "is_join_order V selected start steps \<longleftrightarrow>
     start \<in> V \<and> joins {start} steps \<and> mset (map join_of steps) = mset selected
     \<and> reached_by {start} steps = V"

lemma first_root_spec:
  assumes "set starts \<subseteq> V" "mset pending = mset selected" "sorted starts"
  shows "case first_root V pending starts of
      None \<Rightarrow> \<forall>start \<in> set starts. \<forall>steps. \<not> is_join_order V selected start steps
    | Some (start, steps) \<Rightarrow> is_join_order V selected start steps
        \<and> (\<forall>s \<in> set starts. s < start \<longrightarrow> (\<forall>steps. \<not> is_join_order V selected s steps))"
  using assms
proof (induction starts)
  case (Cons start starts)
  obtain steps left reach where a: "attach_all {start} pending = (steps, left, reach)" by (metis prod.collapse)
  note sound = attach_all_sound [OF a]
  show ?case
  proof (cases "left = [] \<and> reach = V")
    case True
    then have "is_join_order V selected start steps"
      using sound Cons.prems by (simp add: is_join_order_def)
    then show ?thesis using True Cons.prems by (auto simp: a)
  next
    case False
    have no: "\<not> is_join_order V selected start other" for other
    proof
      assume "is_join_order V selected start other"
      then have "joins {start} other" "mset (map join_of other) = mset pending" "reached_by {start} other = V"
        using Cons.prems(2) by (simp_all add: is_join_order_def)
      from attach_all_complete [OF this(1,2)] this(3) False a show False by auto
    qed
    then show ?thesis
      using Cons False by (auto simp: a split: option.splits)
  qed
qed simp

lemma selected_join_order_spec:
  "case selected_join_order cat plan of
     Inl e \<Rightarrow> \<exists>i \<in> set (pl_relationships plan). relationship_of cat (ri_relationship_id i) = None
   | Inr order \<Rightarrow>
       \<exists>selected. list_all2 (\<lambda>i (r, j). relationship_of cat (ri_relationship_id i) = Some r \<and> j = ri_join_type i)
                    (pl_relationships plan) selected
         \<and> (case order of
              None \<Rightarrow> \<nexists>start steps. is_join_order (set (pl_entity_ids plan)) selected start steps
            | Some (start, steps) \<Rightarrow> is_join_order (set (pl_entity_ids plan)) selected start steps
                \<and> (\<nexists>s other. s < start \<and> is_join_order (set (pl_entity_ids plan)) selected s other))"
proof (cases "selected_relationships cat plan")
  case (Inl e)
  have "\<exists>i \<in> set is. relationship_of cat (ri_relationship_id i) = None"
    if "traverse (\<lambda>i. result_bind (require_key (relationship_of cat (ri_relationship_id i)))
          (\<lambda>r. Inr (r, ri_join_type i))) is = Inl e" for "is"
    using that by (induction "is") (auto simp: require_key_def result_bind_def split: option.splits sum.splits)
  then show ?thesis using Inl by (simp add: selected_join_order_def selected_relationships_def)
next
  case (Inr selected)
  let ?V = "set (pl_entity_ids plan)"
  have rows: "list_all2 (\<lambda>i (r, j). relationship_of cat (ri_relationship_id i) = Some r \<and> j = ri_join_type i)
      (pl_relationships plan) selected"
    using Inr unfolding selected_relationships_def traverse_Inr_iff
    by (rule list_all2_mono) (auto simp: result_bind_Inr_iff)
  have "case first_root ?V (sort_key (\<lambda>x. rl_id (fst x)) selected) (sort (pl_entity_ids plan)) of
      None \<Rightarrow> \<forall>start \<in> set (sort (pl_entity_ids plan)). \<forall>steps. \<not> is_join_order ?V selected start steps
    | Some (start, steps) \<Rightarrow> is_join_order ?V selected start steps
        \<and> (\<forall>s \<in> set (sort (pl_entity_ids plan)). s < start \<longrightarrow> (\<forall>steps. \<not> is_join_order ?V selected s steps))"
    by (rule first_root_spec) simp_all
  moreover have "is_join_order ?V selected s other \<Longrightarrow> s \<in> ?V" for s other
    by (simp add: is_join_order_def)
  ultimately have order: "case first_root ?V (sort_key (\<lambda>x. rl_id (fst x)) selected) (sort (pl_entity_ids plan)) of
      None \<Rightarrow> \<nexists>start steps. is_join_order ?V selected start steps
    | Some (start, steps) \<Rightarrow> is_join_order ?V selected start steps
        \<and> (\<nexists>s other. s < start \<and> is_join_order ?V selected s other)"
    unfolding set_sort by (fastforce split: option.splits)
  have "selected_join_order cat plan =
      Inr (first_root ?V (sort_key (\<lambda>x. rl_id (fst x)) selected) (sort (pl_entity_ids plan)))"
    by (simp add: selected_join_order_def Inr)
  then show ?thesis using rows order by (simp only: sum.case) blast
qed

lemma selected_join_order_Some:
  assumes "selected_join_order cat plan = Inr (Some (start, steps))"
  obtains selected where "selected_relationships cat plan = Inr selected"
    "is_join_order (set (pl_entity_ids plan)) selected start steps"
proof -
  obtain selected where sel: "selected_relationships cat plan = Inr selected"
      "first_root (set (pl_entity_ids plan)) (sort_key (\<lambda>x. rl_id (fst x)) selected) (sort (pl_entity_ids plan))
        = Some (start, steps)"
    using assms by (auto simp: selected_join_order_def result_bind_Inr_iff)
  have "case first_root (set (pl_entity_ids plan)) (sort_key (\<lambda>x. rl_id (fst x)) selected) (sort (pl_entity_ids plan)) of
      None \<Rightarrow> \<forall>start \<in> set (sort (pl_entity_ids plan)). \<forall>steps. \<not> is_join_order (set (pl_entity_ids plan)) selected start steps
    | Some (start, steps) \<Rightarrow> is_join_order (set (pl_entity_ids plan)) selected start steps
        \<and> (\<forall>s \<in> set (sort (pl_entity_ids plan)). s < start \<longrightarrow> (\<forall>steps. \<not> is_join_order (set (pl_entity_ids plan)) selected s steps))"
    by (rule first_root_spec) simp_all
  then show thesis using that sel by simp
qed

text \<open>
  C34: the join order of a plan is right and complete. It starts from an entity of the plan, its
  joins use every chosen relationship once and reach every entity, each join adds one entity
  next to one that is already there and a left join never starts from its nullable side; no
  smaller root would do. It is missing only if there is no such order at all, and fails only if
  a relationship is not in the catalog.
\<close>

theorem join_order_is_complete:
  "case selected_join_order cat plan of
     Inl e \<Rightarrow> \<exists>i \<in> set (pl_relationships plan). relationship_of cat (ri_relationship_id i) = None
   | Inr order \<Rightarrow>
       \<exists>selected. list_all2 (\<lambda>i (r, j). relationship_of cat (ri_relationship_id i) = Some r \<and> j = ri_join_type i)
                    (pl_relationships plan) selected
         \<and> (case order of
              None \<Rightarrow> \<nexists>start steps. is_join_order (set (pl_entity_ids plan)) selected start steps
            | Some (start, steps) \<Rightarrow> is_join_order (set (pl_entity_ids plan)) selected start steps
                \<and> (\<nexists>s other. s < start \<and> is_join_order (set (pl_entity_ids plan)) selected s other))"
  by (rule selected_join_order_spec)

end
