(* ===== verification/Plan_Constraints.thy ===== *)
theory Plan_Constraints
  imports Semantic_Plan "HOL-Library.AList"
begin

text \<open>
  The check that the predicates of a plan can hold together
  (\<open>_validate_predicate_consistency\<close> of \<open>query_engine/semantic_plan.py\<close>): the equalities, the
  allowed values and the excluded values of each field are collected in three dictionaries and
  compared. It is related to the rows that meet the predicates: exactly for the comparisons with
  values, and in one direction with the comparisons of days, which the check leaves out.
\<close>

section \<open>The code\<close>

record entity_predicate =
  ep_entity_id :: string
  ep_column :: string
  ep_operator :: predicate_operator
  ep_value :: sem_value

definition entity_predicate_for :: "string \<Rightarrow> semantic_predicate \<Rightarrow> entity_predicate" where
  "entity_predicate_for entity_id p =
     \<lparr>ep_entity_id = entity_id, ep_column = sp_column p, ep_operator = sp_operator p,
      ep_value = sp_value p\<rparr>"

text \<open>What Python compares of a value: a tuple is never equal to a scalar.\<close>

datatype value_key = KOne scalar_key | KMany "scalar_key list"

fun key_of_value :: "sem_value \<Rightarrow> value_key" where
  "key_of_value (One v) = KOne (key_of_scalar v)"
| "key_of_value (Many vs) = KMany (map key_of_scalar vs)"

definition value_keys :: "scalar list \<Rightarrow> value_key set" where
  "value_keys vs = KOne ` scalar_keys vs"

type_synonym fkey = "string \<times> string"

record 'k constraints =
  cs_equals :: "('k \<times> value_key) list"
  cs_allowed :: "('k \<times> value_key set) list"
  cs_excluded :: "('k \<times> value_key set) list"

abbreviation contradiction :: plan_error where
  "contradiction \<equiv> PlanInvalid ''predicate_contradiction''"

text \<open>
  \<open>!=\<close> of Python, by which \<open>nan\<close> differs from itself. A set finds a \<open>nan\<close> by its identity;
  the model takes all of them for one there, which the theorems below do not rely on.
\<close>

definition differs :: "value_key \<Rightarrow> value_key \<Rightarrow> bool" where
  "differs w v \<longleftrightarrow> w \<noteq> v \<or> v = KOne KNaN"

definition add_equal_constraint ::
  "'k \<Rightarrow> value_key \<Rightarrow> 'k constraints \<Rightarrow> plan_error + 'k constraints" where
  "add_equal_constraint k v c =
     (if (case map_of (cs_equals c) k of None \<Rightarrow> False | Some w \<Rightarrow> differs w v) then Inl contradiction
      else Inr (c\<lparr>cs_equals := AList.update k v (cs_equals c)\<rparr>))"

definition add_allowed_constraint ::
  "'k \<Rightarrow> value_key set \<Rightarrow> 'k constraints \<Rightarrow> plan_error + 'k constraints" where
  "add_allowed_constraint k vs c =
     (let narrowed = (case map_of (cs_allowed c) k of None \<Rightarrow> vs | Some existing \<Rightarrow> existing \<inter> vs) in
      if narrowed = {} then Inl contradiction
      else Inr (c\<lparr>cs_allowed := AList.update k narrowed (cs_allowed c)\<rparr>))"

definition excluded_for :: "'k \<Rightarrow> 'k constraints \<Rightarrow> value_key set" where
  "excluded_for k c = (case map_of (cs_excluded c) k of None \<Rightarrow> {} | Some vs \<Rightarrow> vs)"

definition add_excluded :: "'k \<Rightarrow> value_key set \<Rightarrow> 'k constraints \<Rightarrow> 'k constraints" where
  "add_excluded k vs c =
     c\<lparr>cs_excluded := AList.update k (excluded_for k c \<union> vs) (cs_excluded c)\<rparr>"

definition tuple_values :: "sem_value \<Rightarrow> plan_error + value_key set" where
  "tuple_values v =
     (case v of One _ \<Rightarrow> Inl (PlanInvalid ''predicate_value_invalid'') | Many vs \<Rightarrow> Inr (value_keys vs))"

definition add_concept_predicate ::
  "entity_predicate \<Rightarrow> fkey constraints \<Rightarrow> plan_error + fkey constraints" where
  "add_concept_predicate p c =
     (let k = (ep_entity_id p, ep_column p) in
      case ep_operator p of
        OpEquals \<Rightarrow> add_equal_constraint k (key_of_value (ep_value p)) c
      | OpIn \<Rightarrow> result_bind (tuple_values (ep_value p)) (\<lambda>vs. add_allowed_constraint k vs c)
      | _ \<Rightarrow> Inr c)"

definition add_literal_filter ::
  "literal_filter \<Rightarrow> fkey constraints \<Rightarrow> plan_error + fkey constraints" where
  "add_literal_filter f c =
     (let k = field_key (lf_field f) in
      case lf_operator f of
        LfEquals \<Rightarrow> add_equal_constraint k (key_of_value (lf_value f)) c
      | LfNotEquals \<Rightarrow> Inr (add_excluded k {key_of_value (lf_value f)} c)
      | LfIn \<Rightarrow> result_bind (tuple_values (lf_value f)) (\<lambda>vs. add_allowed_constraint k vs c)
      | LfNotIn \<Rightarrow> result_bind (tuple_values (lf_value f)) (\<lambda>vs. Inr (add_excluded k vs c)))"

fun fold_checked :: "('a \<Rightarrow> 's \<Rightarrow> 'e + 's) \<Rightarrow> 'a list \<Rightarrow> 's \<Rightarrow> 'e + 's" where
  "fold_checked f [] s = Inr s"
| "fold_checked f (x # xs) s = result_bind (f x s) (fold_checked f xs)"

definition equality_fits :: "'k constraints \<Rightarrow> 'k \<times> value_key \<Rightarrow> bool" where
  "equality_fits c e =
     (case e of (k, v) \<Rightarrow>
        v \<notin> excluded_for k c
        \<and> (case map_of (cs_allowed c) k of None \<Rightarrow> True | Some allowed \<Rightarrow> v \<in> allowed))"

definition some_value_left :: "'k constraints \<Rightarrow> 'k \<times> value_key set \<Rightarrow> bool" where
  "some_value_left c e = (case e of (k, allowed) \<Rightarrow> allowed - excluded_for k c \<noteq> {})"

definition validate_predicate_consistency ::
  "entity_predicate list \<Rightarrow> literal_filter list \<Rightarrow> plan_error + unit" where
  "validate_predicate_consistency predicates filters =
     result_bind (fold_checked add_concept_predicate predicates
                    \<lparr>cs_equals = [], cs_allowed = [], cs_excluded = []\<rparr>) (\<lambda>c1.
     result_bind (fold_checked add_literal_filter filters c1) (\<lambda>c.
     result_bind (ensure (list_all (equality_fits c) (cs_equals c)) contradiction) (\<lambda>_.
     ensure (list_all (some_value_left c) (cs_allowed c)) contradiction)))"

section \<open>Rows\<close>

text \<open>
  A row as far as the predicates of a plan see it: each field holds a value or, with \<open>None\<close>,
  SQL's \<open>NULL\<close>, which no comparison holds of. How many days old a value of a field is, read as a
  point in time, is a parameter \<open>age\<close>; the predicates have the meaning of their SQL.
\<close>

type_synonym row = "fkey \<Rightarrow> scalar_key option"

definition row_meets :: "(fkey \<Rightarrow> scalar_key \<Rightarrow> rat) \<Rightarrow> row \<Rightarrow> entity_predicate \<Rightarrow> bool" where
  "row_meets age row p =
     (let k = (ep_entity_id p, ep_column p);
          is_older = (\<lambda>n. \<exists>x. row k = Some x \<and> age k x > of_int n) in
      case (ep_operator p, ep_value p) of
        (OpEquals, One v) \<Rightarrow> row k = Some (key_of_scalar v)
      | (OpIn, Many vs) \<Rightarrow> (\<exists>x \<in> scalar_keys vs. row k = Some x)
      | (OpOlderThanDays, One (SInt n)) \<Rightarrow> is_older n
      | (OpWithinLastDays, One (SInt n)) \<Rightarrow> (\<exists>x. row k = Some x \<and> age k x \<le> of_int n)
      | (OpIsNullOrOlderThanDays, One (SInt n)) \<Rightarrow> row k = None \<or> is_older n
      | _ \<Rightarrow> False)"

definition row_meets_filter :: "row \<Rightarrow> literal_filter \<Rightarrow> bool" where
  "row_meets_filter row f =
     (case row (field_key (lf_field f)) of
        None \<Rightarrow> False
      | Some x \<Rightarrow>
          (case (lf_operator f, lf_value f) of
             (LfEquals, One v) \<Rightarrow> x = key_of_scalar v
           | (LfNotEquals, One v) \<Rightarrow> x \<noteq> key_of_scalar v
           | (LfIn, Many vs) \<Rightarrow> x \<in> scalar_keys vs
           | (LfNotIn, Many vs) \<Rightarrow> x \<notin> scalar_keys vs
           | _ \<Rightarrow> False))"

text \<open>The predicates the check looks at; the others compare a number of days.\<close>

definition compares_values :: "entity_predicate \<Rightarrow> bool" where
  "compares_values p \<longleftrightarrow> ep_operator p \<in> {OpEquals, OpIn}"

definition nan_free :: "sem_value \<Rightarrow> bool" where
  "nan_free v = (case v of One x \<Rightarrow> x \<noteq> SNaN | Many xs \<Rightarrow> SNaN \<notin> set xs)"

section \<open>Assignments\<close>

text \<open>The same without \<open>NULL\<close> and days, for the proofs.\<close>

type_synonym 'k assignment = "'k \<Rightarrow> scalar_key"

definition meets_values :: "fkey assignment \<Rightarrow> entity_predicate \<Rightarrow> bool" where
  "meets_values a p =
     (let x = a (ep_entity_id p, ep_column p) in
      case (ep_operator p, ep_value p) of
        (OpEquals, One v) \<Rightarrow> x = key_of_scalar v
      | (OpIn, Many vs) \<Rightarrow> x \<in> scalar_keys vs
      | _ \<Rightarrow> True)"

definition meets_filter :: "fkey assignment \<Rightarrow> literal_filter \<Rightarrow> bool" where
  "meets_filter a f =
     (let x = a (field_key (lf_field f)) in
      case (lf_operator f, lf_value f) of
        (LfEquals, One v) \<Rightarrow> x = key_of_scalar v
      | (LfNotEquals, One v) \<Rightarrow> x \<noteq> key_of_scalar v
      | (LfIn, Many vs) \<Rightarrow> x \<in> scalar_keys vs
      | (LfNotIn, Many vs) \<Rightarrow> x \<notin> scalar_keys vs
      | _ \<Rightarrow> True)"

text \<open>An equality has a scalar, a membership a tuple, as the catalog's loader requires.\<close>

definition well_shaped :: "entity_predicate \<Rightarrow> bool" where
  "well_shaped p =
     (case (ep_operator p, ep_value p) of
        (OpEquals, Many _) \<Rightarrow> False | (OpIn, One _) \<Rightarrow> False | _ \<Rightarrow> True)"

definition meets_constraints :: "'k assignment \<Rightarrow> 'k constraints \<Rightarrow> bool" where
  "meets_constraints a c \<longleftrightarrow>
     (\<forall>k v. map_of (cs_equals c) k = Some v \<longrightarrow> KOne (a k) = v)
     \<and> (\<forall>k vs. map_of (cs_allowed c) k = Some vs \<longrightarrow> KOne (a k) \<in> vs)
     \<and> (\<forall>k. KOne (a k) \<notin> excluded_for k c)"

definition wf_constraints :: "'k constraints \<Rightarrow> bool" where
  "wf_constraints c \<longleftrightarrow>
     distinct (map fst (cs_equals c)) \<and> distinct (map fst (cs_allowed c))
     \<and> (\<forall>k v. map_of (cs_equals c) k = Some v \<longrightarrow> v \<in> range KOne)
     \<and> (\<forall>k vs. map_of (cs_allowed c) k = Some vs \<longrightarrow> vs \<subseteq> range KOne)
     \<and> (\<forall>k. finite (excluded_for k c))"

text \<open>One step adds one constraint, or fails because no assignment meets it as well.\<close>

definition adds :: "('k assignment \<Rightarrow> bool) \<Rightarrow> 'k constraints \<Rightarrow> plan_error + 'k constraints \<Rightarrow> bool" where
  "adds new c r =
     (case r of
        Inr c' \<Rightarrow> wf_constraints c' \<and> (\<forall>a. meets_constraints a c' \<longleftrightarrow> meets_constraints a c \<and> new a)
      | Inl e \<Rightarrow> e = contradiction \<and> (\<forall>a. \<not> (meets_constraints a c \<and> new a)))"

lemma add_equal_adds:
  assumes "wf_constraints c" "v \<noteq> KNaN"
  shows "adds (\<lambda>a. a k = v) c (add_equal_constraint k (KOne v) c)"
proof (cases "\<exists>w. map_of (cs_equals c) k = Some w \<and> w \<noteq> KOne v")
  case True
  then obtain w where "map_of (cs_equals c) k = Some w" "w \<noteq> KOne v" by blast
  then show ?thesis by (auto simp: adds_def add_equal_constraint_def differs_def meets_constraints_def)
next
  case False
  then have old: "map_of (cs_equals c) k = Some w \<Longrightarrow> w = KOne v" for w by auto
  then have result: "add_equal_constraint k (KOne v) c =
      Inr (c\<lparr>cs_equals := AList.update k (KOne v) (cs_equals c)\<rparr>)"
    by (cases "map_of (cs_equals c) k") (use assms(2) in \<open>simp_all add: add_equal_constraint_def differs_def\<close>)
  show ?thesis
    unfolding result using assms old
    by (auto simp: adds_def meets_constraints_def wf_constraints_def
        update_conv' excluded_for_def distinct_update simp del: map_of_eq_Some_iff)
qed

lemma map_update_all:
  "(\<forall>l w. (m(k \<mapsto> v)) l = Some w \<longrightarrow> P l w) \<longleftrightarrow> P k v \<and> (\<forall>l w. l \<noteq> k \<longrightarrow> m l = Some w \<longrightarrow> P l w)"
  by auto

lemma map_has_all:
  "m k = Some v \<Longrightarrow> (\<forall>l w. m l = Some w \<longrightarrow> P l w) \<longleftrightarrow> P k v \<and> (\<forall>l w. l \<noteq> k \<longrightarrow> m l = Some w \<longrightarrow> P l w)"
  by auto (metis option.inject)

lemma add_allowed_adds:
  assumes "wf_constraints c"
  shows "adds (\<lambda>a. a k \<in> S) c (add_allowed_constraint k (KOne ` S) c)"
proof (cases "map_of (cs_allowed c) k")
  case None
  then show ?thesis
    using assms
    by (auto simp: adds_def add_allowed_constraint_def meets_constraints_def wf_constraints_def
        update_conv' excluded_for_def distinct_update Let_def)
next
  case (Some T)
  show ?thesis
  proof (cases "T \<inter> KOne ` S = {}")
    case True
    then show ?thesis
      using Some unfolding adds_def add_allowed_constraint_def meets_constraints_def Let_def
      by simp blast
  next
    case False
    have one: "KOne x \<in> KOne ` S \<longleftrightarrow> x \<in> S" for x by auto
    have result: "add_allowed_constraint k (KOne ` S) c =
        Inr (c\<lparr>cs_allowed := AList.update k (T \<inter> KOne ` S) (cs_allowed c)\<rparr>)"
      using False Some by (simp add: add_allowed_constraint_def)
    have "wf_constraints (c\<lparr>cs_allowed := AList.update k (T \<inter> KOne ` S) (cs_allowed c)\<rparr>)"
      using assms by (auto simp: wf_constraints_def update_conv' excluded_for_def distinct_update
          simp del: map_of_eq_Some_iff)
    then show ?thesis
      using Some one unfolding result adds_def sum.case
      by (simp add: meets_constraints_def update_conv' map_update_all map_has_all [of "map_of (cs_allowed c)", OF Some]
          excluded_for_def) blast
  qed
qed

lemma add_excluded_adds:
  assumes "wf_constraints c" "finite S"
  shows "adds (\<lambda>a. a k \<notin> S) c (Inr (add_excluded k (KOne ` S) c))"
proof -
  have ex: "excluded_for l (add_excluded k (KOne ` S) c) =
      (if l = k then excluded_for k c \<union> KOne ` S else excluded_for l c)" for l
    by (auto simp: add_excluded_def excluded_for_def update_conv')
  have same: "cs_equals (add_excluded k vs c) = cs_equals c" "cs_allowed (add_excluded k vs c) = cs_allowed c" for vs
    by (simp_all add: add_excluded_def)
  show ?thesis
    using assms by (auto simp: adds_def meets_constraints_def wf_constraints_def ex same split: if_splits)
qed

lemma adds_True: "wf_constraints c \<Longrightarrow> adds (\<lambda>a. True) c (Inr c)"
  by (simp add: adds_def)

lemma key_of_scalar_NaN [simp]: "key_of_scalar x = KNaN \<longleftrightarrow> x = SNaN"
  by (cases x) simp_all

lemma add_concept_predicate_adds:
  assumes "wf_constraints c" "well_shaped p" "nan_free (ep_value p)"
  shows "adds (\<lambda>a. meets_values a p) c (add_concept_predicate p c)"
  using assms add_equal_adds [OF assms(1)] add_allowed_adds [OF assms(1)] adds_True [OF assms(1)]
  by (cases "ep_operator p"; cases "ep_value p")
    (simp_all add: add_concept_predicate_def meets_values_def well_shaped_def nan_free_def tuple_values_def value_keys_def Let_def)

lemma add_literal_filter_adds:
  assumes "wf_constraints c" "valid_literal_filter f" "nan_free (lf_value f)"
  shows "adds (\<lambda>a. meets_filter a f) c (add_literal_filter f c)"
proof -
  have "finite (scalar_keys vs)" for vs by (simp add: scalar_keys_def)
  then show ?thesis
    using assms add_equal_adds [OF assms(1)] add_allowed_adds [OF assms(1)] add_excluded_adds [OF assms(1)]
      add_excluded_adds [OF assms(1), of "{x}" for x]
    by (cases "lf_operator f"; cases "lf_value f")
      (simp_all add: add_literal_filter_def meets_filter_def valid_literal_filter_def nan_free_def tuple_values_def
        value_keys_def Let_def)
qed

lemma fold_checked_adds:
  assumes "\<And>x c. x \<in> set xs \<Longrightarrow> wf_constraints c \<Longrightarrow> adds (\<lambda>a. meets a x) c (f x c)" "wf_constraints c"
  shows "adds (\<lambda>a. \<forall>x \<in> set xs. meets a x) c (fold_checked f xs c)"
  using assms
proof (induction xs arbitrary: c)
  case Nil
  then show ?case by (simp add: adds_def)
next
  case (Cons x xs)
  have first: "adds (\<lambda>a. meets a x) c (f x c)" using Cons.prems by simp
  show ?case
  proof (cases "f x c")
    case (Inl e)
    with first show ?thesis by (auto simp: adds_def)
  next
    case (Inr c')
    with first have c': "wf_constraints c'" "meets_constraints a c' \<longleftrightarrow> meets_constraints a c \<and> meets a x" for a
      by (simp_all add: adds_def)
    have "adds (\<lambda>a. \<forall>x \<in> set xs. meets a x) c' (fold_checked f xs c')"
      using Cons.IH [OF _ c'(1)] Cons.prems(1) by simp
    with Inr c'(2) show ?thesis by (auto simp: adds_def split: sum.splits)
  qed
qed

text \<open>The comparison at the end.\<close>

lemma exists_outside:
  assumes "finite X"
  obtains x where "KOne x \<notin> X"
proof -
  have "inj (\<lambda>n::nat. KOne (KNum (of_nat n)))" by (simp add: inj_on_def)
  then have "infinite (range (\<lambda>n::nat. KOne (KNum (of_nat n))))"
    using finite_imageD infinite_UNIV_nat by blast
  then obtain y where "y \<in> range (\<lambda>n::nat. KOne (KNum (of_nat n)))" "y \<notin> X"
    using assms by (meson finite_subset subsetI)
  then show thesis using that by blast
qed

lemma final_check:
  assumes "wf_constraints c"
  shows "list_all (equality_fits c) (cs_equals c) \<and> list_all (some_value_left c) (cs_allowed c)
    \<longleftrightarrow> (\<exists>a. meets_constraints a c)"
proof
  assume l: "list_all (equality_fits c) (cs_equals c) \<and> list_all (some_value_left c) (cs_allowed c)"
  have "\<exists>x. (\<forall>v. map_of (cs_equals c) k = Some v \<longrightarrow> KOne x = v)
      \<and> (\<forall>vs. map_of (cs_allowed c) k = Some vs \<longrightarrow> KOne x \<in> vs) \<and> KOne x \<notin> excluded_for k c" for k
  proof (cases "map_of (cs_equals c) k")
    case (Some v)
    then have "v \<in> range KOne" using assms unfolding wf_constraints_def by blast
    then obtain x where x: "v = KOne x" ..
    have "equality_fits c (k, v)" using l map_of_SomeD [OF Some] by (auto simp: list_all_iff)
    then show ?thesis
      using Some x by (intro exI [of _ x]) (auto simp: equality_fits_def)
  next
    case eq: None
    show ?thesis
    proof (cases "map_of (cs_allowed c) k")
      case (Some vs)
      have "some_value_left c (k, vs)" using l map_of_SomeD [OF Some] by (auto simp: list_all_iff)
      moreover have "vs \<subseteq> range KOne" using assms Some by (simp add: wf_constraints_def)
      ultimately obtain x where "KOne x \<in> vs" "KOne x \<notin> excluded_for k c"
        by (auto simp: some_value_left_def)
      then show ?thesis using eq Some by (intro exI [of _ x]) simp
    next
      case None
      have "finite (excluded_for k c)" using assms by (simp add: wf_constraints_def)
      then obtain x where "KOne x \<notin> excluded_for k c" by (rule exists_outside)
      then show ?thesis using eq None by (intro exI [of _ x]) simp
    qed
  qed
  then obtain a where "\<And>k. (\<forall>v. map_of (cs_equals c) k = Some v \<longrightarrow> KOne (a k) = v)
      \<and> (\<forall>vs. map_of (cs_allowed c) k = Some vs \<longrightarrow> KOne (a k) \<in> vs) \<and> KOne (a k) \<notin> excluded_for k c"
    by metis
  then show "\<exists>a. meets_constraints a c" unfolding meets_constraints_def by blast
next
  assume "\<exists>a. meets_constraints a c"
  then obtain a where a: "meets_constraints a c" ..
  have "equality_fits c (k, v)" if "(k, v) \<in> set (cs_equals c)" for k v
  proof -
    have "map_of (cs_equals c) k = Some v" using assms that by (simp add: wf_constraints_def)
    then have v: "v = KOne (a k)" using a unfolding meets_constraints_def by metis
    show ?thesis
      using a unfolding v equality_fits_def prod.case meets_constraints_def
      by (cases "map_of (cs_allowed c) k") (simp_all del: map_of_eq_Some_iff)
  qed
  moreover have "some_value_left c (k, vs)" if "(k, vs) \<in> set (cs_allowed c)" for k vs
  proof -
    have "map_of (cs_allowed c) k = Some vs" using assms that by (simp add: wf_constraints_def)
    with a have "KOne (a k) \<in> vs" "KOne (a k) \<notin> excluded_for k c"
      unfolding meets_constraints_def by blast+
    then show ?thesis by (auto simp: some_value_left_def)
  qed
  ultimately show "list_all (equality_fits c) (cs_equals c) \<and> list_all (some_value_left c) (cs_allowed c)"
    by (auto simp: list_all_iff)
qed

lemma consistency_decides:
  assumes "list_all well_shaped predicates" "list_all valid_literal_filter filters"
    and "list_all (\<lambda>p. nan_free (ep_value p)) predicates" "list_all (\<lambda>f. nan_free (lf_value f)) filters"
  shows "validate_predicate_consistency predicates filters =
    (if \<exists>a. list_all (meets_values a) predicates \<and> list_all (meets_filter a) filters
     then Inr () else Inl contradiction)"
proof -
  let ?c0 = "\<lparr>cs_equals = [], cs_allowed = [], cs_excluded = []\<rparr>"
  have wf0: "wf_constraints ?c0" by (simp add: wf_constraints_def excluded_for_def)
  have all0: "meets_constraints a ?c0" for a by (simp add: meets_constraints_def excluded_for_def)
  have one: "adds (\<lambda>a. list_all (meets_values a) predicates) ?c0
      (fold_checked add_concept_predicate predicates ?c0)"
    using fold_checked_adds [OF _ wf0, of predicates meets_values add_concept_predicate]
      add_concept_predicate_adds assms(1,3) by (simp add: list_all_iff)
  show ?thesis
  proof (cases "fold_checked add_concept_predicate predicates ?c0")
    case (Inl e)
    with one all0 show ?thesis
      by (auto simp: validate_predicate_consistency_def adds_def)
  next
    case c1: (Inr c1)
    with one have wf1: "wf_constraints c1" by (simp add: adds_def)
    have m1: "meets_constraints a c1 \<longleftrightarrow> list_all (meets_values a) predicates" for a
      using one all0 [of a] by (simp add: adds_def c1)
    have two: "adds (\<lambda>a. list_all (meets_filter a) filters) c1 (fold_checked add_literal_filter filters c1)"
      using fold_checked_adds [OF _ wf1, of filters meets_filter add_literal_filter]
        add_literal_filter_adds assms(2,4) by (simp add: list_all_iff)
    show ?thesis
    proof (cases "fold_checked add_literal_filter filters c1")
      case (Inl e)
      with two m1 show ?thesis
        by (auto simp: validate_predicate_consistency_def adds_def c1)
    next
      case c: (Inr c)
      with two m1 have wf: "wf_constraints c"
          and m: "meets_constraints a c \<longleftrightarrow>
            list_all (meets_values a) predicates \<and> list_all (meets_filter a) filters" for a
        by (simp_all add: adds_def)
      show ?thesis
        using final_check [OF wf] unfolding m
        by (auto simp: validate_predicate_consistency_def c1 c ensure_def)
    qed
  qed
qed

text \<open>Rows and assignments say the same of the predicates the check looks at.\<close>

lemma row_of_assignment:
  "list_all well_shaped predicates \<Longrightarrow> list_all (meets_values a) predicates
     \<Longrightarrow> list_all (\<lambda>p. compares_values p \<longrightarrow> row_meets age (\<lambda>k. Some (a k)) p) predicates"
  by (auto simp: list_all_iff row_meets_def meets_values_def compares_values_def well_shaped_def Let_def
      split: sem_value.splits)

lemma row_filter_of_assignment:
  "valid_literal_filter f \<Longrightarrow> row_meets_filter (\<lambda>k. Some (a k)) f \<longleftrightarrow> meets_filter a f"
  by (cases "lf_operator f"; cases "lf_value f")
    (simp_all add: row_meets_filter_def meets_filter_def valid_literal_filter_def Let_def)

definition filled :: "row \<Rightarrow> fkey assignment" where
  "filled row k = (case row k of None \<Rightarrow> KStr [] | Some x \<Rightarrow> x)"

lemma assignment_of_row:
  "row_meets age row p \<or> \<not> compares_values p \<Longrightarrow> meets_values (filled row) p"
  by (cases "ep_operator p"; cases "ep_value p")
    (auto simp: row_meets_def meets_values_def compares_values_def filled_def Let_def)

lemma assignment_filter_of_row: "row_meets_filter row f \<Longrightarrow> meets_filter (filled row) f"
  by (cases "lf_operator f"; cases "lf_value f"; cases "row (field_key (lf_field f))")
    (simp_all add: row_meets_filter_def meets_filter_def filled_def)

lemma satisfiable_rows:
  assumes "list_all well_shaped predicates" "list_all valid_literal_filter filters"
  shows "(\<exists>row. list_all (\<lambda>p. compares_values p \<longrightarrow> row_meets age row p) predicates
            \<and> list_all (row_meets_filter row) filters)
    \<longleftrightarrow> (\<exists>a. list_all (meets_values a) predicates \<and> list_all (meets_filter a) filters)"
proof (intro iffI; elim exE conjE)
  fix row assume "list_all (\<lambda>p. compares_values p \<longrightarrow> row_meets age row p) predicates"
    "list_all (row_meets_filter row) filters"
  then have "list_all (meets_values (filled row)) predicates" "list_all (meets_filter (filled row)) filters"
    using assignment_of_row assignment_filter_of_row unfolding list_all_iff by blast+
  then show "\<exists>a. list_all (meets_values a) predicates \<and> list_all (meets_filter a) filters" by blast
next
  fix a assume "list_all (meets_values a) predicates" "list_all (meets_filter a) filters"
  then have "list_all (\<lambda>p. compares_values p \<longrightarrow> row_meets age (\<lambda>k. Some (a k)) p) predicates"
    "list_all (row_meets_filter (\<lambda>k. Some (a k))) filters"
    using row_of_assignment [OF assms(1)] assms(2) by (auto simp: list_all_iff row_filter_of_assignment)
  then show "\<exists>row. list_all (\<lambda>p. compares_values p \<longrightarrow> row_meets age row p) predicates
      \<and> list_all (row_meets_filter row) filters" by blast
qed

lemma consistency_of_rows:
  assumes "list_all well_shaped predicates" "list_all valid_literal_filter filters"
    and "list_all (\<lambda>p. nan_free (ep_value p)) predicates" "list_all (\<lambda>f. nan_free (lf_value f)) filters"
  shows "validate_predicate_consistency predicates filters =
      (if \<exists>row. list_all (\<lambda>p. compares_values p \<longrightarrow> row_meets age row p) predicates
            \<and> list_all (row_meets_filter row) filters
       then Inr () else Inl contradiction)"
  unfolding satisfiable_rows [OF assms(1,2)] by (rule consistency_decides [OF assms])

text \<open>
  C32: the check of the predicates of concepts and the literal filters of a plan decides whether a
  row can meet all their comparisons with values (\<open>equals\<close>, \<open>in\<close>, \<open>not_equals\<close>, \<open>not_in\<close>): it
  passes exactly when one can, and otherwise the reason is \<open>predicate_contradiction\<close>. The
  comparisons with a number of days are left out, so it may pass where these exclude each other,
  but it never refuses predicates that a row meets, days included, whatever ages values have.
  (The loader of the catalog and the check of literals refuse \<open>nan\<close>.)
\<close>

theorem consistent_iff_satisfiable:
  assumes "list_all well_shaped predicates" "list_all valid_literal_filter filters"
    and "list_all (\<lambda>p. nan_free (ep_value p)) predicates" "list_all (\<lambda>f. nan_free (lf_value f)) filters"
  shows "validate_predicate_consistency predicates filters =
      (if \<exists>row. list_all (\<lambda>p. compares_values p \<longrightarrow> row_meets age row p) predicates
            \<and> list_all (row_meets_filter row) filters
       then Inr () else Inl contradiction)
    \<and> ((\<exists>row. list_all (row_meets age row) predicates \<and> list_all (row_meets_filter row) filters)
        \<longrightarrow> validate_predicate_consistency predicates filters = Inr ())"
proof (intro conjI impI)
  note decided = consistency_of_rows [OF assms, where age = age]
  then show "validate_predicate_consistency predicates filters =
      (if \<exists>row. list_all (\<lambda>p. compares_values p \<longrightarrow> row_meets age row p) predicates
            \<and> list_all (row_meets_filter row) filters
       then Inr () else Inl contradiction)" .
  assume "\<exists>row. list_all (row_meets age row) predicates \<and> list_all (row_meets_filter row) filters"
  then have "\<exists>row. list_all (\<lambda>p. compares_values p \<longrightarrow> row_meets age row p) predicates
      \<and> list_all (row_meets_filter row) filters"
    unfolding list_all_iff by blast
  with decided show "validate_predicate_consistency predicates filters = Inr ()" by simp
qed

text \<open>An excluded value leaves one of two allowed values; excluding both leaves none.\<close>

definition sample_status :: field_ref where
  "sample_status = \<lparr>fr_entity_id = ''device'', fr_column = ''status''\<rparr>"

definition sample_in_use :: entity_predicate where
  "sample_in_use = \<lparr>ep_entity_id = ''device'', ep_column = ''status'', ep_operator = OpIn,
     ep_value = Many [SStr ''active'', SStr ''spare'']\<rparr>"

definition sample_not_active :: literal_filter where
  "sample_not_active = \<lparr>lf_field = sample_status, lf_operator = LfNotEquals, lf_value = One (SStr ''active'')\<rparr>"

definition sample_not_spare :: literal_filter where
  "sample_not_spare = \<lparr>lf_field = sample_status, lf_operator = LfNotIn, lf_value = Many [SStr ''spare'']\<rparr>"

text \<open>Two windows of days that exclude each other, which the check does not see.\<close>

definition sample_days :: "entity_predicate list" where
  "sample_days = map (\<lambda>(operator, n). \<lparr>ep_entity_id = ''device'', ep_column = ''seen_at'',
     ep_operator = operator, ep_value = One (SInt n)\<rparr>) [(OpOlderThanDays, 30), (OpWithinLastDays, 10)]"

theorem consistent_iff_satisfiable_witness:
  "(\<exists>row. row_meets (\<lambda>_ _. 0) row sample_in_use \<and> row_meets_filter row sample_not_active)
   \<and> \<not> (\<exists>row. row_meets (\<lambda>_ _. 0) row sample_in_use \<and> row_meets_filter row sample_not_active
           \<and> row_meets_filter row sample_not_spare)
   \<and> validate_predicate_consistency sample_days [] = Inr ()"
proof -
  have shaped: "list_all well_shaped [sample_in_use]"
      "list_all valid_literal_filter [sample_not_active]"
      "list_all valid_literal_filter [sample_not_active, sample_not_spare]"
      "list_all (\<lambda>p. nan_free (ep_value p)) [sample_in_use]"
      "list_all (\<lambda>f. nan_free (lf_value f)) [sample_not_active]"
      "list_all (\<lambda>f. nan_free (lf_value f)) [sample_not_active, sample_not_spare]"
    by code_simp+
  have "validate_predicate_consistency [sample_in_use] [sample_not_active] = Inr ()"
       "validate_predicate_consistency [sample_in_use] [sample_not_active, sample_not_spare]
        = Inl contradiction"
       "validate_predicate_consistency sample_days [] = Inr ()"
    by code_simp+
  moreover have "compares_values sample_in_use" by (simp add: compares_values_def sample_in_use_def)
  ultimately show ?thesis
    using consistent_iff_satisfiable [OF shaped(1,2,4,5), of "\<lambda>_ _. 0"]
      consistent_iff_satisfiable [OF shaped(1,3,4,6), of "\<lambda>_ _. 0"]
    by (simp split: if_splits) blast
qed

end
