(* ===== verification/Plan_Validation.thy ===== *)
theory Plan_Validation
  imports Plan_Constraints "HOL-Library.Product_Lexorder" "HOL-Library.Multiset"
begin

text \<open>
  The validation of a semantic plan (\<open>validate_semantic_plan\<close> of
  \<open>query_engine/semantic_plan.py\<close>), check by check in the order of the source.

  Two things come from outside: the table metadata of the object-relational mapper
  (\<open>Base.metadata\<close>), of which the columns, keys and constraints are kept, and \<open>json.dumps\<close>,
  whose text only orders predicates and filters (\<open>dumps\<close>). Tuples of aggregations that the
  source sorts by their \<open>repr\<close> before it compares them are compared as multisets.
\<close>

record projection =
  pj_entities :: "string list"
  pj_relationships :: "string list"
  pj_concepts :: "string list"
  pj_metrics :: "string list"
  pj_rules :: "string list"
  pj_grounded :: "grounded_intent option"

record orm_column =
  oc_name :: string
  oc_nullable :: bool
  oc_foreign_keys :: "(string \<times> string) list"
  oc_unique :: bool

record orm_table =
  ot_name :: string
  ot_columns :: "orm_column list"
  ot_primary_key :: "string list"
  ot_unique_constraints :: "string list list"

definition check_all :: "('a \<Rightarrow> 'e + unit) \<Rightarrow> 'a list \<Rightarrow> 'e + unit" where
  "check_all f xs = result_bind (traverse f xs) (\<lambda>_. Inr ())"

lemma check_all_Inr [simp]: "check_all f xs = Inr u \<longleftrightarrow> (\<forall>x \<in> set xs. f x = Inr ())"
  by (induction xs) (auto simp: check_all_def result_bind_Inr_iff)

section \<open>Reading the schema context\<close>

definition str_of :: "json \<Rightarrow> string option" where
  "str_of v = (case v of JStr s \<Rightarrow> Some s | _ \<Rightarrow> None)"

definition safe_allowed_columns :: "json \<Rightarrow> (string \<times> string list) list" where
  "safe_allowed_columns v =
     (case v of
        JDict kvs \<Rightarrow>
          List.map_filter (\<lambda>(table, columns). case columns of
              JList cs \<Rightarrow> Some (table, List.map_filter str_of cs) | _ \<Rightarrow> None) kvs
      | _ \<Rightarrow> [])"

definition scope_columns :: "json \<Rightarrow> (string \<times> string) list" where
  "scope_columns context =
     (case jget context ''tables'' of
        JList tables \<Rightarrow>
          rev (List.map_filter (\<lambda>t. case (jget t ''name'', jget t ''scope_column'') of
                  (JStr n, JStr c) \<Rightarrow> Some (n, c) | _ \<Rightarrow> None) tables)
      | _ \<Rightarrow> [])"

definition columns_of :: "(string \<times> string list) list \<Rightarrow> string \<Rightarrow> string list" where
  "columns_of allowed table = (case map_of allowed table of None \<Rightarrow> [] | Some cs \<Rightarrow> cs)"

definition all_field_refs :: "semantic_plan \<Rightarrow> field_ref list" where
  "all_field_refs plan =
     map lf_field (pl_literal_filters plan) @ List.map_filter ai_field (pl_aggregations plan)
     @ pl_output_fields plan @ pl_group_by plan @ List.map_filter oi_field (pl_order_by plan)"

section \<open>Candidates, metric and concepts\<close>

definition check_unique_ids :: "semantic_plan \<Rightarrow> plan_error + unit" where
  "check_unique_ids plan =
     result_bind (require_unique (pl_entity_ids plan) ''duplicate_entity'') (\<lambda>_.
     result_bind (require_unique (pl_concept_ids plan) ''duplicate_concept'') (\<lambda>_.
     result_bind (require_unique (pl_rule_ids plan) ''duplicate_rule'') (\<lambda>_.
     result_bind (require_unique (map ri_relationship_id (pl_relationships plan))
       ''duplicate_relationship'') (\<lambda>_.
     result_bind (require_unique (map ai_id (pl_aggregations plan)) ''duplicate_aggregation'') (\<lambda>_.
     ensure (pl_entity_ids plan \<noteq> []) (PlanInvalid ''entity_missing''))))))"

definition check_candidates :: "semantic_plan \<Rightarrow> projection \<Rightarrow> plan_error + unit" where
  "check_candidates plan pj =
     result_bind (require_subset (pl_entity_ids plan) (pj_entities pj) ''entity_not_candidate'') (\<lambda>_.
     result_bind (require_subset (pl_concept_ids plan) (pj_concepts pj) ''concept_not_candidate'') (\<lambda>_.
     result_bind (require_subset (pl_rule_ids plan) (pj_rules pj) ''rule_not_candidate'') (\<lambda>_.
     result_bind (require_subset (map ri_relationship_id (pl_relationships plan)) (pj_relationships pj)
       ''relationship_not_candidate'') (\<lambda>_.
     ensure (pred_option (\<lambda>m. m \<in> set (pj_metrics pj)) (pl_metric_id plan))
       (PlanInvalid ''metric_not_candidate'')))))"

definition plan_metric :: "semantic_catalog \<Rightarrow> semantic_plan \<Rightarrow> plan_error + semantic_metric option" where
  "plan_metric cat plan =
     (case pl_metric_id plan of
        None \<Rightarrow> Inr None
      | Some m \<Rightarrow>
          result_bind (require_key (metric_of cat m)) (\<lambda>metric.
          result_bind (ensure (pl_aggregations plan = []) (PlanInvalid ''metric_aggregation_duplicated'')) (\<lambda>_.
          result_bind (ensure (pl_output_fields plan = [] \<and> pl_group_by plan = [] \<and> pl_having plan = []
                               \<and> pl_order_by plan = [] \<and> pl_limit plan = None)
            (PlanInvalid ''metric_shape_unsupported'')) (\<lambda>_.
          Inr (Some metric)))))"

definition expand :: "semantic_catalog \<Rightarrow> string list \<Rightarrow> plan_error + string list" where
  "expand cat ids =
     (case expand_semantic_concept_ids cat ids of None \<Rightarrow> Inl CatalogInvalid | Some cs \<Rightarrow> Inr cs)"

record concept_use =
  cu_conjunctive :: "string list"
  cu_or_groups :: "string list list list"
  cu_effective :: "string list"
  cu_rule_all_of :: "string list"
  cu_rule_or_groups :: "string list list"

definition overconstrained :: "semantic_plan \<Rightarrow> string list \<Rightarrow> composition_rule \<Rightarrow> bool" where
  "overconstrained plan conjuncts rule \<longleftrightarrow>
     ru_or_concept_ids rule \<noteq> [] \<and> set (ru_or_concept_ids rule) \<subseteq> set (pl_concept_ids plan)
     \<and> \<not> set (ru_or_concept_ids rule) \<subseteq> set conjuncts"

definition effective_concepts ::
  "semantic_catalog \<Rightarrow> semantic_plan \<Rightarrow> semantic_metric option \<Rightarrow> plan_error + concept_use" where
  "effective_concepts cat plan metric =
     (let required = (case metric of None \<Rightarrow> [] | Some m \<Rightarrow> mt_required_concept_ids m) in
      result_bind (traverse (\<lambda>c. require_key (concept_of cat c)) (pl_concept_ids plan)) (\<lambda>concepts.
      result_bind (traverse (\<lambda>r. require_key (rule_of cat r)) (pl_rule_ids plan)) (\<lambda>rules.
      let all_of = concat (map ru_all_of_concept_ids rules) in
      result_bind (expand cat (concat (map cn_all_of_concept_ids concepts) @ required @ all_of)) (\<lambda>conjuncts.
      result_bind (ensure (\<not> list_ex (overconstrained plan conjuncts) rules)
        (PlanInvalid ''composition_rule_overconstraint'')) (\<lambda>_.
      let or_groups = map (\<lambda>r. sort (ru_or_concept_ids r)) (filter (\<lambda>r. ru_or_concept_ids r \<noteq> []) rules) in
      result_bind (expand cat (pl_concept_ids plan @ required @ all_of)) (\<lambda>conjunctive.
      result_bind (traverse (traverse (\<lambda>c. expand cat [c])) or_groups) (\<lambda>groups.
      Inr \<lparr>cu_conjunctive = conjunctive, cu_or_groups = groups,
           cu_effective = sorted_set (conjunctive @ concat (concat groups)),
           cu_rule_all_of = sorted_set all_of, cu_rule_or_groups = sort or_groups\<rparr>)))))))"

definition concept_entities :: "semantic_catalog \<Rightarrow> string list \<Rightarrow> plan_error + string list" where
  "concept_entities cat ids =
     traverse (\<lambda>c. result_bind (require_key (concept_of cat c)) (\<lambda>concept. Inr (cn_entity_id concept))) ids"

section \<open>Fields and literals\<close>

definition check_field ::
  "semantic_catalog \<Rightarrow> semantic_plan \<Rightarrow> (string \<times> string list) list \<Rightarrow> field_ref \<Rightarrow> plan_error + unit" where
  "check_field cat plan allowed f =
     result_bind (ensure (fr_entity_id f \<in> set (pl_entity_ids plan))
       (PlanInvalid ''field_entity_not_selected'')) (\<lambda>_.
     ensure (case entity_of cat (fr_entity_id f) of
               None \<Rightarrow> False
             | Some entity \<Rightarrow> fr_column f \<in> set (columns_of allowed (en_table entity)))
       (PlanInvalid ''field_not_authorized''))"

definition value_matches_type :: "scalar \<Rightarrow> string \<Rightarrow> bool" where
  "value_matches_type v data_type =
     (if \<not> is_finite v then False
      else if data_type = ''boolean'' then (case v of SBool _ \<Rightarrow> True | _ \<Rightarrow> False)
      else if data_type \<in> {''integer'', ''numeric'', ''decimal''} then
        (case v of SInt _ \<Rightarrow> True | SFloat _ \<Rightarrow> True | _ \<Rightarrow> False)
      else (case v of SStr s \<Rightarrow> 1 \<le> length s \<and> length s \<le> 120 | _ \<Rightarrow> False))"

definition literal_values :: "sem_value \<Rightarrow> scalar list" where
  "literal_values v = (case v of One x \<Rightarrow> [x] | Many xs \<Rightarrow> xs)"

definition validate_literal_filter :: "domain_pack \<Rightarrow> literal_filter \<Rightarrow> plan_error + unit" where
  "validate_literal_filter pack f =
     result_bind (require_key (entity_of (pk_catalog pack) (fr_entity_id (lf_field f)))) (\<lambda>entity.
     result_bind (require_key (dict_get dt_name (en_table entity) (pk_tables pack))) (\<lambda>table.
     result_bind (require_key (dict_get dm_name (fr_column (lf_field f)) (dt_columns table))) (\<lambda>column.
     let values = literal_values (lf_value f) in
     result_bind (ensure (list_all (\<lambda>v. value_matches_type v (dm_data_type column)) values)
       (PlanInvalid ''literal_type_invalid'')) (\<lambda>_.
     ensure (case dict_get kv_column (fr_column (lf_field f)) (en_known_values entity) of
               None \<Rightarrow> True
             | Some known \<Rightarrow> scalar_keys values \<subseteq> scalar_keys (kv_values known))
       (PlanInvalid ''literal_value_not_known'')))))"

definition check_literal_filter ::
  "domain_pack \<Rightarrow> bool \<Rightarrow> (string \<times> string) list \<Rightarrow> literal_filter \<Rightarrow> plan_error + unit" where
  "check_literal_filter pack scope_reference_resolved scopes f =
     result_bind (require_key (entity_of (pk_catalog pack) (fr_entity_id (lf_field f)))) (\<lambda>entity.
     result_bind (ensure (\<not> (scope_reference_resolved
                            \<and> map_of scopes (en_table entity) = Some (fr_column (lf_field f))))
       (PlanInvalid ''scope_filter_not_allowed'')) (\<lambda>_.
     validate_literal_filter pack f))"

definition counts_rows_of_one_entity :: "semantic_plan \<Rightarrow> bool" where
  "counts_rows_of_one_entity plan \<longleftrightarrow>
     length (pl_entity_ids plan) = 1
     \<and> list_ex (\<lambda>a. ai_function a = AgCount \<and> ai_field a = None \<and> \<not> ai_distinct a) (pl_aggregations plan)"

section \<open>Relationships and the population of a metric\<close>

text \<open>
  The selected relationships by id, in the order of the plan; only their set matters below.
\<close>

definition selected_rows :: "semantic_catalog \<Rightarrow> semantic_plan \<Rightarrow> semantic_relationship list" where
  "selected_rows cat plan =
     List.map_filter (\<lambda>i. relationship_of cat (ri_relationship_id i)) (pl_relationships plan)"

definition endpoints :: "semantic_relationship list \<Rightarrow> string list" where
  "endpoints rows = concat (map (\<lambda>r. [rl_from_entity r, rl_to_entity r]) rows)"

definition check_relationships ::
  "domain_pack \<Rightarrow> semantic_plan \<Rightarrow> plan_error + (string \<times> join_step list)" where
  "check_relationships pack plan =
     (let rows = selected_rows (pk_catalog pack) plan in
      result_bind (require_subset (endpoints rows) (pl_entity_ids plan)
        ''relationship_endpoint_missing'') (\<lambda>_.
      result_bind (validate_relationship_graph (pl_entity_ids plan) (pl_relationships plan) rows) (\<lambda>_.
      result_bind (selected_join_order (pk_catalog pack) plan) (\<lambda>order.
      case order of
        None \<Rightarrow> Inl (PlanInvalid ''left_join_orientation_unsupported'')
      | Some steps \<Rightarrow> Inr steps))))"

definition check_metric_population ::
  "domain_pack \<Rightarrow> semantic_plan \<Rightarrow> semantic_metric option \<Rightarrow> join_step list \<Rightarrow> plan_error + unit" where
  "check_metric_population pack plan metric steps =
     (case metric of
        None \<Rightarrow> Inr ()
      | Some m \<Rightarrow>
          result_bind (ensure (mt_aggregation_function m = AgCount)
            (PlanInvalid ''metric_sum_target_missing'')) (\<lambda>_.
          result_bind (population_may_multiply (pk_catalog pack) (mt_entity_id m) plan) (\<lambda>multiplies.
          ensure (\<not> (multiplies
                     \<or> list_ex (\<lambda>(_, j, added). added = mt_entity_id m \<and> j \<noteq> JoinInner) steps))
            (PlanInvalid ''metric_population_unsupported''))))"

section \<open>Aggregations, groups and order\<close>

definition check_order :: "semantic_plan \<Rightarrow> order_intent \<Rightarrow> plan_error + unit" where
  "check_order plan i =
     (case oi_field i of
        None \<Rightarrow> Inr ()
      | Some f \<Rightarrow>
          result_bind (ensure (\<not> (pl_aggregations plan \<noteq> []
                                 \<and> field_key f \<notin> field_key ` set (pl_group_by plan)))
            (PlanInvalid ''order_field_not_grouped'')) (\<lambda>_.
          ensure (\<not> (pl_distinct plan \<and> field_key f \<notin> field_key ` set (pl_output_fields plan)))
            (PlanInvalid ''distinct_order_field_not_output'')))"

definition check_result_shape :: "semantic_plan \<Rightarrow> plan_error + unit" where
  "check_result_shape plan =
     (let ids = map ai_id (pl_aggregations plan) in
      result_bind (ensure (\<not> list_ex (\<lambda>h. hv_aggregation_id h \<notin> set ids) (pl_having plan))
        (PlanInvalid ''having_aggregation_missing'')) (\<lambda>_.
      result_bind (ensure (\<not> list_ex (\<lambda>i. oi_target_kind i = TargetAggregation
                              \<and> oi_aggregation_id i \<notin> Some ` set ids) (pl_order_by plan))
        (PlanInvalid ''order_aggregation_missing'')) (\<lambda>_.
      result_bind (ensure (pl_aggregations plan \<noteq> [] \<and> pl_output_fields plan \<noteq> []
                           \<longrightarrow> field_key ` set (pl_output_fields plan) = field_key ` set (pl_group_by plan))
        (PlanInvalid ''group_by_incomplete'')) (\<lambda>_.
      result_bind (ensure (\<not> (pl_group_by plan \<noteq> [] \<and> pl_aggregations plan = []))
        (PlanInvalid ''group_by_without_aggregation'')) (\<lambda>_.
      check_all (check_order plan) (pl_order_by plan))))))"

definition check_aggregation :: "domain_pack \<Rightarrow> aggregation_intent \<Rightarrow> plan_error + unit" where
  "check_aggregation pack a =
     result_bind (ensure (\<not> (ai_function a = AgCount \<and> ai_field a = None \<and> ai_distinct a))
       (PlanInvalid ''count_distinct_target_missing'')) (\<lambda>_.
     if ai_function a = AgSum then
       (case ai_field a of
          None \<Rightarrow> Inl (PlanRaised AssertionError)
        | Some f \<Rightarrow>
            result_bind (require_key (entity_of (pk_catalog pack) (fr_entity_id f))) (\<lambda>entity.
            result_bind (require_key (dict_get dt_name (en_table entity) (pk_tables pack))) (\<lambda>table.
            result_bind (ensure (case dict_get dm_name (fr_column f) (dt_columns table) of
                                   None \<Rightarrow> False
                                 | Some column \<Rightarrow> dm_data_type column \<in> {''integer'', ''numeric'', ''decimal''})
              (PlanInvalid ''sum_target_not_numeric'')) (\<lambda>_.
            ensure (\<not> ai_distinct a) (PlanInvalid ''sum_distinct_unsupported'')))))
     else Inr ())"

section \<open>The grounded result intent\<close>

definition table_to_entity_id :: "semantic_catalog \<Rightarrow> string \<Rightarrow> string option" where
  "table_to_entity_id cat table = map_option en_id (dict_get en_table table (ca_entities cat))"

definition grounded_field_key :: "semantic_catalog \<Rightarrow> grounded_field \<Rightarrow> fkey option" where
  "grounded_field_key cat f = map_option (\<lambda>e. (e, gf_column f)) (table_to_entity_id cat (gf_table f))"

definition grounded_field_keys :: "semantic_catalog \<Rightarrow> grounded_field list \<Rightarrow> fkey set option" where
  "grounded_field_keys cat fs = map_option set (those (map (grounded_field_key cat) fs))"

type_synonym agg_key = "aggregation_function \<times> fkey option \<times> bool"

definition grounded_aggregation_key :: "semantic_catalog \<Rightarrow> grounded_aggregation \<Rightarrow> agg_key option" where
  "grounded_aggregation_key cat a =
     (case ga_target_field a of
        None \<Rightarrow> Some (ga_function a, None, ga_distinct a)
      | Some f \<Rightarrow> map_option (\<lambda>k. (ga_function a, Some k, ga_distinct a)) (grounded_field_key cat f))"

definition grounded_aggregation_keys ::
  "semantic_catalog \<Rightarrow> grounded_aggregation list \<Rightarrow> agg_key list option" where
  "grounded_aggregation_keys cat as = those (map (grounded_aggregation_key cat) as)"

definition plan_aggregation_key :: "aggregation_intent \<Rightarrow> agg_key" where
  "plan_aggregation_key a = (ai_function a, map_option field_key (ai_field a), ai_distinct a)"

text \<open>A join key that a foreign key proves to determine one row of the other table.\<close>

definition is_proven_fk_to_unique_identity ::
  "orm_table list \<Rightarrow> string \<Rightarrow> string \<Rightarrow> string \<Rightarrow> string \<Rightarrow> bool" where
  "is_proven_fk_to_unique_identity metadata source_table source_column target_table target_column =
     (case (find_by ot_name source_table metadata, find_by ot_name target_table metadata) of
        (Some s, Some t) \<Rightarrow>
          (case (find_by oc_name source_column (ot_columns s), find_by oc_name target_column (ot_columns t)) of
             (Some sc, Some tc) \<Rightarrow>
               \<not> oc_nullable sc \<and> (target_table, target_column) \<in> set (oc_foreign_keys sc)
               \<and> (ot_primary_key t = [target_column] \<or> oc_unique tc
                  \<or> [target_column] \<in> set (ot_unique_constraints t))
           | _ \<Rightarrow> False)
      | _ \<Rightarrow> False)"

definition identity_candidate ::
  "orm_table list \<Rightarrow> semantic_catalog \<Rightarrow> relationship_intent \<Rightarrow> (fkey \<times> fkey) option" where
  "identity_candidate metadata cat i =
     (case relationship_of cat (ri_relationship_id i) of
        None \<Rightarrow> None
      | Some r \<Rightarrow>
          if ri_join_type i \<noteq> JoinInner \<or> rl_cardinality r \<noteq> ManyToOne \<or> rl_optional r then None
          else (case (entity_of cat (rl_from_entity r), entity_of cat (rl_to_entity r)) of
                  (Some source, Some target) \<Rightarrow>
                    if is_proven_fk_to_unique_identity metadata (en_table source) (rl_from_column r)
                         (en_table target) (rl_to_column r)
                    then Some ((rl_from_entity r, rl_from_column r), (rl_to_entity r, rl_to_column r))
                    else None
                | _ \<Rightarrow> None))"

definition distinct_count_identity_normalization ::
  "orm_table list \<Rightarrow> semantic_catalog \<Rightarrow> semantic_plan \<Rightarrow> (fkey \<times> fkey) list" where
  "distinct_count_identity_normalization metadata cat plan =
     (let candidates = List.map_filter (identity_candidate metadata cat) (pl_relationships plan);
          targets = (\<lambda>s. dedup (map snd (filter (\<lambda>c. fst c = s) candidates))) in
      map (\<lambda>s. (s, hd (targets s))) (filter (\<lambda>s. length (targets s) = 1) (dedup (map fst candidates))))"

definition normalize_aggregation_key :: "(fkey \<times> fkey) list \<Rightarrow> agg_key \<Rightarrow> agg_key" where
  "normalize_aggregation_key normalization key =
     (case key of
        (AgCount, Some f, True) \<Rightarrow>
          (AgCount, Some (case map_of normalization f of None \<Rightarrow> f | Some g \<Rightarrow> g), True)
      | _ \<Rightarrow> key)"

definition having_keys ::
  "(fkey \<times> fkey) list \<Rightarrow> (string \<Rightarrow> agg_key option) \<Rightarrow> (string \<times> comparison \<times> scalar) list
     \<Rightarrow> (agg_key option \<times> comparison \<times> scalar_key) set" where
  "having_keys normalization key_of items =
     set (map (\<lambda>(i, operator, v).
            (map_option (normalize_aggregation_key normalization) (key_of i), operator, key_of_scalar v)) items)"

definition intent_aggregation_key :: "semantic_catalog \<Rightarrow> grounded_intent \<Rightarrow> string \<Rightarrow> agg_key option" where
  "intent_aggregation_key cat intent i =
     Option.bind (dict_get ga_id i (gi_aggregations intent)) (grounded_aggregation_key cat)"

definition planned_aggregation_key :: "semantic_plan \<Rightarrow> string \<Rightarrow> agg_key option" where
  "planned_aggregation_key plan i = map_option plan_aggregation_key (dict_get ai_id i (pl_aggregations plan))"

definition having_semantics_match ::
  "semantic_catalog \<Rightarrow> grounded_intent \<Rightarrow> semantic_plan \<Rightarrow> (fkey \<times> fkey) list \<Rightarrow> bool" where
  "having_semantics_match cat intent plan normalization \<longleftrightarrow>
     list_all (\<lambda>a. intent_aggregation_key cat intent (ga_id a) \<noteq> None) (gi_aggregations intent)
     \<and> having_keys normalization (intent_aggregation_key cat intent)
         (map (\<lambda>h. (gh_aggregation_id h, gh_operator h, gh_value h)) (gi_having intent))
       = having_keys normalization (planned_aggregation_key plan)
         (map (\<lambda>h. (hv_aggregation_id h, hv_operator h, hv_value h)) (pl_having plan))"

definition aggregations_match ::
  "semantic_catalog \<Rightarrow> grounded_intent \<Rightarrow> semantic_plan \<Rightarrow> (fkey \<times> fkey) list \<Rightarrow> bool" where
  "aggregations_match cat intent plan normalization =
     (case grounded_aggregation_keys cat (gi_aggregations intent) of
        None \<Rightarrow> False
      | Some expected \<Rightarrow>
          let actual = map plan_aggregation_key (pl_aggregations plan) in
          mset expected = mset actual
          \<or> normalization \<noteq> []
            \<and> mset (map (normalize_aggregation_key normalization) expected)
              = mset (map (normalize_aggregation_key normalization) actual)
            \<and> having_semantics_match cat intent plan normalization)"

definition check_grain :: "semantic_catalog \<Rightarrow> grounded_grain \<Rightarrow> semantic_plan \<Rightarrow> bool" where
  "check_grain cat grain plan =
     (case grounded_field_keys cat (gg_identity_fields grain) of
        None \<Rightarrow> False
      | Some ks \<Rightarrow>
          (case gg_mode grain of
             GrainGrouped \<Rightarrow> ks = field_key ` set (pl_group_by plan)
           | GrainDetail \<Rightarrow>
               pl_aggregations plan = [] \<and> pl_group_by plan = []
               \<and> ks \<subseteq> field_key ` set (pl_output_fields plan)))"

definition validate_grounded_result_intent ::
  "orm_table list \<Rightarrow> semantic_catalog \<Rightarrow> semantic_plan \<Rightarrow> grounded_intent \<Rightarrow> plan_error + unit" where
  "validate_grounded_result_intent metadata cat plan intent =
     (let expected_group_by = grounded_field_keys cat (gi_group_by intent);
          actual_group_by = field_key ` set (pl_group_by plan);
          normalization = (if expected_group_by = Some actual_group_by
                           then distinct_count_identity_normalization metadata cat plan else []) in
      result_bind (ensure (pred_option (\<lambda>ks. ks \<subseteq> field_key ` set (pl_output_fields plan))
                             (grounded_field_keys cat (gi_required_output_fields intent))
                           \<and> grounded_field_keys cat (gi_required_output_fields intent) \<noteq> None)
        (PlanInvalid ''required_output_missing'')) (\<lambda>_.
      result_bind (ensure (gi_aggregations intent = [] \<or> aggregations_match cat intent plan normalization)
        (PlanInvalid ''grounded_aggregation_mismatch'')) (\<lambda>_.
      result_bind (ensure (gi_group_by intent = [] \<or> expected_group_by = Some actual_group_by)
        (PlanInvalid ''grounded_group_by_mismatch'')) (\<lambda>_.
      result_bind (if gi_having intent = [] then Inr ()
                   else if list_ex (\<lambda>h. dict_get ga_id (gh_aggregation_id h) (gi_aggregations intent) = None)
                             (gi_having intent)
                   then Inl (PlanRaised KeyError)
                   else ensure (having_semantics_match cat intent plan normalization)
                          (PlanInvalid ''grounded_having_mismatch'')) (\<lambda>_.
      result_bind (ensure (gi_distinct intent = None \<or> gi_distinct intent = Some (pl_distinct plan))
        (PlanInvalid ''grounded_distinct_mismatch'')) (\<lambda>_.
      ensure (case gi_row_grain intent of None \<Rightarrow> True | Some grain \<Rightarrow> check_grain cat grain plan)
        (PlanInvalid ''result_grain_mismatch'')))))))"

section \<open>The canonical plan\<close>

fun operator_text :: "predicate_operator \<Rightarrow> string" where
  "operator_text OpEquals = ''equals''"
| "operator_text OpIn = ''in''"
| "operator_text OpIsNullOrOlderThanDays = ''is_null_or_older_than_days''"
| "operator_text OpOlderThanDays = ''older_than_days''"
| "operator_text OpWithinLastDays = ''within_last_days''"

fun literal_operator_text :: "literal_operator \<Rightarrow> string" where
  "literal_operator_text LfEquals = ''equals''"
| "literal_operator_text LfNotEquals = ''not_equals''"
| "literal_operator_text LfIn = ''in''"
| "literal_operator_text LfNotIn = ''not_in''"

fun comparison_text :: "comparison \<Rightarrow> string" where
  "comparison_text CmpEquals = ''equals''"
| "comparison_text CmpGreater = ''greater_than''"
| "comparison_text CmpGreaterEqual = ''greater_than_or_equal''"
| "comparison_text CmpLess = ''less_than''"
| "comparison_text CmpLessEqual = ''less_than_or_equal''"

fun number_of :: "scalar \<Rightarrow> rat" where
  "number_of (SInt i) = of_int i"
| "number_of (SFloat r) = r"
| "number_of _ = 0"

definition entity_predicate_key ::
  "(sem_value \<Rightarrow> string) \<Rightarrow> entity_predicate \<Rightarrow> string \<times> string \<times> string \<times> string" where
  "entity_predicate_key dumps p =
     (ep_entity_id p, ep_column p, operator_text (ep_operator p), dumps (ep_value p))"

definition literal_filter_key ::
  "(sem_value \<Rightarrow> string) \<Rightarrow> literal_filter \<Rightarrow> string \<times> string \<times> string \<times> string" where
  "literal_filter_key dumps f =
     (fr_entity_id (lf_field f), fr_column (lf_field f), literal_operator_text (lf_operator f),
      dumps (lf_value f))"

definition concept_predicates ::
  "(sem_value \<Rightarrow> string) \<Rightarrow> semantic_catalog \<Rightarrow> string list \<Rightarrow> plan_error + entity_predicate list" where
  "concept_predicates dumps cat ids =
     result_bind (traverse (\<lambda>c. require_key (concept_of cat c)) ids) (\<lambda>concepts.
     Inr (sort_key (entity_predicate_key dumps)
       (concat (map (\<lambda>c. map (entity_predicate_for (cn_entity_id c)) (cn_required_predicates c)) concepts))))"

definition canonical_plan :: "(sem_value \<Rightarrow> string) \<Rightarrow> semantic_plan \<Rightarrow> semantic_plan" where
  "canonical_plan dumps plan = plan
     \<lparr>pl_entity_ids := sort (pl_entity_ids plan),
      pl_concept_ids := sort (pl_concept_ids plan),
      pl_rule_ids := sort (pl_rule_ids plan),
      pl_relationships := sort_key ri_relationship_id (pl_relationships plan),
      pl_literal_filters := sort_key (literal_filter_key dumps) (pl_literal_filters plan),
      pl_output_fields := sort_key field_key (pl_output_fields plan),
      pl_group_by := sort_key field_key (pl_group_by plan),
      pl_aggregations := sort_key ai_id (pl_aggregations plan),
      pl_having := sort_key (\<lambda>h. (hv_aggregation_id h, comparison_text (hv_operator h), number_of (hv_value h)))
        (pl_having plan)\<rparr>"

record validated_plan =
  vp_plan :: semantic_plan
  vp_effective_concept_ids :: "string list"
  vp_effective_predicates :: "entity_predicate list"
  vp_rule_or_predicate_groups :: "entity_predicate list list list"
  vp_rule_all_of_concept_ids :: "string list"
  vp_rule_or_concept_groups :: "string list list"
  vp_metric_aggregation_function :: "aggregation_function option"

section \<open>The validation\<close>

definition validate_semantic_plan ::
  "orm_table list \<Rightarrow> (sem_value \<Rightarrow> string) \<Rightarrow> semantic_plan \<Rightarrow> domain_pack \<Rightarrow> projection \<Rightarrow> json \<Rightarrow> bool
     \<Rightarrow> plan_error + validated_plan" where
  "validate_semantic_plan metadata dumps plan pack pj context scope_reference_resolved =
     (let cat = pk_catalog pack in
      result_bind (check_unique_ids plan) (\<lambda>_.
      result_bind (check_candidates plan pj) (\<lambda>_.
      result_bind (plan_metric cat plan) (\<lambda>metric.
      result_bind (effective_concepts cat plan metric) (\<lambda>use.
      result_bind (require_subset (cu_effective use) (pj_concepts pj)
        ''concept_dependency_not_candidate'') (\<lambda>_.
      result_bind (concept_entities cat (cu_effective use)) (\<lambda>concept_entity_ids.
      result_bind (check_all (check_field cat plan (safe_allowed_columns (jget context ''allowed_columns'')))
        (all_field_refs plan)) (\<lambda>_.
      let required = concept_entity_ids
            @ (case metric of None \<Rightarrow> [] | Some m \<Rightarrow> [mt_entity_id m])
            @ map fr_entity_id (all_field_refs plan)
            @ (if counts_rows_of_one_entity plan then [hd (pl_entity_ids plan)] else []) in
      result_bind (check_all (check_literal_filter pack scope_reference_resolved (scope_columns context))
        (pl_literal_filters plan)) (\<lambda>_.
      result_bind (require_subset required (pl_entity_ids plan) ''required_entity_missing'') (\<lambda>_.
      result_bind (ensure (has_output_intent plan) (PlanInvalid ''output_intent_missing'')) (\<lambda>_.
      result_bind (check_relationships pack plan) (\<lambda>(start, steps).
      result_bind (check_metric_population pack plan metric steps) (\<lambda>_.
      result_bind (check_result_shape plan) (\<lambda>_.
      result_bind (case pj_grounded pj of
                     None \<Rightarrow> Inr ()
                   | Some intent \<Rightarrow> validate_grounded_result_intent metadata cat plan intent) (\<lambda>_.
      result_bind (check_all (check_aggregation pack) (pl_aggregations plan)) (\<lambda>_.
      result_bind (ensure (set (pl_entity_ids plan) = set (required @ endpoints (selected_rows cat plan)))
        (PlanInvalid ''unused_entity'')) (\<lambda>_.
      result_bind (concept_predicates dumps cat (cu_conjunctive use)) (\<lambda>predicates.
      result_bind (traverse (traverse (concept_predicates dumps cat)) (cu_or_groups use)) (\<lambda>groups.
      result_bind (validate_predicate_consistency predicates (pl_literal_filters plan)) (\<lambda>_.
      result_bind (check_all (\<lambda>branch. validate_predicate_consistency (predicates @ branch)
                                        (pl_literal_filters plan)) (concat groups)) (\<lambda>_.
      Inr \<lparr>vp_plan = canonical_plan dumps plan, vp_effective_concept_ids = cu_effective use,
           vp_effective_predicates = predicates, vp_rule_or_predicate_groups = groups,
           vp_rule_all_of_concept_ids = cu_rule_all_of use,
           vp_rule_or_concept_groups = cu_rule_or_groups use,
           vp_metric_aggregation_function = map_option mt_aggregation_function metric\<rparr>)))))))))))))))))))))"

end
