(* ===== verification/Population.thy ===== *)
theory Population
  imports Join_Order Plan_Validation
begin

text \<open>
  What a validated metric counts. The rendered query joins the tables of the plan in the order of
  \<open>selected_join_order\<close> on equal columns; \<open>join_rows\<close> is the list of joined rows, with \<open>None\<close>
  for the row of an entity that a left join left out. The catalog declares for each relationship
  how many rows match (\<open>cardinality_holds\<close>).
\<close>

section \<open>Joined rows\<close>

type_synonym 'row joined = "string \<Rightarrow> 'row option"

definition rows_match ::
  "('row \<Rightarrow> string \<Rightarrow> 'v option) \<Rightarrow> semantic_relationship \<Rightarrow> 'row \<Rightarrow> 'row \<Rightarrow> bool" where
  "rows_match cell r x y \<longleftrightarrow>
     cell x (rl_from_column r) \<noteq> None \<and> cell x (rl_from_column r) = cell y (rl_to_column r)"

definition partners ::
  "('row \<Rightarrow> string \<Rightarrow> 'v option) \<Rightarrow> (string \<Rightarrow> 'row list) \<Rightarrow> semantic_relationship \<Rightarrow> string
     \<Rightarrow> 'row joined \<Rightarrow> 'row list" where
  "partners cell data r e t =
     (if e = rl_to_entity r
      then (case t (rl_from_entity r) of None \<Rightarrow> [] | Some x \<Rightarrow> filter (\<lambda>y. rows_match cell r x y) (data e))
      else (case t (rl_to_entity r) of None \<Rightarrow> [] | Some y \<Rightarrow> filter (\<lambda>x. rows_match cell r x y) (data e)))"

definition extend_row ::
  "('row \<Rightarrow> string \<Rightarrow> 'v option) \<Rightarrow> (string \<Rightarrow> 'row list) \<Rightarrow> join_step \<Rightarrow> 'row joined \<Rightarrow> 'row joined list" where
  "extend_row cell data s t =
     (case s of (r, j, e) \<Rightarrow>
        if partners cell data r e t = [] then (if j = JoinInner then [] else [t])
        else map (\<lambda>y. t(e := Some y)) (partners cell data r e t))"

fun join_all ::
  "('row \<Rightarrow> string \<Rightarrow> 'v option) \<Rightarrow> (string \<Rightarrow> 'row list) \<Rightarrow> join_step list \<Rightarrow> 'row joined list \<Rightarrow> 'row joined list" where
  "join_all cell data [] ts = ts"
| "join_all cell data (s # steps) ts = join_all cell data steps (concat (map (extend_row cell data s) ts))"

definition join_rows ::
  "('row \<Rightarrow> string \<Rightarrow> 'v option) \<Rightarrow> (string \<Rightarrow> 'row list) \<Rightarrow> string \<Rightarrow> join_step list \<Rightarrow> 'row joined list" where
  "join_rows cell data start steps =
     join_all cell data steps (map (\<lambda>x. (\<lambda>_. None)(start := Some x)) (data start))"

definition cardinality_holds ::
  "('row \<Rightarrow> string \<Rightarrow> 'v option) \<Rightarrow> (string \<Rightarrow> 'row list) \<Rightarrow> semantic_relationship \<Rightarrow> bool" where
  "cardinality_holds cell data r \<longleftrightarrow>
     (\<forall>x \<in> set (data (rl_from_entity r)). \<forall>y \<in> set (data (rl_to_entity r)). \<forall>z \<in> set (data (rl_to_entity r)).
        rows_match cell r x y \<longrightarrow> rows_match cell r x z \<longrightarrow> y = z)
     \<and> (rl_cardinality r = OneToOne \<longrightarrow>
        (\<forall>x \<in> set (data (rl_from_entity r)). \<forall>w \<in> set (data (rl_from_entity r)). \<forall>y \<in> set (data (rl_to_entity r)).
          rows_match cell r x y \<longrightarrow> rows_match cell r w y \<longrightarrow> x = w))"

lemma cardinality_to:
  "cardinality_holds cell data r \<Longrightarrow> x \<in> set (data (rl_from_entity r)) \<Longrightarrow> y \<in> set (data (rl_to_entity r))
    \<Longrightarrow> z \<in> set (data (rl_to_entity r)) \<Longrightarrow> rows_match cell r x y \<Longrightarrow> rows_match cell r x z \<Longrightarrow> y = z"
  unfolding cardinality_holds_def by blast

lemma cardinality_from:
  "cardinality_holds cell data r \<Longrightarrow> rl_cardinality r = OneToOne \<Longrightarrow> x \<in> set (data (rl_from_entity r))
    \<Longrightarrow> w \<in> set (data (rl_from_entity r)) \<Longrightarrow> y \<in> set (data (rl_to_entity r))
    \<Longrightarrow> rows_match cell r x y \<Longrightarrow> rows_match cell r w y \<Longrightarrow> x = w"
  unfolding cardinality_holds_def by blast

section \<open>What holds of a joined row\<close>

definition joined_by ::
  "('row \<Rightarrow> string \<Rightarrow> 'v option) \<Rightarrow> (string \<Rightarrow> 'row list) \<Rightarrow> 'row joined \<Rightarrow> join_step \<Rightarrow> bool" where
  "joined_by cell data t s \<longleftrightarrow>
     (case s of (r, j, e) \<Rightarrow>
        (\<exists>x y. t (rl_from_entity r) = Some x \<and> t (rl_to_entity r) = Some y \<and> rows_match cell r x y)
        \<or> j \<noteq> JoinInner \<and> t e = None \<and> partners cell data r e t = [])"

definition row_within :: "(string \<Rightarrow> 'row list) \<Rightarrow> string set \<Rightarrow> 'row joined \<Rightarrow> bool" where
  "row_within data A t \<longleftrightarrow> (\<forall>e. case t e of None \<Rightarrow> True | Some x \<Rightarrow> e \<in> A \<and> x \<in> set (data e))"

lemma row_within_outside: "row_within data A t \<Longrightarrow> e \<notin> A \<Longrightarrow> t e = None"
  by (cases "t e") (auto simp: row_within_def split: option.splits)

lemma row_within_row: "row_within data A t \<Longrightarrow> t e = Some x \<Longrightarrow> x \<in> set (data e)"
  by (auto simp: row_within_def split: option.splits)

lemma row_within_mono: "row_within data A t \<Longrightarrow> row_within data (insert e A) t"
  by (auto simp: row_within_def split: option.splits)

lemma row_within_upd:
  "row_within data A t \<Longrightarrow> y \<in> set (data e) \<Longrightarrow> row_within data (insert e A) (t(e := Some y))"
  unfolding row_within_def by (simp split: option.splits)

lemma joined_by_cong:
  assumes "t (rl_from_entity r) = u (rl_from_entity r)" "t (rl_to_entity r) = u (rl_to_entity r)"
    and "e \<in> {rl_from_entity r, rl_to_entity r}"
  shows "joined_by cell data t (r, j, e) \<longleftrightarrow> joined_by cell data u (r, j, e)"
proof -
  have "t e = u e" using assms by auto
  moreover have "partners cell data r e t = partners cell data r e u" using assms(1,2) by (simp add: partners_def)
  ultimately show ?thesis using assms(1,2) by (simp add: joined_by_def)
qed

lemma joined_by_match:
  assumes "joined_by cell data t (r, j, e)" "e \<in> {rl_from_entity r, rl_to_entity r}" "t e \<noteq> None"
  obtains x y where "t (rl_from_entity r) = Some x" "t (rl_to_entity r) = Some y" "rows_match cell r x y"
  using assms by (auto simp: joined_by_def)

lemma joined_by_null:
  assumes "joined_by cell data t (r, j, e)" "row_within data V t" "e \<in> {rl_from_entity r, rl_to_entity r}"
  shows "t e = None \<longleftrightarrow> partners cell data r e t = []"
proof
  assume "t e = None"
  with assms(1,3) show "partners cell data r e t = []" by (auto simp: joined_by_def)
next
  assume none: "partners cell data r e t = []"
  show "t e = None"
  proof (rule ccontr)
    assume "t e \<noteq> None"
    then obtain x y where xy: "t (rl_from_entity r) = Some x" "t (rl_to_entity r) = Some y" "rows_match cell r x y"
      using joined_by_match [OF assms(1,3)] by blast
    then show False
      using none assms(3) row_within_row [OF assms(2)] by (auto simp: partners_def filter_empty_conv split: if_splits)
  qed
qed

lemma extend_row_spec:
  assumes "attachable A r j" "e = attached A r" "row_within data A t" "t' \<in> set (extend_row cell data (r, j, e) t)"
  shows "row_within data (insert e A) t'" "joined_by cell data t' (r, j, e)" "\<forall>x \<in> A. t' x = t x"
proof -
  have e: "e \<notin> A" using attachableD(2) [OF assms(1)] assms(2) by simp
  then have none: "t e = None" using assms(3) row_within_outside by blast
  have ends: "rl_from_entity r \<noteq> rl_to_entity r" "e \<in> {rl_from_entity r, rl_to_entity r}"
    using attachableD [OF assms(1)] assms(2) by (auto simp: doubleton_eq_iff)
  show "row_within data (insert e A) t'" "joined_by cell data t' (r, j, e)" "\<forall>x \<in> A. t' x = t x"
  proof -
    consider "t' = t" "partners cell data r e t = []" "j \<noteq> JoinInner"
      | y where "t' = t(e := Some y)" "y \<in> set (partners cell data r e t)"
      using assms(4) by (auto simp: extend_row_def split: if_splits)
    then have "row_within data (insert e A) t' \<and> joined_by cell data t' (r, j, e) \<and> (\<forall>x \<in> A. t' x = t x)"
    proof cases
      case 1
      then show ?thesis using row_within_mono [OF assms(3)] none by (auto simp: joined_by_def)
    next
      case 2
      have "y \<in> set (data e)" using 2(2) ends(2) by (auto simp: partners_def split: if_splits option.splits)
      then have "row_within data (insert e A) t'" using row_within_upd [OF assms(3)] 2(1) by simp
      moreover have "joined_by cell data t' (r, j, e)"
        using 2 ends by (auto simp: partners_def joined_by_def split: if_splits option.splits) metis+
      ultimately show ?thesis using 2(1) e by auto
    qed
    then show "row_within data (insert e A) t'" "joined_by cell data t' (r, j, e)" "\<forall>x \<in> A. t' x = t x"
      by blast+
  qed
qed

lemma distinct_extend:
  assumes "distinct ts" "\<forall>t \<in> set ts. t e = None" "\<And>e. distinct (data e)"
  shows "distinct (concat (map (extend_row cell data (r, j, e)) ts))"
proof -
  have one: "distinct (extend_row cell data (r, j, e) t)" for t
  proof -
    have "distinct (partners cell data r e t)" using assms(3) by (simp add: partners_def split: option.splits)
    moreover have "inj_on (\<lambda>y. t(e := Some y)) S" for S by (rule inj_onI) (metis fun_upd_same option.inject)
    ultimately show ?thesis by (simp add: extend_row_def distinct_map)
  qed
  have undo: "t = u(e := None)" if "u \<in> set (extend_row cell data (r, j, e) t)" "t \<in> set ts" for t u
    using that assms(2) by (auto simp: extend_row_def split: if_splits)
  show ?thesis
    using assms(1) undo
  proof (induction ts)
    case (Cons t ts)
    have "set (extend_row cell data (r, j, e) t) \<inter> set (concat (map (extend_row cell data (r, j, e)) ts)) = {}"
    proof (rule ccontr)
      assume "set (extend_row cell data (r, j, e) t) \<inter> set (concat (map (extend_row cell data (r, j, e)) ts)) \<noteq> {}"
      then obtain u t' where "u \<in> set (extend_row cell data (r, j, e) t)" "t' \<in> set ts"
          "u \<in> set (extend_row cell data (r, j, e) t')" by auto
      then have "t = t'" using Cons.prems(2) by (metis list.set_intros)
      with Cons.prems(1) \<open>t' \<in> set ts\<close> show False by simp
    qed
    then show ?case using Cons one by simp
  qed simp
qed

lemma join_all_spec:
  assumes "joins A steps" "\<forall>t \<in> set ts. row_within data A t" "distinct ts" "\<And>e. distinct (data e)"
  shows "distinct (join_all cell data steps ts)
    \<and> (\<forall>t \<in> set (join_all cell data steps ts).
          row_within data (reached_by A steps) t \<and> (\<forall>s \<in> set steps. joined_by cell data t s)
          \<and> (\<exists>u \<in> set ts. \<forall>x \<in> A. t x = u x))"
  using assms(1-3)
proof (induction A steps arbitrary: ts rule: joins.induct)
  case (1 A)
  then show ?case by auto
next
  case (2 A r j e steps)
  from 2(2) have step: "attachable A r j" "e = attached A r" "joins (insert e A) steps"
    unfolding joins.simps by blast+
  let ?ts = "concat (map (extend_row cell data (r, j, e)) ts)"
  have e: "e \<notin> A" using attachableD(2) [OF step(1)] step(2) by simp
  have new: "\<exists>u \<in> set ts. row_within data (insert e A) t \<and> joined_by cell data t (r, j, e) \<and> (\<forall>x \<in> A. t x = u x)"
    if "t \<in> set ?ts" for t
  proof -
    from that obtain u where u: "u \<in> set ts" "t \<in> set (extend_row cell data (r, j, e) u)" by auto
    have "row_within data A u" by (rule bspec [OF 2(3) u(1)])
    from extend_row_spec [OF step(1,2) this u(2)] show ?thesis by (intro bexI [OF _ u(1)] conjI)
  qed
  have "\<forall>t \<in> set ts. t e = None" using 2(3) e row_within_outside by blast
  then have d: "distinct ?ts" using distinct_extend [OF 2(4)] assms(4) by blast
  have IH: "distinct (join_all cell data steps ?ts)
      \<and> (\<forall>t \<in> set (join_all cell data steps ?ts).
          row_within data (reached_by (insert e A) steps) t \<and> (\<forall>s \<in> set steps. joined_by cell data t s)
          \<and> (\<exists>u \<in> set ?ts. \<forall>x \<in> insert e A. t x = u x))"
  proof (rule 2(1) [OF step(3) ballI d])
    fix t assume "t \<in> set ?ts"
    from new [OF this] show "row_within data (insert e A) t" by (elim bexE conjE)
  qed
  have keep: "joined_by cell data t (r, j, e) \<and> (\<exists>v \<in> set ts. \<forall>x \<in> A. t x = v x)"
    if "u \<in> set ?ts" "\<forall>x \<in> insert e A. t x = u x" for t u
  proof -
    from new [OF that(1)] obtain v where v: "v \<in> set ts" "joined_by cell data u (r, j, e)" "\<forall>x \<in> A. u x = v x"
      by (elim bexE conjE)
    note ends = attachableD [OF step(1), folded step(2)]
    have "{rl_from_entity r, rl_to_entity r} \<subseteq> insert e A" unfolding ends(3) using ends(1) by simp
    then have inside: "rl_from_entity r \<in> insert e A" "rl_to_entity r \<in> insert e A" by simp_all
    have mem: "e \<in> {rl_from_entity r, rl_to_entity r}" unfolding ends(3) by simp
    have "t (rl_from_entity r) = u (rl_from_entity r)" "t (rl_to_entity r) = u (rl_to_entity r)"
      by (rule bspec [OF that(2) inside(1)], rule bspec [OF that(2) inside(2)])
    then have "joined_by cell data t (r, j, e)"
      using v(2) joined_by_cong [OF _ _ mem, of t u cell data j] by simp
    moreover have "\<forall>x \<in> A. t x = v x" using v(3) that(2) by simp
    ultimately show ?thesis using v(1) by (intro conjI bexI [of _ v])
  qed
  show ?case
    unfolding join_all.simps reached_by_simps
  proof (intro conjI ballI)
    show "distinct (join_all cell data steps ?ts)" using IH ..
    fix t assume t: "t \<in> set (join_all cell data steps ?ts)"
    note of_t = bspec [OF conjunct2 [OF IH] t]
    obtain u where u: "u \<in> set ?ts" "\<forall>x \<in> insert e A. t x = u x"
      using conjunct2 [OF conjunct2 [OF of_t]] ..
    show "row_within data (reached_by (insert e A) steps) t" using of_t ..
    show "\<exists>u \<in> set ts. \<forall>x \<in> A. t x = u x" using keep [OF u] by blast
    fix s assume "s \<in> set ((r, j, e) # steps)"
    then show "joined_by cell data t s" using keep [OF u] conjunct1 [OF conjunct2 [OF of_t]] by auto
  qed
qed

section \<open>Rows of a population\<close>

lemma take_crossing_Some:
  assumes "take_crossing W edges = Some (r, rest)"
  shows "(rl_from_entity r \<in> W) \<noteq> (rl_to_entity r \<in> W)" "set edges = insert r (set rest)"
  using assms
  by (induction W edges arbitrary: rest rule: take_crossing.induct) (auto split: if_splits)

lemma joins_attach_once:
  assumes "joins A steps"
  shows "distinct (map (\<lambda>(_, _, e). e) steps) \<and> (\<forall>(r, j, e) \<in> set steps. e \<notin> A)"
  using assms
proof (induction A steps rule: joins.induct)
  case (2 A r j e steps)
  from 2(2) have step: "attachable A r j" "e = attached A r" "joins (insert e A) steps"
    unfolding joins.simps by blast+
  have "e \<notin> A" using attachableD(2) [OF step(1)] step(2) by simp
  with 2(1) [OF step(3)] show ?case by auto
qed simp

lemma joins_ends:
  assumes "joins A steps" "(r, j, e) \<in> set steps"
  shows "e \<in> {rl_from_entity r, rl_to_entity r} \<and> rl_from_entity r \<noteq> rl_to_entity r
    \<and> {rl_from_entity r, rl_to_entity r} \<subseteq> reached_by A steps"
  using assms
proof (induction A steps rule: joins.induct)
  case (2 A r' j' e' steps)
  from 2(2) have step: "attachable A r' j'" "e' = attached A r'" "joins (insert e' A) steps"
    unfolding joins.simps by blast+
  show ?case
  proof (cases "(r, j, e) \<in> set steps")
    case True
    with 2(1) [OF step(3)] show ?thesis by simp
  next
    case False
    then have "r = r'" "e = e'" using 2(3) by simp_all
    moreover have "insert e' A \<subseteq> reached_by (insert e' A) steps" by (auto simp: reached_by_def)
    ultimately show ?thesis using attachableD [OF step(1)] step(2) by (auto simp: doubleton_eq_iff)
  qed
qed simp

text \<open>
  Two joined rows with one row of the population agree on every entity that the walk outward
  from the population visits. An entity without a row was left out with its anchor visited.
\<close>

definition agree_on ::
  "join_step list \<Rightarrow> 'row joined \<Rightarrow> 'row joined \<Rightarrow> string set \<Rightarrow> bool" where
  "agree_on steps t u W \<longleftrightarrow>
     (\<forall>x \<in> W. t x = u x \<and> (t x = None \<longrightarrow>
        (\<exists>(r, j, e) \<in> set steps. e = x \<and> {rl_from_entity r, rl_to_entity r} \<subseteq> W)))"

lemma agree_cross:
  assumes steps: "joins A steps" "(r, j, e) \<in> set steps"
    and card: "cardinality_holds cell data r"
    and t: "joined_by cell data t (r, j, e)" "row_within data V t"
    and u: "joined_by cell data u (r, j, e)" "row_within data V u"
    and W: "agree_on steps t u W" "(rl_from_entity r \<in> W) \<noteq> (rl_to_entity r \<in> W)" "to_one W r"
  shows "agree_on steps t u (insert (if rl_from_entity r \<in> W then rl_to_entity r else rl_from_entity r) W)"
proof -
  define w where "w = (if rl_from_entity r \<in> W then rl_to_entity r else rl_from_entity r)"
  define v where "v = (if rl_from_entity r \<in> W then rl_from_entity r else rl_to_entity r)"
  have ends: "e \<in> {rl_from_entity r, rl_to_entity r}" "rl_from_entity r \<noteq> rl_to_entity r"
    using joins_ends [OF steps] by blast+
  have vw: "v \<in> W" "w \<notin> W" "{rl_from_entity r, rl_to_entity r} = {v, w}"
    using W(2) by (auto simp: v_def w_def)
  have tv: "t v = u v" using W(1) vw(1) by (simp add: agree_on_def)
  have evw: "e = v \<or> e = w" using ends(1) unfolding vw(3) by simp
  have unique: "t w = u w" if "t v = Some a" "t w \<noteq> None" "u w \<noteq> None" for a
  proof -
    have "t e \<noteq> None" using evw that(1,2) by (elim disjE) simp_all
    then obtain x y where xy: "t (rl_from_entity r) = Some x" "t (rl_to_entity r) = Some y" "rows_match cell r x y"
      using joined_by_match [OF t(1) ends(1)] by blast
    have "u e \<noteq> None" using evw that(1,3) tv by (elim disjE) simp_all
    then obtain x' y' where xy': "u (rl_from_entity r) = Some x'" "u (rl_to_entity r) = Some y'" "rows_match cell r x' y'"
      using joined_by_match [OF u(1) ends(1)] by blast
    note xd = row_within_row [OF t(2) xy(1)] and yd = row_within_row [OF t(2) xy(2)]
    note xd' = row_within_row [OF u(2) xy'(1)] and yd' = row_within_row [OF u(2) xy'(2)]
    show ?thesis
    proof (cases "rl_from_entity r \<in> W")
      case True
      then have "x = x'" using tv xy(1) xy'(1) by (simp add: v_def)
      then have "y = y'" using cardinality_to [OF card xd yd yd' xy(3)] xy'(3) by simp
      then show ?thesis using True xy(2) xy'(2) by (simp add: w_def)
    next
      case False
      then have "y = y'" using tv xy(2) xy'(2) by (simp add: v_def)
      moreover have "rl_cardinality r = OneToOne" using W(3) False by (simp add: to_one_def)
      ultimately have "x = x'" using cardinality_from [OF card _ xd xd' yd xy(3)] xy'(3) by simp
      then show ?thesis using False xy(1) xy'(1) by (simp add: w_def)
    qed
  qed
  have new: "t w = u w \<and> (t w = None \<longrightarrow> e = w)"
  proof (cases "e = v")
    case True
    have "t v \<noteq> None"
    proof
      assume "t v = None"
      then obtain r' j' where r': "(r', j', e) \<in> set steps" "{rl_from_entity r', rl_to_entity r'} \<subseteq> W"
        using W(1) vw(1) True by (auto simp: agree_on_def)
      have "distinct (map (\<lambda>(_, _, e). e) steps)" using joins_attach_once [OF steps(1)] by blast
      then have "(r', j', e) = (r, j, e)"
        using r'(1) steps(2) unfolding distinct_map by (auto dest: inj_onD [of _ _ "(r', j', e)" "(r, j, e)"])
      with r'(2) W(2) show False by auto
    qed
    moreover have "t w \<noteq> None"
    proof -
      have "t e \<noteq> None" using calculation True by simp
      then obtain x y where "t (rl_from_entity r) = Some x" "t (rl_to_entity r) = Some y"
        using joined_by_match [OF t(1) ends(1)] by blast
      then show ?thesis by (simp add: w_def)
    qed
    moreover have "u w \<noteq> None"
    proof -
      have "u e \<noteq> None" using calculation(1) True tv by simp
      then obtain x y where "u (rl_from_entity r) = Some x" "u (rl_to_entity r) = Some y"
        using joined_by_match [OF u(1) ends(1)] by blast
      then show ?thesis by (simp add: w_def)
    qed
    ultimately show ?thesis using unique by auto
  next
    case False
    then have ew: "e = w" using evw by simp
    have "partners cell data r e t = partners cell data r e u"
      using ew tv vw ends(2) by (auto simp: partners_def v_def w_def)
    then have "t w = None \<longleftrightarrow> u w = None"
      using joined_by_null [OF t ends(1)] joined_by_null [OF u ends(1)] ew by simp
    moreover have "t v \<noteq> None" if "t w \<noteq> None"
    proof -
      have "t e \<noteq> None" using that ew by simp
      then obtain x y where "t (rl_from_entity r) = Some x" "t (rl_to_entity r) = Some y"
        using joined_by_match [OF t(1) ends(1)] by blast
      then show ?thesis by (simp add: v_def)
    qed
    ultimately show ?thesis using unique ew by (cases "t w") auto
  qed
  show ?thesis
    unfolding w_def [symmetric] agree_on_def
  proof (intro ballI conjI impI)
    fix x assume x: "x \<in> insert w W"
    show "t x = u x" using x new W(1) by (auto simp: agree_on_def)
    assume none: "t x = None"
    show "\<exists>(r, j, e) \<in> set steps. e = x \<and> {rl_from_entity r, rl_to_entity r} \<subseteq> insert w W"
    proof (cases "x = w")
      case True
      then have "e = x" using new none by simp
      with steps(2) vw show ?thesis by (intro bexI [of _ "(r, j, e)"]) auto
    next
      case False
      with x none W(1) show ?thesis by (fastforce simp: agree_on_def)
    qed
  qed
qed

text \<open>The walk of \<open>population_may_multiply\<close> reaches both ends of every relationship.\<close>

lemma agree_walk:
  assumes "\<not> edges_may_multiply W edges" "agree_on steps t u W"
    and "set edges \<subseteq> fst ` set steps" "joins A steps"
    and "\<forall>s \<in> set steps. cardinality_holds cell data (fst s)"
    and t: "\<forall>s \<in> set steps. joined_by cell data t s" "row_within data V t"
    and u: "\<forall>s \<in> set steps. joined_by cell data u s" "row_within data V u"
  shows "\<exists>X. agree_on steps t u X \<and> W \<subseteq> X \<and> set (endpoints edges) \<subseteq> X"
  using assms(1-3)
proof (induction W edges rule: edges_may_multiply.induct)
  case (1 W edges)
  show ?case
  proof (cases "edges = []")
    case True
    then show ?thesis using 1(3) by (auto simp: endpoints_def)
  next
    case False
    then obtain r rest where cross: "take_crossing W edges = Some (r, rest)" and one: "to_one W r"
      using 1(2) by (subst (asm) edges_may_multiply.simps) (auto split: option.splits if_splits)
    let ?w = "if rl_from_entity r \<in> W then rl_to_entity r else rl_from_entity r"
    note c = take_crossing_Some [OF cross]
    have more: "\<not> edges_may_multiply (insert ?w W) rest"
      using 1(2) False cross one by (subst (asm) edges_may_multiply.simps) simp
    have "r \<in> fst ` set steps" using 1(4) c(2) by blast
    then obtain j e where s: "(r, j, e) \<in> set steps" by force
    have card: "cardinality_holds cell data r" using bspec [OF assms(5) s] by simp
    have "agree_on steps t u (insert ?w W)"
      by (rule agree_cross [OF assms(4) s card bspec [OF t(1) s] t(2) bspec [OF u(1) s] u(2) 1(3) c(1) one])
    from 1(1) [OF False cross refl _ more this] one 1(4) c(2) obtain X where
        X: "agree_on steps t u X" "insert ?w W \<subseteq> X" "set (endpoints rest) \<subseteq> X" by auto
    have "rl_from_entity r \<in> X" "rl_to_entity r \<in> X" using X(2) c(1) by (auto split: if_splits)
    moreover have "set (endpoints edges) \<subseteq> {rl_from_entity r, rl_to_entity r} \<union> set (endpoints rest)"
      using c(2) by (auto simp: endpoints_def)
    ultimately show ?thesis using X by blast
  qed
qed

lemma reached_in_ends:
  assumes "joins {start} steps" "x \<in> reached_by {start} steps"
  shows "x = start \<and> steps = [] \<or> x \<in> set (endpoints (map fst steps))"
proof (cases steps)
  case Nil
  with assms(2) show ?thesis by simp
next
  case (Cons s rest)
  obtain r j e where s: "s = (r, j, e)" by (metis prod.collapse)
  from assms(1) have "attachable {start} r j" unfolding Cons s joins.simps by blast
  then have "start \<in> {rl_from_entity r, rl_to_entity r}" by (auto simp: attachable_def Let_def)
  then have start: "start \<in> set (endpoints (map fst steps))" by (auto simp: endpoints_def Cons s)
  show ?thesis
  proof (cases "x = start")
    case False
    then obtain r' j' where "(r', j', x) \<in> set steps" using assms(2) by (auto simp: reached_by_def)
    moreover from this have "x \<in> {rl_from_entity r', rl_to_entity r'}" using joins_ends [OF assms(1)] by blast
    ultimately show ?thesis by (force simp: endpoints_def)
  qed (use start in simp)
qed

lemma population_rows:
  assumes order: "joins {start} steps" "p \<in> reached_by {start} steps"
    and kept: "\<forall>(r, j, e) \<in> set steps. e = p \<longrightarrow> j = JoinInner"
    and once: "\<not> edges_may_multiply {p} edges" "set edges = fst ` set steps"
    and card: "\<forall>s \<in> set steps. cardinality_holds cell data (fst s)"
    and data: "\<And>e. distinct (data e)"
  shows "\<exists>rows. map (\<lambda>t. t p) (join_rows cell data start steps) = map Some rows \<and> distinct rows
    \<and> set rows \<subseteq> set (data p)"
proof -
  let ?T = "join_rows cell data start steps" and ?V = "reached_by {start} steps"
  let ?base = "map (\<lambda>x. (\<lambda>_. None)(start := Some x)) (data start)"
  have inj: "inj_on (\<lambda>x. (\<lambda>_. None)(start := Some x)) S" for S :: "'a set"
    by (rule inj_onI) (metis fun_upd_same option.inject)
  have "distinct ?base" using data inj by (simp add: distinct_map)
  moreover have "\<forall>t \<in> set ?base. row_within data {start} t" by (auto simp: row_within_def split: option.splits)
  ultimately have run: "distinct ?T \<and> (\<forall>t \<in> set ?T. row_within data ?V t \<and> (\<forall>s \<in> set steps. joined_by cell data t s)
      \<and> (\<exists>u \<in> set ?base. \<forall>x \<in> {start}. t x = u x))"
    unfolding join_rows_def by (intro join_all_spec [where data = data, OF order(1) _ _ data])
  have T: "row_within data ?V t" "\<forall>s \<in> set steps. joined_by cell data t s" "t start \<noteq> None" if "t \<in> set ?T" for t
  proof -
    note of_t = bspec [OF conjunct2 [OF run] that]
    show "row_within data ?V t" "\<forall>s \<in> set steps. joined_by cell data t s" using of_t by blast+
    have "\<exists>u \<in> set ?base. t start = u start" using of_t by blast
    then obtain u where "u \<in> set ?base" "t start = u start" ..
    then show "t start \<noteq> None" by auto
  qed
  have some: "t p \<noteq> None" if t: "t \<in> set ?T" for t
  proof (cases "p = start")
    case False
    then obtain r j where s: "(r, j, p) \<in> set steps" using order(2) by (auto simp: reached_by_def)
    have "j = JoinInner" using bspec [OF kept s] by simp
    moreover have "p \<in> {rl_from_entity r, rl_to_entity r}" using joins_ends [OF order(1) s] by blast
    ultimately show ?thesis using bspec [OF T(2) [OF t] s] by (auto simp: joined_by_def)
  qed (use T(3) [OF t] in simp)
  have same: "t = u" if t: "t \<in> set ?T" and u: "u \<in> set ?T" and p: "t p = u p" for t u
  proof
    fix x
    have "agree_on steps t u {p}" using p some [OF t] by (auto simp: agree_on_def)
    from agree_walk [OF once(1) this _ order(1) card T(2) [OF t] T(1) [OF t] T(2) [OF u] T(1) [OF u]] once(2)
    obtain X where X: "agree_on steps t u X" "p \<in> X" "set (endpoints edges) \<subseteq> X" by auto
    have ends: "set (endpoints (map fst steps)) \<subseteq> X" using X(3) once(2) by (simp add: endpoints_def)
    show "t x = u x"
    proof (cases "x \<in> ?V")
      case True
      then have "x \<in> X"
        using reached_in_ends [OF order(1) True] reached_in_ends [OF order] X(2) ends
        by (cases "steps = []") (auto simp: endpoints_def)
      then show ?thesis using X(1) by (simp add: agree_on_def)
    next
      case False
      then show ?thesis using row_within_outside T(1) [OF t] T(1) [OF u] by metis
    qed
  qed
  let ?rows = "map (\<lambda>t. the (t p)) ?T"
  have "map (\<lambda>t. t p) ?T = map Some ?rows" using some by simp
  moreover have "distinct ?rows"
    using conjunct1 [OF run] unfolding distinct_map
    by (intro conjI inj_onI) (use same some in \<open>metis option.expand\<close>)+
  moreover have "set ?rows \<subseteq> set (data p)"
  proof
    fix y assume "y \<in> set ?rows"
    then obtain t where "t \<in> set ?T" "y = the (t p)" by auto
    then show "y \<in> set (data p)" using row_within_row [OF T(1), of t p y] some by auto
  qed
  ultimately show ?thesis by blast
qed

end
