(* ===== verification/Plan_Guarantees.thy ===== *)
theory Plan_Guarantees
  imports Join_Graph Population
begin

text \<open>
  What a validated plan is: authorized, joined as a tree, satisfiable and, for a named metric,
  a count of each row of its population once; and that the validation of a plan over a
  consistent domain pack always answers, with the plan or a reason.
\<close>

section \<open>The steps of a successful validation\<close>

lemma result_bindE:
  assumes "result_bind r f = Inr y"
  obtains x where "r = Inr x" "f x = Inr y"
  using assms by (cases r) simp_all

lemma validated_steps:
  assumes "validate_semantic_plan metadata dumps plan pack pj context resolved = Inr v"
  obtains metric uses concept_entity_ids start steps predicates groups where
    "check_unique_ids plan = Inr ()" "check_candidates plan pj = Inr ()"
    "plan_metric (pk_catalog pack) plan = Inr metric"
    "effective_concepts (pk_catalog pack) plan metric = Inr uses"
    "set (cu_effective uses) \<subseteq> set (pj_concepts pj)"
    "concept_entities (pk_catalog pack) (cu_effective uses) = Inr concept_entity_ids"
    "\<forall>f \<in> set (all_field_refs plan).
       check_field (pk_catalog pack) plan (safe_allowed_columns (jget context ''allowed_columns'')) f = Inr ()"
    "\<forall>f \<in> set (pl_literal_filters plan). check_literal_filter pack resolved (scope_columns context) f = Inr ()"
    "set concept_entity_ids \<subseteq> set (pl_entity_ids plan)"
    "\<forall>m. metric = Some m \<longrightarrow> mt_entity_id m \<in> set (pl_entity_ids plan)"
    "check_relationships pack plan = Inr (start, steps)"
    "check_metric_population pack plan metric steps = Inr ()"
    "check_result_shape plan = Inr ()"
    "concept_predicates dumps (pk_catalog pack) (cu_conjunctive uses) = Inr predicates"
    "traverse (traverse (concept_predicates dumps (pk_catalog pack))) (cu_or_groups uses) = Inr groups"
    "validate_predicate_consistency predicates (pl_literal_filters plan) = Inr ()"
    "\<forall>branch \<in> set (concat groups).
       validate_predicate_consistency (predicates @ branch) (pl_literal_filters plan) = Inr ()"
    "vp_plan v = canonical_plan dumps plan" "vp_effective_concept_ids v = cu_effective uses"
    "vp_effective_predicates v = predicates" "vp_rule_or_predicate_groups v = groups"
  using assms unfolding validate_semantic_plan_def Let_def split_beta
proof (elim result_bindE, goal_cases)
  case (1 _ _ metric uses _ concept_entity_ids _ _ _ _ x _ _ _ _ _ predicates groups)
  let ?required = "concept_entity_ids @ (case metric of None \<Rightarrow> [] | Some m \<Rightarrow> [mt_entity_id m])
      @ map fr_entity_id (all_field_refs plan)
      @ (if counts_rows_of_one_entity plan then [hd (pl_entity_ids plan)] else [])"
  have required: "set ?required \<subseteq> set (pl_entity_ids plan)" using 1(10) by (simp only: require_subset_Inr)
  then have r: "set concept_entity_ids \<subseteq> set (pl_entity_ids plan)"
      "\<forall>m. metric = Some m \<longrightarrow> mt_entity_id m \<in> set (pl_entity_ids plan)" by auto
  note f = 1(2-)
  have c1: "check_unique_ids plan = Inr ()" using f(1) by simp
  have c2: "check_candidates plan pj = Inr ()" using f(2) by simp
  have c5: "set (cu_effective uses) \<subseteq> set (pj_concepts pj)" using f(5) by simp
  note c7 = f(7) [unfolded check_all_Inr] and c8 = f(8) [unfolded check_all_Inr]
  have c11: "check_relationships pack plan = Inr (fst x, snd x)" using f(11) by simp
  have c12: "check_metric_population pack plan metric (snd x) = Inr ()" using f(12) by simp
  have c13: "check_result_shape plan = Inr ()" using f(13) by simp
  have c19: "validate_predicate_consistency predicates (pl_literal_filters plan) = Inr ()" using f(19) by simp
  note c20 = f(20) [unfolded check_all_Inr]
  have v: "v = \<lparr>vp_plan = canonical_plan dumps plan, vp_effective_concept_ids = cu_effective uses,
           vp_effective_predicates = predicates, vp_rule_or_predicate_groups = groups,
           vp_rule_all_of_concept_ids = cu_rule_all_of uses,
           vp_rule_or_concept_groups = cu_rule_or_groups uses,
           vp_metric_aggregation_function = map_option mt_aggregation_function metric\<rparr>"
    using f(21) by simp
  show ?case
    by (rule that [OF c1 c2 f(3,4) c5 f(6) c7 c8 r c11 c12 c13 f(17,18) c19 c20])
      (simp_all only: v validated_plan.simps)
qed

section \<open>Authorization\<close>

text \<open>A literal of the type of its column, among its known values, and not on the scope column.\<close>

definition literal_admitted :: "domain_pack \<Rightarrow> bool \<Rightarrow> (string \<times> string) list \<Rightarrow> literal_filter \<Rightarrow> bool" where
  "literal_admitted pack resolved scopes f \<longleftrightarrow>
     (\<exists>entity column.
        entity_of (pk_catalog pack) (fr_entity_id (lf_field f)) = Some entity
        \<and> pack_column pack (en_table entity) (fr_column (lf_field f)) = Some column
        \<and> list_all (\<lambda>x. value_matches_type x (dm_data_type column)) (literal_values (lf_value f))
        \<and> pred_option (\<lambda>known. scalar_keys (literal_values (lf_value f)) \<subseteq> scalar_keys (kv_values known))
            (dict_get kv_column (fr_column (lf_field f)) (en_known_values entity))
        \<and> \<not> (resolved \<and> map_of scopes (en_table entity) = Some (fr_column (lf_field f))))"

lemma check_literal_filter_ok:
  assumes "check_literal_filter pack resolved scopes f = Inr u"
  shows "literal_admitted pack resolved scopes f"
  using assms unfolding check_literal_filter_def validate_literal_filter_def Let_def
proof (elim result_bindE, goal_cases)
  case (1 entity _ entity' table column _)
  then have e: "entity_of (pk_catalog pack) (fr_entity_id (lf_field f)) = Some entity" "entity' = entity" by simp_all
  have "pack_column pack (en_table entity) (fr_column (lf_field f)) = Some column"
    using 1(4,5) e(2) by (simp add: pack_column_def)
  moreover have "list_all (\<lambda>x. value_matches_type x (dm_data_type column)) (literal_values (lf_value f))"
    using 1(6) by simp
  moreover have "pred_option (\<lambda>known. scalar_keys (literal_values (lf_value f)) \<subseteq> scalar_keys (kv_values known))
            (dict_get kv_column (fr_column (lf_field f)) (en_known_values entity))"
    using 1(7) e(2) by (cases "dict_get kv_column (fr_column (lf_field f)) (en_known_values entity)") simp_all
  moreover have "\<not> (resolved \<and> map_of scopes (en_table entity) = Some (fr_column (lf_field f)))"
    using 1(2) by simp
  ultimately show ?case using e(1) unfolding literal_admitted_def by blast
qed

definition field_authorized :: "semantic_catalog \<Rightarrow> json \<Rightarrow> field_ref \<Rightarrow> bool" where
  "field_authorized cat context f \<longleftrightarrow>
     (\<exists>entity. entity_of cat (fr_entity_id f) = Some entity
        \<and> fr_column f \<in> set (columns_of (safe_allowed_columns (jget context ''allowed_columns'')) (en_table entity)))"

lemma check_field_ok:
  "check_field cat plan (safe_allowed_columns (jget context ''allowed_columns'')) f = Inr u
     \<longleftrightarrow> fr_entity_id f \<in> set (pl_entity_ids plan) \<and> field_authorized cat context f"
  by (auto simp: check_field_def field_authorized_def result_bind_Inr_iff split: option.splits)

lemma canonical_plan_sets [simp]:
  "set (pl_entity_ids (canonical_plan dumps plan)) = set (pl_entity_ids plan)"
  "set (pl_rule_ids (canonical_plan dumps plan)) = set (pl_rule_ids plan)"
  "set (pl_relationships (canonical_plan dumps plan)) = set (pl_relationships plan)"
  "set (pl_literal_filters (canonical_plan dumps plan)) = set (pl_literal_filters plan)"
  "set (all_field_refs (canonical_plan dumps plan)) = set (all_field_refs plan)"
  "pl_metric_id (canonical_plan dumps plan) = pl_metric_id plan"
  by (simp_all add: canonical_plan_def all_field_refs_def List.map_filter_def)

section \<open>The tree of relationships\<close>

text \<open>
  The relationships \<open>intents\<close> name span the entities: their rows in the catalog join entities of
  the plan only, connect all of them, and are one less than these.
\<close>

definition spans :: "semantic_catalog \<Rightarrow> string list \<Rightarrow> relationship_intent list \<Rightarrow> bool" where
  "spans cat entity_ids intents \<longleftrightarrow>
     (\<exists>rows. list_all2 (\<lambda>i r. relationship_of cat (ri_relationship_id i) = Some r) intents rows
        \<and> list_all (\<lambda>r. rl_from_entity r \<in> set entity_ids \<and> rl_to_entity r \<in> set entity_ids) rows
        \<and> connects (set entity_ids) (map edge_of rows) \<and> length rows + 1 = length entity_ids)"

lemma check_relationships_order:
  assumes "check_relationships pack plan = Inr (start, steps)"
  obtains selected where "selected_relationships (pk_catalog pack) plan = Inr selected"
    "is_join_order (set (pl_entity_ids plan)) selected start steps"
    "selected_join_order (pk_catalog pack) plan = Inr (Some (start, steps))"
  using assms unfolding check_relationships_def Let_def
proof (elim result_bindE, goal_cases)
  case (1 _ _ order)
  then have "selected_join_order (pk_catalog pack) plan = Inr (Some (start, steps))"
    by (cases order) simp_all
  from selected_join_order_Some [OF this] that [OF _ _ this] show ?case by metis
qed

lemma spans_rows:
  "spans cat entity_ids intents \<longleftrightarrow>
     (\<forall>i \<in> set intents. \<exists>r. relationship_of cat (ri_relationship_id i) = Some r
        \<and> rl_from_entity r \<in> set entity_ids \<and> rl_to_entity r \<in> set entity_ids)
     \<and> connects (set entity_ids) (map (\<lambda>i. edge_of (the (relationship_of cat (ri_relationship_id i)))) intents)
     \<and> length intents + 1 = length entity_ids"
proof -
  have rows: "list_all2 (\<lambda>i r. relationship_of cat (ri_relationship_id i) = Some r) intents rows
      \<longleftrightarrow> (\<forall>i \<in> set intents. relationship_of cat (ri_relationship_id i) \<noteq> None)
          \<and> rows = map (\<lambda>i. the (relationship_of cat (ri_relationship_id i))) intents" for rows
    by (induction intents arbitrary: rows) (auto simp: list_all2_Cons1)
  show ?thesis unfolding spans_def rows by (fastforce simp: list_all_iff comp_def)
qed

lemma spans_cong:
  assumes "set entity_ids' = set entity_ids" "length entity_ids' = length entity_ids"
    and "set intents' = set intents" "length intents' = length intents"
  shows "spans cat entity_ids' intents' \<longleftrightarrow> spans cat entity_ids intents"
  unfolding spans_rows connects_def set_map assms ..

lemma checked_relationships_span:
  assumes "check_unique_ids plan = Inr ()" "check_relationships pack plan = Inr order"
  shows "spans (pk_catalog pack) (pl_entity_ids plan) (pl_relationships plan)"
proof -
  let ?f = "\<lambda>i. the (relationship_of (pk_catalog pack) (ri_relationship_id i))"
  let ?rows = "map ?f (pl_relationships plan)"
  obtain selected where sel: "selected_relationships (pk_catalog pack) plan = Inr selected"
    using check_relationships_order [of pack plan "fst order" "snd order"] assms(2) by auto
  have found: "\<forall>i \<in> set (pl_relationships plan). \<exists>r. relationship_of (pk_catalog pack) (ri_relationship_id i) = Some r"
  proof
    fix i assume "i \<in> set (pl_relationships plan)"
    then obtain n where n: "n < length (pl_relationships plan)" "i = pl_relationships plan ! n"
      by (auto simp: in_set_conv_nth)
    have "result_bind (require_key (relationship_of (pk_catalog pack) (ri_relationship_id i))) (\<lambda>r. Inr (r, ri_join_type i))
        = Inr (selected ! n)"
      using list_all2_nthD [OF sel [unfolded selected_relationships_def traverse_Inr_iff] n(1)] n(2) by simp
    then show "\<exists>r. relationship_of (pk_catalog pack) (ri_relationship_id i) = Some r"
      by (elim result_bindE) simp
  qed
  have "List.map_filter (\<lambda>i. relationship_of (pk_catalog pack) (ri_relationship_id i)) is = map ?f is"
    if "\<forall>i \<in> set is. \<exists>r. relationship_of (pk_catalog pack) (ri_relationship_id i) = Some r" for "is"
    using that by (induction "is") (auto simp: List.map_filter_def)
  from this [OF found] have rows: "selected_rows (pk_catalog pack) plan = ?rows"
    by (simp add: selected_rows_def)
  have "rl_id (?f i) = ri_relationship_id i" if "i \<in> set (pl_relationships plan)" for i
    using found that dict_get_SomeD [of rl_id "ri_relationship_id i" "ca_relationships (pk_catalog pack)"] by force
  then have ids: "map rl_id ?rows = map ri_relationship_id (pl_relationships plan)" by simp
  have unique: "distinct (pl_entity_ids plan)" "distinct (map ri_relationship_id (pl_relationships plan))"
      "pl_entity_ids plan \<noteq> []"
    using assms(1) by (simp_all add: check_unique_ids_def result_bind_Inr_iff)
  have ends: "set (endpoints ?rows) \<subseteq> set (pl_entity_ids plan)"
    and graph: "validate_relationship_graph (pl_entity_ids plan) (pl_relationships plan) ?rows = Inr ()"
    using assms(2) unfolding check_relationships_def Let_def rows by (elim result_bindE; simp)+
  have "\<forall>(a, b) \<in> set (map edge_of ?rows). a \<in> set (pl_entity_ids plan) \<and> b \<in> set (pl_entity_ids plan)"
    using ends by (auto simp: endpoints_def edge_of_def)
  note tree = relationship_graph_outcome [OF unique(3,1) _ unique(2) _ this]
  have "distinct (map rl_id ?rows)" "set (map ri_relationship_id (pl_relationships plan)) = set (map rl_id ?rows)"
    unfolding ids using unique(2) by simp_all
  with tree graph
  have "connects (set (pl_entity_ids plan)) (map edge_of ?rows)" "length ?rows + 1 = length (pl_entity_ids plan)"
    by blast+
  moreover have "\<forall>i \<in> set (pl_relationships plan). rl_from_entity (?f i) \<in> set (pl_entity_ids plan)
      \<and> rl_to_entity (?f i) \<in> set (pl_entity_ids plan)"
    using ends by (auto simp: endpoints_def)
  ultimately show ?thesis
    unfolding spans_rows using found by (intro conjI ballI) (force simp: comp_def)+
qed

text \<open>
  C29: a validated plan stays within what the request may use: its entities, effective concepts,
  rules, relationships and metric are candidates of the projection; every field belongs to a
  chosen entity and to the columns allowed to the user; every literal has the type of its column
  and a known value, and none filters a scope column once the scope of the question is resolved;
  and its relationships form a spanning tree of its entities.
\<close>

theorem accepted_plan_is_authorized:
  assumes "validate_semantic_plan metadata dumps plan pack pj context resolved = Inr v"
  shows "set (pl_entity_ids (vp_plan v)) \<subseteq> set (pj_entities pj)
    \<and> set (vp_effective_concept_ids v) \<subseteq> set (pj_concepts pj)
    \<and> set (pl_rule_ids (vp_plan v)) \<subseteq> set (pj_rules pj)
    \<and> ri_relationship_id ` set (pl_relationships (vp_plan v)) \<subseteq> set (pj_relationships pj)
    \<and> set_option (pl_metric_id (vp_plan v)) \<subseteq> set (pj_metrics pj)
    \<and> list_all (\<lambda>f. fr_entity_id f \<in> set (pl_entity_ids (vp_plan v)) \<and> field_authorized (pk_catalog pack) context f)
        (all_field_refs (vp_plan v))
    \<and> list_all (literal_admitted pack resolved (scope_columns context)) (pl_literal_filters (vp_plan v))
    \<and> distinct (pl_entity_ids (vp_plan v))
    \<and> spans (pk_catalog pack) (pl_entity_ids (vp_plan v)) (pl_relationships (vp_plan v))"
proof (rule validated_steps [OF assms], goal_cases)
  case (1 metric uses concept_entity_ids start steps predicates groups)
  have "set (pl_entity_ids plan) \<subseteq> set (pj_entities pj) \<and> set (pl_rule_ids plan) \<subseteq> set (pj_rules pj)
      \<and> ri_relationship_id ` set (pl_relationships plan) \<subseteq> set (pj_relationships pj)
      \<and> set_option (pl_metric_id plan) \<subseteq> set (pj_metrics pj)"
    using 1(2) by (cases "pl_metric_id plan") (simp_all add: check_candidates_def result_bind_Inr_iff)
  moreover have "distinct (pl_entity_ids (canonical_plan dumps plan))"
    using 1(1) by (simp add: check_unique_ids_def result_bind_Inr_iff canonical_plan_def)
  moreover have "spans (pk_catalog pack) (pl_entity_ids (canonical_plan dumps plan))
      (pl_relationships (canonical_plan dumps plan))"
    using checked_relationships_span [OF 1(1,11)]
    by (subst spans_cong [of _ "pl_entity_ids plan" _ "pl_relationships plan"]) (simp_all add: canonical_plan_def)
  ultimately show ?case
    using 1(5,7,8) check_literal_filter_ok by (simp add: 1(18,19) check_field_ok list_all_iff)
qed

section \<open>The population of a metric\<close>

lemma check_metric_population_ok:
  assumes "check_metric_population pack plan (Some m) steps = Inr u"
    and "population_may_multiply (pk_catalog pack) (mt_entity_id m) plan = Inr multiplies"
  shows "\<not> multiplies" "\<not> list_ex (\<lambda>(_, j, added). added = mt_entity_id m \<and> j \<noteq> JoinInner) steps"
  using assms by (simp_all add: check_metric_population_def split: if_splits)

text \<open>
  C31: a validated metric counts its population: when the declared cardinalities hold of the data,
  the joined rows of the query hold a row of the entity of the metric in every line, never a
  missing one, and no row of it twice; \<open>COUNT(*)\<close> before the filters counts exactly
  the rows of the entity that take part in the join.
\<close>

theorem metric_rows_count_once:
  assumes "validate_semantic_plan metadata dumps plan pack pj context resolved = Inr v"
    and "pl_metric_id plan = Some m" "metric_of (pk_catalog pack) m = Some metric"
    and "selected_join_order (pk_catalog pack) plan = Inr (Some (start, steps))"
    and "\<And>e. distinct (data e)" "\<forall>s \<in> set steps. cardinality_holds cell data (fst s)"
  shows "\<exists>rows. map (\<lambda>t. t (mt_entity_id metric)) (join_rows cell data start steps) = map Some rows
    \<and> distinct rows \<and> set rows \<subseteq> set (data (mt_entity_id metric))"
proof (rule validated_steps [OF assms(1)], goal_cases)
  case (1 metric' uses concept_entity_ids start' steps' predicates groups)
  note s = 1(3,10,11,12)
  have metric: "metric' = Some metric"
    using s(1) assms(2,3) by (auto simp: plan_metric_def result_bind_Inr_iff split: if_splits)
  from s(3) obtain selected where sel: "selected_relationships (pk_catalog pack) plan = Inr selected"
      "is_join_order (set (pl_entity_ids plan)) selected start' steps'"
      "selected_join_order (pk_catalog pack) plan = Inr (Some (start', steps'))"
    by (rule check_relationships_order)
  have same: "start' = start" "steps' = steps" using sel(3) assms(4) by simp_all
  have order: "joins {start} steps" "reached_by {start} steps = set (pl_entity_ids plan)"
      "mset (map join_of steps) = mset selected"
    using sel(2) by (simp_all add: is_join_order_def same)
  have "population_may_multiply (pk_catalog pack) (mt_entity_id metric) plan
      = Inr (edges_may_multiply {mt_entity_id metric} (map fst selected))"
    using sel(1) by (simp add: population_may_multiply_def)
  note kept = check_metric_population_ok [OF s(4) [unfolded metric same] this]
  have "set (map fst selected) = fst ` join_of ` set steps"
    using mset_eq_setD [OF order(3)] by simp
  also have "\<dots> = fst ` set steps" by (simp add: image_image join_of_def)
  finally have edges: "set (map fst selected) = fst ` set steps" .
  show ?case
  proof (rule population_rows [where data = data, OF order(1) _ _ kept(1) edges assms(6,5)])
    show "mt_entity_id metric \<in> reached_by {start} steps" using s(2) metric order(2) by simp
    show "\<forall>(r, j, e) \<in> set steps. e = mt_entity_id metric \<longrightarrow> j = JoinInner"
      using kept(2) by (auto simp: list_ex_iff)
  qed
qed

section \<open>An example\<close>

lemma is_ok_projr: "is_ok r \<Longrightarrow> r = Inr (projr r)"
  by (cases r) simp_all

text \<open>The devices of active employees: a metric over two joined tables.\<close>

definition sample_entity :: "string \<Rightarrow> string \<Rightarrow> known_values list \<Rightarrow> semantic_entity" where
  "sample_entity i table known = \<lparr>en_id = i, en_table = table, en_references = [], en_known_values = known\<rparr>"

definition sample_owner :: semantic_relationship where
  "sample_owner = \<lparr>rl_id = ''owner'', rl_from_entity = ''device'', rl_from_column = ''owner_id'',
     rl_to_entity = ''employee'', rl_to_column = ''id'', rl_cardinality = ManyToOne, rl_optional = False\<rparr>"

definition sample_metric :: semantic_metric where
  "sample_metric = \<lparr>mt_id = ''devices'', mt_entity_id = ''device'', mt_references = [],
     mt_required_concept_ids = [''staff''], mt_aggregation_function = AgCount\<rparr>"

definition sample_catalog :: semantic_catalog where
  "sample_catalog = \<lparr>
     ca_entities = [sample_entity ''device'' ''devices'' [],
       sample_entity ''employee'' ''employees'' [\<lparr>kv_column = ''status'', kv_values = [SStr ''active'', SStr ''gone'']\<rparr>]],
     ca_relationships = [sample_owner],
     ca_concepts = [\<lparr>cn_id = ''staff'', cn_entity_id = ''employee'', cn_references = [],
        cn_required_predicates = [\<lparr>sp_column = ''kind'', sp_operator = OpEquals, sp_value = One (SStr ''staff'')\<rparr>],
        cn_all_of_concept_ids = [], cn_supersedes = []\<rparr>],
     ca_metrics = [sample_metric], ca_rules = []\<rparr>"

definition sample_columns :: "string list \<Rightarrow> domain_column list" where
  "sample_columns cs = map (\<lambda>c. \<lparr>dm_name = c, dm_data_type = ''text'', dm_nullable = False\<rparr>) cs"

definition sample_pack :: domain_pack where
  "sample_pack = \<lparr>
     pk_tables = [\<lparr>dt_name = ''devices'', dt_columns = sample_columns [''id'', ''owner_id'']\<rparr>,
                  \<lparr>dt_name = ''employees'', dt_columns = sample_columns [''id'', ''status'', ''kind'']\<rparr>],
     pk_catalog = sample_catalog\<rparr>"

definition sample_projection :: projection where
  "sample_projection = \<lparr>pj_entities = [''device'', ''employee''], pj_relationships = [''owner''],
     pj_concepts = [''staff''], pj_metrics = [''devices''], pj_rules = [], pj_grounded = None\<rparr>"

definition sample_context :: json where
  "sample_context = JDict [(''allowed_columns'',
     JDict [(''employees'', JList [JStr ''id'', JStr ''status''])]), (''tables'', JList [])]"

definition sample_plan :: semantic_plan where
  "sample_plan = \<lparr>pl_entity_ids = [''employee'', ''device''], pl_concept_ids = [], pl_rule_ids = [],
     pl_metric_id = Some ''devices'', pl_distinct = False,
     pl_literal_filters = [\<lparr>lf_field = \<lparr>fr_entity_id = ''employee'', fr_column = ''status''\<rparr>,
        lf_operator = LfEquals, lf_value = One (SStr ''active'')\<rparr>],
     pl_relationships = [\<lparr>ri_relationship_id = ''owner'', ri_join_type = JoinInner\<rparr>],
     pl_output_fields = [], pl_aggregations = [], pl_group_by = [], pl_having = [], pl_order_by = [],
     pl_limit = None\<rparr>"

definition sample_run :: "plan_error + validated_plan" where
  "sample_run = validate_semantic_plan [] (\<lambda>_. []) sample_plan sample_pack sample_projection sample_context True"

lemma sample_run_ok: "is_ok sample_run" by code_simp
lemma sample_order: "selected_join_order (pk_catalog sample_pack) sample_plan = Inr (Some (''device'', [(sample_owner, JoinInner, ''employee'')]))" by code_simp


text \<open>Two devices of one employee, and a device of nobody.\<close>

definition sample_rows :: "string \<Rightarrow> (string \<times> string) list list" where
  "sample_rows e =
     (if e = ''device'' then [[(''id'', ''d1''), (''owner_id'', ''e1'')], [(''id'', ''d2''), (''owner_id'', ''e1'')], [(''id'', ''d3'')]]
      else if e = ''employee'' then [[(''id'', ''e1'')], [(''id'', ''e2'')]] else [])"

theorem accepted_plan_is_authorized_witness:
  "list_all (literal_admitted sample_pack True (scope_columns sample_context)) (pl_literal_filters (vp_plan (projr sample_run)))
   \<and> pl_entity_ids (vp_plan (projr sample_run)) = [''device'', ''employee'']"
proof -
  have "sample_run = Inr (projr sample_run)" by (rule is_ok_projr [OF sample_run_ok])
  from accepted_plan_is_authorized [OF this [unfolded sample_run_def]]
  have "list_all (literal_admitted sample_pack True (scope_columns sample_context)) (pl_literal_filters (vp_plan (projr sample_run)))"
    unfolding sample_run_def by blast
  moreover have "pl_entity_ids (vp_plan (projr sample_run)) = [''device'', ''employee'']" by code_simp
  ultimately show ?thesis ..
qed

theorem metric_rows_count_once_witness:
  "\<exists>rows. map (\<lambda>t. t ''device'') (join_rows map_of sample_rows ''device'' [(sample_owner, JoinInner, ''employee'')]) = map Some rows
    \<and> distinct rows \<and> length rows = 2"
proof -
  let ?steps = "[(sample_owner, JoinInner, ''employee'')]"
  have run: "sample_run = Inr (projr sample_run)" by (rule is_ok_projr [OF sample_run_ok])
  have metric: "pl_metric_id sample_plan = Some ''devices''" "metric_of (pk_catalog sample_pack) ''devices'' = Some sample_metric"
    by code_simp+
  have rows: "distinct (sample_rows e)" for e by (simp add: sample_rows_def)
  have card: "\<forall>s \<in> set ?steps. cardinality_holds map_of sample_rows (fst s)" by code_simp
  have len: "length (join_rows map_of sample_rows ''device'' ?steps) = 2" by code_simp
  have p: "mt_entity_id sample_metric = ''device''" by (simp add: sample_metric_def)
  from metric_rows_count_once [OF run [unfolded sample_run_def] metric sample_order rows card] len
  show ?thesis unfolding p by (metis length_map)
qed
end
