(* ===== verification/Plan_Totality.thy ===== *)
theory Plan_Totality
  imports Plan_Guarantees
begin

text \<open>
  Over a consistent domain pack the validation of a plan always answers, with the plan or with
  the reason of a refusal: no lookup misses, no loop runs on and no assertion fails.
\<close>

section \<open>Consistent packs\<close>

definition catalog_consistent :: "semantic_catalog \<Rightarrow> bool" where
  "catalog_consistent cat \<longleftrightarrow>
     (\<forall>c \<in> set (ca_concepts cat). cn_entity_id c \<in> en_id ` set (ca_entities cat)
        \<and> set (cn_all_of_concept_ids c) \<subseteq> cn_id ` set (ca_concepts cat))
     \<and> (\<forall>m \<in> set (ca_metrics cat). set (mt_required_concept_ids m) \<subseteq> cn_id ` set (ca_concepts cat))
     \<and> (\<forall>r \<in> set (ca_rules cat). set (ru_all_of_concept_ids r) \<subseteq> cn_id ` set (ca_concepts cat)
        \<and> set (ru_or_concept_ids r) \<subseteq> cn_id ` set (ca_concepts cat))"

definition pack_consistent :: "domain_pack \<Rightarrow> bool" where
  "pack_consistent pack \<longleftrightarrow> catalog_consistent (pk_catalog pack)
     \<and> en_table ` set (ca_entities (pk_catalog pack)) \<subseteq> dt_name ` set (pk_tables pack)"

text \<open>The projection names parts of the catalog, and a required intent its own aggregations.\<close>

definition projection_consistent :: "semantic_catalog \<Rightarrow> projection \<Rightarrow> bool" where
  "projection_consistent cat pj \<longleftrightarrow>
     set (pj_concepts pj) \<subseteq> cn_id ` set (ca_concepts cat)
     \<and> set (pj_rules pj) \<subseteq> ru_id ` set (ca_rules cat)
     \<and> set (pj_metrics pj) \<subseteq> mt_id ` set (ca_metrics cat)
     \<and> set (pj_relationships pj) \<subseteq> rl_id ` set (ca_relationships cat)
     \<and> pred_option (\<lambda>i. gh_aggregation_id ` set (gi_having i) \<subseteq> ga_id ` set (gi_aggregations i)) (pj_grounded pj)"

text \<open>The schema context allows columns of the pack's tables only.\<close>

definition context_consistent :: "domain_pack \<Rightarrow> json \<Rightarrow> bool" where
  "context_consistent pack context \<longleftrightarrow>
     (\<forall>e \<in> set (ca_entities (pk_catalog pack)).
        \<forall>c \<in> set (columns_of (safe_allowed_columns (jget context ''allowed_columns'')) (en_table e)).
          pack_column pack (en_table e) c \<noteq> None)"

section \<open>Answers\<close>

definition answers :: "plan_error + 'a \<Rightarrow> bool" where
  "answers r \<longleftrightarrow> (\<forall>e. r = Inl e \<longrightarrow> (\<exists>reason. e = PlanInvalid reason))"

named_theorems answer_intros "steps that answer"

lemma answers_Inr [answer_intros, simp]: "answers (Inr x)"
  by (simp add: answers_def)

lemma answers_invalid [answer_intros, simp]: "answers (Inl (PlanInvalid reason))"
  by (simp add: answers_def)

lemma answers_ensure [answer_intros, simp]: "answers (ensure b (PlanInvalid reason))"
  by (simp add: answers_def ensure_def)

lemma answers_unique [answer_intros, simp]: "answers (require_unique xs reason)"
  by (simp add: require_unique_def)

lemma answers_subset [answer_intros, simp]: "answers (require_subset xs ys reason)"
  by (simp add: require_subset_def)

lemma answers_bind [answer_intros]:
  "answers r \<Longrightarrow> (\<And>x. r = Inr x \<Longrightarrow> answers (f x)) \<Longrightarrow> answers (result_bind r f)"
  by (cases r) (auto simp: answers_def)

lemma answers_key: "k \<in> key ` set rows \<Longrightarrow> answers (require_key (dict_get key k rows))"
  using dict_get_None [of key k rows] by (cases "dict_get key k rows") (auto simp: require_key_def)

lemma answers_traverse: "(\<And>x. x \<in> set xs \<Longrightarrow> answers (f x)) \<Longrightarrow> answers (traverse f xs)"
  by (induction xs) (auto intro!: answers_bind)

lemma answers_check_all: "(\<And>x. x \<in> set xs \<Longrightarrow> answers (f x)) \<Longrightarrow> answers (check_all f xs)"
  unfolding check_all_def by (intro answers_bind answers_traverse) simp_all

lemma reached_known:
  assumes "catalog_consistent cat" "ids \<subseteq> cn_id ` set (ca_concepts cat)"
  shows "reached cat ids \<subseteq> cn_id ` set (ca_concepts cat)"
proof (rule reached_least [OF assms(2)])
  show "components_in cat (cn_id ` set (ca_concepts cat)) (cn_id ` set (ca_concepts cat))"
    unfolding components_in_def
  proof (intro allI impI)
    fix c d assume "(c, d) \<in> component cat"
    then obtain concept where "concept_of cat c = Some concept" "d \<in> set (cn_all_of_concept_ids concept)"
      by (auto simp: component_def)
    then show "d \<in> cn_id ` set (ca_concepts cat)"
      using assms(1) dict_get_SomeD [of cn_id c "ca_concepts cat" concept]
      unfolding catalog_consistent_def by blast
  qed
qed

lemma answers_expand:
  assumes "catalog_consistent cat" "set ids \<subseteq> cn_id ` set (ca_concepts cat)"
  shows "answers (expand cat ids)"
    and "expand cat ids = Inr ys \<Longrightarrow> set ys \<subseteq> cn_id ` set (ca_concepts cat)"
proof -
  note known = reached_known [OF assms]
  show "answers (expand cat ids)"
  proof (cases "expand_calls cat (sorted_set ids) []")
    case None
    from expand_calls_fails [OF None] obtain c where "c \<in> reached cat (set ids)" "concept_of cat c = None" by auto
    with known show ?thesis by (auto simp: dict_get_None)
  next
    case (Some xs)
    then show ?thesis by (simp add: expand_def expand_semantic_concept_ids_def)
  qed
  assume "expand cat ids = Inr ys"
  then obtain xs where xs: "expand_calls cat (sorted_set ids) [] = Some xs" "ys = sorted_set xs"
    by (auto simp: expand_def expand_semantic_concept_ids_def split: option.splits)
  from expand_calls_sound(2) [OF xs(1)] known xs(2) show "set ys \<subseteq> cn_id ` set (ca_concepts cat)" by auto
qed

section \<open>The stages\<close>

lemma answers_metric:
  assumes "projection_consistent cat pj" "check_candidates plan pj = Inr u"
  shows "answers (plan_metric cat plan)"
    and "plan_metric cat plan = Inr (Some m) \<Longrightarrow> m \<in> set (ca_metrics cat)"
proof -
  have "pred_option (\<lambda>m. m \<in> mt_id ` set (ca_metrics cat)) (pl_metric_id plan)"
    using assms by (cases "pl_metric_id plan")
      (auto simp: check_candidates_def result_bind_Inr_iff projection_consistent_def)
  then show "answers (plan_metric cat plan)"
    unfolding plan_metric_def
    by (cases "pl_metric_id plan") (auto intro!: answers_bind answers_key split: if_splits)
  assume "plan_metric cat plan = Inr (Some m)"
  then show "m \<in> set (ca_metrics cat)"
    by (auto simp: plan_metric_def result_bind_Inr_iff dest!: dict_get_SomeD split: option.splits if_splits)
qed

lemma traverse_key:
  assumes "traverse (\<lambda>c. require_key (dict_get key c rows)) ids = Inr xs" "x \<in> set xs"
  shows "x \<in> set rows"
  using assms
  by (induction ids arbitrary: xs) (auto simp: result_bind_Inr_iff dest: dict_get_SomeD)

lemma traverse_source: "traverse f xs = Inr ys \<Longrightarrow> y \<in> set ys \<Longrightarrow> \<exists>x \<in> set xs. f x = Inr y"
  by (induction xs arbitrary: ys) (auto simp: result_bind_Inr_iff)

lemma traverse_expand_known:
  assumes "catalog_consistent cat" "set ids \<subseteq> cn_id ` set (ca_concepts cat)"
    and "traverse (\<lambda>c. expand cat [c]) ids = Inr yss"
  shows "\<forall>ys \<in> set yss. set ys \<subseteq> cn_id ` set (ca_concepts cat)"
  using assms(2,3)
proof (induction ids arbitrary: yss)
  case (Cons i ids)
  then show ?case using answers_expand(2) [OF assms(1), of "[i]"] by (fastforce simp: result_bind_Inr_iff)
qed simp

lemma answers_concepts:
  assumes cat: "catalog_consistent cat" and pj: "projection_consistent cat pj"
    and cand: "check_candidates plan pj = Inr u" and m: "\<And>m. metric = Some m \<Longrightarrow> m \<in> set (ca_metrics cat)"
  shows "answers (effective_concepts cat plan metric)"
    and "effective_concepts cat plan metric = Inr uses \<Longrightarrow>
      set (cu_effective uses) \<subseteq> cn_id ` set (ca_concepts cat)
      \<and> set (cu_conjunctive uses) \<subseteq> cn_id ` set (ca_concepts cat)
      \<and> (\<forall>group \<in> set (cu_or_groups uses). \<forall>branch \<in> set group. set branch \<subseteq> cn_id ` set (ca_concepts cat))"
proof -
  let ?K = "cn_id ` set (ca_concepts cat)"
  let ?required = "case metric of None \<Rightarrow> [] | Some m \<Rightarrow> mt_required_concept_ids m"
  have ids: "set (pl_concept_ids plan) \<subseteq> ?K" "set (pl_rule_ids plan) \<subseteq> ru_id ` set (ca_rules cat)"
    using pj cand by (auto simp: check_candidates_def result_bind_Inr_iff projection_consistent_def)
  have req: "set ?required \<subseteq> ?K" using m cat by (auto simp: catalog_consistent_def split: option.splits)
  have con: "set (concat (map cn_all_of_concept_ids concepts)) \<subseteq> ?K"
    if "traverse (\<lambda>c. require_key (concept_of cat c)) (pl_concept_ids plan) = Inr concepts" for concepts
    using traverse_key [OF that] cat unfolding catalog_consistent_def by fastforce
  have all: "set (concat (map ru_all_of_concept_ids rules)) \<subseteq> ?K"
    and either: "\<forall>r \<in> set rules. set (ru_or_concept_ids r) \<subseteq> ?K"
    if "traverse (\<lambda>r. require_key (rule_of cat r)) (pl_rule_ids plan) = Inr rules" for rules
    using traverse_key [OF that] cat unfolding catalog_consistent_def by fastforce+
  show "answers (effective_concepts cat plan metric)"
    unfolding effective_concepts_def Let_def
  proof (intro answers_bind answers_traverse answers_expand(1) [OF cat] answers_ensure answers_Inr, goal_cases)
    case (1 c) then show ?case using ids(1) by (intro answers_key) blast
  next
    case (2 concepts r) then show ?case using ids(2) by (intro answers_key) blast
  next
    case (3 concepts rules) then show ?case using con all req by simp
  next
    case (4 concepts rules) then show ?case using ids(1) all req by simp
  next
    case (5 concepts rules _ _ _ _ c)
    then obtain r where "r \<in> set rules" "c \<in> set (ru_or_concept_ids r)" by auto
    with either [OF 5(2)] show ?case by auto
  qed
  assume "effective_concepts cat plan metric = Inr uses"
  then show "set (cu_effective uses) \<subseteq> ?K \<and> set (cu_conjunctive uses) \<subseteq> ?K
      \<and> (\<forall>group \<in> set (cu_or_groups uses). \<forall>branch \<in> set group. set branch \<subseteq> ?K)"
    unfolding effective_concepts_def Let_def
  proof (elim result_bindE, goal_cases)
    case (1 concepts rules conjuncts _ conjunctive groups)
    have c: "set conjunctive \<subseteq> ?K"
      by (rule answers_expand(2) [OF cat _ 1(5)]) (use ids(1) all [OF 1(2)] req in simp)
    have "\<forall>branch \<in> set group. set branch \<subseteq> ?K" if g: "group \<in> set groups" for group
    proof -
      obtain r where r: "r \<in> set rules" "traverse (\<lambda>c. expand cat [c]) (sort (ru_or_concept_ids r)) = Inr group"
        using traverse_source [OF 1(6) g] by auto
      show ?thesis by (rule traverse_expand_known [OF cat _ r(2)]) (use either [OF 1(2)] r(1) in simp)
    qed
    then show ?case using c 1(7) by (auto simp: subset_iff)
  qed
qed

lemma answers_predicates:
  assumes "set ids \<subseteq> cn_id ` set (ca_concepts cat)"
  shows "answers (concept_predicates dumps cat ids)"
  unfolding concept_predicates_def using assms
  by (intro answers_bind answers_traverse answers_key answers_Inr) blast

lemma answers_literal:
  assumes pack: "pack_consistent pack" "context_consistent pack context"
    and field: "check_field (pk_catalog pack) plan (safe_allowed_columns (jget context ''allowed_columns'')) (lf_field f) = Inr ()"
  shows "answers (check_literal_filter pack resolved scopes f)"
proof -
  obtain entity where e: "entity_of (pk_catalog pack) (fr_entity_id (lf_field f)) = Some entity"
      "fr_column (lf_field f) \<in> set (columns_of (safe_allowed_columns (jget context ''allowed_columns'')) (en_table entity))"
    using field by (auto simp: check_field_ok field_authorized_def)
  have "entity \<in> set (ca_entities (pk_catalog pack))" using dict_get_SomeD [OF e(1)] by simp
  then have "pack_column pack (en_table entity) (fr_column (lf_field f)) \<noteq> None"
    using pack(2) e(2) by (simp add: context_consistent_def)
  then obtain table column where "dict_get dt_name (en_table entity) (pk_tables pack) = Some table"
      "dict_get dm_name (fr_column (lf_field f)) (dt_columns table) = Some column"
    by (auto simp: pack_column_def split: option.splits)
  then show ?thesis
    using e(1) by (auto simp: check_literal_filter_def validate_literal_filter_def require_key_def Let_def
        intro!: answers_bind split: option.splits)
qed

lemma answers_fold:
  "(\<And>x s. answers (f x s)) \<Longrightarrow> answers (fold_checked f xs s)"
  by (induction xs arbitrary: s) (auto intro!: answers_bind)

lemma answers_consistency: "answers (validate_predicate_consistency predicates filters)"
  unfolding validate_predicate_consistency_def
proof (intro answers_bind answers_fold answers_ensure)
  show "answers (add_concept_predicate p c)" for p c
    by (auto simp: add_concept_predicate_def add_equal_constraint_def add_allowed_constraint_def tuple_values_def Let_def
        intro!: answers_bind split: predicate_operator.splits sem_value.splits option.splits)
  show "answers (add_literal_filter f c)" for f c
    by (auto simp: add_literal_filter_def add_equal_constraint_def add_allowed_constraint_def tuple_values_def Let_def
        intro!: answers_bind split: literal_operator.splits sem_value.splits option.splits)
qed

lemma answers_aggregation:
  assumes "pack_consistent pack" "valid_aggregation a"
    and "\<And>f. ai_field a = Some f \<Longrightarrow> field_authorized (pk_catalog pack) context f"
  shows "answers (check_aggregation pack a)"
proof (cases "ai_function a = AgSum")
  case True
  with assms(2) obtain f where f: "ai_field a = Some f" by (auto simp: valid_aggregation_def)
  with assms(3) obtain entity where e: "entity_of (pk_catalog pack) (fr_entity_id f) = Some entity"
    by (auto simp: field_authorized_def)
  have "en_table entity \<in> dt_name ` set (pk_tables (pack))"
    using assms(1) dict_get_SomeD [OF e] by (auto simp: pack_consistent_def)
  then obtain table where "dict_get dt_name (en_table entity) (pk_tables pack) = Some table"
    using dict_get_None [of dt_name "en_table entity" "pk_tables pack"] by auto
  then show ?thesis
    using e f True unfolding check_aggregation_def
    by (auto simp: require_key_def intro!: answers_bind)
next
  case False
  then show ?thesis by (auto simp: check_aggregation_def intro!: answers_bind)
qed

lemma selected_rows_ids:
  assumes "\<forall>i \<in> set (pl_relationships plan). relationship_of cat (ri_relationship_id i) \<noteq> None"
  shows "map rl_id (selected_rows cat plan) = map ri_relationship_id (pl_relationships plan)"
proof -
  have "map rl_id (List.map_filter (\<lambda>i. relationship_of cat (ri_relationship_id i)) is) = map ri_relationship_id is"
    if "\<forall>i \<in> set is. relationship_of cat (ri_relationship_id i) \<noteq> None" for "is"
    using that
  proof (induction "is")
    case (Cons i "is")
    then obtain r where r: "relationship_of cat (ri_relationship_id i) = Some r" by auto
    then show ?case using Cons dict_get_SomeD [OF r] by (simp add: List.map_filter_def)
  qed (simp add: List.map_filter_def)
  from this [OF assms] show ?thesis by (simp add: selected_rows_def)
qed

lemma relationships_known:
  assumes "projection_consistent cat pj" "check_candidates plan pj = Inr u" "i \<in> set (pl_relationships plan)"
  shows "relationship_of cat (ri_relationship_id i) \<noteq> None"
proof -
  have "ri_relationship_id i \<in> set (pj_relationships pj)"
    using assms(2,3) unfolding check_candidates_def by (elim result_bindE) auto
  then show ?thesis using assms(1) unfolding projection_consistent_def dict_get_None by blast
qed

lemma answers_selected:
  assumes "projection_consistent cat pj" "check_candidates plan pj = Inr u"
  shows "answers (selected_relationships cat plan)"
  unfolding selected_relationships_def
proof (intro answers_traverse answers_bind answers_Inr)
  fix i assume "i \<in> set (pl_relationships plan)"
  from relationships_known [OF assms this] show "answers (require_key (relationship_of cat (ri_relationship_id i)))"
    by (auto simp: require_key_def)
qed

lemma answers_graph:
  assumes pj: "projection_consistent cat pj" and unique: "check_unique_ids plan = Inr ()"
    and cand: "check_candidates plan pj = Inr u"
    and ends: "set (endpoints (selected_rows cat plan)) \<subseteq> set (pl_entity_ids plan)"
  shows "answers (validate_relationship_graph (pl_entity_ids plan) (pl_relationships plan) (selected_rows cat plan))"
proof -
  have ids: "pl_entity_ids plan \<noteq> []" "distinct (pl_entity_ids plan)"
      "distinct (map ri_relationship_id (pl_relationships plan))"
    using unique unfolding check_unique_ids_def
    by (elim result_bindE, simp only: require_unique_Inr ensure_Inr_iff)+
  have rows: "map rl_id (selected_rows cat plan) = map ri_relationship_id (pl_relationships plan)"
    using selected_rows_ids relationships_known [OF pj cand] by blast
  have d: "distinct (map rl_id (selected_rows cat plan))" unfolding rows by (rule ids(3))
  have e: "set (map ri_relationship_id (pl_relationships plan)) = set (map rl_id (selected_rows cat plan))"
    unfolding rows ..
  have "\<forall>(a, b) \<in> set (map edge_of (selected_rows cat plan)). a \<in> set (pl_entity_ids plan) \<and> b \<in> set (pl_entity_ids plan)"
    using ends by (auto simp: endpoints_def edge_of_def)
  from conjunct2 [OF relationship_graph_outcome [OF ids(1,2) d ids(3) e this]]
  show ?thesis by (elim insertE emptyE) (simp_all only: answers_Inr answers_invalid)
qed

lemma answers_relationships:
  assumes "projection_consistent (pk_catalog pack) pj" "check_unique_ids plan = Inr ()"
    and "check_candidates plan pj = Inr u"
  shows "answers (check_relationships pack plan)"
  unfolding check_relationships_def Let_def
proof (intro answers_bind answers_subset, goal_cases)
  case 1
  then show ?case by (intro answers_graph [OF assms]) (simp only: require_subset_Inr)
next
  case 2
  show ?case unfolding selected_join_order_def
    by (intro answers_bind answers_Inr answers_selected [OF assms(1,3)])
next
  case (3 _ _ order)
  then show ?case by (cases order) simp_all
qed

lemma answers_population:
  assumes "answers (selected_relationships (pk_catalog pack) plan)"
  shows "answers (check_metric_population pack plan metric steps)"
  unfolding check_metric_population_def population_may_multiply_def using assms
  by (cases metric) (auto intro!: answers_bind)

lemma answers_shape: "answers (check_result_shape plan)"
  unfolding check_result_shape_def Let_def check_order_def
  by (intro answers_bind answers_ensure answers_check_all) (auto intro!: answers_bind split: option.splits)

lemma answers_grounded:
  assumes "gh_aggregation_id ` set (gi_having intent) \<subseteq> ga_id ` set (gi_aggregations intent)"
  shows "answers (validate_grounded_result_intent metadata cat plan intent)"
proof -
  have "\<not> list_ex (\<lambda>h. dict_get ga_id (gh_aggregation_id h) (gi_aggregations intent) = None) (gi_having intent)"
    using assms by (auto simp: list_ex_iff dict_get_None)
  then show ?thesis
    unfolding validate_grounded_result_intent_def Let_def
    by (intro answers_bind answers_ensure) simp
qed

section \<open>The whole validation\<close>

text \<open>
  C35: over a consistent domain pack, projection and schema context, the validation of a plan
  that passed the data model always ends with the validated plan or with the reason of a
  refusal: no dictionary lookup misses, no unknown concept is met, no assertion fails and the
  loops on the relationship graph end.
\<close>

theorem validation_always_answers:
  assumes "valid_plan plan" "pack_consistent pack" "projection_consistent (pk_catalog pack) pj"
    and "context_consistent pack context"
  shows "case validate_semantic_plan metadata dumps plan pack pj context resolved of
    Inr _ \<Rightarrow> True | Inl e \<Rightarrow> (case e of PlanInvalid _ \<Rightarrow> True | _ \<Rightarrow> False)"
proof -
  let ?cat = "pk_catalog pack" and ?K = "cn_id ` set (ca_concepts (pk_catalog pack))"
  have cat: "catalog_consistent ?cat" using assms(2) by (simp add: pack_consistent_def)
  have filters: "list_all valid_literal_filter (pl_literal_filters plan)"
    and aggs: "list_all valid_aggregation (pl_aggregations plan)" using assms(1) by (simp_all add: valid_plan_def)
  have "answers (validate_semantic_plan metadata dumps plan pack pj context resolved)"
    unfolding validate_semantic_plan_def Let_def split_beta
  proof (intro answers_bind answers_Inr answers_subset answers_ensure, goal_cases)
    case 1
    show ?case unfolding check_unique_ids_def by (intro answers_bind answers_unique answers_ensure)
  next
    case 2
    show ?case unfolding check_candidates_def by (intro answers_bind answers_subset answers_ensure)
  next
    case 3
    from 3(2) show ?case by (rule answers_metric(1) [OF assms(3)])
  next
    case (4 _ _ metric)
    show ?case by (rule answers_concepts(1) [OF cat assms(3) 4(2)]) (use answers_metric(2) [OF assms(3) 4(2)] 4(3) in simp)
  next
    case (5 _ _ metric uses)
    have "set (cu_effective uses) \<subseteq> ?K"
      using answers_concepts(2) [OF cat assms(3) 5(2) _ 5(4)] answers_metric(2) [OF assms(3) 5(2)] 5(3) by simp
    then show ?case unfolding concept_entities_def
      by (intro answers_traverse answers_bind answers_key answers_Inr) blast
  next
    case 6
    show ?case unfolding check_field_def by (intro answers_check_all answers_bind answers_ensure)
  next
    case 7
    show ?case
    proof (rule answers_check_all)
      fix f assume "f \<in> set (pl_literal_filters plan)"
      then have "lf_field f \<in> set (all_field_refs plan)" by (simp add: all_field_refs_def)
      then have "check_field ?cat plan (safe_allowed_columns (jget context ''allowed_columns'')) (lf_field f) = Inr ()"
        using 7(7) by (simp only: check_all_Inr)
      then show "answers (check_literal_filter pack resolved (scope_columns context) f)"
        by (rule answers_literal [OF assms(2,4)])
    qed
  next
    case 8
    show ?case using answers_relationships [OF assms(3) _ 8(2)] 8(1) by simp
  next
    case 9
    show ?case by (rule answers_population [OF answers_selected [OF assms(3) 9(2)]])
  next
    case 10
    show ?case by (rule answers_shape)
  next
    case 11
    show ?case
    proof (cases "pj_grounded pj")
      case (Some intent)
      then show ?thesis using answers_grounded assms(3) by (simp add: projection_consistent_def)
    qed simp
  next
    case 12
    show ?case
    proof (rule answers_check_all)
      fix a assume a: "a \<in> set (pl_aggregations plan)"
      have "field_authorized ?cat context f" if f: "ai_field a = Some f" for f
      proof -
        have "f \<in> set (all_field_refs plan)" using a f by (force simp: all_field_refs_def List.map_filter_def)
        then have "check_field ?cat plan (safe_allowed_columns (jget context ''allowed_columns'')) f = Inr ()"
          using 12(7) by (simp only: check_all_Inr)
        then show ?thesis by (simp add: check_field_ok)
      qed
      then show "answers (check_aggregation pack a)"
        using answers_aggregation [OF assms(2)] aggs a by (auto simp: list_all_iff)
    qed
  next
    case (13 _ _ metric uses)
    have "set (cu_conjunctive uses) \<subseteq> ?K"
      using answers_concepts(2) [OF cat assms(3) 13(2) _ 13(4)] answers_metric(2) [OF assms(3) 13(2)] 13(3) by simp
    then show ?case by (rule answers_predicates)
  next
    case (14 _ _ metric uses)
    have "\<forall>group \<in> set (cu_or_groups uses). \<forall>branch \<in> set group. set branch \<subseteq> ?K"
      using answers_concepts(2) [OF cat assms(3) 14(2) _ 14(4)] answers_metric(2) [OF assms(3) 14(2)] 14(3) by simp
    then show ?case by (intro answers_traverse answers_predicates) blast
  next
    case (15 _ _ metric uses _ _ _ _ _ _ _ _ _ _ _ _ predicates groups)
    show ?case by (rule answers_consistency)
  next
    case (16 _ _ metric uses _ _ _ _ _ _ _ _ _ _ _ _ predicates groups)
    show ?case by (intro answers_check_all answers_consistency)
  qed
  then show ?thesis by (auto simp: answers_def split: sum.splits)
qed

text \<open>A metric with a limit is refused.\<close>

definition sample_limited :: semantic_plan where
  "sample_limited = sample_plan\<lparr>pl_limit := Some 5\<rparr>"

theorem validation_always_answers_witness:
  "\<exists>reason. validate_semantic_plan [] (\<lambda>_. []) sample_limited sample_pack sample_projection sample_context True
     = Inl (PlanInvalid reason)"
proof -
  have plan: "valid_plan sample_limited" by code_simp
  have pack: "pack_consistent sample_pack" "projection_consistent (pk_catalog sample_pack) sample_projection"
      "context_consistent sample_pack sample_context" by code_simp+
  have "\<not> is_ok (validate_semantic_plan [] (\<lambda>_. []) sample_limited sample_pack sample_projection sample_context True)"
    by code_simp
  with validation_always_answers [OF plan pack, of "[]" "\<lambda>_. []" True]
  show ?thesis by (auto simp: is_ok_def split: sum.splits plan_error.splits)
qed

end
