(* ===== verification/Sql_Render.thy ===== *)
theory Sql_Render
  imports Plan_Validation
begin

text \<open>
  The rendering of a validated plan as PostgreSQL (\<open>query_engine/sql_renderer.py\<close>), clause by
  clause. The text of a float (\<open>repr\<close>) is a parameter.
\<close>

datatype render_error = RenderError string | RenderRaised py_exn | RenderDiverges

definition render_key :: "'a option \<Rightarrow> string \<Rightarrow> render_error + 'a" where
  "render_key r reason = (case r of None \<Rightarrow> Inl (RenderError reason) | Some x \<Rightarrow> Inr x)"

definition lift_plan :: "plan_error + 'a \<Rightarrow> render_error + 'a" where
  "lift_plan r =
     (case r of
        Inr x \<Rightarrow> Inr x
      | Inl (PlanRaised e) \<Rightarrow> Inl (RenderRaised e)
      | Inl CatalogInvalid \<Rightarrow> Inl (RenderRaised ValueError)
      | Inl (PlanInvalid _) \<Rightarrow> Inl (RenderRaised ValueError)
      | Inl PlanDiverges \<Rightarrow> Inl RenderDiverges)"

fun join_str :: "string \<Rightarrow> string list \<Rightarrow> string" where
  "join_str sep [] = []"
| "join_str sep [x] = x"
| "join_str sep (x # y # ys) = x @ sep @ join_str sep (y # ys)"

abbreviation entity_table :: "semantic_catalog \<Rightarrow> string \<Rightarrow> string option" where
  "entity_table cat i \<equiv> map_option en_table (entity_of cat i)"

section \<open>Literals\<close>

definition double_single_quotes :: "string \<Rightarrow> string" where
  "double_single_quotes s = concat (map (\<lambda>c. if c = CHR 0x27 then [c, c] else [c]) s)"

definition quoted :: "string \<Rightarrow> string" where
  "quoted s = CHR 0x27 # double_single_quotes s @ [CHR 0x27]"

definition render_literal :: "(rat \<Rightarrow> string) \<Rightarrow> scalar \<Rightarrow> render_error + string" where
  "render_literal float_repr v =
     (case v of
        SBool b \<Rightarrow> Inr (if b then ''TRUE'' else ''FALSE'')
      | SInt i \<Rightarrow> Inr (int_text i)
      | SInf _ \<Rightarrow> Inl (RenderError ''literal_non_finite'')
      | SNaN \<Rightarrow> Inl (RenderError ''literal_non_finite'')
      | SFloat r \<Rightarrow> Inr (float_repr r)
      | SStr s \<Rightarrow> Inr (quoted s))"

definition render_scalar_value :: "(rat \<Rightarrow> string) \<Rightarrow> sem_value \<Rightarrow> render_error + string" where
  "render_scalar_value float_repr v =
     (case v of One x \<Rightarrow> render_literal float_repr x | Many _ \<Rightarrow> Inl (RenderError ''literal_type_unsupported''))"

definition render_literal_collection :: "(rat \<Rightarrow> string) \<Rightarrow> sem_value \<Rightarrow> render_error + string" where
  "render_literal_collection float_repr v =
     (case v of
        Many (x # xs) \<Rightarrow>
          result_bind (traverse (render_literal float_repr) (x # xs)) (\<lambda>items.
          Inr (''('' @ join_str '', '' items @ '')''))
      | _ \<Rightarrow> Inl (RenderError ''literal_collection_invalid''))"

definition render_day_boundary :: "sem_value \<Rightarrow> render_error + string" where
  "render_day_boundary v =
     (case v of
        One (SInt n) \<Rightarrow>
          if n < 0 then Inl (RenderError ''temporal_value_unsupported'')
          else Inr (''CURRENT_TIMESTAMP - INTERVAL '' @ CHR 0x27 # int_text n @ '' days'' @ [CHR 0x27])
      | _ \<Rightarrow> Inl (RenderError ''temporal_value_unsupported''))"

section \<open>Columns and predicates\<close>

definition render_column :: "semantic_catalog \<Rightarrow> string \<Rightarrow> string \<Rightarrow> render_error + string" where
  "render_column cat entity_id column =
     result_bind (render_key (entity_table cat entity_id) ''field_entity_unavailable'') (\<lambda>table.
     Inr (table @ ''.'' @ column))"

definition render_field :: "semantic_catalog \<Rightarrow> field_ref \<Rightarrow> render_error + string" where
  "render_field cat f = render_column cat (fr_entity_id f) (fr_column f)"

definition render_entity_predicate ::
  "(rat \<Rightarrow> string) \<Rightarrow> semantic_catalog \<Rightarrow> entity_predicate \<Rightarrow> render_error + string" where
  "render_entity_predicate float_repr cat p =
     result_bind (render_column cat (ep_entity_id p) (ep_column p)) (\<lambda>column.
     case ep_operator p of
       OpEquals \<Rightarrow> result_bind (render_scalar_value float_repr (ep_value p)) (\<lambda>v. Inr (column @ '' = '' @ v))
     | OpIn \<Rightarrow> result_bind (render_literal_collection float_repr (ep_value p)) (\<lambda>v. Inr (column @ '' IN '' @ v))
     | OpOlderThanDays \<Rightarrow> result_bind (render_day_boundary (ep_value p)) (\<lambda>v. Inr (column @ '' < '' @ v))
     | OpWithinLastDays \<Rightarrow> result_bind (render_day_boundary (ep_value p)) (\<lambda>v. Inr (column @ '' >= '' @ v))
     | OpIsNullOrOlderThanDays \<Rightarrow>
         result_bind (render_day_boundary (ep_value p)) (\<lambda>v.
         Inr (''('' @ column @ '' IS NULL OR '' @ column @ '' < '' @ v @ '')'')))"

definition render_literal_filter ::
  "(rat \<Rightarrow> string) \<Rightarrow> semantic_catalog \<Rightarrow> literal_filter \<Rightarrow> render_error + string" where
  "render_literal_filter float_repr cat f =
     result_bind (render_field cat (lf_field f)) (\<lambda>column.
     case lf_operator f of
       LfEquals \<Rightarrow> result_bind (render_scalar_value float_repr (lf_value f)) (\<lambda>v. Inr (column @ '' = '' @ v))
     | LfNotEquals \<Rightarrow> result_bind (render_scalar_value float_repr (lf_value f)) (\<lambda>v. Inr (column @ '' <> '' @ v))
     | LfIn \<Rightarrow> result_bind (render_literal_collection float_repr (lf_value f)) (\<lambda>v. Inr (column @ '' IN '' @ v))
     | LfNotIn \<Rightarrow> result_bind (render_literal_collection float_repr (lf_value f)) (\<lambda>v. Inr (column @ '' NOT IN '' @ v)))"

definition render_branch ::
  "(rat \<Rightarrow> string) \<Rightarrow> semantic_catalog \<Rightarrow> entity_predicate list \<Rightarrow> render_error + string" where
  "render_branch float_repr cat branch =
     result_bind (traverse (render_entity_predicate float_repr cat) branch) (\<lambda>ps.
     if ps = [] then Inl (RenderError ''or_branch_empty'')
     else Inr (''('' @ join_str '' AND '' (dedup ps) @ '')''))"

definition render_group ::
  "(rat \<Rightarrow> string) \<Rightarrow> semantic_catalog \<Rightarrow> entity_predicate list list \<Rightarrow> render_error + string" where
  "render_group float_repr cat members =
     result_bind (traverse (render_branch float_repr cat) members) (\<lambda>branches.
     if branches = [] then Inl (RenderError ''or_group_empty'')
     else Inr (''('' @ join_str '' OR '' branches @ '')''))"

definition render_predicates ::
  "(rat \<Rightarrow> string) \<Rightarrow> semantic_catalog \<Rightarrow> validated_plan \<Rightarrow> render_error + string list" where
  "render_predicates float_repr cat v =
     result_bind (traverse (render_entity_predicate float_repr cat) (vp_effective_predicates v)) (\<lambda>common.
     result_bind (traverse (render_literal_filter float_repr cat) (pl_literal_filters (vp_plan v))) (\<lambda>literals.
     result_bind (traverse (render_group float_repr cat) (vp_rule_or_predicate_groups v)) (\<lambda>groups.
     Inr (dedup common @ dedup literals @ groups))))"

section \<open>Aggregations, having and order\<close>

definition render_aggregation :: "semantic_catalog \<Rightarrow> aggregation_intent \<Rightarrow> render_error + string" where
  "render_aggregation cat a =
     (case (ai_function a, ai_field a) of
        (AgCount, None) \<Rightarrow>
          if ai_distinct a then Inl (RenderError ''count_distinct_target_missing'') else Inr ''COUNT(*)''
      | (AgCount, Some f) \<Rightarrow>
          result_bind (render_field cat f) (\<lambda>field.
          Inr (''COUNT('' @ (if ai_distinct a then ''DISTINCT '' else []) @ field @ '')''))
      | (AgSum, Some f) \<Rightarrow>
          if ai_distinct a then Inl (RenderError ''sum_distinct_unsupported'')
          else result_bind (render_field cat f) (\<lambda>field. Inr (''SUM('' @ field @ '')''))
      | (AgSum, None) \<Rightarrow> Inl (RenderError ''aggregation_unsupported''))"

fun comparison_sql :: "comparison \<Rightarrow> string" where
  "comparison_sql CmpEquals = ''=''"
| "comparison_sql CmpGreater = ''>''"
| "comparison_sql CmpGreaterEqual = ''>=''"
| "comparison_sql CmpLess = ''<''"
| "comparison_sql CmpLessEqual = ''<=''"

definition render_having ::
  "(rat \<Rightarrow> string) \<Rightarrow> semantic_catalog \<Rightarrow> semantic_plan \<Rightarrow> having_intent \<Rightarrow> render_error + string" where
  "render_having float_repr cat plan h =
     result_bind (render_key (dict_get ai_id (hv_aggregation_id h) (pl_aggregations plan))
       ''having_aggregation_missing'') (\<lambda>aggregation.
     result_bind (render_aggregation cat aggregation) (\<lambda>target.
     result_bind (render_literal float_repr (hv_value h)) (\<lambda>v.
     Inr (target @ '' '' @ comparison_sql (hv_operator h) @ '' '' @ v))))"

definition render_order :: "semantic_catalog \<Rightarrow> semantic_plan \<Rightarrow> order_intent \<Rightarrow> render_error + string" where
  "render_order cat plan i =
     result_bind
       (case (oi_target_kind i, oi_field i, oi_aggregation_id i) of
          (TargetField, Some f, _) \<Rightarrow> render_field cat f
        | (TargetAggregation, _, Some a) \<Rightarrow>
            result_bind (render_key (dict_get ai_id a (pl_aggregations plan)) ''order_aggregation_missing'')
              (render_aggregation cat)
        | _ \<Rightarrow> Inl (RenderError ''order_target_unsupported'')) (\<lambda>target.
     Inr (target @ (case oi_direction i of Ascending \<Rightarrow> '' ASC'' | Descending \<Rightarrow> '' DESC'')))"

section \<open>Output labels\<close>

text \<open>
  Two selected columns may fold to one name; then each gets its full name, shortened to 63
  bytes, with a number when that is taken too. Keys compare as the tuples of the source.
\<close>

datatype label_key = FieldLabel string string | AggregationLabel string

fun label_tuple :: "label_key \<Rightarrow> string list" where
  "label_tuple (FieldLabel e c) = [''field'', e, c]"
| "label_tuple (AggregationLabel i) = [''aggregation'', i]"

fun preferred_label :: "label_key \<Rightarrow> string" where
  "preferred_label (FieldLabel e c) = take 63 (py_lower c)"
| "preferred_label (AggregationLabel i) = take 63 (py_lower i)"

fun label_base :: "label_key \<Rightarrow> string" where
  "label_base (FieldLabel e c) = py_lower (e @ ''__'' @ c)"
| "label_base (AggregationLabel i) = py_lower (''aggregation__'' @ i)"

definition label_keys :: "semantic_plan \<Rightarrow> label_key list" where
  "label_keys plan =
     dedup (map (\<lambda>f. FieldLabel (fr_entity_id f) (fr_column f)) (pl_output_fields plan)
            @ map (\<lambda>a. AggregationLabel (ai_id a)) (pl_aggregations plan))"

text \<open>\<open>base[: 63 - len(ending)] + ending\<close>; a negative bound counts from the end.\<close>

definition numbered_label :: "string \<Rightarrow> nat \<Rightarrow> string" where
  "numbered_label base suffix =
     (let ending = ''__'' @ nat_digits suffix in
      take (if length ending \<le> 63 then 63 - length ending else length base - (length ending - 63)) base @ ending)"

partial_function (option) fresh_label :: "string list \<Rightarrow> string \<Rightarrow> nat \<Rightarrow> string \<Rightarrow> string option" where
  "fresh_label used base suffix name =
     (if name \<in> set used then fresh_label used base (suffix + 1) (numbered_label base suffix) else Some name)"

declare fresh_label.simps [code]

fun add_labels ::
  "label_key list \<Rightarrow> (label_key \<times> string) list \<Rightarrow> string list \<Rightarrow> (label_key \<times> string) list option" where
  "add_labels [] labels used = Some labels"
| "add_labels (k # ks) labels used =
     (if map_of labels k \<noteq> None then add_labels ks labels used
      else case fresh_label used (label_base k) 2 (take 63 (label_base k)) of
        None \<Rightarrow> None
      | Some name \<Rightarrow> add_labels ks (labels @ [(k, name)]) (name # used))"

definition output_labels :: "semantic_plan \<Rightarrow> (label_key \<times> string) list option" where
  "output_labels plan =
     (let keys = label_keys plan;
          names = map preferred_label keys;
          single = filter (\<lambda>k. length (filter (\<lambda>n. n = preferred_label k) names) = 1) keys in
      add_labels (sort_key label_tuple keys) (map (\<lambda>k. (k, preferred_label k)) single) names)"

section \<open>The query\<close>

definition render_join_tree ::
  "semantic_catalog \<Rightarrow> semantic_plan \<Rightarrow> render_error + (string \<times> string list)" where
  "render_join_tree cat plan =
     (case pl_entity_ids plan of
        [] \<Rightarrow> Inl (RenderError ''entity_missing'')
      | [e] \<Rightarrow>
          if pl_relationships plan \<noteq> [] then Inl (RenderError ''relationship_unexpected'')
          else Inr (e, [])
      | _ \<Rightarrow>
          result_bind (traverse (\<lambda>i. render_key (relationship_of cat (ri_relationship_id i))
                         ''relationship_unavailable'') (pl_relationships plan)) (\<lambda>_.
          result_bind (lift_plan (selected_join_order cat plan)) (\<lambda>order.
          case order of
            None \<Rightarrow> Inl (RenderError ''left_join_orientation_unsupported'')
          | Some (start, steps) \<Rightarrow>
              result_bind (traverse (\<lambda>(r, j, added).
                case (entity_table cat added, entity_table cat (rl_from_entity r), entity_table cat (rl_to_entity r)) of
                  (Some table, Some source, Some target) \<Rightarrow>
                    Inr ((if j = JoinInner then ''INNER JOIN'' else ''LEFT JOIN'') @ '' '' @ table @ '' ON ''
                         @ source @ ''.'' @ rl_from_column r @ '' = '' @ target @ ''.'' @ rl_to_column r)
                | _ \<Rightarrow> Inl (RenderRaised KeyError)) steps) (\<lambda>joins.
              Inr (start, joins)))))"

definition field_item ::
  "semantic_catalog \<Rightarrow> (label_key \<times> string) list \<Rightarrow> field_ref \<Rightarrow> render_error + string" where
  "field_item cat labels f =
     result_bind (render_field cat f) (\<lambda>text.
     case map_of labels (FieldLabel (fr_entity_id f) (fr_column f)) of
       None \<Rightarrow> Inl (RenderRaised KeyError)
     | Some label \<Rightarrow> Inr (text @ (if label \<noteq> fr_column f then '' AS '' @ label else [])))"

definition aggregation_item ::
  "semantic_catalog \<Rightarrow> (label_key \<times> string) list \<Rightarrow> aggregation_intent \<Rightarrow> render_error + string" where
  "aggregation_item cat labels a =
     result_bind (render_aggregation cat a) (\<lambda>text.
     case map_of labels (AggregationLabel (ai_id a)) of
       None \<Rightarrow> Inl (RenderRaised KeyError)
     | Some label \<Rightarrow> Inr (text @ '' AS '' @ label))"

definition render_select_items ::
  "semantic_catalog \<Rightarrow> validated_plan \<Rightarrow> render_error + string list" where
  "render_select_items cat v =
     (let plan = vp_plan v in
      case pl_metric_id plan of
        Some m \<Rightarrow>
          (case (metric_of cat m, vp_metric_aggregation_function v) of
             (Some metric, Some function) \<Rightarrow>
               if entity_table cat (mt_entity_id metric) = None then Inl (RenderError ''metric_unsupported'')
               else if function = AgCount then Inr [''COUNT(*) AS '' @ take 63 (py_lower m)]
               else Inl (RenderError ''metric_sum_target_missing'')
           | _ \<Rightarrow> Inl (RenderError ''metric_unsupported''))
      | None \<Rightarrow>
          (case output_labels plan of
             None \<Rightarrow> Inl RenderDiverges
           | Some labels \<Rightarrow>
               result_bind (traverse (field_item cat labels) (pl_output_fields plan)) (\<lambda>fields.
               result_bind (traverse (aggregation_item cat labels) (pl_aggregations plan)) (\<lambda>aggregations.
               if fields @ aggregations = [] then Inl (RenderError ''output_missing'')
               else Inr (fields @ aggregations)))))"

text \<open>A clause of the query; an empty list of parts leaves the clause out.\<close>

definition clause :: "string \<Rightarrow> string \<Rightarrow> string list \<Rightarrow> string list" where
  "clause keyword sep parts = (if parts = [] then [] else [keyword @ join_str sep parts])"

definition render_validated_semantic_plan ::
  "(rat \<Rightarrow> string) \<Rightarrow> validated_plan \<Rightarrow> domain_pack \<Rightarrow> render_error + string" where
  "render_validated_semantic_plan float_repr v pack =
     (let cat = pk_catalog pack; plan = vp_plan v in
      result_bind (ensure (list_all (\<lambda>e. entity_table cat e \<noteq> None) (pl_entity_ids plan))
        (RenderError ''entity_unavailable'')) (\<lambda>_.
      result_bind (render_join_tree cat plan) (\<lambda>(start, joins).
      result_bind (render_select_items cat v) (\<lambda>items.
      result_bind (case entity_table cat start of None \<Rightarrow> Inl (RenderRaised KeyError) | Some t \<Rightarrow> Inr t) (\<lambda>start_table.
      result_bind (render_predicates float_repr cat v) (\<lambda>predicates.
      result_bind (traverse (render_field cat) (pl_group_by plan)) (\<lambda>groups.
      result_bind (traverse (render_having float_repr cat plan) (pl_having plan)) (\<lambda>having.
      result_bind (traverse (render_order cat plan) (pl_order_by plan)) (\<lambda>order.
      Inr (join_str '' '' (
        [''SELECT '' @ (if pl_distinct plan then ''DISTINCT '' else []) @ join_str '', '' items,
         ''FROM '' @ start_table]
        @ joins
        @ clause ''WHERE '' '' AND '' predicates
        @ clause ''GROUP BY '' '', '' groups
        @ clause ''HAVING '' '' AND '' having
        @ clause ''ORDER BY '' '', '' order
        @ (case pl_limit plan of None \<Rightarrow> [] | Some n \<Rightarrow> [''LIMIT '' @ int_text n]))))))))))))"

end
