(* ===== verification/Sql_Labels.thy ===== *)
theory Sql_Labels
  imports Sql_Render
begin

text \<open>
  The labels of the selected columns: the search for a free number ends, and the labels are
  distinct, folded and short enough for PostgreSQL.
\<close>

section \<open>Numbers as text\<close>

definition digit_value :: "string \<Rightarrow> nat" where
  "digit_value cs = foldl (\<lambda>n c. 10 * n + (of_char c - 48)) 0 cs"

lemma nat_digits_value: "digit_value (nat_digits n) = n"
proof (induction n rule: nat_digits.induct)
  case (1 n)
  then show ?case
    by (subst nat_digits.simps) (auto simp: digit_value_def)
qed

lemma nat_digits_inj: "nat_digits m = nat_digits n \<longleftrightarrow> m = n"
  using nat_digits_value by metis

lemma nat_digits_are_digits: "c \<in> set (nat_digits n) \<Longrightarrow> is_ascii_digit c"
proof (induction n rule: nat_digits.induct)
  case (1 n)
  then show ?case
    by (subst (asm) (2) nat_digits.simps) (auto simp: is_ascii_digit_def Let_def split: if_splits)
qed

lemma nat_digits_short: "n < 1000 \<Longrightarrow> length (nat_digits n) \<le> 3"
  by (subst nat_digits.simps, subst nat_digits.simps, subst nat_digits.simps) auto

section \<open>Numbered labels\<close>

lemma numbered_label_ends:
  "takeWhile is_ascii_digit (rev (numbered_label base k)) = rev (nat_digits k)"
proof -
  have "\<not> is_ascii_digit CHR ''_''" by (simp add: is_ascii_digit_def)
  then have "takeWhile is_ascii_digit (rev (nat_digits k) @ CHR ''_'' # zs) = rev (nat_digits k)" for zs
    using takeWhile_append2 [of "rev (nat_digits k)" is_ascii_digit "CHR ''_'' # zs"] nat_digits_are_digits by simp
  then show ?thesis by (simp add: numbered_label_def Let_def)
qed

lemma numbered_label_inj: "numbered_label base k = numbered_label base l \<longleftrightarrow> k = l"
proof
  assume "numbered_label base k = numbered_label base l"
  then have "rev (nat_digits k) = rev (nat_digits l)" by (metis numbered_label_ends)
  then show "k = l" by (simp add: nat_digits_inj)
qed simp

definition taken :: "string list \<Rightarrow> string \<Rightarrow> nat \<Rightarrow> nat set" where
  "taken used base suffix = {k. suffix \<le> k \<and> numbered_label base k \<in> set used}"

lemma finite_taken: "finite (taken used base suffix)"
  by (rule finite_imageD [of "numbered_label base"])
    (auto simp: taken_def inj_on_def numbered_label_inj intro: finite_subset [of _ "set used"])

lemma card_taken: "card (taken used base suffix) \<le> length used"
proof -
  have "card (taken used base suffix) = card (numbered_label base ` taken used base suffix)"
    by (rule card_image [symmetric]) (simp add: inj_on_def numbered_label_inj)
  also have "\<dots> \<le> card (set used)" by (intro card_mono) (auto simp: taken_def)
  also have "\<dots> \<le> length used" by (rule card_length)
  finally show ?thesis .
qed

lemma fresh_label_found:
  "\<exists>l. fresh_label used base suffix name = Some l \<and> l \<notin> set used
    \<and> (l = name \<or> (\<exists>k. k \<le> suffix + card (taken used base suffix) \<and> l = numbered_label base k))"
proof (induction "card (taken used base suffix)" arbitrary: suffix name rule: less_induct)
  case less
  show ?case
  proof (cases "name \<in> set used")
    case False
    then show ?thesis by (subst fresh_label.simps) simp
  next
    case name: True
    let ?next = "numbered_label base suffix"
    have first: "fresh_label used base suffix name = fresh_label used base (suffix + 1) ?next"
      by (subst fresh_label.simps) (simp add: name)
    show ?thesis
    proof (cases "?next \<in> set used")
      case False
      then have "fresh_label used base (suffix + 1) ?next = Some ?next"
        by (subst fresh_label.simps) simp
      then show ?thesis
        using first False by (intro exI [of _ ?next] conjI disjI2 exI [of _ suffix]) simp_all
    next
      case True
      then have split: "taken used base suffix = insert suffix (taken used base (suffix + 1))"
        by (auto simp: taken_def not_less_eq_eq le_less)
      moreover have "suffix \<notin> taken used base (suffix + 1)" by (simp add: taken_def)
      ultimately have card: "card (taken used base suffix) = Suc (card (taken used base (suffix + 1)))"
        using finite_taken by simp
      obtain l where l: "fresh_label used base (suffix + 1) ?next = Some l" "l \<notin> set used"
          "l = ?next \<or> (\<exists>k. k \<le> suffix + 1 + card (taken used base (suffix + 1)) \<and> l = numbered_label base k)"
        using less [of "suffix + 1" ?next] card by auto
      have "\<exists>k. k \<le> suffix + card (taken used base suffix) \<and> l = numbered_label base k"
        using l(3) by (elim disjE) (rule exI [of _ suffix], simp, simp add: card)
      then show ?thesis using first l(1,2) by (intro exI [of _ l]) simp
    qed
  qed
qed

section \<open>Folding\<close>

lemma py_lower_char_idem [simp]: "py_lower_char (py_lower_char c) = py_lower_char c"
  by (cases "of_char c :: nat" rule: nat.exhaust)
    (auto simp: py_lower_char_def Let_def of_char_mod_256 split: if_splits)

lemma py_lower_append [simp]: "py_lower (xs @ ys) = py_lower xs @ py_lower ys"
  by (simp add: py_lower_def)

lemma py_lower_idem [simp]: "py_lower (py_lower xs) = py_lower xs"
  by (simp add: py_lower_def)

lemma py_lower_take: "py_lower (take n xs) = take n (py_lower xs)"
  by (simp add: py_lower_def take_map)

lemma py_lower_digits: "py_lower (nat_digits n) = nat_digits n"
  unfolding py_lower_def
proof (rule map_idI)
  fix c assume "c \<in> set (nat_digits n)"
  then have "is_ascii_digit c" by (rule nat_digits_are_digits)
  then show "py_lower_char c = c" by (auto simp: is_ascii_digit_def py_lower_char_def Let_def)
qed

lemma py_lower_base [simp]: "py_lower (label_base k) = label_base k"
  by (cases k) (simp_all del: py_lower_append)

lemma py_lower_numbered: "py_lower base = base \<Longrightarrow> py_lower (numbered_label base k) = numbered_label base k"
  by (simp add: numbered_label_def Let_def py_lower_take py_lower_digits)
    (simp add: py_lower_def py_lower_char_def py_lower_digits [unfolded py_lower_def])

definition good_label :: "string \<Rightarrow> bool" where
  "good_label l \<longleftrightarrow> length l \<le> 63 \<and> py_lower l = l"

lemma good_preferred: "good_label (preferred_label k)"
  by (cases k) (simp_all add: good_label_def py_lower_take)

lemma good_fresh:
  assumes "fresh_label used (label_base k) 2 (take 63 (label_base k)) = Some l" "length used < 998"
  shows "good_label l" "l \<notin> set used"
proof -
  obtain l' where l': "fresh_label used (label_base k) 2 (take 63 (label_base k)) = Some l'" "l' \<notin> set used"
      "l' = take 63 (label_base k) \<or> (\<exists>n. n \<le> 2 + card (taken used (label_base k) 2) \<and> l' = numbered_label (label_base k) n)"
    using fresh_label_found [of used "label_base k" 2 "take 63 (label_base k)"] by blast
  with assms(1) have l: "l' = l" by simp
  show "l \<notin> set used" using l'(2) l by simp
  from l'(3) show "good_label l"
    unfolding l
  proof (elim disjE exE conjE)
    fix n assume n: "n \<le> 2 + card (taken used (label_base k) 2)" "l = numbered_label (label_base k) n"
    then have "n < 1000" using card_taken [of used "label_base k" 2] assms(2) by simp
    then have "length (nat_digits n) \<le> 3" by (rule nat_digits_short)
    then show "good_label l"
      using n(2) by (simp add: good_label_def py_lower_numbered) (simp add: numbered_label_def Let_def)
  qed (simp add: good_label_def py_lower_take)
qed

section \<open>All labels\<close>

definition labels_ok :: "(label_key \<times> string) list \<Rightarrow> bool" where
  "labels_ok labels \<longleftrightarrow> distinct (map fst labels) \<and> distinct (map snd labels) \<and> list_all good_label (map snd labels)"

lemma add_labels_ok:
  assumes "labels_ok labels" "snd ` set labels \<subseteq> set used" "length used + length ks < 998"
  shows "\<exists>out. add_labels ks labels used = Some out \<and> labels_ok out \<and> fst ` set out = fst ` set labels \<union> set ks"
  using assms
proof (induction ks arbitrary: labels used)
  case (Cons k ks)
  show ?case
  proof (cases "map_of labels k")
    case (Some l)
    then have "k \<in> fst ` set labels" by (metis map_of_eq_None_iff option.distinct(1))
    moreover obtain out where "add_labels ks labels used = Some out" "labels_ok out"
        "fst ` set out = fst ` set labels \<union> set ks"
      using Cons.IH [OF Cons.prems(1,2)] Cons.prems(3) by auto
    ultimately show ?thesis using Some by (intro exI [of _ out]) (simp add: insert_absorb)
  next
    case None
    obtain l where l: "fresh_label used (label_base k) 2 (take 63 (label_base k)) = Some l"
      using fresh_label_found by blast
    note fresh = good_fresh [OF l]
    have "length used < 998" using Cons.prems(3) by simp
    with fresh have "labels_ok (labels @ [(k, l)])"
      using Cons.prems(1,2) None by (auto simp: labels_ok_def map_of_eq_None_iff)
    moreover have "snd ` set (labels @ [(k, l)]) \<subseteq> set (l # used)" using Cons.prems(2) by auto
    ultimately have "\<exists>out. add_labels ks (labels @ [(k, l)]) (l # used) = Some out \<and> labels_ok out
        \<and> fst ` set out = fst ` set (labels @ [(k, l)]) \<union> set ks"
      using Cons.prems(3) by (intro Cons.IH) simp_all
    then show ?thesis using None l by auto
  qed
qed simp

lemma single_names_distinct:
  "distinct (map f (filter (\<lambda>k. length (filter (\<lambda>n. n = f k) (map f keys)) = 1) keys))"
proof -
  have "distinct (map f (filter (\<lambda>k. length (filter (\<lambda>n. n = f k) (map f all)) = 1) ks))"
    if "\<And>x. length (filter (\<lambda>n. n = x) (map f ks)) \<le> length (filter (\<lambda>n. n = x) (map f all))" for ks all
    using that
  proof (induction ks)
    case (Cons k ks)
    have "length (filter (\<lambda>n. n = x) (map f ks)) \<le> length (filter (\<lambda>n. n = x) (map f all))" for x
      using Cons.prems [of x] by (simp split: if_splits)
    note IH = Cons.IH [OF this]
    have "f k \<notin> f ` set ks" if "length (filter (\<lambda>n. n = f k) (map f all)) = 1"
    proof
      assume "f k \<in> f ` set ks"
      then have "filter (\<lambda>n. n = f k) (map f ks) \<noteq> []" by (auto simp: filter_empty_conv)
      then have "length (filter (\<lambda>n. n = f k) (map f (k # ks))) \<ge> 2"
        by (cases "filter (\<lambda>n. n = f k) (map f ks)") auto
      with Cons.prems [of "f k"] that show False by simp
    qed
    with IH show ?case by auto
  qed simp
  then show ?thesis by simp
qed

lemma output_labels_ok:
  assumes "length (pl_output_fields plan) + length (pl_aggregations plan) < 499"
  shows "\<exists>labels. output_labels plan = Some labels \<and> labels_ok labels \<and> fst ` set labels = set (label_keys plan)"
proof -
  let ?keys = "label_keys plan"
  let ?names = "map preferred_label ?keys"
  let ?single = "filter (\<lambda>k. length (filter (\<lambda>n. n = preferred_label k) ?names) = 1) ?keys"
  have dist: "distinct ?keys" by (simp add: label_keys_def)
  have len: "length (dedup xs) \<le> length xs" for xs :: "label_key list"
    by (metis card_length distinct_card distinct_dedup set_dedup)
  have "length ?keys < 499"
    using len [of "map (\<lambda>f. FieldLabel (fr_entity_id f) (fr_column f)) (pl_output_fields plan)
            @ map (\<lambda>a. AggregationLabel (ai_id a)) (pl_aggregations plan)"] assms by (simp add: label_keys_def)
  moreover have "labels_ok (map (\<lambda>k. (k, preferred_label k)) ?single)"
    using dist single_names_distinct [of preferred_label ?keys] good_preferred
    by (simp add: labels_ok_def comp_def list_all_iff)
  moreover have "snd ` set (map (\<lambda>k. (k, preferred_label k)) ?single) \<subseteq> set ?names" by auto
  ultimately show ?thesis
    unfolding output_labels_def Let_def
    using add_labels_ok [of "map (\<lambda>k. (k, preferred_label k)) ?single" ?names "sort_key label_tuple ?keys"]
    by (auto simp: image_image)
qed

text \<open>
  C36: the columns of a plan always get labels: the search for a free number ends, every selected
  column and aggregation has one label, no two labels are equal, and all are folded and at most
  63 bytes long, so that PostgreSQL neither folds nor truncates two of them into one.
\<close>

theorem output_labels_are_distinct:
  assumes "valid_plan plan"
  shows "case output_labels plan of
      None \<Rightarrow> False
    | Some labels \<Rightarrow> set (map fst labels) = set (label_keys plan)
        \<and> distinct (map fst labels) \<and> distinct (map snd labels)
        \<and> list_all (\<lambda>l. length l \<le> 63 \<and> py_lower l = l) (map snd labels)"
proof -
  have "length (pl_output_fields plan) + length (pl_aggregations plan) < 499"
    using assms by (simp add: valid_plan_def MAX_PLAN_ITEMS_def)
  from output_labels_ok [OF this] show ?thesis by (auto simp: labels_ok_def good_label_def [abs_def])
qed

text \<open>Two columns \<open>id\<close>, one written \<open>ID\<close>, and an aggregation of that name.\<close>

definition sample_labelled :: semantic_plan where
  "sample_labelled = \<lparr>pl_entity_ids = [''a'', ''b''], pl_concept_ids = [], pl_rule_ids = [],
     pl_metric_id = None, pl_distinct = False, pl_literal_filters = [], pl_relationships = [],
     pl_output_fields = [\<lparr>fr_entity_id = ''a'', fr_column = ''id''\<rparr>, \<lparr>fr_entity_id = ''b'', fr_column = ''ID''\<rparr>],
     pl_aggregations = [\<lparr>ai_id = ''id'', ai_function = AgCount, ai_field = None, ai_distinct = False\<rparr>],
     pl_group_by = [], pl_having = [], pl_order_by = [], pl_limit = None\<rparr>"

theorem output_labels_are_distinct_witness:
  "map snd (the (output_labels sample_labelled)) = [''aggregation__id'', ''a__id'', ''b__id'']
   \<and> distinct (map snd (the (output_labels sample_labelled)))"
proof -
  have plan: "valid_plan sample_labelled" by code_simp
  have labels: "map snd (the (output_labels sample_labelled)) = [''aggregation__id'', ''a__id'', ''b__id'']"
    by code_simp
  from output_labels_are_distinct [OF plan] have "distinct (map snd (the (output_labels sample_labelled)))"
    by (simp split: option.splits)
  with labels show ?thesis ..
qed

end
