(* ===== verification/Sql_Strings.thy ===== *)
theory Sql_Strings
  imports Sql_Labels
begin

text \<open>
  Quoting: a reader of the string literals of a query, as PostgreSQL reads them with standard
  conforming strings, finds in a rendered query only values of the plan. So no value ends its
  literal early and becomes part of the query.
\<close>

section \<open>Reading string literals\<close>

abbreviation quote :: char where "quote \<equiv> CHR 0x27"

text \<open>The rest of a literal after its opening quote: its value and what follows it.\<close>

fun read_string :: "string \<Rightarrow> (string \<times> string) option" where
  "read_string [] = None"
| "read_string (c # cs) =
     (if c \<noteq> quote then map_option (\<lambda>(s, rest). (c # s, rest)) (read_string cs)
      else case cs of
        [] \<Rightarrow> Some ([], [])
      | d # ds \<Rightarrow> if d = quote then map_option (\<lambda>(s, rest). (quote # s, rest)) (read_string ds)
                  else Some ([], cs))"

lemma read_string_shorter: "read_string cs = Some (s, rest) \<Longrightarrow> length rest < length cs"
proof (induction cs arbitrary: s rest rule: read_string.induct)
  case (2 c cs)
  show ?case
  proof (cases "c = quote")
    case False
    with 2 show ?thesis by fastforce
  next
    case quote: True
    show ?thesis
    proof (cases cs)
      case Nil
      with 2(3) quote show ?thesis by simp
    next
      case (Cons d ds)
      show ?thesis
      proof (cases "d = quote")
        case True
        with 2(3) quote Cons obtain s' where "read_string ds = Some (s', rest)" by auto
        with 2(2) [of d ds] quote Cons True show ?thesis by fastforce
      qed (use 2(3) quote Cons in simp)
    qed
  qed
qed simp

function sql_strings :: "string \<Rightarrow> string list option" where
  "sql_strings [] = Some []"
| "sql_strings (c # cs) =
     (if c \<noteq> quote then sql_strings cs
      else case read_string cs of
        None \<Rightarrow> None
      | Some (s, rest) \<Rightarrow> map_option (Cons s) (sql_strings rest))"
  by pat_completeness auto

termination
  by (relation "measure length") (auto dest: read_string_shorter)

declare sql_strings.simps(2) [simp del]

definition goes_on :: "string \<Rightarrow> bool" where
  "goes_on rest \<longleftrightarrow> rest = [] \<or> hd rest \<noteq> quote"

lemma goes_on_simps [simp]: "goes_on []" "goes_on (c # cs) \<longleftrightarrow> c \<noteq> quote"
  by (simp_all add: goes_on_def)

lemma read_string_doubled:
  "goes_on rest \<Longrightarrow> read_string (double_single_quotes s @ quote # rest) = Some (s, rest)"
proof (induction s)
  case Nil
  then show ?case by (cases rest) (simp_all add: double_single_quotes_def)
next
  case (Cons c s)
  then show ?case by (simp add: double_single_quotes_def)
qed

definition plain :: "string \<Rightarrow> bool" where
  "plain t \<longleftrightarrow> quote \<notin> set t"

lemma plain_simps [simp]:
  "plain []" "plain (c # t) \<longleftrightarrow> c \<noteq> quote \<and> plain t" "plain (t @ u) \<longleftrightarrow> plain t \<and> plain u"
  by (auto simp: plain_def)

lemma sql_strings_plain: "plain t \<Longrightarrow> sql_strings (t @ rest) = sql_strings rest"
  by (induction t) (simp_all add: sql_strings.simps(2))

text \<open>Text whose string literals are closed and among some values.\<close>

definition fragment :: "string set \<Rightarrow> string \<Rightarrow> bool" where
  "fragment X t \<longleftrightarrow>
     (\<exists>strs. set strs \<subseteq> X \<and> (\<forall>rest. goes_on rest \<longrightarrow> sql_strings (t @ rest) = map_option ((@) strs) (sql_strings rest)))"

lemma append_Nil_map: "map_option ((@) []) r = r"
  by (cases r) simp_all

lemma fragment_plain: "plain t \<Longrightarrow> fragment X t"
  unfolding fragment_def by (intro exI [of _ "[]"]) (simp add: sql_strings_plain append_Nil_map)

lemma fragment_prefix [simp]: "plain t \<Longrightarrow> fragment X (t @ u) \<longleftrightarrow> fragment X u"
  by (simp add: fragment_def sql_strings_plain)

lemma fragment_Cons [simp]: "c \<noteq> quote \<Longrightarrow> fragment X (c # u) \<longleftrightarrow> fragment X u"
  using fragment_prefix [of "[c]"] by simp

lemma fragment_Nil [simp]: "fragment X []"
  by (rule fragment_plain) simp

lemma fragment_append:
  assumes "fragment X t" "fragment X u" "goes_on u"
  shows "fragment X (t @ u)"
proof -
  obtain as bs where as: "set as \<subseteq> X" "\<And>rest. goes_on rest \<Longrightarrow> sql_strings (t @ rest) = map_option ((@) as) (sql_strings rest)"
    and bs: "set bs \<subseteq> X" "\<And>rest. goes_on rest \<Longrightarrow> sql_strings (u @ rest) = map_option ((@) bs) (sql_strings rest)"
    using assms(1,2) unfolding fragment_def by blast
  have "sql_strings (t @ u @ rest) = map_option ((@) (as @ bs)) (sql_strings rest)" if "goes_on rest" for rest
  proof -
    have "goes_on (u @ rest)" using assms(3) that by (cases u) simp_all
    then show ?thesis using as(2) bs(2) [OF that] by (cases "sql_strings rest") simp_all
  qed
  then show ?thesis using as(1) bs(1) unfolding fragment_def by (intro exI [of _ "as @ bs"]) simp
qed

lemma fragment_quoted:
  assumes "s \<in> X"
  shows "fragment X (quoted s)"
  unfolding fragment_def
proof (intro exI [of _ "[s]"] conjI allI impI)
  fix rest assume "goes_on rest"
  then show "sql_strings (quoted s @ rest) = map_option ((@) [s]) (sql_strings rest)"
    using read_string_doubled [of rest s]
    by (cases "sql_strings rest") (simp_all add: quoted_def sql_strings.simps(2))
qed (use assms in simp)

lemma fragment_join:
  assumes "\<forall>x \<in> set xs. fragment X x" "plain sep" "sep \<noteq> []"
  shows "fragment X (join_str sep xs)"
  using assms(1)
proof (induction xs rule: induct_list012)
  case (3 x y ys)
  have "goes_on (sep @ join_str sep (y # ys))" using assms(2,3) by (cases sep) simp_all
  moreover have "fragment X (sep @ join_str sep (y # ys))" using 3 assms(2) by simp
  ultimately show ?case using 3(3) by (simp add: fragment_append)
qed simp_all

lemma fragment_strings:
  assumes "fragment X t"
  obtains strs where "sql_strings t = Some strs" "set strs \<subseteq> X"
proof -
  obtain strs where s: "set strs \<subseteq> X" "\<And>rest. goes_on rest \<Longrightarrow> sql_strings (t @ rest) = map_option ((@) strs) (sql_strings rest)"
    using assms unfolding fragment_def by blast
  from s(2) [of "[]"] s(1) that show thesis by simp
qed

section \<open>Plain text\<close>

lemma plain_identifier: "is_identifier s \<Longrightarrow> plain s"
proof -
  have "\<not> identifier_char quote" by (simp add: identifier_char_def is_ascii_letter_def is_ascii_digit_def)
  then show "is_identifier s \<Longrightarrow> plain s" unfolding plain_def using is_identifier_chars by blast
qed

lemma plain_digits [simp]: "plain (nat_digits n)"
proof -
  have "\<not> is_ascii_digit quote" by (simp add: is_ascii_digit_def)
  then show ?thesis unfolding plain_def using nat_digits_are_digits by blast
qed

lemma plain_int [simp]: "plain (int_text i)"
  by (simp add: int_text_def)

lemma plain_take: "plain t \<Longrightarrow> plain (take n t)"
  by (auto simp: plain_def dest: in_set_takeD)

lemma plain_join: "\<forall>x \<in> set xs. plain x \<Longrightarrow> plain sep \<Longrightarrow> plain (join_str sep xs)"
  by (induction sep xs rule: join_str.induct) auto

lemma py_lower_char_quote: "py_lower_char c = quote \<longleftrightarrow> c = quote"
  unfolding of_char_eq_iff [where ?'a = nat, symmetric] by (auto simp: py_lower_char_def Let_def)

lemma plain_lower: "plain (py_lower t) \<longleftrightarrow> plain t"
  by (induction t) (auto simp: py_lower_def py_lower_char_quote)

section \<open>Rendered pieces\<close>

text \<open>The string literals a value may become: its texts, or a number of days.\<close>

fun scalar_texts :: "scalar \<Rightarrow> string set" where
  "scalar_texts (SStr s) = {s}"
| "scalar_texts (SInt n) = {int_text n @ '' days''}"
| "scalar_texts _ = {}"

fun value_texts :: "sem_value \<Rightarrow> string set" where
  "value_texts (One x) = scalar_texts x"
| "value_texts (Many xs) = \<Union> (scalar_texts ` set xs)"

definition plan_predicates :: "validated_plan \<Rightarrow> entity_predicate list" where
  "plan_predicates v = vp_effective_predicates v @ concat (concat (vp_rule_or_predicate_groups v))"

definition plan_texts :: "validated_plan \<Rightarrow> string set" where
  "plan_texts v =
     \<Union> (value_texts ` (ep_value ` set (plan_predicates v) \<union> lf_value ` set (pl_literal_filters (vp_plan v))))"

text \<open>Names that go into the query as they are.\<close>

definition names_plain :: "semantic_catalog \<Rightarrow> validated_plan \<Rightarrow> bool" where
  "names_plain cat v \<longleftrightarrow>
     list_all (\<lambda>e. plain (en_table e)) (ca_entities cat)
     \<and> list_all (\<lambda>r. plain (rl_from_column r) \<and> plain (rl_to_column r)) (ca_relationships cat)
     \<and> list_all (\<lambda>p. plain (ep_column p)) (plan_predicates v)"

lemma result_bindE':
  assumes "result_bind r f = Inr y"
  obtains x where "r = Inr x" "f x = Inr y"
  using assms by (cases r) simp_all

lemma traverse_all:
  assumes "traverse f xs = Inr ys" "\<And>x y. x \<in> set xs \<Longrightarrow> f x = Inr y \<Longrightarrow> P y"
  shows "\<forall>y \<in> set ys. P y"
  using assms
proof (induction xs arbitrary: ys)
  case (Cons x xs)
  from Cons.prems(1) obtain z zs where z: "f x = Inr z" "traverse f xs = Inr zs" "ys = z # zs"
    by (auto elim!: result_bindE')
  have "P z" by (rule Cons.prems(2) [OF _ z(1)]) simp
  moreover have "\<forall>y \<in> set zs. P y" by (rule Cons.IH [OF z(2)]) (rule Cons.prems(2), simp_all)
  ultimately show ?case using z(3) by simp
qed simp

lemma plain_table:
  assumes "names_plain cat v" "entity_table cat e = Some table"
  shows "plain table"
proof -
  obtain r where r: "entity_of cat e = Some r" "table = en_table r" using assms(2) by auto
  then have "r \<in> set (ca_entities cat)" using dict_get_SomeD [OF r(1)] by simp
  then show ?thesis using assms(1) r(2) by (simp add: names_plain_def list_all_iff)
qed

lemma plain_column:
  assumes "names_plain cat v" "render_column cat e c = Inr t" "plain c"
  shows "plain t"
proof -
  obtain table where t: "entity_table cat e = Some table" "t = table @ ''.'' @ c"
    using assms(2) unfolding render_column_def render_key_def by (elim result_bindE') (auto split: option.splits)
  show ?thesis using plain_table [OF assms(1) t(1)] assms(3) by (simp add: t(2))
qed

lemma fragment_literal:
  assumes "\<And>r. plain (float_repr r)" "render_literal float_repr x = Inr t" "scalar_texts x \<subseteq> X"
  shows "fragment X t"
proof (cases "\<exists>s. x = SStr s")
  case True
  then show ?thesis using assms(2,3) by (auto simp: render_literal_def intro: fragment_quoted)
next
  case False
  then have "plain t" using assms(1,2) by (cases x) (auto simp: render_literal_def split: if_splits)
  then show ?thesis by (rule fragment_plain)
qed

lemma fragment_scalar_value:
  assumes "\<And>r. plain (float_repr r)" "render_scalar_value float_repr x = Inr t" "value_texts x \<subseteq> X"
  shows "fragment X t"
proof (cases x)
  case (One y)
  show ?thesis by (rule fragment_literal [where float_repr = float_repr, OF assms(1)])
    (use assms(2,3) One in \<open>simp_all add: render_scalar_value_def\<close>)
qed (use assms(2) in \<open>simp add: render_scalar_value_def\<close>)

lemma fragment_collection:
  assumes "\<And>r. plain (float_repr r)" "render_literal_collection float_repr x = Inr t" "value_texts x \<subseteq> X"
  shows "fragment X t"
proof -
  obtain y ys where x: "x = Many (y # ys)"
    using assms(2) by (auto simp: render_literal_collection_def split: sem_value.splits list.splits)
  obtain items where i: "traverse (render_literal float_repr) (y # ys) = Inr items"
      "t = ''('' @ join_str '', '' items @ '')''"
    using assms(2) unfolding render_literal_collection_def x sem_value.case list.case by (elim result_bindE') auto
  have "\<forall>z \<in> set items. fragment X z"
    using i(1)
  proof (rule traverse_all)
    fix u z assume "u \<in> set (y # ys)" "render_literal float_repr u = Inr z"
    moreover then have "scalar_texts u \<subseteq> X" using assms(3) by (auto simp: x)
    ultimately show "fragment X z" using fragment_literal [where float_repr = float_repr, OF assms(1)] by blast
  qed
  then have "fragment X (join_str '', '' items)" by (rule fragment_join) simp_all
  then have "fragment X (join_str '', '' items @ '')'')" by (rule fragment_append) simp_all
  then show ?thesis by (simp add: i(2))
qed

lemma fragment_days:
  assumes "render_day_boundary x = Inr t" "value_texts x \<subseteq> X"
  shows "fragment X t"
proof -
  obtain n where n: "x = One (SInt n)" "t = ''CURRENT_TIMESTAMP - INTERVAL '' @ CHR 0x27 # int_text n @ '' days'' @ [CHR 0x27]"
    using assms(1) by (auto simp: render_day_boundary_def split: sem_value.splits scalar.splits if_splits)
  have doubled: "double_single_quotes u = u" if "plain u" for u
    using that by (induction u) (auto simp: double_single_quotes_def)
  have "plain (int_text n @ '' days'')" by simp
  from doubled [OF this] have t: "t = ''CURRENT_TIMESTAMP - INTERVAL '' @ quoted (int_text n @ '' days'')"
    unfolding n(2) quoted_def by simp
  have "fragment X (quoted (int_text n @ '' days''))" using assms(2) n(1) by (intro fragment_quoted) simp
  then show ?thesis unfolding t by simp
qed

lemma fragment_enclosed:
  "fragment X t \<Longrightarrow> fragment X (t @ '')'')"
  by (rule fragment_append) simp_all

lemma fragment_predicate:
  assumes "names_plain cat v" "\<And>r. plain (float_repr r)" "plain (ep_column p)"
    and "render_entity_predicate float_repr cat p = Inr t" "value_texts (ep_value p) \<subseteq> X"
  shows "fragment X t"
proof -
  obtain column where c: "render_column cat (ep_entity_id p) (ep_column p) = Inr column"
    using assms(4) unfolding render_entity_predicate_def by (elim result_bindE')
  have col [simp]: "plain column" by (rule plain_column [OF assms(1) c assms(3)])
  note scalar = fragment_scalar_value [where float_repr = float_repr, OF assms(2) _ assms(5)]
  note collection = fragment_collection [where float_repr = float_repr, OF assms(2) _ assms(5)]
  note days = fragment_days [OF _ assms(5)]
  note t = assms(4) [unfolded render_entity_predicate_def c result_bind_simps]
  show ?thesis
  proof (cases "ep_operator p")
    case OpEquals
    with t obtain w where "render_scalar_value float_repr (ep_value p) = Inr w" "t = column @ '' = '' @ w"
      by (auto elim!: result_bindE')
    then show ?thesis using scalar by simp
  next
    case OpIn
    with t obtain w where "render_literal_collection float_repr (ep_value p) = Inr w" "t = column @ '' IN '' @ w"
      by (auto elim!: result_bindE')
    then show ?thesis using collection by simp
  next
    case OpOlderThanDays
    with t obtain w where "render_day_boundary (ep_value p) = Inr w" "t = column @ '' < '' @ w"
      by (auto elim!: result_bindE')
    then show ?thesis using days by simp
  next
    case OpWithinLastDays
    with t obtain w where "render_day_boundary (ep_value p) = Inr w" "t = column @ '' >= '' @ w"
      by (auto elim!: result_bindE')
    then show ?thesis using days by simp
  next
    case OpIsNullOrOlderThanDays
    with t obtain w where "render_day_boundary (ep_value p) = Inr w"
        "t = ''('' @ column @ '' IS NULL OR '' @ column @ '' < '' @ w @ '')''"
      by (auto elim!: result_bindE')
    then show ?thesis using fragment_enclosed [OF days] by simp
  qed
qed

lemma fragment_filter:
  assumes "names_plain cat v" "\<And>r. plain (float_repr r)" "valid_literal_filter f"
    and "render_literal_filter float_repr cat f = Inr t" "value_texts (lf_value f) \<subseteq> X"
  shows "fragment X t"
proof -
  obtain column where c: "render_field cat (lf_field f) = Inr column"
    using assms(4) unfolding render_literal_filter_def by (elim result_bindE')
  have "plain (fr_column (lf_field f))"
    using assms(3) plain_identifier by (simp add: valid_literal_filter_def valid_field_ref_def plan_identifier_def)
  then have col [simp]: "plain column" using plain_column [OF assms(1)] c by (simp add: render_field_def)
  note scalar = fragment_scalar_value [where float_repr = float_repr, OF assms(2) _ assms(5)]
  note collection = fragment_collection [where float_repr = float_repr, OF assms(2) _ assms(5)]
  note t = assms(4) [unfolded render_literal_filter_def c result_bind_simps]
  show ?thesis
  proof (cases "lf_operator f")
    case LfEquals
    with t obtain w where "render_scalar_value float_repr (lf_value f) = Inr w" "t = column @ '' = '' @ w"
      by (auto elim!: result_bindE')
    then show ?thesis using scalar by simp
  next
    case LfNotEquals
    with t obtain w where "render_scalar_value float_repr (lf_value f) = Inr w" "t = column @ '' <> '' @ w"
      by (auto elim!: result_bindE')
    then show ?thesis using scalar by simp
  next
    case LfIn
    with t obtain w where "render_literal_collection float_repr (lf_value f) = Inr w" "t = column @ '' IN '' @ w"
      by (auto elim!: result_bindE')
    then show ?thesis using collection by simp
  next
    case LfNotIn
    with t obtain w where "render_literal_collection float_repr (lf_value f) = Inr w" "t = column @ '' NOT IN '' @ w"
      by (auto elim!: result_bindE')
    then show ?thesis using collection by simp
  qed
qed

end
