(* ===== verification/Sql_Quoting.thy ===== *)
theory Sql_Quoting
  imports Sql_Strings Join_Order
begin

text \<open>
  Quoting, for whole queries: the predicates of a rendered query are the only place where string
  literals occur, and everything else is plain text.
\<close>

section \<open>Predicates\<close>

lemma texts_of_predicate:
  "p \<in> set (plan_predicates v) \<Longrightarrow> value_texts (ep_value p) \<subseteq> plan_texts v"
  by (auto simp: plan_texts_def)

lemma texts_of_filter:
  "f \<in> set (pl_literal_filters (vp_plan v)) \<Longrightarrow> value_texts (lf_value f) \<subseteq> plan_texts v"
  by (auto simp: plan_texts_def)

lemma plan_predicate_fragment:
  assumes "names_plain cat v" "\<And>r. plain (float_repr r)" "p \<in> set (plan_predicates v)"
    and "render_entity_predicate float_repr cat p = Inr t"
  shows "fragment (plan_texts v) t"
proof (rule fragment_predicate [where float_repr = float_repr, OF assms(1,2) _ assms(4) texts_of_predicate [OF assms(3)]])
  show "plain (ep_column p)" using assms(1,3) by (simp add: names_plain_def list_all_iff)
qed

lemma fragment_branch:
  assumes "names_plain cat v" "\<And>r. plain (float_repr r)" "set branch \<subseteq> set (plan_predicates v)"
    and "render_branch float_repr cat branch = Inr t"
  shows "fragment (plan_texts v) t"
proof -
  obtain ps where ps: "traverse (render_entity_predicate float_repr cat) branch = Inr ps"
      "t = ''('' @ join_str '' AND '' (dedup ps) @ '')''"
    using assms(4) unfolding render_branch_def by (elim result_bindE') (auto split: if_splits)
  have "\<forall>p \<in> set ps. fragment (plan_texts v) p"
    using ps(1)
    by (rule traverse_all) (use plan_predicate_fragment [where float_repr = float_repr, OF assms(1,2)] assms(3) in blast)
  then have "fragment (plan_texts v) (join_str '' AND '' (dedup ps))" by (intro fragment_join) simp_all
  from fragment_enclosed [OF this] show ?thesis by (simp add: ps(2))
qed

lemma fragment_group:
  assumes "names_plain cat v" "\<And>r. plain (float_repr r)" "set (concat branches) \<subseteq> set (plan_predicates v)"
    and "render_group float_repr cat branches = Inr t"
  shows "fragment (plan_texts v) t"
proof -
  obtain ps where ps: "traverse (render_branch float_repr cat) branches = Inr ps"
      "t = ''('' @ join_str '' OR '' ps @ '')''"
    using assms(4) unfolding render_group_def by (elim result_bindE') (auto split: if_splits)
  have "\<forall>p \<in> set ps. fragment (plan_texts v) p"
    using ps(1)
  proof (rule traverse_all)
    fix branch p assume b: "branch \<in> set branches" "render_branch float_repr cat branch = Inr p"
    have "set branch \<subseteq> set (plan_predicates v)" using assms(3) b(1) by auto
    then show "fragment (plan_texts v) p"
      using b(2) by (rule fragment_branch [where float_repr = float_repr, OF assms(1,2)])
  qed
  then have "fragment (plan_texts v) (join_str '' OR '' ps)" by (intro fragment_join) simp_all
  from fragment_enclosed [OF this] show ?thesis by (simp add: ps(2))
qed

lemma fragment_predicates:
  assumes "names_plain cat v" "\<And>r. plain (float_repr r)" "valid_plan (vp_plan v)"
    and "render_predicates float_repr cat v = Inr ts"
  shows "\<forall>t \<in> set ts. fragment (plan_texts v) t"
proof -
  obtain common literals groups where parts:
      "traverse (render_entity_predicate float_repr cat) (vp_effective_predicates v) = Inr common"
      "traverse (render_literal_filter float_repr cat) (pl_literal_filters (vp_plan v)) = Inr literals"
      "traverse (render_group float_repr cat) (vp_rule_or_predicate_groups v) = Inr groups"
    and ts: "ts = dedup common @ dedup literals @ groups"
    using assms(4) unfolding render_predicates_def by (elim result_bindE') auto
  have "\<forall>t \<in> set common. fragment (plan_texts v) t"
    using parts(1)
  proof (rule traverse_all)
    fix p t assume "p \<in> set (vp_effective_predicates v)" "render_entity_predicate float_repr cat p = Inr t"
    then show "fragment (plan_texts v) t"
      by (intro plan_predicate_fragment [where float_repr = float_repr, OF assms(1,2)])
        (simp_all add: plan_predicates_def)
  qed
  moreover have "\<forall>t \<in> set literals. fragment (plan_texts v) t"
    using parts(2)
  proof (rule traverse_all)
    fix f t assume f: "f \<in> set (pl_literal_filters (vp_plan v))" "render_literal_filter float_repr cat f = Inr t"
    have "valid_literal_filter f" using assms(3) f(1) by (simp add: valid_plan_def list_all_iff)
    then show "fragment (plan_texts v) t"
      using f(2) texts_of_filter [OF f(1)] by (rule fragment_filter [where float_repr = float_repr, OF assms(1,2)])
  qed
  moreover have "\<forall>t \<in> set groups. fragment (plan_texts v) t"
    using parts(3)
  proof (rule traverse_all)
    fix g t assume g: "g \<in> set (vp_rule_or_predicate_groups v)" "render_group float_repr cat g = Inr t"
    have "set (concat g) \<subseteq> set (plan_predicates v)" using g(1) by (auto simp: plan_predicates_def)
    then show "fragment (plan_texts v) t"
      using g(2) by (rule fragment_group [where float_repr = float_repr, OF assms(1,2)])
  qed
  ultimately show ?thesis by (auto simp: ts)
qed

section \<open>Everything else is plain\<close>

lemma plain_field:
  assumes "names_plain cat v" "valid_field_ref f" "render_field cat f = Inr t"
  shows "plain t"
  using plain_column [OF assms(1) assms(3) [unfolded render_field_def]] assms(2) plain_identifier
  by (simp add: valid_field_ref_def plan_identifier_def)

lemma plain_aggregation:
  assumes "names_plain cat v" "valid_aggregation a" "render_aggregation cat a = Inr t"
  shows "plain t"
proof (cases "ai_field a")
  case None
  then show ?thesis using assms(3) by (cases "ai_function a") (auto simp: render_aggregation_def split: if_splits)
next
  case (Some f)
  then obtain field where f: "render_field cat f = Inr field"
      "t = ''COUNT('' @ (if ai_distinct a then ''DISTINCT '' else []) @ field @ '')'' \<or> t = ''SUM('' @ field @ '')''"
    using assms(3) unfolding render_aggregation_def
    by (cases "ai_function a") (auto elim!: result_bindE' split: if_splits)
  have "valid_field_ref f" using assms(2) Some by (simp add: valid_aggregation_def)
  then have "plain field" using f(1) by (rule plain_field [OF assms(1)])
  then show ?thesis using f(2) by auto
qed

lemma plain_having:
  assumes "names_plain cat v" "\<And>r. plain (float_repr r)" "list_all valid_aggregation (pl_aggregations plan)"
    and "valid_having h" "render_having float_repr cat plan h = Inr t"
  shows "plain t"
proof -
  obtain a target w where a: "dict_get ai_id (hv_aggregation_id h) (pl_aggregations plan) = Some a"
      "render_aggregation cat a = Inr target" "render_literal float_repr (hv_value h) = Inr w"
      "t = target @ '' '' @ comparison_sql (hv_operator h) @ '' '' @ w"
    using assms(5) unfolding render_having_def render_key_def by (elim result_bindE') (auto split: option.splits)
  have "valid_aggregation a" using assms(3) dict_get_SomeD [OF a(1)] by (simp add: list_all_iff)
  then have "plain target" using a(2) by (rule plain_aggregation [OF assms(1)])
  moreover have "plain w"
    using assms(2,4) a(3) by (cases "hv_value h") (auto simp: valid_having_def render_literal_def)
  moreover have "plain (comparison_sql c)" for c by (cases c) simp_all
  ultimately show ?thesis by (simp add: a(4))
qed

lemma plain_order:
  assumes "names_plain cat v" "list_all valid_aggregation (pl_aggregations plan)"
    and "valid_order i" "render_order cat plan i = Inr t"
  shows "plain t"
proof -
  obtain target where t: "(case (oi_target_kind i, oi_field i, oi_aggregation_id i) of
          (TargetField, Some f, _) \<Rightarrow> render_field cat f
        | (TargetAggregation, _, Some a) \<Rightarrow>
            result_bind (render_key (dict_get ai_id a (pl_aggregations plan)) ''order_aggregation_missing'')
              (render_aggregation cat)
        | _ \<Rightarrow> Inl (RenderError ''order_target_unsupported'')) = Inr target"
      "t = target @ (case oi_direction i of Ascending \<Rightarrow> '' ASC'' | Descending \<Rightarrow> '' DESC'')"
    using assms(4) unfolding render_order_def by (elim result_bindE') simp
  have "plain target"
  proof (cases "oi_target_kind i")
    case TargetField
    with assms(3) obtain f where "oi_field i = Some f" "valid_field_ref f" by (auto simp: valid_order_def)
    then show ?thesis using t(1) TargetField plain_field [OF assms(1)] by simp
  next
    case TargetAggregation
    with assms(3) obtain k where k: "oi_aggregation_id i = Some k" by (auto simp: valid_order_def)
    obtain a where a: "dict_get ai_id k (pl_aggregations plan) = Some a" "render_aggregation cat a = Inr target"
      using t(1) TargetAggregation k by (auto simp: render_key_def split: option.splits)
    have "valid_aggregation a" using assms(2) dict_get_SomeD [OF a(1)] by (simp add: list_all_iff)
    then show ?thesis using a(2) by (rule plain_aggregation [OF assms(1)])
  qed
  then show ?thesis by (cases "oi_direction i") (simp_all add: t(2))
qed

section \<open>Labels\<close>

lemma plain_lower_take: "plain c \<Longrightarrow> plain (take n (py_lower c))"
  by (simp add: plain_take plain_lower)

lemma plain_base: "plain (label_base k) \<Longrightarrow> plain (numbered_label (label_base k) n)"
  by (simp add: numbered_label_def Let_def plain_take)

lemma plain_fresh:
  assumes "fresh_label used (label_base k) n name = Some l" "plain (label_base k)" "plain name"
  shows "plain l"
proof -
  obtain l' where "fresh_label used (label_base k) n name = Some l'"
      "l' = name \<or> (\<exists>m. l' = numbered_label (label_base k) m)"
    using fresh_label_found [of used "label_base k" n name] by blast
  then show ?thesis using assms plain_base by auto
qed

lemma plain_add_labels:
  assumes "add_labels ks labels used = Some out" "\<forall>x \<in> set labels. plain (snd x)" "\<forall>k \<in> set ks. plain (label_base k)"
  shows "\<forall>x \<in> set out. plain (snd x)"
  using assms
proof (induction ks arbitrary: labels used)
  case Nil
  then show ?case by simp
next
  case (Cons k ks)
  have rest: "\<forall>k \<in> set ks. plain (label_base k)" and base: "plain (label_base k)" using Cons.prems(3) by simp_all
  show ?case
  proof (cases "map_of labels k")
    case None
    show ?thesis
    proof (cases "fresh_label used (label_base k) 2 (take 63 (label_base k))")
      case None
      with \<open>map_of labels k = None\<close> Cons.prems(1) show ?thesis by simp
    next
      case (Some l)
      have "plain l" by (rule plain_fresh [OF Some base plain_take [OF base]])
      then have labels: "\<forall>x \<in> set (labels @ [(k, l)]). plain (snd x)" using Cons.prems(2) by simp
      have "add_labels ks (labels @ [(k, l)]) (l # used) = Some out"
        using Cons.prems(1) \<open>map_of labels k = None\<close> Some by simp
      then show ?thesis using labels rest by (rule Cons.IH)
    qed
  next
    case (Some l)
    have "add_labels ks labels used = Some out" using Cons.prems(1) Some by simp
    then show ?thesis using Cons.prems(2) rest by (rule Cons.IH)
  qed
qed

lemma plain_label_key:
  assumes "valid_plan plan" "k \<in> set (label_keys plan)"
  shows "plain (preferred_label k)" "plain (label_base k)"
proof -
  have "case k of FieldLabel e c \<Rightarrow> plain e \<and> plain c | AggregationLabel i \<Rightarrow> plain i"
    using assms plain_identifier
    by (auto simp: label_keys_def valid_plan_def list_all_iff valid_field_ref_def valid_aggregation_def plan_identifier_def)
  then show "plain (preferred_label k)" "plain (label_base k)"
    by (cases k; simp add: plain_lower_take plain_lower)+
qed

lemma plain_output_labels:
  assumes "valid_plan plan" "output_labels plan = Some labels" "map_of labels k = Some l"
  shows "plain l"
proof -
  have "\<forall>x \<in> set labels. plain (snd x)"
    using assms(2) unfolding output_labels_def Let_def
    by (rule plain_add_labels) (use plain_label_key [OF assms(1)] in auto)
  with map_of_SomeD [OF assms(3)] show ?thesis by auto
qed

section \<open>The query\<close>

lemma plain_field_item:
  assumes "names_plain cat v" "valid_plan plan" "output_labels plan = Some labels" "f \<in> set (pl_output_fields plan)"
    and "field_item cat labels f = Inr t"
  shows "plain t"
proof -
  obtain u l where u: "render_field cat f = Inr u" "map_of labels (FieldLabel (fr_entity_id f) (fr_column f)) = Some l"
      "t = u @ (if l \<noteq> fr_column f then '' AS '' @ l else [])"
    using assms(5) unfolding field_item_def by (elim result_bindE') (auto split: option.splits)
  have "valid_field_ref f" using assms(2,4) by (simp add: valid_plan_def list_all_iff)
  then have "plain u" using u(1) by (rule plain_field [OF assms(1)])
  then show ?thesis using plain_output_labels [OF assms(2,3) u(2)] by (simp add: u(3))
qed

lemma plain_aggregation_item:
  assumes "names_plain cat v" "valid_plan plan" "output_labels plan = Some labels" "a \<in> set (pl_aggregations plan)"
    and "aggregation_item cat labels a = Inr t"
  shows "plain t"
proof -
  obtain u l where u: "render_aggregation cat a = Inr u" "map_of labels (AggregationLabel (ai_id a)) = Some l"
      "t = u @ '' AS '' @ l"
    using assms(5) unfolding aggregation_item_def by (elim result_bindE') (auto split: option.splits)
  have "valid_aggregation a" using assms(2,4) by (simp add: valid_plan_def list_all_iff)
  then have "plain u" using u(1) by (rule plain_aggregation [OF assms(1)])
  then show ?thesis using plain_output_labels [OF assms(2,3) u(2)] by (simp add: u(3))
qed

lemma plain_select_items:
  assumes "names_plain cat v" "valid_plan (vp_plan v)" "render_select_items cat v = Inr items"
  shows "\<forall>t \<in> set items. plain t"
proof (cases "pl_metric_id (vp_plan v)")
  case (Some m)
  have "plain m" using assms(2) Some plain_identifier by (simp add: valid_plan_def plan_identifier_def)
  then have "plain (take 63 (py_lower m))" by (rule plain_lower_take)
  moreover have "items = [''COUNT(*) AS '' @ take 63 (py_lower m)]"
    using assms(3) Some by (auto simp: render_select_items_def split: option.splits if_splits)
  ultimately show ?thesis by simp
next
  case None
  obtain labels fields aggregations where l: "output_labels (vp_plan v) = Some labels"
    and parts: "traverse (field_item cat labels) (pl_output_fields (vp_plan v)) = Inr fields"
      "traverse (aggregation_item cat labels) (pl_aggregations (vp_plan v)) = Inr aggregations"
      "items = fields @ aggregations"
    using assms(3) None unfolding render_select_items_def Let_def
    by (auto elim!: result_bindE' split: option.splits if_splits)
  have "\<forall>t \<in> set fields. plain t"
    using parts(1) by (rule traverse_all) (rule plain_field_item [OF assms(1,2) l])
  moreover have "\<forall>t \<in> set aggregations. plain t"
    using parts(2) by (rule traverse_all) (rule plain_aggregation_item [OF assms(1,2) l])
  ultimately show ?thesis by (auto simp: parts(3))
qed

lemma joined_relationships:
  assumes "selected_join_order cat plan = Inr (Some (start, steps))" "(r, j, added) \<in> set steps"
  shows "r \<in> set (ca_relationships cat)"
proof -
  obtain selected where s: "selected_relationships cat plan = Inr selected"
      "is_join_order (set (pl_entity_ids plan)) selected start steps"
    using assms(1) by (rule selected_join_order_Some)
  have "\<forall>x \<in> set selected. fst x \<in> set (ca_relationships cat)"
    using s(1) unfolding selected_relationships_def
    by (rule traverse_all) (auto simp: require_key_def split: option.splits elim!: result_bindE' dest: dict_get_SomeD)
  moreover have "(r, j) \<in> set selected"
  proof -
    have "(r, j) \<in> set (map join_of steps)" using assms(2) by force
    moreover have "set (map join_of steps) = set selected"
      using s(2) unfolding is_join_order_def by (intro mset_eq_setD) blast
    ultimately show ?thesis by simp
  qed
  ultimately show ?thesis by auto
qed

lemma plain_join_tree:
  assumes "names_plain cat v" "render_join_tree cat plan = Inr (start, js)"
  shows "\<forall>t \<in> set js. plain t"
proof (cases "js = []")
  case False
  obtain steps where steps: "selected_join_order cat plan = Inr (Some (start, steps))"
    and j: "traverse (\<lambda>(r, j, added).
                case (entity_table cat added, entity_table cat (rl_from_entity r), entity_table cat (rl_to_entity r)) of
                  (Some table, Some source, Some target) \<Rightarrow>
                    Inr ((if j = JoinInner then ''INNER JOIN'' else ''LEFT JOIN'') @ '' '' @ table @ '' ON ''
                         @ source @ ''.'' @ rl_from_column r @ '' = '' @ target @ ''.'' @ rl_to_column r)
                | _ \<Rightarrow> Inl (RenderRaised KeyError)) steps = Inr js"
    using assms(2) False unfolding render_join_tree_def lift_plan_def
    by (auto elim!: result_bindE' split: list.splits if_splits option.splits sum.splits plan_error.splits)
  show ?thesis
    using j
  proof (rule traverse_all)
    fix step t
    assume step: "step \<in> set steps" and t: "(case step of (r, j, added) \<Rightarrow>
                case (entity_table cat added, entity_table cat (rl_from_entity r), entity_table cat (rl_to_entity r)) of
                  (Some table, Some source, Some target) \<Rightarrow>
                    Inr ((if j = JoinInner then ''INNER JOIN'' else ''LEFT JOIN'') @ '' '' @ table @ '' ON ''
                         @ source @ ''.'' @ rl_from_column r @ '' = '' @ target @ ''.'' @ rl_to_column r)
                | _ \<Rightarrow> Inl (RenderRaised KeyError)) = Inr t"
    obtain r j added where s: "step = (r, j, added)" by (cases step)
    have "r \<in> set (ca_relationships cat)" using joined_relationships [OF steps] step s by blast
    then have cols: "plain (rl_from_column r)" "plain (rl_to_column r)"
      using assms(1) by (simp_all add: names_plain_def list_all_iff)
    obtain table source target where tables: "entity_table cat added = Some table"
        "entity_table cat (rl_from_entity r) = Some source" "entity_table cat (rl_to_entity r) = Some target"
      and rendered: "t = (if j = JoinInner then ''INNER JOIN'' else ''LEFT JOIN'') @ '' '' @ table @ '' ON ''
                         @ source @ ''.'' @ rl_from_column r @ '' = '' @ target @ ''.'' @ rl_to_column r"
      using t unfolding s prod.case by (auto split: option.splits)
    show "plain t"
      unfolding rendered using tables [THEN plain_table [OF assms(1)]] cols by simp
  qed
qed simp

lemma fragment_clause:
  assumes "\<forall>x \<in> set xs. fragment X x" "plain sep" "sep \<noteq> []" "plain keyword"
  shows "\<forall>t \<in> set (clause keyword sep xs). fragment X t"
  using fragment_join [OF assms(1-3)] assms(4) by (simp add: clause_def)

lemma plain_fragments: "\<forall>x \<in> set xs. plain x \<Longrightarrow> \<forall>x \<in> set xs. fragment X x"
  by (auto intro: fragment_plain)

text \<open>The parts of a query, of which only the predicates hold literals.\<close>

definition assembled ::
  "semantic_plan \<Rightarrow> string list \<Rightarrow> string \<Rightarrow> string list \<Rightarrow> string list \<Rightarrow> string list \<Rightarrow> string list \<Rightarrow> string list \<Rightarrow> string list" where
  "assembled plan items table js predicates groups having order =
     [''SELECT '' @ (if pl_distinct plan then ''DISTINCT '' else []) @ join_str '', '' items, ''FROM '' @ table]
     @ js
     @ clause ''WHERE '' '' AND '' predicates
     @ clause ''GROUP BY '' '', '' groups
     @ clause ''HAVING '' '' AND '' having
     @ clause ''ORDER BY '' '', '' order
     @ (case pl_limit plan of None \<Rightarrow> [] | Some n \<Rightarrow> [''LIMIT '' @ int_text n])"

lemma rendered_parts:
  assumes "render_validated_semantic_plan float_repr v pack = Inr sql"
  obtains start js items table predicates groups having order where
    "list_all (\<lambda>e. entity_table (pk_catalog pack) e \<noteq> None) (pl_entity_ids (vp_plan v))"
    "render_join_tree (pk_catalog pack) (vp_plan v) = Inr (start, js)"
    "render_select_items (pk_catalog pack) v = Inr items"
    "entity_table (pk_catalog pack) start = Some table"
    "render_predicates float_repr (pk_catalog pack) v = Inr predicates"
    "traverse (render_field (pk_catalog pack)) (pl_group_by (vp_plan v)) = Inr groups"
    "traverse (render_having float_repr (pk_catalog pack) (vp_plan v)) (pl_having (vp_plan v)) = Inr having"
    "traverse (render_order (pk_catalog pack) (vp_plan v)) (pl_order_by (vp_plan v)) = Inr order"
    "sql = join_str '' '' (assembled (vp_plan v) items table js predicates groups having order)"
  using assms unfolding render_validated_semantic_plan_def Let_def assembled_def
  by (elim result_bindE') (auto split: option.splits prod.splits elim!: result_bindE')

lemma plain_parts:
  assumes names: "names_plain cat v" and float: "\<And>r. plain (float_repr r)" and plan: "valid_plan (vp_plan v)"
  shows "traverse (render_field cat) (pl_group_by (vp_plan v)) = Inr groups \<Longrightarrow> \<forall>t \<in> set groups. plain t"
    and "traverse (render_having float_repr cat (vp_plan v)) (pl_having (vp_plan v)) = Inr having
      \<Longrightarrow> \<forall>t \<in> set having. plain t"
    and "traverse (render_order cat (vp_plan v)) (pl_order_by (vp_plan v)) = Inr order \<Longrightarrow> \<forall>t \<in> set order. plain t"
proof -
  have vp: "list_all valid_aggregation (pl_aggregations (vp_plan v))" "list_all valid_field_ref (pl_group_by (vp_plan v))"
      "list_all valid_having (pl_having (vp_plan v))" "list_all valid_order (pl_order_by (vp_plan v))"
    using plan by (simp_all add: valid_plan_def)
  show "\<forall>t \<in> set groups. plain t" if "traverse (render_field cat) (pl_group_by (vp_plan v)) = Inr groups"
    using that by (rule traverse_all) (use vp(2) plain_field [OF names] in \<open>auto simp: list_all_iff\<close>)
  show "\<forall>t \<in> set having. plain t" if "traverse (render_having float_repr cat (vp_plan v)) (pl_having (vp_plan v)) = Inr having"
    using that
    by (rule traverse_all)
      (use vp(3) plain_having [where float_repr = float_repr, OF names float vp(1)] in \<open>auto simp: list_all_iff\<close>)
  show "\<forall>t \<in> set order. plain t" if "traverse (render_order cat (vp_plan v)) (pl_order_by (vp_plan v)) = Inr order"
    using that by (rule traverse_all) (use vp(4) plain_order [OF names vp(1)] in \<open>auto simp: list_all_iff\<close>)
qed

lemma assembled_fragment:
  assumes "\<forall>t \<in> set items. plain t" "plain table" "\<forall>t \<in> set js. plain t" "\<forall>t \<in> set predicates. fragment X t"
    and "\<forall>t \<in> set groups. plain t" "\<forall>t \<in> set having. plain t" "\<forall>t \<in> set order. plain t"
  shows "\<forall>t \<in> set (assembled plan items table js predicates groups having order). fragment X t"
proof -
  have start: "fragment X (''SELECT '' @ (if pl_distinct plan then ''DISTINCT '' else []) @ join_str '', '' items)"
      "fragment X (''FROM '' @ table)"
    using plain_join [OF assms(1)] assms(2) by (simp_all add: fragment_plain)
  have limit: "\<forall>t \<in> set (case pl_limit plan of None \<Rightarrow> [] | Some n \<Rightarrow> [''LIMIT '' @ int_text n]). fragment X t"
    by (auto split: option.splits intro!: fragment_plain)
  have "\<forall>t \<in> set (clause ''WHERE '' '' AND '' predicates). fragment X t"
       "\<forall>t \<in> set (clause ''GROUP BY '' '', '' groups). fragment X t"
       "\<forall>t \<in> set (clause ''HAVING '' '' AND '' having). fragment X t"
       "\<forall>t \<in> set (clause ''ORDER BY '' '', '' order). fragment X t"
    by (rule fragment_clause [OF assms(4)], simp_all,
        rule fragment_clause [OF plain_fragments [OF assms(5)]], simp_all,
        rule fragment_clause [OF plain_fragments [OF assms(6)]], simp_all,
        rule fragment_clause [OF plain_fragments [OF assms(7)]], simp_all)
  with start limit plain_fragments [OF assms(3)] show ?thesis
    unfolding assembled_def set_append ball_Un list.set ball_simps by blast
qed

lemma rendered_query_fragment:
  assumes names: "names_plain (pk_catalog pack) v" and float: "\<And>r. plain (float_repr r)"
    and plan: "valid_plan (vp_plan v)" and run: "render_validated_semantic_plan float_repr v pack = Inr sql"
  shows "fragment (plan_texts v) sql"
  using run
proof (rule rendered_parts, goal_cases)
  case (1 start js items table predicates groups having order)
  note plain = plain_parts [where float_repr = float_repr, OF names float plan]
  show ?case
    unfolding 1(9)
    by (rule fragment_join [OF assembled_fragment])
      (rule plain_select_items [OF names plan 1(3)] plain_table [OF names 1(4)] plain_join_tree [OF names 1(2)]
        fragment_predicates [where float_repr = float_repr, OF names float plan 1(5)]
        plain(1) [OF 1(6)] plain(2) [OF 1(7)] plain(3) [OF 1(8)] | simp)+
qed

lemma rendered_strings:
  assumes "names_plain (pk_catalog pack) v" "\<And>r. plain (float_repr r)"
    and "valid_plan (vp_plan v)" "render_validated_semantic_plan float_repr v pack = Inr sql"
  shows "\<exists>strs. sql_strings sql = Some strs \<and> set strs \<subseteq> plan_texts v"
  using fragment_strings [OF rendered_query_fragment [where float_repr = float_repr, OF assms]] by blast

end
