(* ===== verification/Sql_Renaming.thy ===== *)
theory Sql_Renaming
  imports Sql_Quoting
begin

text \<open>
  Values stay values: when the texts of a plan's values are renamed, its query changes in its
  string literals, by the same renaming, and nowhere else. This is a statement on two runs of the
  renderer; \<open>sim\<close> relates the runs step by step.
\<close>

section \<open>Renaming the literals of a query\<close>

function rename_literals :: "(string \<Rightarrow> string) \<Rightarrow> string \<Rightarrow> string" where
  "rename_literals ren [] = []"
| "rename_literals ren (c # cs) =
     (if c \<noteq> quote then c # rename_literals ren cs
      else case read_string cs of
        None \<Rightarrow> c # cs
      | Some (s, rest) \<Rightarrow> quoted (ren s) @ rename_literals ren rest)"
  by pat_completeness auto

termination
  by (relation "measure (length \<circ> snd)") (auto dest: read_string_shorter)

declare rename_literals.simps(2) [simp del]

definition renames :: "(string \<Rightarrow> string) \<Rightarrow> string \<Rightarrow> string \<Rightarrow> bool" where
  "renames ren t u \<longleftrightarrow> (\<forall>rest. goes_on rest \<longrightarrow> rename_literals ren (t @ rest) = u @ rename_literals ren rest)"

lemma renamesD: "renames ren t u \<Longrightarrow> rename_literals ren t = u"
  unfolding renames_def by (drule spec [of _ "[]"]) simp

lemma rename_plain: "plain t \<Longrightarrow> rename_literals ren (t @ rest) = t @ rename_literals ren rest"
  by (induction t) (simp_all add: rename_literals.simps(2))

lemma renames_plain: "plain t \<Longrightarrow> renames ren t t"
  by (simp add: renames_def rename_plain)

lemma renames_prefix: "plain p \<Longrightarrow> renames ren (p @ t) (p @ u) \<longleftrightarrow> renames ren t u"
  by (simp add: renames_def rename_plain)

lemma renames_append:
  assumes "renames ren t u" "renames ren t2 u2" "goes_on t2"
  shows "renames ren (t @ t2) (u @ u2)"
  unfolding renames_def
proof (intro allI impI)
  fix rest assume rest: "goes_on rest"
  then have "goes_on (t2 @ rest)" using assms(3) by (cases t2) simp_all
  then show "rename_literals ren ((t @ t2) @ rest) = (u @ u2) @ rename_literals ren rest"
    using assms(1,2) rest by (simp add: renames_def)
qed

lemma renames_quoted: "renames ren (quoted s) (quoted (ren s))"
  unfolding renames_def
proof (intro allI impI)
  fix rest assume "goes_on rest"
  then show "rename_literals ren (quoted s @ rest) = quoted (ren s) @ rename_literals ren rest"
    using read_string_doubled [of rest s] by (simp add: quoted_def rename_literals.simps(2))
qed

section \<open>Renaming there and back\<close>

text \<open>
  \<open>undo\<close> undoes \<open>ren\<close>. The texts of numbers of days, which are no values of text, stay as they are.
\<close>

definition renaming :: "(string \<Rightarrow> string) \<Rightarrow> (string \<Rightarrow> string) \<Rightarrow> bool" where
  "renaming ren undo \<longleftrightarrow>
     (\<forall>s. undo (ren s) = s) \<and> (\<forall>n. ren (int_text n @ '' days'') = int_text n @ '' days'')"

lemma renamingD:
  assumes "renaming ren undo"
  shows "undo (ren s) = s" "ren (int_text n @ '' days'') = int_text n @ '' days''"
    "undo (int_text n @ '' days'') = int_text n @ '' days''"
  using assms unfolding renaming_def by metis+

definition swaps :: "(string \<Rightarrow> string) \<Rightarrow> (string \<Rightarrow> string) \<Rightarrow> string \<Rightarrow> string \<Rightarrow> bool" where
  "swaps ren undo t u \<longleftrightarrow> renames ren t u \<and> renames undo u t"

lemma swaps_plain: "plain t \<Longrightarrow> swaps ren undo t t"
  by (simp add: swaps_def renames_plain)

lemma swaps_prefix [simp]: "plain p \<Longrightarrow> swaps ren undo (p @ t) (p @ u) \<longleftrightarrow> swaps ren undo t u"
  by (simp add: swaps_def renames_prefix)

lemma swaps_Cons [simp]: "c \<noteq> quote \<Longrightarrow> swaps ren undo (c # t) (c # u) \<longleftrightarrow> swaps ren undo t u"
  using swaps_prefix [of "[c]"] by simp

lemma swaps_append:
  "swaps ren undo t u \<Longrightarrow> swaps ren undo t2 u2 \<Longrightarrow> goes_on t2 \<Longrightarrow> goes_on u2 \<Longrightarrow> swaps ren undo (t @ t2) (u @ u2)"
  by (simp add: swaps_def renames_append)

lemma swaps_closed: "swaps ren undo t u \<Longrightarrow> swaps ren undo (t @ '')'') (u @ '')'')"
  by (rule swaps_append) (simp_all add: swaps_plain)

lemma swaps_quoted: "renaming ren undo \<Longrightarrow> swaps ren undo (quoted s) (quoted (ren s))"
  using renames_quoted [of ren s] renames_quoted [of undo "ren s"] by (simp add: swaps_def renamingD(1))

lemma swaps_days: "renaming ren undo \<Longrightarrow> swaps ren undo (quoted (int_text n @ '' days'')) (quoted (int_text n @ '' days''))"
  using swaps_quoted [of ren undo "int_text n @ '' days''"] by (simp add: renamingD(2))

lemma swaps_join:
  assumes "list_all2 (swaps ren undo) xs ys" "plain sep" "sep \<noteq> []"
  shows "swaps ren undo (join_str sep xs) (join_str sep ys)"
  using assms(1)
proof (induction xs ys rule: list_all2_induct)
  case Nil
  show ?case by (simp add: swaps_plain)
next
  case (Cons x xs y ys)
  show ?case
  proof (cases xs)
    case Nil
    then show ?thesis using Cons by simp
  next
    case xs: (Cons x2 xs2)
    then obtain y2 ys2 where ys: "ys = y2 # ys2" using Cons.hyps(2) by (cases ys) simp_all
    have "goes_on (sep @ zs)" for zs using assms(2,3) by (cases sep) simp_all
    then have "swaps ren undo (x @ sep @ join_str sep xs) (y @ sep @ join_str sep ys)"
      using Cons assms(2) by (intro swaps_append [of ren undo x y]) simp_all
    then show ?thesis by (simp add: xs ys)
  qed
qed

text \<open>Texts that swap are equal when their images are, so removing repeated ones commutes.\<close>

lemma dedup_map:
  "inj_on f (set xs) \<Longrightarrow> dedup (map f xs) = map f (dedup xs)"
proof (induction xs rule: dedup.induct)
  case (2 x xs)
  have "filter (\<lambda>y. y \<noteq> f x) (map f xs) = map f (filter (\<lambda>y. y \<noteq> x) xs)"
    using 2(2) by (auto simp: filter_map inj_on_def intro!: arg_cong [of _ _ "map f"] filter_cong)
  moreover have "dedup (map f (filter (\<lambda>y. y \<noteq> x) xs)) = map f (dedup (filter (\<lambda>y. y \<noteq> x) xs))"
    using 2(2) by (intro 2(1)) (auto intro: inj_on_subset)
  ultimately show ?case by simp
qed simp

lemma swaps_dedup:
  assumes "list_all2 (swaps ren undo) xs ys"
  shows "list_all2 (swaps ren undo) (dedup xs) (dedup ys)"
proof -
  have all: "\<forall>x \<in> set xs. swaps ren undo x (rename_literals ren x)" and ys: "ys = map (rename_literals ren) xs"
    using assms by (induction xs ys rule: list_all2_induct) (auto simp: swaps_def dest: renamesD)
  have "rename_literals undo (rename_literals ren x) = x" if "x \<in> set xs" for x
    using all that by (auto simp: swaps_def dest: renamesD)
  then have "inj_on (rename_literals ren) (set xs)" by (rule inj_on_inverseI)
  from dedup_map [OF this] have "dedup ys = map (rename_literals ren) (dedup xs)" by (simp add: ys)
  then show ?thesis using all by (simp add: list_all2_map2 list_all2_same)
qed

section \<open>Renaming the values of a plan\<close>

fun rename_scalar :: "(string \<Rightarrow> string) \<Rightarrow> scalar \<Rightarrow> scalar" where
  "rename_scalar ren (SStr s) = SStr (ren s)"
| "rename_scalar ren x = x"

fun rename_value :: "(string \<Rightarrow> string) \<Rightarrow> sem_value \<Rightarrow> sem_value" where
  "rename_value ren (One x) = One (rename_scalar ren x)"
| "rename_value ren (Many xs) = Many (map (rename_scalar ren) xs)"

definition rename_predicate :: "(string \<Rightarrow> string) \<Rightarrow> entity_predicate \<Rightarrow> entity_predicate" where
  "rename_predicate ren p = p\<lparr>ep_value := rename_value ren (ep_value p)\<rparr>"

definition rename_filter :: "(string \<Rightarrow> string) \<Rightarrow> literal_filter \<Rightarrow> literal_filter" where
  "rename_filter ren f = f\<lparr>lf_value := rename_value ren (lf_value f)\<rparr>"

definition rename_plan :: "(string \<Rightarrow> string) \<Rightarrow> validated_plan \<Rightarrow> validated_plan" where
  "rename_plan ren v = v
     \<lparr>vp_plan := (vp_plan v)\<lparr>pl_literal_filters := map (rename_filter ren) (pl_literal_filters (vp_plan v))\<rparr>,
      vp_effective_predicates := map (rename_predicate ren) (vp_effective_predicates v),
      vp_rule_or_predicate_groups := map (map (map (rename_predicate ren))) (vp_rule_or_predicate_groups v)\<rparr>"

lemma rename_plan_simps [simp]:
  "vp_plan (rename_plan ren v) = (vp_plan v)\<lparr>pl_literal_filters := map (rename_filter ren) (pl_literal_filters (vp_plan v))\<rparr>"
  "vp_effective_predicates (rename_plan ren v) = map (rename_predicate ren) (vp_effective_predicates v)"
  "vp_rule_or_predicate_groups (rename_plan ren v) = map (map (map (rename_predicate ren))) (vp_rule_or_predicate_groups v)"
  "vp_metric_aggregation_function (rename_plan ren v) = vp_metric_aggregation_function v"
  by (simp_all add: rename_plan_def)

lemma rename_plan_filters:
  "pl_literal_filters (vp_plan (rename_plan ren v)) = map (rename_filter ren) (pl_literal_filters (vp_plan v))"
  by simp

text \<open>What does not look at the values of filters.\<close>

lemma rename_plan_fields:
  "pl_entity_ids (vp_plan (rename_plan ren v)) = pl_entity_ids (vp_plan v)"
  "pl_distinct (vp_plan (rename_plan ren v)) = pl_distinct (vp_plan v)"
  "pl_group_by (vp_plan (rename_plan ren v)) = pl_group_by (vp_plan v)"
  "pl_having (vp_plan (rename_plan ren v)) = pl_having (vp_plan v)"
  "pl_order_by (vp_plan (rename_plan ren v)) = pl_order_by (vp_plan v)"
  "pl_limit (vp_plan (rename_plan ren v)) = pl_limit (vp_plan v)"
  "pl_relationships (vp_plan (rename_plan ren v)) = pl_relationships (vp_plan v)"
  "pl_aggregations (vp_plan (rename_plan ren v)) = pl_aggregations (vp_plan v)"
  "pl_output_fields (vp_plan (rename_plan ren v)) = pl_output_fields (vp_plan v)"
  "pl_metric_id (vp_plan (rename_plan ren v)) = pl_metric_id (vp_plan v)"
  by simp_all

lemma rename_plan_parts:
  "render_join_tree cat (vp_plan (rename_plan ren v)) = render_join_tree cat (vp_plan v)"
  "render_select_items cat (rename_plan ren v) = render_select_items cat v"
  "render_having float_repr cat (vp_plan (rename_plan ren v)) = render_having float_repr cat (vp_plan v)"
  "render_order cat (vp_plan (rename_plan ren v)) = render_order cat (vp_plan v)"
  "assembled (vp_plan (rename_plan ren v)) = assembled (vp_plan v)"
  unfolding render_join_tree_def selected_join_order_def selected_relationships_def render_select_items_def
    output_labels_def label_keys_def render_having_def [abs_def] render_order_def [abs_def] assembled_def [abs_def]
    rename_plan_fields rename_plan_simps(4) Let_def by (rule refl)+

section \<open>Two runs\<close>

text \<open>When the first run succeeds, so does the second, with a related result.\<close>

definition sim :: "('a \<Rightarrow> 'a \<Rightarrow> bool) \<Rightarrow> 'e + 'a \<Rightarrow> 'e + 'a \<Rightarrow> bool" where
  "sim P r r' \<longleftrightarrow> (\<forall>x. r = Inr x \<longrightarrow> (\<exists>y. r' = Inr y \<and> P x y))"

lemma sim_Inr [simp]: "sim P (Inr x) (Inr y) \<longleftrightarrow> P x y"
  by (simp add: sim_def)

lemma sim_Inl [simp]: "sim P (Inl e) r"
  by (simp add: sim_def)

lemma sim_bind:
  assumes "sim P r r'" "\<And>x y. r = Inr x \<Longrightarrow> P x y \<Longrightarrow> sim Q (f x) (f' y)"
  shows "sim Q (result_bind r f) (result_bind r' f')"
  using assms unfolding sim_def by (cases r) auto

lemma sim_same:
  assumes "\<And>x. r = Inr x \<Longrightarrow> sim Q (f x) (f' x)"
  shows "sim Q (result_bind r f) (result_bind r f')"
  using assms by (cases r) simp_all

lemma sim_traverse:
  assumes "\<And>x. x \<in> set xs \<Longrightarrow> sim P (f x) (f (g x))"
  shows "sim (list_all2 P) (traverse f xs) (traverse f (map g xs))"
  using assms
proof (induction xs)
  case (Cons x xs)
  have "sim P (f x) (f (g x))" by (rule Cons.prems) simp
  moreover have "sim (list_all2 P) (traverse f xs) (traverse f (map g xs))"
    by (rule Cons.IH) (simp add: Cons.prems)
  ultimately show ?case
    unfolding traverse.simps list.map by (fastforce intro: sim_bind)
qed simp

section \<open>Literals and predicates\<close>

lemma sim_literal:
  assumes "renaming ren undo" "\<And>r. plain (float_repr r)"
  shows "sim (swaps ren undo) (render_literal float_repr x) (render_literal float_repr (rename_scalar ren x))"
  using assms by (cases x) (simp_all add: render_literal_def swaps_quoted swaps_plain)

lemma sim_scalar_value:
  assumes "renaming ren undo" "\<And>r. plain (float_repr r)"
  shows "sim (swaps ren undo) (render_scalar_value float_repr x) (render_scalar_value float_repr (rename_value ren x))"
  by (cases x) (simp_all add: render_scalar_value_def sim_literal [OF assms])

lemma sim_collection:
  assumes "renaming ren undo" "\<And>r. plain (float_repr r)"
  shows "sim (swaps ren undo) (render_literal_collection float_repr x)
           (render_literal_collection float_repr (rename_value ren x))"
proof (cases "\<exists>y ys. x = Many (y # ys)")
  case True
  then obtain y ys where x: "x = Many (y # ys)" by blast
  have "sim (list_all2 (swaps ren undo)) (traverse (render_literal float_repr) (y # ys))
      (traverse (render_literal float_repr) (map (rename_scalar ren) (y # ys)))"
    by (rule sim_traverse) (rule sim_literal [OF assms])
  then show ?thesis
    unfolding x render_literal_collection_def rename_value.simps list.map sem_value.case list.case
    by (rule sim_bind) (auto intro!: swaps_closed swaps_join)
next
  case False
  then show ?thesis by (auto simp: render_literal_collection_def split: sem_value.splits list.splits)
qed

lemma sim_days:
  assumes "renaming ren undo"
  shows "sim (swaps ren undo) (render_day_boundary x) (render_day_boundary (rename_value ren x))"
proof (cases "\<exists>n. x = One (SInt n) \<and> \<not> n < 0")
  case True
  then obtain n where x: "x = One (SInt n)" "\<not> n < 0" by blast
  have doubled: "double_single_quotes u = u" if "plain u" for u
    using that by (induction u) (auto simp: double_single_quotes_def)
  have "plain (int_text n @ '' days'')" by simp
  from doubled [OF this]
  have t: "render_day_boundary x = Inr (''CURRENT_TIMESTAMP - INTERVAL '' @ quoted (int_text n @ '' days''))"
    using x by (simp add: render_day_boundary_def quoted_def)
  have "rename_value ren x = x" by (simp add: x)
  then show ?thesis using swaps_days [OF assms] by (simp add: t)
next
  case False
  then show ?thesis by (auto simp: render_day_boundary_def split: sem_value.splits scalar.splits)
qed

lemma rename_predicate_simps [simp]:
  "ep_entity_id (rename_predicate ren p) = ep_entity_id p" "ep_column (rename_predicate ren p) = ep_column p"
  "ep_operator (rename_predicate ren p) = ep_operator p"
  "ep_value (rename_predicate ren p) = rename_value ren (ep_value p)"
  by (simp_all add: rename_predicate_def)

lemma rename_filter_simps [simp]:
  "lf_field (rename_filter ren f) = lf_field f" "lf_operator (rename_filter ren f) = lf_operator f"
  "lf_value (rename_filter ren f) = rename_value ren (lf_value f)"
  by (simp_all add: rename_filter_def)

lemma sim_predicate:
  assumes "renaming ren undo" "\<And>r. plain (float_repr r)" "names_plain cat v" "plain (ep_column p)"
  shows "sim (swaps ren undo) (render_entity_predicate float_repr cat p)
           (render_entity_predicate float_repr cat (rename_predicate ren p))"
  unfolding render_entity_predicate_def rename_predicate_simps
proof (rule sim_same, goal_cases)
  case (1 column)
  then have col: "plain column" by (rule plain_column [OF assms(3) _ assms(4)])
  note runs = sim_bind [OF sim_scalar_value [where float_repr = float_repr, OF assms(1,2)]]
    sim_bind [OF sim_collection [where float_repr = float_repr, OF assms(1,2)]] sim_bind [OF sim_days [OF assms(1)]]
  show ?case
    by (cases "ep_operator p"; simp only: predicate_operator.case; rule runs; simp add: col swaps_closed)
qed

lemma sim_filter:
  assumes "renaming ren undo" "\<And>r. plain (float_repr r)" "names_plain cat v" "valid_literal_filter f"
  shows "sim (swaps ren undo) (render_literal_filter float_repr cat f)
           (render_literal_filter float_repr cat (rename_filter ren f))"
  unfolding render_literal_filter_def rename_filter_simps
proof (rule sim_same, goal_cases)
  case (1 column)
  have "valid_field_ref (lf_field f)" using assms(4) by (simp add: valid_literal_filter_def)
  then have col: "plain column" using 1 by (rule plain_field [OF assms(3)])
  note runs = sim_bind [OF sim_scalar_value [where float_repr = float_repr, OF assms(1,2)]]
    sim_bind [OF sim_collection [where float_repr = float_repr, OF assms(1,2)]]
  show ?case
    by (cases "lf_operator f"; simp only: literal_operator.case; rule runs; simp add: col)
qed

section \<open>Groups and the query\<close>

lemma plan_predicate_plain:
  "names_plain cat v \<Longrightarrow> p \<in> set (plan_predicates v) \<Longrightarrow> plain (ep_column p)"
  by (simp add: names_plain_def list_all_iff)

lemma sim_branch:
  assumes "renaming ren undo" "\<And>r. plain (float_repr r)" "names_plain cat v" "set branch \<subseteq> set (plan_predicates v)"
  shows "sim (swaps ren undo) (render_branch float_repr cat branch)
           (render_branch float_repr cat (map (rename_predicate ren) branch))"
  unfolding render_branch_def
proof (rule sim_bind)
  show "sim (list_all2 (swaps ren undo)) (traverse (render_entity_predicate float_repr cat) branch)
      (traverse (render_entity_predicate float_repr cat) (map (rename_predicate ren) branch))"
    using assms(4) plan_predicate_plain [OF assms(3)]
    by (intro sim_traverse sim_predicate [where float_repr = float_repr, OF assms(1-3)]) blast
  fix ps qs assume l: "list_all2 (swaps ren undo) ps qs"
  then have "swaps ren undo (join_str '' AND '' (dedup ps)) (join_str '' AND '' (dedup qs))"
    by (intro swaps_join swaps_dedup) simp_all
  then show "sim (swaps ren undo)
      (if ps = [] then Inl (RenderError ''or_branch_empty'') else Inr (''('' @ join_str '' AND '' (dedup ps) @ '')''))
      (if qs = [] then Inl (RenderError ''or_branch_empty'') else Inr (''('' @ join_str '' AND '' (dedup qs) @ '')''))"
    using l by (cases ps; cases qs) (simp_all add: swaps_closed)
qed

lemma sim_group:
  assumes "renaming ren undo" "\<And>r. plain (float_repr r)" "names_plain cat v" "set (concat branches) \<subseteq> set (plan_predicates v)"
  shows "sim (swaps ren undo) (render_group float_repr cat branches)
           (render_group float_repr cat (map (map (rename_predicate ren)) branches))"
  unfolding render_group_def
proof (rule sim_bind)
  show "sim (list_all2 (swaps ren undo)) (traverse (render_branch float_repr cat) branches)
      (traverse (render_branch float_repr cat) (map (map (rename_predicate ren)) branches))"
    using assms(4) by (intro sim_traverse sim_branch [where float_repr = float_repr, OF assms(1-3)]) auto
  fix ps qs assume l: "list_all2 (swaps ren undo) ps qs"
  then have "swaps ren undo (join_str '' OR '' ps) (join_str '' OR '' qs)" by (intro swaps_join) simp_all
  then show "sim (swaps ren undo)
      (if ps = [] then Inl (RenderError ''or_group_empty'') else Inr (''('' @ join_str '' OR '' ps @ '')''))
      (if qs = [] then Inl (RenderError ''or_group_empty'') else Inr (''('' @ join_str '' OR '' qs @ '')''))"
    using l by (cases ps; cases qs) (simp_all add: swaps_closed)
qed

lemma sim_predicates:
  assumes "renaming ren undo" "\<And>r. plain (float_repr r)" "names_plain cat v" "valid_plan (vp_plan v)"
  shows "sim (list_all2 (swaps ren undo)) (render_predicates float_repr cat v)
           (render_predicates float_repr cat (rename_plan ren v))"
proof -
  have 1: "sim (list_all2 (swaps ren undo))
      (traverse (render_entity_predicate float_repr cat) (vp_effective_predicates v))
      (traverse (render_entity_predicate float_repr cat) (map (rename_predicate ren) (vp_effective_predicates v)))"
    by (intro sim_traverse sim_predicate [where float_repr = float_repr, OF assms(1-3)] plan_predicate_plain [OF assms(3)])
      (simp add: plan_predicates_def)
  have 2: "sim (list_all2 (swaps ren undo))
      (traverse (render_literal_filter float_repr cat) (pl_literal_filters (vp_plan v)))
      (traverse (render_literal_filter float_repr cat) (map (rename_filter ren) (pl_literal_filters (vp_plan v))))"
    using assms(4) by (intro sim_traverse sim_filter [where float_repr = float_repr, OF assms(1-3)])
      (simp add: valid_plan_def list_all_iff)
  have 3: "sim (list_all2 (swaps ren undo))
      (traverse (render_group float_repr cat) (vp_rule_or_predicate_groups v))
      (traverse (render_group float_repr cat) (map (map (map (rename_predicate ren))) (vp_rule_or_predicate_groups v)))"
    by (intro sim_traverse sim_group [where float_repr = float_repr, OF assms(1-3)]) (auto simp: plan_predicates_def)
  show ?thesis
    unfolding render_predicates_def rename_plan_filters rename_plan_simps(2,3)
    by (rule sim_bind [OF 1], rule sim_bind [OF 2], rule sim_bind [OF 3])
      (simp add: list_all2_appendI swaps_dedup)
qed

lemma swaps_clause:
  assumes "list_all2 (swaps ren undo) xs ys" "plain sep" "sep \<noteq> []" "plain keyword"
  shows "list_all2 (swaps ren undo) (clause keyword sep xs) (clause keyword sep ys)"
  using assms(1,4) swaps_join [OF assms(1-3)] by (cases xs; cases ys) (simp_all add: clause_def)

lemma swaps_all_plain: "\<forall>x \<in> set xs. plain x \<Longrightarrow> list_all2 (swaps ren undo) xs xs"
  by (simp add: list_all2_same swaps_plain)

lemma assembled_swaps:
  assumes "\<forall>t \<in> set items. plain t" "plain table" "\<forall>t \<in> set js. plain t" "list_all2 (swaps ren undo) ps qs"
    and "\<forall>t \<in> set groups. plain t" "\<forall>t \<in> set having. plain t" "\<forall>t \<in> set order. plain t"
  shows "list_all2 (swaps ren undo) (assembled plan items table js ps groups having order)
           (assembled plan items table js qs groups having order)"
proof -
  have start: "swaps ren undo s s" if "s \<in> {''SELECT '' @ (if pl_distinct plan then ''DISTINCT '' else []) @ join_str '', '' items,
      ''FROM '' @ table}" for s
    using that plain_join [OF assms(1)] assms(2) by (intro swaps_plain) auto
  have limit: "list_all2 (swaps ren undo) (case pl_limit plan of None \<Rightarrow> [] | Some n \<Rightarrow> [''LIMIT '' @ int_text n])
      (case pl_limit plan of None \<Rightarrow> [] | Some n \<Rightarrow> [''LIMIT '' @ int_text n])"
    by (rule swaps_all_plain) (auto split: option.splits)
  note parts = swaps_clause [OF assms(4), of "'' AND ''" "''WHERE ''"]
    swaps_clause [OF swaps_all_plain [OF assms(5)], of "'', ''" "''GROUP BY ''"]
    swaps_clause [OF swaps_all_plain [OF assms(6)], of "'' AND ''" "''HAVING ''"]
    swaps_clause [OF swaps_all_plain [OF assms(7)], of "'', ''" "''ORDER BY ''"]
  show ?thesis
    unfolding assembled_def
    by (intro list_all2_appendI list.rel_intros start swaps_all_plain [OF assms(3)] limit parts) simp_all
qed

lemma renamed_query:
  assumes ren: "renaming ren undo" and names: "names_plain (pk_catalog pack) v" and float: "\<And>r. plain (float_repr r)"
    and plan: "valid_plan (vp_plan v)" and run: "render_validated_semantic_plan float_repr v pack = Inr sql"
  shows "render_validated_semantic_plan float_repr (rename_plan ren v) pack = Inr (rename_literals ren sql)"
  using run
proof (rule rendered_parts, goal_cases)
  case (1 start js items table predicates groups having order)
  note plain = plain_parts [where float_repr = float_repr, OF names float plan]
  obtain renamed where r: "render_predicates float_repr (pk_catalog pack) (rename_plan ren v) = Inr renamed"
      "list_all2 (swaps ren undo) predicates renamed"
    using sim_predicates [where float_repr = float_repr, OF ren float names plan] 1(5) unfolding sim_def by blast
  have "list_all2 (swaps ren undo) (assembled (vp_plan v) items table js predicates groups having order)
      (assembled (vp_plan v) items table js renamed groups having order)"
    by (rule assembled_swaps [OF plain_select_items [OF names plan 1(3)] plain_table [OF names 1(4)]
          plain_join_tree [OF names 1(2)] r(2) plain(1) [OF 1(6)] plain(2) [OF 1(7)] plain(3) [OF 1(8)]])
  then have "swaps ren undo sql (join_str '' '' (assembled (vp_plan v) items table js renamed groups having order))"
    unfolding 1(9) by (rule swaps_join) simp_all
  then have query: "rename_literals ren sql
      = join_str '' '' (assembled (vp_plan v) items table js renamed groups having order)"
    by (auto simp: swaps_def dest: renamesD)
  show ?case
    unfolding query render_validated_semantic_plan_def Let_def rename_plan_fields rename_plan_parts
    by (simp only: 1(1-4,6-8) r(1) ensure_bind if_True result_bind_simps prod.case option.case assembled_def)
qed

lemma renaming_inv:
  assumes "inj ren" "\<And>n. ren (int_text n @ '' days'') = int_text n @ '' days''"
  shows "renaming ren (inv ren)"
  using assms by (simp add: renaming_def)

text \<open>
  C30: no value of a plan becomes query text. When the texts of its values are renamed, in whatever
  injective way that keeps the texts of day counts, the query changes in its string literals, by
  the same renaming, and in no other character. And every literal of the query is closed and, read the way
  PostgreSQL reads it, is a text of the plan's predicates and filters, or a number of days of one:
  a value with quotes in it stays one value. Names are plain: those of the plan are identifiers, and
  the catalog's tables and columns hold no quote.
\<close>

theorem rendered_literals_are_plan_values:
  assumes "names_plain (pk_catalog pack) v" "\<And>r. plain (float_repr r)"
    and "valid_plan (vp_plan v)" "render_validated_semantic_plan float_repr v pack = Inr sql"
    and "inj ren" "\<And>n. ren (int_text n @ '' days'') = int_text n @ '' days''"
  shows "render_validated_semantic_plan float_repr (rename_plan ren v) pack = Inr (rename_literals ren sql)
    \<and> (\<exists>strs. sql_strings sql = Some strs \<and> set strs \<subseteq> plan_texts v)"
  using renamed_query [where float_repr = float_repr, OF renaming_inv [OF assms(5,6)] assms(1-4)]
    rendered_strings [where float_repr = float_repr, OF assms(1-4)] by blast

text \<open>A filter whose values try to end their literal or to do without one, and a harmless value instead.\<close>

definition sample_attack :: string where
  "sample_attack = ''x'' @ [quote] @ '' OR 1=1 --''"

definition sample_quoting :: validated_plan where
  "sample_quoting = \<lparr>vp_plan =
     \<lparr>pl_entity_ids = [''a''], pl_concept_ids = [], pl_rule_ids = [],
      pl_metric_id = None, pl_distinct = False,
      pl_literal_filters = [\<lparr>lf_field = \<lparr>fr_entity_id = ''a'', fr_column = ''name''\<rparr>, lf_operator = LfIn,
         lf_value = Many [SStr sample_attack, SStr ''0 OR 1=1'']\<rparr>],
      pl_relationships = [], pl_output_fields = [\<lparr>fr_entity_id = ''a'', fr_column = ''id''\<rparr>],
      pl_aggregations = [], pl_group_by = [], pl_having = [], pl_order_by = [], pl_limit = None\<rparr>,
     vp_effective_concept_ids = [], vp_effective_predicates = [], vp_rule_or_predicate_groups = [],
     vp_rule_all_of_concept_ids = [], vp_rule_or_concept_groups = [], vp_metric_aggregation_function = None\<rparr>"

definition sample_quoting_pack :: domain_pack where
  "sample_quoting_pack = \<lparr>pk_tables = [],
     pk_catalog = \<lparr>ca_entities = [\<lparr>en_id = ''a'', en_table = ''employees'', en_references = [], en_known_values = []\<rparr>],
       ca_relationships = [], ca_concepts = [], ca_metrics = [], ca_rules = []\<rparr>\<rparr>"

definition sample_query :: "render_error + string" where
  "sample_query = render_validated_semantic_plan (\<lambda>_. ''0.5'') sample_quoting sample_quoting_pack"

definition exchange :: "string \<Rightarrow> string" where
  "exchange s = (if s = sample_attack then ''Ann'' else if s = ''Ann'' then sample_attack else s)"

lemma sample_query_ok: "isl sample_query = False"
  by code_simp

lemma exchange_inj: "inj exchange"
  by (rule injI) (auto simp: exchange_def split: if_splits)

lemma exchange_days: "exchange (int_text n @ '' days'') = int_text n @ '' days''"
proof -
  have last: "last (int_text n @ '' days'') = CHR ''s''" by simp
  have "int_text n @ '' days'' \<noteq> sample_attack" "int_text n @ '' days'' \<noteq> ''Ann''"
    using last by (auto simp: sample_attack_def dest!: arg_cong [of _ _ last])
  then show ?thesis by (simp add: exchange_def)
qed

theorem rendered_literals_are_plan_values_witness:
  "\<exists>sql strs. sample_query = Inr sql \<and> sql_strings sql = Some strs \<and> set strs \<subseteq> {sample_attack, ''0 OR 1=1''}
     \<and> render_validated_semantic_plan (\<lambda>_. ''0.5'') (rename_plan exchange sample_quoting) sample_quoting_pack
         = Inr (rename_literals exchange sql)"
proof -
  obtain sql where sql: "sample_query = Inr sql" using sum.collapse(2) [of sample_query] sample_query_ok by metis
  have names: "names_plain (pk_catalog sample_quoting_pack) sample_quoting"
    by (simp add: names_plain_def sample_quoting_pack_def sample_quoting_def plan_predicates_def)
  have float: "plain ((\<lambda>_ :: rat. ''0.5'') r)" for r by simp
  have plan: "valid_plan (vp_plan sample_quoting)" by code_simp
  have texts: "plan_texts sample_quoting = {sample_attack, ''0 OR 1=1''}"
    by (simp add: plan_texts_def plan_predicates_def sample_quoting_def insert_commute)
  from rendered_literals_are_plan_values [where float_repr = "\<lambda>_. ''0.5''",
      OF names float plan sql [unfolded sample_query_def] exchange_inj exchange_days] sql
  show ?thesis unfolding texts by blast
qed

end
