(* ===== verification/Spec2Isabelle.thy ===== *)
theory Spec2Isabelle
  imports Rls_Context Product_Policies Action_Policy Dashboard_Guarantees Request_Guarantees Preview_Guarantees
    Role_Guarantees Export_Guarantees Plan_Totality Sql_Renaming
begin

text \<open>
  A verification development for QueryOps AI, the governed data workspace of \<open>src/backend/app\<close>.

  \<^bold>\<open>The program.\<close> A user of the workspace has a role, explicit allow and deny rows and access scopes.
  Every request builds a \<^emph>\<open>user access context\<close> from them, asks a policy, and then reads or writes:
  queries and templates (\<open>query_engine\<close>), dashboards with a grid of cards (\<open>dashboards\<close>,
  \<open>api/routes/dashboards.py\<close>), and administrative actions on the IT tables
  (\<open>action_engine\<close>): an action is previewed, submitted, approved by someone else and then
  executed under a restricted database role whose row-level policies see only the approver's scopes.

  \<^bold>\<open>Theories and code.\<close>
  \<^item> \<open>Prelude\<close>, \<open>Json\<close>, \<open>Uuid_Text\<close>: results with errors as values (\<open>result_bind\<close>), Python's
    truth tests and sorted sets, JSON documents with the dictionary reads and hashability tests the
    sources use, \<open>uuid.UUID\<close> of a text.
  \<^item> \<open>Access_Context\<close> (\<open>auth/permissions.py\<close>, \<open>auth/access_context.py\<close>): the tables \<open>auth_tables\<close>,
    \<open>resolve_effective_permission_keys\<close>, \<open>build_user_access_context\<close>. \<open>Access_Policy\<close>
    (\<open>auth/access_policy.py\<close>): \<open>evaluate_access\<close> and its wrappers. \<open>Rls_Context\<close>
    (\<open>core/rls.py\<close>, the policy of migration 0005): the five session settings and the rows they admit.
    \<open>Product_Policies\<close> (\<open>dashboards/policy.py\<close>, \<open>query_engine/request_authorization.py\<close>),
    \<open>Action_Policy\<close> (\<open>action_engine/policy.py\<close>).
  \<^item> \<open>Grid\<close>, \<open>Dashboard_Editor\<close>, \<open>Layout_Editing\<close> (\<open>dashboards/editor.py\<close>): coordinates, parsing,
    the search for a free cell, normalization. \<open>Dashboard_Store\<close>, \<open>Dashboard_Payloads\<close>,
    \<open>Dashboard_Routes\<close> (\<open>api/routes/dashboards.py\<close>): the rows, the pydantic payloads, one definition
    per handler; a handler maps the store to a reply and the store after it.
    \<open>Dashboard_Invariants\<close> and \<open>Dashboard_Guarantees\<close> hold what they keep.
  \<^item> \<open>Action_Records\<close> (\<open>models/product.py\<close>, \<open>audit.py\<close>, \<open>notifications.py\<close>, \<open>presentation.py\<close>),
    \<open>Preview_Snapshot\<close> (\<open>preview.py\<close>: every check of a stored preview, with decimal arithmetic),
    \<open>Action_Handlers\<close> (\<open>revalidation.py\<close>, \<open>disable_execution.py\<close>, \<open>executor.py\<close>, registry and
    dispatch), \<open>Action_Lifecycle\<close> (\<open>service.py\<close>), \<open>Approval_Lifecycle\<close> (\<open>approval.py\<close>).
    \<open>Action_Invariants\<close>, \<open>Approval_Invariants\<close>, \<open>Handler_Contract\<close>, \<open>Snapshot_Preservation\<close>
    hold the library lemmas; \<open>Action_Examples\<close> a small store; \<open>Action_Guarantees\<close> and
    \<open>Request_Guarantees\<close> the properties.
  \<^item> \<open>Preview_Records\<close> (\<open>schemas/actions.py\<close>, \<open>base.py\<close>, \<open>query_engine/runtime_role.py\<close>), \<open>Reclaim_Preview\<close>
    and \<open>Disable_Preview\<close> (\<open>build_preview\<close> of the two handlers in \<open>domains/it_operations/actions\<close> and
    the stored documents of \<open>preview.py\<close>), \<open>Preview_Service\<close> (\<open>create_preview\<close>). What they read besides the
    action store is the record \<open>preview_sources\<close>; the reads run in a session of the query role, whose rows
    the department policies filter. \<open>Preview_Documents\<close>, \<open>Reclaim_Preview_Check\<close> and
    \<open>Disable_Preview_Check\<close> show that what is stored passes \<open>Preview_Snapshot\<close>'s checks;
    \<open>Preview_Guarantees\<close> holds the properties.
  \<^item> \<open>Role_Requests\<close> (\<open>api/routes/role_requests.py\<close>): the five handlers over \<open>role_store\<close>, the account tables
    with the requests and their audit rows; \<open>Role_Guarantees\<close> has the step relation and the properties.
  \<^item> \<open>Csv_Export\<close> (\<open>exports/csv_exporter.py\<close>, with a strict reader as the reference), \<open>Export_Routes\<close>
    (\<open>api/routes/exports.py\<close>, \<open>query_engine/delivery.py\<close>) and \<open>Export_Guarantees\<close>. The SQL validator and the
    injected executor are the parameters \<open>xe_validate\<close> and \<open>xe_execute\<close>.
  \<^item> \<open>Semantic_Catalog\<close> (\<open>query_engine/semantic_catalog.py\<close>, \<open>domain_pack.py\<close>, \<open>result_intent.py\<close>): the
    records of a catalog and the expansion of concepts. A language model proposes a plan over the catalog;
    \<open>Semantic_Plan\<close> and \<open>Plan_Validation\<close> are the plan and its validation (\<open>semantic_plan.py\<close>), with the
    facts about its joins (\<open>relational_semantics.py\<close>) and, in \<open>Plan_Constraints\<close>, the consistency of its
    predicates. \<open>Join_Graph\<close> shows what the union-find check decides, \<open>Join_Order\<close> what the join order
    is, \<open>Population\<close> which rows a join has; \<open>Plan_Guarantees\<close> and \<open>Plan_Totality\<close> hold the properties
    of an accepted plan and of the validation.
  \<^item> \<open>Sql_Render\<close> (\<open>query_engine/sql_renderer.py\<close>): the query of a validated plan, clause by clause.
    \<open>Sql_Labels\<close> is about its column labels, \<open>Sql_Strings\<close>, \<open>Sql_Quoting\<close> and \<open>Sql_Renaming\<close> about
    its literals, the last by comparing the queries of two plans that differ in their values.

  \<^bold>\<open>State and effects.\<close> The database is a record of tables (\<open>auth_tables\<close>, \<open>dashboard_store\<close>,
  \<open>action_store\<close> with the IT tables \<open>it_domain\<close>). One handler is one transaction: row locks
  (\<open>SELECT ... FOR UPDATE\<close>) are the atomicity of a handler, a failed commit leaves the store as it was,
  and what other sessions commit between the two revalidations of an approval is the function
  \<open>en_concurrent\<close> on the IT tables. Clock, fresh ids, the outcome of commits, the failure of single
  statements and the registered handlers are fields of \<open>action_env\<close>, so every property holds for all
  of them. The database collation that orders scopes is a parameter. Errors are values:
  \<open>ServiceError\<close> is a reply with a status code, \<open>Escaped\<close> a Python exception that leaves the handler.
  Plans are immutable: their validation and rendering are functions into a sum of reasons, raised exceptions
  and, as \<open>PlanDiverges\<close> and \<open>RenderDiverges\<close>, loops that do not end; the last are shown never to happen
  (\<open>validation_always_answers\<close>, \<open>output_labels_are_distinct\<close>). The recursion limit of Python is not
  modelled: a chain of concepts as deep as it would raise in the code.

  \<^bold>\<open>Interfaces.\<close> The locales state what one component promises another and are interpreted on the code's
  model: \<open>permission_gate\<close> (a decision that needs a permission and grows with grants; the access policy, the
  action policy and dashboard management), \<open>cell_allocator\<close> and \<open>bounded_allocator\<close> (the search for a free
  cell; the editor's grid), and \<open>approval_handler\<close> (the handler protocol the approval service calls;
  both actions). The clients' lemmas are proved inside them.

  \<^bold>\<open>What is shown.\<close> Decisions: each policy allows exactly what it describes, grows with grants, and the
  row policies show exactly the subject's departments. Layouts: normalization is sound, total and
  stable; stored documents parse back. Dashboards: the store invariant, the layout version as a guard,
  authorization of every write, stale payloads, the catalog, whose card sources stay readable when archived. Actions: the table invariant over all
  interleavings, the refinement of the abstract life cycle, finality, what a completed approval was
  authorized for, that a ready one executes, that a failed one leaves no trace, that counts add up, that
  previews are stored valid and stay valid, that a reclaim preview selects exactly the due assignments, that
  the pending list is complete, and that audit metadata stays typed. Roles: a role changes only by a fresh
  decision of somebody else, requests stay consistent, and which requests can be approved. Exports: the
  document reads back, nothing in it starts a formula, and who is delivered which data. Queries: an accepted
  plan stays within the candidates and the columns its user is authorized for; its relationships form a
  spanning tree, which the union-find check decides exactly; its join order exists whenever one does; its
  comparisons with values can hold together exactly when they are accepted (those with a number of days are
  not looked at); a metric counts each member of its population
  once; validation always answers; and in the rendered query labels are
  distinct and values change nothing but its literals.

  \<^bold>\<open>Bounds.\<close> Normalization searches rows 0 to 9999 of the grid; 1667 cards of at most six rows always
  leave a free row, which is the bound of the totality theorem. A plan has at most 64 items of each kind
  (\<open>MAX_PLAN_ITEMS\<close>), so at most 128 labels, whose numbers have at most three digits and leave room
  within the 63 bytes of a PostgreSQL name. Decimals are rounded to the 28 digits of
  Python's default context. Integers are unbounded, as in Python. No definition uses fuel.

  \<^bold>\<open>Not modelled.\<close> The language-model providers and the query pipeline around them, which call services
  over the network; the SQL validator and the conformance check, which walk the syntax trees of a third-party
  parser, and the executor, which runs on a live database; the loaders of YAML packs and the matching of question
  text against catalog phrases (what a loaded catalog guarantees is the hypothesis \<open>catalog_consistent\<close>); the
  planner's projection of the catalog and the observations attached to errors; the evaluation suite, sessions
  and sign-in, audit listing and home page, seed data and the HTTP layer. The JSON text of the
  replies is reduced to the fields the properties speak of; columns that no modelled code reads are left
  out of the records.
\<close>

end
